(* ===== verification/Go_Prelude.thy ===== *)
theory Go_Prelude
  imports Complex_Main
    "HOL-Library.Finite_Map"
    "HOL-Library.List_Lexorder"
    "HOL-Library.Char_ord"
    "HOL-Library.Sublist"
    "HOL-Library.Multiset"
begin

text \<open>
  What every component shares: the result type of a fallible Go function, Go maps as finite
  maps, the two slice idioms the sources repeat (remove one index, overwrite the first element
  with a given key), the standard library's \<open>strings.TrimSpace\<close>, \<open>strings.ToLower\<close>,
  \<open>strings.EqualFold\<close> and the \<open>%d\<close> verb, and the contract of a component whose
  operations keep an invariant (the locale \<open>invariant_system\<close>).

  A Go string is its sequence of bytes, a HOL \<^typ>\<open>string\<close>. Go copies (\<open>copyMap\<close>,
  \<open>cloneTaskRecord\<close>, \<open>append([]T(nil), xs...)\<close>) are the identity here, because HOL
  values are never shared and mutated.
\<close>

section \<open>Results, maps and collections of facts\<close>

named_theorems go_simps \<open>rewriting rules of the Go library model\<close>
named_theorems rec_frame \<open>what an operation leaves unchanged\<close>

type_synonym ('e, 'a) result = "'e + 'a"
type_synonym ('k, 'v) gomap = "('k, 'v) fmap"

abbreviation Err :: "'e \<Rightarrow> ('e, 'a) result" where "Err \<equiv> Inl"
abbreviation Ok :: "'a \<Rightarrow> ('e, 'a) result" where "Ok \<equiv> Inr"

text \<open>The keys of a Go map as \<open>sort.Strings\<close> leaves them.\<close>

definition sorted_keys :: "(string, 'v) gomap \<Rightarrow> string list" where
  "sorted_keys m = sorted_list_of_fset (fmdom m)"

lemma set_sorted_keys [simp]: "set (sorted_keys m) = fset (fmdom m)"
  by (simp add: sorted_keys_def)

lemma distinct_sorted_keys [simp]: "distinct (sorted_keys m)"
  by (simp add: sorted_keys_def sorted_list_of_fset.rep_eq)

lemma sorted_sorted_keys [simp]: "sorted (sorted_keys m)"
  by (simp add: sorted_keys_def sorted_list_of_fset.rep_eq)

lemma fmdom_iff_lookup: "k |\<in>| fmdom m \<longleftrightarrow> (\<exists>v. fmlookup m k = Some v)"
  by (simp add: fmlookup_dom_iff)

lemma mem_sorted_keys: "k \<in> set (sorted_keys m) \<longleftrightarrow> (\<exists>v. fmlookup m k = Some v)"
  by (simp add: fmlookup_dom_iff)

lemma sorted_keys_fmupd_same:
  "fmlookup m k = Some v \<Longrightarrow> sorted_keys (fmupd k w m) = sorted_keys m"
  by (simp add: sorted_keys_def fmdomI finsert_absorb)

section \<open>Slices\<close>

text \<open>\<open>xs = append(xs[:i], xs[i+1:]...)\<close>.\<close>

definition remove_index :: "nat \<Rightarrow> 'a list \<Rightarrow> 'a list" where
  "remove_index i xs = take i xs @ drop (Suc i) xs"

lemma mset_remove_index: "i < length xs \<Longrightarrow> add_mset (xs ! i) (mset (remove_index i xs)) = mset xs"
proof -
  assume "i < length xs"
  then have "xs = take i xs @ xs ! i # drop (Suc i) xs" by (rule id_take_nth_drop)
  then have "mset xs = mset (take i xs @ xs ! i # drop (Suc i) xs)" by simp
  then show ?thesis by (simp add: remove_index_def)
qed

lemma set_remove_index: "i < length xs \<Longrightarrow> insert (xs ! i) (set (remove_index i xs)) = set xs"
  using arg_cong [OF mset_remove_index [of i xs], of set_mset] by simp

lemma set_remove_index_subset: "set (remove_index i xs) \<subseteq> set xs"
  by (auto simp: remove_index_def dest: in_set_takeD in_set_dropD)

lemma distinct_remove_index: "distinct xs \<Longrightarrow> distinct (remove_index i xs)"
  using set_take_disj_set_drop_if_distinct [of xs i "Suc i"]
  by (auto simp: remove_index_def)

lemma distinct_remove_index_nth:
  assumes "distinct xs" "i < length xs"
  shows "xs ! i \<notin> set (remove_index i xs)"
proof -
  have "mset xs = add_mset (xs ! i) (mset (remove_index i xs))"
    using assms(2) by (simp add: mset_remove_index)
  then have "count (mset xs) (xs ! i) = Suc (count (mset (remove_index i xs)) (xs ! i))" by simp
  moreover have "count (mset xs) (xs ! i) \<le> 1"
    using assms(1) by (simp add: distinct_count_atmost_1)
  ultimately show ?thesis by (simp add: count_mset_0_iff)
qed

text \<open>
  \<open>for i := range xs { if key(xs[i]) == k { xs[i] = v; break } }\<close>.
\<close>

fun set_first :: "('a \<Rightarrow> bool) \<Rightarrow> 'a \<Rightarrow> 'a list \<Rightarrow> 'a list" where
  "set_first p v [] = []"
| "set_first p v (x # xs) = (if p x then v # xs else x # set_first p v xs)"

lemma length_set_first [simp]: "length (set_first p v xs) = length xs"
  by (induction xs) auto

lemma set_set_first: "x \<in> set (set_first p v xs) \<Longrightarrow> x = v \<or> x \<in> set xs"
  by (induction xs) (auto split: if_splits)

lemma set_first_append_last:
  "\<forall>x \<in> set xs. \<not> p x \<Longrightarrow> p y \<Longrightarrow> set_first p v (xs @ [y]) = xs @ [v]"
  by (induction xs) auto

lemma map_set_first_same:
  assumes "\<And>x. x \<in> set xs \<Longrightarrow> p x \<Longrightarrow> f x = f v"
  shows "map f (set_first p v xs) = map f xs"
  using assms by (induction xs) auto

section \<open>Text functions of the standard library\<close>

subsection \<open>TrimSpace\<close>

text \<open>
  The UTF-8 encodings of the code points \<open>unicode.IsSpace\<close> accepts. UTF-8 is
  self-synchronising, so stripping a white rune at an end of a string is stripping one of these
  byte sequences, also where other bytes of the string are not valid UTF-8.
\<close>

definition white_runes :: "string list" where
  "white_runes =
     [[CHR 0x09], [CHR 0x0A], [CHR 0x0B], [CHR 0x0C], [CHR 0x0D], [CHR 0x20],
      [CHR 0xC2, CHR 0x85], [CHR 0xC2, CHR 0xA0], [CHR 0xE1, CHR 0x9A, CHR 0x80],
      [CHR 0xE2, CHR 0x80, CHR 0x80], [CHR 0xE2, CHR 0x80, CHR 0x81],
      [CHR 0xE2, CHR 0x80, CHR 0x82], [CHR 0xE2, CHR 0x80, CHR 0x83],
      [CHR 0xE2, CHR 0x80, CHR 0x84], [CHR 0xE2, CHR 0x80, CHR 0x85],
      [CHR 0xE2, CHR 0x80, CHR 0x86], [CHR 0xE2, CHR 0x80, CHR 0x87],
      [CHR 0xE2, CHR 0x80, CHR 0x88], [CHR 0xE2, CHR 0x80, CHR 0x89],
      [CHR 0xE2, CHR 0x80, CHR 0x8A], [CHR 0xE2, CHR 0x80, CHR 0xA8],
      [CHR 0xE2, CHR 0x80, CHR 0xA9], [CHR 0xE2, CHR 0x80, CHR 0xAF],
      [CHR 0xE2, CHR 0x81, CHR 0x9F], [CHR 0xE3, CHR 0x80, CHR 0x80]]"

function strip_prefixes :: "'a list list \<Rightarrow> 'a list \<Rightarrow> 'a list" where
  "strip_prefixes ps s =
     (case find (\<lambda>p. p \<noteq> [] \<and> prefix p s) ps of
        None \<Rightarrow> s
      | Some p \<Rightarrow> strip_prefixes ps (drop (length p) s))"
  by pat_completeness auto
termination
proof (relation "measure (\<lambda>(ps, s). length s)", goal_cases)
  case 1
  then show ?case by simp
next
  case (2 ps s p)
  then have "p \<noteq> []" "prefix p s" by (auto simp: find_Some_iff)
  then show ?case by (cases s) auto
qed

declare strip_prefixes.simps [simp del]

definition TrimSpace :: "string \<Rightarrow> string" where
  "TrimSpace s =
     rev (strip_prefixes (map rev white_runes) (rev (strip_prefixes white_runes s)))"

definition no_prefix :: "'a list list \<Rightarrow> 'a list \<Rightarrow> bool" where
  "no_prefix ps s \<longleftrightarrow> (\<forall>p \<in> set ps. p \<noteq> [] \<longrightarrow> \<not> prefix p s)"

lemma strip_prefixes_no_prefix: "no_prefix ps (strip_prefixes ps s)"
proof (induction ps s rule: strip_prefixes.induct)
  case (1 ps s)
  show ?case
  proof (cases "find (\<lambda>p. p \<noteq> [] \<and> prefix p s) ps")
    case None
    then have "no_prefix ps s" by (auto simp: no_prefix_def find_None_iff)
    with None show ?thesis by (simp add: strip_prefixes.simps [of ps s])
  next
    case (Some p)
    with 1 show ?thesis by (simp add: strip_prefixes.simps [of ps s])
  qed
qed

lemma strip_prefixes_id: "no_prefix ps s \<Longrightarrow> strip_prefixes ps s = s"
proof -
  assume "no_prefix ps s"
  then have "find (\<lambda>p. p \<noteq> [] \<and> prefix p s) ps = None"
    by (auto simp: no_prefix_def find_None_iff)
  then show ?thesis by (simp add: strip_prefixes.simps [of ps s])
qed

lemma strip_prefixes_suffix: "suffix (strip_prefixes ps s) s"
proof (induction ps s rule: strip_prefixes.induct)
  case (1 ps s)
  show ?case
  proof (cases "find (\<lambda>p. p \<noteq> [] \<and> prefix p s) ps")
    case None
    then show ?thesis by (simp add: strip_prefixes.simps [of ps s])
  next
    case (Some p)
    with 1 have "suffix (strip_prefixes ps (drop (length p) s)) (drop (length p) s)" by simp
    also have "suffix (drop (length p) s) s" by (rule suffix_drop)
    finally show ?thesis using Some by (simp add: strip_prefixes.simps [of ps s])
  qed
qed

lemma no_prefix_prefix: "no_prefix ps s \<Longrightarrow> prefix t s \<Longrightarrow> no_prefix ps t"
  unfolding no_prefix_def using prefix_order.trans by blast

text \<open>A string \<open>TrimSpace\<close> leaves alone.\<close>

definition trimmed :: "string \<Rightarrow> bool" where
  "trimmed s \<longleftrightarrow> no_prefix white_runes s \<and> no_prefix (map rev white_runes) (rev s)"

lemma trimmed_TrimSpace [simp, intro]: "trimmed (TrimSpace s)"
proof -
  let ?l = "strip_prefixes white_runes s"
  let ?r = "strip_prefixes (map rev white_runes) (rev ?l)"
  have "suffix ?r (rev ?l)" by (rule strip_prefixes_suffix)
  then have "prefix (rev ?r) ?l" by (simp add: suffix_to_prefix)
  then have "no_prefix white_runes (rev ?r)"
    by (rule no_prefix_prefix [OF strip_prefixes_no_prefix])
  then show ?thesis
    by (simp add: trimmed_def TrimSpace_def strip_prefixes_no_prefix)
qed

lemma TrimSpace_trimmed [simp]: "trimmed s \<Longrightarrow> TrimSpace s = s"
  by (simp add: trimmed_def TrimSpace_def strip_prefixes_id)

lemma TrimSpace_idem [simp]: "TrimSpace (TrimSpace s) = TrimSpace s"
  by simp

lemma trimmed_iff: "trimmed s \<longleftrightarrow> TrimSpace s = s"
  by (metis TrimSpace_trimmed trimmed_TrimSpace)

lemma trimmed_Nil [simp]: "trimmed []"
  by (auto simp: trimmed_def no_prefix_def)

lemma TrimSpace_Nil [simp]: "TrimSpace [] = []"
  by (rule TrimSpace_trimmed) simp


lemma white_runes_nonempty: "p \<in> set white_runes \<Longrightarrow> p \<noteq> []"
  by (auto simp: white_runes_def)

text \<open>
  A separator that is no continuation byte of a white rune keeps the left end trimmed, and a last
  byte that ends no white rune makes the right end trimmed.
\<close>

lemma no_prefix_append:
  assumes "no_prefix ps t" and "t \<noteq> []" and "\<And>p. p \<in> set ps \<Longrightarrow> c \<notin> set (tl p)"
  shows "no_prefix ps (t @ c # r)"
  unfolding no_prefix_def
proof (intro ballI impI notI)
  fix p assume p: "p \<in> set ps" "p \<noteq> []" "prefix p (t @ c # r)"
  from p(3) consider "prefix p t" | us where "p = t @ us" "prefix us (c # r)"
    by (auto simp: prefix_append)
  then show False
  proof cases
    case 1
    with p assms(1) show False by (auto simp: no_prefix_def)
  next
    case 2
    show False
    proof (cases us)
      case Nil
      with 2 p assms(1) show False by (auto simp: no_prefix_def)
    next
      case (Cons u us')
      with 2 have "u = c" by auto
      with 2 Cons assms(2) have "c \<in> set (tl p)" by (cases t) auto
      with assms(3) p show False by blast
    qed
  qed
qed

lemma no_prefix_rev_snoc:
  assumes "\<And>p. p \<in> set ps \<Longrightarrow> p \<noteq> [] \<Longrightarrow> hd p \<noteq> c"
  shows "no_prefix ps (c # r)"
  unfolding no_prefix_def
proof (intro ballI impI notI)
  fix p assume "p \<in> set ps" "p \<noteq> []" "prefix p (c # r)"
  then show False using assms [of p] by (auto simp: prefix_Cons)
qed

text \<open>The bytes of identifiers the sources build: letters, digits and ASCII punctuation.\<close>

definition plain_byte :: "char \<Rightarrow> bool" where
  "plain_byte c \<longleftrightarrow> 32 < (of_char c :: nat) \<and> (of_char c :: nat) < 127"

lemma plain_byte_white: "plain_byte c \<Longrightarrow> p \<in> set white_runes \<Longrightarrow> c \<notin> set p"
  by (auto simp: white_runes_def plain_byte_def)

lemma trimmed_append_plain:
  assumes "trimmed t" and "t \<noteq> []" and "r \<noteq> []" and "\<forall>c \<in> set r. plain_byte c"
  shows "trimmed (t @ r)"
proof -
  obtain c r' where r: "r = c # r'" using assms(3) by (cases r) auto
  obtain l d where l: "r = l @ [d]" using assms(3) by (cases r rule: rev_cases) auto
  have "c \<notin> set (tl p)" if "p \<in> set white_runes" for p
    using plain_byte_white [of c p] that assms(4) r by (cases p) auto
  then have "no_prefix white_runes (t @ c # r')"
    using assms(1,2) by (intro no_prefix_append) (auto simp: trimmed_def)
  moreover have "no_prefix (map rev white_runes) (d # rev (t @ l))"
  proof (rule no_prefix_rev_snoc)
    fix p assume p: "p \<in> set (map rev white_runes)" "p \<noteq> []"
    then obtain q where q: "q \<in> set white_runes" "p = rev q" by auto
    have "hd p \<in> set q" using p(2) q(2) by (metis hd_in_set set_rev)
    then show "hd p \<noteq> d" using plain_byte_white [of d q] q(1) assms(4) l by auto
  qed
  ultimately show ?thesis by (simp add: trimmed_def r [symmetric] l)
qed

lemma trimmed_plain:
  assumes "\<forall>c \<in> set s. plain_byte c"
  shows "trimmed s"
proof (cases s)
  case Nil
  then show ?thesis by simp
next
  case (Cons c r)
  have "trimmed [c]"
    using plain_byte_white [of c "[c]"] assms Cons
    by (auto simp: trimmed_def no_prefix_def prefix_Cons)
  then show ?thesis
  proof (cases r)
    case Nil
    with \<open>trimmed [c]\<close> Cons show ?thesis by simp
  next
    case (Cons d r')
    then show ?thesis
      using trimmed_append_plain [of "[c]" r] \<open>trimmed [c]\<close> assms \<open>s = c # r\<close> by simp
  qed
qed

lemma trimmed_plain_ends:
  assumes "s \<noteq> []" "plain_byte (hd s)" "plain_byte (last s)"
  shows "trimmed s"
proof -
  obtain c r where s: "s = c # r" using assms(1) by (cases s) auto
  have c: "c \<notin> set p" if "p \<in> set white_runes" for p
    using plain_byte_white [of c p] that assms(2) s by simp
  have "no_prefix white_runes (c # r)"
    by (rule no_prefix_rev_snoc) (use c in \<open>metis hd_in_set\<close>)
  moreover have "no_prefix (map rev white_runes) (last s # rev (butlast s))"
  proof (rule no_prefix_rev_snoc)
    fix p assume p: "p \<in> set (map rev white_runes)" "p \<noteq> []"
    then obtain q where q: "q \<in> set white_runes" "p = rev q" by auto
    have "hd p \<in> set q" using p(2) q(2) by (metis hd_in_set set_rev)
    then show "hd p \<noteq> last s" using plain_byte_white [of "last s" q] q(1) assms(3) by auto
  qed
  moreover have "rev s = last s # rev (butlast s)"
    using assms(1) by (cases s rule: rev_cases) simp_all
  ultimately show ?thesis by (simp add: trimmed_def s)
qed

text \<open>Evaluation looks at the two end bytes first.\<close>

lemma TrimSpace_code [code]:
  "TrimSpace s =
     (if s = [] \<or> plain_byte (hd s) \<and> plain_byte (last s) then s
      else rev (strip_prefixes (map rev white_runes) (rev (strip_prefixes white_runes s))))"
proof (cases "s = [] \<or> plain_byte (hd s) \<and> plain_byte (last s)")
  case True
  then have "trimmed s" using trimmed_plain_ends [of s] by (cases "s = []") auto
  with True show ?thesis by simp
next
  case False
  then show ?thesis by (simp only: TrimSpace_def if_False)
qed

subsection \<open>ToLower and EqualFold\<close>

text \<open>
  \<open>strings.ToLower\<close>. The two code points outside ASCII whose lower case is ASCII (U+0130,
  whose simple lower case is \<open>i\<close>, and U+212A, \<open>k\<close>) are mapped as Go maps them; every
  other byte outside ASCII is kept. A comparison of the result with an ASCII constant agrees with
  Go on every string; where the result itself is stored, it is Go's for ASCII texts (Go also
  lower-cases the letters of other scripts).
\<close>

definition lower_byte :: "char \<Rightarrow> char" where
  "lower_byte c =
     (if (65::nat) \<le> of_char c \<and> of_char c \<le> (90::nat) then char_of (of_char c + (32::nat)) else c)"

fun ToLower :: "string \<Rightarrow> string" where
  "ToLower [] = []"
| "ToLower (c # s) =
     (if c = CHR 0xC4 \<and> take 1 s = [CHR 0xB0] then CHR ''i'' # ToLower (drop 1 s)
      else if c = CHR 0xE2 \<and> take 2 s = [CHR 0x84, CHR 0xAA] then CHR ''k'' # ToLower (drop 2 s)
      else lower_byte c # ToLower s)"

text \<open>
  \<open>strings.EqualFold\<close> against an ASCII text: simple folding, under which U+017F folds to
  \<open>s\<close> and U+212A to \<open>k\<close>.
\<close>

fun fold_key :: "string \<Rightarrow> string" where
  "fold_key [] = []"
| "fold_key (c # s) =
     (if c = CHR 0xC5 \<and> take 1 s = [CHR 0xBF] then CHR ''s'' # fold_key (drop 1 s)
      else if c = CHR 0xE2 \<and> take 2 s = [CHR 0x84, CHR 0xAA] then CHR ''k'' # fold_key (drop 2 s)
      else lower_byte c # fold_key s)"

definition EqualFold :: "string \<Rightarrow> string \<Rightarrow> bool" where
  "EqualFold s t \<longleftrightarrow> fold_key s = fold_key t"

lemma EqualFold_refl [simp]: "EqualFold s s"
  by (simp add: EqualFold_def)

lemma lower_byte_idem [simp]: "lower_byte (lower_byte c) = lower_byte c"
proof (cases "(65::nat) \<le> of_char c \<and> of_char c \<le> (90::nat)")
  case True
  then have "of_char (char_of (of_char c + (32::nat))) = of_char c + (32::nat)"
    by simp
  with True show ?thesis by (simp add: lower_byte_def)
next
  case False
  then have "lower_byte c = c" by (auto simp: lower_byte_def)
  then show ?thesis by simp
qed

definition ascii_lower :: "string \<Rightarrow> bool" where
  "ascii_lower s \<longleftrightarrow> (\<forall>c \<in> set s. (of_char c :: nat) < 128 \<and> lower_byte c = c)"

lemma ToLower_ascii_lower: "ascii_lower s \<Longrightarrow> ToLower s = s"
  by (induction s) (auto simp: ascii_lower_def)

text \<open>
  Lower-casing twice is lower-casing once, and it keeps a trimmed text trimmed: a byte that is not
  a lower-case letter of the result was there before.
\<close>

definition lower_letter :: "char \<Rightarrow> bool" where
  "lower_letter c \<longleftrightarrow> (97::nat) \<le> of_char c \<and> of_char c \<le> (122::nat)"

definition dotted_i :: "char \<Rightarrow> string \<Rightarrow> bool" where
  "dotted_i c s \<longleftrightarrow> c = CHR 0xC4 \<and> take 1 s = [CHR 0xB0]"

definition kelvin :: "char \<Rightarrow> string \<Rightarrow> bool" where
  "kelvin c s \<longleftrightarrow> c = CHR 0xE2 \<and> take 2 s = [CHR 0x84, CHR 0xAA]"

lemma ToLower_Cons:
  "ToLower (c # s) =
     (if dotted_i c s then CHR ''i'' # ToLower (drop 1 s)
      else if kelvin c s then CHR ''k'' # ToLower (drop 2 s)
      else lower_byte c # ToLower s)"
  by (simp only: ToLower.simps dotted_i_def kelvin_def)

lemma ToLower_induct [case_names Nil dotted kelvin other]:
  assumes "P []"
    and "\<And>c s. dotted_i c s \<Longrightarrow> P (drop 1 s) \<Longrightarrow> P (c # s)"
    and "\<And>c s. \<not> dotted_i c s \<Longrightarrow> kelvin c s \<Longrightarrow> P (drop 2 s) \<Longrightarrow> P (c # s)"
    and "\<And>c s. \<not> dotted_i c s \<Longrightarrow> \<not> kelvin c s \<Longrightarrow> P s \<Longrightarrow> P (c # s)"
  shows "P s"
proof (induction s rule: ToLower.induct)
  case 1
  then show ?case by (rule assms(1))
next
  case (2 c s)
  show ?case
  proof (cases "dotted_i c s")
    case True
    then show ?thesis by (intro assms(2) 2(1)) (simp_all only: dotted_i_def)
  next
    case False
    note f = this
    show ?thesis
    proof (cases "kelvin c s")
      case True
      with f show ?thesis by (intro assms(3) 2(2)) (simp_all only: dotted_i_def kelvin_def simp_thms)
    next
      case False
      with f show ?thesis by (intro assms(4) 2(3)) (simp_all only: dotted_i_def kelvin_def simp_thms)
    qed
  qed
qed

declare ToLower.simps(2) [simp del]

lemma lower_byte_not_letter: "\<not> lower_letter (lower_byte c) \<Longrightarrow> lower_byte c = c"
  by (auto simp: lower_byte_def lower_letter_def split: if_splits)

lemma lower_letter_ik [simp]: "lower_letter CHR ''i''" "lower_letter CHR ''k''"
  by (simp_all add: lower_letter_def)

lemma prefix_ToLower:
  "prefix w (ToLower s) \<Longrightarrow> \<forall>c \<in> set w. \<not> lower_letter c \<Longrightarrow> prefix w s"
proof (induction s arbitrary: w rule: ToLower_induct)
  case (other c s)
  then show ?case
    using lower_byte_not_letter [of c] by (cases w) (auto simp: ToLower_Cons)
next
  case (dotted c s)
  then show ?case by (cases w) (auto simp: ToLower_Cons)
next
  case (kelvin c s)
  then show ?case by (cases w) (auto simp: ToLower_Cons)
qed simp

lemma ToLower_id: "\<forall>c \<in> set (ToLower s). \<not> lower_letter c \<Longrightarrow> ToLower s = s"
proof (induction s rule: ToLower_induct)
  case (other c s)
  then show ?case using lower_byte_not_letter [of c] by (simp add: ToLower_Cons)
qed (simp_all add: ToLower_Cons)

lemma suffix_ToLower:
  "suffix w (ToLower s) \<Longrightarrow> \<forall>c \<in> set w. \<not> lower_letter c \<Longrightarrow> suffix w s"
proof (induction s rule: ToLower_induct)
  case (other c s)
  show ?case
  proof (cases "suffix w (ToLower s)")
    case True
    then show ?thesis using other by (simp add: suffix_Cons)
  next
    case False
    then have w: "w = ToLower (c # s)" using other by (simp add: ToLower_Cons suffix_Cons)
    then have "ToLower (c # s) = c # s" using other.prems(2) by (intro ToLower_id) simp
    then show ?thesis using w by simp
  qed
next
  case (dotted c s)
  then have "suffix w (ToLower (drop 1 s))" by (auto simp: ToLower_Cons suffix_Cons)
  then have "suffix w (drop 1 s)" using dotted by blast
  then show ?case using suffix_drop [of 1 s] suffix_order.trans [of w "drop 1 s" s] by (simp add: suffix_Cons)
next
  case (kelvin c s)
  then have "suffix w (ToLower (drop 2 s))" by (auto simp: ToLower_Cons suffix_Cons)
  then have "suffix w (drop 2 s)" using kelvin by blast
  then show ?case using suffix_drop [of 2 s] suffix_order.trans [of w "drop 2 s" s] by (simp add: suffix_Cons)
qed simp

lemma white_not_letter: "p \<in> set white_runes \<Longrightarrow> c \<in> set p \<Longrightarrow> \<not> lower_letter c"
  by (auto simp: white_runes_def lower_letter_def)

lemma no_prefix_ToLower: "no_prefix white_runes s \<Longrightarrow> no_prefix white_runes (ToLower s)"
  unfolding no_prefix_def using prefix_ToLower white_not_letter by blast

lemma no_suffix_ToLower:
  assumes "no_prefix (map rev white_runes) (rev s)"
  shows "no_prefix (map rev white_runes) (rev (ToLower s))"
  unfolding no_prefix_def
proof (intro ballI impI notI)
  fix p assume p: "p \<in> set (map rev white_runes)" "p \<noteq> []" "prefix p (rev (ToLower s))"
  then obtain q where q: "q \<in> set white_runes" "p = rev q" by auto
  then have "suffix q (ToLower s)" using p(3) by (simp add: suffix_to_prefix)
  then have "suffix q s" by (rule suffix_ToLower) (use white_not_letter q(1) in blast)
  then have "prefix p (rev s)" using q(2) by (simp add: suffix_to_prefix)
  then show False using assms p by (auto simp: no_prefix_def)
qed

lemma trimmed_ToLower [simp]: "trimmed s \<Longrightarrow> trimmed (ToLower s)"
  by (simp add: trimmed_def no_prefix_ToLower no_suffix_ToLower)

lemma lower_byte_ik [simp]: "lower_byte CHR ''i'' = CHR ''i''" "lower_byte CHR ''k'' = CHR ''k''"
  by (simp_all add: lower_byte_def)

lemma not_dotted_ToLower: "\<not> dotted_i c s \<Longrightarrow> \<not> dotted_i (lower_byte c) (ToLower s)"
proof
  assume a: "\<not> dotted_i c s" "dotted_i (lower_byte c) (ToLower s)"
  then have "lower_byte c = c"
    by (intro lower_byte_not_letter) (simp add: dotted_i_def lower_letter_def)
  moreover have "prefix [CHR 0xB0] (ToLower s)"
    using a(2) take_is_prefix [of 1 "ToLower s"] by (simp add: dotted_i_def)
  then have "prefix [CHR 0xB0] s" by (rule prefix_ToLower) (simp add: lower_letter_def)
  ultimately show False using a by (auto simp: dotted_i_def prefix_def)
qed

lemma not_kelvin_ToLower: "\<not> kelvin c s \<Longrightarrow> \<not> kelvin (lower_byte c) (ToLower s)"
proof
  assume a: "\<not> kelvin c s" "kelvin (lower_byte c) (ToLower s)"
  then have "lower_byte c = c"
    by (intro lower_byte_not_letter) (simp add: kelvin_def lower_letter_def)
  moreover have "prefix [CHR 0x84, CHR 0xAA] (ToLower s)"
    using a(2) take_is_prefix [of 2 "ToLower s"] by (simp add: kelvin_def)
  then have "prefix [CHR 0x84, CHR 0xAA] s" by (rule prefix_ToLower) (simp add: lower_letter_def)
  ultimately show False using a by (auto simp: kelvin_def prefix_def)
qed

lemma ToLower_idem [simp]: "ToLower (ToLower s) = ToLower s"
proof (induction s rule: ToLower_induct)
  case (other c s)
  then show ?case by (simp add: ToLower_Cons not_dotted_ToLower not_kelvin_ToLower)
qed (simp_all add: ToLower_Cons dotted_i_def kelvin_def)

subsection \<open>The \<open>%d\<close> verb\<close>

fun nat_dec :: "nat \<Rightarrow> string" where
  "nat_dec n =
     (if n < 10 then [char_of (48 + n)] else nat_dec (n div 10) @ [char_of (48 + n mod 10)])"

declare nat_dec.simps [simp del]

definition Itoa :: "int \<Rightarrow> string" where
  "Itoa i = (if i < 0 then CHR ''-'' # nat_dec (nat (- i)) else nat_dec (nat i))"

definition digit :: "char \<Rightarrow> bool" where
  "digit c \<longleftrightarrow> (48::nat) \<le> of_char c \<and> of_char c \<le> (57::nat)"

lemma of_char_char_of_small: "n < 256 \<Longrightarrow> of_char (char_of n) = (n::nat)"
  by simp

lemma nat_dec_digits: "c \<in> set (nat_dec n) \<Longrightarrow> digit c"
proof (induction n rule: nat_dec.induct)
  case (1 n)
  show ?case
  proof (cases "n < 10")
    case True
    with "1.prems" show ?thesis
      by (auto simp: nat_dec.simps [of n] digit_def of_char_char_of_small)
  next
    case False
    have "of_char (char_of (48 + n mod 10)) = 48 + n mod 10"
      by (rule of_char_char_of_small) simp
    moreover have "n mod 10 < 10" by simp
    ultimately show ?thesis using "1.prems" "1.IH" False
      by (auto simp: nat_dec.simps [of n] digit_def)
  qed
qed

lemma nat_dec_nonempty [simp]: "nat_dec n \<noteq> []"
  by (subst nat_dec.simps) simp

definition dec_val :: "string \<Rightarrow> nat" where
  "dec_val s = foldl (\<lambda>a c. 10 * a + (of_char c - 48)) 0 s"

lemma dec_val_nat_dec [simp]: "dec_val (nat_dec n) = n"
proof (induction n rule: nat_dec.induct)
  case (1 n)
  show ?case
  proof (cases "n < 10")
    case True
    then show ?thesis
      by (simp add: nat_dec.simps [of n] dec_val_def)
  next
    case False
    have "of_char (char_of (48 + n mod 10)) = 48 + n mod 10"
      by (rule of_char_char_of_small) simp
    then show ?thesis using False "1.IH"
      by (simp add: nat_dec.simps [of n] dec_val_def del: of_char_of)
  qed
qed

lemma nat_dec_inject [simp]: "nat_dec m = nat_dec n \<longleftrightarrow> m = n"
  by (metis dec_val_nat_dec)

lemma digit_plain: "digit c \<Longrightarrow> plain_byte c"
  by (simp add: digit_def plain_byte_def)

lemma nat_dec_plain: "\<forall>c \<in> set (nat_dec n). plain_byte c"
  using nat_dec_digits digit_plain by blast

lemma Itoa_of_nat [simp]: "Itoa (int n) = nat_dec n"
  by (simp add: Itoa_def)

text \<open>Evaluation computes the digits on integers.\<close>

function int_dec :: "int \<Rightarrow> string" where
  "int_dec i = (if i < 10 then [char_of (48 + i)] else int_dec (i div 10) @ [char_of (48 + i mod 10)])"
  by pat_completeness auto
termination by (relation "measure nat") auto

declare int_dec.simps [simp del]

lemma char_of_int: "char_of (int n) = char_of n"
  by (simp add: char_of_def bit_simps)

lemma int_dec_nat: "int_dec (int n) = nat_dec n"
proof (induction n rule: nat_dec.induct)
  case (1 n)
  have "int n div 10 = int (n div 10)" by (simp add: zdiv_int)
  moreover have "char_of (48 + int n mod 10) = char_of (48 + n mod 10)" "char_of (48 + int n) = char_of (48 + n)"
    using char_of_int [of "48 + n mod 10"] char_of_int [of "48 + n"] by (simp_all add: zmod_int)
  ultimately show ?case
    using 1 by (simp add: int_dec.simps [of "int n"] nat_dec.simps [of n])
qed

lemma nat_dec_code [code]: "nat_dec n = int_dec (int n)"
  by (simp add: int_dec_nat)

lemma Itoa_code [code]: "Itoa i = (if i < 0 then CHR ''-'' # int_dec (- i) else int_dec i)"
  using int_dec_nat [of "nat i"] int_dec_nat [of "nat (- i)"] by (auto simp: Itoa_def)

section \<open>Dynamic values and faults\<close>

text \<open>
  A dynamic value (\<open>any\<close>) of a payload or result map. The code looks only at whether it is a
  string and copies every other value, which is kept as an opaque token.
\<close>

datatype go_any = AnyString string | AnyOther nat

text \<open>Failures of the file system calls and of the JSON codec behind the file stores.\<close>

datatype io_fault =
    BackendPathRequired
  | MkdirFailed
  | ReadFailed
  | DecodeFailed
  | EncodeFailed
  | WriteFailed
  | RenameFailed

section \<open>Components that keep an invariant\<close>

text \<open>
  The states a component can be in: the initial ones and what its operations make of them. A
  component's theory gives \<open>init\<close> and \<open>step\<close> and interprets the locale below.
\<close>

inductive reach :: "('s \<Rightarrow> bool) \<Rightarrow> ('s \<Rightarrow> 's \<Rightarrow> bool) \<Rightarrow> 's \<Rightarrow> bool"
  for init :: "'s \<Rightarrow> bool" and step :: "'s \<Rightarrow> 's \<Rightarrow> bool" where
  reach_init: "init s \<Longrightarrow> reach init step s"
| reach_step: "reach init step s \<Longrightarrow> step s t \<Longrightarrow> reach init step t"

locale invariant_system =
  fixes init :: "'s \<Rightarrow> bool"
    and step :: "'s \<Rightarrow> 's \<Rightarrow> bool"
    and invar :: "'s \<Rightarrow> bool"
  assumes init_invar: "init s \<Longrightarrow> invar s"
    and step_invar: "invar s \<Longrightarrow> step s t \<Longrightarrow> invar t"
begin

lemma reach_invar: "reach init step s \<Longrightarrow> invar s"
  by (induction rule: reach.induct) (auto intro: init_invar step_invar)

lemma steps_invar: "step\<^sup>*\<^sup>* s t \<Longrightarrow> invar s \<Longrightarrow> invar t"
  by (induction rule: rtranclp_induct) (auto intro: step_invar)

end

end
