(* ===== verification/Go_Numeric.thy ===== *)
theory Go_Numeric
  imports Go_Prelude
    "HOL-Library.Word"
    "HOL-Library.Log_Nat"
begin

unbundle bit_operations_syntax

text \<open>
  Go's numbers as the sources use them. \<open>time.Time\<close> is an instant in nanoseconds after the
  zero time, so \<open>IsZero\<close> is equality with 0; \<open>UTC\<close> changes no instant.
  \<open>time.Duration\<close> is an \<open>int64\<close> count of nanoseconds. Counters are unbounded
  \<^typ>\<open>int\<close>; where a 64-bit result can wrap the wrap-around is written out with
  \<open>wrap64\<close>. \<open>float64\<close> is binary64: a finite value is the rational it denotes (the sign of
  zero is not kept: no source line observes it), and every operation rounds to nearest, ties to
  even, with gradual underflow and overflow to infinity.
\<close>

section \<open>Integers, times and durations\<close>

type_synonym time = int
type_synonym duration = int

abbreviation IsZero :: "time \<Rightarrow> bool" where "IsZero t \<equiv> t = 0"

definition microsecond :: duration where "microsecond = 1000"
definition millisecond :: duration where "millisecond = 1000000"
definition second :: duration where "second = 1000000000"
definition minute :: duration where "minute = 60000000000"

lemmas duration_defs = microsecond_def millisecond_def second_def minute_def

definition wrap64 :: "int \<Rightarrow> int" where
  "wrap64 x = (x + 2 ^ 63) mod 2 ^ 64 - 2 ^ 63"

lemma wrap64_id: "- (2 ^ 63) \<le> x \<Longrightarrow> x < 2 ^ 63 \<Longrightarrow> wrap64 x = x"
  by (simp add: wrap64_def)

lemma wrap64_range: "- (2 ^ 63) \<le> wrap64 x \<and> wrap64 x < 2 ^ 63"
proof -
  define m where "m = (x + 2 ^ 63) mod (2 ^ 64 :: int)"
  have "0 \<le> m" "m < 2 ^ 64" by (simp_all add: m_def)
  then show ?thesis by (simp add: wrap64_def m_def [symmetric])
qed

text \<open>Go's \<open>/\<close> and \<open>%\<close> on signed integers truncate towards zero.\<close>

definition go_quot :: "int \<Rightarrow> int \<Rightarrow> int" where
  "go_quot a b = sgn a * sgn b * (\<bar>a\<bar> div \<bar>b\<bar>)"

definition go_rem :: "int \<Rightarrow> int \<Rightarrow> int" where
  "go_rem a b = sgn a * (\<bar>a\<bar> mod \<bar>b\<bar>)"

lemma go_rem_nonneg: "0 \<le> a \<Longrightarrow> 0 < b \<Longrightarrow> go_rem a b = a mod b"
  by (cases "a = 0") (simp_all add: go_rem_def)

text \<open>\<open>t.Sub(u)\<close> saturates; \<open>d.Milliseconds()\<close> truncates; \<open>UnixNano\<close> counts from 1970.\<close>

definition time_sub :: "time \<Rightarrow> time \<Rightarrow> duration" where
  "time_sub t u = max (- (2 ^ 63)) (min (2 ^ 63 - 1) (t - u))"

definition Milliseconds :: "duration \<Rightarrow> int" where
  "Milliseconds d = go_quot d millisecond"

definition UnixNano :: "time \<Rightarrow> int" where
  "UnixNano t = wrap64 (t - 62135596800 * second)"

text \<open>\<open>if now.IsZero() { now = time.Now() }\<close>, with \<open>clk\<close> what the clock reads.\<close>

definition resolve_now :: "time \<Rightarrow> time \<Rightarrow> time" where
  "resolve_now clk now = (if IsZero now then clk else now)"

lemma resolve_now_nonzero [simp]: "now \<noteq> 0 \<Longrightarrow> resolve_now clk now = now"
  by (simp add: resolve_now_def)

lemma resolve_now_pos: "0 < clk \<Longrightarrow> 0 \<le> now \<Longrightarrow> 0 < resolve_now clk now"
  by (simp add: resolve_now_def)

section \<open>Binary64\<close>

datatype f64 = F64 rat | F64Inf bool | F64NaN

text \<open>The exponent \<open>e\<close> with \<open>2 powi e \<le> q < 2 powi (e + 1)\<close>.\<close>

definition ilog2 :: "rat \<Rightarrow> int" where
  "ilog2 q =
     (let (a, b) = quotient_of q; k = bitlen a - bitlen b
      in if 2 powi k \<le> q then k else k - 1)"

definition round_half_even :: "rat \<Rightarrow> int" where
  "round_half_even q =
     (let f = \<lfloor>q\<rfloor>; d = q - of_int f
      in if d < 1 / 2 then f else if 1 / 2 < d then f + 1 else if even f then f else f + 1)"

definition f64_round :: "rat \<Rightarrow> f64" where
  "f64_round q =
     (if q = 0 then F64 0
      else let e = max (ilog2 \<bar>q\<bar> - 52) (- 1074);
               r = of_int (round_half_even (\<bar>q\<bar> / 2 powi e)) * 2 powi e
           in if 2 ^ 1024 \<le> r then F64Inf (q < 0) else F64 (sgn q * r))"

definition f64_of_int :: "int \<Rightarrow> f64" where
  "f64_of_int n = f64_round (of_int n)"

fun f64_mul :: "f64 \<Rightarrow> f64 \<Rightarrow> f64" where
  "f64_mul (F64 a) (F64 b) = f64_round (a * b)"
| "f64_mul (F64 a) (F64Inf s) = (if a = 0 then F64NaN else F64Inf (s \<noteq> (a < 0)))"
| "f64_mul (F64Inf s) (F64 b) = (if b = 0 then F64NaN else F64Inf (s \<noteq> (b < 0)))"
| "f64_mul (F64Inf s) (F64Inf t) = F64Inf (s \<noteq> t)"
| "f64_mul F64NaN _ = F64NaN"
| "f64_mul _ F64NaN = F64NaN"

fun f64_add :: "f64 \<Rightarrow> f64 \<Rightarrow> f64" where
  "f64_add (F64 a) (F64 b) = f64_round (a + b)"
| "f64_add (F64 a) (F64Inf s) = F64Inf s"
| "f64_add (F64Inf s) (F64 b) = F64Inf s"
| "f64_add (F64Inf s) (F64Inf t) = (if s = t then F64Inf s else F64NaN)"
| "f64_add F64NaN _ = F64NaN"
| "f64_add _ F64NaN = F64NaN"

text \<open>\<open>F64Inf True\<close> is the negative infinity; a comparison with NaN is false.\<close>

fun f64_less :: "f64 \<Rightarrow> f64 \<Rightarrow> bool" where
  "f64_less (F64 a) (F64 b) = (a < b)"
| "f64_less (F64 a) (F64Inf s) = (\<not> s)"
| "f64_less (F64Inf s) (F64 b) = s"
| "f64_less (F64Inf s) (F64Inf t) = (s \<and> \<not> t)"
| "f64_less F64NaN _ = False"
| "f64_less _ F64NaN = False"

fun f64_le :: "f64 \<Rightarrow> f64 \<Rightarrow> bool" where
  "f64_le (F64 a) (F64 b) = (a \<le> b)"
| "f64_le (F64 a) (F64Inf s) = (\<not> s)"
| "f64_le (F64Inf s) (F64 b) = s"
| "f64_le (F64Inf s) (F64Inf t) = (s \<or> \<not> t)"
| "f64_le F64NaN _ = False"
| "f64_le _ F64NaN = False"

text \<open>
  \<open>int64(f)\<close> truncates. Out of range Go leaves the value to the implementation; on amd64 it is
  the least \<open>int64\<close>.
\<close>

definition trunc :: "rat \<Rightarrow> int" where
  "trunc q = (if 0 \<le> q then \<lfloor>q\<rfloor> else - \<lfloor>- q\<rfloor>)"

fun f64_to_int64 :: "f64 \<Rightarrow> int" where
  "f64_to_int64 (F64 q) =
     (if - (2 ^ 63) \<le> trunc q \<and> trunc q < 2 ^ 63 then trunc q else - (2 ^ 63))"
| "f64_to_int64 _ = - (2 ^ 63)"


subsection \<open>Rounding\<close>

lemma powi_two_pos [simp]: "(0::rat) < 2 powi e"
  by simp

lemma bitlen_powi:
  assumes "0 < a"
  shows "2 powi (bitlen a - 1) \<le> (of_int a :: rat)" and "(of_int a :: rat) < 2 powi bitlen a"
proof -
  have b: "0 < bitlen a" using assms bitlen_eq_zero_iff [of a] bitlen_nonneg [of a] by linarith
  have "2 ^ nat (bitlen a - 1) \<le> a" "a < 2 ^ nat (bitlen a)"
    using bitlen_bounds [OF assms] by auto
  then have "(of_int (2 ^ nat (bitlen a - 1)) :: rat) \<le> of_int a"
    "(of_int a :: rat) < of_int (2 ^ nat (bitlen a))"
    by (simp_all only: of_int_le_iff of_int_less_iff)
  then show "2 powi (bitlen a - 1) \<le> (of_int a :: rat)" "(of_int a :: rat) < 2 powi bitlen a"
    using b by (simp_all add: power_int_def)
qed

lemma ilog2_bounds:
  assumes "0 < q"
  shows "2 powi ilog2 q \<le> q" and "q < 2 powi (ilog2 q + 1)"
proof -
  obtain a b where ab: "quotient_of q = (a, b)" by (cases "quotient_of q")
  have b: "0 < b" using quotient_of_denom_pos [OF ab] .
  have q: "q = of_int a / of_int b" using quotient_of_div [OF ab] .
  have a: "0 < a" using assms q b by (simp add: zero_less_divide_iff)
  let ?k = "bitlen a - bitlen b"
  have "(of_int a :: rat) / of_int b < 2 powi bitlen a / 2 powi (bitlen b - 1)"
    using bitlen_powi(2) [OF a] bitlen_powi(1) [OF b] a b
    by (intro frac_less) auto
  also have "\<dots> = 2 powi (?k + 1)" by (simp add: algebra_simps flip: power_int_diff)
  finally have up: "q < 2 powi (?k + 1)" using q by simp
  have "(2 powi (bitlen a - 1) / 2 powi bitlen b :: rat) \<le> of_int a / of_int b"
    using bitlen_powi(1) [OF a] bitlen_powi(2) [OF b] a b
    by (intro frac_le) (auto intro: less_imp_le)
  also have "(2 powi (bitlen a - 1) / 2 powi bitlen b :: rat) = 2 powi (?k - 1)"
    by (simp add: power_int_diff power_int_add algebra_simps)
  finally have low: "2 powi (?k - 1) \<le> q" using q by simp
  show "2 powi ilog2 q \<le> q" "q < 2 powi (ilog2 q + 1)"
    using up low by (auto simp: ilog2_def ab Let_def)
qed

lemma round_half_even_of_int [simp]: "round_half_even (of_int n) = n"
  by (simp add: round_half_even_def)

lemma round_half_even_bounds:
  assumes "0 \<le> q"
  shows "0 \<le> round_half_even q" and "of_int (round_half_even q) \<le> 2 * q"
proof -
  define k where "k = \<lfloor>q\<rfloor>"
  have k: "0 \<le> k" "of_int k \<le> q" using assms by (simp_all add: k_def)
  then have kr: "0 \<le> (of_int k :: rat)" by simp
  show "0 \<le> round_half_even q" using k by (simp add: round_half_even_def Let_def k_def [symmetric])
  have "round_half_even q = k \<or> (round_half_even q = k + 1 \<and> 1 / 2 \<le> q - of_int k)"
    by (auto simp: round_half_even_def Let_def k_def [symmetric])
  then show "of_int (round_half_even q) \<le> 2 * q"
  proof
    assume "round_half_even q = k"
    then show ?thesis using k assms by simp
  next
    assume "round_half_even q = k + 1 \<and> 1 / 2 \<le> q - of_int k"
    then show ?thesis using kr by simp
  qed
qed

text \<open>Rounding keeps the sign, and at most doubles a positive value.\<close>

lemma f64_round_nonneg:
  assumes "0 \<le> q"
  shows "(\<exists>r. f64_round q = F64 r \<and> 0 \<le> r \<and> r \<le> 2 * q) \<or> f64_round q = F64Inf False"
proof (cases "q = 0")
  case True
  then show ?thesis by (simp add: f64_round_def)
next
  case False
  define e where "e = max (ilog2 q - 52) (- 1074)"
  define r :: rat where "r = of_int (round_half_even (q / 2 powi e)) * 2 powi e"
  have q: "0 < q" using assms False by simp
  then have d: "0 \<le> q / 2 powi e" by simp
  have "of_int (round_half_even (q / 2 powi e)) \<le> 2 * (q / 2 powi e)"
    using round_half_even_bounds(2) [OF d] .
  then have "r \<le> 2 * (q / 2 powi e) * 2 powi e"
    unfolding r_def by (intro mult_right_mono) simp_all
  then have r2: "r \<le> 2 * q" by simp
  have r0: "0 \<le> r" unfolding r_def using round_half_even_bounds(1) [OF d] by simp
  have "f64_round q = (if 2 ^ 1024 \<le> r then F64Inf False else F64 r)"
    using q by (simp add: f64_round_def Let_def e_def r_def)
  with r0 r2 show ?thesis by simp
qed

lemma f64_round_int_exact:
  assumes "0 \<le> n" "n \<le> 2 ^ 53"
  shows "f64_round (of_int n) = F64 (of_int n)"
proof (cases "n = 0")
  case True
  then show ?thesis by (simp add: f64_round_def)
next
  case False
  define q :: rat where "q = of_int n"
  define e where "e = max (ilog2 q - 52) (- 1074)"
  have q: "1 \<le> q" "q \<le> 2 ^ 53" using assms False by (simp_all add: q_def)
  have l: "2 powi ilog2 q \<le> q" "q < 2 powi (ilog2 q + 1)" using ilog2_bounds [of q] q by auto
  have "2 powi ilog2 q \<le> (2 powi 53 :: rat)" using l(1) q(2) by simp
  then have l53: "ilog2 q \<le> 53" using power_int_le_imp_le_exp [of "2::rat" "ilog2 q" 53] by simp
  have int: "\<exists>m. q / 2 powi e = of_int m"
  proof (cases "e \<le> 0")
    case True
    then have "(2::rat) powi e = inverse (2 ^ nat (- e))"
      by (cases "e = 0") (simp_all add: power_int_def power_inverse power_one_over inverse_eq_divide)
    then have "q / 2 powi e = q * 2 ^ nat (- e)" by (simp only: divide_inverse inverse_inverse_eq)
    then have "q / 2 powi e = of_int (n * 2 ^ nat (- e))" by (simp only: q_def of_int_mult of_int_power of_int_numeral)
    then show ?thesis by blast
  next
    case False
    then have "ilog2 q = 53" "e = 1" using l53 by (auto simp: e_def)
    then have "q = 2 ^ 53" using l(1) q(2) by simp
    then have "q / 2 powi e = of_int (2 ^ 52)" using \<open>e = 1\<close> by simp
    then show ?thesis by blast
  qed
  then obtain m where m: "q / 2 powi e = of_int m" by blast
  have "of_int (round_half_even (q / 2 powi e)) * 2 powi e = (of_int m * 2 powi e :: rat)"
    by (simp add: m)
  also have "\<dots> = q" by (simp flip: m)
  finally have r: "of_int (round_half_even (q / 2 powi e)) * 2 powi e = q" .
  have "q < 2 ^ 1024" using q(2) by (rule order.strict_trans1) simp
  then show ?thesis
    using q r by (simp add: f64_round_def Let_def e_def q_def)
qed


lemma f64_of_int_exact: "0 \<le> n \<Longrightarrow> n \<le> 2 ^ 53 \<Longrightarrow> f64_of_int n = F64 (of_int n)"
  by (simp add: f64_of_int_def f64_round_int_exact)

lemma f64_of_int_nonneg:
  assumes "0 \<le> n" "n < 2 ^ 63"
  shows "\<exists>r. f64_of_int n = F64 r \<and> 0 \<le> r"
proof -
  have ge: "(0::rat) \<le> of_int n" using assms(1) by simp
  have lt: "(of_int n :: rat) < 2 ^ 63" using assms(2) by (metis of_int_less_iff of_int_numeral of_int_power)
  consider r where "f64_round (of_int n) = F64 r" "0 \<le> r" "r \<le> 2 * (of_int n :: rat)"
    | "f64_round (of_int n) = F64Inf False"
    using f64_round_nonneg [OF ge] by blast
  then show ?thesis
  proof cases
    case 1
    then show ?thesis by (auto simp: f64_of_int_def)
  next
    case 2
    define q :: rat where "q = of_int n"
    define e where "e = max (ilog2 q - 52) (- 1074)"
    define r :: rat where "r = of_int (round_half_even (q / 2 powi e)) * 2 powi e"
    have "q \<noteq> 0" using 2 by (auto simp: q_def f64_round_def)
    then have q: "0 < q" using ge by (simp add: q_def)
    have "of_int (round_half_even (q / 2 powi e)) \<le> 2 * (q / 2 powi e)"
      using q by (intro round_half_even_bounds) simp
    then have "r \<le> 2 * (q / 2 powi e) * 2 powi e"
      unfolding r_def by (intro mult_right_mono) simp_all
    then have "r \<le> 2 * q" by simp
    also have "2 * q < 2 ^ 1024" using lt by (simp add: q_def)
    finally have "f64_round q = F64 r"
      using q by (simp add: f64_round_def Let_def e_def r_def)
    with 2 show ?thesis by (simp add: q_def)
  qed
qed

lemma f64_to_int64_range: "- (2 ^ 63) \<le> f64_to_int64 x \<and> f64_to_int64 x < 2 ^ 63"
  by (cases x) auto

lemma f64_to_int64_mono_bound:
  assumes "0 \<le> r" "r \<le> of_int n" "n < 2 ^ 63"
  shows "0 \<le> f64_to_int64 (F64 r) \<and> f64_to_int64 (F64 r) \<le> n"
proof -
  have "0 \<le> \<lfloor>r\<rfloor>" "\<lfloor>r\<rfloor> \<le> n" using assms by (simp_all add: floor_le_iff)
  then show ?thesis using assms by (simp add: trunc_def)
qed

subsection \<open>The literal 0.2\<close>

definition lit_0_2 :: f64 where
  "lit_0_2 = f64_round (1 / 5)"

lemma ilog2_one_fifth: "ilog2 (1 / 5) = - 3"
proof -
  have "quotient_of (1 / 5) = (1, 5)" by code_simp
  moreover have "bitlen 1 = 1" "bitlen 5 = 3" by code_simp+
  ultimately show ?thesis by (simp add: ilog2_def power_int_minus)
qed

lemma lit_0_2_value [code]: "lit_0_2 = F64 (3602879701896397 / 18014398509481984)"
proof -
  have "\<lfloor>36028797018963968 / 5 :: rat\<rfloor> = 7205759403792793" by (simp add: floor_eq_iff)
  then have "round_half_even (36028797018963968 / 5) = 7205759403792794" by (simp add: round_half_even_def)
  moreover have "(2::rat) powi - 55 = 1 / 36028797018963968" by (simp add: power_int_minus)
  ultimately show ?thesis
    by (simp add: lit_0_2_def f64_round_def ilog2_one_fifth del: power_int_minus)
qed

section \<open>Deterministic jitter\<close>

text \<open>
  The seed of \<open>stableRetryJitterSeed\<close> and \<open>stableJitterSeed\<close>: the FNV-1a loop over the bytes
  of a text, on \<open>uint64\<close>, with the sign bit cleared.
\<close>

definition fnv1a :: "string \<Rightarrow> 64 word" where
  "fnv1a raw = foldl (\<lambda>h c. (h XOR of_nat (of_char c)) * 1099511628211) 1469598103934665603 raw"

definition fnv1a_seed :: "string \<Rightarrow> int" where
  "fnv1a_seed raw = uint (fnv1a raw AND 0x7fffffffffffffff)"

lemma fnv1a_seed_range: "0 \<le> fnv1a_seed raw \<and> fnv1a_seed raw < 2 ^ 63"
proof -
  have "uint (fnv1a raw AND 0x7fffffffffffffff) \<le> uint (0x7fffffffffffffff :: 64 word)"
    by (rule word_and_le1 [THEN word_le_def [THEN iffD1]])
  then show ?thesis by (simp add: fnv1a_seed_def)
qed

text \<open>\<open>(seed % (2*jitterRange + 1)) - jitterRange\<close> on \<open>int64\<close>.\<close>

definition jitter_offset :: "int \<Rightarrow> int \<Rightarrow> int" where
  "jitter_offset seed r = wrap64 (go_rem seed (wrap64 (2 * r + 1)) - r)"

lemma jitter_offset_bounds:
  assumes "0 \<le> seed" "0 < r" "r < 2 ^ 62"
  shows "- r \<le> jitter_offset seed r \<and> jitter_offset seed r \<le> r"
proof -
  have w: "wrap64 (2 * r + 1) = 2 * r + 1" using assms by (intro wrap64_id) simp_all
  define m where "m = seed mod (2 * r + 1)"
  have m: "0 \<le> m" "m < 2 * r + 1"
    using assms pos_mod_bound [of "2 * r + 1" seed] pos_mod_sign [of "2 * r + 1" seed]
    by (simp_all add: m_def)
  have g: "go_rem seed (2 * r + 1) = m" using assms by (simp add: go_rem_nonneg m_def)
  have "wrap64 (m - r) = m - r" using m assms by (intro wrap64_id) simp_all
  then show ?thesis using m by (simp add: jitter_offset_def w g)
qed

lemma round_half_even_le: 
  assumes "q \<le> of_int m"
  shows "round_half_even q \<le> m"
proof -
  have f: "\<lfloor>q\<rfloor> \<le> m" using assms by (simp add: floor_le_iff)
  show ?thesis
  proof (cases "\<lfloor>q\<rfloor> = m")
    case True
    then have "q = of_int m" using assms by (metis antisym of_int_floor_le)
    then show ?thesis by simp
  next
    case False
    then show ?thesis using f by (simp add: round_half_even_def Let_def)
  qed
qed

text \<open>Rounding does not pass an integer that binary64 represents.\<close>

lemma f64_round_le_int:
  assumes "0 \<le> q" "q \<le> of_int n" "n \<le> 2 ^ 53"
  shows "\<exists>r. f64_round q = F64 r \<and> 0 \<le> r \<and> r \<le> of_int n"
proof (cases "q = 0")
  case True
  then show ?thesis using assms by (simp add: f64_round_def)
next
  case False
  define e where "e = max (ilog2 q - 52) (- 1074)"
  define r :: rat where "r = of_int (round_half_even (q / 2 powi e)) * 2 powi e"
  have q: "0 < q" using assms False by simp
  have n53: "(of_int n :: rat) \<le> 2 ^ 53" using assms(3) by (metis of_int_le_iff of_int_numeral of_int_power)
  have r0: "0 \<le> r" using round_half_even_bounds(1) [of "q / 2 powi e"] q by (simp add: r_def)
  have "r \<le> of_int n"
  proof (cases "e \<le> 0")
    case True
    then have "(2::rat) powi e = inverse (2 ^ nat (- e))"
      by (cases "e = 0") (simp_all add: power_int_def power_inverse power_one_over inverse_eq_divide)
    then have div: "x / 2 powi e = x * 2 ^ nat (- e)" for x :: rat by (simp only: divide_inverse inverse_inverse_eq)
    have "q / 2 powi e \<le> of_int (n * 2 ^ nat (- e))"
      unfolding div of_int_mult of_int_power of_int_numeral using assms(2) by (intro mult_right_mono) simp_all
    then have "round_half_even (q / 2 powi e) \<le> n * 2 ^ nat (- e)" by (rule round_half_even_le)
    then have "(of_int (round_half_even (q / 2 powi e)) :: rat) \<le> of_int (n * 2 ^ nat (- e))" by (simp only: of_int_le_iff)
    then have "r \<le> of_int (n * 2 ^ nat (- e)) * 2 powi e" unfolding r_def by (intro mult_right_mono) simp_all
    also have "\<dots> = of_int n / 2 powi e * 2 powi e" by (simp only: div of_int_mult of_int_power of_int_numeral)
    finally show ?thesis by simp
  next
    case False
    have l: "2 powi ilog2 q \<le> q" using ilog2_bounds [OF q] by simp
    then have "2 powi ilog2 q \<le> (2 powi 53 :: rat)" using assms(2) n53 by simp
    then have "ilog2 q \<le> 53" using power_int_le_imp_le_exp [of "2::rat" "ilog2 q" 53] by simp
    then have "ilog2 q = 53" "e = 1" using False by (auto simp: e_def)
    then have "q = 2 ^ 53" "of_int n = (2 ^ 53 :: rat)" using l assms(2) n53 by simp_all
    moreover have "round_half_even (2 ^ 53 / 2 powi 1) = 2 ^ 52"
      using round_half_even_of_int [of "2 ^ 52"] by simp
    ultimately show ?thesis using \<open>e = 1\<close> by (simp add: r_def)
  qed
  moreover have "r < 2 ^ 1024" using calculation n53 by (rule order.trans [THEN order.strict_trans1]) simp
  ultimately show ?thesis using q r0 by (simp add: f64_round_def Let_def e_def r_def)
qed

end
