(* ===== verification/Scheduler_Types.thy ===== *)
theory Scheduler_Types
  imports Go_Numeric
begin

text \<open>
  The data model of \<open>src/orchestration/scheduler/types.go\<close> and the workspace provenance record
  of \<open>src/core/types/protocol.go\<close> it embeds: tasks, attempts, task records, terminal commits,
  statistics and configuration, with the normalisers \<open>normalizeTask\<close>, \<open>normalizeCommit\<close> and
  \<open>ValidateSpawn\<close>. Go's string enumerations are datatypes with one constructor per named
  constant and one for any other string.
\<close>

section \<open>Workspace provenance\<close>

record workspace_provenance =
  wp_WorkspaceID :: string
  wp_ChangeSetID :: string
  wp_BeforeIntegrity :: string
  wp_AfterIntegrity :: string
  wp_ProducedByRunID :: string
  wp_ProducedByStepID :: string
  wp_CheckpointID :: string

datatype provenance_error = WorkspaceProvenanceMissing | WorkspaceAssociationMismatch

text \<open>\<open>WorkspaceProvenance.Validate\<close>; \<open>None\<close> is Go's nil error.\<close>

definition provenance_validate :: "workspace_provenance \<Rightarrow> provenance_error option" where
  "provenance_validate p =
     (if TrimSpace (wp_WorkspaceID p) = [] \<or> TrimSpace (wp_ChangeSetID p) = []
         \<or> TrimSpace (wp_BeforeIntegrity p) = [] \<or> TrimSpace (wp_AfterIntegrity p) = []
      then Some WorkspaceProvenanceMissing
      else if TrimSpace (wp_ProducedByRunID p) = [] \<or> TrimSpace (wp_ProducedByStepID p) = []
      then Some WorkspaceAssociationMismatch
      else None)"

section \<open>Enumerations\<close>

datatype task_state =
    TaskStateQueued
  | TaskStateRunning
  | TaskStateAwaitingReport
  | TaskStateSucceeded
  | TaskStateFailed
  | TaskStateDeadLetter
  | TaskStateOther string

abbreviation terminal_state :: "task_state \<Rightarrow> bool" where
  "terminal_state st \<equiv> st = TaskStateSucceeded \<or> st = TaskStateFailed \<or> st = TaskStateDeadLetter"

datatype attempt_status =
    AttemptStatusRunning
  | AttemptStatusSucceeded
  | AttemptStatusFailed
  | AttemptStatusExpired
  | AttemptStatusOther string

datatype qos_mode = QoSModeFIFO | QoSModePriority | QoSModeOther string

abbreviation TaskPriorityHigh :: string where "TaskPriorityHigh \<equiv> ''high''"
abbreviation TaskPriorityNormal :: string where "TaskPriorityNormal \<equiv> ''normal''"
abbreviation TaskPriorityLow :: string where "TaskPriorityLow \<equiv> ''low''"

fun qos_string :: "qos_mode \<Rightarrow> string" where
  "qos_string QoSModeFIFO = ''fifo''"
| "qos_string QoSModePriority = ''priority''"
| "qos_string (QoSModeOther s) = s"

section \<open>Tasks, attempts, records\<close>

record timeout_resolution =
  tr_EffectiveOperationProfile :: string
  tr_Source :: string
  tr_Trace :: string
  tr_ResolvedTimeout :: duration
  tr_ParentBudgetClamped :: bool

record task =
  t_DispatchBinding :: string
  t_TaskID :: string
  t_RunID :: string
  t_WorkflowID :: string
  t_TeamID :: string
  t_StepID :: string
  t_AgentID :: string
  t_PeerID :: string
  t_ParentRunID :: string
  t_Priority :: string
  t_Payload :: "(string, go_any) gomap"
  t_MaxAttempts :: int
  t_NotBefore :: time
  t_TimeoutResolution :: timeout_resolution
  t_WorkspaceProvenance :: "workspace_provenance option"

record attempt =
  at_AttemptID :: string
  at_Attempt :: int
  at_WorkerID :: string
  at_LeaseToken :: string
  at_Status :: attempt_status
  at_StartedAt :: time
  at_HeartbeatAt :: time
  at_LeaseExpiresAt :: time
  at_TerminalAt :: time
  at_WorkspaceProvenance :: "workspace_provenance option"

record task_record =
  r_Task :: task
  r_State :: task_state
  r_Attempts :: "attempt list"
  r_CurrentAttempt :: string
  r_ManualRetryCount :: int
  r_AwaitingReportSince :: time
  r_ReportTimeoutAt :: time
  r_RemoteTaskID :: string
  r_ResolutionSource :: string
  r_TerminalConflict :: bool
  r_NextEligibleAt :: time
  r_DeadLetterCode :: string
  r_Result :: "(string, go_any) gomap"
  r_ErrorMessage :: string
  r_ErrorClass :: string
  r_ErrorLayer :: string
  r_CreatedAt :: time
  r_UpdatedAt :: time

text \<open>\<open>TaskRecord.attemptByID\<close> and \<open>TaskRecord.currentAttempt\<close>.\<close>

definition attemptByID :: "task_record \<Rightarrow> string \<Rightarrow> attempt option" where
  "attemptByID r attemptID =
     (let trimmed = TrimSpace attemptID
      in if trimmed = [] then None
         else find (\<lambda>a. TrimSpace (at_AttemptID a) = trimmed) (r_Attempts r))"

definition currentAttempt :: "task_record \<Rightarrow> attempt option" where
  "currentAttempt r = attemptByID r (r_CurrentAttempt r)"

record claimed_task =
  ct_Record :: task_record
  ct_Attempt :: attempt
  ct_TaskPriority :: string
  ct_FairnessYielded :: bool

record terminal_commit =
  c_TaskID :: string
  c_AttemptID :: string
  c_Status :: task_state
  c_Source :: string
  c_RemoteTaskID :: string
  c_Result :: "(string, go_any) gomap"
  c_ErrorMessage :: string
  c_ErrorClass :: string
  c_ErrorLayer :: string
  c_OutcomeKey :: string
  c_CommittedAt :: time
  c_WorkspaceProvenance :: "workspace_provenance option"

record commit_result =
  cr_Record :: task_record
  cr_Duplicate :: bool
  cr_LateReport :: bool
  cr_Conflict :: bool

record stats =
  st_Backend :: string
  st_QoSMode :: string
  st_QueueTotal :: int
  st_ClaimTotal :: int
  st_ReclaimTotal :: int
  st_LeaseExpiredTotal :: int
  st_CompleteTotal :: int
  st_FailTotal :: int
  st_PriorityClaimTotal :: int
  st_FairnessYieldTotal :: int
  st_RetryBackoffTotal :: int
  st_DeadLetterTotal :: int
  st_DelayedTaskTotal :: int
  st_DelayedClaimTotal :: int
  st_DelayedWaitMsP95 :: int
  st_RecoveryTimeoutReentryTotal :: int
  st_RecoveryTimeoutReentryExhaustedTotal :: int
  st_DuplicateTerminalCommitTotal :: int
  st_AsyncAwaitTotal :: int
  st_AsyncTimeoutTotal :: int
  st_AsyncReconcilePollTotal :: int
  st_AsyncReconcileTerminalByPollTotal :: int
  st_AsyncReconcileErrorTotal :: int
  st_AsyncTerminalConflictTotal :: int
  st_ManualControlTotal :: int
  st_ManualControlSuccessTotal :: int
  st_ManualControlRejectedTotal :: int
  st_ManualControlDedupTotal :: int
  st_ManualControlByAction :: "(string, int) gomap"
  st_ManualControlByReason :: "(string, int) gomap"

section \<open>Task board control\<close>

datatype control_action =
    TaskBoardControlActionCancel
  | TaskBoardControlActionRetryTerminal
  | TaskBoardControlActionOther string

record control_request =
  q_TaskID :: string
  q_Action :: string
  q_OperationID :: string
  q_RequestedBy :: string
  q_ReasonDetail :: string

record control_result =
  k_TaskID :: string
  k_Action :: control_action
  k_OperationID :: string
  k_Applied :: bool
  k_Deduplicated :: bool
  k_Reason :: string
  k_Record :: task_record

record control_config =
  cc_Enabled :: bool
  cc_MaxManualRetryPerTask :: int

section \<open>Configuration\<close>

record reconcile_config =
  rc_Enabled :: bool
  rc_Interval :: duration
  rc_BatchSize :: int
  rc_JitterRatio :: f64
  rc_NotFoundPolicy :: string

record async_await_config =
  aa_ReportTimeout :: duration
  aa_LateReportPolicy :: string
  aa_TimeoutTerminal :: task_state
  aa_Reconcile :: reconcile_config

record recovery_config =
  rb_Enabled :: bool
  rb_ResumeBoundary :: string
  rb_InflightPolicy :: string
  rb_TimeoutReentryPolicy :: string
  rb_TimeoutReentryMaxPerTask :: int

record backoff_config =
  bo_Enabled :: bool
  bo_Initial :: duration
  bo_Max :: duration
  bo_Multiplier :: f64
  bo_JitterRatio :: f64

record governance_config =
  g_QoS :: qos_mode
  g_MaxConsecutiveClaimsPerPriority :: int
  g_DLQEnabled :: bool
  g_Backoff :: backoff_config

section \<open>Errors\<close>

datatype invalid_input =
    TaskIDRequired
  | AttemptIDRequired
  | PriorityUnsupported string
  | ProvenanceInvalid provenance_error
  | TerminalStatusUnsupported task_state
  | WorkerIDRequired
  | LeaseTimeoutNotPositive
  | HeartbeatFieldsRequired
  | AwaitFieldsRequired

datatype snapshot_fault =
    SnapTaskIDRequired nat
  | SnapDuplicateTask string
  | SnapTaskInvalid nat
  | SnapRunAssociation nat
  | SnapStepAssociation nat
  | SnapAttemptIDRequired nat nat
  | SnapDuplicateAttempt string
  | SnapAttemptProvenanceInvalid nat nat
  | SnapAttemptProvenanceMismatch nat nat
  | SnapQueuedHasAttempt string
  | SnapRunningNeedsAttempt string
  | SnapAwaitingNeedsAttempt string
  | SnapAwaitingNeedsTimeout string
  | SnapTerminalHasAttempt string
  | SnapUnsupportedState string
  | SnapTerminalRunningAttempt string
  | SnapInflightAttemptInvalid string
  | SnapQueueUnknownTask string
  | SnapQueueNotQueued string
  | SnapQueueDuplicate string
  | SnapCommitFieldsRequired nat
  | SnapCommitStatus nat
  | SnapCommitDuplicate string
  | SnapCommitUnknownAttempt nat
  | SnapCommitTaskProvenance nat
  | SnapCommitAttemptProvenance nat
  | SnapControlOperationRequired nat
  | SnapControlDuplicate string
  | SnapControlTaskRequired nat
  | SnapControlAction nat

datatype sched_error =
    ErrTaskNotFound
  | ErrAttemptNotFound
  | ErrLeaseTokenMismatch
  | ErrLeaseExpired
  | ErrTaskNotRunning
  | ErrTaskNotAwaitingReport
  | ErrStaleAttempt
  | ErrSnapshotCorrupt snapshot_fault
  | ErrTaskBoardControlDisabled
  | ErrTaskBoardControlActionInvalid
  | ErrTaskBoardControlOperationIDRequired
  | ErrTaskBoardControlStateConflict
  | ErrTaskBoardControlOperationConflict
  | ErrTaskBoardControlRetryBudgetExceeded
  | ErrWorkspaceBindingMismatch
  | ErrDispatchBindingMismatch
  | ErrInvalid invalid_input
  | ErrBackendIO io_fault

section \<open>normalizeTask\<close>

definition normalizeTimeoutResolution :: "timeout_resolution \<Rightarrow> timeout_resolution" where
  "normalizeTimeoutResolution tr =
     tr\<lparr>tr_EffectiveOperationProfile := ToLower (TrimSpace (tr_EffectiveOperationProfile tr)),
        tr_Source := ToLower (TrimSpace (tr_Source tr)),
        tr_Trace := TrimSpace (tr_Trace tr)\<rparr>"

definition trimTask :: "task \<Rightarrow> task" where
  "trimTask t =
     t\<lparr>t_DispatchBinding := TrimSpace (t_DispatchBinding t),
       t_TaskID := TrimSpace (t_TaskID t),
       t_RunID := TrimSpace (t_RunID t),
       t_WorkflowID := TrimSpace (t_WorkflowID t),
       t_TeamID := TrimSpace (t_TeamID t),
       t_StepID := TrimSpace (t_StepID t),
       t_AgentID := TrimSpace (t_AgentID t),
       t_PeerID := TrimSpace (t_PeerID t),
       t_ParentRunID := TrimSpace (t_ParentRunID t),
       t_Priority := ToLower (TrimSpace (t_Priority t)),
       t_TimeoutResolution := normalizeTimeoutResolution (t_TimeoutResolution t)\<rparr>"

definition payloadPriority :: "task \<Rightarrow> string" where
  "payloadPriority t =
     (if t_Priority t = [] then
        (case fmlookup (t_Payload t) ''priority'' of
           Some (AnyString p) \<Rightarrow> ToLower (TrimSpace p)
         | _ \<Rightarrow> t_Priority t)
      else t_Priority t)"

definition normalizeTask :: "task \<Rightarrow> (sched_error, task) result" where
  "normalizeTask inp =
     (let out = trimTask inp in
      if t_TaskID out = [] then Err (ErrInvalid TaskIDRequired)
      else
        let priority = payloadPriority out in
        if priority \<notin> {TaskPriorityHigh, TaskPriorityNormal, TaskPriorityLow, []}
        then Err (ErrInvalid (PriorityUnsupported priority))
        else
          let out = out\<lparr>t_Priority := (if priority = [] then TaskPriorityNormal else priority),
                        t_MaxAttempts := (if t_MaxAttempts out \<le> 0 then 3 else t_MaxAttempts out)\<rparr>
          in (case t_WorkspaceProvenance out of
                None \<Rightarrow> Ok out
              | Some w \<Rightarrow>
                  (case provenance_validate w of
                     Some e \<Rightarrow> Err (ErrInvalid (ProvenanceInvalid e))
                   | None \<Rightarrow> Ok out)))"

section \<open>normalizeCommit\<close>

text \<open>The text of a state constant, as \<open>string(state)\<close>.\<close>

fun state_string :: "task_state \<Rightarrow> string" where
  "state_string TaskStateQueued = ''queued''"
| "state_string TaskStateRunning = ''running''"
| "state_string TaskStateAwaitingReport = ''awaiting_report''"
| "state_string TaskStateSucceeded = ''succeeded''"
| "state_string TaskStateFailed = ''failed''"
| "state_string TaskStateDeadLetter = ''dead_letter''"
| "state_string (TaskStateOther s) = s"

definition defaultOutcomeKey :: "terminal_commit \<Rightarrow> string" where
  "defaultOutcomeKey commit =
     (if c_Status commit = TaskStateSucceeded then
        state_string (c_Status commit) @ concat (map (\<lambda>k. ''|'' @ k) (sorted_keys (c_Result commit)))
      else if c_ErrorMessage commit = [] then state_string (c_Status commit)
      else state_string (c_Status commit) @ ''|'' @ c_ErrorMessage commit)"

definition trimCommit :: "terminal_commit \<Rightarrow> terminal_commit" where
  "trimCommit c =
     c\<lparr>c_TaskID := TrimSpace (c_TaskID c),
       c_AttemptID := TrimSpace (c_AttemptID c),
       c_Source := ToLower (TrimSpace (c_Source c)),
       c_RemoteTaskID := TrimSpace (c_RemoteTaskID c),
       c_ErrorMessage := TrimSpace (c_ErrorMessage c),
       c_ErrorLayer := TrimSpace (c_ErrorLayer c),
       c_OutcomeKey := TrimSpace (c_OutcomeKey c)\<rparr>"

definition normalizeCommit :: "time \<Rightarrow> terminal_commit \<Rightarrow> (sched_error, terminal_commit) result" where
  "normalizeCommit clk inp =
     (let out = trimCommit inp in
      if c_TaskID out = [] then Err (ErrInvalid TaskIDRequired)
      else if c_AttemptID out = [] then Err (ErrInvalid AttemptIDRequired)
      else if c_Status out \<noteq> TaskStateSucceeded \<and> c_Status out \<noteq> TaskStateFailed
      then Err (ErrInvalid (TerminalStatusUnsupported (c_Status out)))
      else
        let out = out\<lparr>c_CommittedAt := resolve_now clk (c_CommittedAt out)\<rparr> in
        (case Option.bind (c_WorkspaceProvenance out) provenance_validate of
           Some e \<Rightarrow> Err (ErrInvalid (ProvenanceInvalid e))
         | None \<Rightarrow>
             Ok (if c_OutcomeKey out = [] then out\<lparr>c_OutcomeKey := defaultOutcomeKey out\<rparr> else out)))"

section \<open>Spawn guardrails\<close>

record guardrails =
  gr_MaxDepth :: int
  gr_MaxActiveChildren :: int
  gr_ChildTimeoutBudget :: duration

record spawn_request =
  sp_Task :: task
  sp_ParentDepth :: int
  sp_ParentActiveChildren :: int
  sp_ParentRemainingBudget :: duration
  sp_ChildTimeout :: duration
  sp_TimeoutResolution :: timeout_resolution

datatype budget_reject_code =
    BudgetRejectDepth
  | BudgetRejectActiveChild
  | BudgetRejectTimeout
  | BudgetRejectParentBudgetExhausted

definition ValidateSpawn :: "guardrails \<Rightarrow> spawn_request \<Rightarrow> budget_reject_code option" where
  "ValidateSpawn g req =
     (if 0 < gr_MaxDepth g \<and> gr_MaxDepth g < wrap64 (sp_ParentDepth req + 1)
      then Some BudgetRejectDepth
      else if 0 < gr_MaxActiveChildren g \<and> gr_MaxActiveChildren g \<le> sp_ParentActiveChildren req
      then Some BudgetRejectActiveChild
      else None)"

section \<open>Normal forms\<close>

text \<open>What the two normalisers return, and that they are idempotent.\<close>

lemma normalizeTaskE:
  assumes "normalizeTask t = Inr n"
  obtains p where "p \<in> {TaskPriorityHigh, TaskPriorityNormal, TaskPriorityLow}"
    and "n = (trimTask t)\<lparr>t_Priority := p, t_MaxAttempts := (if t_MaxAttempts t \<le> 0 then 3 else t_MaxAttempts t)\<rparr>"
    and "TrimSpace (t_TaskID t) \<noteq> []"
    and "Option.bind (t_WorkspaceProvenance t) provenance_validate = None"
proof
  let ?q = "payloadPriority (trimTask t)"
  let ?p = "if ?q = [] then TaskPriorityNormal else ?q"
  have id: "t_TaskID (trimTask t) \<noteq> []"
    using assms by (simp add: normalizeTask_def Let_def split: if_splits)
  have q: "?q \<in> {TaskPriorityHigh, TaskPriorityNormal, TaskPriorityLow, []}"
    using assms id by (simp add: normalizeTask_def Let_def del: insert_iff split: if_splits)
  note eq = assms [unfolded normalizeTask_def Let_def, simplified id q if_False not_not if_not_P]
  have w: "t_WorkspaceProvenance (trimTask t) = t_WorkspaceProvenance t"
    "t_MaxAttempts (trimTask t) = t_MaxAttempts t"
    by (simp_all add: trimTask_def)
  show "?p \<in> {TaskPriorityHigh, TaskPriorityNormal, TaskPriorityLow}"
    using q by (cases "?q = []") simp_all
  show "n = (trimTask t)\<lparr>t_Priority := ?p, t_MaxAttempts := (if t_MaxAttempts t \<le> 0 then 3 else t_MaxAttempts t)\<rparr>"
    using eq [unfolded w] by (auto split: option.splits split del: if_split)
  show "TrimSpace (t_TaskID t) \<noteq> []" using id by (simp add: trimTask_def)
  show "Option.bind (t_WorkspaceProvenance t) provenance_validate = None"
    using eq w by (simp split: option.splits)
qed

lemma normalizeTask_fields:
  assumes "normalizeTask t = Inr n"
  shows "t_TaskID n = TrimSpace (t_TaskID t)" "t_TaskID n \<noteq> []" "trimmed (t_TaskID n)"
    "0 < t_MaxAttempts n" "t_Priority n \<in> {TaskPriorityHigh, TaskPriorityNormal, TaskPriorityLow}"
    "t_WorkspaceProvenance n = t_WorkspaceProvenance t"
    "Option.bind (t_WorkspaceProvenance n) provenance_validate = None"
  by (rule normalizeTaskE [OF assms], simp add: trimTask_def)+

lemma priority_literals:
  assumes "p \<in> {TaskPriorityHigh, TaskPriorityNormal, TaskPriorityLow}"
  shows "ToLower (TrimSpace p) = p"
proof -
  have "\<forall>c \<in> set p. plain_byte c" "ascii_lower p"
    using assms by (elim insertE emptyE; simp add: plain_byte_def ascii_lower_def lower_byte_def)+
  then show ?thesis by (simp add: trimmed_plain ToLower_ascii_lower)
qed

lemma normalizeTask_idem:
  assumes "normalizeTask t = Inr n"
  shows "normalizeTask n = Inr n"
proof (rule normalizeTaskE [OF assms])
  fix p
  assume p: "p \<in> {TaskPriorityHigh, TaskPriorityNormal, TaskPriorityLow}"
    and n: "n = (trimTask t)\<lparr>t_Priority := p, t_MaxAttempts := (if t_MaxAttempts t \<le> 0 then 3 else t_MaxAttempts t)\<rparr>"
    and id: "TrimSpace (t_TaskID t) \<noteq> []"
    and w: "Option.bind (t_WorkspaceProvenance t) provenance_validate = None"
  have "p \<noteq> []" using p by auto
  have trim: "trimTask n = n"
    by (simp add: n trimTask_def normalizeTimeoutResolution_def priority_literals [OF p])
  have pri: "payloadPriority n = p" "t_Priority n = p"
    using \<open>p \<noteq> []\<close> by (simp_all add: n payloadPriority_def)
  have f: "t_TaskID n \<noteq> []" "0 < t_MaxAttempts n" "Option.bind (t_WorkspaceProvenance n) provenance_validate = None"
    using id w by (simp_all add: n trimTask_def)
  have p': "p \<in> {TaskPriorityHigh, TaskPriorityNormal, TaskPriorityLow, []}" using p by auto
  have "n\<lparr>t_Priority := p, t_MaxAttempts := t_MaxAttempts n\<rparr> = n" using pri by simp
  then show ?thesis
    using f p' \<open>p \<noteq> []\<close>
    by (auto simp: normalizeTask_def Let_def trim pri simp del: insert_iff split: option.splits)
qed

lemma trimCommit_fields [simp]:
  "c_Status (trimCommit c) = c_Status c" "c_Result (trimCommit c) = c_Result c"
  "c_ErrorClass (trimCommit c) = c_ErrorClass c" "c_CommittedAt (trimCommit c) = c_CommittedAt c"
  "c_WorkspaceProvenance (trimCommit c) = c_WorkspaceProvenance c"
  "c_TaskID (trimCommit c) = TrimSpace (c_TaskID c)"
  "c_AttemptID (trimCommit c) = TrimSpace (c_AttemptID c)"
  by (simp_all add: trimCommit_def)

lemma normalizeCommitE:
  assumes "normalizeCommit clk c = Inr n"
  obtains "TrimSpace (c_TaskID c) \<noteq> []" "TrimSpace (c_AttemptID c) \<noteq> []"
    "c_Status c = TaskStateSucceeded \<or> c_Status c = TaskStateFailed"
    "Option.bind (c_WorkspaceProvenance c) provenance_validate = None"
    "n = (trimCommit c)\<lparr>c_CommittedAt := resolve_now clk (c_CommittedAt c),
           c_OutcomeKey := (if TrimSpace (c_OutcomeKey c) = []
              then defaultOutcomeKey (trimCommit c) else TrimSpace (c_OutcomeKey c))\<rparr>"
proof
  have d: "defaultOutcomeKey (x\<lparr>c_CommittedAt := t\<rparr>) = defaultOutcomeKey x" for x t
    by (simp add: defaultOutcomeKey_def fun_eq_iff cong: map_cong)
  have o: "c_OutcomeKey (trimCommit c) = TrimSpace (c_OutcomeKey c)" by (simp add: trimCommit_def)
  show 1: "TrimSpace (c_TaskID c) \<noteq> []"
    using assms by (simp add: normalizeCommit_def Let_def split: if_splits)
  show 2: "TrimSpace (c_AttemptID c) \<noteq> []"
    using assms 1 by (simp add: normalizeCommit_def Let_def split: if_splits)
  show 3: "c_Status c = TaskStateSucceeded \<or> c_Status c = TaskStateFailed"
    using assms 1 2 by (simp add: normalizeCommit_def Let_def split: if_splits)
  show 4: "Option.bind (c_WorkspaceProvenance c) provenance_validate = None"
    using assms 1 2 3 by (auto simp: normalizeCommit_def Let_def split: if_splits option.splits)
  show "n = (trimCommit c)\<lparr>c_CommittedAt := resolve_now clk (c_CommittedAt c),
           c_OutcomeKey := (if TrimSpace (c_OutcomeKey c) = []
              then defaultOutcomeKey (trimCommit c) else TrimSpace (c_OutcomeKey c))\<rparr>"
    using assms 1 2 3 4 o
    by (auto simp: normalizeCommit_def Let_def d split: if_splits)
qed

lemma normalizeCommit_fields:
  assumes "normalizeCommit clk c = Inr n"
  shows "c_TaskID n = TrimSpace (c_TaskID c)" "c_TaskID n \<noteq> []" "trimmed (c_TaskID n)"
    "c_AttemptID n = TrimSpace (c_AttemptID c)" "c_AttemptID n \<noteq> []" "trimmed (c_AttemptID n)"
    "c_Status n = TaskStateSucceeded \<or> c_Status n = TaskStateFailed"
    "c_Status n = c_Status c" "c_WorkspaceProvenance n = c_WorkspaceProvenance c"
    "c_Source n = ToLower (TrimSpace (c_Source c))" "trimmed (c_RemoteTaskID n)"
    "trimmed (c_ErrorMessage n)" "trimmed (c_ErrorLayer n)"
    "c_CommittedAt n = resolve_now clk (c_CommittedAt c)"
  by (rule normalizeCommitE [OF assms], simp add: trimCommit_def)+

end
