(* ===== verification/Scheduler_State.thy ===== *)
theory Scheduler_State
  imports Scheduler_Types
begin

text \<open>
  The state machine of \<open>src/orchestration/scheduler/state.go\<close>: the \<open>schedulerState\<close> struct
  and every operation on it up to the snapshot (which \<open>Scheduler_Snapshot\<close> holds). An operation
  returns its Go result, an error or a value, together with the state it leaves, which it may have
  changed before it fails. \<open>clk\<close> is what \<open>time.Now()\<close> reads when the caller passes the zero
  time. A record is a pointer in Go; here the updated record is stored back under its key.
\<close>

section \<open>State\<close>

record scheduler_state =
  s_Tasks :: "(string, task_record) gomap"
  s_Queue :: "string list"
  s_TerminalCommits :: "(string, terminal_commit) gomap"
  s_ControlOps :: "(string, control_result) gomap"
  s_DelayedWaitMs :: "int list"
  s_Stats :: stats
  s_governance :: governance_config
  s_asyncAwait :: async_await_config
  s_recoveryBoundary :: recovery_config
  s_taskBoardControl :: control_config
  s_lastPriority :: string
  s_lastConsecutive :: int

type_synonym 'a sched_op = "scheduler_state \<Rightarrow> (sched_error, 'a) result \<times> scheduler_state"

section \<open>Configuration\<close>

definition defaultTaskBoardControlConfig :: control_config where
  "defaultTaskBoardControlConfig = \<lparr>cc_Enabled = False, cc_MaxManualRetryPerTask = 3\<rparr>"

definition normalizeTaskBoardControlConfig :: "control_config \<Rightarrow> control_config" where
  "normalizeTaskBoardControlConfig cfg =
     (if cc_MaxManualRetryPerTask cfg \<le> 0 then cfg\<lparr>cc_MaxManualRetryPerTask := 3\<rparr> else cfg)"

abbreviation AsyncLateReportPolicyDropAndRecord :: string where
  "AsyncLateReportPolicyDropAndRecord \<equiv> ''drop_and_record''"
abbreviation AsyncReconcileNotFoundKeepTimeout :: string where
  "AsyncReconcileNotFoundKeepTimeout \<equiv> ''keep_until_timeout''"

definition defaultAsyncAwaitConfig :: async_await_config where
  "defaultAsyncAwaitConfig =
     \<lparr>aa_ReportTimeout = 15 * minute,
      aa_LateReportPolicy = AsyncLateReportPolicyDropAndRecord,
      aa_TimeoutTerminal = TaskStateFailed,
      aa_Reconcile =
        \<lparr>rc_Enabled = False, rc_Interval = 5 * second, rc_BatchSize = 64,
         rc_JitterRatio = lit_0_2, rc_NotFoundPolicy = AsyncReconcileNotFoundKeepTimeout\<rparr>\<rparr>"

text \<open>\<open>if r < 0 { r = 0 }; if r > 1 { r = 1 }\<close>.\<close>

definition clamp_ratio :: "f64 \<Rightarrow> f64" where
  "clamp_ratio r =
     (let r = (if f64_less r (F64 0) then F64 0 else r)
      in if f64_less (F64 1) r then F64 1 else r)"

definition normalizeAsyncAwaitConfig :: "async_await_config \<Rightarrow> async_await_config" where
  "normalizeAsyncAwaitConfig cfg =
     (let rc = aa_Reconcile cfg;
          policy = ToLower (TrimSpace (aa_LateReportPolicy cfg));
          policy = (if policy = [] then AsyncLateReportPolicyDropAndRecord else policy);
          policy = (if policy \<noteq> AsyncLateReportPolicyDropAndRecord
                    then AsyncLateReportPolicyDropAndRecord else policy);
          notFound = ToLower (TrimSpace (rc_NotFoundPolicy rc));
          notFound = (if notFound = [] then AsyncReconcileNotFoundKeepTimeout else notFound);
          notFound = (if notFound \<noteq> AsyncReconcileNotFoundKeepTimeout
                      then AsyncReconcileNotFoundKeepTimeout else notFound)
      in cfg\<lparr>aa_ReportTimeout := (if aa_ReportTimeout cfg \<le> 0 then 15 * minute else aa_ReportTimeout cfg),
             aa_LateReportPolicy := policy,
             aa_TimeoutTerminal :=
               (case aa_TimeoutTerminal cfg of
                  TaskStateDeadLetter \<Rightarrow> TaskStateDeadLetter | _ \<Rightarrow> TaskStateFailed),
             aa_Reconcile :=
               rc\<lparr>rc_Interval := (if rc_Interval rc \<le> 0 then 5 * second else rc_Interval rc),
                  rc_BatchSize := (if rc_BatchSize rc \<le> 0 then 64 else rc_BatchSize rc),
                  rc_JitterRatio := clamp_ratio (rc_JitterRatio rc),
                  rc_NotFoundPolicy := notFound\<rparr>\<rparr>)"

definition defaultGovernanceConfig :: governance_config where
  "defaultGovernanceConfig =
     \<lparr>g_QoS = QoSModeFIFO, g_MaxConsecutiveClaimsPerPriority = 3, g_DLQEnabled = False,
      g_Backoff =
        \<lparr>bo_Enabled = False, bo_Initial = 50 * millisecond, bo_Max = 2 * second,
         bo_Multiplier = F64 2, bo_JitterRatio = lit_0_2\<rparr>\<rparr>"

definition normalizeBackoff :: "backoff_config \<Rightarrow> backoff_config" where
  "normalizeBackoff b =
     (let initial = (if bo_Initial b \<le> 0 then 50 * millisecond else bo_Initial b);
          mx = (if bo_Max b \<le> 0 \<or> bo_Max b < initial
                then (if 2 * second < initial then initial else 2 * second)
                else bo_Max b)
      in b\<lparr>bo_Initial := initial, bo_Max := mx,
           bo_Multiplier := (if f64_less (bo_Multiplier b) (F64 1) then F64 1 else bo_Multiplier b),
           bo_JitterRatio := clamp_ratio (bo_JitterRatio b)\<rparr>)"

definition normalizeGovernanceConfig :: "governance_config \<Rightarrow> governance_config" where
  "normalizeGovernanceConfig cfg =
     cfg\<lparr>g_QoS := (case g_QoS cfg of QoSModePriority \<Rightarrow> QoSModePriority | _ \<Rightarrow> QoSModeFIFO),
         g_MaxConsecutiveClaimsPerPriority :=
           (if g_MaxConsecutiveClaimsPerPriority cfg \<le> 0 then 3
            else g_MaxConsecutiveClaimsPerPriority cfg),
         g_Backoff := normalizeBackoff (g_Backoff cfg)\<rparr>"

abbreviation RecoveryResumeBoundaryNextAttemptOnly :: string where
  "RecoveryResumeBoundaryNextAttemptOnly \<equiv> ''next_attempt_only''"
abbreviation RecoveryInflightPolicyNoRewind :: string where
  "RecoveryInflightPolicyNoRewind \<equiv> ''no_rewind''"
abbreviation RecoveryTimeoutReentryPolicySingleReentryFail :: string where
  "RecoveryTimeoutReentryPolicySingleReentryFail \<equiv> ''single_reentry_then_fail''"

definition defaultRecoveryBoundaryConfig :: recovery_config where
  "defaultRecoveryBoundaryConfig =
     \<lparr>rb_Enabled = False, rb_ResumeBoundary = RecoveryResumeBoundaryNextAttemptOnly,
      rb_InflightPolicy = RecoveryInflightPolicyNoRewind,
      rb_TimeoutReentryPolicy = RecoveryTimeoutReentryPolicySingleReentryFail,
      rb_TimeoutReentryMaxPerTask = 1\<rparr>"

text \<open>\<open>s = strings.ToLower(strings.TrimSpace(s)); if s == "" { s = d }\<close>.\<close>

definition lower_or_default :: "string \<Rightarrow> string \<Rightarrow> string" where
  "lower_or_default d s = (let v = ToLower (TrimSpace s) in if v = [] then d else v)"

definition normalizeRecoveryBoundaryConfig :: "recovery_config \<Rightarrow> recovery_config" where
  "normalizeRecoveryBoundaryConfig cfg =
     cfg\<lparr>rb_ResumeBoundary :=
           lower_or_default RecoveryResumeBoundaryNextAttemptOnly (rb_ResumeBoundary cfg),
         rb_InflightPolicy := lower_or_default RecoveryInflightPolicyNoRewind (rb_InflightPolicy cfg),
         rb_TimeoutReentryPolicy :=
           lower_or_default RecoveryTimeoutReentryPolicySingleReentryFail (rb_TimeoutReentryPolicy cfg),
         rb_TimeoutReentryMaxPerTask :=
           (if rb_TimeoutReentryMaxPerTask cfg \<le> 0 then 1 else rb_TimeoutReentryMaxPerTask cfg)\<rparr>"

definition setGovernance :: "governance_config \<Rightarrow> scheduler_state \<Rightarrow> scheduler_state" where
  "setGovernance cfg s =
     (let g = normalizeGovernanceConfig cfg
      in s\<lparr>s_governance := g, s_Stats := (s_Stats s)\<lparr>st_QoSMode := qos_string (g_QoS g)\<rparr>\<rparr>)"

definition setRecoveryBoundary :: "recovery_config \<Rightarrow> scheduler_state \<Rightarrow> scheduler_state" where
  "setRecoveryBoundary cfg s = s\<lparr>s_recoveryBoundary := normalizeRecoveryBoundaryConfig cfg\<rparr>"

definition setAsyncAwait :: "async_await_config \<Rightarrow> scheduler_state \<Rightarrow> scheduler_state" where
  "setAsyncAwait cfg s = s\<lparr>s_asyncAwait := normalizeAsyncAwaitConfig cfg\<rparr>"

definition setTaskBoardControl :: "control_config \<Rightarrow> scheduler_state \<Rightarrow> scheduler_state" where
  "setTaskBoardControl cfg s = s\<lparr>s_taskBoardControl := normalizeTaskBoardControlConfig cfg\<rparr>"

definition emptyStats :: stats where
  "emptyStats =
     \<lparr>st_Backend = [], st_QoSMode = [], st_QueueTotal = 0, st_ClaimTotal = 0, st_ReclaimTotal = 0,
      st_LeaseExpiredTotal = 0, st_CompleteTotal = 0, st_FailTotal = 0, st_PriorityClaimTotal = 0,
      st_FairnessYieldTotal = 0, st_RetryBackoffTotal = 0, st_DeadLetterTotal = 0,
      st_DelayedTaskTotal = 0, st_DelayedClaimTotal = 0, st_DelayedWaitMsP95 = 0,
      st_RecoveryTimeoutReentryTotal = 0, st_RecoveryTimeoutReentryExhaustedTotal = 0,
      st_DuplicateTerminalCommitTotal = 0, st_AsyncAwaitTotal = 0, st_AsyncTimeoutTotal = 0,
      st_AsyncReconcilePollTotal = 0, st_AsyncReconcileTerminalByPollTotal = 0,
      st_AsyncReconcileErrorTotal = 0, st_AsyncTerminalConflictTotal = 0,
      st_ManualControlTotal = 0, st_ManualControlSuccessTotal = 0, st_ManualControlRejectedTotal = 0,
      st_ManualControlDedupTotal = 0, st_ManualControlByAction = fmempty,
      st_ManualControlByReason = fmempty\<rparr>"

definition newSchedulerState :: "string \<Rightarrow> scheduler_state" where
  "newSchedulerState backend =
     \<lparr>s_Tasks = fmempty, s_Queue = [], s_TerminalCommits = fmempty, s_ControlOps = fmempty,
      s_DelayedWaitMs = [],
      s_Stats = emptyStats\<lparr>st_Backend := TrimSpace backend,
                           st_QoSMode := qos_string (g_QoS defaultGovernanceConfig)\<rparr>,
      s_governance = defaultGovernanceConfig, s_asyncAwait = defaultAsyncAwaitConfig,
      s_recoveryBoundary = defaultRecoveryBoundaryConfig,
      s_taskBoardControl = defaultTaskBoardControlConfig,
      s_lastPriority = [], s_lastConsecutive = 0\<rparr>"

section \<open>Delays\<close>

definition isTaskDelayed :: "task \<Rightarrow> time \<Rightarrow> bool" where
  "isTaskDelayed t createdAt \<longleftrightarrow>
     (if IsZero (t_NotBefore t) then False
      else if IsZero createdAt then True
      else createdAt < t_NotBefore t)"

definition delayedWaitDurationMs :: "task_record \<Rightarrow> time \<Rightarrow> int" where
  "delayedWaitDurationMs r now =
     (if IsZero now then 0
      else let wait = Milliseconds (time_sub now (r_CreatedAt r)) in if wait < 0 then 0 else wait)"

definition percentileP95Int64 :: "int list \<Rightarrow> int" where
  "percentileP95Int64 samples =
     (if samples = [] then 0
      else let cp = sort samples;
               index = f64_to_int64 (f64_add (f64_mul (f64_of_int (int (length cp))) (f64_round (95 / 100)))
                                             (f64_round (9999999 / 10000000)));
               index = (if index \<le> 0 then 1 else index);
               index = (if int (length cp) < index then int (length cp) else index)
           in cp ! nat (index - 1))"

definition stableRetryJitterSeed :: "string \<Rightarrow> string \<Rightarrow> int \<Rightarrow> int" where
  "stableRetryJitterSeed taskID attemptID n =
     fnv1a_seed (TrimSpace taskID @ ''|'' @ TrimSpace attemptID @ ''|'' @ Itoa n)"

definition retryDelay :: "backoff_config \<Rightarrow> string \<Rightarrow> attempt \<Rightarrow> duration" where
  "retryDelay b taskID current =
     (if \<not> bo_Enabled b then 0
      else
        let base = f64_of_int (bo_Initial b);
            base = (if f64_le base (F64 0) then f64_of_int (50 * millisecond) else base);
            multiplier = (if f64_less (bo_Multiplier b) (F64 1) then F64 1 else bo_Multiplier b);
            attemptNum = (if at_Attempt current \<le> 0 then 1 else at_Attempt current);
            delayFloat = ((\<lambda>d. f64_mul d multiplier) ^^ nat (attemptNum - 1)) base;
            maxDelay = f64_of_int (bo_Max b);
            maxDelay = (if f64_le maxDelay (F64 0) then f64_of_int (2 * second) else maxDelay);
            delayFloat = (if f64_less maxDelay delayFloat then maxDelay else delayFloat);
            delay = f64_to_int64 delayFloat
        in if f64_le (bo_JitterRatio b) (F64 0) then delay
           else
             let jitterRange = f64_to_int64 (f64_mul (f64_of_int delay) (bo_JitterRatio b))
             in if jitterRange \<le> 0 then delay
                else
                  let seed = stableRetryJitterSeed taskID (at_AttemptID current) (at_Attempt current);
                      withJitter = wrap64 (delay + jitter_offset seed jitterRange);
                      withJitter = (if withJitter < 0 then 0 else withJitter)
                  in if bo_Max b < withJitter then bo_Max b else withJitter)"

section \<open>Queue selection\<close>

definition isClaimableRecord :: "task_record \<Rightarrow> time \<Rightarrow> bool" where
  "isClaimableRecord r now \<longleftrightarrow>
     (if r_State r \<noteq> TaskStateQueued then False
      else if \<not> IsZero (t_NotBefore (r_Task r)) \<and> now < t_NotBefore (r_Task r) then False
      else if IsZero (r_NextEligibleAt r) then True
      else \<not> now < r_NextEligibleAt r)"

definition normalizedPriority :: "string \<Rightarrow> string" where
  "normalizedPriority p =
     (let v = ToLower (TrimSpace p)
      in if v = TaskPriorityHigh then TaskPriorityHigh
         else if v = TaskPriorityLow then TaskPriorityLow
         else TaskPriorityNormal)"

text \<open>The loop over the queue: the first claimable index and the first per priority.\<close>

fun scanQueue ::
  "(string, task_record) gomap \<Rightarrow> time \<Rightarrow> nat \<Rightarrow> string list \<Rightarrow> nat option \<Rightarrow> (string, nat) gomap
     \<Rightarrow> nat option \<times> (string, nat) gomap" where
  "scanQueue tasks now idx [] first byPriority = (first, byPriority)"
| "scanQueue tasks now idx (q # qs) first byPriority =
     (case fmlookup tasks (TrimSpace q) of
        None \<Rightarrow> scanQueue tasks now (Suc idx) qs first byPriority
      | Some r \<Rightarrow>
          if \<not> isClaimableRecord r now then scanQueue tasks now (Suc idx) qs first byPriority
          else
            let first = (if first = None then Some idx else first);
                priority = normalizedPriority (t_Priority (r_Task r));
                byPriority = (if fmlookup byPriority priority = None
                              then fmupd priority idx byPriority else byPriority)
            in scanQueue tasks now (Suc idx) qs first byPriority)"

definition priorityOrder :: "string list" where
  "priorityOrder = [TaskPriorityHigh, TaskPriorityNormal, TaskPriorityLow]"

fun firstPresent :: "(string, nat) gomap \<Rightarrow> string list \<Rightarrow> (string \<times> nat) option" where
  "firstPresent m [] = None"
| "firstPresent m (p # ps) =
     (case fmlookup m p of Some i \<Rightarrow> Some (p, i) | None \<Rightarrow> firstPresent m ps)"

definition nextClaimableIndex :: "time \<Rightarrow> scheduler_state \<Rightarrow> nat option \<times> bool" where
  "nextClaimableIndex now s =
     (case scanQueue (s_Tasks s) now 0 (s_Queue s) None fmempty of
        (None, _) \<Rightarrow> (None, False)
      | (Some firstEligible, byPriority) \<Rightarrow>
          if g_QoS (s_governance s) \<noteq> QoSModePriority then (Some firstEligible, False)
          else
            (case firstPresent byPriority priorityOrder of
               None \<Rightarrow> (Some firstEligible, False)
             | Some (selectedPriority, selectedIndex) \<Rightarrow>
                 let threshold = g_MaxConsecutiveClaimsPerPriority (s_governance s)
                 in if 0 < threshold \<and> s_lastPriority s = selectedPriority
                       \<and> threshold \<le> s_lastConsecutive s
                    then (case firstPresent byPriority
                                 (filter (\<lambda>p. p \<noteq> selectedPriority) priorityOrder) of
                            Some (_, idx) \<Rightarrow> (Some idx, True)
                          | None \<Rightarrow> (Some selectedIndex, False))
                    else (Some selectedIndex, False)))"

section \<open>Retry transition and lease expiry\<close>

text \<open>
  \<open>for i := range record.Attempts { if record.Attempts[i].AttemptID == current.AttemptID
  { record.Attempts[i] = current; break } }\<close>.
\<close>

definition putAttempt :: "attempt \<Rightarrow> task_record \<Rightarrow> task_record" where
  "putAttempt current r =
     r\<lparr>r_Attempts := set_first (\<lambda>a. at_AttemptID a = at_AttemptID current) current (r_Attempts r)\<rparr>"

definition storeRecord :: "string \<Rightarrow> task_record \<Rightarrow> scheduler_state \<Rightarrow> scheduler_state" where
  "storeRecord taskID r s = s\<lparr>s_Tasks := fmupd taskID r (s_Tasks s)\<rparr>"

definition reentryPolicyActive :: "scheduler_state \<Rightarrow> bool" where
  "reentryPolicyActive s \<longleftrightarrow>
     rb_Enabled (s_recoveryBoundary s)
     \<and> rb_TimeoutReentryPolicy (s_recoveryBoundary s) = RecoveryTimeoutReentryPolicySingleReentryFail"

definition handleRetryTransition ::
  "string \<Rightarrow> task_record \<Rightarrow> attempt \<Rightarrow> time \<Rightarrow> scheduler_state \<Rightarrow> task_record \<times> scheduler_state" where
  "handleRetryTransition taskID r0 current0 now s =
     (let current = current0\<lparr>at_Status := AttemptStatusExpired, at_TerminalAt := now\<rparr>;
          r = (putAttempt current r0)\<lparr>r_CurrentAttempt := [], r_UpdatedAt := now\<rparr>;
          maxAttempts = (if t_MaxAttempts (r_Task r) \<le> 0 then 3 else t_MaxAttempts (r_Task r));
          reentryBudget = (if rb_TimeoutReentryMaxPerTask (s_recoveryBoundary s) \<le> 0 then 1
                           else rb_TimeoutReentryMaxPerTask (s_recoveryBoundary s));
          reentriesUsed = int (length (r_Attempts r)) - 1
      in if reentryPolicyActive s \<and> reentryBudget \<le> reentriesUsed
         then
           let r = r\<lparr>r_State := TaskStateFailed, r_NextEligibleAt := 0, r_DeadLetterCode := [],
                     r_ErrorMessage := ''recovery timeout reentry budget exhausted''\<rparr>
           in (r, storeRecord taskID r s
                    \<lparr>s_Stats := (s_Stats s)
                       \<lparr>st_FailTotal := st_FailTotal (s_Stats s) + 1,
                        st_RecoveryTimeoutReentryExhaustedTotal :=
                          st_RecoveryTimeoutReentryExhaustedTotal (s_Stats s) + 1\<rparr>\<rparr>)
         else if maxAttempts \<le> int (length (r_Attempts r))
         then
           let r = r\<lparr>r_NextEligibleAt := 0\<rparr>
           in if g_DLQEnabled (s_governance s)
              then
                let r = r\<lparr>r_State := TaskStateDeadLetter, r_DeadLetterCode := ''retry_exhausted'',
                          r_ErrorMessage := ''retry attempts exhausted''\<rparr>
                in (r, storeRecord taskID r s
                         \<lparr>s_Stats := (s_Stats s)\<lparr>st_DeadLetterTotal := st_DeadLetterTotal (s_Stats s) + 1\<rparr>\<rparr>)
              else
                let r = r\<lparr>r_State := TaskStateFailed, r_ErrorMessage := ''retry attempts exhausted''\<rparr>
                in (r, storeRecord taskID r s
                         \<lparr>s_Stats := (s_Stats s)\<lparr>st_FailTotal := st_FailTotal (s_Stats s) + 1\<rparr>\<rparr>)
         else
           let backoff = retryDelay (g_Backoff (s_governance s)) taskID current;
               r = r\<lparr>r_State := TaskStateQueued, r_DeadLetterCode := [],
                     r_NextEligibleAt := now + backoff\<rparr>
           in (r, storeRecord taskID r s
                    \<lparr>s_Queue := s_Queue s @ [taskID],
                     s_Stats := (s_Stats s)
                       \<lparr>st_ReclaimTotal := st_ReclaimTotal (s_Stats s) + 1,
                        st_RecoveryTimeoutReentryTotal :=
                          st_RecoveryTimeoutReentryTotal (s_Stats s) + (if reentryPolicyActive s then 1 else 0),
                        st_RetryBackoffTotal :=
                          st_RetryBackoffTotal (s_Stats s) + (if 0 < backoff then 1 else 0)\<rparr>\<rparr>))"

definition emptyClaim :: "task_record \<Rightarrow> attempt \<Rightarrow> claimed_task" where
  "emptyClaim r a =
     \<lparr>ct_Record = r, ct_Attempt = a, ct_TaskPriority = [], ct_FairnessYielded = False\<rparr>"

definition leaseExpiredRecord :: "time \<Rightarrow> task_record \<Rightarrow> bool" where
  "leaseExpiredRecord now r \<longleftrightarrow>
     r_State r = TaskStateRunning
     \<and> (case currentAttempt r of
          None \<Rightarrow> False
        | Some current \<Rightarrow>
            at_Status current = AttemptStatusRunning \<and> \<not> now < at_LeaseExpiresAt current)"

text \<open>The keys of the records with a property, as the Go loops collect and sort them.\<close>

definition selectKeys :: "(task_record \<Rightarrow> bool) \<Rightarrow> scheduler_state \<Rightarrow> string list" where
  "selectKeys P s =
     filter (\<lambda>k. case fmlookup (s_Tasks s) k of None \<Rightarrow> False | Some r \<Rightarrow> P r) (sorted_keys (s_Tasks s))"

fun expireLeasesLoop ::
  "time \<Rightarrow> string list \<Rightarrow> scheduler_state \<Rightarrow> claimed_task list \<times> scheduler_state" where
  "expireLeasesLoop now [] s = ([], s)"
| "expireLeasesLoop now (taskID # ids) s =
     (case fmlookup (s_Tasks s) taskID of
        None \<Rightarrow> expireLeasesLoop now ids s
      | Some r \<Rightarrow>
          if r_State r \<noteq> TaskStateRunning then expireLeasesLoop now ids s
          else
            (case currentAttempt r of
               None \<Rightarrow> expireLeasesLoop now ids s
             | Some current \<Rightarrow>
                 let (r', s1) = handleRetryTransition taskID r current now s;
                     s2 = s1\<lparr>s_Stats := (s_Stats s1)\<lparr>st_LeaseExpiredTotal := st_LeaseExpiredTotal (s_Stats s1) + 1\<rparr>\<rparr>;
                     (out, s3) = expireLeasesLoop now ids s2
                 in (emptyClaim r' current # out, s3)))"

definition expireLeases ::
  "time \<Rightarrow> time \<Rightarrow> scheduler_state \<Rightarrow> claimed_task list \<times> scheduler_state" where
  "expireLeases clk now0 s =
     (let now = resolve_now clk now0
      in expireLeasesLoop now (selectKeys (leaseExpiredRecord now) s) s)"

section \<open>Enqueue, claim, heartbeat\<close>

definition newRecord :: "task \<Rightarrow> time \<Rightarrow> task_record" where
  "newRecord t now =
     \<lparr>r_Task = t, r_State = TaskStateQueued, r_Attempts = [], r_CurrentAttempt = [],
      r_ManualRetryCount = 0, r_AwaitingReportSince = 0, r_ReportTimeoutAt = 0, r_RemoteTaskID = [],
      r_ResolutionSource = [], r_TerminalConflict = False, r_NextEligibleAt = 0,
      r_DeadLetterCode = [], r_Result = fmempty, r_ErrorMessage = [], r_ErrorClass = [],
      r_ErrorLayer = [], r_CreatedAt = now, r_UpdatedAt = now\<rparr>"

definition enqueue :: "time \<Rightarrow> task \<Rightarrow> time \<Rightarrow> task_record sched_op" where
  "enqueue clk t now0 s =
     (case normalizeTask t of
        Inl e \<Rightarrow> (Err e, s)
      | Inr normalized \<Rightarrow>
          (case fmlookup (s_Tasks s) (t_TaskID normalized) of
             Some existing \<Rightarrow>
               if t_DispatchBinding (r_Task existing) \<noteq> t_DispatchBinding normalized
               then (Err ErrDispatchBindingMismatch, s)
               else (Ok existing, s)
           | None \<Rightarrow>
               let now = resolve_now clk now0;
                   r = newRecord normalized now
               in (Ok r,
                   s\<lparr>s_Tasks := fmupd (t_TaskID normalized) r (s_Tasks s),
                     s_Queue := s_Queue s @ [t_TaskID normalized],
                     s_Stats := (s_Stats s)
                       \<lparr>st_QueueTotal := st_QueueTotal (s_Stats s) + 1,
                        st_DelayedTaskTotal :=
                          st_DelayedTaskTotal (s_Stats s) + (if isTaskDelayed normalized now then 1 else 0)\<rparr>\<rparr>)))"

definition attempt_id :: "string \<Rightarrow> nat \<Rightarrow> string" where
  "attempt_id taskID n = taskID @ ''-attempt-'' @ nat_dec n"

definition newAttempt :: "string \<Rightarrow> string \<Rightarrow> task_record \<Rightarrow> time \<Rightarrow> duration \<Rightarrow> attempt" where
  "newAttempt taskID workerID r now leaseTimeout =
     (let nextAttempt = length (r_Attempts r) + 1
      in \<lparr>at_AttemptID = attempt_id taskID nextAttempt, at_Attempt = int nextAttempt,
          at_WorkerID = workerID, at_LeaseToken = taskID @ ''-lease-'' @ Itoa (UnixNano now),
          at_Status = AttemptStatusRunning, at_StartedAt = now, at_HeartbeatAt = now,
          at_LeaseExpiresAt = now + leaseTimeout, at_TerminalAt = 0,
          at_WorkspaceProvenance = t_WorkspaceProvenance (r_Task r)\<rparr>)"

definition claimStats :: "bool \<Rightarrow> task_record \<Rightarrow> time \<Rightarrow> scheduler_state \<Rightarrow> scheduler_state" where
  "claimStats yielded r now s =
     (let priority = normalizedPriority (t_Priority (r_Task r));
          delayed = isTaskDelayed (r_Task r) (r_CreatedAt r);
          waits = (if delayed then s_DelayedWaitMs s @ [delayedWaitDurationMs r now]
                   else s_DelayedWaitMs s);
          st = s_Stats s
      in s\<lparr>s_DelayedWaitMs := waits,
           s_lastConsecutive := (if priority = s_lastPriority s then s_lastConsecutive s + 1 else 1),
           s_lastPriority := priority,
           s_Stats := st
             \<lparr>st_PriorityClaimTotal :=
                st_PriorityClaimTotal st + (if g_QoS (s_governance s) = QoSModePriority then 1 else 0),
              st_FairnessYieldTotal := st_FairnessYieldTotal st + (if yielded then 1 else 0),
              st_ClaimTotal := st_ClaimTotal st + 1,
              st_DelayedClaimTotal := st_DelayedClaimTotal st + (if delayed then 1 else 0),
              st_DelayedWaitMsP95 :=
                (if delayed then percentileP95Int64 waits else st_DelayedWaitMsP95 st),
              st_QoSMode := qos_string (g_QoS (s_governance s))\<rparr>\<rparr>)"

definition startAttempt :: "attempt \<Rightarrow> time \<Rightarrow> task_record \<Rightarrow> task_record" where
  "startAttempt a now r =
     r\<lparr>r_Attempts := r_Attempts r @ [a], r_CurrentAttempt := at_AttemptID a, r_NextEligibleAt := 0,
       r_State := TaskStateRunning, r_UpdatedAt := now\<rparr>"

definition claim :: "time \<Rightarrow> string \<Rightarrow> time \<Rightarrow> duration \<Rightarrow> claimed_task option sched_op" where
  "claim clk workerID0 now0 leaseTimeout s0 =
     (let workerID = TrimSpace workerID0 in
      if workerID = [] then (Err (ErrInvalid WorkerIDRequired), s0)
      else if leaseTimeout \<le> 0 then (Err (ErrInvalid LeaseTimeoutNotPositive), s0)
      else
        let now = resolve_now clk now0;
            s = snd (expireLeases clk now s0)
        in (case nextClaimableIndex now s of
              (None, _) \<Rightarrow> (Ok None, s)
            | (Some index, yielded) \<Rightarrow>
                let taskID = s_Queue s ! index;
                    s1 = s\<lparr>s_Queue := remove_index index (s_Queue s)\<rparr>
                in (case fmlookup (s_Tasks s1) taskID of
                      None \<Rightarrow> (Ok None, s1)
                    | Some r \<Rightarrow>
                        if r_State r \<noteq> TaskStateQueued then (Ok None, s1)
                        else
                          let a = newAttempt taskID workerID r now leaseTimeout;
                              r' = startAttempt a now r
                          in (Ok (Some \<lparr>ct_Record = r', ct_Attempt = a,
                                        ct_TaskPriority = normalizedPriority (t_Priority (r_Task r)),
                                        ct_FairnessYielded = yielded\<rparr>),
                              claimStats yielded r now (storeRecord taskID r' s1)))))"

definition heartbeat ::
  "time \<Rightarrow> string \<Rightarrow> string \<Rightarrow> string \<Rightarrow> time \<Rightarrow> duration \<Rightarrow> claimed_task sched_op" where
  "heartbeat clk taskID0 attemptID0 leaseToken0 now0 leaseTimeout s =
     (let taskID = TrimSpace taskID0; attemptID = TrimSpace attemptID0; leaseToken = TrimSpace leaseToken0 in
      if taskID = [] \<or> attemptID = [] \<or> leaseToken = [] then (Err (ErrInvalid HeartbeatFieldsRequired), s)
      else if leaseTimeout \<le> 0 then (Err (ErrInvalid LeaseTimeoutNotPositive), s)
      else
        (case fmlookup (s_Tasks s) taskID of
           None \<Rightarrow> (Err ErrTaskNotFound, s)
         | Some r \<Rightarrow>
             if r_State r \<noteq> TaskStateRunning then (Err ErrTaskNotRunning, s)
             else
               (case currentAttempt r of
                  None \<Rightarrow> (Err ErrAttemptNotFound, s)
                | Some current \<Rightarrow>
                    if at_AttemptID current \<noteq> attemptID then (Err ErrAttemptNotFound, s)
                    else if at_LeaseToken current \<noteq> leaseToken then (Err ErrLeaseTokenMismatch, s)
                    else
                      let now = resolve_now clk now0 in
                      if at_LeaseExpiresAt current < now then (Err ErrLeaseExpired, s)
                      else
                        let current' = current\<lparr>at_HeartbeatAt := now, at_LeaseExpiresAt := now + leaseTimeout\<rparr>;
                            r' = (putAttempt current' r)\<lparr>r_UpdatedAt := now\<rparr>
                        in (Ok (emptyClaim r' current'), storeRecord taskID r' s))))"

section \<open>Waiting for an asynchronous report\<close>

definition awaitReport ::
  "attempt \<Rightarrow> string \<Rightarrow> time \<Rightarrow> duration \<Rightarrow> task_record \<Rightarrow> task_record" where
  "awaitReport current remoteTaskID now reportTimeout r =
     (putAttempt (current\<lparr>at_LeaseExpiresAt := 0, at_HeartbeatAt := now\<rparr>) r)
       \<lparr>r_State := TaskStateAwaitingReport, r_AwaitingReportSince := now,
        r_ReportTimeoutAt := now + reportTimeout, r_RemoteTaskID := remoteTaskID,
        r_ResolutionSource := [], r_TerminalConflict := False, r_NextEligibleAt := 0,
        r_UpdatedAt := now\<rparr>"

definition markAwaitingReport ::
  "time \<Rightarrow> string \<Rightarrow> string \<Rightarrow> string \<Rightarrow> time \<Rightarrow> duration \<Rightarrow> task_record sched_op" where
  "markAwaitingReport clk taskID0 attemptID0 remoteTaskID0 now0 reportTimeout0 s =
     (let taskID = TrimSpace taskID0; attemptID = TrimSpace attemptID0;
          remoteTaskID = TrimSpace remoteTaskID0 in
      if taskID = [] \<or> attemptID = [] then (Err (ErrInvalid AwaitFieldsRequired), s)
      else
        (case fmlookup (s_Tasks s) taskID of
           None \<Rightarrow> (Err ErrTaskNotFound, s)
         | Some r \<Rightarrow>
             let now = resolve_now clk now0;
                 reportTimeout =
                   (if reportTimeout0 \<le> 0
                    then (if aa_ReportTimeout (s_asyncAwait s) \<le> 0 then 15 * minute
                          else aa_ReportTimeout (s_asyncAwait s))
                    else reportTimeout0)
             in (case currentAttempt r of
                   None \<Rightarrow> (Err ErrAttemptNotFound, s)
                 | Some current \<Rightarrow>
                     if at_AttemptID current \<noteq> attemptID then (Err ErrAttemptNotFound, s)
                     else if r_State r = TaskStateAwaitingReport
                     then
                       let r' = (if remoteTaskID \<noteq> [] then r\<lparr>r_RemoteTaskID := remoteTaskID\<rparr> else r)
                       in (Ok r', storeRecord taskID r' s)
                     else if r_State r \<noteq> TaskStateRunning then (Err ErrTaskNotRunning, s)
                     else
                       let r' = awaitReport current remoteTaskID now reportTimeout r
                       in (Ok r', storeRecord taskID r' s
                                    \<lparr>s_Stats := (s_Stats s)
                                       \<lparr>st_AsyncAwaitTotal := st_AsyncAwaitTotal (s_Stats s) + 1\<rparr>\<rparr>))))"

section \<open>Manual control of the task board\<close>

definition normalizeTaskBoardControlAction :: "string \<Rightarrow> (sched_error, control_action) result" where
  "normalizeTaskBoardControlAction action =
     (let a = ToLower (TrimSpace action)
      in if a = ''cancel'' then Ok TaskBoardControlActionCancel
         else if a = ''retry_terminal'' then Ok TaskBoardControlActionRetryTerminal
         else Err ErrTaskBoardControlActionInvalid)"

abbreviation ReasonManualCancel :: string where "ReasonManualCancel \<equiv> ''scheduler.manual_cancel''"
abbreviation ReasonManualRetry :: string where "ReasonManualRetry \<equiv> ''scheduler.manual_retry''"
abbreviation ErrContext :: string where "ErrContext \<equiv> ''ErrContext''"
abbreviation ErrPolicyTimeout :: string where "ErrPolicyTimeout \<equiv> ''ErrPolicyTimeout''"

text \<open>\<open>m[key]++\<close> on a counter map.\<close>

definition bump :: "string \<Rightarrow> (string, int) gomap \<Rightarrow> (string, int) gomap" where
  "bump k m = fmupd k ((case fmlookup m k of None \<Rightarrow> 0 | Some n \<Rightarrow> n) + 1) m"

definition cancelRecord :: "time \<Rightarrow> task_record \<Rightarrow> task_record" where
  "cancelRecord now r =
     r\<lparr>r_State := TaskStateFailed, r_CurrentAttempt := [], r_AwaitingReportSince := 0,
       r_ReportTimeoutAt := 0, r_NextEligibleAt := 0, r_Result := fmempty,
       r_ErrorMessage := ''manual cancel requested'', r_ErrorClass := ErrContext,
       r_ErrorLayer := ''scheduler.task_board.control'', r_DeadLetterCode := [],
       r_ResolutionSource := ''manual_cancel'', r_TerminalConflict := False, r_UpdatedAt := now\<rparr>"

definition controlApplied ::
  "control_action \<Rightarrow> string \<Rightarrow> string \<Rightarrow> task_record \<Rightarrow> control_result" where
  "controlApplied action operationID reason r =
     \<lparr>k_TaskID = t_TaskID (r_Task r), k_Action = action, k_OperationID = operationID,
      k_Applied = True, k_Deduplicated = False, k_Reason = reason, k_Record = r\<rparr>"

definition applyManualCancel ::
  "string \<Rightarrow> task_record \<Rightarrow> string \<Rightarrow> time \<Rightarrow> control_result sched_op" where
  "applyManualCancel taskID r0 operationID now s =
     (case (if r_State r0 = TaskStateQueued then Ok r0
            else if r_State r0 = TaskStateAwaitingReport
            then (case currentAttempt r0 of
                    None \<Rightarrow> Err ErrAttemptNotFound
                  | Some current \<Rightarrow>
                      Ok (putAttempt (current\<lparr>at_Status := AttemptStatusFailed, at_TerminalAt := now\<rparr>) r0))
            else Err ErrTaskBoardControlStateConflict) of
        Inl e \<Rightarrow> (Err e, s)
      | Inr r1 \<Rightarrow>
          let r = cancelRecord now r1;
              st = s_Stats s;
              res = controlApplied TaskBoardControlActionCancel operationID ReasonManualCancel r
          in (Ok res,
              storeRecord taskID r s
                \<lparr>s_Stats := st
                   \<lparr>st_FailTotal := st_FailTotal st + 1,
                    st_ManualControlSuccessTotal := st_ManualControlSuccessTotal st + 1,
                    st_ManualControlByAction := bump ''cancel'' (st_ManualControlByAction st),
                    st_ManualControlByReason := bump ReasonManualCancel (st_ManualControlByReason st)\<rparr>,
                 s_ControlOps := fmupd operationID res (s_ControlOps s)\<rparr>))"

definition retryRecord :: "time \<Rightarrow> task_record \<Rightarrow> task_record" where
  "retryRecord now r =
     r\<lparr>r_ManualRetryCount := r_ManualRetryCount r + 1, r_State := TaskStateQueued,
       r_CurrentAttempt := [], r_AwaitingReportSince := 0, r_ReportTimeoutAt := 0,
       r_NextEligibleAt := 0, r_ResolutionSource := [], r_TerminalConflict := False,
       r_Result := fmempty, r_ErrorMessage := [], r_ErrorClass := [], r_ErrorLayer := [],
       r_DeadLetterCode := [], r_UpdatedAt := now\<rparr>"

definition applyManualRetry ::
  "string \<Rightarrow> task_record \<Rightarrow> string \<Rightarrow> time \<Rightarrow> control_result sched_op" where
  "applyManualRetry taskID r0 operationID now s =
     (if r_State r0 \<noteq> TaskStateFailed \<and> r_State r0 \<noteq> TaskStateDeadLetter
      then (Err ErrTaskBoardControlStateConflict, s)
      else
        let cfg = cc_MaxManualRetryPerTask (s_taskBoardControl s);
            maxManualRetry = (if cfg \<le> 0 then 3 else cfg)
        in if maxManualRetry \<le> r_ManualRetryCount r0
           then (Err ErrTaskBoardControlRetryBudgetExceeded, s)
           else
             let r = retryRecord now r0;
                 st = s_Stats s;
                 res = controlApplied TaskBoardControlActionRetryTerminal operationID ReasonManualRetry r
             in (Ok res,
                 storeRecord taskID r s
                   \<lparr>s_Queue := s_Queue s @ [t_TaskID (r_Task r)],
                    s_Stats := st
                      \<lparr>st_ReclaimTotal := st_ReclaimTotal st + 1,
                       st_ManualControlSuccessTotal := st_ManualControlSuccessTotal st + 1,
                       st_ManualControlByAction := bump ''retry_terminal'' (st_ManualControlByAction st),
                       st_ManualControlByReason := bump ReasonManualRetry (st_ManualControlByReason st)\<rparr>,
                    s_ControlOps := fmupd operationID res (s_ControlOps s)\<rparr>))"

definition bumpRejected :: "scheduler_state \<Rightarrow> scheduler_state" where
  "bumpRejected s =
     s\<lparr>s_Stats := (s_Stats s)\<lparr>st_ManualControlRejectedTotal := st_ManualControlRejectedTotal (s_Stats s) + 1\<rparr>\<rparr>"

definition applyControl ::
  "control_action \<Rightarrow> string \<Rightarrow> task_record \<Rightarrow> string \<Rightarrow> time \<Rightarrow> control_result sched_op" where
  "applyControl action taskID r operationID now s =
     (case (case action of
              TaskBoardControlActionCancel \<Rightarrow> applyManualCancel taskID r operationID now s
            | TaskBoardControlActionRetryTerminal \<Rightarrow> applyManualRetry taskID r operationID now s
            | TaskBoardControlActionOther _ \<Rightarrow> (Err ErrTaskBoardControlActionInvalid, s)) of
        (Inl e, s') \<Rightarrow> (Err e, bumpRejected s')
      | (Inr res, s') \<Rightarrow> (Ok res, s'))"

definition controlTask :: "time \<Rightarrow> control_request \<Rightarrow> time \<Rightarrow> control_result sched_op" where
  "controlTask clk req now0 s =
     (if \<not> cc_Enabled (s_taskBoardControl s) then (Err ErrTaskBoardControlDisabled, s)
      else
        let taskID = TrimSpace (q_TaskID req);
            operationID = TrimSpace (q_OperationID req)
        in if operationID = [] then (Err ErrTaskBoardControlOperationIDRequired, s)
           else
             (case normalizeTaskBoardControlAction (q_Action req) of
                Inl e \<Rightarrow> (Err e, s)
              | Inr action \<Rightarrow>
                  let now = resolve_now clk now0 in
                  (case fmlookup (s_ControlOps s) operationID of
                     Some previous \<Rightarrow>
                       if k_TaskID previous \<noteq> taskID \<or> k_Action previous \<noteq> action
                       then (Err ErrTaskBoardControlOperationConflict, bumpRejected s)
                       else (Ok (previous\<lparr>k_Deduplicated := True\<rparr>),
                             s\<lparr>s_Stats := (s_Stats s)
                                 \<lparr>st_ManualControlDedupTotal := st_ManualControlDedupTotal (s_Stats s) + 1\<rparr>\<rparr>)
                   | None \<Rightarrow>
                       (case fmlookup (s_Tasks s) taskID of
                          None \<Rightarrow> (Err ErrTaskNotFound, bumpRejected s)
                        | Some r \<Rightarrow>
                            applyControl action taskID r operationID now
                              (s\<lparr>s_Stats := (s_Stats s)
                                   \<lparr>st_ManualControlTotal := st_ManualControlTotal (s_Stats s) + 1\<rparr>\<rparr>)))))"

section \<open>Terminal commits\<close>

definition terminalCommitKey :: "string \<Rightarrow> string \<Rightarrow> string" where
  "terminalCommitKey taskID attemptID = TrimSpace taskID @ ''|'' @ TrimSpace attemptID"

abbreviation AsyncResolutionSourceCallback :: string where
  "AsyncResolutionSourceCallback \<equiv> ''callback''"
abbreviation AsyncResolutionSourceReconcilePoll :: string where
  "AsyncResolutionSourceReconcilePoll \<equiv> ''reconcile_poll''"
abbreviation AsyncResolutionSourceTimeout :: string where
  "AsyncResolutionSourceTimeout \<equiv> ''timeout''"

definition isTimeoutTerminalCommit :: "terminal_commit \<Rightarrow> bool" where
  "isTimeoutTerminalCommit c \<longleftrightarrow>
     EqualFold (TrimSpace (c_ErrorLayer c)) ''scheduler.async_await''
     \<and> EqualFold (TrimSpace (c_ErrorMessage c)) ''async report timeout exceeded''"

definition terminalCommitConflict :: "terminal_commit \<Rightarrow> terminal_commit \<Rightarrow> bool" where
  "terminalCommitConflict existing incoming \<longleftrightarrow>
     c_Status existing \<noteq> c_Status incoming
     \<or> TrimSpace (c_OutcomeKey existing) \<noteq> TrimSpace (c_OutcomeKey incoming)
     \<or> TrimSpace (c_ErrorMessage existing) \<noteq> TrimSpace (c_ErrorMessage incoming)
     \<or> TrimSpace (c_ErrorLayer existing) \<noteq> TrimSpace (c_ErrorLayer incoming)
     \<or> c_ErrorClass existing \<noteq> c_ErrorClass incoming"

definition terminalRecord :: "terminal_commit \<Rightarrow> attempt \<Rightarrow> task_record \<Rightarrow> task_record" where
  "terminalRecord c current r =
     (putAttempt current r)
       \<lparr>r_CurrentAttempt := [], r_State := c_Status c, r_AwaitingReportSince := 0,
        r_ReportTimeoutAt := 0, r_NextEligibleAt := 0, r_DeadLetterCode := [],
        r_ResolutionSource := (if c_Source c \<noteq> [] then c_Source c else r_ResolutionSource r),
        r_RemoteTaskID := (if c_RemoteTaskID c \<noteq> [] then c_RemoteTaskID c else r_RemoteTaskID r),
        r_UpdatedAt := c_CommittedAt c, r_ErrorMessage := c_ErrorMessage c,
        r_ErrorClass := c_ErrorClass c, r_ErrorLayer := c_ErrorLayer c,
        r_Result := (if c_Status c = TaskStateSucceeded then c_Result c else fmempty)\<rparr>"

definition commitOutcome :: "task_record \<Rightarrow> bool \<Rightarrow> bool \<Rightarrow> bool \<Rightarrow> commit_result" where
  "commitOutcome r duplicate late conflict =
     \<lparr>cr_Record = r, cr_Duplicate = duplicate, cr_LateReport = late, cr_Conflict = conflict\<rparr>"

definition commitStats :: "terminal_commit \<Rightarrow> stats \<Rightarrow> stats" where
  "commitStats c st =
     st\<lparr>st_AsyncReconcileTerminalByPollTotal :=
          st_AsyncReconcileTerminalByPollTotal st
            + (if c_Source c = AsyncResolutionSourceReconcilePoll then 1 else 0),
        st_CompleteTotal := st_CompleteTotal st + (if c_Status c = TaskStateSucceeded then 1 else 0),
        st_FailTotal := st_FailTotal st + (if c_Status c = TaskStateSucceeded then 0 else 1)\<rparr>"

definition applyTerminalCommit ::
  "task_record \<Rightarrow> terminal_commit \<Rightarrow> commit_result sched_op" where
  "applyTerminalCommit r c s =
     (let key = terminalCommitKey (c_TaskID c) (c_AttemptID c) in
      (case currentAttempt r of
         None \<Rightarrow> (Err ErrAttemptNotFound, s)
       | Some current \<Rightarrow>
           if at_AttemptID current \<noteq> c_AttemptID c then (Err ErrStaleAttempt, s)
           else
             (case (case c_Status c of
                      TaskStateSucceeded \<Rightarrow> Some AttemptStatusSucceeded
                    | TaskStateFailed \<Rightarrow> Some AttemptStatusFailed
                    | _ \<Rightarrow> None) of
                None \<Rightarrow> (Err (ErrInvalid (TerminalStatusUnsupported (c_Status c))), s)
              | Some status \<Rightarrow>
                  let r' = terminalRecord c (current\<lparr>at_Status := status, at_TerminalAt := c_CommittedAt c\<rparr>) r
                  in (Ok (commitOutcome r' False False False),
                      storeRecord (c_TaskID c) r' s
                        \<lparr>s_TerminalCommits := fmupd key c (s_TerminalCommits s),
                         s_Stats := commitStats c (s_Stats s)\<rparr>))))"

definition bumpDuplicate :: "scheduler_state \<Rightarrow> scheduler_state" where
  "bumpDuplicate s =
     s\<lparr>s_Stats := (s_Stats s)\<lparr>st_DuplicateTerminalCommitTotal := st_DuplicateTerminalCommitTotal (s_Stats s) + 1\<rparr>\<rparr>"

definition commitTerminal :: "time \<Rightarrow> terminal_commit \<Rightarrow> commit_result sched_op" where
  "commitTerminal clk commit s =
     (case normalizeCommit clk commit of
        Inl e \<Rightarrow> (Err e, s)
      | Inr c \<Rightarrow>
          (case fmlookup (s_Tasks s) (c_TaskID c) of
             None \<Rightarrow> (Err ErrTaskNotFound, s)
           | Some r \<Rightarrow>
               if fmlookup (s_TerminalCommits s) (terminalCommitKey (c_TaskID c) (c_AttemptID c)) \<noteq> None
               then (Ok (commitOutcome r True False False), bumpDuplicate s)
               else if r_State r \<noteq> TaskStateRunning then (Err ErrTaskNotRunning, s)
               else
                 (case currentAttempt r of
                    None \<Rightarrow> (Err ErrWorkspaceBindingMismatch, s)
                  | Some current \<Rightarrow>
                      if at_WorkspaceProvenance current \<noteq> c_WorkspaceProvenance c
                      then (Err ErrWorkspaceBindingMismatch, s)
                      else applyTerminalCommit r c s)))"

definition flagConflict :: "bool \<Rightarrow> string \<Rightarrow> task_record \<Rightarrow> scheduler_state \<Rightarrow> task_record \<times> scheduler_state" where
  "flagConflict conflict taskID r s =
     (if conflict \<and> \<not> r_TerminalConflict r
      then let r' = r\<lparr>r_TerminalConflict := True\<rparr>
           in (r', storeRecord taskID r' s
                     \<lparr>s_Stats := (s_Stats s)
                        \<lparr>st_AsyncTerminalConflictTotal := st_AsyncTerminalConflictTotal (s_Stats s) + 1\<rparr>\<rparr>)
      else (r, s))"

definition commitAsyncReportTerminal :: "time \<Rightarrow> terminal_commit \<Rightarrow> commit_result sched_op" where
  "commitAsyncReportTerminal clk commit s =
     (case normalizeCommit clk commit of
        Inl e \<Rightarrow> (Err e, s)
      | Inr c0 \<Rightarrow>
          let c = (if c_Source c0 = [] then c0\<lparr>c_Source := AsyncResolutionSourceCallback\<rparr> else c0) in
          (case fmlookup (s_Tasks s) (c_TaskID c) of
             None \<Rightarrow> (Err ErrTaskNotFound, s)
           | Some r \<Rightarrow>
               (case fmlookup (s_TerminalCommits s) (terminalCommitKey (c_TaskID c) (c_AttemptID c)) of
                  Some existing \<Rightarrow>
                    let conflict = terminalCommitConflict existing c;
                        (r', s') = flagConflict conflict (c_TaskID c) r (bumpDuplicate s)
                    in (Ok (commitOutcome r' True (isTimeoutTerminalCommit existing) conflict), s')
                | None \<Rightarrow>
                    if r_State r = TaskStateRunning then (Err ErrTaskNotAwaitingReport, s)
                    else
                      (case currentAttempt r of
                         None \<Rightarrow> (Err ErrWorkspaceBindingMismatch, s)
                       | Some current \<Rightarrow>
                           if at_WorkspaceProvenance current \<noteq> c_WorkspaceProvenance c
                           then (Err ErrWorkspaceBindingMismatch, s)
                           else if r_State r \<noteq> TaskStateAwaitingReport
                           then (if aa_LateReportPolicy (s_asyncAwait s) = AsyncLateReportPolicyDropAndRecord
                                 then (Ok (commitOutcome r False True False), s)
                                 else (Err ErrTaskNotAwaitingReport, s))
                           else applyTerminalCommit r c s))))"

section \<open>Expired reports, requeue and queries\<close>

definition reportExpiredRecord :: "time \<Rightarrow> task_record \<Rightarrow> bool" where
  "reportExpiredRecord now r \<longleftrightarrow>
     r_State r = TaskStateAwaitingReport
     \<and> \<not> (IsZero (r_ReportTimeoutAt r) \<or> now < r_ReportTimeoutAt r)"

definition timeoutRecord :: "task_state \<Rightarrow> attempt \<Rightarrow> time \<Rightarrow> task_record \<Rightarrow> task_record" where
  "timeoutRecord terminalState current now r =
     (putAttempt current r)
       \<lparr>r_CurrentAttempt := [], r_State := terminalState, r_AwaitingReportSince := 0,
        r_ReportTimeoutAt := 0, r_ResolutionSource := AsyncResolutionSourceTimeout,
        r_NextEligibleAt := 0, r_Result := fmempty,
        r_ErrorMessage := ''async report timeout exceeded'', r_ErrorClass := ErrPolicyTimeout,
        r_ErrorLayer := ''scheduler.async_await'',
        r_DeadLetterCode := (if terminalState = TaskStateDeadLetter then ''async_report_timeout'' else []),
        r_UpdatedAt := now\<rparr>"

definition timeoutCommit :: "task_record \<Rightarrow> attempt \<Rightarrow> time \<Rightarrow> terminal_commit" where
  "timeoutCommit r current now =
     \<lparr>c_TaskID = t_TaskID (r_Task r), c_AttemptID = at_AttemptID current, c_Status = TaskStateFailed,
      c_Source = AsyncResolutionSourceTimeout, c_RemoteTaskID = r_RemoteTaskID r, c_Result = fmempty,
      c_ErrorMessage = r_ErrorMessage r, c_ErrorClass = r_ErrorClass r, c_ErrorLayer = r_ErrorLayer r,
      c_OutcomeKey = [], c_CommittedAt = now, c_WorkspaceProvenance = None\<rparr>"

definition expireReport ::
  "string \<Rightarrow> task_record \<Rightarrow> attempt \<Rightarrow> time \<Rightarrow> scheduler_state \<Rightarrow> claimed_task \<times> scheduler_state" where
  "expireReport taskID r0 current0 now s =
     (let terminalState =
            (if aa_TimeoutTerminal (s_asyncAwait s) = TaskStateDeadLetter \<and> \<not> g_DLQEnabled (s_governance s)
             then TaskStateFailed else aa_TimeoutTerminal (s_asyncAwait s));
          current = current0\<lparr>at_Status := AttemptStatusFailed, at_TerminalAt := now\<rparr>;
          r = timeoutRecord terminalState current now r0;
          st = s_Stats s;
          key = terminalCommitKey (t_TaskID (r_Task r)) (at_AttemptID current)
      in (emptyClaim r current,
          storeRecord taskID r s
            \<lparr>s_Stats := st
               \<lparr>st_DeadLetterTotal := st_DeadLetterTotal st + (if terminalState = TaskStateDeadLetter then 1 else 0),
                st_FailTotal := st_FailTotal st + (if terminalState = TaskStateDeadLetter then 0 else 1),
                st_AsyncTimeoutTotal := st_AsyncTimeoutTotal st + 1\<rparr>,
             s_TerminalCommits :=
               (if fmlookup (s_TerminalCommits s) key = None
                then fmupd key (timeoutCommit r current now) (s_TerminalCommits s)
                else s_TerminalCommits s)\<rparr>))"

fun expireReportsLoop ::
  "time \<Rightarrow> string list \<Rightarrow> scheduler_state \<Rightarrow> claimed_task list \<times> scheduler_state" where
  "expireReportsLoop now [] s = ([], s)"
| "expireReportsLoop now (taskID # ids) s =
     (case fmlookup (s_Tasks s) taskID of
        None \<Rightarrow> expireReportsLoop now ids s
      | Some r \<Rightarrow>
          if r_State r \<noteq> TaskStateAwaitingReport then expireReportsLoop now ids s
          else
            (case currentAttempt r of
               None \<Rightarrow> expireReportsLoop now ids s
             | Some current \<Rightarrow>
                 let (c, s1) = expireReport taskID r current now s;
                     (out, s2) = expireReportsLoop now ids s1
                 in (c # out, s2)))"

definition expireAwaitingReports ::
  "time \<Rightarrow> time \<Rightarrow> scheduler_state \<Rightarrow> claimed_task list \<times> scheduler_state" where
  "expireAwaitingReports clk now0 s =
     (let now = resolve_now clk now0
      in expireReportsLoop now (selectKeys (reportExpiredRecord now) s) s)"

definition requeue :: "time \<Rightarrow> string \<Rightarrow> time \<Rightarrow> task_record sched_op" where
  "requeue clk taskID0 now0 s =
     (let taskID = TrimSpace taskID0 in
      if taskID = [] then (Err (ErrInvalid TaskIDRequired), s)
      else
        (case fmlookup (s_Tasks s) taskID of
           None \<Rightarrow> (Err ErrTaskNotFound, s)
         | Some r \<Rightarrow>
             let now = resolve_now clk now0 in
             if r_State r \<noteq> TaskStateRunning then (Err ErrTaskNotRunning, s)
             else
               (case currentAttempt r of
                  None \<Rightarrow> (Err ErrAttemptNotFound, s)
                | Some current \<Rightarrow>
                    let (r', s') = handleRetryTransition taskID r current now s in (Ok r', s'))))"

definition getTask :: "string \<Rightarrow> scheduler_state \<Rightarrow> task_record option" where
  "getTask taskID s = fmlookup (s_Tasks s) (TrimSpace taskID)"

definition listAwaitingReport :: "time \<Rightarrow> time \<Rightarrow> int \<Rightarrow> scheduler_state \<Rightarrow> task_record list" where
  "listAwaitingReport clk now0 limit0 s =
     (let now = resolve_now clk now0;
          limit = (if limit0 \<le> 0 then 64 else limit0);
          taskIDs = selectKeys (\<lambda>r. r_State r = TaskStateAwaitingReport
                                   \<and> \<not> (IsZero (r_ReportTimeoutAt r) \<or> r_ReportTimeoutAt r < now)) s
      in take (nat limit) (List.map_filter (\<lambda>k. fmlookup (s_Tasks s) k) taskIDs))"

definition recordAsyncReconcileStats :: "int \<Rightarrow> int \<Rightarrow> scheduler_state \<Rightarrow> scheduler_state" where
  "recordAsyncReconcileStats pollTotal errorTotal s =
     s\<lparr>s_Stats := (s_Stats s)
         \<lparr>st_AsyncReconcilePollTotal :=
            st_AsyncReconcilePollTotal (s_Stats s) + (if 0 < pollTotal then pollTotal else 0),
          st_AsyncReconcileErrorTotal :=
            st_AsyncReconcileErrorTotal (s_Stats s) + (if 0 < errorTotal then errorTotal else 0)\<rparr>\<rparr>"

end
