(* ===== verification/Scheduler_Inv.thy ===== *)
theory Scheduler_Inv
  imports Scheduler_State
begin

text \<open>
  The well-formedness of the scheduler's records and state, and that the operations of
  \<open>state.go\<close> on single records keep it. The record invariant ties a task's state to its attempts (an attempt
  runs exactly while the task is running or awaits a report, and it is the last one); the state
  invariant adds that no queued task is missing from the queue and that the ledger of terminal
  commits agrees with the attempts.
\<close>

section \<open>Records\<close>

definition wf_task :: "string \<Rightarrow> task \<Rightarrow> bool" where
  "wf_task tid t \<longleftrightarrow> normalizeTask t = Ok t \<and> t_TaskID t = tid"

text \<open>Attempts are numbered from 1 and carry the task's workspace provenance.\<close>

definition wf_attempts :: "string \<Rightarrow> workspace_provenance option \<Rightarrow> attempt list \<Rightarrow> bool" where
  "wf_attempts tid wp xs \<longleftrightarrow>
     map at_AttemptID xs = map (attempt_id tid) [1..<Suc (length xs)]
     \<and> map at_Attempt xs = map int [1..<Suc (length xs)]
     \<and> (\<forall>a \<in> set xs. at_WorkspaceProvenance a = wp \<and> trimmed (at_WorkerID a) \<and> trimmed (at_LeaseToken a))"

abbreviation finished_all :: "attempt list \<Rightarrow> bool" where
  "finished_all xs \<equiv> \<forall>a \<in> set xs. at_Status a \<noteq> AttemptStatusRunning"

definition idle :: "task_record \<Rightarrow> bool" where
  "idle r \<longleftrightarrow> r_CurrentAttempt r = [] \<and> finished_all (r_Attempts r)"

definition inflight :: "task_record \<Rightarrow> bool" where
  "inflight r \<longleftrightarrow>
     r_Attempts r \<noteq> [] \<and> r_CurrentAttempt r = at_AttemptID (last (r_Attempts r))
     \<and> at_Status (last (r_Attempts r)) = AttemptStatusRunning \<and> finished_all (butlast (r_Attempts r))"

definition wf_phase :: "task_record \<Rightarrow> bool" where
  "wf_phase r \<longleftrightarrow>
     (case r_State r of
        TaskStateQueued \<Rightarrow> idle r
      | TaskStateRunning \<Rightarrow> inflight r
      | TaskStateAwaitingReport \<Rightarrow> inflight r
      | TaskStateOther _ \<Rightarrow> False
      | _ \<Rightarrow> idle r)"

text \<open>The times and texts a record may hold in its state.\<close>

definition wf_fields :: "task_record \<Rightarrow> bool" where
  "wf_fields r \<longleftrightarrow>
     (if r_State r = TaskStateAwaitingReport
      then r_ReportTimeoutAt r \<noteq> 0 \<and> r_AwaitingReportSince r \<noteq> 0
      else r_ReportTimeoutAt r = 0 \<and> r_AwaitingReportSince r = 0)
     \<and> (r_State r \<noteq> TaskStateQueued \<longrightarrow> r_NextEligibleAt r = 0)
     \<and> (terminal_state (r_State r) \<or> r_ResolutionSource r = [])
     \<and> trimmed (r_ErrorMessage r) \<and> trimmed (r_ErrorLayer r) \<and> trimmed (r_DeadLetterCode r)
     \<and> trimmed (r_RemoteTaskID r) \<and> trimmed (r_ResolutionSource r)
     \<and> ToLower (r_ResolutionSource r) = r_ResolutionSource r"

text \<open>
  An attempt succeeds only as the task succeeds, and the number of attempts stays within the
  task's budget and its manual retries, one below it while the task is queued.
\<close>

definition wf_outcome :: "task_record \<Rightarrow> bool" where
  "wf_outcome r \<longleftrightarrow>
     (\<forall>a \<in> set (butlast (r_Attempts r)). at_Status a \<noteq> AttemptStatusSucceeded)
     \<and> (r_State r = TaskStateSucceeded
          \<longleftrightarrow> r_Attempts r \<noteq> [] \<and> at_Status (last (r_Attempts r)) = AttemptStatusSucceeded)"

definition wf_budget :: "task_record \<Rightarrow> bool" where
  "wf_budget r \<longleftrightarrow>
     0 \<le> r_ManualRetryCount r
     \<and> int (length (r_Attempts r)) \<le> t_MaxAttempts (r_Task r) + r_ManualRetryCount r
     \<and> (r_State r = TaskStateQueued
          \<longrightarrow> int (length (r_Attempts r)) < t_MaxAttempts (r_Task r) + r_ManualRetryCount r)"

definition wf_record :: "string \<Rightarrow> task_record \<Rightarrow> bool" where
  "wf_record tid r \<longleftrightarrow>
     wf_task tid (r_Task r) \<and> wf_attempts tid (t_WorkspaceProvenance (r_Task r)) (r_Attempts r)
     \<and> wf_phase r \<and> wf_fields r \<and> wf_outcome r \<and> wf_budget r"

lemmas wf_defs = wf_record_def wf_phase_def wf_fields_def wf_outcome_def wf_budget_def idle_def inflight_def

lemma wf_task_facts:
  assumes "wf_task tid t"
  shows "tid \<noteq> []" "trimmed tid" "t_TaskID t = tid" "0 < t_MaxAttempts t"
    "t_Priority t \<in> {TaskPriorityHigh, TaskPriorityNormal, TaskPriorityLow}"
  using normalizeTask_fields [of t t] assms by (simp_all add: wf_task_def)

section \<open>Attempt identities\<close>

lemma attempt_id_plain_tail: "\<forall>c \<in> set (''-attempt-'' @ nat_dec n). plain_byte c"
  using nat_dec_plain [of n] by (auto simp: plain_byte_def)

lemma trimmed_attempt_id: "trimmed tid \<Longrightarrow> tid \<noteq> [] \<Longrightarrow> trimmed (attempt_id tid n)"
  unfolding attempt_id_def by (rule trimmed_append_plain) (use attempt_id_plain_tail in auto)

lemma attempt_id_nonempty [simp]: "attempt_id tid n \<noteq> []"
  by (simp add: attempt_id_def)

lemma attempt_id_inject [simp]: "attempt_id tid m = attempt_id tid n \<longleftrightarrow> m = n"
  by (simp add: attempt_id_def)

lemma wf_attempts_nth:
  assumes "wf_attempts tid wp xs" "i < length xs"
  shows "at_AttemptID (xs ! i) = attempt_id tid (Suc i)" "at_Attempt (xs ! i) = int (Suc i)"
proof -
  have "map at_AttemptID xs ! i = map (attempt_id tid) [1..<Suc (length xs)] ! i"
    "map at_Attempt xs ! i = map int [1..<Suc (length xs)] ! i"
    using assms(1) by (simp_all add: wf_attempts_def del: upt_Suc)
  then show "at_AttemptID (xs ! i) = attempt_id tid (Suc i)" "at_Attempt (xs ! i) = int (Suc i)"
    using assms(2) by (simp_all del: upt_Suc)
qed

lemma wf_attempts_ids: "wf_attempts tid wp xs \<Longrightarrow> distinct (map at_AttemptID xs)"
  by (simp add: wf_attempts_def distinct_map inj_on_def del: upt_Suc)

lemma wf_attempts_id_ex:
  assumes "wf_attempts tid wp xs" "a \<in> set xs"
  obtains n where "at_AttemptID a = attempt_id tid n"
  using assms wf_attempts_nth(1) by (metis in_set_conv_nth)

lemma wf_attempts_trimmed:
  assumes "wf_attempts tid wp xs" "a \<in> set xs" "trimmed tid" "tid \<noteq> []"
  shows "trimmed (at_AttemptID a)" "at_AttemptID a \<noteq> []"
  using assms trimmed_attempt_id by (metis wf_attempts_id_ex attempt_id_nonempty)+

lemma wf_attempts_snoc:
  assumes "wf_attempts tid wp xs"
  shows "wf_attempts tid wp (xs @ [a]) \<longleftrightarrow>
     at_AttemptID a = attempt_id tid (Suc (length xs)) \<and> at_Attempt a = int (Suc (length xs))
     \<and> at_WorkspaceProvenance a = wp \<and> trimmed (at_WorkerID a) \<and> trimmed (at_LeaseToken a)"
  using assms by (auto simp: wf_attempts_def)

lemma wf_attempts_Nil [simp]: "wf_attempts tid wp []"
  by (simp add: wf_attempts_def)

lemma wf_attempts_butlast: "wf_attempts tid wp (xs @ [a]) \<Longrightarrow> wf_attempts tid wp xs"
  by (simp add: wf_attempts_def)

section \<open>The current attempt\<close>

lemma currentAttempt_idle: "idle r \<Longrightarrow> currentAttempt r = None"
  by (simp add: idle_def currentAttempt_def attemptByID_def)

lemma find_last_attempt:
  assumes "wf_attempts tid wp (ys @ [y])" "trimmed tid" "tid \<noteq> []"
  shows "find (\<lambda>a. TrimSpace (at_AttemptID a) = at_AttemptID y) (ys @ [y]) = Some y"
proof -
  have "at_AttemptID a \<noteq> at_AttemptID y \<and> TrimSpace (at_AttemptID a) = at_AttemptID a"
    if "a \<in> set ys" for a
    using wf_attempts_ids [OF assms(1)] wf_attempts_trimmed [OF assms(1) _ assms(2,3), of a] that by simp (metis image_eqI)
  then have "find (\<lambda>a. TrimSpace (at_AttemptID a) = at_AttemptID y) ys = None"
    by (simp add: find_None_iff)
  moreover have "TrimSpace (at_AttemptID y) = at_AttemptID y"
    using wf_attempts_trimmed [OF assms(1) _ assms(2,3), of y] by simp
  ultimately show ?thesis
    by (induction ys) (auto split: if_splits)
qed

lemma currentAttempt_inflight:
  assumes "inflight r" "wf_attempts tid wp (r_Attempts r)" "trimmed tid" "tid \<noteq> []"
  shows "currentAttempt r = Some (last (r_Attempts r))"
proof -
  obtain ys y where xs: "r_Attempts r = ys @ [y]"
    using assms(1) by (cases "r_Attempts r" rule: rev_cases) (auto simp: inflight_def)
  have "r_CurrentAttempt r = at_AttemptID y" using assms(1) xs by (simp add: inflight_def)
  moreover have "trimmed (at_AttemptID y)" "at_AttemptID y \<noteq> []"
    using wf_attempts_trimmed [OF assms(2) _ assms(3,4), of y] xs by auto
  moreover have "find (\<lambda>a. TrimSpace (at_AttemptID a) = at_AttemptID y) (ys @ [y]) = Some y"
    using find_last_attempt assms(2-4) xs by simp
  ultimately show ?thesis by (simp add: currentAttempt_def attemptByID_def xs)
qed

lemma putAttempt_last:
  assumes "wf_attempts tid wp (r_Attempts r)" "r_Attempts r \<noteq> []"
    "at_AttemptID a = at_AttemptID (last (r_Attempts r))"
  shows "putAttempt a r = r\<lparr>r_Attempts := butlast (r_Attempts r) @ [a]\<rparr>"
proof -
  obtain ys y where xs: "r_Attempts r = ys @ [y]"
    using assms(2) by (cases "r_Attempts r" rule: rev_cases) auto
  have "\<forall>x \<in> set ys. at_AttemptID x \<noteq> at_AttemptID a"
    using wf_attempts_ids [OF assms(1)] assms(3) xs by simp (metis image_eqI)
  then show ?thesis
    using assms(3) xs by (simp add: putAttempt_def set_first_append_last)
qed

text \<open>A record with a running attempt, seen through its last attempt.\<close>

lemma wf_inflight_cases:
  assumes "wf_record tid r" "r_State r = TaskStateRunning \<or> r_State r = TaskStateAwaitingReport"
  obtains ys y where "r_Attempts r = ys @ [y]" "currentAttempt r = Some y"
    "r_CurrentAttempt r = at_AttemptID y"
    "at_AttemptID y = attempt_id tid (Suc (length ys))"
    "at_Status y = AttemptStatusRunning" "finished_all ys"
    "at_WorkspaceProvenance y = t_WorkspaceProvenance (r_Task r)"
    "\<And>a. at_AttemptID a = at_AttemptID y \<Longrightarrow> putAttempt a r = r\<lparr>r_Attempts := ys @ [a]\<rparr>"
proof -
  have wf: "wf_attempts tid (t_WorkspaceProvenance (r_Task r)) (r_Attempts r)" "inflight r"
    using assms by (auto simp: wf_record_def wf_phase_def)
  have tid: "trimmed tid" "tid \<noteq> []"
    using wf_task_facts assms(1) by (auto simp: wf_record_def)
  obtain ys y where xs: "r_Attempts r = ys @ [y]"
    using wf(2) by (cases "r_Attempts r" rule: rev_cases) (auto simp: inflight_def)
  have y: "at_AttemptID y = attempt_id tid (Suc (length ys))"
    using wf_attempts_nth(1) [OF wf(1), of "length ys"] xs by simp
  have "at_WorkspaceProvenance y = t_WorkspaceProvenance (r_Task r)"
    using wf(1) xs by (simp add: wf_attempts_def)
  then show thesis
    using that [OF xs] currentAttempt_inflight [OF wf(2,1) tid] wf(2) xs y putAttempt_last [OF wf(1)]
    by (simp add: inflight_def)
qed

lemma wf_inflight_facts:
  assumes "wf_record tid r" "r_State r = TaskStateRunning \<or> r_State r = TaskStateAwaitingReport"
  shows "r_Attempts r \<noteq> []" "currentAttempt r = Some (last (r_Attempts r))"
    "at_Status (last (r_Attempts r)) = AttemptStatusRunning"
    "r_CurrentAttempt r = at_AttemptID (last (r_Attempts r))"
    "r_CurrentAttempt r \<in> at_AttemptID ` set (r_Attempts r)"
    "r_CurrentAttempt r \<noteq> []" "trimmed (r_CurrentAttempt r)"
proof -
  have t: "trimmed (attempt_id tid n)" for n
    using trimmed_attempt_id wf_task_facts(1,2) assms(1) by (auto simp: wf_record_def)
  show "r_Attempts r \<noteq> []" "currentAttempt r = Some (last (r_Attempts r))"
    "at_Status (last (r_Attempts r)) = AttemptStatusRunning"
    "r_CurrentAttempt r = at_AttemptID (last (r_Attempts r))"
    "r_CurrentAttempt r \<in> at_AttemptID ` set (r_Attempts r)"
    "r_CurrentAttempt r \<noteq> []" "trimmed (r_CurrentAttempt r)"
    by (rule wf_inflight_cases [OF assms], simp add: t)+
qed

lemma wf_idle_current: "wf_record tid r \<Longrightarrow>
    r_State r \<noteq> TaskStateRunning \<Longrightarrow> r_State r \<noteq> TaskStateAwaitingReport \<Longrightarrow> currentAttempt r = None"
  by (cases "r_State r") (auto simp: wf_record_def wf_phase_def intro: currentAttempt_idle)

section \<open>Every record update keeps a record well-formed\<close>

text \<open>
  Replacing the running attempt by one that is the same attempt (same identity, number, worker,
  token and provenance) keeps the numbering.
\<close>

definition same_attempt :: "attempt \<Rightarrow> attempt \<Rightarrow> bool" where
  "same_attempt a b \<longleftrightarrow>
     at_AttemptID a = at_AttemptID b \<and> at_Attempt a = at_Attempt b
     \<and> at_WorkspaceProvenance a = at_WorkspaceProvenance b
     \<and> at_WorkerID a = at_WorkerID b \<and> at_LeaseToken a = at_LeaseToken b"

lemma wf_attempts_replace:
  "wf_attempts tid wp (ys @ [y]) \<Longrightarrow> same_attempt a y \<Longrightarrow> wf_attempts tid wp (ys @ [a])"
  by (auto simp: wf_attempts_def same_attempt_def)

lemma wf_newRecord: "normalizeTask t = Inr n \<Longrightarrow> wf_record (t_TaskID n) (newRecord n now)"
  using normalizeTask_idem [of t n] normalizeTask_fields(4) [of t n]
  by (simp add: wf_defs newRecord_def wf_task_def)

lemma trimmed_lease_token:
  assumes "trimmed tid" "tid \<noteq> []"
  shows "trimmed (tid @ ''-lease-'' @ Itoa n)"
proof (rule trimmed_append_plain [OF assms])
  show "\<forall>c \<in> set (''-lease-'' @ Itoa n). plain_byte c"
    using nat_dec_plain by (auto simp: Itoa_def plain_byte_def)
qed simp

lemma wf_startAttempt:
  assumes "wf_record tid r" "r_State r = TaskStateQueued" "trimmed workerID"
  shows "wf_record tid (startAttempt (newAttempt tid workerID r now lease) now r)"
proof -
  have q: "idle r" using assms(1,2) by (simp add: wf_record_def wf_phase_def)
  have "trimmed tid" "tid \<noteq> []" using assms(1) wf_task_facts by (auto simp: wf_record_def)
  then have "wf_attempts tid (t_WorkspaceProvenance (r_Task r))
      (r_Attempts r @ [newAttempt tid workerID r now lease])"
    using assms trimmed_lease_token by (simp add: wf_record_def wf_attempts_snoc newAttempt_def Let_def)
  moreover have "\<forall>a\<in>set (r_Attempts r). at_Status a \<noteq> AttemptStatusSucceeded"
    using assms(1,2) by (cases "r_Attempts r" rule: rev_cases) (auto simp: wf_record_def wf_outcome_def)
  ultimately show ?thesis
    using assms q by (simp add: wf_defs startAttempt_def newAttempt_def Let_def)
qed

lemma wf_keep_running:
  assumes "wf_record tid r" "r_Attempts r = ys @ [y]" "same_attempt a y"
    "at_Status a = AttemptStatusRunning" "r_State r = TaskStateRunning"
    "r' = r\<lparr>r_Attempts := ys @ [a], r_UpdatedAt := now\<rparr>"
  shows "wf_record tid r'"
  using assms wf_attempts_replace [of tid _ ys y a] by (auto simp: wf_defs same_attempt_def)

lemma wf_awaiting:
  assumes "wf_record tid r" "r_State r = TaskStateRunning" "r_Attempts r = ys @ [y]"
    "at_Status y = AttemptStatusRunning" "putAttempt a r = r\<lparr>r_Attempts := ys @ [a]\<rparr>"
    "a = y\<lparr>at_LeaseExpiresAt := 0, at_HeartbeatAt := now\<rparr>"
    "now \<noteq> 0" "now + timeout \<noteq> 0" "trimmed remote"
  shows "wf_record tid (awaitReport y remote now timeout r)"
proof -
  have "same_attempt a y" "at_Status a = AttemptStatusRunning"
    using assms(4,6) by (simp_all add: same_attempt_def)
  then have "wf_attempts tid (t_WorkspaceProvenance (r_Task r)) (ys @ [a])"
    using assms(1,3) wf_attempts_replace by (auto simp: wf_record_def)
  then show ?thesis
    using assms by (auto simp: wf_defs awaitReport_def)
qed

text \<open>Leaving the running attempt: it is finished and the record is idle.\<close>

lemma wf_finish:
  assumes "wf_record tid r" "r_State r = TaskStateRunning \<or> r_State r = TaskStateAwaitingReport"
    and xs: "r_Attempts r = ys @ [y]" "same_attempt a y" "at_Status a \<noteq> AttemptStatusRunning"
    and r': "r_Task r' = r_Task r" "r_Attempts r' = ys @ [a]" "r_CurrentAttempt r' = []"
      "r_ManualRetryCount r' = r_ManualRetryCount r"
    and st: "terminal_state (r_State r') \<or>
        r_State r' = TaskStateQueued \<and> int (Suc (length ys)) < t_MaxAttempts (r_Task r)"
    and succ: "r_State r' = TaskStateSucceeded \<longleftrightarrow> at_Status a = AttemptStatusSucceeded"
    and "wf_fields r'"
  shows "wf_record tid r'"
proof -
  have wf: "wf_task tid (r_Task r)" "wf_attempts tid (t_WorkspaceProvenance (r_Task r)) (ys @ [y])"
    "inflight r" "wf_outcome r" "wf_budget r"
    using assms(1,2) xs by (auto simp: wf_record_def wf_phase_def)
  have "wf_phase r'"
    using st wf(3) xs r' by (auto simp: wf_phase_def idle_def inflight_def)
  moreover have "wf_outcome r'"
    using succ wf(4) xs r' by (auto simp: wf_outcome_def)
  moreover have "wf_budget r'"
    using wf(5) xs r' st by (auto simp: wf_budget_def)
  ultimately show ?thesis
    using wf wf_attempts_replace [OF wf(2) xs(2)] r' \<open>wf_fields r'\<close> by (simp add: wf_record_def)
qed

lemma trimmed_literals [simp]:
  "trimmed ''manual cancel requested''" "trimmed ''scheduler.task_board.control''"
  "trimmed ''recovery timeout reentry budget exhausted''" "trimmed ''retry_exhausted''"
  "trimmed ''retry attempts exhausted''" "trimmed ''async report timeout exceeded''"
  "trimmed ''scheduler.async_await''" "trimmed ''async_report_timeout''"
  "trimmed ''manual_cancel''" "trimmed ''timeout''" "trimmed ''callback''"
  by (rule trimmed_plain_ends; simp add: plain_byte_def)+

lemma ToLower_literals [simp]:
  "ToLower ''manual_cancel'' = ''manual_cancel''" "ToLower ''timeout'' = ''timeout''"
  "ToLower ''callback'' = ''callback''" "ToLower [] = []"
  by (rule ToLower_ascii_lower; simp add: ascii_lower_def lower_byte_def)+

lemma wf_cancel_queued:
  assumes "wf_record tid r" "r_State r = TaskStateQueued"
  shows "wf_record tid (cancelRecord now r)"
  using assms by (simp add: wf_defs cancelRecord_def)

lemma wf_cancel_awaiting:
  assumes "wf_record tid r" "r_State r = TaskStateAwaitingReport" "r_Attempts r = ys @ [y]"
    and "putAttempt a r = r\<lparr>r_Attempts := ys @ [a]\<rparr>"
    and "a = y\<lparr>at_Status := AttemptStatusFailed, at_TerminalAt := now\<rparr>"
  shows "wf_record tid (cancelRecord now (putAttempt a r))"
  by (rule wf_finish [OF assms(1) _ assms(3), where a = a])
    (use assms in \<open>simp_all add: cancelRecord_def same_attempt_def wf_record_def wf_fields_def\<close>)

lemma wf_retry:
  assumes "wf_record tid r" "r_State r = TaskStateFailed \<or> r_State r = TaskStateDeadLetter"
  shows "wf_record tid (retryRecord now r)"
  using assms by (auto simp: wf_defs retryRecord_def)

lemma wf_terminal:
  assumes "wf_record tid r" "r_State r = TaskStateRunning \<or> r_State r = TaskStateAwaitingReport"
    and "r_Attempts r = ys @ [y]" "putAttempt a r = r\<lparr>r_Attempts := ys @ [a]\<rparr>"
    and "a = y\<lparr>at_Status := status, at_TerminalAt := t\<rparr>"
    and "c_Status c = TaskStateSucceeded \<and> status = AttemptStatusSucceeded
        \<or> c_Status c = TaskStateFailed \<and> status = AttemptStatusFailed"
    and "trimmed (c_ErrorMessage c)" "trimmed (c_ErrorLayer c)" "trimmed (c_RemoteTaskID c)"
      "trimmed (c_Source c)" "ToLower (c_Source c) = c_Source c"
  shows "wf_record tid (terminalRecord c a r)"
  by (rule wf_finish [OF assms(1,2,3), where a = a])
    (use assms in \<open>auto simp: terminalRecord_def same_attempt_def wf_record_def wf_fields_def\<close>)

lemma wf_timeout:
  assumes "wf_record tid r" "r_State r = TaskStateAwaitingReport" "r_Attempts r = ys @ [y]"
    and "putAttempt a r = r\<lparr>r_Attempts := ys @ [a]\<rparr>"
    and "a = y\<lparr>at_Status := AttemptStatusFailed, at_TerminalAt := now\<rparr>"
    and "st = TaskStateFailed \<or> st = TaskStateDeadLetter"
  shows "wf_record tid (timeoutRecord st a now r)"
  by (rule wf_finish [OF assms(1) _ assms(3), where a = a])
    (use assms in \<open>auto simp: timeoutRecord_def same_attempt_def wf_record_def wf_fields_def\<close>)

end
