(* ===== verification/Scheduler_Safety.thy ===== *)
theory Scheduler_Safety
  imports Scheduler_Inv
begin

text \<open>
  The invariant of the scheduler's state and its preservation by the operations of
  \<open>state.go\<close>, for \<open>restore\<close> see \<open>Scheduler_Restore\<close>: records are well-formed under their keys, every queued task is in the queue,
  the ledger of terminal commits agrees with the attempts it settled, the control log names known
  tasks, and the statistics that are recomputed on restore are consistent.
\<close>

section \<open>The state invariant\<close>

definition tasks_ok :: "(string, task_record) gomap \<Rightarrow> bool" where
  "tasks_ok T \<longleftrightarrow> fmpred wf_record T"

definition queue_ok :: "(string, task_record) gomap \<Rightarrow> string list \<Rightarrow> bool" where
  "queue_ok T Q \<longleftrightarrow>
     (\<forall>q \<in> set Q. fmlookup T q \<noteq> None) \<and> fmpred (\<lambda>k r. r_State r = TaskStateQueued \<longrightarrow> k \<in> set Q) T"

definition commit_status :: "terminal_commit \<Rightarrow> attempt_status" where
  "commit_status c = (if c_Status c = TaskStateSucceeded then AttemptStatusSucceeded else AttemptStatusFailed)"

definition commit_text_ok :: "terminal_commit \<Rightarrow> bool" where
  "commit_text_ok c \<longleftrightarrow>
     trimmed (c_TaskID c) \<and> c_TaskID c \<noteq> [] \<and> trimmed (c_AttemptID c) \<and> c_AttemptID c \<noteq> []
     \<and> trimmed (c_Source c) \<and> ToLower (c_Source c) = c_Source c \<and> trimmed (c_RemoteTaskID c)
     \<and> trimmed (c_ErrorMessage c) \<and> trimmed (c_ErrorLayer c)
     \<and> (c_Status c = TaskStateSucceeded \<or> c_Status c = TaskStateFailed)"

text \<open>A commit is filed under its own key and its attempt has the status it reported.\<close>

definition commit_ok :: "(string, task_record) gomap \<Rightarrow> string \<Rightarrow> terminal_commit \<Rightarrow> bool" where
  "commit_ok T key c \<longleftrightarrow>
     key = terminalCommitKey (c_TaskID c) (c_AttemptID c) \<and> commit_text_ok c
     \<and> (case fmlookup T (c_TaskID c) of
          None \<Rightarrow> False
        | Some r \<Rightarrow>
            (c_WorkspaceProvenance c = None \<or> c_WorkspaceProvenance c = t_WorkspaceProvenance (r_Task r))
            \<and> (\<exists>a \<in> set (r_Attempts r). at_AttemptID a = c_AttemptID c \<and> at_Status a = commit_status c))"

text \<open>Every attempt that succeeded has its commit.\<close>

definition success_ok :: "(string, terminal_commit) gomap \<Rightarrow> string \<Rightarrow> task_record \<Rightarrow> bool" where
  "success_ok C k r \<longleftrightarrow>
     (\<forall>a \<in> set (r_Attempts r). at_Status a = AttemptStatusSucceeded \<longrightarrow>
        (case fmlookup C (terminalCommitKey k (at_AttemptID a)) of
           None \<Rightarrow> False | Some c \<Rightarrow> c_Status c = TaskStateSucceeded))"

definition ledger_ok ::
  "(string, task_record) gomap \<Rightarrow> (string, terminal_commit) gomap \<Rightarrow> bool" where
  "ledger_ok T C \<longleftrightarrow> fmpred (commit_ok T) C \<and> fmpred (success_ok C) T"

definition control_entry :: "(string, task_record) gomap \<Rightarrow> string \<Rightarrow> control_result \<Rightarrow> bool" where
  "control_entry T op k \<longleftrightarrow>
     k_OperationID k = op \<and> op \<noteq> [] \<and> trimmed op \<and> k_Applied k \<and> \<not> k_Deduplicated k
     \<and> trimmed (k_TaskID k) \<and> fmlookup T (k_TaskID k) \<noteq> None
     \<and> (k_Action k = TaskBoardControlActionCancel \<and> k_Reason k = ReasonManualCancel
        \<or> k_Action k = TaskBoardControlActionRetryTerminal \<and> k_Reason k = ReasonManualRetry)"

definition control_ok :: "(string, task_record) gomap \<Rightarrow> (string, control_result) gomap \<Rightarrow> bool" where
  "control_ok T K \<longleftrightarrow> fmpred (control_entry T) K"

definition config_ok :: "scheduler_state \<Rightarrow> bool" where
  "config_ok s \<longleftrightarrow>
     (aa_TimeoutTerminal (s_asyncAwait s) = TaskStateFailed
      \<or> aa_TimeoutTerminal (s_asyncAwait s) = TaskStateDeadLetter)
     \<and> 0 < aa_ReportTimeout (s_asyncAwait s)
     \<and> aa_LateReportPolicy (s_asyncAwait s) = AsyncLateReportPolicyDropAndRecord
     \<and> (g_QoS (s_governance s) = QoSModeFIFO \<or> g_QoS (s_governance s) = QoSModePriority)
     \<and> 0 < g_MaxConsecutiveClaimsPerPriority (s_governance s)"

definition stats_ok :: "scheduler_state \<Rightarrow> bool" where
  "stats_ok s \<longleftrightarrow>
     trimmed (st_Backend (s_Stats s)) \<and> st_Backend (s_Stats s) \<noteq> []
     \<and> st_QoSMode (s_Stats s) = qos_string (g_QoS (s_governance s))
     \<and> st_DelayedWaitMsP95 (s_Stats s) = percentileP95Int64 (s_DelayedWaitMs s)"

definition sched_inv :: "scheduler_state \<Rightarrow> bool" where
  "sched_inv s \<longleftrightarrow>
     tasks_ok (s_Tasks s) \<and> queue_ok (s_Tasks s) (s_Queue s)
     \<and> ledger_ok (s_Tasks s) (s_TerminalCommits s) \<and> control_ok (s_Tasks s) (s_ControlOps s)
     \<and> config_ok s \<and> stats_ok s"

lemma sched_inv_record:
  "sched_inv s \<Longrightarrow> fmlookup (s_Tasks s) k = Some r \<Longrightarrow> wf_record k r"
  by (auto simp: sched_inv_def tasks_ok_def)

section \<open>One record changes\<close>

text \<open>
  What an update of one record may do to its attempts without touching the ledger: finished
  attempts stay as they are and none becomes successful.
\<close>

definition evolves :: "attempt list \<Rightarrow> attempt list \<Rightarrow> bool" where
  "evolves xs ys \<longleftrightarrow>
     (\<forall>a \<in> set xs. at_Status a \<noteq> AttemptStatusRunning \<longrightarrow> a \<in> set ys)
     \<and> (\<forall>a \<in> set ys. at_Status a = AttemptStatusSucceeded \<longrightarrow> a \<in> set xs)"

lemma evolves_refl [simp]: "evolves xs xs"
  by (simp add: evolves_def)

lemma evolves_snoc: "at_Status a \<noteq> AttemptStatusSucceeded \<Longrightarrow> evolves xs (xs @ [a])"
  by (auto simp: evolves_def)

lemma evolves_last:
  "at_Status y = AttemptStatusRunning \<Longrightarrow> at_Status a \<noteq> AttemptStatusSucceeded
     \<Longrightarrow> evolves (xs @ [y]) (xs @ [a])"
  by (auto simp: evolves_def)

lemma tasks_ok_upd: "tasks_ok T \<Longrightarrow> wf_record k r \<Longrightarrow> tasks_ok (fmupd k r T)"
  by (auto simp: tasks_ok_def)

lemma queue_ok_upd:
  assumes "queue_ok T Q" "set Q' \<subseteq> insert k (set Q)" "set Q - {k} \<subseteq> set Q'"
    "r_State r = TaskStateQueued \<Longrightarrow> k \<in> set Q'"
  shows "queue_ok (fmupd k r T) Q'"
  using assms by (auto simp: queue_ok_def fmpred_iff)

lemma control_ok_upd: "control_ok T K \<Longrightarrow> control_ok (fmupd k r T) K"
  by (simp add: control_ok_def control_entry_def fmpred_iff)

lemma commit_ok_evolves:
  assumes "commit_ok T key c" "fmlookup T k = Some r" "r_Task r' = r_Task r"
    "evolves (r_Attempts r) (r_Attempts r')"
  shows "commit_ok (fmupd k r' T) key c"
proof (cases "c_TaskID c = k")
  case True
  obtain a where "a \<in> set (r_Attempts r)" "at_AttemptID a = c_AttemptID c" "at_Status a = commit_status c"
    using assms(1,2) True by (auto simp: commit_ok_def)
  moreover from this have "a \<in> set (r_Attempts r')"
    using assms(4) by (auto simp: evolves_def commit_status_def split: if_splits)
  ultimately show ?thesis using assms(1,2,3) True by (auto simp: commit_ok_def)
next
  case False
  then show ?thesis using assms(1) by (simp add: commit_ok_def)
qed

lemma ledger_ok_upd:
  assumes "ledger_ok T C" "fmlookup T k = Some r" "r_Task r' = r_Task r"
    "evolves (r_Attempts r) (r_Attempts r')"
  shows "ledger_ok (fmupd k r' T) C"
  unfolding ledger_ok_def
proof
  show "fmpred (commit_ok (fmupd k r' T)) C"
    using assms commit_ok_evolves [OF _ assms(2-4)] by (auto simp: ledger_ok_def intro!: fmpredI)
  have "success_ok C k r" using assms(1,2) by (auto simp: ledger_ok_def)
  then have "success_ok C k r'" using assms(4) by (auto simp: success_ok_def evolves_def)
  then show "fmpred (success_ok C) (fmupd k r' T)" using assms(1) by (auto simp: ledger_ok_def)
qed

text \<open>The shared shape of every operation that does not commit.\<close>

lemma inv_store:
  assumes inv: "sched_inv s" and r: "fmlookup (s_Tasks s) k = Some r"
    and wf: "wf_record k r'" and t: "r_Task r' = r_Task r"
    and ev: "evolves (r_Attempts r) (r_Attempts r')"
    and T: "s_Tasks s' = fmupd k r' (s_Tasks s)"
    and C: "s_TerminalCommits s' = s_TerminalCommits s"
    and Q: "set (s_Queue s') \<subseteq> insert k (set (s_Queue s))" "set (s_Queue s) - {k} \<subseteq> set (s_Queue s')"
      "r_State r' = TaskStateQueued \<Longrightarrow> k \<in> set (s_Queue s')"
    and K: "control_ok (s_Tasks s') (s_ControlOps s')"
    and cfg: "config_ok s'" "stats_ok s'"
  shows "sched_inv s'"
  unfolding sched_inv_def
proof (intro conjI)
  show "tasks_ok (s_Tasks s')" using inv wf T by (simp add: sched_inv_def tasks_ok_upd)
  show "queue_ok (s_Tasks s') (s_Queue s')"
    unfolding T by (rule queue_ok_upd [OF _ Q]) (use inv in \<open>simp_all add: sched_inv_def\<close>)
  show "ledger_ok (s_Tasks s') (s_TerminalCommits s')"
    unfolding T C by (rule ledger_ok_upd [OF _ r t ev]) (use inv in \<open>simp add: sched_inv_def\<close>)
qed (use K cfg in simp_all)

section \<open>Operations that touch no record\<close>

lemma inv_frame:
  assumes "sched_inv s" "s_Tasks s' = s_Tasks s" "s_Queue s' = s_Queue s"
    "s_TerminalCommits s' = s_TerminalCommits s" "s_ControlOps s' = s_ControlOps s"
    "config_ok s'" "stats_ok s'"
  shows "sched_inv s'"
  using assms by (simp add: sched_inv_def)

lemma sched_inv_newSchedulerState:
  assumes "TrimSpace backend \<noteq> []"
  shows "sched_inv (newSchedulerState backend)"
  using assms
  by (simp add: sched_inv_def newSchedulerState_def tasks_ok_def queue_ok_def ledger_ok_def control_ok_def
      config_ok_def stats_ok_def defaultAsyncAwaitConfig_def defaultGovernanceConfig_def emptyStats_def
      percentileP95Int64_def duration_defs)

lemma inv_setGovernance: "sched_inv s \<Longrightarrow> sched_inv (setGovernance cfg s)"
  by (rule inv_frame [of s])
    (auto simp: setGovernance_def Let_def sched_inv_def config_ok_def stats_ok_def
       normalizeGovernanceConfig_def split: qos_mode.splits)

lemma inv_setRecoveryBoundary: "sched_inv s \<Longrightarrow> sched_inv (setRecoveryBoundary cfg s)"
  by (rule inv_frame [of s])
    (auto simp: setRecoveryBoundary_def sched_inv_def config_ok_def stats_ok_def)

lemma inv_setAsyncAwait: "sched_inv s \<Longrightarrow> sched_inv (setAsyncAwait cfg s)"
  by (rule inv_frame [of s])
    (auto simp: setAsyncAwait_def sched_inv_def config_ok_def stats_ok_def Let_def
       normalizeAsyncAwaitConfig_def duration_defs split: task_state.splits)

lemma inv_setTaskBoardControl: "sched_inv s \<Longrightarrow> sched_inv (setTaskBoardControl cfg s)"
  by (rule inv_frame [of s])
    (auto simp: setTaskBoardControl_def sched_inv_def config_ok_def stats_ok_def)

lemma inv_recordAsyncReconcileStats: "sched_inv s \<Longrightarrow> sched_inv (recordAsyncReconcileStats p e s)"
  by (rule inv_frame [of s])
    (auto simp: recordAsyncReconcileStats_def sched_inv_def config_ok_def stats_ok_def)

lemma inv_bumpRejected: "sched_inv s \<Longrightarrow> sched_inv (bumpRejected s)"
  by (rule inv_frame [of s]) (auto simp: bumpRejected_def sched_inv_def config_ok_def stats_ok_def)

lemma inv_bumpDuplicate: "sched_inv s \<Longrightarrow> sched_inv (bumpDuplicate s)"
  by (rule inv_frame [of s]) (auto simp: bumpDuplicate_def sched_inv_def config_ok_def stats_ok_def)

section \<open>Enqueue\<close>

lemma ledger_ok_new:
  assumes "ledger_ok T C" "fmlookup T k = None" "r_Attempts r = []"
  shows "ledger_ok (fmupd k r T) C"
proof -
  have "commit_ok (fmupd k r T) key c" if "commit_ok T key c" for key c
    using that assms(2) by (auto simp: commit_ok_def)
  moreover have "success_ok C k r" using assms(3) by (simp add: success_ok_def)
  ultimately show ?thesis using assms(1) by (auto simp: ledger_ok_def fmpred_iff)
qed

lemma inv_enqueue:
  assumes "sched_inv s"
  shows "sched_inv (snd (enqueue clk t now s))"
proof (cases "normalizeTask t")
  case (Inl e)
  then show ?thesis using assms by (simp add: enqueue_def)
next
  case (Inr n)
  show ?thesis
  proof (cases "fmlookup (s_Tasks s) (t_TaskID n)")
    case (Some r)
    then show ?thesis using assms Inr by (simp add: enqueue_def)
  next
    case None
    let ?r = "newRecord n (resolve_now clk now)"
    have "queue_ok (fmupd (t_TaskID n) ?r (s_Tasks s)) (s_Queue s @ [t_TaskID n])"
      by (rule queue_ok_upd [of _ "s_Queue s"]) (use assms in \<open>auto simp: sched_inv_def\<close>)
    moreover have "ledger_ok (fmupd (t_TaskID n) ?r (s_Tasks s)) (s_TerminalCommits s)"
      using assms None by (intro ledger_ok_new) (simp_all add: sched_inv_def newRecord_def)
    moreover have "tasks_ok (fmupd (t_TaskID n) ?r (s_Tasks s))"
      using assms Inr by (intro tasks_ok_upd wf_newRecord) (simp_all add: sched_inv_def)
    ultimately show ?thesis
      using assms Inr None
      by (simp add: enqueue_def Let_def sched_inv_def control_ok_upd config_ok_def stats_ok_def)
  qed
qed

section \<open>Retry transition\<close>

text \<open>
  The four outcomes of a lease that ended without a commit, for a record whose running attempt is
  \<open>y\<close>.
\<close>

lemma retry_finish:
  assumes "wf_record k r" "r_State r = TaskStateRunning" "r_Attempts r = ys @ [y]"
    and r': "r_Task r' = r_Task r" "r_Attempts r' = ys @ [y\<lparr>at_Status := AttemptStatusExpired, at_TerminalAt := now\<rparr>]"
      "r_CurrentAttempt r' = []" "r_ManualRetryCount r' = r_ManualRetryCount r"
      "r_State r' = TaskStateFailed \<or> r_State r' = TaskStateDeadLetter \<or>
         r_State r' = TaskStateQueued \<and> int (Suc (length ys)) < t_MaxAttempts (r_Task r)"
    and "wf_fields r'"
  shows "wf_record k r'"
  by (rule wf_finish [OF assms(1) _ assms(3), where a = "y\<lparr>at_Status := AttemptStatusExpired, at_TerminalAt := now\<rparr>"])
    (use assms in \<open>auto simp: same_attempt_def\<close>)

lemma inv_handleRetryTransition:
  assumes inv: "sched_inv s" and r: "fmlookup (s_Tasks s) k = Some r"
    and st: "r_State r = TaskStateRunning" and cur: "currentAttempt r = Some y"
  shows "sched_inv (snd (handleRetryTransition k r y now s))"
    and "fmlookup (s_Tasks (snd (handleRetryTransition k r y now s))) k
           = Some (fst (handleRetryTransition k r y now s))"
    and "\<And>j. j \<noteq> k \<Longrightarrow> fmlookup (s_Tasks (snd (handleRetryTransition k r y now s))) j = fmlookup (s_Tasks s) j"
proof -
  have wf: "wf_record k r" using inv r by (rule sched_inv_record)
  obtain ys where xs: "r_Attempts r = ys @ [y]" and y: "at_Status y = AttemptStatusRunning"
    and put: "\<And>a. at_AttemptID a = at_AttemptID y \<Longrightarrow> putAttempt a r = r\<lparr>r_Attempts := ys @ [a]\<rparr>"
    using wf_inflight_cases [OF wf] st cur by (metis option.inject)
  let ?y = "y\<lparr>at_Status := AttemptStatusExpired, at_TerminalAt := now\<rparr>"
  have p: "putAttempt ?y r = r\<lparr>r_Attempts := ys @ [?y]\<rparr>" by (rule put) simp
  have f: "wf_fields r" "0 < t_MaxAttempts (r_Task r)"
    using wf wf_task_facts by (auto simp: wf_record_def)
  let ?r' = "fst (handleRetryTransition k r y now s)"
  let ?s' = "snd (handleRetryTransition k r y now s)"
  have r': "wf_record k ?r'"
    by (rule retry_finish [OF wf st xs, where now = now])
      (use f st in \<open>simp_all add: handleRetryTransition_def Let_def p wf_fields_def\<close>)
  show "sched_inv ?s'"
  proof (rule inv_store [OF inv r r'])
    show "r_Task ?r' = r_Task r" by (simp add: handleRetryTransition_def Let_def p)
    show "evolves (r_Attempts r) (r_Attempts ?r')"
      using xs y by (simp add: handleRetryTransition_def Let_def p evolves_last)
    show "s_Tasks ?s' = fmupd k ?r' (s_Tasks s)"
      by (simp add: handleRetryTransition_def Let_def storeRecord_def)
    show "control_ok (s_Tasks ?s') (s_ControlOps ?s')"
      using inv by (simp add: handleRetryTransition_def Let_def storeRecord_def sched_inv_def control_ok_upd)
  qed (use inv in \<open>auto simp: handleRetryTransition_def Let_def storeRecord_def sched_inv_def config_ok_def stats_ok_def split: if_splits\<close>)
  show "fmlookup (s_Tasks ?s') k = Some ?r'"
    by (simp add: handleRetryTransition_def Let_def storeRecord_def)
  show "\<And>j. j \<noteq> k \<Longrightarrow> fmlookup (s_Tasks ?s') j = fmlookup (s_Tasks s) j"
    by (simp add: handleRetryTransition_def Let_def storeRecord_def)
qed

lemma inv_expireLeasesLoop: "sched_inv s \<Longrightarrow> sched_inv (snd (expireLeasesLoop now ids s))"
proof (induction ids arbitrary: s)
  case (Cons k ids)
  show ?case
  proof (cases "fmlookup (s_Tasks s) k")
    case (Some r)
    show ?thesis
    proof (cases "r_State r = TaskStateRunning \<and> currentAttempt r \<noteq> None")
      case True
      then obtain y where y: "currentAttempt r = Some y" by blast
      let ?s1 = "snd (handleRetryTransition k r y now s)"
      let ?s2 = "?s1\<lparr>s_Stats := (s_Stats ?s1)\<lparr>st_LeaseExpiredTotal := st_LeaseExpiredTotal (s_Stats ?s1) + 1\<rparr>\<rparr>"
      have s1: "sched_inv ?s1" using inv_handleRetryTransition(1) Cons.prems Some True y by blast
      then have "sched_inv ?s2"
        by (rule inv_frame) (use s1 in \<open>auto simp: sched_inv_def config_ok_def stats_ok_def\<close>)
      then show ?thesis using Cons.IH [of ?s2] Some True y
        by (auto simp: Let_def split: prod.splits)
    next
      case False
      then show ?thesis using Cons Some by (auto split: option.splits)
    qed
  qed (use Cons in simp)
qed simp

lemma inv_expireLeases: "sched_inv s \<Longrightarrow> sched_inv (snd (expireLeases clk now s))"
  by (simp add: expireLeases_def Let_def inv_expireLeasesLoop)

lemma inv_requeue: "sched_inv s \<Longrightarrow> sched_inv (snd (requeue clk tid now s))"
  using inv_handleRetryTransition(1) [of s "TrimSpace tid"]
  by (auto simp: requeue_def Let_def split: option.splits prod.splits)
    (metis snd_conv)

section \<open>Choosing a task\<close>

text \<open>The specification of the scan: the first position with a property, counted from \<open>i\<close>.\<close>

fun find_index :: "('a \<Rightarrow> bool) \<Rightarrow> nat \<Rightarrow> 'a list \<Rightarrow> nat option" where
  "find_index P i [] = None"
| "find_index P i (x # xs) = (if P x then Some i else find_index P (Suc i) xs)"

lemma find_index_Some:
  "find_index P i xs = Some n \<longleftrightarrow>
     i \<le> n \<and> n < i + length xs \<and> P (xs ! (n - i)) \<and> (\<forall>j < n - i. \<not> P (xs ! j))"
proof (induction xs arbitrary: i)
  case (Cons x xs)
  show ?case
  proof (cases "P x")
    case True
    then have "(\<forall>j < n - i. \<not> P ((x # xs) ! j)) \<longleftrightarrow> n - i = 0"
      by (cases "n - i") (auto intro!: exI [of _ 0])
    with True show ?thesis by auto
  next
    case False
    show ?thesis
    proof (cases "i < n")
      case True
      then obtain m where m: "n - i = Suc m" "n - Suc i = m" by (metis Suc_diff_Suc)
      have "(\<forall>j < Suc m. \<not> P ((x # xs) ! j)) \<longleftrightarrow> (\<forall>j < m. \<not> P (xs ! j))"
        using False by (auto simp: less_Suc_eq_0_disj)
      with False True m Cons.IH [of "Suc i"] show ?thesis by auto
    next
      case False
      with \<open>\<not> P x\<close> Cons.IH [of "Suc i"] show ?thesis by (cases "n = i") auto
    qed
  qed
qed simp

lemma find_index_None: "find_index P i xs = None \<longleftrightarrow> (\<forall>x \<in> set xs. \<not> P x)"
  by (induction xs arbitrary: i) auto

definition eligible :: "(string, task_record) gomap \<Rightarrow> time \<Rightarrow> string \<Rightarrow> bool" where
  "eligible T now q = (case fmlookup T (TrimSpace q) of None \<Rightarrow> False | Some r \<Rightarrow> isClaimableRecord r now)"

definition priorityOf :: "(string, task_record) gomap \<Rightarrow> string \<Rightarrow> string" where
  "priorityOf T q = (case fmlookup T (TrimSpace q) of None \<Rightarrow> TaskPriorityNormal
                     | Some r \<Rightarrow> normalizedPriority (t_Priority (r_Task r)))"

lemma scanQueue_first:
  "fst (scanQueue T now i qs first m) = (case first of Some f \<Rightarrow> Some f | None \<Rightarrow> find_index (eligible T now) i qs)"
  by (induction qs arbitrary: i first m)
    (auto simp: eligible_def Let_def split: option.splits)

lemma scanQueue_byPriority:
  "fmlookup (snd (scanQueue T now i qs first m)) p =
     (case fmlookup m p of Some f \<Rightarrow> Some f
      | None \<Rightarrow> find_index (\<lambda>q. eligible T now q \<and> priorityOf T q = p) i qs)"
  by (induction qs arbitrary: i first m)
    (auto simp: eligible_def priorityOf_def Let_def split: option.splits)

lemma firstPresent_Some:
  "firstPresent m ps = Some (p, i) \<Longrightarrow> p \<in> set ps \<and> fmlookup m p = Some i"
  by (induction ps) (auto split: option.splits)

text \<open>Whatever the policy, the chosen index holds an eligible task.\<close>

lemma nextClaimableIndex_eligible:
  assumes "nextClaimableIndex now s = (Some i, y)"
  shows "i < length (s_Queue s) \<and> eligible (s_Tasks s) now (s_Queue s ! i)"
proof -
  obtain f m where sc: "scanQueue (s_Tasks s) now 0 (s_Queue s) None fmempty = (f, m)" by fastforce
  have f: "f = find_index (eligible (s_Tasks s) now) 0 (s_Queue s)"
    using scanQueue_first [of "s_Tasks s" now 0 "s_Queue s" None fmempty] sc by simp
  have m: "fmlookup m p = find_index (\<lambda>q. eligible (s_Tasks s) now q \<and> priorityOf (s_Tasks s) q = p) 0 (s_Queue s)" for p
    using scanQueue_byPriority [of "s_Tasks s" now 0 "s_Queue s" None fmempty p] sc by simp
  have "f = Some i \<or> (\<exists>p. fmlookup m p = Some i)"
    using assms sc
    by (auto simp: nextClaimableIndex_def Let_def split: option.splits if_splits prod.splits
        dest!: firstPresent_Some)
  then show ?thesis using f m by (auto simp: find_index_Some)
qed

lemma nextClaimableIndex_None:
  assumes "fst (nextClaimableIndex now s) = None" "q \<in> set (s_Queue s)"
  shows "\<not> eligible (s_Tasks s) now q"
proof -
  obtain f m where sc: "scanQueue (s_Tasks s) now 0 (s_Queue s) None fmempty = (f, m)" by fastforce
  have "f = None"
    using assms(1) sc
    by (auto simp: nextClaimableIndex_def Let_def split: option.splits if_splits prod.splits)
  then show ?thesis
    using scanQueue_first [of "s_Tasks s" now 0 "s_Queue s" None fmempty] sc assms(2)
      find_index_None [of "eligible (s_Tasks s) now" 0 "s_Queue s"]
    by auto
qed

lemma queue_ok_trimmed:
  assumes "sched_inv s" "q \<in> set (s_Queue s)"
  shows "TrimSpace q = q"
proof -
  obtain r where "fmlookup (s_Tasks s) q = Some r"
    using assms by (auto simp: sched_inv_def queue_ok_def)
  then have "wf_task q (r_Task r)"
    using sched_inv_record [OF assms(1)] by (simp add: wf_record_def)
  then show ?thesis using wf_task_facts(2) by simp
qed

section \<open>Claim, heartbeat, report\<close>

lemma inv_claim:
  assumes "sched_inv s0"
  shows "sched_inv (snd (claim clk workerID now0 lease s0))"
proof (cases "TrimSpace workerID = [] \<or> lease \<le> 0")
  case True
  then show ?thesis using assms by (auto simp: claim_def Let_def)
next
  case False
  let ?now = "resolve_now clk now0"
  let ?s = "snd (expireLeases clk ?now s0)"
  have inv: "sched_inv ?s" using assms by (rule inv_expireLeases)
  show ?thesis
  proof (cases "nextClaimableIndex ?now ?s")
    case (Pair oi y)
    show ?thesis
    proof (cases oi)
      case None
      then show ?thesis using False Pair inv by (simp add: claim_def Let_def)
    next
      case (Some i)
      let ?k = "s_Queue ?s ! i"
      have i: "i < length (s_Queue ?s)" "eligible (s_Tasks ?s) ?now ?k"
        using nextClaimableIndex_eligible Pair Some by blast+
      have "TrimSpace ?k = ?k" using queue_ok_trimmed inv i(1) by simp
      then obtain r where r: "fmlookup (s_Tasks ?s) ?k = Some r" "r_State r = TaskStateQueued"
        using i(2) by (auto simp: eligible_def isClaimableRecord_def split: option.splits if_splits)
      let ?a = "newAttempt ?k (TrimSpace workerID) r ?now lease"
      let ?r' = "startAttempt ?a ?now r"
      have wf: "wf_record ?k ?r'"
        using sched_inv_record [OF inv r(1)] r(2) by (intro wf_startAttempt) auto
      have q: "insert ?k (set (remove_index i (s_Queue ?s))) = set (s_Queue ?s)"
        using i(1) by (rule set_remove_index)
      let ?s1 = "?s\<lparr>s_Queue := remove_index i (s_Queue ?s)\<rparr>"
      have "sched_inv (claimStats y r ?now (storeRecord ?k ?r' ?s1))"
      proof (rule inv_store [OF inv r(1) wf])
        show "evolves (r_Attempts r) (r_Attempts ?r')"
          by (simp add: startAttempt_def newAttempt_def Let_def evolves_snoc)
        show "control_ok (s_Tasks (claimStats y r ?now (storeRecord ?k ?r' ?s1)))
            (s_ControlOps (claimStats y r ?now (storeRecord ?k ?r' ?s1)))"
          using inv by (simp add: claimStats_def Let_def storeRecord_def sched_inv_def control_ok_upd)
      qed (use inv q in \<open>auto simp: claimStats_def Let_def storeRecord_def startAttempt_def sched_inv_def
             config_ok_def stats_ok_def\<close>)
      then show ?thesis using False Pair Some r by (simp add: claim_def Let_def)
    qed
  qed
qed

lemma inv_heartbeat:
  assumes inv: "sched_inv s"
  shows "sched_inv (snd (heartbeat clk tid aid tok now0 lease s))"
proof -
  let ?k = "TrimSpace tid" and ?now = "resolve_now clk now0"
  have "sched_inv (storeRecord ?k ((putAttempt a r)\<lparr>r_UpdatedAt := ?now\<rparr>) s)"
    if r: "fmlookup (s_Tasks s) ?k = Some r" "r_State r = TaskStateRunning" "currentAttempt r = Some y"
      and a: "a = y\<lparr>at_HeartbeatAt := ?now, at_LeaseExpiresAt := ?now + lease\<rparr>" for r y a
  proof -
    have wf: "wf_record ?k r" using inv r(1) by (rule sched_inv_record)
    obtain ys where xs: "r_Attempts r = ys @ [y]" "at_Status y = AttemptStatusRunning"
      and put: "\<And>a. at_AttemptID a = at_AttemptID y \<Longrightarrow> putAttempt a r = r\<lparr>r_Attempts := ys @ [a]\<rparr>"
      using wf_inflight_cases [OF wf] r(2,3) by (metis option.inject)
    have p: "putAttempt a r = r\<lparr>r_Attempts := ys @ [a]\<rparr>" using put a by simp
    have "wf_record ?k ((putAttempt a r)\<lparr>r_UpdatedAt := ?now\<rparr>)"
      by (rule wf_keep_running [OF wf xs(1)]) (use a xs r p in \<open>simp_all add: same_attempt_def\<close>)
    then show ?thesis
      by (rule inv_store [OF inv r(1)])
        (use inv a xs p in \<open>auto simp: storeRecord_def sched_inv_def control_ok_upd config_ok_def stats_ok_def
           evolves_last r(2)\<close>)
  qed
  then show ?thesis using inv
    by (auto simp: heartbeat_def Let_def split: option.splits)
qed

lemma inv_markAwaitingReport:
  assumes inv: "sched_inv s" and clk: "0 < clk" "0 \<le> now0"
  shows "sched_inv (snd (markAwaitingReport clk tid aid remote now0 timeout s))"
proof -
  let ?k = "TrimSpace tid" and ?now = "resolve_now clk now0"
  have now: "0 < ?now" using clk by (rule resolve_now_pos)
  have 1: "sched_inv (storeRecord ?k (r\<lparr>r_RemoteTaskID := TrimSpace remote\<rparr>) s)"
    if r: "fmlookup (s_Tasks s) ?k = Some r" "r_State r = TaskStateAwaitingReport" for r
  proof -
    have "wf_record ?k (r\<lparr>r_RemoteTaskID := TrimSpace remote\<rparr>)"
      using sched_inv_record [OF inv r(1)] by (simp add: wf_defs r(2))
    then show ?thesis
      by (rule inv_store [OF inv r(1)])
        (use inv r(2) in \<open>auto simp: storeRecord_def sched_inv_def control_ok_upd config_ok_def stats_ok_def\<close>)
  qed
  have 2: "sched_inv (storeRecord ?k (awaitReport y (TrimSpace remote) ?now t r) s
      \<lparr>s_Stats := (s_Stats s)\<lparr>st_AsyncAwaitTotal := st_AsyncAwaitTotal (s_Stats s) + 1\<rparr>\<rparr>)"
    if r: "fmlookup (s_Tasks s) ?k = Some r" "r_State r = TaskStateRunning" "currentAttempt r = Some y"
      and t: "0 < t" for r y t
  proof -
    have wf: "wf_record ?k r" using inv r(1) by (rule sched_inv_record)
    obtain ys where xs: "r_Attempts r = ys @ [y]" "at_Status y = AttemptStatusRunning"
      and put: "\<And>a. at_AttemptID a = at_AttemptID y \<Longrightarrow> putAttempt a r = r\<lparr>r_Attempts := ys @ [a]\<rparr>"
      using wf_inflight_cases [OF wf] r(2,3) by (metis option.inject)
    let ?a = "y\<lparr>at_LeaseExpiresAt := 0, at_HeartbeatAt := ?now\<rparr>"
    have p: "putAttempt ?a r = r\<lparr>r_Attempts := ys @ [?a]\<rparr>" by (rule put) simp
    have "wf_record ?k (awaitReport y (TrimSpace remote) ?now t r)"
      using now t by (intro wf_awaiting [OF wf r(2) xs p refl]) auto
    then show ?thesis
      by (rule inv_store [OF inv r(1)])
        (use inv xs p in \<open>auto simp: awaitReport_def storeRecord_def sched_inv_def control_ok_upd config_ok_def
           stats_ok_def evolves_last\<close>)
  qed
  have same: "storeRecord ?k r s = s" if "fmlookup (s_Tasks s) ?k = Some r" for r
  proof -
    have "fmupd ?k r (s_Tasks s) = s_Tasks s" using that by (auto intro!: fmap_ext)
    then show ?thesis by (simp add: storeRecord_def)
  qed
  have t: "0 < 15 * minute" by (simp add: minute_def)
  show ?thesis
    using inv 1 2 same t
    by (auto simp: markAwaitingReport_def Let_def not_le split: option.splits)
qed

section \<open>Manual control\<close>

lemma control_ok_add:
  assumes "control_ok T K" "fmlookup T k \<noteq> None" "trimmed k" "op \<noteq> []" "trimmed op"
    "t_TaskID (r_Task r) = k"
    "act = TaskBoardControlActionCancel \<and> reason = ReasonManualCancel
     \<or> act = TaskBoardControlActionRetryTerminal \<and> reason = ReasonManualRetry"
  shows "control_ok (fmupd k r' T) (fmupd op (controlApplied act op reason r) K)"
  using assms control_ok_upd [OF assms(1), of k r']
  by (auto simp: control_ok_def control_entry_def controlApplied_def fmpred_iff)

lemma wf_record_key: "wf_record k r \<Longrightarrow> t_TaskID (r_Task r) = k \<and> trimmed k \<and> k \<noteq> []"
  using wf_task_facts by (auto simp: wf_record_def)

lemma inv_applyManualCancel:
  assumes inv: "sched_inv s" and r: "fmlookup (s_Tasks s) k = Some r" and op: "op \<noteq> []" "trimmed op"
  shows "sched_inv (snd (applyManualCancel k r op now s))"
proof -
  have wf: "wf_record k r" using inv r by (rule sched_inv_record)
  have main: "sched_inv (snd (applyManualCancel k r op now s))"
    if r1: "(if r_State r = TaskStateQueued then Ok r
            else if r_State r = TaskStateAwaitingReport
            then (case currentAttempt r of None \<Rightarrow> Err ErrAttemptNotFound
                  | Some y \<Rightarrow> Ok (putAttempt (y\<lparr>at_Status := AttemptStatusFailed, at_TerminalAt := now\<rparr>) r))
            else Err ErrTaskBoardControlStateConflict) = Ok r1"
      and w: "wf_record k (cancelRecord now r1)" "r_Task r1 = r_Task r" "evolves (r_Attempts r) (r_Attempts r1)"
    for r1
  proof (rule inv_store [OF inv r w(1)])
    let ?s' = "snd (applyManualCancel k r op now s)"
    show "control_ok (s_Tasks ?s') (s_ControlOps ?s')"
      using inv op r wf_record_key [OF wf] w(2) control_ok_add [of "s_Tasks s" "s_ControlOps s" k op "cancelRecord now r1"]
      by (simp add: applyManualCancel_def r1 Let_def storeRecord_def sched_inv_def cancelRecord_def)
  qed (use inv w in \<open>auto simp: applyManualCancel_def r1 Let_def storeRecord_def cancelRecord_def sched_inv_def
        config_ok_def stats_ok_def\<close>)
  consider (q) "r_State r = TaskStateQueued" | (a) "r_State r = TaskStateAwaitingReport"
    | (o) "r_State r \<noteq> TaskStateQueued" "r_State r \<noteq> TaskStateAwaitingReport" by blast
  then show ?thesis
  proof cases
    case q
    then show ?thesis using main wf_cancel_queued [OF wf] by simp
  next
    case a
    obtain ys y where xs: "r_Attempts r = ys @ [y]" "currentAttempt r = Some y" "at_Status y = AttemptStatusRunning"
      and put: "\<And>a. at_AttemptID a = at_AttemptID y \<Longrightarrow> putAttempt a r = r\<lparr>r_Attempts := ys @ [a]\<rparr>"
      using wf_inflight_cases [OF wf] a by metis
    let ?a = "y\<lparr>at_Status := AttemptStatusFailed, at_TerminalAt := now\<rparr>"
    have p: "putAttempt ?a r = r\<lparr>r_Attempts := ys @ [?a]\<rparr>" by (rule put) simp
    show ?thesis
      using main [of "putAttempt ?a r"] wf_cancel_awaiting [OF wf a xs(1) p refl] xs a p
      by (simp add: evolves_last)
  next
    case o
    then show ?thesis using inv by (simp add: applyManualCancel_def)
  qed
qed

lemma inv_applyManualRetry:
  assumes inv: "sched_inv s" and r: "fmlookup (s_Tasks s) k = Some r" and op: "op \<noteq> []" "trimmed op"
  shows "sched_inv (snd (applyManualRetry k r op now s))"
proof -
  let ?s' = "snd (applyManualRetry k r op now s)"
  have wf: "wf_record k r" using inv r by (rule sched_inv_record)
  note key = wf_record_key [OF wf]
  show ?thesis
  proof (cases "(r_State r = TaskStateFailed \<or> r_State r = TaskStateDeadLetter) \<and>
      \<not> (if cc_MaxManualRetryPerTask (s_taskBoardControl s) \<le> 0 then 3
         else cc_MaxManualRetryPerTask (s_taskBoardControl s)) \<le> r_ManualRetryCount r")
    case True
    then have w: "wf_record k (retryRecord now r)" using wf_retry [OF wf] by blast
    show ?thesis
    proof (rule inv_store [OF inv r w])
      show "control_ok (s_Tasks ?s') (s_ControlOps ?s')"
        using True inv op r key control_ok_add [of "s_Tasks s" "s_ControlOps s" k op "retryRecord now r"]
        by (auto simp: applyManualRetry_def Let_def storeRecord_def sched_inv_def retryRecord_def)
      show "stats_ok ?s'" using True inv
        by (auto simp: applyManualRetry_def Let_def storeRecord_def sched_inv_def stats_ok_def)
    qed (use True inv key in \<open>auto simp: applyManualRetry_def Let_def storeRecord_def retryRecord_def sched_inv_def
          config_ok_def\<close>)
  next
    case False
    then show ?thesis using inv by (auto simp: applyManualRetry_def Let_def)
  qed
qed

lemma inv_applyControl:
  assumes "sched_inv s" "fmlookup (s_Tasks s) k = Some r" "op \<noteq> []" "trimmed op"
  shows "sched_inv (snd (applyControl act k r op now s))"
  using inv_applyManualCancel [OF assms] inv_applyManualRetry [OF assms] assms(1) inv_bumpRejected
  by (auto simp: applyControl_def split: control_action.splits sum.splits prod.splits) (metis snd_conv)+

lemma inv_controlTask:
  assumes inv: "sched_inv s"
  shows "sched_inv (snd (controlTask clk req now s))"
proof -
  let ?bump = "\<lambda>f. s\<lparr>s_Stats := f (s_Stats s)\<rparr>"
  have 1: "sched_inv (?bump (\<lambda>st. st\<lparr>st_ManualControlDedupTotal := st_ManualControlDedupTotal st + 1\<rparr>))"
    by (rule inv_frame [OF inv]) (use inv in \<open>auto simp: sched_inv_def config_ok_def stats_ok_def\<close>)
  have 2: "sched_inv (?bump (\<lambda>st. st\<lparr>st_ManualControlTotal := st_ManualControlTotal st + 1\<rparr>))"
    by (rule inv_frame [OF inv]) (use inv in \<open>auto simp: sched_inv_def config_ok_def stats_ok_def\<close>)
  show ?thesis
    using inv 1 inv_bumpRejected [OF inv] inv_applyControl [OF 2]
    by (auto simp: controlTask_def Let_def split: option.splits sum.splits)
qed

section \<open>Terminal commits\<close>

lemma inv_commit:
  assumes inv: "sched_inv s" and r: "fmlookup (s_Tasks s) (c_TaskID c) = Some r"
    and new: "fmlookup (s_TerminalCommits s) (terminalCommitKey (c_TaskID c) (c_AttemptID c)) = None"
    and xs: "r_Attempts r = ys @ [y]" "at_Status y = AttemptStatusRunning"
    and a: "at_AttemptID a = c_AttemptID c" "at_Status a = commit_status c"
    and c: "commit_text_ok c" "c_WorkspaceProvenance c = None \<or> c_WorkspaceProvenance c = t_WorkspaceProvenance (r_Task r)"
    and r': "wf_record (c_TaskID c) r'" "r_Task r' = r_Task r" "r_Attempts r' = ys @ [a]"
      "r_State r' \<noteq> TaskStateQueued"
    and s': "s_Tasks s' = fmupd (c_TaskID c) r' (s_Tasks s)" "s_Queue s' = s_Queue s"
      "s_TerminalCommits s' = fmupd (terminalCommitKey (c_TaskID c) (c_AttemptID c)) c (s_TerminalCommits s)"
      "s_ControlOps s' = s_ControlOps s" "config_ok s'" "stats_ok s'"
  shows "sched_inv s'"
proof -
  let ?k = "c_TaskID c" and ?T = "s_Tasks s" and ?C = "s_TerminalCommits s"
  let ?key = "terminalCommitKey (c_TaskID c) (c_AttemptID c)"
  have old: "commit_ok (fmupd ?k r' ?T) key d" if "fmlookup ?C key = Some d" for key d
  proof -
    have "commit_ok ?T key d" using inv that by (auto simp: sched_inv_def ledger_ok_def)
    then show ?thesis
      using r xs r' by (cases "c_TaskID d = ?k") (auto simp: commit_ok_def commit_status_def split: if_splits)
  qed
  have "commit_ok (fmupd ?k r' ?T) ?key c"
    using c a r' by (auto simp: commit_ok_def)
  then have 1: "fmpred (commit_ok (s_Tasks s')) (s_TerminalCommits s')"
    using old s' by (auto simp: fmpred_iff)
  have keep: "success_ok (s_TerminalCommits s') k q" if "success_ok ?C k q" for k q
    using that new s' by (fastforce simp: success_ok_def split: option.splits)
  have "success_ok (s_TerminalCommits s') ?k r'"
    unfolding success_ok_def
  proof (intro ballI impI)
    fix b assume b: "b \<in> set (r_Attempts r')" "at_Status b = AttemptStatusSucceeded"
    have s: "success_ok (s_TerminalCommits s') ?k r"
      using inv r by (intro keep) (auto simp: sched_inv_def ledger_ok_def)
    show "case fmlookup (s_TerminalCommits s') (terminalCommitKey ?k (at_AttemptID b)) of
        None \<Rightarrow> False | Some c \<Rightarrow> c_Status c = TaskStateSucceeded"
    proof (cases "b = a")
      case True
      then show ?thesis using a b s' by (auto simp: commit_status_def split: if_splits)
    next
      case False
      then show ?thesis using b s xs r' by (auto simp: success_ok_def)
    qed
  qed
  then have 2: "fmpred (success_ok (s_TerminalCommits s')) (s_Tasks s')"
    using inv keep s' by (auto simp: fmpred_iff sched_inv_def ledger_ok_def)
  have 3: "queue_ok (s_Tasks s') (s_Queue s')"
    unfolding s' by (rule queue_ok_upd [of _ "s_Queue s"]) (use inv r' in \<open>auto simp: sched_inv_def\<close>)
  show ?thesis
    using 1 2 3 inv r'(1) s' by (simp add: sched_inv_def ledger_ok_def tasks_ok_upd control_ok_upd)
qed

lemma inv_applyTerminalCommit:
  assumes inv: "sched_inv s" and r: "fmlookup (s_Tasks s) (c_TaskID c) = Some r"
    and new: "fmlookup (s_TerminalCommits s) (terminalCommitKey (c_TaskID c) (c_AttemptID c)) = None"
    and st: "r_State r = TaskStateRunning \<or> r_State r = TaskStateAwaitingReport"
    and cur: "currentAttempt r = Some y" "at_WorkspaceProvenance y = c_WorkspaceProvenance c"
    and c: "commit_text_ok c"
  shows "sched_inv (snd (applyTerminalCommit r c s))"
proof (cases "at_AttemptID y = c_AttemptID c")
  case True
  have wf: "wf_record (c_TaskID c) r" using inv r by (rule sched_inv_record)
  obtain ys where xs: "r_Attempts r = ys @ [y]" "at_Status y = AttemptStatusRunning"
      "at_WorkspaceProvenance y = t_WorkspaceProvenance (r_Task r)"
    and put: "\<And>a. at_AttemptID a = at_AttemptID y \<Longrightarrow> putAttempt a r = r\<lparr>r_Attempts := ys @ [a]\<rparr>"
    using wf_inflight_cases [OF wf st] cur(1) by (metis option.inject)
  let ?a = "y\<lparr>at_Status := commit_status c, at_TerminalAt := c_CommittedAt c\<rparr>"
  have p: "putAttempt ?a r = r\<lparr>r_Attempts := ys @ [?a]\<rparr>" by (rule put) simp
  have w: "wf_record (c_TaskID c) (terminalRecord c ?a r)"
    by (rule wf_terminal [OF wf st xs(1) p refl])
      (use c in \<open>auto simp: commit_text_ok_def commit_status_def\<close>)
  have eq: "snd (applyTerminalCommit r c s) =
      storeRecord (c_TaskID c) (terminalRecord c ?a r) s
        \<lparr>s_TerminalCommits := fmupd (terminalCommitKey (c_TaskID c) (c_AttemptID c)) c (s_TerminalCommits s),
         s_Stats := commitStats c (s_Stats s)\<rparr>"
    using c True cur by (auto simp: applyTerminalCommit_def Let_def commit_text_ok_def commit_status_def)
  show ?thesis unfolding eq
    by (rule inv_commit [OF inv r new xs(1,2) _ _ c _ w])
      (use True cur xs p inv c in \<open>auto simp: terminalRecord_def storeRecord_def sched_inv_def config_ok_def
         stats_ok_def commitStats_def commit_text_ok_def\<close>)
next
  case False
  then show ?thesis using inv cur by (simp add: applyTerminalCommit_def)
qed

lemma commit_text_normalized:
  assumes "normalizeCommit clk c = Inr n"
  shows "commit_text_ok n"
  using normalizeCommit_fields [OF assms] by (simp add: commit_text_ok_def)

lemma inv_commitTerminal:
  assumes inv: "sched_inv s"
  shows "sched_inv (snd (commitTerminal clk c s))"
  using inv inv_bumpDuplicate [OF inv] inv_applyTerminalCommit [OF inv] commit_text_normalized [of clk c]
  by (auto simp: commitTerminal_def split: sum.splits option.splits)

lemma inv_flagConflict:
  assumes inv: "sched_inv s" and r: "fmlookup (s_Tasks s) k = Some r"
  shows "sched_inv (snd (flagConflict b k r s))"
proof (cases "b \<and> \<not> r_TerminalConflict r")
  case True
  have "wf_record k (r\<lparr>r_TerminalConflict := True\<rparr>)"
    using sched_inv_record [OF inv r] by (cases "r_State r") (simp_all add: wf_defs)
  then have "sched_inv (storeRecord k (r\<lparr>r_TerminalConflict := True\<rparr>) s
      \<lparr>s_Stats := (s_Stats s)\<lparr>st_AsyncTerminalConflictTotal := st_AsyncTerminalConflictTotal (s_Stats s) + 1\<rparr>\<rparr>)"
    by (rule inv_store [OF inv r])
      (use inv r in \<open>auto simp: storeRecord_def sched_inv_def control_ok_upd config_ok_def stats_ok_def
         queue_ok_def\<close>)
  then show ?thesis using True by (simp add: flagConflict_def Let_def)
qed (use inv in \<open>auto simp: flagConflict_def\<close>)

lemma inv_commitAsyncReportTerminal:
  assumes inv: "sched_inv s"
  shows "sched_inv (snd (commitAsyncReportTerminal clk c s))"
proof (cases "normalizeCommit clk c")
  case (Inl e)
  then show ?thesis using inv by (simp add: commitAsyncReportTerminal_def)
next
  case (Inr n)
  define n' where "n' = (if c_Source n = [] then n\<lparr>c_Source := AsyncResolutionSourceCallback\<rparr> else n)"
  have c: "commit_text_ok n'"
    using commit_text_normalized [OF Inr] by (auto simp: n'_def commit_text_ok_def)
  show ?thesis
    using inv inv_flagConflict [OF inv_bumpDuplicate [OF inv]] inv_applyTerminalCommit [OF inv _ _ _ _ _ c] Inr
    by (auto simp: commitAsyncReportTerminal_def n'_def [symmetric] Let_def bumpDuplicate_def
        split: option.splits prod.splits) (metis snd_conv)+
qed

section \<open>Expired reports\<close>

lemma timeoutCommit_text_ok:
  assumes "wf_record k r" "trimmed (at_AttemptID a)" "at_AttemptID a \<noteq> []"
  shows "commit_text_ok (timeoutCommit (timeoutRecord st a now r) a now)"
  using assms wf_record_key [OF assms(1)]
  by (simp add: commit_text_ok_def timeoutCommit_def timeoutRecord_def putAttempt_def wf_record_def wf_fields_def)

lemma inv_expireReport:
  assumes inv: "sched_inv s" and r: "fmlookup (s_Tasks s) k = Some r"
    and st: "r_State r = TaskStateAwaitingReport" and cur: "currentAttempt r = Some y"
  shows "sched_inv (snd (expireReport k r y now s))"
proof -
  have wf: "wf_record k r" using inv r by (rule sched_inv_record)
  note key = wf_record_key [OF wf]
  obtain ys where xs: "r_Attempts r = ys @ [y]" "at_Status y = AttemptStatusRunning"
      "at_AttemptID y = attempt_id k (Suc (length ys))"
    and put: "\<And>a. at_AttemptID a = at_AttemptID y \<Longrightarrow> putAttempt a r = r\<lparr>r_Attempts := ys @ [a]\<rparr>"
    using wf_inflight_cases [OF wf] st cur by (metis option.inject)
  define st' where "st' = (if aa_TimeoutTerminal (s_asyncAwait s) = TaskStateDeadLetter \<and> \<not> g_DLQEnabled (s_governance s)
             then TaskStateFailed else aa_TimeoutTerminal (s_asyncAwait s))"
  have st': "st' = TaskStateFailed \<or> st' = TaskStateDeadLetter"
    using inv by (auto simp: st'_def sched_inv_def config_ok_def)
  let ?a = "y\<lparr>at_Status := AttemptStatusFailed, at_TerminalAt := now\<rparr>"
  let ?r' = "timeoutRecord st' ?a now r"
  let ?c = "timeoutCommit ?r' ?a now"
  let ?s' = "snd (expireReport k r y now s)"
  have p: "putAttempt ?a r = r\<lparr>r_Attempts := ys @ [?a]\<rparr>" by (rule put) simp
  have w: "wf_record k ?r'" by (rule wf_timeout [OF wf st xs(1) p refl st'])
  have c: "c_TaskID ?c = k" "c_AttemptID ?c = at_AttemptID y" "commit_status ?c = AttemptStatusFailed"
    using key by (simp_all add: timeoutCommit_def timeoutRecord_def p commit_status_def)
  have ctext: "commit_text_ok ?c"
    using timeoutCommit_text_ok [OF wf] trimmed_attempt_id key xs(3) by simp
  have eqs: "s_Tasks ?s' = fmupd k ?r' (s_Tasks s)" "s_Queue ?s' = s_Queue s" "s_ControlOps ?s' = s_ControlOps s"
    "config_ok ?s'" "stats_ok ?s'"
    "s_TerminalCommits ?s' = (if fmlookup (s_TerminalCommits s) (terminalCommitKey k (at_AttemptID y)) = None
        then fmupd (terminalCommitKey k (at_AttemptID y)) ?c (s_TerminalCommits s) else s_TerminalCommits s)"
    using inv c by (simp_all add: expireReport_def Let_def st'_def [symmetric] storeRecord_def sched_inv_def
        config_ok_def stats_ok_def timeoutCommit_def)
  show ?thesis
  proof (cases "fmlookup (s_TerminalCommits s) (terminalCommitKey k (at_AttemptID y)) = None")
    case True
    show ?thesis
      by (rule inv_commit [where c = ?c and y = y and a = ?a and r = r and r' = ?r' and ys = ys, OF inv])
        (use True eqs c r xs w ctext p st' in \<open>auto simp: timeoutRecord_def timeoutCommit_def\<close>)
  next
    case False
    show ?thesis
      by (rule inv_store [OF inv r w])
        (use False eqs st' xs p inv in \<open>auto simp: timeoutRecord_def evolves_last control_ok_upd sched_inv_def\<close>)
  qed
qed

lemma inv_expireReportsLoop: "sched_inv s \<Longrightarrow> sched_inv (snd (expireReportsLoop now ids s))"
proof (induction ids arbitrary: s)
  case (Cons k ids)
  show ?case
  proof (cases "fmlookup (s_Tasks s) k")
    case (Some r)
    show ?thesis
    proof (cases "r_State r = TaskStateAwaitingReport \<and> currentAttempt r \<noteq> None")
      case True
      then obtain y where y: "currentAttempt r = Some y" by blast
      have "sched_inv (snd (expireReport k r y now s))"
        using inv_expireReport Cons.prems Some True y by blast
      then show ?thesis using Cons.IH Some True y
        by (auto simp: Let_def split: prod.splits) (metis snd_conv)
    next
      case False
      then show ?thesis using Cons Some by (auto split: option.splits)
    qed
  qed (use Cons in simp)
qed simp

lemma inv_expireAwaitingReports: "sched_inv s \<Longrightarrow> sched_inv (snd (expireAwaitingReports clk now s))"
  by (simp add: expireAwaitingReports_def Let_def inv_expireReportsLoop)

section \<open>Every reachable state\<close>

text \<open>
  The operations of a store as a step relation, but for \<open>Restore\<close>, which \<open>Scheduler_Restore\<close> adds. When a
  task is marked as awaiting its report the clock reads a positive time and the caller passes the zero
  time or a later one; nothing else is assumed of the arguments.
\<close>

inductive sched_step :: "scheduler_state \<Rightarrow> scheduler_state \<Rightarrow> bool" where
  step_enqueue: "sched_step s (snd (enqueue clk t now s))"
| step_claim: "sched_step s (snd (claim clk workerID now lease s))"
| step_heartbeat: "sched_step s (snd (heartbeat clk tid aid tok now lease s))"
| step_await: "0 < clk \<Longrightarrow> 0 \<le> now \<Longrightarrow> sched_step s (snd (markAwaitingReport clk tid aid remote now timeout s))"
| step_control: "sched_step s (snd (controlTask clk req now s))"
| step_expireLeases: "sched_step s (snd (expireLeases clk now s))"
| step_expireReports: "sched_step s (snd (expireAwaitingReports clk now s))"
| step_requeue: "sched_step s (snd (requeue clk tid now s))"
| step_commit: "sched_step s (snd (commitTerminal clk c s))"
| step_commitAsync: "sched_step s (snd (commitAsyncReportTerminal clk c s))"
| step_reconcileStats: "sched_step s (recordAsyncReconcileStats p e s)"
| step_setGovernance: "sched_step s (setGovernance gcfg s)"
| step_setRecoveryBoundary: "sched_step s (setRecoveryBoundary rcfg s)"
| step_setAsyncAwait: "sched_step s (setAsyncAwait acfg s)"
| step_setTaskBoardControl: "sched_step s (setTaskBoardControl ccfg s)"

definition sched_init :: "scheduler_state \<Rightarrow> bool" where
  "sched_init s \<longleftrightarrow> s = newSchedulerState ''memory'' \<or> s = newSchedulerState ''file''"

lemmas inv_ops =
  inv_enqueue inv_claim inv_heartbeat inv_markAwaitingReport inv_controlTask inv_expireLeases
  inv_expireAwaitingReports inv_requeue inv_commitTerminal inv_commitAsyncReportTerminal
  inv_recordAsyncReconcileStats inv_setGovernance inv_setRecoveryBoundary inv_setAsyncAwait
  inv_setTaskBoardControl

lemma sched_step_inv: "sched_step s t \<Longrightarrow> sched_inv s \<Longrightarrow> sched_inv t"
  by (induction rule: sched_step.induct) (simp_all add: inv_ops)

lemma sched_init_inv: "sched_init s \<Longrightarrow> sched_inv s"
  unfolding sched_init_def
  by (elim disjE; hypsubst; rule sched_inv_newSchedulerState; subst TrimSpace_trimmed;
      (rule trimmed_plain_ends)?; simp add: plain_byte_def)

interpretation sched: invariant_system sched_init sched_step sched_inv
  by unfold_locales (auto intro: sched_init_inv sched_step_inv)

end
