(* ===== verification/Scheduler_Snapshot.thy ===== *)
theory Scheduler_Snapshot
  imports Scheduler_Safety
begin

text \<open>
  \<open>snapshot\<close> and \<open>restore\<close> of \<open>state.go\<close> with the validators of
  \<open>workspace_binding.go\<close>: what a snapshot holds, every reason for which \<open>restore\<close>
  refuses one, and that restoring a snapshot of a well-formed state whose queue holds only queued
  tasks gives the state back. The loops of \<open>restore\<close> are one recursive function each, with the
  loop index where an error reports it.
\<close>

section \<open>Snapshot\<close>

record store_snapshot =
  sn_Backend :: string
  sn_Tasks :: "task_record list"
  sn_Queue :: "string list"
  sn_TerminalCommits :: "terminal_commit list"
  sn_ControlOps :: "control_result list"
  sn_DelayedWaitMs :: "int list"
  sn_Stats :: stats

definition snapshotCommit :: "terminal_commit \<Rightarrow> terminal_commit" where
  "snapshotCommit c =
     c\<lparr>c_TaskID := TrimSpace (c_TaskID c), c_AttemptID := TrimSpace (c_AttemptID c),
       c_Source := ToLower (TrimSpace (c_Source c)), c_RemoteTaskID := TrimSpace (c_RemoteTaskID c),
       c_ErrorMessage := TrimSpace (c_ErrorMessage c), c_ErrorLayer := TrimSpace (c_ErrorLayer c),
       c_OutcomeKey := TrimSpace (c_OutcomeKey c)\<rparr>"

definition snapshotControl :: "control_result \<Rightarrow> control_result" where
  "snapshotControl k =
     k\<lparr>k_OperationID := TrimSpace (k_OperationID k), k_TaskID := TrimSpace (k_TaskID k),
       k_Reason := TrimSpace (k_Reason k)\<rparr>"

text \<open>The values of a map in the order of its sorted keys.\<close>

definition sorted_values :: "(string, 'v) gomap \<Rightarrow> 'v list" where
  "sorted_values m = List.map_filter (fmlookup m) (sorted_keys m)"

definition snapshotControlOps :: "scheduler_state \<Rightarrow> control_result list" where
  "snapshotControlOps s = map snapshotControl (sorted_values (s_ControlOps s))"

definition snapshot :: "scheduler_state \<Rightarrow> store_snapshot" where
  "snapshot s =
     \<lparr>sn_Backend = TrimSpace (st_Backend (s_Stats s)),
      sn_Tasks = sorted_values (s_Tasks s),
      sn_Queue = s_Queue s,
      sn_TerminalCommits = map snapshotCommit (sorted_values (s_TerminalCommits s)),
      sn_ControlOps = snapshotControlOps s,
      sn_DelayedWaitMs = s_DelayedWaitMs s,
      sn_Stats = s_Stats s\<rparr>"

section \<open>Workspace bindings\<close>

definition validateTaskWorkspaceBinding :: "task \<Rightarrow> nat \<Rightarrow> snapshot_fault option" where
  "validateTaskWorkspaceBinding t index =
     (case t_WorkspaceProvenance t of
        None \<Rightarrow> None
      | Some wp \<Rightarrow>
          if t_RunID t \<noteq> [] \<and> wp_ProducedByRunID wp \<noteq> t_RunID t then Some (SnapRunAssociation index)
          else if t_StepID t \<noteq> [] \<and> wp_ProducedByStepID wp \<noteq> t_StepID t
          then Some (SnapStepAssociation index)
          else None)"

definition validateAttemptWorkspaceBinding ::
  "workspace_provenance option \<Rightarrow> workspace_provenance option \<Rightarrow> nat \<Rightarrow> nat \<Rightarrow> snapshot_fault option" where
  "validateAttemptWorkspaceBinding twp awp taskIndex attemptIndex =
     (case awp of
        None \<Rightarrow> None
      | Some wp \<Rightarrow>
          if provenance_validate wp \<noteq> None then Some (SnapAttemptProvenanceInvalid taskIndex attemptIndex)
          else if twp \<noteq> awp then Some (SnapAttemptProvenanceMismatch taskIndex attemptIndex)
          else None)"

definition validateTerminalWorkspaceBinding ::
  "task_record \<Rightarrow> terminal_commit \<Rightarrow> nat \<Rightarrow> string \<Rightarrow> snapshot_fault option" where
  "validateTerminalWorkspaceBinding r c index attemptID =
     (case attemptByID r attemptID of
        None \<Rightarrow> Some (SnapCommitUnknownAttempt index)
      | Some a \<Rightarrow>
          if c_WorkspaceProvenance c \<noteq> None \<and> t_WorkspaceProvenance (r_Task r) \<noteq> c_WorkspaceProvenance c
          then Some (SnapCommitTaskProvenance index)
          else if c_WorkspaceProvenance c \<noteq> None \<and> at_WorkspaceProvenance a \<noteq> c_WorkspaceProvenance c
          then Some (SnapCommitAttemptProvenance index)
          else None)"

section \<open>Restore\<close>

text \<open>The attempts of one task; the flag is \<open>currentExists\<close>.\<close>

fun restoreAttempts ::
  "workspace_provenance option \<Rightarrow> string \<Rightarrow> nat \<Rightarrow> nat \<Rightarrow> string list \<Rightarrow> attempt list
     \<Rightarrow> (snapshot_fault, attempt list \<times> bool) result" where
  "restoreAttempts twp current i idx seen [] = Ok ([], False)"
| "restoreAttempts twp current i idx seen (a # as) =
     (let attemptID = TrimSpace (at_AttemptID a) in
      if attemptID = [] then Err (SnapAttemptIDRequired i idx)
      else if attemptID \<in> set seen then Err (SnapDuplicateAttempt attemptID)
      else
        (case validateAttemptWorkspaceBinding twp (at_WorkspaceProvenance a) i idx of
           Some e \<Rightarrow> Err e
         | None \<Rightarrow>
             (case restoreAttempts twp current i (Suc idx) (attemptID # seen) as of
                Inl e \<Rightarrow> Err e
              | Inr (out, exists) \<Rightarrow>
                  Ok (a\<lparr>at_AttemptID := attemptID, at_WorkerID := TrimSpace (at_WorkerID a),
                        at_LeaseToken := TrimSpace (at_LeaseToken a)\<rparr> # out,
                      attemptID = current \<or> exists))))"

text \<open>The switch on the task's state.\<close>

definition restoreState :: "string \<Rightarrow> bool \<Rightarrow> task_record \<Rightarrow> (snapshot_fault, task_record) result" where
  "restoreState taskID currentExists r =
     (let current = r_CurrentAttempt r;
          cleared = r\<lparr>r_AwaitingReportSince := 0, r_ReportTimeoutAt := 0\<rparr>
      in case r_State r of
           TaskStateQueued \<Rightarrow> if current \<noteq> [] then Err (SnapQueuedHasAttempt taskID) else Ok r
         | TaskStateRunning \<Rightarrow>
             if current = [] \<or> \<not> currentExists then Err (SnapRunningNeedsAttempt taskID) else Ok cleared
         | TaskStateAwaitingReport \<Rightarrow>
             if current = [] \<or> \<not> currentExists then Err (SnapAwaitingNeedsAttempt taskID)
             else if IsZero (r_ReportTimeoutAt r) then Err (SnapAwaitingNeedsTimeout taskID)
             else Ok (if IsZero (r_AwaitingReportSince r)
                      then r\<lparr>r_AwaitingReportSince := r_UpdatedAt r\<rparr> else r)
         | TaskStateOther _ \<Rightarrow> Err (SnapUnsupportedState taskID)
         | _ \<Rightarrow> if current \<noteq> [] then Err (SnapTerminalHasAttempt taskID) else Ok cleared)"

definition recoveryCheck :: "recovery_config \<Rightarrow> string \<Rightarrow> task_record \<Rightarrow> snapshot_fault option" where
  "recoveryCheck rb taskID r =
     (if rb_Enabled rb \<and> rb_InflightPolicy rb = RecoveryInflightPolicyNoRewind
         \<and> terminal_state (r_State r)
         \<and> list_ex (\<lambda>a. at_Status a = AttemptStatusRunning) (r_Attempts r)
      then Some (SnapTerminalRunningAttempt taskID)
      else if rb_Enabled rb \<and> rb_ResumeBoundary rb = RecoveryResumeBoundaryNextAttemptOnly
         \<and> (r_State r = TaskStateRunning \<or> r_State r = TaskStateAwaitingReport)
         \<and> (case currentAttempt r of None \<Rightarrow> True | Some a \<Rightarrow> at_Status a \<noteq> AttemptStatusRunning)
      then Some (SnapInflightAttemptInvalid taskID)
      else None)"

definition restoreFields :: "task_record \<Rightarrow> task_record" where
  "restoreFields r0 =
     (let r = r0\<lparr>r_ErrorMessage := TrimSpace (r_ErrorMessage r0),
                 r_ErrorLayer := TrimSpace (r_ErrorLayer r0),
                 r_DeadLetterCode := TrimSpace (r_DeadLetterCode r0),
                 r_RemoteTaskID := TrimSpace (r_RemoteTaskID r0),
                 r_ResolutionSource := ToLower (TrimSpace (r_ResolutionSource r0))\<rparr>;
          r = (if r_State r \<noteq> TaskStateQueued then r\<lparr>r_NextEligibleAt := 0\<rparr> else r);
          r = (if r_State r \<noteq> TaskStateAwaitingReport
               then r\<lparr>r_AwaitingReportSince := 0, r_ReportTimeoutAt := 0\<rparr> else r)
      in if \<not> terminal_state (r_State r)
         then r\<lparr>r_ResolutionSource := [], r_TerminalConflict := False\<rparr> else r)"

definition restoreRecord ::
  "recovery_config \<Rightarrow> (string, task_record) gomap \<Rightarrow> nat \<Rightarrow> task_record
     \<Rightarrow> (snapshot_fault, task_record) result" where
  "restoreRecord rb seen i r0 =
     (let taskID = TrimSpace (t_TaskID (r_Task r0)) in
      if taskID = [] then Err (SnapTaskIDRequired i)
      else if fmlookup seen taskID \<noteq> None then Err (SnapDuplicateTask taskID)
      else
        (case normalizeTask (r_Task r0) of
           Inl _ \<Rightarrow> Err (SnapTaskInvalid i)
         | Inr t \<Rightarrow>
             (case validateTaskWorkspaceBinding t i of
                Some e \<Rightarrow> Err e
              | None \<Rightarrow>
                  let current = TrimSpace (r_CurrentAttempt r0) in
                  (case restoreAttempts (t_WorkspaceProvenance t) current i 0 [] (r_Attempts r0) of
                     Inl e \<Rightarrow> Err e
                   | Inr (as, currentExists) \<Rightarrow>
                       (case restoreState taskID currentExists
                               (r0\<lparr>r_Task := t, r_CurrentAttempt := current, r_Attempts := as\<rparr>) of
                          Inl e \<Rightarrow> Err e
                        | Inr r \<Rightarrow>
                            (case recoveryCheck rb taskID r of
                               Some e \<Rightarrow> Err e
                             | None \<Rightarrow> Ok (restoreFields r)))))))"

fun restoreTasks ::
  "recovery_config \<Rightarrow> nat \<Rightarrow> task_record list \<Rightarrow> (string, task_record) gomap
     \<Rightarrow> (snapshot_fault, (string, task_record) gomap) result" where
  "restoreTasks rb i [] acc = Ok acc"
| "restoreTasks rb i (r # rs) acc =
     (case restoreRecord rb acc i r of
        Inl e \<Rightarrow> Err e
      | Inr r' \<Rightarrow> restoreTasks rb (Suc i) rs (fmupd (TrimSpace (t_TaskID (r_Task r))) r' acc))"

fun restoreQueue ::
  "(string, task_record) gomap \<Rightarrow> string list \<Rightarrow> string list \<Rightarrow> (snapshot_fault, string list) result" where
  "restoreQueue tasks seen [] = Ok []"
| "restoreQueue tasks seen (q # qs) =
     (let taskID = TrimSpace q in
      if taskID = [] then restoreQueue tasks seen qs
      else
        (case fmlookup tasks taskID of
           None \<Rightarrow> Err (SnapQueueUnknownTask taskID)
         | Some r \<Rightarrow>
             if r_State r \<noteq> TaskStateQueued then Err (SnapQueueNotQueued taskID)
             else if taskID \<in> set seen then Err (SnapQueueDuplicate taskID)
             else
               (case restoreQueue tasks (taskID # seen) qs of
                  Inl e \<Rightarrow> Err e | Inr out \<Rightarrow> Ok (taskID # out))))"

fun restoreCommits ::
  "(string, task_record) gomap \<Rightarrow> nat \<Rightarrow> terminal_commit list \<Rightarrow> (string, terminal_commit) gomap
     \<Rightarrow> (snapshot_fault, (string, terminal_commit) gomap) result" where
  "restoreCommits tasks i [] acc = Ok acc"
| "restoreCommits tasks i (c # cs) acc =
     (let taskID = TrimSpace (c_TaskID c); attemptID = TrimSpace (c_AttemptID c) in
      if taskID = [] \<or> attemptID = [] then Err (SnapCommitFieldsRequired i)
      else if c_Status c \<noteq> TaskStateSucceeded \<and> c_Status c \<noteq> TaskStateFailed then Err (SnapCommitStatus i)
      else
        let key = terminalCommitKey taskID attemptID in
        if fmlookup acc key \<noteq> None then Err (SnapCommitDuplicate key)
        else
          (case (case fmlookup tasks taskID of
                   None \<Rightarrow> None
                 | Some r \<Rightarrow> validateTerminalWorkspaceBinding r (snapshotCommit c) i attemptID) of
             Some e \<Rightarrow> Err e
           | None \<Rightarrow> restoreCommits tasks (Suc i) cs (fmupd key (snapshotCommit c) acc)))"

fun action_string :: "control_action \<Rightarrow> string" where
  "action_string TaskBoardControlActionCancel = ''cancel''"
| "action_string TaskBoardControlActionRetryTerminal = ''retry_terminal''"
| "action_string (TaskBoardControlActionOther s) = s"

fun restoreControls ::
  "nat \<Rightarrow> control_result list \<Rightarrow> (string, control_result) gomap
     \<Rightarrow> (snapshot_fault, (string, control_result) gomap) result" where
  "restoreControls i [] acc = Ok acc"
| "restoreControls i (k # ks) acc =
     (let opID = TrimSpace (k_OperationID k); taskID = TrimSpace (k_TaskID k) in
      if opID = [] then Err (SnapControlOperationRequired i)
      else if fmlookup acc opID \<noteq> None then Err (SnapControlDuplicate opID)
      else if taskID = [] then Err (SnapControlTaskRequired i)
      else
        (case normalizeTaskBoardControlAction (action_string (k_Action k)) of
           Inl _ \<Rightarrow> Err (SnapControlAction i)
         | Inr action \<Rightarrow>
             restoreControls (Suc i) ks
               (fmupd opID (k\<lparr>k_Action := action, k_OperationID := opID, k_TaskID := taskID,
                              k_Reason := TrimSpace (k_Reason k)\<rparr>) acc)))"

definition restoreStats :: "store_snapshot \<Rightarrow> scheduler_state \<Rightarrow> stats" where
  "restoreStats sn s =
     (let backend = TrimSpace (st_Backend (sn_Stats sn));
          backend = (if backend = [] then TrimSpace (sn_Backend sn) else backend);
          backend = (if backend = [] then TrimSpace (st_Backend (s_Stats s)) else backend);
          backend = (if backend = [] then ''memory'' else backend);
          st = (sn_Stats sn)\<lparr>st_Backend := backend\<rparr>;
          st = (if TrimSpace (st_QoSMode st) = []
                then st\<lparr>st_QoSMode := qos_string (g_QoS (s_governance s))\<rparr> else st)
      in if sn_DelayedWaitMs sn \<noteq> []
         then st\<lparr>st_DelayedWaitMsP95 := percentileP95Int64 (sn_DelayedWaitMs sn)\<rparr> else st)"

definition restore :: "store_snapshot \<Rightarrow> unit sched_op" where
  "restore sn s =
     (case restoreTasks (s_recoveryBoundary s) 0 (sn_Tasks sn) fmempty of
        Inl e \<Rightarrow> (Err (ErrSnapshotCorrupt e), s)
      | Inr tasks \<Rightarrow>
          (case restoreQueue tasks [] (sn_Queue sn) of
             Inl e \<Rightarrow> (Err (ErrSnapshotCorrupt e), s)
           | Inr queue \<Rightarrow>
               (case restoreCommits tasks 0 (sn_TerminalCommits sn) fmempty of
                  Inl e \<Rightarrow> (Err (ErrSnapshotCorrupt e), s)
                | Inr commits \<Rightarrow>
                    (case restoreControls 0 (sn_ControlOps sn) fmempty of
                       Inl e \<Rightarrow> (Err (ErrSnapshotCorrupt e), s)
                     | Inr controls \<Rightarrow>
                         (Ok (),
                          s\<lparr>s_Tasks := tasks, s_Queue := queue, s_TerminalCommits := commits,
                            s_ControlOps := controls, s_DelayedWaitMs := sn_DelayedWaitMs sn,
                            s_Stats := restoreStats sn s, s_lastPriority := [], s_lastConsecutive := 0\<rparr>)))))"

section \<open>Restoring a snapshot\<close>

text \<open>
  What \<open>snapshot\<close> loses: a conflict mark left on a task that is no longer terminal, and
  blanks around an outcome key.
\<close>

definition canon_record :: "task_record \<Rightarrow> task_record" where
  "canon_record r = (if terminal_state (r_State r) then r else r\<lparr>r_TerminalConflict := False\<rparr>)"

definition canon_commit :: "terminal_commit \<Rightarrow> terminal_commit" where
  "canon_commit c = c\<lparr>c_OutcomeKey := TrimSpace (c_OutcomeKey c)\<rparr>"

text \<open>The two conditions under which a well-formed state can be restored.\<close>

definition queue_clean :: "scheduler_state \<Rightarrow> bool" where
  "queue_clean s \<longleftrightarrow>
     distinct (s_Queue s)
     \<and> (\<forall>q \<in> set (s_Queue s).
          case fmlookup (s_Tasks s) q of None \<Rightarrow> False | Some r \<Rightarrow> r_State r = TaskStateQueued)"

definition provenance_linked :: "scheduler_state \<Rightarrow> bool" where
  "provenance_linked s \<longleftrightarrow> fmpred (\<lambda>k r. validateTaskWorkspaceBinding (r_Task r) 0 = None) (s_Tasks s)"

lemma validateTask_index:
  "validateTaskWorkspaceBinding t i = None \<longleftrightarrow> validateTaskWorkspaceBinding t 0 = None"
  by (auto simp: validateTaskWorkspaceBinding_def split: option.splits)

lemma restoreAttempts_same:
  assumes "\<forall>a \<in> set xs. trimmed (at_AttemptID a) \<and> at_AttemptID a \<noteq> [] \<and> trimmed (at_WorkerID a)
      \<and> trimmed (at_LeaseToken a) \<and> at_WorkspaceProvenance a = wp"
    and "distinct (map at_AttemptID xs)" "set seen \<inter> at_AttemptID ` set xs = {}"
    and "Option.bind wp provenance_validate = None"
  shows "restoreAttempts wp current i idx seen xs = Ok (xs, current \<in> at_AttemptID ` set xs)"
  using assms
proof (induction xs arbitrary: idx seen)
  case (Cons a xs)
  have "restoreAttempts wp current i (Suc idx) (at_AttemptID a # seen) xs = Ok (xs, current \<in> at_AttemptID ` set xs)"
    using Cons.prems by (intro Cons.IH) auto
  moreover have "validateAttemptWorkspaceBinding wp (at_WorkspaceProvenance a) i idx = None"
    using Cons.prems by (auto simp: validateAttemptWorkspaceBinding_def split: option.splits)
  ultimately show ?case using Cons.prems by (auto simp: Let_def)
qed simp

lemma restoreAttempts_wf:
  assumes "wf_record k r"
  shows "restoreAttempts (t_WorkspaceProvenance (r_Task r)) current i 0 [] (r_Attempts r)
    = Ok (r_Attempts r, current \<in> at_AttemptID ` set (r_Attempts r))"
proof (rule restoreAttempts_same)
  have t: "wf_task k (r_Task r)" and a: "wf_attempts k (t_WorkspaceProvenance (r_Task r)) (r_Attempts r)"
    using assms by (auto simp: wf_record_def)
  show "distinct (map at_AttemptID (r_Attempts r))" using a by (rule wf_attempts_ids)
  show "Option.bind (t_WorkspaceProvenance (r_Task r)) provenance_validate = None"
    using t normalizeTask_fields(7) by (auto simp: wf_task_def)
  show "\<forall>a\<in>set (r_Attempts r). trimmed (at_AttemptID a) \<and> at_AttemptID a \<noteq> [] \<and> trimmed (at_WorkerID a)
      \<and> trimmed (at_LeaseToken a) \<and> at_WorkspaceProvenance a = t_WorkspaceProvenance (r_Task r)"
    using a wf_attempts_trimmed [OF a] wf_task_facts [OF t] by (auto simp: wf_attempts_def)
qed simp

lemma restoreState_wf:
  assumes "wf_record k r"
  shows "restoreState k (r_CurrentAttempt r \<in> at_AttemptID ` set (r_Attempts r)) r = Ok r"
proof -
  have "r_CurrentAttempt r \<noteq> [] \<and> r_CurrentAttempt r \<in> at_AttemptID ` set (r_Attempts r)"
    if "r_State r = TaskStateRunning \<or> r_State r = TaskStateAwaitingReport"
    using wf_inflight_facts [OF assms that] by blast
  moreover have "r_AwaitingReportSince r = 0 \<and> r_ReportTimeoutAt r = 0" if "r_State r \<noteq> TaskStateAwaitingReport"
    using assms that by (simp add: wf_record_def wf_fields_def)
  ultimately show ?thesis
    using assms by (cases "r_State r") (auto simp: restoreState_def Let_def wf_record_def wf_phase_def wf_fields_def idle_def)
qed

lemma recoveryCheck_wf:
  assumes "wf_record k r"
  shows "recoveryCheck rb k r = None"
proof -
  have "currentAttempt r = Some (last (r_Attempts r)) \<and> at_Status (last (r_Attempts r)) = AttemptStatusRunning"
    if "r_State r = TaskStateRunning \<or> r_State r = TaskStateAwaitingReport"
    using wf_inflight_facts [OF assms that] by blast
  moreover have "finished_all (r_Attempts r)" if "terminal_state (r_State r)"
    using assms that by (auto simp: wf_record_def wf_phase_def idle_def)
  ultimately show ?thesis
    by (auto simp: recoveryCheck_def list_ex_iff split: option.splits)
qed

lemma restoreFields_wf: "wf_record k r \<Longrightarrow> restoreFields r = canon_record r"
  by (cases "r_State r") (auto simp: restoreFields_def Let_def canon_record_def wf_record_def wf_fields_def)

lemma restoreRecord_wf:
  assumes "wf_record k r" "fmlookup seen k = None" "validateTaskWorkspaceBinding (r_Task r) 0 = None"
  shows "restoreRecord rb seen i r = Ok (canon_record r)"
proof -
  have t: "normalizeTask (r_Task r) = Ok (r_Task r)" using assms(1) by (simp add: wf_record_def wf_task_def)
  note key = wf_record_key [OF assms(1)]
  have c: "TrimSpace (r_CurrentAttempt r) = r_CurrentAttempt r"
  proof (cases "r_State r = TaskStateRunning \<or> r_State r = TaskStateAwaitingReport")
    case True
    then show ?thesis using wf_inflight_facts [OF assms(1) True] by simp
  next
    case False
    then have "r_CurrentAttempt r = []"
      using assms(1) by (cases "r_State r") (auto simp: wf_record_def wf_phase_def idle_def)
    then show ?thesis by simp
  qed
  show ?thesis
    using key assms(2,3) c validateTask_index [of "r_Task r" i]
    by (simp add: restoreRecord_def Let_def t restoreAttempts_wf [OF assms(1)] restoreState_wf [OF assms(1)]
        recoveryCheck_wf [OF assms(1)] restoreFields_wf [OF assms(1)])
qed

lemma restoreTasks_wf:
  assumes "\<forall>k \<in> set ks. \<exists>r. fmlookup T k = Some r \<and> wf_record k r \<and> validateTaskWorkspaceBinding (r_Task r) 0 = None"
    and "distinct ks" "\<forall>k \<in> set ks. fmlookup acc k = None"
  shows "\<exists>T'. restoreTasks rb i (List.map_filter (fmlookup T) ks) acc = Ok T'
    \<and> (\<forall>k. fmlookup T' k = (if k \<in> set ks then map_option canon_record (fmlookup T k) else fmlookup acc k))"
  using assms
proof (induction ks arbitrary: i acc)
  case (Cons k ks)
  obtain r where r: "fmlookup T k = Some r" "wf_record k r" "validateTaskWorkspaceBinding (r_Task r) 0 = None"
    using Cons.prems(1) by auto
  have "TrimSpace (t_TaskID (r_Task r)) = k" using wf_record_key [OF r(2)] by simp
  moreover have "restoreRecord rb acc i r = Ok (canon_record r)"
    using restoreRecord_wf [OF r(2) _ r(3)] Cons.prems(3) by simp
  moreover have "\<exists>T'. restoreTasks rb (Suc i) (List.map_filter (fmlookup T) ks) (fmupd k (canon_record r) acc) = Ok T'
      \<and> (\<forall>j. fmlookup T' j = (if j \<in> set ks then map_option canon_record (fmlookup T j)
            else fmlookup (fmupd k (canon_record r) acc) j))"
    using Cons.prems by (intro Cons.IH) auto
  moreover have "List.map_filter (fmlookup T) (k # ks) = r # List.map_filter (fmlookup T) ks"
    using r(1) by (simp add: List.map_filter_simps)
  ultimately show ?case using r(1) Cons.prems(2) by auto
qed (simp add: List.map_filter_def)

lemma restoreQueue_clean:
  assumes "\<forall>q \<in> set qs. trimmed q \<and> q \<noteq> [] \<and> (\<exists>r. fmlookup T q = Some r \<and> r_State r = TaskStateQueued)"
    "distinct qs" "set seen \<inter> set qs = {}"
  shows "restoreQueue T seen qs = Ok qs"
  using assms
proof (induction qs arbitrary: seen)
  case (Cons q qs)
  then have "restoreQueue T (q # seen) qs = Ok qs" by (intro Cons.IH) auto
  then show ?case using Cons.prems by (auto simp: Let_def)
qed simp

lemma snapshotCommit_canon: "commit_text_ok c \<Longrightarrow> snapshotCommit c = canon_commit c"
  by (simp add: snapshotCommit_def canon_commit_def commit_text_ok_def)

lemma attemptByID_mem:
  assumes "wf_record k r" "a \<in> set (r_Attempts r)"
  shows "attemptByID r (at_AttemptID a) = Some a"
proof -
  have a: "wf_attempts k (t_WorkspaceProvenance (r_Task r)) (r_Attempts r)" using assms(1) by (simp add: wf_record_def)
  note key = wf_record_key [OF assms(1)]
  have trim: "TrimSpace (at_AttemptID b) = at_AttemptID b" "at_AttemptID b \<noteq> []" if "b \<in> set (r_Attempts r)" for b
    using wf_attempts_trimmed [OF a that] key by simp_all
  have "find (\<lambda>b. TrimSpace (at_AttemptID b) = at_AttemptID a) (r_Attempts r) \<noteq> None"
    using assms(2) trim(1) [OF assms(2)] by (auto simp: find_None_iff)
  then obtain b where b: "find (\<lambda>b. TrimSpace (at_AttemptID b) = at_AttemptID a) (r_Attempts r) = Some b" by blast
  then have "b \<in> set (r_Attempts r)" "TrimSpace (at_AttemptID b) = at_AttemptID a"
    by (auto simp: find_Some_iff)
  then have "at_AttemptID b = at_AttemptID a" using trim(1) by simp
  then have "b = a"
    using wf_attempts_ids [OF a] assms(2) \<open>b \<in> set (r_Attempts r)\<close> by (simp add: distinct_map inj_on_def)
  then show ?thesis using b trim [OF assms(2)] by (simp add: attemptByID_def Let_def)
qed

lemma canon_record_same:
  "r_Attempts (canon_record r) = r_Attempts r" "r_Task (canon_record r) = r_Task r"
  "r_State (canon_record r) = r_State r"
  by (simp_all add: canon_record_def)

lemma wf_canon_record: "wf_record k r \<Longrightarrow> wf_record k (canon_record r)"
  by (cases "r_State r") (simp_all add: wf_defs canon_record_def)

lemma validateTerminal_wf:
  assumes "commit_ok T key c" "fmlookup T (c_TaskID c) = Some r" "wf_record (c_TaskID c) r"
  shows "validateTerminalWorkspaceBinding (canon_record r) (canon_commit c) i (c_AttemptID c) = None"
proof -
  obtain a where a: "a \<in> set (r_Attempts r)" "at_AttemptID a = c_AttemptID c"
    using assms(1,2) by (auto simp: commit_ok_def)
  have "attemptByID (canon_record r) (c_AttemptID c) = Some a"
    using attemptByID_mem [OF wf_canon_record [OF assms(3)], of a] a by (simp add: canon_record_same)
  moreover have "at_WorkspaceProvenance a = t_WorkspaceProvenance (r_Task r)"
    using assms(3) a(1) by (simp add: wf_record_def wf_attempts_def)
  moreover have "c_WorkspaceProvenance c = None \<or> c_WorkspaceProvenance c = t_WorkspaceProvenance (r_Task r)"
    using assms(1,2) by (simp add: commit_ok_def)
  ultimately show ?thesis
    by (auto simp: validateTerminalWorkspaceBinding_def canon_record_same canon_commit_def)
qed

lemma restoreCommits_wf:
  assumes "\<forall>key \<in> set ks. \<exists>c. fmlookup C key = Some c \<and> commit_ok T key c" "tasks_ok T"
    and "\<forall>k. fmlookup T' k = map_option canon_record (fmlookup T k)"
    and "distinct ks" "\<forall>key \<in> set ks. fmlookup acc key = None"
  shows "\<exists>C'. restoreCommits T' i (map snapshotCommit (List.map_filter (fmlookup C) ks)) acc = Ok C'
    \<and> (\<forall>key. fmlookup C' key = (if key \<in> set ks then map_option canon_commit (fmlookup C key) else fmlookup acc key))"
  using assms(1,4,5)
proof (induction ks arbitrary: i acc)
  case (Cons key ks)
  obtain c where c: "fmlookup C key = Some c" "commit_ok T key c" using Cons.prems(1) by auto
  have ctext: "commit_text_ok c" using c(2) by (simp add: commit_ok_def)
  obtain r where r: "fmlookup T (c_TaskID c) = Some r" using c(2) by (auto simp: commit_ok_def split: option.splits)
  have "wf_record (c_TaskID c) r" using r assms(2) by (auto simp: tasks_ok_def)
  note v = validateTerminal_wf [OF c(2) r this, of i]
  have fields: "c_TaskID (canon_commit c) = c_TaskID c" "c_AttemptID (canon_commit c) = c_AttemptID c"
    "c_Status (canon_commit c) = c_Status c" "snapshotCommit (canon_commit c) = canon_commit c"
    using ctext by (simp_all add: canon_commit_def snapshotCommit_def commit_text_ok_def)
  have "List.map_filter (fmlookup C) (key # ks) = c # List.map_filter (fmlookup C) ks"
    using c(1) by (simp add: List.map_filter_simps)
  moreover have "\<exists>C'. restoreCommits T' (Suc i) (map snapshotCommit (List.map_filter (fmlookup C) ks))
        (fmupd key (canon_commit c) acc) = Ok C'
      \<and> (\<forall>j. fmlookup C' j = (if j \<in> set ks then map_option canon_commit (fmlookup C j)
            else fmlookup (fmupd key (canon_commit c) acc) j))"
    using Cons.prems by (intro Cons.IH) auto
  moreover have "key = terminalCommitKey (c_TaskID c) (c_AttemptID c)" using c(2) by (simp add: commit_ok_def)
  ultimately show ?case
    using c(1) r v fields ctext Cons.prems assms(3)
    by (auto simp: Let_def snapshotCommit_canon [OF ctext] commit_text_ok_def)
qed (simp add: List.map_filter_simps)

lemma action_literals:
  assumes "w \<in> {''cancel'', ''retry_terminal''}"
  shows "ToLower (TrimSpace w) = w"
proof -
  have "\<forall>c \<in> set w. plain_byte c" "ascii_lower w"
    using assms by (elim insertE emptyE; simp add: plain_byte_def ascii_lower_def lower_byte_def)+
  then show ?thesis by (simp add: trimmed_plain ToLower_ascii_lower)
qed

lemma normalizeAction_same:
  assumes "a = TaskBoardControlActionCancel \<or> a = TaskBoardControlActionRetryTerminal"
  shows "normalizeTaskBoardControlAction (action_string a) = Ok a"
proof -
  have "ToLower (TrimSpace ''cancel'') = ''cancel''" "ToLower (TrimSpace ''retry_terminal'') = ''retry_terminal''"
    by (rule action_literals, simp)+
  then show ?thesis using assms by (elim disjE; simp add: normalizeTaskBoardControlAction_def)
qed

lemma trimmed_reasons [simp]: "trimmed ReasonManualCancel" "trimmed ReasonManualRetry"
  by (rule trimmed_plain_ends; simp add: plain_byte_def)+

lemma restoreControls_wf:
  assumes "\<forall>op \<in> set ks. \<exists>k. fmlookup K op = Some k \<and> control_entry T op k" "tasks_ok T"
    and "distinct ks" "\<forall>op \<in> set ks. fmlookup acc op = None"
  shows "\<exists>K'. restoreControls i (map snapshotControl (List.map_filter (fmlookup K) ks)) acc = Ok K'
    \<and> (\<forall>op. fmlookup K' op = (if op \<in> set ks then fmlookup K op else fmlookup acc op))"
  using assms(1,3,4)
proof (induction ks arbitrary: i acc)
  case (Cons op ks)
  obtain k where k: "fmlookup K op = Some k" "control_entry T op k" using Cons.prems(1) by auto
  obtain r where "fmlookup T (k_TaskID k) = Some r" using k(2) by (auto simp: control_entry_def)
  then have "k_TaskID k \<noteq> []" using assms(2) wf_record_key by (auto simp: tasks_ok_def)
  moreover have "k_OperationID k = op" "op \<noteq> []" "trimmed op" "trimmed (k_TaskID k)" "trimmed (k_Reason k)"
    "normalizeTaskBoardControlAction (action_string (k_Action k)) = Ok (k_Action k)"
    using k(2) normalizeAction_same by (auto simp: control_entry_def)
  moreover have "snapshotControl k = k"
    using calculation by (simp add: snapshotControl_def)
  moreover have "List.map_filter (fmlookup K) (op # ks) = k # List.map_filter (fmlookup K) ks"
    using k(1) by (simp add: List.map_filter_simps)
  moreover have "\<exists>K'. restoreControls (Suc i) (map snapshotControl (List.map_filter (fmlookup K) ks)) (fmupd op k acc) = Ok K'
      \<and> (\<forall>j. fmlookup K' j = (if j \<in> set ks then fmlookup K j else fmlookup (fmupd op k acc) j))"
    using Cons.prems by (intro Cons.IH) auto
  ultimately show ?case
    using k(1) Cons.prems by (auto simp: Let_def)
qed (simp add: List.map_filter_simps)

lemma trimmed_qos: "trimmed (qos_string QoSModeFIFO)" "trimmed (qos_string QoSModePriority)"
  by (simp_all, (rule trimmed_plain_ends; simp add: plain_byte_def)+)

lemma restoreStats_wf:
  assumes "stats_ok s" "config_ok s"
  shows "restoreStats (snapshot s) s0 = s_Stats s"
proof -
  have "TrimSpace (st_QoSMode (s_Stats s)) \<noteq> []"
    using assms trimmed_qos by (auto simp: stats_ok_def config_ok_def)
  then show ?thesis
    using assms(1) by (simp add: restoreStats_def Let_def snapshot_def stats_ok_def)
qed

text \<open>The state a restored snapshot of \<open>s\<close> gives the store \<open>s0\<close>.\<close>

definition adopt :: "scheduler_state \<Rightarrow> scheduler_state \<Rightarrow> scheduler_state" where
  "adopt s s0 =
     s0\<lparr>s_Tasks := fmmap canon_record (s_Tasks s), s_Queue := s_Queue s,
        s_TerminalCommits := fmmap canon_commit (s_TerminalCommits s), s_ControlOps := s_ControlOps s,
        s_DelayedWaitMs := s_DelayedWaitMs s, s_Stats := s_Stats s, s_lastPriority := [],
        s_lastConsecutive := 0\<rparr>"

lemma restore_wf:
  assumes inv: "sched_inv s" and clean: "queue_clean s" and linked: "provenance_linked s"
  shows "restore (snapshot s) s0 = (Ok (), adopt s s0)"
proof -
  let ?T = "s_Tasks s" and ?C = "s_TerminalCommits s" and ?K = "s_ControlOps s"
  have recs: "\<forall>k \<in> set (sorted_keys ?T). \<exists>r. fmlookup ?T k = Some r \<and> wf_record k r
      \<and> validateTaskWorkspaceBinding (r_Task r) 0 = None"
    using inv linked sched_inv_record by (auto simp: provenance_linked_def fmlookup_dom_iff fmpred_iff)
  obtain T' where T': "restoreTasks (s_recoveryBoundary s0) 0 (sorted_values ?T) fmempty = Ok T'"
    "\<And>k. fmlookup T' k = (if k \<in> set (sorted_keys ?T) then map_option canon_record (fmlookup ?T k) else None)"
    using restoreTasks_wf [OF recs distinct_sorted_keys, of fmempty "s_recoveryBoundary s0" 0]
    by (auto simp: sorted_values_def)
  have T'': "fmlookup T' k = map_option canon_record (fmlookup ?T k)" for k
    using T'(2) [of k] by (auto simp: fmlookup_dom_iff)
  have "restoreQueue T' [] (s_Queue s) = Ok (s_Queue s)"
  proof (rule restoreQueue_clean)
    show "\<forall>q \<in> set (s_Queue s). trimmed q \<and> q \<noteq> [] \<and> (\<exists>r. fmlookup T' q = Some r \<and> r_State r = TaskStateQueued)"
      using clean sched_inv_record [OF inv] wf_record_key
      by (fastforce simp: queue_clean_def T'' canon_record_same split: option.splits)
  qed (use clean in \<open>auto simp: queue_clean_def\<close>)
  moreover have coms: "\<forall>key \<in> set (sorted_keys ?C). \<exists>c. fmlookup ?C key = Some c \<and> commit_ok ?T key c"
    using inv by (auto simp: sched_inv_def ledger_ok_def fmlookup_dom_iff fmpred_iff)
  obtain C' where C': "restoreCommits T' 0 (map snapshotCommit (sorted_values ?C)) fmempty = Ok C'"
    "\<And>key. fmlookup C' key = (if key \<in> set (sorted_keys ?C) then map_option canon_commit (fmlookup ?C key) else None)"
    using restoreCommits_wf [OF coms _ _ distinct_sorted_keys, of T' fmempty 0] inv T''
    by (auto simp: sorted_values_def sched_inv_def)
  have ctls: "\<forall>op \<in> set (sorted_keys ?K). \<exists>k. fmlookup ?K op = Some k \<and> control_entry ?T op k"
    using inv by (auto simp: sched_inv_def control_ok_def fmlookup_dom_iff fmpred_iff)
  obtain K' where K': "restoreControls 0 (map snapshotControl (sorted_values ?K)) fmempty = Ok K'"
    "\<And>op. fmlookup K' op = (if op \<in> set (sorted_keys ?K) then fmlookup ?K op else None)"
    using restoreControls_wf [OF ctls _ distinct_sorted_keys, of fmempty 0] inv
    by (auto simp: sorted_values_def sched_inv_def)
  have "T' = fmmap canon_record ?T" by (rule fmap_ext) (simp add: T'')
  moreover have "C' = fmmap canon_commit ?C" by (rule fmap_ext) (use C'(2) in \<open>auto simp: fmlookup_dom_iff\<close>)
  moreover have "K' = ?K" by (rule fmap_ext) (use K'(2) in \<open>auto simp: fmlookup_dom_iff\<close>)
  moreover have "restoreStats (snapshot s) s0 = s_Stats s"
    using inv by (intro restoreStats_wf) (simp_all add: sched_inv_def)
  ultimately show ?thesis
    using T'(1) C'(1) K'(1) by (simp add: restore_def adopt_def snapshot_def snapshotControlOps_def)
qed

text \<open>A queue entry whose task is not queued makes the snapshot unusable.\<close>

lemma restoreQueue_Ok:
  assumes "restoreQueue T seen qs = Ok out" "q \<in> set qs" "TrimSpace q \<noteq> []"
  shows "\<exists>r. fmlookup T (TrimSpace q) = Some r \<and> r_State r = TaskStateQueued"
  using assms
  by (induction qs arbitrary: seen out) (auto simp: Let_def split: if_splits option.splits sum.splits)

lemma restoreState_State: "restoreState k b r = Ok r' \<Longrightarrow> r_State r' = r_State r"
  by (cases "r_State r") (auto simp: restoreState_def Let_def split: if_splits)

lemma restoreFields_State: "r_State (restoreFields r) = r_State r"
  by (simp add: restoreFields_def Let_def)

lemma restoreRecord_State: "restoreRecord rb seen i r = Ok r' \<Longrightarrow> r_State r' = r_State r"
  by (auto simp: restoreRecord_def Let_def restoreFields_State
      split: if_splits sum.splits option.splits dest!: restoreState_State)

lemma restoreTasks_acc:
  assumes "restoreTasks rb i rs acc = Ok T'"
  shows "(\<forall>k r. fmlookup acc k = Some r \<longrightarrow> fmlookup T' k = Some r)
    \<and> (\<forall>r \<in> set rs. \<exists>r'. fmlookup T' (TrimSpace (t_TaskID (r_Task r))) = Some r' \<and> r_State r' = r_State r)"
  using assms
proof (induction rs arbitrary: i acc)
  case (Cons r rs)
  then obtain r' where r': "restoreRecord rb acc i r = Ok r'"
      "restoreTasks rb (Suc i) rs (fmupd (TrimSpace (t_TaskID (r_Task r))) r' acc) = Ok T'"
    by (auto split: sum.splits)
  have new: "fmlookup acc (TrimSpace (t_TaskID (r_Task r))) = None"
    using r'(1) by (auto simp: restoreRecord_def Let_def split: if_splits)
  note IH = Cons.IH [OF r'(2)]
  have "fmlookup T' (TrimSpace (t_TaskID (r_Task r))) = Some r'" using IH by simp
  moreover have "fmlookup T' k = Some q" if "fmlookup acc k = Some q" for k q
    using IH that new by (metis fmupd_lookup option.distinct(1))
  ultimately show ?case using IH restoreRecord_State [OF r'(1)] by auto
qed simp

lemma sorted_values_mem: "v \<in> set (sorted_values m) \<longleftrightarrow> (\<exists>k. fmlookup m k = Some v)"
proof
  assume "\<exists>k. fmlookup m k = Some v"
  then obtain k where k: "fmlookup m k = Some v" by blast
  then have "k |\<in>| fmdom m" by (rule fmdomI)
  then show "v \<in> set (sorted_values m)"
    using k by (auto simp: sorted_values_def List.map_filter_def image_iff intro!: bexI [of _ k])
qed (auto simp: sorted_values_def List.map_filter_def)

lemma restore_refuses_queue:
  assumes inv: "sched_inv s" and q: "k \<in> set (s_Queue s)"
    and r: "fmlookup (s_Tasks s) k = Some r" "r_State r \<noteq> TaskStateQueued"
  shows "\<exists>e. restore (snapshot s) s0 = (Err (ErrSnapshotCorrupt e), s0)"
proof (cases "restoreTasks (s_recoveryBoundary s0) 0 (sn_Tasks (snapshot s)) fmempty")
  case (Inl e)
  then show ?thesis by (simp add: restore_def)
next
  case (Inr T')
  have key: "t_TaskID (r_Task r) = k" "trimmed k" "k \<noteq> []"
    using wf_record_key [OF sched_inv_record [OF inv r(1)]] by auto
  have "r \<in> set (sn_Tasks (snapshot s))" using r(1) by (auto simp: snapshot_def sorted_values_mem)
  then obtain r' where "fmlookup T' k = Some r'" "r_State r' = r_State r"
    using restoreTasks_acc [OF Inr] key by fastforce
  then obtain e where "restoreQueue T' [] (sn_Queue (snapshot s)) = Err e"
    using restoreQueue_Ok [of T' "[]" "s_Queue s" _ k] q key r(2)
    by (cases "restoreQueue T' [] (sn_Queue (snapshot s))") (auto simp: snapshot_def)
  then show ?thesis using Inr by (simp add: restore_def)
qed

end
