(* ===== verification/Scheduler_Ledger.thy ===== *)
theory Scheduler_Ledger
  imports Scheduler_Snapshot
begin

text \<open>
  Exactly-once settlement: the key of a terminal commit determines its task and attempt, the
  attempt that runs has no commit yet, a commit by the worker that holds the task is applied once,
  and every later commit for the same attempt is counted as a duplicate and changes nothing else.
\<close>

section \<open>Commit keys\<close>

lemma digit_suffix:
  assumes "u @ CHR ''-'' # nat_dec m = v @ CHR ''-'' # nat_dec n"
  shows "nat_dec m = nat_dec n" "u = v"
proof -
  have *: "takeWhile digit (rev (w @ CHR ''-'' # nat_dec k)) = rev (nat_dec k)" for w k
  proof -
    have "\<not> digit CHR ''-''" by (simp add: digit_def)
    then have "takeWhile digit (rev (nat_dec k) @ CHR ''-'' # rev w) = rev (nat_dec k)"
      using nat_dec_digits by (subst takeWhile_append2) auto
    then show ?thesis by simp
  qed
  have "rev (nat_dec m) = rev (nat_dec n)" using assms * [of u m] * [of v n] by metis
  then show "nat_dec m = nat_dec n" by simp
  then show "u = v" using assms by simp
qed

lemma terminalCommitKey_attempt:
  assumes "trimmed tid" "tid \<noteq> []"
  shows "terminalCommitKey tid (attempt_id tid n) = (tid @ ''|'' @ tid @ ''-attempt'') @ CHR ''-'' # nat_dec n"
proof -
  have "TrimSpace (attempt_id tid n) = attempt_id tid n" using trimmed_attempt_id [OF assms] by simp
  then show ?thesis using assms by (simp add: terminalCommitKey_def attempt_id_def)
qed

lemma commit_key_inject:
  assumes "trimmed t" "t \<noteq> []" "trimmed u" "u \<noteq> []"
    and "terminalCommitKey t (attempt_id t m) = terminalCommitKey u (attempt_id u n)"
  shows "t = u \<and> m = n"
proof -
  have eq: "(t @ ''|'' @ t @ ''-attempt'') @ CHR ''-'' # nat_dec m = (u @ ''|'' @ u @ ''-attempt'') @ CHR ''-'' # nat_dec n"
    using assms(5) terminalCommitKey_attempt assms(1-4) by metis
  have "nat_dec m = nat_dec n" by (rule digit_suffix(1) [OF eq])
  moreover have tu: "t @ ''|'' @ t @ ''-attempt'' = u @ ''|'' @ u @ ''-attempt''" by (rule digit_suffix(2) [OF eq])
  have "length t = length u" using arg_cong [OF tu, of length] by simp
  then have "t = u" using tu by simp
  ultimately show ?thesis by simp
qed

text \<open>The attempt that is running has no terminal commit.\<close>

lemma running_uncommitted:
  assumes inv: "sched_inv s" and r: "fmlookup (s_Tasks s) k = Some r"
    and st: "r_State r = TaskStateRunning \<or> r_State r = TaskStateAwaitingReport"
  shows "fmlookup (s_TerminalCommits s) (terminalCommitKey k (r_CurrentAttempt r)) = None"
proof (rule ccontr)
  assume "fmlookup (s_TerminalCommits s) (terminalCommitKey k (r_CurrentAttempt r)) \<noteq> None"
  then obtain c where c: "fmlookup (s_TerminalCommits s) (terminalCommitKey k (r_CurrentAttempt r)) = Some c" by blast
  have wf: "wf_record k r" using inv r by (rule sched_inv_record)
  note key = wf_record_key [OF wf]
  obtain ys y where y: "r_Attempts r = ys @ [y]" "r_CurrentAttempt r = attempt_id k (Suc (length ys))"
      "at_AttemptID y = attempt_id k (Suc (length ys))" "at_Status y = AttemptStatusRunning" "finished_all ys"
    by (rule wf_inflight_cases [OF wf st]) simp
  have ok: "commit_ok (s_Tasks s) (terminalCommitKey k (r_CurrentAttempt r)) c"
    using inv c by (auto simp: sched_inv_def ledger_ok_def)
  then obtain q a where q: "fmlookup (s_Tasks s) (c_TaskID c) = Some q" "a \<in> set (r_Attempts q)"
      "at_AttemptID a = c_AttemptID c" "at_Status a = commit_status c"
    by (auto simp: commit_ok_def split: option.splits)
  have wq: "wf_record (c_TaskID c) q" using inv q(1) by (rule sched_inv_record)
  then have "wf_attempts (c_TaskID c) (t_WorkspaceProvenance (r_Task q)) (r_Attempts q)"
    by (simp add: wf_record_def)
  then obtain n where n: "at_AttemptID a = attempt_id (c_TaskID c) n"
    using q(2) by (rule wf_attempts_id_ex)
  have "terminalCommitKey k (attempt_id k (Suc (length ys))) = terminalCommitKey (c_TaskID c) (attempt_id (c_TaskID c) n)"
    using ok y(2) q(3) n by (simp add: commit_ok_def)
  then have "k = c_TaskID c" "n = Suc (length ys)"
    using commit_key_inject key wf_record_key [OF wq] by blast+
  then have "q = r" "at_AttemptID a = at_AttemptID y" using q(1) r n y(3) by simp_all
  moreover have "distinct (map at_AttemptID (r_Attempts r))"
    using wf wf_attempts_ids by (auto simp: wf_record_def)
  moreover have "y \<in> set (r_Attempts r)" using y(1) by simp
  ultimately have "a = y" using q(2) unfolding distinct_map by (metis inj_onD)
  then show False using q(4) y(4) by (simp add: commit_status_def split: if_splits)
qed

section \<open>Committing\<close>

lemma applyTerminalCommit_valid:
  assumes "c_Status c = TaskStateSucceeded \<or> c_Status c = TaskStateFailed"
  shows "applyTerminalCommit r c s =
    (case currentAttempt r of
       None \<Rightarrow> (Err ErrAttemptNotFound, s)
     | Some y \<Rightarrow>
         if at_AttemptID y \<noteq> c_AttemptID c then (Err ErrStaleAttempt, s)
         else let r' = terminalRecord c (y\<lparr>at_Status := commit_status c, at_TerminalAt := c_CommittedAt c\<rparr>) r
              in (Ok (commitOutcome r' False False False),
                  storeRecord (c_TaskID c) r' s
                    \<lparr>s_TerminalCommits := fmupd (terminalCommitKey (c_TaskID c) (c_AttemptID c)) c (s_TerminalCommits s),
                     s_Stats := commitStats c (s_Stats s)\<rparr>))"
  using assms by (auto simp: applyTerminalCommit_def Let_def commit_status_def split: option.splits)

lemma commit_applies:
  assumes inv: "sched_inv s" and r: "fmlookup (s_Tasks s) (c_TaskID n) = Some r"
    and st: "r_State r = TaskStateRunning" and n: "normalizeCommit clk c = Ok n"
    and att: "c_AttemptID n = r_CurrentAttempt r" "c_WorkspaceProvenance n = t_WorkspaceProvenance (r_Task r)"
  shows "commitTerminal clk c s = applyTerminalCommit r n s"
    and "\<exists>r' s'. applyTerminalCommit r n s = (Ok (commitOutcome r' False False False), s')
      \<and> r_State r' = c_Status n \<and> fmlookup (s_Tasks s') (c_TaskID n) = Some r'
      \<and> fmlookup (s_TerminalCommits s') (terminalCommitKey (c_TaskID n) (c_AttemptID n)) = Some n"
proof -
  have wf: "wf_record (c_TaskID n) r" using inv r by (rule sched_inv_record)
  have st': "r_State r = TaskStateRunning \<or> r_State r = TaskStateAwaitingReport" using st by simp
  note f = wf_inflight_facts [OF wf st']
  have prov: "at_WorkspaceProvenance (last (r_Attempts r)) = t_WorkspaceProvenance (r_Task r)"
    using wf f(1) by (simp add: wf_record_def wf_attempts_def)
  have none: "fmlookup (s_TerminalCommits s) (terminalCommitKey (c_TaskID n) (c_AttemptID n)) = None"
    using running_uncommitted [OF inv r st'] att by simp
  show "commitTerminal clk c s = applyTerminalCommit r n s"
    using r st att prov none f(2) by (simp add: commitTerminal_def n)
  show "\<exists>r' s'. applyTerminalCommit r n s = (Ok (commitOutcome r' False False False), s')
      \<and> r_State r' = c_Status n \<and> fmlookup (s_Tasks s') (c_TaskID n) = Some r'
      \<and> fmlookup (s_TerminalCommits s') (terminalCommitKey (c_TaskID n) (c_AttemptID n)) = Some n"
    unfolding applyTerminalCommit_valid [OF normalizeCommit_fields(7) [OF n]] using f(2,4) att
    by (simp add: Let_def storeRecord_def terminalRecord_def)
qed

lemma commit_duplicate:
  assumes "normalizeCommit clk c = Ok n" "fmlookup (s_Tasks s) (c_TaskID n) = Some r"
    and "fmlookup (s_TerminalCommits s) (terminalCommitKey (c_TaskID n) (c_AttemptID n)) \<noteq> None"
  shows "commitTerminal clk c s = (Ok (commitOutcome r True False False), bumpDuplicate s)"
  using assms by (simp add: commitTerminal_def)

lemma commit_outcomes:
  assumes "commitTerminal clk c s = (Ok res, s')" "normalizeCommit clk c = Ok n"
  shows "fmlookup (s_TerminalCommits s') (terminalCommitKey (c_TaskID n) (c_AttemptID n)) \<noteq> None
    \<and> fmlookup (s_Tasks s') (c_TaskID n) = Some (cr_Record res)"
  using assms
  by (auto simp: commitTerminal_def applyTerminalCommit_valid [OF normalizeCommit_fields(7) [OF assms(2)]]
      Let_def storeRecord_def commitOutcome_def bumpDuplicate_def split: option.splits if_splits)

lemma commit_error_unchanged:
  "commitTerminal clk c s = (Err e, s') \<Longrightarrow> s' = s"
  using applyTerminalCommit_valid [OF normalizeCommit_fields(7)]
  by (auto simp: commitTerminal_def Let_def split: sum.splits option.splits if_splits)

end
