(* ===== verification/Scheduler_Claims.thy ===== *)
theory Scheduler_Claims
  imports Scheduler_Ledger
begin

text \<open>
  Who may run a task: what lease expiry changes and leaves alone, which task \<open>claim\<close> chooses
  under the two queueing policies, that a claim never takes a task whose lease is still valid, and
  that it returns nothing only when nothing is claimable.
\<close>

section \<open>Lease expiry\<close>

text \<open>What the retry transition makes of the record, whatever it does to the queue.\<close>

lemma handleRetryTransition_state:
  "r_State (fst (handleRetryTransition k r y now s)) \<in> {TaskStateQueued, TaskStateFailed, TaskStateDeadLetter}"
  by (simp add: handleRetryTransition_def Let_def)

lemma handleRetryTransition_frame:
  "j \<noteq> k \<Longrightarrow> fmlookup (s_Tasks (snd (handleRetryTransition k r y now s))) j = fmlookup (s_Tasks s) j"
  "fmlookup (s_Tasks (snd (handleRetryTransition k r y now s))) k = Some (fst (handleRetryTransition k r y now s))"
  by (simp_all add: handleRetryTransition_def Let_def storeRecord_def)

text \<open>One iteration of the loop as a state transformer.\<close>

definition leaseStep :: "time \<Rightarrow> string \<Rightarrow> scheduler_state \<Rightarrow> scheduler_state" where
  "leaseStep now k s =
     (case fmlookup (s_Tasks s) k of
        None \<Rightarrow> s
      | Some r \<Rightarrow>
          if r_State r \<noteq> TaskStateRunning then s
          else case currentAttempt r of
                 None \<Rightarrow> s
               | Some y \<Rightarrow>
                   let s1 = snd (handleRetryTransition k r y now s)
                   in s1\<lparr>s_Stats := (s_Stats s1)\<lparr>st_LeaseExpiredTotal := st_LeaseExpiredTotal (s_Stats s1) + 1\<rparr>\<rparr>)"

lemma expireLeasesLoop_fold: "snd (expireLeasesLoop now ids s) = fold (leaseStep now) ids s"
  by (induction ids arbitrary: s) (simp_all add: leaseStep_def Let_def case_prod_beta split: option.splits)

lemma leaseStep_inv: "sched_inv s \<Longrightarrow> sched_inv (leaseStep now k s)"
  using inv_expireLeasesLoop [of s now "[k]"] unfolding expireLeasesLoop_fold by simp

lemma leaseStep_frame: "j \<noteq> k \<Longrightarrow> fmlookup (s_Tasks (leaseStep now k s)) j = fmlookup (s_Tasks s) j"
  by (simp add: leaseStep_def Let_def handleRetryTransition_frame(1) split: option.splits)

lemma leaseStep_settles:
  assumes "sched_inv s" "fmlookup (s_Tasks s) k = Some r" "r_State r = TaskStateRunning"
  shows "fmlookup (s_Tasks (leaseStep now k s)) k = Some (fst (handleRetryTransition k r (last (r_Attempts r)) now s))"
  using assms wf_inflight_facts(2) [OF sched_inv_record [OF assms(1,2)]]
  by (simp add: leaseStep_def Let_def handleRetryTransition_frame(2))

lemma expireLeasesLoop_frame:
  "k \<notin> set ids \<Longrightarrow> fmlookup (s_Tasks (fold (leaseStep now) ids s)) k = fmlookup (s_Tasks s) k"
  by (induction ids arbitrary: s) (simp_all add: leaseStep_frame)

lemma expireLeasesLoop_settles:
  assumes "sched_inv s" "distinct ids" "k \<in> set ids" "fmlookup (s_Tasks s) k = Some r" "r_State r = TaskStateRunning"
  shows "\<exists>r'. fmlookup (s_Tasks (fold (leaseStep now) ids s)) k = Some r'
    \<and> r_State r' \<in> {TaskStateQueued, TaskStateFailed, TaskStateDeadLetter}"
  using assms
proof (induction ids arbitrary: s)
  case (Cons j ids)
  show ?case
  proof (cases "j = k")
    case True
    then have "fmlookup (s_Tasks (fold (leaseStep now) (j # ids) s)) k
        = Some (fst (handleRetryTransition k r (last (r_Attempts r)) now s))"
      using Cons.prems leaseStep_settles [OF Cons.prems(1,4,5)] by (simp add: expireLeasesLoop_frame)
    then show ?thesis using handleRetryTransition_state by blast
  next
    case False
    then show ?thesis
      using Cons.IH [OF leaseStep_inv [OF Cons.prems(1)], of now j] Cons.prems leaseStep_frame [of k j] by simp
  qed
qed simp

lemma mem_selectKeys: "k \<in> set (selectKeys P s) \<longleftrightarrow> (\<exists>r. fmlookup (s_Tasks s) k = Some r \<and> P r)"
  by (auto simp: selectKeys_def fmlookup_dom_iff split: option.splits)

lemma distinct_selectKeys [simp]: "distinct (selectKeys P s)"
  by (simp add: selectKeys_def)

lemma expireLeases_keeps:
  assumes "fmlookup (s_Tasks s) k = Some r" "\<not> leaseExpiredRecord (resolve_now clk now) r"
  shows "fmlookup (s_Tasks (snd (expireLeases clk now s))) k = Some r"
  using assms expireLeasesLoop_frame [of k] mem_selectKeys [of k]
  by (simp add: expireLeases_def Let_def expireLeasesLoop_fold)

lemma expireLeases_none: "fmlookup (s_Tasks s) k = None \<Longrightarrow> fmlookup (s_Tasks (snd (expireLeases clk now s))) k = None"
  using expireLeasesLoop_frame [of k] mem_selectKeys [of k] by (simp add: expireLeases_def Let_def expireLeasesLoop_fold)

lemma expireLeases_takes:
  assumes "sched_inv s" "fmlookup (s_Tasks s) k = Some r" "leaseExpiredRecord (resolve_now clk now) r"
  shows "\<exists>r'. fmlookup (s_Tasks (snd (expireLeases clk now s))) k = Some r'
    \<and> r_State r' \<in> {TaskStateQueued, TaskStateFailed, TaskStateDeadLetter}"
proof -
  have "k \<in> set (selectKeys (leaseExpiredRecord (resolve_now clk now)) s)" using assms mem_selectKeys by blast
  then show ?thesis
    using expireLeasesLoop_settles [OF assms(1) distinct_selectKeys _ assms(2)] assms(3)
    by (simp add: expireLeases_def Let_def leaseExpiredRecord_def expireLeasesLoop_fold)
qed

lemma leaseExpiredRecord_wf:
  assumes "wf_record k r"
  shows "leaseExpiredRecord now r \<longleftrightarrow> r_State r = TaskStateRunning \<and> at_LeaseExpiresAt (last (r_Attempts r)) \<le> now"
  using wf_inflight_facts [OF assms] by (auto simp: leaseExpiredRecord_def)

section \<open>The choice\<close>

text \<open>
  The reference: the first eligible queue position, and the first one of a priority class.
\<close>

definition pick :: "time \<Rightarrow> scheduler_state \<Rightarrow> nat option" where
  "pick now s = find_index (eligible (s_Tasks s) now) 0 (s_Queue s)"

definition pickClass :: "time \<Rightarrow> scheduler_state \<Rightarrow> string \<Rightarrow> nat option" where
  "pickClass now s p = find_index (\<lambda>q. eligible (s_Tasks s) now q \<and> priorityOf (s_Tasks s) q = p) 0 (s_Queue s)"

definition fairnessDue :: "scheduler_state \<Rightarrow> string \<Rightarrow> bool" where
  "fairnessDue s p \<longleftrightarrow>
     0 < g_MaxConsecutiveClaimsPerPriority (s_governance s) \<and> s_lastPriority s = p
     \<and> g_MaxConsecutiveClaimsPerPriority (s_governance s) \<le> s_lastConsecutive s"

definition referenceIndex :: "time \<Rightarrow> scheduler_state \<Rightarrow> nat option \<times> bool" where
  "referenceIndex now s =
     (if g_QoS (s_governance s) \<noteq> QoSModePriority then (pick now s, False)
      else case filter (\<lambda>p. pickClass now s p \<noteq> None) priorityOrder of
             [] \<Rightarrow> (None, False)
           | p # rest \<Rightarrow>
               if fairnessDue s p \<and> rest \<noteq> [] then (pickClass now s (hd rest), True)
               else (pickClass now s p, False))"

lemma normalizedPriority_class: "normalizedPriority p \<in> set priorityOrder"
  by (simp add: normalizedPriority_def priorityOrder_def Let_def)

lemma priorityOf_class: "priorityOf T q \<in> set priorityOrder"
  using normalizedPriority_class by (simp add: priorityOf_def priorityOrder_def split: option.splits)

lemma firstPresent_filter:
  "firstPresent m ps =
     (case filter (\<lambda>p. fmlookup m p \<noteq> None) ps of [] \<Rightarrow> None | p # _ \<Rightarrow> Some (p, the (fmlookup m p)))"
  by (induction ps) (auto split: option.splits)

lemma pick_class_ex:
  assumes "pick now s = Some i"
  shows "\<exists>p \<in> set priorityOrder. pickClass now s p \<noteq> None"
proof -
  have "s_Queue s ! i \<in> set (s_Queue s)" "eligible (s_Tasks s) now (s_Queue s ! i)"
    using assms by (auto simp: pick_def find_index_Some)
  then have "pickClass now s (priorityOf (s_Tasks s) (s_Queue s ! i)) \<noteq> None"
    unfolding pickClass_def find_index_None by blast
  then show ?thesis using priorityOf_class by blast
qed

lemma pick_None_class: "pick now s = None \<Longrightarrow> pickClass now s p = None"
  unfolding pick_def pickClass_def find_index_None by blast

lemma scan_results:
  assumes "scanQueue (s_Tasks s) now 0 (s_Queue s) None fmempty = (f, m)"
  shows "f = pick now s" "fmlookup m = pickClass now s"
  using scanQueue_first [of "s_Tasks s" now 0 "s_Queue s" None fmempty]
    scanQueue_byPriority [of "s_Tasks s" now 0 "s_Queue s" None fmempty] assms
  by (auto simp: pick_def pickClass_def)

lemma distinct_priorityOrder: "distinct priorityOrder"
  by (simp add: priorityOrder_def)

lemma filter_other:
  assumes "filter P xs = p # rest" "distinct xs"
  shows "filter (\<lambda>q. P q \<and> q \<noteq> p) xs = rest"
proof -
  have "filter (\<lambda>q. q \<noteq> p) (filter P xs) = rest"
  proof -
    have "p \<notin> set rest" using assms distinct_filter [OF assms(2), of P] by simp
    then show ?thesis using assms(1) by (simp add: filter_id_conv) blast
  qed
  then show ?thesis by (simp add: conj_commute)
qed

lemma nextClaimableIndex_reference: "nextClaimableIndex now s = referenceIndex now s"
proof -
  obtain f m where sc: "scanQueue (s_Tasks s) now 0 (s_Queue s) None fmempty = (f, m)" by fastforce
  note res = scan_results [OF sc]
  show ?thesis
  proof (cases f)
    case None
    then have "pick now s = None" using res(1) by simp
    then show ?thesis using None sc
      by (simp add: nextClaimableIndex_def referenceIndex_def pick_None_class filter_False)
  next
    case (Some i)
    have ne: "filter (\<lambda>p. pickClass now s p \<noteq> None) priorityOrder \<noteq> []"
      using pick_class_ex [of now s i] res(1) Some by (auto simp: filter_empty_conv)
    then obtain p rest where pr: "filter (\<lambda>p. pickClass now s p \<noteq> None) priorityOrder = p # rest"
      by (cases "filter (\<lambda>p. pickClass now s p \<noteq> None) priorityOrder") auto
    have "\<forall>q \<in> set (p # rest). pickClass now s q \<noteq> None"
      unfolding pr [symmetric] by simp
    then have some: "pickClass now s p \<noteq> None" "rest \<noteq> [] \<longrightarrow> pickClass now s (hd rest) \<noteq> None"
      by simp_all
    have other: "firstPresent m (filter (\<lambda>q. q \<noteq> p) priorityOrder) =
        (case rest of [] \<Rightarrow> None | q # _ \<Rightarrow> Some (q, the (pickClass now s q)))"
      using filter_other [OF pr distinct_priorityOrder]
      by (simp add: firstPresent_filter res(2) conj_commute split: list.splits)
    have first: "firstPresent m priorityOrder = Some (p, the (pickClass now s p))"
      using pr by (simp add: firstPresent_filter res(2) split: list.splits)
    show ?thesis
      using sc Some res(1) pr some
      by (auto simp: nextClaimableIndex_def referenceIndex_def first other fairnessDue_def Let_def split: list.splits)
  qed
qed

section \<open>Claim\<close>

lemma resolve_now_idem [simp]: "resolve_now clk (resolve_now clk now) = resolve_now clk now"
  by (simp add: resolve_now_def)

lemma claim_cases:
  assumes inv: "sched_inv s0" and args: "TrimSpace w \<noteq> []" "0 < lease"
    and now_def: "now = resolve_now clk tm" and s: "s = snd (expireLeases clk now s0)"
  obtains (nothing) "claim clk w tm lease s0 = (Ok None, s)"
      "\<And>k r. fmlookup (s_Tasks s) k = Some r \<Longrightarrow> \<not> isClaimableRecord r now"
  | (task) i yielded k r a where
      "nextClaimableIndex now s = (Some i, yielded)" "i < length (s_Queue s)" "k = s_Queue s ! i"
      "fmlookup (s_Tasks s) k = Some r" "isClaimableRecord r now" "wf_record k r"
      "a = newAttempt k (TrimSpace w) r now lease"
      "claim clk w tm lease s0 =
         (Ok (Some \<lparr>ct_Record = startAttempt a now r, ct_Attempt = a,
                    ct_TaskPriority = normalizedPriority (t_Priority (r_Task r)), ct_FairnessYielded = yielded\<rparr>),
          claimStats yielded r now (storeRecord k (startAttempt a now r) (s\<lparr>s_Queue := remove_index i (s_Queue s)\<rparr>)))"
proof -
  have inv': "sched_inv s" unfolding s using inv by (rule inv_expireLeases)
  obtain oi y where oi: "nextClaimableIndex now s = (oi, y)" by fastforce
  show thesis
  proof (cases oi)
    case None
    have none: "\<not> isClaimableRecord r now" if r: "fmlookup (s_Tasks s) k = Some r" for k r
    proof
      assume c: "isClaimableRecord r now"
      then have "r_State r = TaskStateQueued" by (simp add: isClaimableRecord_def split: if_splits)
      then have k: "k \<in> set (s_Queue s)"
        using inv' r by (auto simp: sched_inv_def queue_ok_def)
      then have "\<not> eligible (s_Tasks s) now k" using nextClaimableIndex_None oi None by simp
      then show False using c r queue_ok_trimmed [OF inv' k] by (simp add: eligible_def)
    qed
    have "claim clk w tm lease s0 = (Ok None, s)"
      using None args oi s by (simp add: claim_def now_def Let_def)
    then show thesis using none by (rule nothing)
  next
    case (Some i)
    let ?k = "s_Queue s ! i"
    have i: "i < length (s_Queue s)" "eligible (s_Tasks s) now ?k"
      using nextClaimableIndex_eligible oi Some by blast+
    have "TrimSpace ?k = ?k" using queue_ok_trimmed inv' i(1) by simp
    then obtain r where r: "fmlookup (s_Tasks s) ?k = Some r" "isClaimableRecord r now"
      using i(2) by (auto simp: eligible_def split: option.splits)
    then have q: "r_State r = TaskStateQueued" by (simp add: isClaimableRecord_def split: if_splits)
    show thesis
      using args oi Some r q s
      by (intro task [OF _ i(1) refl r sched_inv_record [OF inv' r(1)] refl])
        (simp_all add: claim_def now_def Let_def)
  qed
qed

lemma fmlookup_claimed:
  "fmlookup (s_Tasks (claimStats y r now (storeRecord k r' s))) j = (if j = k then Some r' else fmlookup (s_Tasks s) j)"
  by (simp add: claimStats_def storeRecord_def Let_def)

lemma isClaimable_queued: "isClaimableRecord r now \<Longrightarrow> r_State r = TaskStateQueued"
  by (simp add: isClaimableRecord_def split: if_splits)

lemma claim_invalid:
  "TrimSpace w = [] \<or> d \<le> 0 \<Longrightarrow> claim clk w tm d s =
     (Err (ErrInvalid (if TrimSpace w = [] then WorkerIDRequired else LeaseTimeoutNotPositive)), s)"
  by (auto simp: claim_def Let_def)

lemma claim_keeps_valid_lease:
  assumes inv: "sched_inv s0" and r: "fmlookup (s_Tasks s0) k = Some r" "r_State r = TaskStateRunning"
    and lease: "resolve_now clk tm < at_LeaseExpiresAt (last (r_Attempts r))"
    and c: "claim clk w tm d s0 = (res, s')"
  shows "fmlookup (s_Tasks s') k = Some r"
    and "res = Ok (Some ct) \<Longrightarrow> t_TaskID (r_Task (ct_Record ct)) \<noteq> k"
proof -
  let ?now = "resolve_now clk tm"
  let ?s = "snd (expireLeases clk ?now s0)"
  have keep: "fmlookup (s_Tasks ?s) k = Some r"
    using expireLeases_keeps [OF r(1), of clk ?now] leaseExpiredRecord_wf [OF sched_inv_record [OF inv r(1)]] lease
    by simp
  have *: "fmlookup (s_Tasks s') k = Some r \<and> (\<forall>ct. res = Ok (Some ct) \<longrightarrow> t_TaskID (r_Task (ct_Record ct)) \<noteq> k)"
  proof (cases "TrimSpace w \<noteq> [] \<and> 0 < d")
    case True
    then have args: "TrimSpace w \<noteq> []" "0 < d" by simp_all
    show ?thesis
    proof (cases rule: claim_cases [OF inv args refl refl, of clk tm, case_names nothing task])
      case nothing
      then show ?thesis using c keep by simp
    next
      case (task i y j q a)
      then have "j \<noteq> k" using keep r(2) isClaimable_queued by auto
      moreover have "t_TaskID (r_Task (startAttempt a ?now q)) = j"
        using wf_record_key [OF task(6)] by (simp add: startAttempt_def)
      ultimately show ?thesis
        using task(8) c keep by (auto simp: fmlookup_claimed)
    qed
  next
    case False
    then show ?thesis using c r(1) claim_invalid [of w d] by auto
  qed
  show "fmlookup (s_Tasks s') k = Some r" using * by blast
  show "res = Ok (Some ct) \<Longrightarrow> t_TaskID (r_Task (ct_Record ct)) \<noteq> k" using * by blast
qed

lemma claim_result:
  assumes inv: "sched_inv s0" and c: "claim clk w tm lease s0 = (Ok (Some ct), s')"
  shows "\<exists>k. t_TaskID (r_Task (ct_Record ct)) = k \<and> fmlookup (s_Tasks s') k = Some (ct_Record ct)
    \<and> r_State (ct_Record ct) = TaskStateRunning
    \<and> last (r_Attempts (ct_Record ct)) = ct_Attempt ct
    \<and> r_CurrentAttempt (ct_Record ct) = at_AttemptID (ct_Attempt ct)
    \<and> at_WorkerID (ct_Attempt ct) = TrimSpace w
    \<and> at_LeaseExpiresAt (ct_Attempt ct) = resolve_now clk tm + lease
    \<and> at_WorkspaceProvenance (ct_Attempt ct) = t_WorkspaceProvenance (r_Task (ct_Record ct))
    \<and> sched_inv s'"
proof -
  have args: "TrimSpace w \<noteq> []" "0 < lease" using c by (auto simp: claim_def Let_def split: if_splits)
  have s': "sched_inv s'" using inv_claim [OF inv, of clk w tm lease] c by simp
  show ?thesis
  proof (cases rule: claim_cases [OF inv args refl refl, of clk tm, case_names nothing task])
    case nothing
    then show ?thesis using c by simp
  next
    case (task i y k r a)
    then show ?thesis
      using c s' wf_record_key [OF task(6)]
      by (auto simp: fmlookup_claimed startAttempt_def newAttempt_def Let_def)
  qed
qed

section \<open>The queue without manual control\<close>

text \<open>
  Without manual control the queue holds each queued task exactly once and nothing else, which is
  what \<open>restore\<close> requires of a snapshot. A step of this relation is any operation but
  \<open>controlTask\<close>.
\<close>

inductive core_step :: "scheduler_state \<Rightarrow> scheduler_state \<Rightarrow> bool" where
  core_enqueue: "core_step s (snd (enqueue clk t now s))"
| core_claim: "core_step s (snd (claim clk workerID now lease s))"
| core_heartbeat: "core_step s (snd (heartbeat clk tid aid tok now lease s))"
| core_await: "0 < clk \<Longrightarrow> 0 \<le> now \<Longrightarrow> core_step s (snd (markAwaitingReport clk tid aid remote now timeout s))"
| core_expireLeases: "core_step s (snd (expireLeases clk now s))"
| core_expireReports: "core_step s (snd (expireAwaitingReports clk now s))"
| core_requeue: "core_step s (snd (requeue clk tid now s))"
| core_commit: "core_step s (snd (commitTerminal clk c s))"
| core_commitAsync: "core_step s (snd (commitAsyncReportTerminal clk c s))"
| core_config: "s' \<in> {recordAsyncReconcileStats p e s, setGovernance gcfg s, setRecoveryBoundary rcfg s,
                        setAsyncAwait acfg s, setTaskBoardControl ccfg s} \<Longrightarrow> core_step s s'"

lemma core_step_sched: "core_step s t \<Longrightarrow> sched_step s t"
  by (induction rule: core_step.induct) (auto intro: sched_step.intros)

lemma clean_same:
  assumes "queue_clean s" "fmlookup (s_Tasks s) k = Some r" "r_State r \<noteq> TaskStateQueued"
    "s_Tasks s' = fmupd k r' (s_Tasks s)" "s_Queue s' = s_Queue s"
  shows "queue_clean s'"
  using assms by (auto simp: queue_clean_def split: if_splits)

lemma clean_append:
  assumes "queue_clean s" "\<And>r. fmlookup (s_Tasks s) k = Some r \<Longrightarrow> r_State r \<noteq> TaskStateQueued"
    "r_State r' = TaskStateQueued" "s_Tasks s' = fmupd k r' (s_Tasks s)" "s_Queue s' = s_Queue s @ [k]"
  shows "queue_clean s'"
  using assms by (auto simp: queue_clean_def split: option.splits)

lemma clean_frame [simp]:
  "queue_clean (s\<lparr>s_Stats := st\<rparr>) = queue_clean s" "queue_clean (s\<lparr>s_governance := g\<rparr>) = queue_clean s"
  "queue_clean (s\<lparr>s_recoveryBoundary := rb\<rparr>) = queue_clean s" "queue_clean (s\<lparr>s_asyncAwait := aa\<rparr>) = queue_clean s"
  "queue_clean (s\<lparr>s_taskBoardControl := cc\<rparr>) = queue_clean s"
  "queue_clean (s\<lparr>s_TerminalCommits := C, s_Stats := st\<rparr>) = queue_clean s"
  "queue_clean (s\<lparr>s_Stats := st, s_governance := g\<rparr>) = queue_clean s"
  by (simp_all add: queue_clean_def)

lemma clean_enqueue: "queue_clean s \<Longrightarrow> queue_clean (snd (enqueue clk t now s))"
  by (auto simp: enqueue_def Let_def newRecord_def queue_clean_def split: sum.splits option.splits)

lemma clean_handleRetryTransition:
  assumes "queue_clean s" "fmlookup (s_Tasks s) k = Some r" "r_State r = TaskStateRunning"
  shows "queue_clean (snd (handleRetryTransition k r y now s))"
proof -
  let ?r' = "fst (handleRetryTransition k r y now s)" and ?s' = "snd (handleRetryTransition k r y now s)"
  have t: "s_Tasks ?s' = fmupd k ?r' (s_Tasks s)" by (simp add: handleRetryTransition_def Let_def storeRecord_def)
  have "s_Queue ?s' = s_Queue s \<or> s_Queue ?s' = s_Queue s @ [k] \<and> r_State ?r' = TaskStateQueued"
    by (simp add: handleRetryTransition_def Let_def storeRecord_def)
  then show ?thesis
    using clean_same [OF assms(1,2) _ t] clean_append [OF assms(1) _ _ t] assms(2,3) by auto
qed

lemma clean_leaseStep: "queue_clean s \<Longrightarrow> queue_clean (leaseStep now k s)"
  using clean_handleRetryTransition [of s k]
  by (auto simp: leaseStep_def Let_def split: option.splits)

lemma clean_fold: "queue_clean s \<Longrightarrow> queue_clean (fold (leaseStep now) ids s)"
  by (induction ids arbitrary: s) (auto intro: clean_leaseStep)

lemma clean_expireLeases: "queue_clean s \<Longrightarrow> queue_clean (snd (expireLeases clk now s))"
  by (simp add: expireLeases_def Let_def expireLeasesLoop_fold clean_fold)

lemma clean_requeue: "queue_clean s \<Longrightarrow> queue_clean (snd (requeue clk tid now s))"
  using clean_handleRetryTransition [of s "TrimSpace tid"]
  by (auto simp: requeue_def Let_def case_prod_beta split: option.splits)

lemma clean_claim:
  assumes inv: "sched_inv s0" and clean: "queue_clean s0"
  shows "queue_clean (snd (claim clk w tm lease s0))"
proof (cases "TrimSpace w \<noteq> [] \<and> 0 < lease")
  case True
  then have args: "TrimSpace w \<noteq> []" "0 < lease" by simp_all
  let ?now = "resolve_now clk tm"
  let ?s = "snd (expireLeases clk ?now s0)"
  have c: "queue_clean ?s" using clean by (rule clean_expireLeases)
  show ?thesis
  proof (cases rule: claim_cases [OF inv args refl refl, of clk tm, case_names nothing task])
    case nothing
    then show ?thesis using c by simp
  next
    case (task i y k r a)
    have "k \<notin> set (remove_index i (s_Queue ?s))"
      using distinct_remove_index_nth [of "s_Queue ?s" i] task(2,3) c by (simp add: queue_clean_def)
    then have "queue_clean (claimStats y r ?now (storeRecord k (startAttempt a ?now r) (?s\<lparr>s_Queue := remove_index i (s_Queue ?s)\<rparr>)))"
      using c set_remove_index_subset [of i "s_Queue ?s"]
      by (auto simp: queue_clean_def claimStats_def storeRecord_def Let_def intro: distinct_remove_index)
    then show ?thesis using task(8) by simp
  qed
next
  case False
  then show ?thesis using clean claim_invalid [of w lease] by auto
qed

lemma clean_heartbeat: "queue_clean s \<Longrightarrow> queue_clean (snd (heartbeat clk tid aid tok now lease s))"
  by (auto simp: heartbeat_def Let_def storeRecord_def split: option.splits intro: clean_same)

lemma clean_markAwaitingReport:
  "queue_clean s \<Longrightarrow> queue_clean (snd (markAwaitingReport clk tid aid remote now timeout s))"
  by (auto simp: markAwaitingReport_def Let_def storeRecord_def split: option.splits intro: clean_same)

lemma clean_applyTerminalCommit:
  assumes "queue_clean s" "fmlookup (s_Tasks s) (c_TaskID c) = Some r" "r_State r \<noteq> TaskStateQueued"
  shows "queue_clean (snd (applyTerminalCommit r c s))"
  using assms
  by (auto simp: applyTerminalCommit_def Let_def storeRecord_def split: option.splits intro: clean_same)

lemma clean_commitTerminal: "queue_clean s \<Longrightarrow> queue_clean (snd (commitTerminal clk c s))"
  using clean_applyTerminalCommit
  by (auto simp: commitTerminal_def bumpDuplicate_def split: sum.splits option.splits)

lemma clean_flagConflict:
  assumes "queue_clean s" "fmlookup (s_Tasks s) k = Some r"
  shows "queue_clean (snd (flagConflict b k r s))"
  using assms by (auto simp: flagConflict_def Let_def storeRecord_def queue_clean_def split: option.splits)

lemma clean_commitAsync: "queue_clean s \<Longrightarrow> queue_clean (snd (commitAsyncReportTerminal clk c s))"
  using clean_applyTerminalCommit [of s] clean_flagConflict [of "bumpDuplicate s"]
  by (auto simp: commitAsyncReportTerminal_def Let_def bumpDuplicate_def case_prod_beta
      split: sum.splits option.splits)

lemma clean_expireReportsLoop: "queue_clean s \<Longrightarrow> queue_clean (snd (expireReportsLoop now ids s))"
proof (induction ids arbitrary: s)
  case (Cons k ids)
  have "queue_clean (snd (expireReport k r y now s))"
    if "fmlookup (s_Tasks s) k = Some r" "r_State r = TaskStateAwaitingReport" for r y
    using clean_same [OF Cons.prems that(1)] that(2) by (simp add: expireReport_def Let_def storeRecord_def)
  then show ?case using Cons by (auto simp: Let_def case_prod_beta split: option.splits)
qed simp

lemma clean_expireReports: "queue_clean s \<Longrightarrow> queue_clean (snd (expireAwaitingReports clk now s))"
  by (simp add: expireAwaitingReports_def Let_def clean_expireReportsLoop)

lemmas clean_ops = clean_enqueue clean_claim clean_heartbeat clean_markAwaitingReport clean_expireLeases
  clean_expireReports clean_requeue clean_commitTerminal clean_commitAsync

lemma core_step_clean: "core_step s t \<Longrightarrow> sched_inv s \<and> queue_clean s \<Longrightarrow> sched_inv t \<and> queue_clean t"
proof -
  assume st: "core_step s t" and i: "sched_inv s \<and> queue_clean s"
  have "queue_clean t"
    using st i
    by (induction rule: core_step.induct)
      (auto simp: clean_ops recordAsyncReconcileStats_def setGovernance_def setRecoveryBoundary_def
         setAsyncAwait_def setTaskBoardControl_def Let_def)
  then show "sched_inv t \<and> queue_clean t" using sched_step_inv [OF core_step_sched [OF st]] i by blast
qed

interpretation core: invariant_system sched_init core_step "\<lambda>s. sched_inv s \<and> queue_clean s"
proof unfold_locales
  show "sched_inv s \<and> queue_clean s" if "sched_init s" for s
    using sched_init_inv [OF that] that by (auto simp: sched_init_def newSchedulerState_def queue_clean_def)
qed (rule core_step_clean)

section \<open>Fairness\<close>

lemma leaseStep_keeps:
  "s_governance (leaseStep now k s) = s_governance s" "s_lastPriority (leaseStep now k s) = s_lastPriority s"
  "s_lastConsecutive (leaseStep now k s) = s_lastConsecutive s" "set (s_Queue s) \<subseteq> set (s_Queue (leaseStep now k s))"
  by (auto simp: leaseStep_def Let_def handleRetryTransition_def storeRecord_def split: option.splits if_splits)

lemma fold_leaseStep_frame:
  "s_governance (fold (leaseStep now) ids s) = s_governance s" "s_lastPriority (fold (leaseStep now) ids s) = s_lastPriority s"
  "s_lastConsecutive (fold (leaseStep now) ids s) = s_lastConsecutive s"
  "set (s_Queue s) \<subseteq> set (s_Queue (fold (leaseStep now) ids s))"
proof (induction ids arbitrary: s)
  case (Cons k ids)
  { case 1 show ?case using Cons(1) leaseStep_keeps by simp }
  { case 2 show ?case using Cons(2) leaseStep_keeps by simp }
  { case 3 show ?case using Cons(3) leaseStep_keeps by simp }
  { case 4 show ?case using Cons(4) [of "leaseStep now k s"] leaseStep_keeps(4) [of s now k] by simp }
qed simp_all

text \<open>A class that is due to yield is not chosen while another one is present.\<close>

lemma reference_not_last:
  assumes "g_QoS (s_governance s) = QoSModePriority" "fairnessDue s p" "referenceIndex now s = (Some i, y)"
    and "pickClass now s p' \<noteq> None" "p' \<noteq> p"
  shows "priorityOf (s_Tasks s) (s_Queue s ! i) \<noteq> p"
proof -
  have ord: "p' \<in> set priorityOrder"
    using assms(4) priorityOf_class by (fastforce simp: pickClass_def find_index_Some)
  let ?f = "filter (\<lambda>p. pickClass now s p \<noteq> None) priorityOrder"
  have p': "p' \<in> set ?f" using ord assms(4) by simp
  then obtain h rest where f: "?f = h # rest" by (metis list.set_cases)
  have mem: "p' \<in> set (h # rest)" using p' unfolding f .
  have dist: "distinct (h # rest)" using distinct_priorityOrder distinct_filter f by metis
  obtain c where c: "pickClass now s c = Some i" "c \<noteq> p"
  proof (cases "h = p")
    case True
    then have "rest \<noteq> []" using mem assms(5) by auto
    moreover from this have "hd rest \<noteq> p" using dist True by (cases rest) auto
    ultimately show thesis
      using that [of "hd rest"] assms(1,2,3) f True by (simp add: referenceIndex_def)
  next
    case False
    then have "\<not> fairnessDue s h" using assms(2) by (auto simp: fairnessDue_def)
    then show thesis using that [of h] False assms(1,3) f by (simp add: referenceIndex_def)
  qed
  then show ?thesis by (auto simp: pickClass_def find_index_Some)
qed

section \<open>The control log\<close>

lemma applyControl_logged:
  assumes "applyControl act tid r op now s = (Ok res, s')"
  shows "fmlookup (s_ControlOps s') op = Some res \<and> \<not> k_Deduplicated res"
  using assms
  by (auto simp: applyControl_def applyManualCancel_def applyManualRetry_def Let_def controlApplied_def
      split: control_action.splits sum.splits prod.splits if_splits option.splits)

lemma control_logged:
  assumes "controlTask clk req now s = (Ok res, s')"
  shows "\<exists>k. fmlookup (s_ControlOps s') (TrimSpace (q_OperationID req)) = Some k
    \<and> k_TaskID k = k_TaskID res \<and> k_Action k = k_Action res \<and> k\<lparr>k_Deduplicated := True\<rparr> = res\<lparr>k_Deduplicated := True\<rparr>"
  using assms
  by (auto simp: controlTask_def Let_def split: if_splits sum.splits option.splits dest!: applyControl_logged)

end
