(* ===== verification/Scheduler_Demo.thy ===== *)
theory Scheduler_Demo
  imports Scheduler_Claims
begin

text \<open>
  A concrete run of the state machine for the witnesses of the properties: a task is enqueued
  (\<open>demo_queued\<close>), claimed (\<open>demo_running\<close>) and committed (\<open>demo_done\<close>).
\<close>

section \<open>A concrete run\<close>

definition demo_task :: task where
  "demo_task =
     \<lparr>t_DispatchBinding = [], t_TaskID = ''task-1'', t_RunID = ''run-1'', t_WorkflowID = [], t_TeamID = [],
      t_StepID = [], t_AgentID = [], t_PeerID = [], t_ParentRunID = [], t_Priority = [], t_Payload = fmempty,
      t_MaxAttempts = 2, t_NotBefore = 0,
      t_TimeoutResolution = \<lparr>tr_EffectiveOperationProfile = [], tr_Source = [], tr_Trace = [],
        tr_ResolvedTimeout = 0, tr_ParentBudgetClamped = False\<rparr>,
      t_WorkspaceProvenance = None\<rparr>"

definition demo_empty :: scheduler_state where
  "demo_empty = newSchedulerState ''memory''"

definition demo_queued :: scheduler_state where
  "demo_queued = snd (enqueue 5 demo_task 10 demo_empty)"

definition demo_running :: scheduler_state where
  "demo_running = snd (claim 5 ''worker-1'' 20 100 demo_queued)"

definition demo_commit :: "string \<Rightarrow> terminal_commit" where
  "demo_commit aid =
     \<lparr>c_TaskID = ''task-1'', c_AttemptID = aid, c_Status = TaskStateSucceeded, c_Source = [],
      c_RemoteTaskID = [], c_Result = fmempty, c_ErrorMessage = [], c_ErrorClass = [], c_ErrorLayer = [],
      c_OutcomeKey = [], c_CommittedAt = 30, c_WorkspaceProvenance = None\<rparr>"

definition demo_done :: scheduler_state where
  "demo_done = snd (commitTerminal 5 (demo_commit ''task-1-attempt-1'') demo_running)"

lemma not_isl_Ok: "\<not> isl x \<Longrightarrow> \<exists>v. x = Ok v"
  by (cases x) auto

lemma Ok_result:
  assumes "\<not> isl (fst x)" "snd x = s"
  obtains v where "x = (Ok v, s)"
  using assms not_isl_Ok [of "fst x"] by (cases x) auto

lemma reach_demo_empty: "reach sched_init sched_step demo_empty"
  by (rule reach_init) (simp add: sched_init_def demo_empty_def)

lemma reach_demo_queued: "reach sched_init sched_step demo_queued"
  unfolding demo_queued_def by (rule reach_step [OF reach_demo_empty step_enqueue])

lemma reach_demo_running: "reach sched_init sched_step demo_running"
  unfolding demo_running_def by (rule reach_step [OF reach_demo_queued step_claim])

lemma reach_demo_done: "reach sched_init sched_step demo_done"
  unfolding demo_done_def by (rule reach_step [OF reach_demo_running step_commit])

lemmas demo_inv =
  sched.reach_invar [OF reach_demo_empty] sched.reach_invar [OF reach_demo_queued]
  sched.reach_invar [OF reach_demo_running] sched.reach_invar [OF reach_demo_done]

lemma core_demo_running: "reach sched_init core_step demo_running"
proof -
  have "reach sched_init core_step demo_empty" by (rule reach_init) (simp add: sched_init_def demo_empty_def)
  then have "reach sched_init core_step demo_queued" unfolding demo_queued_def by (rule reach_step) (rule core_enqueue)
  then show ?thesis unfolding demo_running_def by (rule reach_step) (rule core_claim)
qed

end
