(* ===== verification/Scheduler_Backoff.thy ===== *)
theory Scheduler_Backoff
  imports Scheduler_State
begin

text \<open>
  Bounds on the delay before a retried task becomes eligible again (\<open>retryDelay\<close> of
  \<open>state.go\<close>). The computation is in \<open>float64\<close>: the exponential growth may overflow to
  infinity and is then cut to the maximum, and the jitter, drawn from a hash of the attempt, is
  clamped into the range from zero to the maximum.
\<close>

section \<open>Growth\<close>

text \<open>A delay during the growth loop: a value of at least one nanosecond, or infinity.\<close>

fun grown :: "f64 \<Rightarrow> bool" where
  "grown (F64 r) = (1 \<le> r)"
| "grown (F64Inf s) = (\<not> s)"
| "grown F64NaN = False"

lemma floor_le_round_half_even: "\<lfloor>q\<rfloor> \<le> round_half_even q"
  by (simp add: round_half_even_def Let_def)

lemma grown_round:
  assumes "1 \<le> q"
  shows "grown (f64_round q)"
proof -
  define e where "e = max (ilog2 q - 52) (- 1074)"
  define r :: rat where "r = of_int (round_half_even (q / 2 powi e)) * 2 powi e"
  have l: "2 powi ilog2 q \<le> q" using ilog2_bounds [of q] assms by auto
  have "1 \<le> r"
  proof (cases "e \<le> 0")
    case True
    then have p: "(2::rat) powi e = inverse (2 ^ nat (- e))"
      by (cases "e = 0") (simp_all add: power_int_def power_inverse power_one_over inverse_eq_divide)
    have "q / 2 powi e = q * 2 ^ nat (- e)" unfolding p by (simp only: divide_inverse inverse_inverse_eq)
    then have "of_int (2 ^ nat (- e)) \<le> q / 2 powi e" using assms by simp
    then have "2 ^ nat (- e) \<le> \<lfloor>q / 2 powi e\<rfloor>" by (simp add: le_floor_iff)
    then have "2 ^ nat (- e) \<le> round_half_even (q / 2 powi e)"
      using floor_le_round_half_even order_trans by blast
    then have "(of_int (2 ^ nat (- e)) :: rat) \<le> of_int (round_half_even (q / 2 powi e))" by (simp only: of_int_le_iff)
    then have "of_int (2 ^ nat (- e)) * inverse (2 ^ nat (- e)) \<le> r"
      unfolding r_def p by (intro mult_right_mono) simp_all
    then show ?thesis by simp
  next
    case False
    then have e: "e = ilog2 q - 52" by (simp add: e_def)
    have "(2::rat) powi e \<le> 2 powi ilog2 q" using e by (intro power_int_increasing) simp_all
    then have "2 powi e \<le> q" using l by simp
    then have "1 \<le> q / 2 powi e" by simp
    then have "1 \<le> \<lfloor>q / 2 powi e\<rfloor>" by simp
    then have "(1::rat) \<le> of_int (round_half_even (q / 2 powi e))"
      using floor_le_round_half_even order_trans by (metis of_int_1_le_iff)
    moreover have "(1::rat) \<le> 2 powi e" using False by simp
    ultimately show ?thesis unfolding r_def using mult_mono [of 1 _ 1 "2 powi e :: rat"] by simp
  qed
  moreover have "f64_round q = (if 2 ^ 1024 \<le> r then F64Inf False else F64 r)"
    using assms by (simp add: f64_round_def Let_def e_def r_def)
  ultimately show ?thesis by simp
qed

lemma grown_mul:
  assumes "grown x" "grown y"
  shows "grown (f64_mul x y)"
proof -
  have "1 \<le> a * b" if "1 \<le> a" "1 \<le> b" for a b :: rat
    using mult_mono [of 1 a 1 b] that by simp
  then show ?thesis using assms by (cases x; cases y) (auto intro: grown_round)
qed

lemma grown_iterate: "grown m \<Longrightarrow> grown x \<Longrightarrow> grown (((\<lambda>d. f64_mul d m) ^^ n) x)"
  by (induction n) (auto intro: grown_mul)

text \<open>Cutting a grown delay to a maximum of at least one.\<close>

lemma grown_cut:
  assumes "grown x" "1 \<le> n" "n \<le> 2 ^ 53"
  shows "let d = f64_to_int64 (if f64_less (F64 (of_int n)) x then F64 (of_int n) else x) in 1 \<le> d \<and> d \<le> n"
proof -
  have n: "n < 2 ^ 63" using assms(3) by (rule order.strict_trans1) simp
  have *: "1 \<le> f64_to_int64 (F64 r) \<and> f64_to_int64 (F64 r) \<le> n" if "1 \<le> r" "r \<le> of_int n" for r
  proof -
    have "1 \<le> \<lfloor>r\<rfloor>" "\<lfloor>r\<rfloor> \<le> n" using that by (simp_all add: floor_le_iff)
    then show ?thesis using n that by (simp add: trunc_def)
  qed
  have "1 \<le> (of_int n :: rat)" using assms(2) by simp
  then show ?thesis using assms(1) * [of "of_int n"] * by (cases x) (auto simp: Let_def)
qed

section \<open>The delay\<close>

definition backoff_ok :: "backoff_config \<Rightarrow> bool" where
  "backoff_ok b \<longleftrightarrow>
     0 < bo_Initial b \<and> bo_Initial b \<le> bo_Max b \<and> bo_Max b \<le> 2 ^ 53
     \<and> grown (bo_Multiplier b)"

lemma grown_clamped: "x \<noteq> F64NaN \<Longrightarrow> grown (if f64_less x (F64 1) then F64 1 else x)"
  by (cases x) auto

lemma normalizeBackoff_ok:
  assumes "bo_Multiplier b \<noteq> F64NaN" "bo_Max (normalizeBackoff b) \<le> 2 ^ 53"
  shows "backoff_ok (normalizeBackoff b)"
  using assms grown_clamped [of "bo_Multiplier b"]
  by (auto simp: backoff_ok_def normalizeBackoff_def Let_def duration_defs)

lemma retryDelay_range:
  assumes "backoff_ok b"
  shows "0 \<le> retryDelay b tid a \<and> retryDelay b tid a \<le> bo_Max b"
proof (cases "bo_Enabled b")
  case True
  have b: "0 < bo_Initial b" "1 \<le> bo_Initial b" "bo_Initial b \<le> 2 ^ 53" "1 \<le> bo_Max b" "bo_Max b \<le> 2 ^ 53"
    "grown (bo_Multiplier b)"
    using assms by (auto simp: backoff_ok_def)
  have ex: "f64_of_int (bo_Initial b) = F64 (of_int (bo_Initial b))" "f64_of_int (bo_Max b) = F64 (of_int (bo_Max b))"
    using b by (simp_all add: f64_of_int_exact)
  have g: "grown (((\<lambda>d. f64_mul d (bo_Multiplier b)) ^^ n) (F64 (of_int (bo_Initial b))))" for n
    using b by (intro grown_iterate) simp_all
  have m: "\<not> f64_less (bo_Multiplier b) (F64 1)" using b(6) by (cases "bo_Multiplier b") auto
  define n where "n = (if at_Attempt a \<le> 0 then 1 else at_Attempt a)"
  define df where "df = ((\<lambda>d. f64_mul d (bo_Multiplier b)) ^^ nat (n - 1)) (F64 (of_int (bo_Initial b)))"
  define d where "d = f64_to_int64 (if f64_less (F64 (of_int (bo_Max b))) df then F64 (of_int (bo_Max b)) else df)"
  define jr where "jr = f64_to_int64 (f64_mul (f64_of_int d) (bo_JitterRatio b))"
  define seed where "seed = stableRetryJitterSeed tid (at_AttemptID a) (at_Attempt a)"
  define w where "w = wrap64 (d + jitter_offset seed jr)"
  have "1 \<le> d \<and> d \<le> bo_Max b"
    using grown_cut [OF g b(4,5), of "nat (n - 1)"] unfolding Let_def df_def [symmetric] d_def [symmetric] .
  then have d: "1 \<le> d" "d \<le> bo_Max b" by simp_all
  have eq: "retryDelay b tid a =
      (if f64_le (bo_JitterRatio b) (F64 0) \<or> jr \<le> 0 then d
       else if bo_Max b < (if w < 0 then 0 else w) then bo_Max b else (if w < 0 then 0 else w))"
    using True b(1,2,4) ex m
    by (simp add: retryDelay_def Let_def n_def df_def d_def jr_def seed_def w_def)
  show ?thesis unfolding eq using d b(4) by (auto simp: not_less)
next
  case False
  then show ?thesis using assms by (simp add: retryDelay_def backoff_ok_def)
qed

end
