(* ===== verification/Scheduler_Restore.thy ===== *)
theory Scheduler_Restore
  imports Scheduler_Ledger
begin

text \<open>
  What \<open>restore\<close> makes of a snapshot that a store has taken: it accepts the snapshot exactly when the
  queue lists queued tasks only, each once, and the provenance of every task is that of its own run and
  step, and then the store is as well formed as the one the snapshot was taken from.
  \<open>scheduler_from\<close> are the states that the operations of a store reach with \<open>Restore\<close> among them,
  as long as what is restored are snapshots of such states.
\<close>

section \<open>Which snapshots are accepted\<close>

lemma restoreQueue_accepts:
  assumes "restoreQueue T seen qs = Ok out" "\<forall>q \<in> set qs. trimmed q \<and> q \<noteq> []"
  shows "distinct qs \<and> set seen \<inter> set qs = {} \<and> (\<forall>q \<in> set qs. \<exists>r. fmlookup T q = Some r \<and> r_State r = TaskStateQueued)"
  using assms
proof (induction qs arbitrary: seen out)
  case (Cons q qs)
  then have q: "TrimSpace q = q" "q \<noteq> []" by auto
  obtain r out' where r: "fmlookup T q = Some r" "r_State r = TaskStateQueued" "q \<notin> set seen"
      "restoreQueue T (q # seen) qs = Ok out'"
    using Cons.prems(1) q by (auto simp: Let_def split: option.splits if_splits sum.splits)
  then show ?case using Cons.IH [OF r(4)] Cons.prems(2) by auto
qed simp

lemma restoreTasks_linked:
  assumes "restoreTasks rb i rs acc = Ok T'" "\<forall>r \<in> set rs. \<exists>k. wf_record k r"
  shows "\<forall>r \<in> set rs. validateTaskWorkspaceBinding (r_Task r) 0 = None"
  using assms
proof (induction rs arbitrary: i acc)
  case (Cons r rs)
  then obtain r' k where r': "restoreRecord rb acc i r = Ok r'" "wf_record k r"
      "restoreTasks rb (Suc i) rs (fmupd (TrimSpace (t_TaskID (r_Task r))) r' acc) = Ok T'"
    by (auto split: sum.splits)
  have "normalizeTask (r_Task r) = Ok (r_Task r)" using r'(2) by (simp add: wf_record_def wf_task_def)
  then have "validateTaskWorkspaceBinding (r_Task r) i = None"
    using r'(1) by (auto simp: restoreRecord_def Let_def split: if_splits option.splits)
  then show ?case using Cons.IH [OF r'(3)] Cons.prems(2) validateTask_index by auto
qed simp

lemma restore_accepts:
  assumes inv: "sched_inv t" and ok: "fst (restore (snapshot t) s) = Ok ()"
  shows "queue_clean t \<and> provenance_linked t"
proof -
  obtain T' Q where T': "restoreTasks (s_recoveryBoundary s) 0 (sn_Tasks (snapshot t)) fmempty = Ok T'"
      "restoreQueue T' [] (s_Queue t) = Ok Q"
    using ok by (auto simp: restore_def snapshot_def split: sum.splits)
  have wf: "wf_record k r" if "fmlookup (s_Tasks t) k = Some r" for k r using inv that by (rule sched_inv_record)
  have mem: "r \<in> set (sn_Tasks (snapshot t)) \<longleftrightarrow> (\<exists>k. fmlookup (s_Tasks t) k = Some r)" for r
    by (simp add: snapshot_def sorted_values_mem)
  have "\<forall>r \<in> set (sn_Tasks (snapshot t)). \<exists>k. wf_record k r" using wf mem by blast
  from restoreTasks_linked [OF T'(1) this] have linked: "provenance_linked t"
    using mem by (auto simp: provenance_linked_def fmpred_iff)
  have "fmlookup (s_Tasks t) q \<noteq> None" if "q \<in> set (s_Queue t)" for q
    using inv that by (auto simp: sched_inv_def queue_ok_def)
  then have names: "\<forall>q \<in> set (s_Queue t). trimmed q \<and> q \<noteq> []" using wf wf_record_key by blast
  have state: "r_State r = TaskStateQueued" if "q \<in> set (s_Queue t)" "fmlookup (s_Tasks t) q = Some r" for q r
  proof -
    have "TrimSpace (t_TaskID (r_Task r)) = q" using wf_record_key [OF wf [OF that(2)]] by simp
    moreover have "r \<in> set (sn_Tasks (snapshot t))" using mem that(2) by blast
    ultimately obtain r' where "fmlookup T' q = Some r'" "r_State r' = r_State r"
      using restoreTasks_acc [OF T'(1)] by blast
    then show ?thesis using restoreQueue_accepts [OF T'(2) names] that(1) by auto
  qed
  have "queue_clean t"
    using restoreQueue_accepts [OF T'(2) names] inv state
    by (auto simp: queue_clean_def sched_inv_def queue_ok_def split: option.splits)
  then show ?thesis using linked by simp
qed

lemma restore_cases: "(\<exists>s'. restore sn s = (Ok (), s')) \<or> (\<exists>e. restore sn s = (Err (ErrSnapshotCorrupt e), s))"
  by (auto simp: restore_def split: sum.split)

lemma restore_snapshot:
  assumes "sched_inv t"
  shows "if queue_clean t \<and> provenance_linked t then restore (snapshot t) s = (Ok (), adopt t s)
    else (\<exists>e. restore (snapshot t) s = (Err (ErrSnapshotCorrupt e), s))"
proof (cases "queue_clean t \<and> provenance_linked t")
  case True
  then show ?thesis using restore_wf [OF assms] by simp
next
  case False
  then show ?thesis using restore_accepts [OF assms, of s] restore_cases [of "snapshot t" s] by auto
qed

section \<open>Restoring keeps the invariant\<close>

text \<open>
  The statistics name the queueing mode of the store the snapshot was taken from, so they describe the
  store that restores it only if it has the same mode.
\<close>

lemma inv_adopt:
  assumes t: "sched_inv t" and s: "sched_inv s" and mode: "g_QoS (s_governance t) = g_QoS (s_governance s)"
  shows "sched_inv (adopt t s)"
proof -
  let ?T = "fmmap canon_record (s_Tasks t)" and ?C = "fmmap canon_commit (s_TerminalCommits t)"
  note parts = t [unfolded sched_inv_def]
  have "tasks_ok ?T" using parts wf_canon_record by (auto simp: tasks_ok_def fmpred_iff)
  moreover have "queue_ok ?T (s_Queue t)" using parts by (auto simp: queue_ok_def fmpred_iff canon_record_same)
  moreover have "commit_ok ?T key (canon_commit c)" if "commit_ok (s_Tasks t) key c" for key c
    using that by (auto simp: commit_ok_def commit_text_ok_def canon_commit_def commit_status_def canon_record_same split: option.splits)
  then have "fmpred (commit_ok ?T) ?C" using parts by (auto simp: ledger_ok_def fmpred_iff)
  moreover have "success_ok ?C k (canon_record r)" if "success_ok (s_TerminalCommits t) k r" for k r
    using that by (fastforce simp: success_ok_def canon_record_same canon_commit_def split: option.splits)
  then have "fmpred (success_ok ?C) ?T" using parts by (auto simp: ledger_ok_def fmpred_iff)
  moreover have "control_ok ?T (s_ControlOps t)" using parts by (auto simp: control_ok_def control_entry_def fmpred_iff)
  moreover have "config_ok (adopt t s)" using s by (simp add: sched_inv_def config_ok_def adopt_def)
  moreover have "stats_ok (adopt t s)" using parts mode by (simp add: stats_ok_def adopt_def)
  ultimately show ?thesis by (simp add: sched_inv_def ledger_ok_def adopt_def)
qed

lemma inv_restore:
  assumes "sched_inv t" "sched_inv s" "g_QoS (s_governance t) = g_QoS (s_governance s)"
  shows "sched_inv (snd (restore (snapshot t) s))"
  using restore_snapshot [OF assms(1), of s] inv_adopt [OF assms] assms(2) by (auto split: if_splits)

section \<open>States of a store\<close>

inductive scheduler_from :: "(scheduler_state \<Rightarrow> bool) \<Rightarrow> scheduler_state \<Rightarrow> bool" for init where
  from_init: "init s \<Longrightarrow> scheduler_from init s"
| from_step: "scheduler_from init s \<Longrightarrow> sched_step s t \<Longrightarrow> scheduler_from init t"
| from_restore: "scheduler_from init s \<Longrightarrow> scheduler_from init t \<Longrightarrow> g_QoS (s_governance t) = g_QoS (s_governance s)
    \<Longrightarrow> scheduler_from init (snd (restore (snapshot t) s))"

lemma from_reach: "reach init sched_step s \<Longrightarrow> scheduler_from init s"
  by (induction rule: reach.induct) (auto intro: from_init from_step)

lemma from_inv: "scheduler_from sched_init s \<Longrightarrow> sched_inv s"
proof (induction rule: scheduler_from.induct)
  case (from_init s)
  then show ?case by (rule sched_init_inv)
next
  case (from_step s t)
  then show ?case using sched_step_inv by blast
next
  case (from_restore s t)
  then show ?case by (intro inv_restore)
qed

end
