(* ===== verification/Scheduler_Properties.thy ===== *)
theory Scheduler_Properties
  imports Scheduler_Demo Scheduler_Backoff Scheduler_Restore
begin

text \<open>
  The properties of the scheduler's state machine and its ledger. The states that witness their
  hypotheses are those of \<open>Scheduler_Demo\<close>.
\<close>

section \<open>Invariants of every reachable state\<close>

text \<open>
  C2: Every state that a store's operations reach from an empty store satisfies the state invariant:
  well-formed records, no queued task missing from the queue, a ledger that agrees with the attempts, a
  control log over known tasks, a normalised configuration and statistics that agree with it.
  \<open>Restore\<close> is among the operations for the snapshots that stores take (\<open>scheduler_from\<close>): of any state
  reached in this way, of this store or another one in the same queueing mode. A snapshot that was not
  taken from a store is outside the statement: \<open>restore\<close> does not check all of the invariant.
\<close>

theorem reachable_state_invariant:
  assumes "scheduler_from sched_init s"
  shows "sched_inv s"
  using assms by (rule from_inv)

definition demo_restored :: scheduler_state where
  "demo_restored = snd (restore (snapshot demo_running) demo_done)"

lemma from_demo:
  "scheduler_from sched_init demo_running" "scheduler_from sched_init demo_done" "scheduler_from sched_init demo_restored"
proof -
  show r: "scheduler_from sched_init demo_running" "scheduler_from sched_init demo_done"
    by (rule from_reach, rule reach_demo_running reach_demo_done)+
  have "g_QoS (s_governance demo_running) = g_QoS (s_governance demo_done)" by code_simp
  then show "scheduler_from sched_init demo_restored" unfolding demo_restored_def by (rule from_restore [OF r(2,1)])
qed

theorem reachable_state_invariant_witness:
  "sched_inv demo_restored \<and> map_option r_State (fmlookup (s_Tasks demo_done) ''task-1'') = Some TaskStateSucceeded
   \<and> map_option r_State (fmlookup (s_Tasks demo_restored) ''task-1'') = Some TaskStateRunning"
  using reachable_state_invariant [OF from_demo(3)] by (intro conjI) (assumption, code_simp+)

text \<open>
  C3: In every state a store reaches, by restoring snapshots too, exactly the tasks that are running or await a report have a running
  attempt, exactly one, which is the last attempt and the current one; every other task has no
  current attempt.
\<close>

theorem one_running_attempt:
  assumes "scheduler_from sched_init s" "fmlookup (s_Tasks s) k = Some r"
  shows "filter (\<lambda>a. at_Status a = AttemptStatusRunning) (r_Attempts r) =
      (if r_State r = TaskStateRunning \<or> r_State r = TaskStateAwaitingReport then [last (r_Attempts r)] else [])
    \<and> currentAttempt r =
      (if r_State r = TaskStateRunning \<or> r_State r = TaskStateAwaitingReport then Some (last (r_Attempts r)) else None)"
proof -
  have wf: "wf_record k r" using from_inv [OF assms(1)] assms(2) by (rule sched_inv_record)
  show ?thesis
  proof (cases "r_State r = TaskStateRunning \<or> r_State r = TaskStateAwaitingReport")
    case True
    then show ?thesis
      by (rule wf_inflight_cases [OF wf]) (use True in \<open>auto simp: filter_empty_conv\<close>)
  next
    case False
    then have "idle r" using wf by (cases "r_State r") (auto simp: wf_record_def wf_phase_def)
    then show ?thesis using False currentAttempt_idle by (auto simp: idle_def filter_empty_conv)
  qed
qed

theorem one_running_attempt_witness:
  "\<exists>r. fmlookup (s_Tasks demo_running) ''task-1'' = Some r \<and> r_State r = TaskStateRunning
     \<and> filter (\<lambda>a. at_Status a = AttemptStatusRunning) (r_Attempts r) = [last (r_Attempts r)]"
proof -
  have "map_option r_State (fmlookup (s_Tasks demo_running) ''task-1'') = Some TaskStateRunning" by code_simp
  then obtain r where r: "fmlookup (s_Tasks demo_running) ''task-1'' = Some r" "r_State r = TaskStateRunning" by auto
  with one_running_attempt [OF from_demo(1) r(1)] show ?thesis by auto
qed

text \<open>
  C4: The attempts of a task are numbered 1, 2, ... in order, and in every state a store reaches, by
  restoring snapshots too, there are at most \<open>max_attempts\<close> of them plus one per manual retry, one fewer while the task is queued: a
  lease can never be handed out beyond the budget.
\<close>

theorem attempt_budget:
  assumes "scheduler_from sched_init s" "fmlookup (s_Tasks s) k = Some r"
  shows "map at_Attempt (r_Attempts r) = map int [1..<Suc (length (r_Attempts r))]
    \<and> int (length (r_Attempts r)) + (if r_State r = TaskStateQueued then 1 else 0)
        \<le> t_MaxAttempts (r_Task r) + r_ManualRetryCount r"
  using sched_inv_record [OF from_inv [OF assms(1)] assms(2)]
  by (auto simp: wf_record_def wf_attempts_def wf_budget_def simp del: upt_Suc)

theorem attempt_budget_witness:
  "\<exists>r. fmlookup (s_Tasks demo_done) ''task-1'' = Some r \<and> int (length (r_Attempts r)) \<le> t_MaxAttempts (r_Task r) + r_ManualRetryCount r"
proof -
  have "fmlookup (s_Tasks demo_done) ''task-1'' \<noteq> None" by code_simp
  then obtain r where r: "fmlookup (s_Tasks demo_done) ''task-1'' = Some r" by auto
  with attempt_budget [OF from_demo(2) r] show ?thesis by (auto split: if_splits)
qed

text \<open>
  C5: A task succeeds at most once: in every state a store reaches, by restoring snapshots too, at most one attempt of a task has
  succeeded, one has exactly if the task is in the succeeded state, and then the ledger holds its
  commit, with the succeeded status.
\<close>

theorem succeeds_once:
  assumes "scheduler_from sched_init s" "fmlookup (s_Tasks s) k = Some r"
  shows "length (filter (\<lambda>a. at_Status a = AttemptStatusSucceeded) (r_Attempts r))
      = (if r_State r = TaskStateSucceeded then 1 else 0)
    \<and> (r_State r = TaskStateSucceeded \<longrightarrow>
        (\<exists>c. fmlookup (s_TerminalCommits s) (terminalCommitKey k (at_AttemptID (last (r_Attempts r)))) = Some c
             \<and> c_Status c = TaskStateSucceeded))"
proof -
  have inv: "sched_inv s" using assms(1) by (rule from_inv)
  then have wf: "wf_record k r" and succ: "success_ok (s_TerminalCommits s) k r"
    using assms(2) sched_inv_record by (auto simp: sched_inv_def ledger_ok_def)
  show ?thesis
  proof (cases "r_Attempts r" rule: rev_cases)
    case Nil
    then show ?thesis using wf by (auto simp: wf_record_def wf_outcome_def)
  next
    case (snoc ys y)
    then have "filter (\<lambda>a. at_Status a = AttemptStatusSucceeded) ys = []"
      "r_State r = TaskStateSucceeded \<longleftrightarrow> at_Status y = AttemptStatusSucceeded"
      using wf by (auto simp: wf_record_def wf_outcome_def filter_empty_conv)
    then show ?thesis using snoc succ by (auto simp: success_ok_def split: option.splits)
  qed
qed

theorem succeeds_once_witness:
  "\<exists>r. fmlookup (s_Tasks demo_done) ''task-1'' = Some r \<and> r_State r = TaskStateSucceeded
     \<and> length (filter (\<lambda>a. at_Status a = AttemptStatusSucceeded) (r_Attempts r)) = 1"
proof -
  have "map_option r_State (fmlookup (s_Tasks demo_done) ''task-1'') = Some TaskStateSucceeded" by code_simp
  then obtain r where r: "fmlookup (s_Tasks demo_done) ''task-1'' = Some r" "r_State r = TaskStateSucceeded" by auto
  with succeeds_once [OF from_demo(2) r(1)] show ?thesis by auto
qed

section \<open>Exactly-once settlement\<close>

text \<open>
  C1: Once \<open>commitTerminal\<close> has accepted a commit, every later commit for the same task and
  attempt, with whatever status, result or time, is reported as a duplicate with the settled
  record and changes nothing but the duplicate counter.
\<close>

theorem commit_exactly_once:
  assumes "commitTerminal clk c s = (Ok res, s')"
    and "TrimSpace (c_TaskID d) = TrimSpace (c_TaskID c)" "TrimSpace (c_AttemptID d) = TrimSpace (c_AttemptID c)"
    and "normalizeCommit clk' d = Ok n"
  shows "commitTerminal clk' d s' = (Ok (commitOutcome (cr_Record res) True False False), bumpDuplicate s')"
proof -
  obtain m where m: "normalizeCommit clk c = Ok m"
    using assms(1) by (cases "normalizeCommit clk c") (auto simp: commitTerminal_def)
  have "c_TaskID n = c_TaskID m" "c_AttemptID n = c_AttemptID m"
    using normalizeCommit_fields(1,4) [OF m] normalizeCommit_fields(1,4) [OF assms(4)] assms(2,3) by simp_all
  then show ?thesis
    using commit_outcomes [OF assms(1) m] by (intro commit_duplicate [OF assms(4)]) simp_all
qed

theorem commit_exactly_once_witness:
  "\<exists>res. commitTerminal 5 (demo_commit ''task-1-attempt-1'') demo_running = (Ok res, demo_done)
     \<and> commitTerminal 7 ((demo_commit ''task-1-attempt-1'')\<lparr>c_Status := TaskStateFailed\<rparr>) demo_done
         = (Ok (commitOutcome (cr_Record res) True False False), bumpDuplicate demo_done)"
proof -
  let ?c = "demo_commit ''task-1-attempt-1''" and ?d = "(demo_commit ''task-1-attempt-1'')\<lparr>c_Status := TaskStateFailed\<rparr>"
  have "\<not> isl (fst (commitTerminal 5 ?c demo_running))" by code_simp
  then obtain res where res: "commitTerminal 5 ?c demo_running = (Ok res, demo_done)"
    by (rule Ok_result [OF _ demo_done_def [symmetric]])
  have "\<not> isl (normalizeCommit 7 ?d)" by code_simp
  then obtain n where "normalizeCommit 7 ?d = Ok n" using not_isl_Ok by blast
  with res commit_exactly_once [OF res, of ?d 7 n] show ?thesis by (auto simp: demo_commit_def)
qed

lemma commit_other_tasks:
  assumes "commitTerminal clk c s = (Ok res, s')" "normalizeCommit clk c = Ok n" "j \<noteq> c_TaskID n"
  shows "fmlookup (s_Tasks s') j = fmlookup (s_Tasks s) j"
  using assms
  by (auto simp: commitTerminal_def applyTerminalCommit_valid [OF normalizeCommit_fields(7) [OF assms(2)]]
      Let_def storeRecord_def commitOutcome_def bumpDuplicate_def split: option.splits if_splits)

text \<open>
  C6: The worker that was handed a task can settle it: after a successful claim, a success or failure
  commit for the claimed attempt that carries the attempt's workspace provenance is accepted and is not
  a duplicate. The store then holds the task in the committed state, as the answer says, and the commit
  under the attempt's key, and every other task is as it was.
\<close>

theorem claimed_task_commits:
  assumes "sched_inv s" "claim clk w now lease s = (Ok (Some ct), s')"
    and "TrimSpace (c_TaskID c) = t_TaskID (r_Task (ct_Record ct))"
    and "TrimSpace (c_AttemptID c) = at_AttemptID (ct_Attempt ct)"
    and "c_Status c = TaskStateSucceeded \<or> c_Status c = TaskStateFailed"
    and "c_WorkspaceProvenance c = at_WorkspaceProvenance (ct_Attempt ct)"
    and "k = t_TaskID (r_Task (ct_Record ct))"
  shows "\<exists>res s'' n. commitTerminal clk' c s' = (Ok res, s'') \<and> \<not> cr_Duplicate res
    \<and> r_State (cr_Record res) = c_Status c \<and> fmlookup (s_Tasks s'') k = Some (cr_Record res)
    \<and> fmlookup (s_TerminalCommits s'') (terminalCommitKey k (at_AttemptID (ct_Attempt ct))) = Some n \<and> c_Status n = c_Status c
    \<and> (\<forall>j. j \<noteq> k \<longrightarrow> fmlookup (s_Tasks s'') j = fmlookup (s_Tasks s') j)"
proof -
  let ?k = "t_TaskID (r_Task (ct_Record ct))"
  have ct: "fmlookup (s_Tasks s') ?k = Some (ct_Record ct)" "r_State (ct_Record ct) = TaskStateRunning"
      "r_CurrentAttempt (ct_Record ct) = at_AttemptID (ct_Attempt ct)"
      "at_WorkspaceProvenance (ct_Attempt ct) = t_WorkspaceProvenance (r_Task (ct_Record ct))" "sched_inv s'"
    using claim_result [OF assms(1,2)] by auto
  have wf: "wf_record ?k (ct_Record ct)" using ct(5,1) by (rule sched_inv_record)
  have "Option.bind (t_WorkspaceProvenance (r_Task (ct_Record ct))) provenance_validate = None"
    using wf normalizeTask_fields(7) by (auto simp: wf_record_def wf_task_def)
  then obtain n where n: "normalizeCommit clk' c = Ok n"
    using assms(3-6) ct(3,4) wf_record_key [OF wf] wf_inflight_facts(6) [OF wf] ct(2)
    by (auto simp: normalizeCommit_def Let_def split: option.splits)
  have f: "c_TaskID n = ?k" "c_AttemptID n = r_CurrentAttempt (ct_Record ct)"
      "c_WorkspaceProvenance n = t_WorkspaceProvenance (r_Task (ct_Record ct))" "c_Status n = c_Status c"
    using normalizeCommit_fields [OF n] assms(3-6) ct by simp_all
  have "fmlookup (s_Tasks s') (c_TaskID n) = Some (ct_Record ct)" using ct(1) f(1) by simp
  note app = commit_applies [OF ct(5) this ct(2) n f(2,3)]
  then obtain r' s'' where r': "commitTerminal clk' c s' = (Ok (commitOutcome r' False False False), s'')"
      "r_State r' = c_Status n" "fmlookup (s_Tasks s'') (c_TaskID n) = Some r'"
      "fmlookup (s_TerminalCommits s'') (terminalCommitKey (c_TaskID n) (c_AttemptID n)) = Some n"
    by auto
  have "fmlookup (s_Tasks s'') j = fmlookup (s_Tasks s') j" if "j \<noteq> c_TaskID n" for j
    using commit_other_tasks [OF r'(1) n that] .
  then show ?thesis using r' f ct(3) assms(7) by (auto simp: commitOutcome_def)
qed

theorem claimed_task_commits_witness:
  "\<exists>ct res s''. claim 5 ''worker-1'' 20 100 demo_queued = (Ok (Some ct), demo_running)
     \<and> commitTerminal 5 (demo_commit ''task-1-attempt-1'') demo_running = (Ok res, s'') \<and> \<not> cr_Duplicate res
     \<and> r_State (cr_Record res) = TaskStateSucceeded \<and> fmlookup (s_Tasks s'') ''task-1'' = Some (cr_Record res)"
proof -
  let ?claim = "claim 5 ''worker-1'' 20 100 demo_queued" and ?c = "demo_commit ''task-1-attempt-1''"
  have "case fst ?claim of Inr (Some ct) \<Rightarrow> t_TaskID (r_Task (ct_Record ct)) = ''task-1''
      \<and> at_AttemptID (ct_Attempt ct) = ''task-1-attempt-1'' \<and> at_WorkspaceProvenance (ct_Attempt ct) = None | _ \<Rightarrow> False"
    by code_simp
  then obtain ct where ct: "?claim = (Ok (Some ct), demo_running)" "t_TaskID (r_Task (ct_Record ct)) = ''task-1''"
      "at_AttemptID (ct_Attempt ct) = ''task-1-attempt-1''" "at_WorkspaceProvenance (ct_Attempt ct) = None"
    by (cases ?claim) (auto simp: demo_running_def split: sum.splits option.splits)
  have "TrimSpace (c_TaskID ?c) = ''task-1''" "TrimSpace (c_AttemptID ?c) = ''task-1-attempt-1''"
    "c_Status ?c = TaskStateSucceeded" "c_WorkspaceProvenance ?c = None" by code_simp+
  with ct claimed_task_commits [OF demo_inv(2) ct(1), of ?c _ 5] show ?thesis by fastforce
qed

text \<open>
  A commit for an attempt that is no longer the current one (its lease expired and the task was
  handed to another worker) is rejected as stale and changes nothing.
\<close>

lemma stale_commit_rejected:
  assumes "sched_inv s" "normalizeCommit clk c = Ok n" "fmlookup (s_Tasks s) (c_TaskID n) = Some r"
    and "r_State r = TaskStateRunning" "c_AttemptID n \<noteq> r_CurrentAttempt r"
    and "fmlookup (s_TerminalCommits s) (terminalCommitKey (c_TaskID n) (c_AttemptID n)) = None"
    and "c_WorkspaceProvenance n = t_WorkspaceProvenance (r_Task r)"
  shows "commitTerminal clk c s = (Err ErrStaleAttempt, s)"
proof -
  have wf: "wf_record (c_TaskID n) r" using assms(1,3) by (rule sched_inv_record)
  have st: "r_State r = TaskStateRunning \<or> r_State r = TaskStateAwaitingReport" using assms(4) by simp
  note f = wf_inflight_facts [OF wf st]
  have "at_WorkspaceProvenance (last (r_Attempts r)) = t_WorkspaceProvenance (r_Task r)"
    using wf f(1) by (simp add: wf_record_def wf_attempts_def)
  then show ?thesis
    using assms f by (simp add: commitTerminal_def applyTerminalCommit_def)
qed

definition demo_reclaimed :: scheduler_state where
  "demo_reclaimed = snd (claim 5 ''worker-2'' 200 100 demo_running)"

lemma reach_demo_reclaimed: "reach sched_init sched_step demo_reclaimed"
  unfolding demo_reclaimed_def by (rule reach_step [OF reach_demo_running step_claim])

lemma stale_commit_rejected_witness:
  "commitTerminal 5 (demo_commit ''task-1-attempt-1'') demo_reclaimed = (Err ErrStaleAttempt, demo_reclaimed)"
proof -
  let ?c = "demo_commit ''task-1-attempt-1''"
  have "case normalizeCommit 5 ?c of Inl _ \<Rightarrow> False | Inr n \<Rightarrow>
      c_TaskID n = ''task-1'' \<and> c_AttemptID n = ''task-1-attempt-1'' \<and> c_WorkspaceProvenance n = None"
    by code_simp
  then obtain n where n: "normalizeCommit 5 ?c = Ok n" "c_TaskID n = ''task-1''" "c_AttemptID n = ''task-1-attempt-1''"
      "c_WorkspaceProvenance n = None"
    by (auto split: sum.splits)
  have "case fmlookup (s_Tasks demo_reclaimed) ''task-1'' of None \<Rightarrow> False | Some r \<Rightarrow>
      r_State r = TaskStateRunning \<and> ''task-1-attempt-1'' \<noteq> r_CurrentAttempt r \<and> t_WorkspaceProvenance (r_Task r) = None"
    by code_simp
  then obtain r where r: "fmlookup (s_Tasks demo_reclaimed) ''task-1'' = Some r" "r_State r = TaskStateRunning"
      "''task-1-attempt-1'' \<noteq> r_CurrentAttempt r" "t_WorkspaceProvenance (r_Task r) = None"
    by (auto split: option.splits)
  have "fmlookup (s_TerminalCommits demo_reclaimed) (terminalCommitKey ''task-1'' ''task-1-attempt-1'') = None"
    by code_simp
  with n r stale_commit_rejected [OF sched.reach_invar [OF reach_demo_reclaimed] n(1), of r] show ?thesis by simp
qed

section \<open>Claims\<close>

text \<open>
  C15: \<open>claim\<close> hands out nothing exactly when nothing is claimable: it answers without a task
  if and only if, after the leases that have run out are expired, no task is queued with its start
  time and its retry delay reached. A queued task is never overlooked.
\<close>

theorem claim_progress:
  assumes "sched_inv s" "TrimSpace w \<noteq> []" "0 < lease"
  shows "fst (claim clk w now lease s) = Ok None \<longleftrightarrow>
    fmpred (\<lambda>k r. \<not> isClaimableRecord r (resolve_now clk now)) (s_Tasks (snd (expireLeases clk (resolve_now clk now) s)))"
proof (cases rule: claim_cases [OF assms refl refl, of clk now, case_names nothing task])
  case nothing
  then show ?thesis by (auto simp: fmpred_iff)
next
  case (task i y k r a)
  then show ?thesis by (auto simp: fmpred_iff)
qed

theorem claim_progress_witness:
  "fst (claim 5 ''worker-2'' 30 100 demo_running) = Ok None
   \<and> fmpred (\<lambda>k r. \<not> isClaimableRecord r 30) (s_Tasks (snd (expireLeases 5 30 demo_running)))"
proof -
  have "TrimSpace ''worker-2'' \<noteq> []" by code_simp
  moreover have "case fst (claim 5 ''worker-2'' 30 100 demo_running) of Inr None \<Rightarrow> True | _ \<Rightarrow> False" by code_simp
  then have "fst (claim 5 ''worker-2'' 30 100 demo_running) = Ok None"
    by (auto split: sum.splits option.splits)
  ultimately show ?thesis using claim_progress [OF demo_inv(3), of "''worker-2''" 100 5 30] by simp
qed

text \<open>
  C14: Mutual exclusion: while a running task's lease is valid, no claim by any worker returns that
  task or changes its record.
\<close>

theorem claim_exclusive:
  assumes "sched_inv s" "fmlookup (s_Tasks s) k = Some r" "r_State r = TaskStateRunning"
    and "resolve_now clk now < at_LeaseExpiresAt (last (r_Attempts r))"
    and "claim clk w now lease s = (res, s')"
  shows "fmlookup (s_Tasks s') k = Some r
    \<and> (case res of Inr (Some ct) \<Rightarrow> t_TaskID (r_Task (ct_Record ct)) \<noteq> k | _ \<Rightarrow> True)"
  using claim_keeps_valid_lease [OF assms] by (auto split: sum.splits option.splits)

theorem claim_exclusive_witness:
  "\<exists>r. fmlookup (s_Tasks demo_running) ''task-1'' = Some r
     \<and> fmlookup (s_Tasks (snd (claim 5 ''worker-2'' 119 100 demo_running))) ''task-1'' = Some r"
proof -
  have "case fmlookup (s_Tasks demo_running) ''task-1'' of None \<Rightarrow> False | Some r \<Rightarrow>
      r_State r = TaskStateRunning \<and> resolve_now 5 119 < at_LeaseExpiresAt (last (r_Attempts r))"
    by code_simp
  then obtain r where r: "fmlookup (s_Tasks demo_running) ''task-1'' = Some r" "r_State r = TaskStateRunning"
      "resolve_now 5 119 < at_LeaseExpiresAt (last (r_Attempts r))"
    by (auto split: option.splits)
  then show ?thesis
    using claim_exclusive [OF demo_inv(3) r, of "''worker-2''" 100] by (cases "claim 5 ''worker-2'' 119 100 demo_running") auto
qed

text \<open>
  C17: The scan of \<open>nextClaimableIndex\<close> computes the reference choice: under FIFO the first
  eligible queue position; under priority queueing the first eligible position of the highest
  class that has one, unless that class has used up its consecutive claims and a lower class has an
  eligible task, in which case the first position of the next class, marked as a yield.
\<close>

theorem claim_order: "nextClaimableIndex now s = referenceIndex now s"
  by (rule nextClaimableIndex_reference)

text \<open>
  Fairness: in priority mode, when the last \<open>max_consecutive_claims_per_priority\<close> claims
  were all of one class and a task of another class is eligible, the next claim is of another class.
\<close>

lemma fairness_yields:
  assumes "sched_inv s0" "TrimSpace w \<noteq> []" "0 < lease" "g_QoS (s_governance s0) = QoSModePriority"
    and "s_lastPriority s0 = p" "g_MaxConsecutiveClaimsPerPriority (s_governance s0) \<le> s_lastConsecutive s0"
    and "q \<in> set (s_Queue s0)" "eligible (s_Tasks s0) (resolve_now clk now) q" "priorityOf (s_Tasks s0) q \<noteq> p"
  shows "\<exists>ct s'. claim clk w now lease s0 = (Ok (Some ct), s') \<and> ct_TaskPriority ct \<noteq> p"
proof -
  let ?now = "resolve_now clk now"
  let ?s = "snd (expireLeases clk ?now s0)"
  have inv: "sched_inv ?s" using assms(1) by (rule inv_expireLeases)
  have same: "s_governance ?s = s_governance s0" "s_lastPriority ?s = s_lastPriority s0"
      "s_lastConsecutive ?s = s_lastConsecutive s0" "set (s_Queue s0) \<subseteq> set (s_Queue ?s)"
    by (simp_all add: expireLeases_def Let_def expireLeasesLoop_fold fold_leaseStep_frame)
  obtain r where r: "fmlookup (s_Tasks s0) q = Some r" "isClaimableRecord r ?now"
    using assms(8) queue_ok_trimmed [OF assms(1,7)] by (auto simp: eligible_def split: option.splits)
  then have "fmlookup (s_Tasks ?s) q = Some r"
    using isClaimable_queued by (intro expireLeases_keeps) (auto simp: leaseExpiredRecord_def)
  then have el: "eligible (s_Tasks ?s) ?now q" "priorityOf (s_Tasks ?s) q \<noteq> p" "q \<in> set (s_Queue ?s)"
    using r assms(7,9) same(4) queue_ok_trimmed [OF assms(1,7)] by (auto simp: eligible_def priorityOf_def)
  have thr: "0 < g_MaxConsecutiveClaimsPerPriority (s_governance s0)"
    using assms(1) by (simp add: sched_inv_def config_ok_def)
  have pq: "pickClass ?now ?s (priorityOf (s_Tasks ?s) q) \<noteq> None"
    unfolding pickClass_def find_index_None using el by blast
  show ?thesis
  proof (cases rule: claim_cases [OF assms(1-3) refl refl, of clk now, case_names nothing task])
    case nothing
    then show ?thesis using el(1) queue_ok_trimmed [OF assms(1,7)] by (auto simp: eligible_def split: option.splits)
  next
    case (task i y k r' a)
    have "priorityOf (s_Tasks ?s) (s_Queue ?s ! i) \<noteq> p"
      using task(1) reference_not_last [OF _ _ _ pq el(2)] thr assms(4-6) same
      by (simp add: nextClaimableIndex_reference fairnessDue_def)
    moreover have "priorityOf (s_Tasks ?s) (s_Queue ?s ! i) = normalizedPriority (t_Priority (r_Task r'))"
      using task(3,4) queue_ok_trimmed [OF inv, of "s_Queue ?s ! i"] task(2) by (simp add: priorityOf_def)
    ultimately show ?thesis using task(8) by simp
  qed
qed

definition demo_fair :: scheduler_state where
  "demo_fair =
     (let s0 = setGovernance (defaultGovernanceConfig\<lparr>g_QoS := QoSModePriority, g_MaxConsecutiveClaimsPerPriority := 1\<rparr>) demo_empty;
          s1 = snd (enqueue 5 (demo_task\<lparr>t_TaskID := ''h1'', t_Priority := ''high''\<rparr>) 10 s0);
          s2 = snd (enqueue 5 (demo_task\<lparr>t_TaskID := ''h2'', t_Priority := ''high''\<rparr>) 10 s1);
          s3 = snd (enqueue 5 (demo_task\<lparr>t_TaskID := ''l1'', t_Priority := ''low''\<rparr>) 10 s2)
      in snd (claim 5 ''worker-1'' 20 100 s3))"

lemma demo_fair_inv: "sched_inv demo_fair"
  unfolding demo_fair_def Let_def
  by (intro inv_claim inv_enqueue inv_setGovernance demo_inv(1))

lemma fairness_yields_witness:
  "\<exists>ct s'. claim 5 ''worker-2'' 30 100 demo_fair = (Ok (Some ct), s') \<and> ct_TaskPriority ct \<noteq> TaskPriorityHigh"
proof (rule fairness_yields [OF demo_fair_inv, where q = "''l1''"])
  show "TrimSpace ''worker-2'' \<noteq> []" by code_simp
  show "g_QoS (s_governance demo_fair) = QoSModePriority" by code_simp
  show "s_lastPriority demo_fair = TaskPriorityHigh" by code_simp
  show "g_MaxConsecutiveClaimsPerPriority (s_governance demo_fair) \<le> s_lastConsecutive demo_fair" by code_simp
  show "''l1'' \<in> set (s_Queue demo_fair)" by code_simp
  show "eligible (s_Tasks demo_fair) (resolve_now 5 30) ''l1''" by code_simp
  show "priorityOf (s_Tasks demo_fair) ''l1'' \<noteq> TaskPriorityHigh" by code_simp
qed simp

text \<open>
  C18: \<open>expireLeases\<close> is complete and precise: afterwards every running task has a lease that
  ends later than now, every task whose lease had run out is queued, failed or dead-lettered, and
  every other task is exactly as it was.
\<close>

theorem expireLeases_complete:
  assumes "sched_inv s" "fmlookup (s_Tasks s) k = Some r"
  shows "\<exists>r'. fmlookup (s_Tasks (snd (expireLeases clk now s))) k = Some r' \<and>
    (if r_State r = TaskStateRunning \<and> at_LeaseExpiresAt (last (r_Attempts r)) \<le> resolve_now clk now
     then r_State r' \<in> {TaskStateQueued, TaskStateFailed, TaskStateDeadLetter}
     else r' = r)"
  using expireLeases_takes [OF assms, of clk now] expireLeases_keeps [OF assms(2), of clk now]
    leaseExpiredRecord_wf [OF sched_inv_record [OF assms], of "resolve_now clk now"]
  by auto

theorem expireLeases_complete_witness:
  "\<exists>r'. fmlookup (s_Tasks (snd (expireLeases 5 120 demo_running))) ''task-1'' = Some r'
     \<and> r_State r' \<in> {TaskStateQueued, TaskStateFailed, TaskStateDeadLetter}"
proof -
  have "case fmlookup (s_Tasks demo_running) ''task-1'' of None \<Rightarrow> False | Some r \<Rightarrow>
      r_State r = TaskStateRunning \<and> at_LeaseExpiresAt (last (r_Attempts r)) \<le> resolve_now 5 120"
    by code_simp
  then obtain r where r: "fmlookup (s_Tasks demo_running) ''task-1'' = Some r" "r_State r = TaskStateRunning"
      "at_LeaseExpiresAt (last (r_Attempts r)) \<le> resolve_now 5 120"
    by (auto split: option.splits)
  then show ?thesis using expireLeases_complete [OF demo_inv(3) r(1), of 5 120] by auto
qed

text \<open>
  The delay before a retried task may be claimed again lies between zero and the configured
  maximum, for every normalised configuration whose multiplier is a number and whose maximum is
  at most 2^53 nanoseconds, whatever the attempt number (the exponential growth may overflow) and
  whatever the jitter.
\<close>

lemma retryDelay_bounds:
  assumes "b = normalizeBackoff cfg" "bo_Multiplier cfg \<noteq> F64NaN" "bo_Max b \<le> 2 ^ 53"
  shows "0 \<le> retryDelay b tid a \<and> retryDelay b tid a \<le> bo_Max b"
  using assms normalizeBackoff_ok [of cfg] by (intro retryDelay_range) simp

definition demo_backoff :: backoff_config where
  "demo_backoff = \<lparr>bo_Enabled = True, bo_Initial = 5, bo_Max = 40, bo_Multiplier = F64 3, bo_JitterRatio = F64 0\<rparr>"

definition demo_attempt :: attempt where
  "demo_attempt =
     \<lparr>at_AttemptID = ''task-1-attempt-2'', at_Attempt = 2, at_WorkerID = ''w'', at_LeaseToken = ''t'',
      at_Status = AttemptStatusRunning, at_StartedAt = 1, at_HeartbeatAt = 1, at_LeaseExpiresAt = 2,
      at_TerminalAt = 0, at_WorkspaceProvenance = None\<rparr>"

lemma retryDelay_bounds_witness:
  "normalizeBackoff demo_backoff = demo_backoff
   \<and> 0 \<le> retryDelay demo_backoff ''task-1'' demo_attempt \<and> retryDelay demo_backoff ''task-1'' demo_attempt \<le> 40"
proof -
  have n: "normalizeBackoff demo_backoff = demo_backoff"
    by (simp add: demo_backoff_def normalizeBackoff_def Let_def clamp_ratio_def)
  show ?thesis
    using n retryDelay_bounds [OF n [symmetric]] by (simp add: demo_backoff_def)
qed

section \<open>Idempotent requests\<close>

text \<open>
  Enqueueing a task again is harmless: it returns the record that exists and leaves the store
  as it is when the dispatch binding is the same, and is refused without a change when it differs.
\<close>

lemma enqueue_idempotent:
  assumes "enqueue clk t now s = (Ok r, s')" "normalizeTask u = Ok n" "TrimSpace (t_TaskID u) = TrimSpace (t_TaskID t)"
  shows "enqueue clk' u now' s' =
    (if t_DispatchBinding (r_Task r) = t_DispatchBinding n then Ok r else Err ErrDispatchBindingMismatch, s')"
proof -
  obtain m where m: "normalizeTask t = Ok m" using assms(1) by (cases "normalizeTask t") (auto simp: enqueue_def)
  have "t_TaskID n = t_TaskID m"
    using normalizeTask_fields(1) [OF m] normalizeTask_fields(1) [OF assms(2)] assms(3) by simp
  moreover have "fmlookup (s_Tasks s') (t_TaskID m) = Some r"
    using assms(1) m by (auto simp: enqueue_def Let_def split: option.splits if_splits)
  ultimately show ?thesis using assms(2) by (simp add: enqueue_def)
qed

lemma enqueue_idempotent_witness:
  "\<exists>r. enqueue 5 demo_task 10 demo_empty = (Ok r, demo_queued) \<and> enqueue 6 demo_task 99 demo_queued = (Ok r, demo_queued)"
proof -
  have "\<not> isl (normalizeTask demo_task)" by code_simp
  then obtain n where n: "normalizeTask demo_task = Ok n" using not_isl_Ok by blast
  have "\<not> isl (fst (enqueue 5 demo_task 10 demo_empty))" by code_simp
  then obtain r where r: "enqueue 5 demo_task 10 demo_empty = (Ok r, demo_queued)"
    by (rule Ok_result [OF _ demo_queued_def [symmetric]])
  have "case fst (enqueue 5 demo_task 10 demo_empty) of Inl _ \<Rightarrow> False | Inr r \<Rightarrow> t_DispatchBinding (r_Task r) = []"
    by code_simp
  moreover have "case normalizeTask demo_task of Inl _ \<Rightarrow> False | Inr n \<Rightarrow> t_DispatchBinding n = []"
    by code_simp
  ultimately have "t_DispatchBinding (r_Task r) = t_DispatchBinding n" using r n by simp
  then show ?thesis using r enqueue_idempotent [OF r n refl, of 6 99] by auto
qed

text \<open>
  C19: A control operation is applied at most once per operation id: repeating it with the same task
  and action returns the first result marked as deduplicated, a different task or action under the
  same id is refused, and neither touches any task, the queue or the ledger.
\<close>

theorem control_applied_once:
  assumes "controlTask clk req now s = (Ok res, s')" "cc_Enabled (s_taskBoardControl s')"
    and "TrimSpace (q_OperationID req') = TrimSpace (q_OperationID req)"
    and "normalizeTaskBoardControlAction (q_Action req') = Ok act"
  shows "let (res', s'') = controlTask clk' req' now' s' in
     res' = (if TrimSpace (q_TaskID req') = k_TaskID res \<and> act = k_Action res
             then Ok (res\<lparr>k_Deduplicated := True\<rparr>) else Err ErrTaskBoardControlOperationConflict)
     \<and> s_Tasks s'' = s_Tasks s' \<and> s_Queue s'' = s_Queue s' \<and> s_TerminalCommits s'' = s_TerminalCommits s'
     \<and> s_ControlOps s'' = s_ControlOps s'"
proof -
  obtain k where k: "fmlookup (s_ControlOps s') (TrimSpace (q_OperationID req)) = Some k"
      "k_TaskID k = k_TaskID res" "k_Action k = k_Action res" "k\<lparr>k_Deduplicated := True\<rparr> = res\<lparr>k_Deduplicated := True\<rparr>"
    using control_logged [OF assms(1)] by blast
  have "TrimSpace (q_OperationID req) \<noteq> []"
    using assms(1) by (auto simp: controlTask_def Let_def split: if_splits)
  then show ?thesis
    using k assms(2-4) by (simp add: controlTask_def Let_def bumpRejected_def)
qed

definition demo_controlled :: scheduler_state where
  "demo_controlled = setTaskBoardControl \<lparr>cc_Enabled = True, cc_MaxManualRetryPerTask = 1\<rparr> demo_queued"

definition demo_cancel :: control_request where
  "demo_cancel = \<lparr>q_TaskID = ''task-1'', q_Action = ''cancel'', q_OperationID = ''op-1'', q_RequestedBy = [], q_ReasonDetail = []\<rparr>"

definition demo_cancelled :: scheduler_state where
  "demo_cancelled = snd (controlTask 5 demo_cancel 30 demo_controlled)"

lemma demo_controlled_inv: "sched_inv demo_controlled"
  unfolding demo_controlled_def by (intro inv_setTaskBoardControl demo_inv(2))

lemma demo_cancel_ok: "\<exists>res. controlTask 5 demo_cancel 30 demo_controlled = (Ok res, demo_cancelled)
    \<and> k_TaskID res = ''task-1'' \<and> k_Action res = TaskBoardControlActionCancel"
proof -
  have "case fst (controlTask 5 demo_cancel 30 demo_controlled) of Inl _ \<Rightarrow> False | Inr res \<Rightarrow>
      k_TaskID res = ''task-1'' \<and> k_Action res = TaskBoardControlActionCancel" by code_simp
  then show ?thesis
    by (cases "controlTask 5 demo_cancel 30 demo_controlled") (auto simp: demo_cancelled_def split: sum.splits)
qed

theorem control_applied_once_witness:
  "\<exists>res. controlTask 5 demo_cancel 30 demo_controlled = (Ok res, demo_cancelled)
     \<and> fst (controlTask 6 demo_cancel 40 demo_cancelled) = Ok (res\<lparr>k_Deduplicated := True\<rparr>)
     \<and> s_Tasks (snd (controlTask 6 demo_cancel 40 demo_cancelled)) = s_Tasks demo_cancelled"
proof -
  obtain res where res: "controlTask 5 demo_cancel 30 demo_controlled = (Ok res, demo_cancelled)"
      "k_TaskID res = ''task-1''" "k_Action res = TaskBoardControlActionCancel"
    using demo_cancel_ok by blast
  have "cc_Enabled (s_taskBoardControl demo_cancelled)" by code_simp
  moreover have "normalizeTaskBoardControlAction (q_Action demo_cancel) = Ok TaskBoardControlActionCancel" by code_simp
  moreover have "TrimSpace (q_TaskID demo_cancel) = ''task-1''" by code_simp
  ultimately show ?thesis
    using res control_applied_once [OF res(1), of demo_cancel TaskBoardControlActionCancel 6 40]
    by (auto simp: Let_def split: prod.splits)
qed

section \<open>Snapshots\<close>

text \<open>
  C16: What restoring a snapshot does, for every state \<open>s\<close> that a store reaches and every store \<open>s0\<close> that
  restores its snapshot. If the queue of \<open>s\<close> lists queued tasks only, each once, and the workspace
  provenance of every task names the task's own run and step, it is accepted, and the store then holds the
  tasks, queue, ledger, control log, delays and statistics of \<open>s\<close> under its own configuration: up to
  conflict marks on tasks that are not terminal, which are dropped, and outcome keys, which are trimmed.
  Otherwise it is refused and \<open>s0\<close> stays as it is. Without manual control the queue is always clean.
\<close>

theorem snapshot_round_trip:
  assumes "scheduler_from sched_init s"
  shows "(if queue_clean s \<and> provenance_linked s
      then restore (snapshot s) s0 =
        (Ok (), s0\<lparr>s_Tasks := fmmap canon_record (s_Tasks s), s_Queue := s_Queue s,
           s_TerminalCommits := fmmap canon_commit (s_TerminalCommits s), s_ControlOps := s_ControlOps s,
           s_DelayedWaitMs := s_DelayedWaitMs s, s_Stats := s_Stats s, s_lastPriority := [], s_lastConsecutive := 0\<rparr>)
      else (\<exists>e. restore (snapshot s) s0 = (Err (ErrSnapshotCorrupt e), s0)))
    \<and> (reach sched_init core_step s \<longrightarrow> queue_clean s)"
  using restore_snapshot [OF from_inv [OF assms], of s0] core.reach_invar [of s] by (auto simp: adopt_def)

theorem snapshot_round_trip_witness:
  "\<exists>s0. restore (snapshot demo_running) demo_empty = (Ok (), s0) \<and> s_Tasks s0 = fmmap canon_record (s_Tasks demo_running)
     \<and> s_Queue s0 = s_Queue demo_running \<and> fmlookup (s_Tasks s0) ''task-1'' \<noteq> None"
proof -
  have "provenance_linked demo_running" "fmlookup (s_Tasks demo_running) ''task-1'' \<noteq> None" by code_simp+
  then show ?thesis using snapshot_round_trip [OF from_demo(1), of demo_empty] core_demo_running by simp
qed

text \<open>
  C20: A manual cancel of a queued task leaves the task's id in the queue, and no store accepts a
  snapshot of the state it leaves: \<open>restore\<close> reports the snapshot as corrupt.
\<close>

theorem cancel_breaks_snapshot:
  assumes "fmlookup (s_Tasks s) k = Some r" "r_State r = TaskStateQueued" "sched_inv s"
    and "TrimSpace (q_TaskID req) = k" "normalizeTaskBoardControlAction (q_Action req) = Ok TaskBoardControlActionCancel"
    and "TrimSpace (q_OperationID req) \<noteq> []" "cc_Enabled (s_taskBoardControl s)"
    and "fmlookup (s_ControlOps s) (TrimSpace (q_OperationID req)) = None"
  shows "\<exists>res s' e. controlTask clk req now s = (Ok res, s') \<and> k \<in> set (s_Queue s')
    \<and> restore (snapshot s') s0 = (Err (ErrSnapshotCorrupt e), s0)"
proof -
  obtain res s' where c: "controlTask clk req now s = (Ok res, s')" "s_Queue s' = s_Queue s"
      "\<exists>r'. fmlookup (s_Tasks s') k = Some r' \<and> r_State r' = TaskStateFailed"
    using assms
    by (auto simp: controlTask_def applyControl_def applyManualCancel_def Let_def storeRecord_def cancelRecord_def)
  have q: "k \<in> set (s_Queue s')" using c(2) assms(1-3) by (auto simp: sched_inv_def queue_ok_def)
  have inv: "sched_inv s'" using inv_controlTask [OF assms(3), of clk req now] c(1) by simp
  have "\<exists>e. restore (snapshot s') s0 = (Err (ErrSnapshotCorrupt e), s0)"
    using restore_refuses_queue [OF inv q] c(3) by auto
  then show ?thesis using c(1) q by blast
qed

theorem cancel_breaks_snapshot_witness:
  "\<exists>res s' e. controlTask 5 demo_cancel 30 demo_controlled = (Ok res, s') \<and> ''task-1'' \<in> set (s_Queue s')
     \<and> restore (snapshot s') demo_empty = (Err (ErrSnapshotCorrupt e), demo_empty)"
proof -
  have "map_option r_State (fmlookup (s_Tasks demo_controlled) ''task-1'') = Some TaskStateQueued" by code_simp
  then obtain r where r: "fmlookup (s_Tasks demo_controlled) ''task-1'' = Some r" "r_State r = TaskStateQueued" by auto
  show ?thesis
  proof (rule cancel_breaks_snapshot [OF r demo_controlled_inv])
    show "TrimSpace (q_TaskID demo_cancel) = ''task-1''" by code_simp
    show "normalizeTaskBoardControlAction (q_Action demo_cancel) = Ok TaskBoardControlActionCancel" by code_simp
    show "TrimSpace (q_OperationID demo_cancel) \<noteq> []" by code_simp
    show "cc_Enabled (s_taskBoardControl demo_controlled)" by code_simp
    show "fmlookup (s_ControlOps demo_controlled) (TrimSpace (q_OperationID demo_cancel)) = None" by code_simp
  qed
qed

section \<open>Late reports\<close>

text \<open>
  C21: What a report gets for a task that neither runs nor waits for one any more. If the ledger holds a
  commit of the reported attempt, the report is a duplicate, late exactly if that commit was made by the
  report timeout; the task keeps its state and attempts, and the queue and the ledger are unchanged. If
  it does not, as after a requeue, the report is refused with a workspace binding mismatch and nothing
  changes: the branch of \<open>commitAsyncReportTerminal\<close> that drops and records such a report is never taken,
  although the policy is always to drop and record.
\<close>

theorem late_report_outcome:
  assumes "sched_inv s" "normalizeCommit clk c = Ok n" "fmlookup (s_Tasks s) (c_TaskID n) = Some r"
    and "r_State r \<noteq> TaskStateRunning" "r_State r \<noteq> TaskStateAwaitingReport"
  shows "aa_LateReportPolicy (s_asyncAwait s) = AsyncLateReportPolicyDropAndRecord
    \<and> (case fmlookup (s_TerminalCommits s) (terminalCommitKey (c_TaskID n) (c_AttemptID n)) of
         None \<Rightarrow> commitAsyncReportTerminal clk c s = (Err ErrWorkspaceBindingMismatch, s)
       | Some existing \<Rightarrow>
           \<exists>res s'. commitAsyncReportTerminal clk c s = (Ok res, s') \<and> cr_Duplicate res
             \<and> (cr_LateReport res \<longleftrightarrow> isTimeoutTerminalCommit existing)
             \<and> fmlookup (s_Tasks s') (c_TaskID n) = Some (cr_Record res)
             \<and> r_State (cr_Record res) = r_State r \<and> r_Attempts (cr_Record res) = r_Attempts r
             \<and> s_Queue s' = s_Queue s \<and> s_TerminalCommits s' = s_TerminalCommits s)"
proof -
  have none: "currentAttempt r = None"
    using wf_idle_current [OF sched_inv_record [OF assms(1,3)] assms(4,5)] .
  define m where "m = (if c_Source n = [] then n\<lparr>c_Source := AsyncResolutionSourceCallback\<rparr> else n)"
  have m: "c_TaskID m = c_TaskID n" "c_AttemptID m = c_AttemptID n" by (simp_all add: m_def)
  have policy: "aa_LateReportPolicy (s_asyncAwait s) = AsyncLateReportPolicyDropAndRecord"
    using assms(1) by (simp add: sched_inv_def config_ok_def)
  show ?thesis
  proof (cases "fmlookup (s_TerminalCommits s) (terminalCommitKey (c_TaskID n) (c_AttemptID n))")
    case None
    then show ?thesis
      using assms none policy m by (simp add: commitAsyncReportTerminal_def Let_def m_def [symmetric])
  next
    case (Some existing)
    then show ?thesis
      using assms policy m
      by (auto simp: commitAsyncReportTerminal_def Let_def m_def [symmetric] flagConflict_def bumpDuplicate_def
          commitOutcome_def storeRecord_def)
  qed
qed

definition demo_requeued :: scheduler_state where
  "demo_requeued = snd (requeue 5 ''task-1'' 40 demo_running)"

lemma demo_requeued_inv: "sched_inv demo_requeued"
  unfolding demo_requeued_def by (intro inv_requeue demo_inv(3))

theorem late_report_outcome_witness:
  "commitAsyncReportTerminal 5 (demo_commit ''task-1-attempt-1'') demo_requeued = (Err ErrWorkspaceBindingMismatch, demo_requeued)
   \<and> (\<exists>res s'. commitAsyncReportTerminal 5 (demo_commit ''task-1-attempt-1'') demo_done = (Ok res, s') \<and> cr_Duplicate res)"
proof -
  let ?c = "demo_commit ''task-1-attempt-1''"
  have "case normalizeCommit 5 ?c of Inl _ \<Rightarrow> False | Inr n \<Rightarrow> c_TaskID n = ''task-1'' \<and> c_AttemptID n = ''task-1-attempt-1''"
    by code_simp
  then obtain n where n: "normalizeCommit 5 ?c = Ok n" "c_TaskID n = ''task-1''" "c_AttemptID n = ''task-1-attempt-1''"
    by (auto split: sum.splits)
  have "map_option r_State (fmlookup (s_Tasks demo_requeued) ''task-1'') = Some TaskStateQueued" by code_simp
  then obtain r where r: "fmlookup (s_Tasks demo_requeued) ''task-1'' = Some r" "r_State r = TaskStateQueued" by auto
  have "fmlookup (s_TerminalCommits demo_requeued) (terminalCommitKey ''task-1'' ''task-1-attempt-1'') = None" by code_simp
  then have "commitAsyncReportTerminal 5 ?c demo_requeued = (Err ErrWorkspaceBindingMismatch, demo_requeued)"
    using late_report_outcome [OF demo_requeued_inv n(1), of r] n r by simp
  moreover have "map_option r_State (fmlookup (s_Tasks demo_done) ''task-1'') = Some TaskStateSucceeded" by code_simp
  then obtain q where q: "fmlookup (s_Tasks demo_done) ''task-1'' = Some q" "r_State q = TaskStateSucceeded" by auto
  have "fmlookup (s_TerminalCommits demo_done) (terminalCommitKey ''task-1'' ''task-1-attempt-1'') \<noteq> None" by code_simp
  then obtain e where "fmlookup (s_TerminalCommits demo_done) (terminalCommitKey ''task-1'' ''task-1-attempt-1'') = Some e" by auto
  then have "\<exists>res s'. commitAsyncReportTerminal 5 ?c demo_done = (Ok res, s') \<and> cr_Duplicate res"
    using late_report_outcome [OF from_inv [OF from_demo(2)] n(1), of q] n q by auto
  ultimately show ?thesis ..
qed

end
