(* ===== verification/Scheduler_Store.thy ===== *)
theory Scheduler_Store
  imports Scheduler_Snapshot
begin

text \<open>
  The interface \<open>QueueStore\<close> of \<open>src/orchestration/scheduler/types.go\<close> as a record of its
  methods (with the optional methods the facade looks for: the setters, \<open>Snapshot\<close> and
  \<open>Restore\<close>), its contract, and the in-memory store of \<open>store_memory.go\<close>. A store is a value of
  the type \<open>'s\<close>; a method returns its Go result and the store it leaves. The first argument
  \<open>clk\<close> is what \<open>time.Now()\<close> reads during the call.
\<close>

record 's queue_store =
  qs_SetGovernance :: "governance_config \<Rightarrow> 's \<Rightarrow> 's"
  qs_SetRecoveryBoundary :: "recovery_config \<Rightarrow> 's \<Rightarrow> 's"
  qs_SetAsyncAwait :: "async_await_config \<Rightarrow> 's \<Rightarrow> 's"
  qs_SetTaskBoardControl :: "control_config \<Rightarrow> 's \<Rightarrow> 's"
  qs_Enqueue :: "time \<Rightarrow> task \<Rightarrow> time \<Rightarrow> 's \<Rightarrow> (sched_error, task_record) result \<times> 's"
  qs_Claim :: "time \<Rightarrow> string \<Rightarrow> time \<Rightarrow> duration \<Rightarrow> 's \<Rightarrow> (sched_error, claimed_task option) result \<times> 's"
  qs_ControlTask :: "time \<Rightarrow> control_request \<Rightarrow> time \<Rightarrow> 's \<Rightarrow> (sched_error, control_result) result \<times> 's"
  qs_Heartbeat ::
    "time \<Rightarrow> string \<Rightarrow> string \<Rightarrow> string \<Rightarrow> time \<Rightarrow> duration \<Rightarrow> 's \<Rightarrow> (sched_error, claimed_task) result \<times> 's"
  qs_ExpireLeases :: "time \<Rightarrow> time \<Rightarrow> 's \<Rightarrow> (sched_error, claimed_task list) result \<times> 's"
  qs_ExpireAwaitingReports :: "time \<Rightarrow> time \<Rightarrow> 's \<Rightarrow> (sched_error, claimed_task list) result \<times> 's"
  qs_MarkAwaitingReport ::
    "time \<Rightarrow> string \<Rightarrow> string \<Rightarrow> string \<Rightarrow> time \<Rightarrow> duration \<Rightarrow> 's \<Rightarrow> (sched_error, task_record) result \<times> 's"
  qs_ListAwaitingReport :: "time \<Rightarrow> time \<Rightarrow> int \<Rightarrow> 's \<Rightarrow> task_record list"
  qs_RecordAsyncReconcileStats :: "time \<Rightarrow> int \<Rightarrow> int \<Rightarrow> 's \<Rightarrow> (sched_error, unit) result \<times> 's"
  qs_Requeue :: "time \<Rightarrow> string \<Rightarrow> time \<Rightarrow> 's \<Rightarrow> (sched_error, task_record) result \<times> 's"
  qs_CommitTerminal :: "time \<Rightarrow> terminal_commit \<Rightarrow> 's \<Rightarrow> (sched_error, commit_result) result \<times> 's"
  qs_CommitAsyncReportTerminal :: "time \<Rightarrow> terminal_commit \<Rightarrow> 's \<Rightarrow> (sched_error, commit_result) result \<times> 's"
  qs_Get :: "string \<Rightarrow> 's \<Rightarrow> task_record option"
  qs_Stats :: "'s \<Rightarrow> stats"
  qs_Snapshot :: "'s \<Rightarrow> store_snapshot"
  qs_Restore :: "time \<Rightarrow> store_snapshot \<Rightarrow> 's \<Rightarrow> (sched_error, unit) result \<times> 's"

section \<open>The in-memory store\<close>

text \<open>Each method runs the operation of the state machine under the store's lock.\<close>

definition memory_Claim :: "time \<Rightarrow> string \<Rightarrow> time \<Rightarrow> duration \<Rightarrow> claimed_task option sched_op" where
  "memory_Claim clk workerID now leaseTimeout s = claim clk (TrimSpace workerID) now leaseTimeout s"

definition memory_ExpireLeases :: "time \<Rightarrow> time \<Rightarrow> claimed_task list sched_op" where
  "memory_ExpireLeases clk now s = (case expireLeases clk now s of (expired, s') \<Rightarrow> (Ok expired, s'))"

definition memory_ExpireAwaitingReports :: "time \<Rightarrow> time \<Rightarrow> claimed_task list sched_op" where
  "memory_ExpireAwaitingReports clk now s =
     (case expireAwaitingReports clk now s of (expired, s') \<Rightarrow> (Ok expired, s'))"

definition memory_RecordAsyncReconcileStats :: "time \<Rightarrow> int \<Rightarrow> int \<Rightarrow> unit sched_op" where
  "memory_RecordAsyncReconcileStats clk pollTotal errorTotal s =
     (Ok (), recordAsyncReconcileStats pollTotal errorTotal s)"

definition NewMemoryStore :: scheduler_state where
  "NewMemoryStore = newSchedulerState ''memory''"

definition MemoryStore :: "scheduler_state queue_store" where
  "MemoryStore =
     \<lparr>qs_SetGovernance = setGovernance, qs_SetRecoveryBoundary = setRecoveryBoundary,
      qs_SetAsyncAwait = setAsyncAwait, qs_SetTaskBoardControl = setTaskBoardControl,
      qs_Enqueue = enqueue, qs_Claim = memory_Claim, qs_ControlTask = controlTask, qs_Heartbeat = heartbeat,
      qs_ExpireLeases = memory_ExpireLeases, qs_ExpireAwaitingReports = memory_ExpireAwaitingReports,
      qs_MarkAwaitingReport = markAwaitingReport, qs_ListAwaitingReport = listAwaitingReport,
      qs_RecordAsyncReconcileStats = memory_RecordAsyncReconcileStats, qs_Requeue = requeue,
      qs_CommitTerminal = commitTerminal, qs_CommitAsyncReportTerminal = commitAsyncReportTerminal,
      qs_Get = getTask, qs_Stats = s_Stats, qs_Snapshot = snapshot,
      qs_Restore = (\<lambda>clk. restore)\<rparr>"

end
