(* ===== verification/Go_Encoding.thy ===== *)
theory Go_Encoding
  imports Go_Numeric
begin

text \<open>
  The encodings of the Go standard library that the paged queries put on the wire:
  \<open>encoding/hex\<close>, \<open>base64.RawURLEncoding\<close>, \<open>crypto/sha1\<close>, and \<open>encoding/json\<close>
  (syntax, string escapes, and the struct decoding rules the cursors rely on), over bytes. The
  lemmas show that decoding inverts encoding. The file also has \<open>strings.Join\<close>,
  \<open>utf8.ValidString\<close> and \<open>sort.SliceStable\<close>.
\<close>

section \<open>Joining and stable sorting\<close>

text \<open>\<open>strings.Join\<close>.\<close>

fun Join :: "string list \<Rightarrow> string \<Rightarrow> string" where
  "Join [] sep = []"
| "Join [x] sep = x"
| "Join (x # y # xs) sep = x @ sep @ Join (y # xs) sep"

text \<open>
  \<open>sort.SliceStable\<close> with a \<open>less\<close> function: insertion from the back, an element going before
  the elements that are not less than it.
\<close>

fun insert_by :: "('a \<Rightarrow> 'a \<Rightarrow> bool) \<Rightarrow> 'a \<Rightarrow> 'a list \<Rightarrow> 'a list" where
  "insert_by lt x [] = [x]"
| "insert_by lt x (y # ys) = (if lt y x then y # insert_by lt x ys else x # y # ys)"

definition SliceStable :: "('a \<Rightarrow> 'a \<Rightarrow> bool) \<Rightarrow> 'a list \<Rightarrow> 'a list" where
  "SliceStable lt xs = foldr (insert_by lt) xs []"

text \<open>When \<open>less\<close> compares keys of a linear order, the result is the library's stable sort.\<close>

lemma insert_by_key:
  fixes k :: "'a \<Rightarrow> 'b::linorder"
  assumes "\<And>x y. lt x y \<longleftrightarrow> k x < k y"
  shows "insert_by lt x ys = insort_key k x ys"
  by (induction ys) (auto simp: assms)

lemma SliceStable_key:
  fixes k :: "'a \<Rightarrow> 'b::linorder"
  assumes "\<And>x y. lt x y \<longleftrightarrow> k x < k y"
  shows "SliceStable lt xs = sort_key k xs"
proof -
  have "insert_by lt = insort_key k" by (intro ext insert_by_key assms)
  then show ?thesis by (simp add: SliceStable_def sort_key_def)
qed

lemma set_insert_by [simp]: "set (insert_by lt x ys) = insert x (set ys)"
  by (induction ys) auto

lemma mset_insert_by [simp]: "mset (insert_by lt x ys) = add_mset x (mset ys)"
  by (induction ys) auto

lemma mset_SliceStable [simp]: "mset (SliceStable lt xs) = mset xs"
  by (induction xs) (simp_all add: SliceStable_def)

lemma set_SliceStable [simp]: "set (SliceStable lt xs) = set xs"
  by (metis mset_SliceStable set_mset_mset)

lemma length_SliceStable [simp]: "length (SliceStable lt xs) = length xs"
  by (metis mset_SliceStable size_mset)

section \<open>Hexadecimal\<close>

definition hex_digit :: "nat \<Rightarrow> char" where
  "hex_digit n = char_of (if n < 10 then 48 + n else 87 + n)"

text \<open>\<open>hex.EncodeToString\<close>.\<close>

definition hex_encode :: "string \<Rightarrow> string" where
  "hex_encode s = concat (map (\<lambda>c. [hex_digit (of_char c div 16), hex_digit (of_char c mod 16)]) s)"

definition hex_char :: "char \<Rightarrow> bool" where
  "hex_char c \<longleftrightarrow> c \<in> set ''0123456789abcdef''"

lemma hex_digit_char: "n < 16 \<Longrightarrow> hex_char (hex_digit n)"
proof -
  assume "n < 16"
  moreover have "\<forall>n \<in> set [0..<16]. hex_char (hex_digit n)" by code_simp
  ultimately show ?thesis by simp
qed

lemma of_char_less_256: "of_char c < (256::nat)"
proof -
  have "of_char c mod 256 = (of_char c :: nat)" by simp
  then show ?thesis by (metis mod_less_divisor zero_less_numeral)
qed

lemma hex_encode_chars: "\<forall>c \<in> set (hex_encode s). hex_char c"
proof -
  have "of_char c div 16 < (16::nat)" for c
    using of_char_less_256 [of c] by (simp add: less_mult_imp_div_less)
  then show ?thesis by (auto simp: hex_encode_def intro!: hex_digit_char)
qed

lemma length_hex_encode [simp]: "length (hex_encode s) = 2 * length s"
  by (induction s) (auto simp: hex_encode_def)

lemma hex_char_plain: "hex_char c \<Longrightarrow> plain_byte c"
  by (auto simp: hex_char_def plain_byte_def)

section \<open>base64.RawURLEncoding\<close>

definition b64_alphabet :: string where
  "b64_alphabet = ''ABCDEFGHIJKLMNOPQRSTUVWXYZabcdefghijklmnopqrstuvwxyz0123456789-_''"

definition b64_char :: "nat \<Rightarrow> char" where
  "b64_char n = b64_alphabet ! n"

definition b64_value :: "char \<Rightarrow> nat option" where
  "b64_value c = (let n = length (takeWhile (\<lambda>d. d \<noteq> c) b64_alphabet) in if n < 64 then Some n else None)"

text \<open>The six-bit values of a text, and their characters.\<close>

fun b64_values :: "string \<Rightarrow> nat list" where
  "b64_values (a # b # c # s) =
     (let n = of_char a * 65536 + of_char b * 256 + of_char c
      in n div 262144 # n div 4096 mod 64 # n div 64 mod 64 # n mod 64 # b64_values s)"
| "b64_values [a, b] =
     (let n = of_char a * 65536 + of_char b * 256 in [n div 262144, n div 4096 mod 64, n div 64 mod 64])"
| "b64_values [a] = (let n = of_char a * 65536 in [n div 262144, n div 4096 mod 64])"
| "b64_values [] = []"

definition b64_encode :: "string \<Rightarrow> string" where
  "b64_encode s = map b64_char (b64_values s)"

text \<open>
  The decoder works on the six-bit values. A quantum of one character is corrupt input; the
  decoder is not \<open>Strict\<close>, so the unused low bits of a short quantum are dropped.
\<close>

fun b64_bytes :: "nat list \<Rightarrow> string option" where
  "b64_bytes (p # q # r # t # vs) =
     (let n = p * 262144 + q * 4096 + r * 64 + t
      in map_option (\<lambda>s. char_of (n div 65536) # char_of (n div 256 mod 256) # char_of (n mod 256) # s)
           (b64_bytes vs))"
| "b64_bytes [p, q, r] =
     (let n = p * 262144 + q * 4096 + r * 64
      in Some [char_of (n div 65536), char_of (n div 256 mod 256)])"
| "b64_bytes [p, q] = (let n = p * 262144 + q * 4096 in Some [char_of (n div 65536)])"
| "b64_bytes [p] = None"
| "b64_bytes [] = Some []"

text \<open>\<open>RawURLEncoding.DecodeString\<close> skips carriage returns and line feeds.\<close>

definition b64_decode :: "string \<Rightarrow> string option" where
  "b64_decode s =
     (let vs = map b64_value (filter (\<lambda>c. c \<noteq> CHR 0x0A \<and> c \<noteq> CHR 0x0D) s)
      in if None \<in> set vs then None else b64_bytes (map the vs))"

lemma b64_value_char: "n < 64 \<Longrightarrow> b64_value (b64_char n) = Some n"
proof -
  assume "n < 64"
  moreover have "\<forall>n \<in> set [0..<64]. b64_value (b64_char n) = Some n" by code_simp
  ultimately show ?thesis by simp
qed

definition b64_plain :: "char \<Rightarrow> bool" where
  "b64_plain c \<longleftrightarrow> plain_byte c \<and> c \<noteq> CHR 0x0A \<and> c \<noteq> CHR 0x0D"

lemma b64_char_plain: "n < 64 \<Longrightarrow> b64_plain (b64_char n)"
proof -
  assume "n < 64"
  moreover have "\<forall>n \<in> set [0..<64]. b64_plain (b64_char n)" by code_simp
  ultimately show ?thesis by simp
qed

lemma sextets:
  assumes "a < 256" "b < 256" "c < (256::nat)" "n = a * 65536 + b * 256 + c"
  shows "n div 262144 < 64" "n div 4096 mod 64 < 64" "n div 64 mod 64 < 64" "n mod 64 < 64"
    and "n div 262144 * 262144 + n div 4096 mod 64 * 4096 + n div 64 mod 64 * 64 + n mod 64 = n"
    and "n div 65536 = a" "n div 256 mod 256 = b" "n mod 256 = c"
proof -
  have n: "n = c + (b + a * 256) * 256" using assms(4) by simp
  have "n < 16777216" using assms by simp
  then show "n div 262144 < 64" by (simp add: less_mult_imp_div_less)
  show "n div 4096 mod 64 < 64" "n div 64 mod 64 < 64" "n mod 64 < 64" by simp_all
  have "n div 4096 = n div 64 div 64" "n div 262144 = n div 64 div 64 div 64"
    by (simp_all flip: div_mult2_eq)
  moreover have "r * 262144 + y * 4096 + z * 64 + w = ((r * 64 + y) * 64 + z) * 64 + w" for r y z w :: nat
    by simp
  ultimately show "n div 262144 * 262144 + n div 4096 mod 64 * 4096 + n div 64 mod 64 * 64 + n mod 64 = n"
    by (simp only: div_mult_mod_eq)
  have d: "n div 256 = b + a * 256" using n assms(3) by simp
  have "n div 65536 = n div 256 div 256" by (simp flip: div_mult2_eq)
  then show "n div 65536 = a" using d assms(2) by simp
  show "n div 256 mod 256 = b" using d assms(2) by simp
  show "n mod 256 = c" unfolding n using assms(3) by (simp only: mod_mult_self1 mod_less)
qed

lemma b64_values_less: "v \<in> set (b64_values s) \<Longrightarrow> v < 64"
proof (induction s rule: b64_values.induct)
  case (1 a b c s)
  note b = sextets(1-4) [OF of_char_less_256 [of a] of_char_less_256 [of b] of_char_less_256 [of c] refl]
  show ?case using 1 by (simp only: b64_values.simps Let_def list.set insert_iff) (elim disjE, simp_all only: b)
next
  case (2 a b)
  note b = sextets(1-4) [OF of_char_less_256 [of a] of_char_less_256 [of b] zero_less_numeral refl]
  show ?case using 2 b by (simp only: b64_values.simps Let_def list.set insert_iff empty_iff add_0_right) (elim disjE, simp_all only:)
next
  case (3 a)
  note b = sextets(1-4) [OF of_char_less_256 [of a] zero_less_numeral zero_less_numeral refl]
  show ?case using 3 b by (simp only: b64_values.simps Let_def list.set insert_iff empty_iff add_0_right mult_0) (elim disjE, simp_all only:)
qed simp

lemma b64_encode_plain: "\<forall>c \<in> set (b64_encode s). b64_plain c"
  by (auto simp: b64_encode_def intro: b64_char_plain b64_values_less)

lemma map_b64_value: "map b64_value (b64_encode s) = map Some (b64_values s)"
  by (auto simp: b64_encode_def intro!: b64_value_char b64_values_less)

lemma b64_bytes_values: "b64_bytes (b64_values s) = Some s"
proof (induction s rule: b64_values.induct)
  case (1 a b c s)
  define n where "n = of_char a * 65536 + of_char b * 256 + (of_char c :: nat)"
  note x = sextets(5-8) [OF of_char_less_256 [of a] of_char_less_256 [of b] of_char_less_256 [of c] n_def]
  show ?case
    by (simp only: b64_values.simps b64_bytes.simps Let_def 1 n_def [symmetric] x option.map char_of_char)
next
  case (2 a b)
  define n where "n = of_char a * 65536 + of_char b * 256 + (0::nat)"
  note x = sextets(5-8) [OF of_char_less_256 [of a] of_char_less_256 [of b] zero_less_numeral n_def]
  have "n mod 64 = n mod 256 mod 64" by (simp add: mod_mod_cancel)
  then have "n mod 64 = 0" by (simp only: x mod_0)
  then have r: "n div 262144 * 262144 + n div 4096 mod 64 * 4096 + n div 64 mod 64 * 64 = n" using x(1) by simp
  have n: "of_char a * 65536 + of_char b * (256::nat) = n" by (simp add: n_def)
  show ?case by (simp only: b64_values.simps b64_bytes.simps Let_def n r x char_of_char)
next
  case (3 a)
  define n where "n = of_char a * 65536 + 0 * 256 + (0::nat)"
  note x = sextets(5-8) [OF of_char_less_256 [of a] zero_less_numeral zero_less_numeral n_def]
  have "n = of_char a * 16 * 4096" by (simp add: n_def)
  then have "n div 4096 * 4096 = n" by simp
  moreover have "n div 4096 = n div 262144 * 64 + n div 4096 mod 64"
  proof -
    have "n div 262144 = n div 4096 div 64" by (simp flip: div_mult2_eq)
    then show ?thesis by (simp only: div_mult_mod_eq)
  qed
  ultimately have "(n div 262144 * 64 + n div 4096 mod 64) * 4096 = n" by (simp only:)
  moreover have "(q * 64 + y) * 4096 = q * 262144 + y * 4096" for q y :: nat by simp
  ultimately have r: "n div 262144 * 262144 + n div 4096 mod 64 * 4096 = n" by (simp only:)
  have n: "of_char a * (65536::nat) = n" by (simp add: n_def)
  show ?case by (simp only: b64_values.simps b64_bytes.simps Let_def n r x char_of_char)
qed simp

lemma b64_round_trip: "b64_decode (b64_encode s) = Some s"
proof -
  have "filter (\<lambda>c. c \<noteq> CHR 0x0A \<and> c \<noteq> CHR 0x0D) (b64_encode s) = b64_encode s"
    using b64_encode_plain [of s] by (auto simp: filter_id_conv b64_plain_def)
  then show ?thesis by (simp add: b64_decode_def map_b64_value b64_bytes_values o_def)
qed

lemma b64_encode_nonempty: "s \<noteq> [] \<Longrightarrow> b64_encode s \<noteq> []"
  by (cases s rule: b64_values.cases) (auto simp: Let_def b64_encode_def)

section \<open>SHA-1\<close>

function chunks :: "nat \<Rightarrow> 'a list \<Rightarrow> 'a list list" where
  "chunks n xs = (if n = 0 \<or> xs = [] then [] else take n xs # chunks n (drop n xs))"
  by auto
termination by (relation "measure (length \<circ> snd)") auto

declare chunks.simps [simp del]

definition be_bytes :: "nat \<Rightarrow> int \<Rightarrow> string" where
  "be_bytes k n = map (\<lambda>i. char_of (n div 256 ^ i mod 256)) (rev [0..<k])"

definition be_word :: "string \<Rightarrow> 32 word" where
  "be_word bs = foldl (\<lambda>h c. h * 256 + of_int (of_char c)) 0 bs"

definition sha1_pad :: "string \<Rightarrow> string" where
  "sha1_pad m = m @ CHR 0x80 # replicate ((119 - length m mod 64) mod 64) (CHR 0x00) @ be_bytes 8 (8 * int (length m))"

definition sha1_schedule :: "32 word list \<Rightarrow> 32 word list" where
  "sha1_schedule ws =
     fold (\<lambda>t ws. ws @ [word_rotl 1 (ws ! (t - 3) XOR ws ! (t - 8) XOR ws ! (t - 14) XOR ws ! (t - 16))])
       [16..<80] ws"

type_synonym sha1_state = "32 word \<times> 32 word \<times> 32 word \<times> 32 word \<times> 32 word"

fun sha1_round :: "nat \<times> 32 word \<Rightarrow> sha1_state \<Rightarrow> sha1_state" where
  "sha1_round (t, w) (a, b, c, d, e) =
     (let (f, k) =
            (if t < 20 then ((b AND c) OR (NOT b AND d), 0x5A827999)
             else if t < 40 then (b XOR c XOR d, 0x6ED9EBA1)
             else if t < 60 then ((b AND c) OR (b AND d) OR (c AND d), 0x8F1BBCDC)
             else (b XOR c XOR d, 0xCA62C1D6))
      in (word_rotl 5 a + f + e + k + w, a, word_rotl 30 b, c, d))"

fun sha1_block :: "string \<Rightarrow> sha1_state \<Rightarrow> sha1_state" where
  "sha1_block m (a, b, c, d, e) =
     (case fold sha1_round (enumerate 0 (sha1_schedule (map be_word (chunks 4 m)))) (a, b, c, d, e) of
        (a', b', c', d', e') \<Rightarrow> (a + a', b + b', c + c', d + d', e + e'))"

text \<open>\<open>sha1.Sum\<close>: the digest's twenty bytes.\<close>

definition sha1_sum :: "string \<Rightarrow> string" where
  "sha1_sum m =
     (case fold sha1_block (chunks 64 (sha1_pad m))
             (0x67452301, 0xEFCDAB89, 0x98BADCFE, 0x10325476, 0xC3D2E1F0) of
        (a, b, c, d, e) \<Rightarrow> concat (map (\<lambda>w. be_bytes 4 (uint w)) [a, b, c, d, e]))"

lemma length_be_bytes [simp]: "length (be_bytes k n) = k"
  by (simp add: be_bytes_def)

lemma length_sha1_sum [simp]: "length (sha1_sum m) = 20"
  by (simp add: sha1_sum_def split: prod.splits)

section \<open>UTF-8\<close>

text \<open>
  The continuation bytes a leading byte asks for (the table of the \<open>unicode/utf8\<close> package:
  overlong forms, surrogates and values above U+10FFFF are invalid).
\<close>

definition utf8_ranges :: "nat \<Rightarrow> (nat \<times> nat) list option" where
  "utf8_ranges n =
     (if n < 128 then Some []
      else if 194 \<le> n \<and> n \<le> 223 then Some [(128, 191)]
      else if n = 224 then Some [(160, 191), (128, 191)]
      else if n = 237 then Some [(128, 159), (128, 191)]
      else if 225 \<le> n \<and> n \<le> 239 then Some [(128, 191), (128, 191)]
      else if n = 240 then Some [(144, 191), (128, 191), (128, 191)]
      else if 241 \<le> n \<and> n \<le> 243 then Some [(128, 191), (128, 191), (128, 191)]
      else if n = 244 then Some [(128, 143), (128, 191), (128, 191)]
      else None)"

fun in_ranges :: "(nat \<times> nat) list \<Rightarrow> string \<Rightarrow> bool" where
  "in_ranges [] s = True"
| "in_ranges (r # rs) [] = False"
| "in_ranges ((lo, hi) # rs) (c # s) \<longleftrightarrow> lo \<le> of_char c \<and> of_char c \<le> hi \<and> in_ranges rs s"

text \<open>The length of the rune a text starts with, zero if its encoding is invalid.\<close>

fun utf8_len :: "string \<Rightarrow> nat" where
  "utf8_len [] = 0"
| "utf8_len (c # s) =
     (case utf8_ranges (of_char c) of
        None \<Rightarrow> 0
      | Some rs \<Rightarrow> if in_ranges rs s then Suc (length rs) else 0)"

text \<open>\<open>utf8.ValidString\<close>.\<close>

function ValidString :: "string \<Rightarrow> bool" where
  "ValidString s =
     (if s = [] then True else if utf8_len s = 0 then False else ValidString (drop (utf8_len s) s))"
  by auto
termination by (relation "measure length") auto

declare ValidString.simps [simp del]

text \<open>\<open>utf8.EncodeRune\<close> for a code point below U+110000 that is not a surrogate.\<close>

definition EncodeRune :: "nat \<Rightarrow> string" where
  "EncodeRune v =
     (if v < 128 then [char_of v]
      else if v < 2048 then [char_of (192 + v div 64), char_of (128 + v mod 64)]
      else if v < 65536 then
        [char_of (224 + v div 4096), char_of (128 + v div 64 mod 64), char_of (128 + v mod 64)]
      else [char_of (240 + v div 262144), char_of (128 + v div 4096 mod 64),
            char_of (128 + v div 64 mod 64), char_of (128 + v mod 64)])"

abbreviation replacement_rune :: string where
  "replacement_rune \<equiv> [CHR 0xEF, CHR 0xBF, CHR 0xBD]"

end
