(* ===== verification/Go_Json.thy ===== *)
theory Go_Json
  imports Go_Encoding
begin

text \<open>
  The part of \<open>encoding/json\<close> behind the query cursors: how \<open>Marshal\<close> writes strings, the
  syntax \<open>Unmarshal\<close> accepts, and how it fills integer and string fields of a struct.
  The parser takes fuel: every call consumes at least one byte before the next one, so one more
  than the length of the input is enough; nesting deeper than 10000 is an error, as in Go.
\<close>

section \<open>Marshal\<close>

definition hex4 :: "nat \<Rightarrow> string" where
  "hex4 v = map hex_digit [v div 4096 mod 16, v div 256 mod 16, v div 16 mod 16, v mod 16]"

abbreviation quote_char :: char where "quote_char \<equiv> CHR 0x22"
abbreviation backslash :: char where "backslash \<equiv> CHR 0x5C"

definition json_escape_byte :: "char \<Rightarrow> string" where
  "json_escape_byte c =
     (if c = quote_char \<or> c = backslash then [backslash, c]
      else if c = CHR 0x08 then [backslash, CHR ''b'']
      else if c = CHR 0x0C then [backslash, CHR ''f'']
      else if c = CHR 0x0A then [backslash, CHR ''n'']
      else if c = CHR 0x0D then [backslash, CHR ''r'']
      else if c = CHR 0x09 then [backslash, CHR ''t'']
      else if of_char c < (32::nat) \<or> c = CHR ''<'' \<or> c = CHR ''>'' \<or> c = CHR ''&''
      then backslash # CHR ''u'' # hex4 (of_char c)
      else [c])"

function json_escape :: "string \<Rightarrow> string" where
  "json_escape [] = []"
| "json_escape (c # s) =
     (if of_char c < (128::nat) then json_escape_byte c @ json_escape s
      else if utf8_len (c # s) = 0 then backslash # CHR ''u'' # hex4 0xFFFD @ json_escape s
      else
        let k = utf8_len (c # s); rune = take k (c # s)
        in (if rune = EncodeRune 0x2028 then backslash # CHR ''u'' # hex4 0x2028
            else if rune = EncodeRune 0x2029 then backslash # CHR ''u'' # hex4 0x2029
            else rune) @ json_escape (drop k (c # s)))"
  by pat_completeness auto
termination by (relation "measure length") auto

declare json_escape.simps(2) [simp del]

definition json_quote :: "string \<Rightarrow> string" where
  "json_quote s = quote_char # json_escape s @ [quote_char]"

section \<open>Unmarshal\<close>

datatype json =
    JNull
  | JBool bool
  | JNumber string
  | JString string
  | JArray "json list"
  | JObject "(string \<times> json) list"

definition json_space :: "char \<Rightarrow> bool" where
  "json_space c \<longleftrightarrow> c = CHR 0x20 \<or> c = CHR 0x09 \<or> c = CHR 0x0A \<or> c = CHR 0x0D"

definition skip_space :: "string \<Rightarrow> string" where
  "skip_space s = dropWhile json_space s"

definition hex_value :: "char \<Rightarrow> nat option" where
  "hex_value c =
     (let n = of_char c in
      if 48 \<le> n \<and> n \<le> 57 then Some (n - 48)
      else if 97 \<le> n \<and> n \<le> 102 then Some (n - 87)
      else if 65 \<le> n \<and> n \<le> 70 then Some (n - 55)
      else None)"

fun hex4_value :: "string \<Rightarrow> nat option" where
  "hex4_value (a # b # c # d # s) =
     (case (hex_value a, hex_value b, hex_value c, hex_value d) of
        (Some p, Some q, Some r, Some t) \<Rightarrow> Some (p * 4096 + q * 256 + r * 16 + t)
      | _ \<Rightarrow> None)"
| "hex4_value _ = None"

definition simple_escape :: "char \<Rightarrow> char option" where
  "simple_escape e =
     (if e = quote_char \<or> e = backslash \<or> e = CHR ''/'' then Some e
      else if e = CHR ''b'' then Some (CHR 0x08)
      else if e = CHR ''f'' then Some (CHR 0x0C)
      else if e = CHR ''n'' then Some (CHR 0x0A)
      else if e = CHR ''r'' then Some (CHR 0x0D)
      else if e = CHR ''t'' then Some (CHR 0x09)
      else None)"

text \<open>
  A \<open>\u\<close> escape with value \<open>v\<close>, followed by \<open>rest\<close>: the bytes it stands for and how much
  of \<open>rest\<close> belongs to it (the second half of a surrogate pair).
\<close>

definition unicode_escape :: "nat \<Rightarrow> string \<Rightarrow> string \<times> nat" where
  "unicode_escape v rest =
     (if 0xD800 \<le> v \<and> v \<le> 0xDFFF then
        (case (if take 2 rest = [backslash, CHR ''u''] then hex4_value (drop 2 rest) else None) of
           Some w \<Rightarrow>
             if v < 0xDC00 \<and> 0xDC00 \<le> w \<and> w \<le> 0xDFFF
             then (EncodeRune ((v - 0xD800) * 1024 + (w - 0xDC00) + 0x10000), 6)
             else (replacement_rune, 0)
         | None \<Rightarrow> (replacement_rune, 0))
      else (EncodeRune v, 0))"

text \<open>The rest of a string literal, after its opening quote: its value and what follows it.\<close>

function json_string_body :: "string \<Rightarrow> (string \<times> string) option" where
  "json_string_body [] = None"
| "json_string_body (c # s) =
     (if c = quote_char then Some ([], s)
      else if c = backslash then
        (case s of
           [] \<Rightarrow> None
         | e # s' \<Rightarrow>
             (case simple_escape e of
                Some d \<Rightarrow> map_option (apfst (\<lambda>t. d # t)) (json_string_body s')
              | None \<Rightarrow>
                  if e \<noteq> CHR ''u'' then None
                  else
                    (case hex4_value s' of
                       None \<Rightarrow> None
                     | Some v \<Rightarrow>
                         let (bytes, k) = unicode_escape v (drop 4 s')
                         in map_option (apfst (\<lambda>t. bytes @ t)) (json_string_body (drop (4 + k) s')))))
      else if of_char c < (32::nat) then None
      else if of_char c < (128::nat) then map_option (apfst (\<lambda>t. c # t)) (json_string_body s)
      else if utf8_len (c # s) = 0 then map_option (apfst (\<lambda>t. replacement_rune @ t)) (json_string_body s)
      else
        let k = utf8_len (c # s)
        in map_option (apfst (\<lambda>t. take k (c # s) @ t)) (json_string_body (drop k (c # s))))"
  by pat_completeness auto
termination by (relation "measure length") auto

declare json_string_body.simps(2) [simp del]

definition digits :: "string \<Rightarrow> string \<times> string" where
  "digits s = (takeWhile digit s, dropWhile digit s)"

definition json_fraction :: "string \<Rightarrow> (string \<times> string) option" where
  "json_fraction s =
     (case s of
        c # r \<Rightarrow>
          if c = CHR ''.'' then
            (case digits r of (ds, r') \<Rightarrow> if ds = [] then None else Some (c # ds, r'))
          else Some ([], s)
      | [] \<Rightarrow> Some ([], s))"

definition json_exponent :: "string \<Rightarrow> (string \<times> string) option" where
  "json_exponent s =
     (case s of
        c # r \<Rightarrow>
          if c = CHR ''e'' \<or> c = CHR ''E'' then
            let sg = (case r of d # _ \<Rightarrow> if d = CHR ''+'' \<or> d = CHR ''-'' then [d] else [] | [] \<Rightarrow> [])
            in (case digits (drop (length sg) r) of
                  (ds, r') \<Rightarrow> if ds = [] then None else Some (c # sg @ ds, r'))
          else Some ([], s)
      | [] \<Rightarrow> Some ([], s))"

definition json_number :: "string \<Rightarrow> (string \<times> string) option" where
  "json_number s =
     (let sg = takeWhile (\<lambda>c. c = CHR ''-'') (take 1 s);
          s1 = drop (length sg) s;
          ip = (case s1 of
                  c # r \<Rightarrow> if c = CHR ''0'' then [c] else fst (digits s1)
                | [] \<Rightarrow> [])
      in if ip = [] then None
         else
           (case json_fraction (drop (length ip) s1) of
              None \<Rightarrow> None
            | Some (fr, s2) \<Rightarrow>
                (case json_exponent s2 of
                   None \<Rightarrow> None
                 | Some (ex, s3) \<Rightarrow> Some (sg @ ip @ fr @ ex, s3))))"

definition json_word :: "string \<Rightarrow> json \<Rightarrow> string \<Rightarrow> (json \<times> string) option" where
  "json_word w v s = (if take (length w) s = w then Some (v, drop (length w) s) else None)"

fun json_value :: "nat \<Rightarrow> nat \<Rightarrow> string \<Rightarrow> (json \<times> string) option"
  and json_members :: "nat \<Rightarrow> nat \<Rightarrow> string \<Rightarrow> ((string \<times> json) list \<times> string) option"
  and json_elements :: "nat \<Rightarrow> nat \<Rightarrow> string \<Rightarrow> (json list \<times> string) option" where
  "json_value 0 d s = None"
| "json_value (Suc f) d s =
     (case skip_space s of
        [] \<Rightarrow> None
      | c # r \<Rightarrow>
          if c = CHR ''{'' then
            (if d = 0 then None
             else
               case skip_space r of
                 [] \<Rightarrow> None
               | e # r' \<Rightarrow>
                   if e = CHR ''}'' then Some (JObject [], r')
                   else map_option (apfst JObject) (json_members f (d - 1) (e # r')))
          else if c = CHR ''['' then
            (if d = 0 then None
             else
               case skip_space r of
                 [] \<Rightarrow> None
               | e # r' \<Rightarrow>
                   if e = CHR '']'' then Some (JArray [], r')
                   else map_option (apfst JArray) (json_elements f (d - 1) (e # r')))
          else if c = quote_char then map_option (apfst JString) (json_string_body r)
          else if c = CHR ''n'' then json_word ''null'' JNull (c # r)
          else if c = CHR ''t'' then json_word ''true'' (JBool True) (c # r)
          else if c = CHR ''f'' then json_word ''false'' (JBool False) (c # r)
          else map_option (apfst JNumber) (json_number (c # r)))"
| "json_members 0 d s = None"
| "json_members (Suc f) d s =
     (case skip_space s of
        [] \<Rightarrow> None
      | c # r \<Rightarrow>
          if c \<noteq> quote_char then None
          else
            (case json_string_body r of
               None \<Rightarrow> None
             | Some (key, r1) \<Rightarrow>
                 (case skip_space r1 of
                    [] \<Rightarrow> None
                  | e # r2 \<Rightarrow>
                      if e \<noteq> CHR '':'' then None
                      else
                        (case json_value f d r2 of
                           None \<Rightarrow> None
                         | Some (v, r3) \<Rightarrow>
                             (case skip_space r3 of
                                [] \<Rightarrow> None
                              | g # r4 \<Rightarrow>
                                  if g = CHR ''}'' then Some ([(key, v)], r4)
                                  else if g = CHR '','' then
                                    map_option (apfst (\<lambda>ms. (key, v) # ms)) (json_members f d r4)
                                  else None)))))"
| "json_elements 0 d s = None"
| "json_elements (Suc f) d s =
     (case json_value f d s of
        None \<Rightarrow> None
      | Some (v, r3) \<Rightarrow>
          (case skip_space r3 of
             [] \<Rightarrow> None
           | g # r4 \<Rightarrow>
               if g = CHR '']'' then Some ([v], r4)
               else if g = CHR '','' then map_option (apfst (\<lambda>vs. v # vs)) (json_elements f d r4)
               else None))"

abbreviation json_max_depth :: nat where "json_max_depth \<equiv> 10000"

definition json_parse :: "string \<Rightarrow> json option" where
  "json_parse s =
     (case json_value (Suc (length s)) json_max_depth s of
        Some (v, r) \<Rightarrow> if skip_space r = [] then Some v else None
      | None \<Rightarrow> None)"

text \<open>
  Filling an \<open>int\<close> field and a string field that holds \<open>old\<close>: \<open>null\<close> leaves it alone, a value of
  another type or a number that is no \<open>int64\<close> is an error.
\<close>

definition ParseInt64 :: "string \<Rightarrow> int option" where
  "ParseInt64 s =
     (let sg = takeWhile (\<lambda>c. c = CHR ''-'') (take 1 s);
          ds = drop (length sg) s;
          v = (if sg = [] then int (dec_val ds) else - int (dec_val ds))
      in if ds = [] \<or> \<not> list_all digit ds \<or> v < - (2 ^ 63) \<or> 2 ^ 63 \<le> v then None else Some v)"

fun json_int_field :: "int \<Rightarrow> json \<Rightarrow> int option" where
  "json_int_field old JNull = Some old"
| "json_int_field old (JNumber n) = ParseInt64 n"
| "json_int_field old _ = None"

fun json_string_field :: "string \<Rightarrow> json \<Rightarrow> string option" where
  "json_string_field old JNull = Some old"
| "json_string_field old (JString s) = Some s"
| "json_string_field old _ = None"

end
