(* ===== verification/Json_Text.thy ===== *)
theory Json_Text
  imports Go_Json
begin

text \<open>
  What \<open>json.Marshal\<close> prints for a struct of strings, unsigned numbers and nested structs, and that
  the parser of \<open>Go_Json\<close> reads it back when no string needs an escape.
\<close>

section \<open>Text that needs no escape\<close>

definition json_object_text :: "(string \<times> string) list \<Rightarrow> string" where
  "json_object_text kvs = ''{'' @ Join (map (\<lambda>(k, v). json_quote k @ '':'' @ v) kvs) '','' @ ''}''"

definition json_plain :: "char \<Rightarrow> bool" where
  "json_plain c \<longleftrightarrow> (32::nat) \<le> of_char c \<and> of_char c < (128::nat) \<and> c \<noteq> quote_char \<and> c \<noteq> backslash
     \<and> c \<noteq> CHR ''<'' \<and> c \<noteq> CHR ''>'' \<and> c \<noteq> CHR ''&''"

lemma json_escape_plain: "\<forall>c \<in> set s. json_plain c \<Longrightarrow> json_escape s = s"
proof (induction s)
  case (Cons c s)
  then have "(32::nat) \<le> of_char c" "of_char c < (128::nat)" "c \<noteq> quote_char" "c \<noteq> backslash"
    "c \<noteq> CHR ''<''" "c \<noteq> CHR ''>''" "c \<noteq> CHR ''&''" by (simp_all add: json_plain_def)
  moreover from this(1) have "c \<noteq> CHR 0x08" "c \<noteq> CHR 0x0C" "c \<noteq> CHR 0x0A" "c \<noteq> CHR 0x0D" "c \<noteq> CHR 0x09"
    by auto
  ultimately have "json_escape_byte c = [c]" by (simp add: json_escape_byte_def)
  then show ?case using Cons by (simp add: json_escape.simps(2) json_plain_def)
qed simp

lemma json_string_body_plain:
  "\<forall>c \<in> set s. json_plain c \<Longrightarrow> json_string_body (s @ quote_char # r) = Some (s, r)"
proof (induction s)
  case Nil
  show ?case by (simp add: json_string_body.simps(2))
next
  case (Cons c s)
  then show ?case by (simp add: json_string_body.simps(2) json_plain_def)
qed

lemma hex_char_json_plain: "hex_char c \<Longrightarrow> json_plain c"
  unfolding hex_char_def by (simp, elim disjE; simp add: json_plain_def)

lemma digit_not_ws: "digit c \<Longrightarrow> \<not> json_space c"
  by (auto simp: digit_def json_space_def)

lemma nat_dec_head:
  "\<exists>c r. nat_dec n = c # r \<and> digit c \<and> (c = CHR ''0'' \<longrightarrow> r = [] \<and> n = 0)"
proof (induction n rule: nat_dec.induct)
  case (1 n)
  show ?case
  proof (cases "n < 10")
    case True
    then have v: "of_char (char_of (48 + n)) = 48 + n" by (intro of_char_char_of_small) simp
    then have "char_of (48 + n) = CHR ''0'' \<Longrightarrow> 48 + n = of_char (CHR ''0'')" by (simp only:)
    then show ?thesis using True v by (subst nat_dec.simps) (auto simp: digit_def)
  next
    case False
    then have "n div 10 \<noteq> 0" by simp
    then show ?thesis using 1 False by (subst nat_dec.simps) auto
  qed
qed

lemma json_number_nat:
  assumes "\<not> digit c" "c \<noteq> CHR ''.''" "c \<noteq> CHR ''e''" "c \<noteq> CHR ''E''"
  shows "json_number (nat_dec n @ c # r) = Some (nat_dec n, c # r)"
proof -
  obtain d ds where d: "nat_dec n = d # ds" "digit d" "d = CHR ''0'' \<longrightarrow> ds = []"
    using nat_dec_head [of n] by blast
  have "d \<noteq> CHR ''-''" using d(2) by (auto simp: digit_def)
  moreover have "takeWhile digit (nat_dec n @ c # r) = nat_dec n"
    using assms(1) nat_dec_digits [of _ n] by (simp add: takeWhile_append2)
  moreover have "json_fraction (c # r) = Some ([], c # r)" "json_exponent (c # r) = Some ([], c # r)"
    using assms by (simp_all add: json_fraction_def json_exponent_def)
  ultimately show ?thesis
    using d by (cases "d = CHR ''0''") (simp_all add: json_number_def digits_def Let_def)
qed

lemma ParseInt64_nat: "int n < 2 ^ 63 \<Longrightarrow> ParseInt64 (nat_dec n) = Some (int n)"
proof -
  assume n: "int n < 2 ^ 63"
  obtain d ds where d: "nat_dec n = d # ds" "digit d" using nat_dec_head [of n] by blast
  then have "d \<noteq> CHR ''-''" by (auto simp: digit_def)
  then have sg: "takeWhile (\<lambda>c. c = CHR ''-'') (take 1 (nat_dec n)) = []" using d by simp
  have "list_all digit (nat_dec n)" using nat_dec_digits by (auto simp: list_all_iff)
  moreover have "\<not> int n < - (2 ^ 63)" by simp
  ultimately show ?thesis
    using n unfolding ParseInt64_def sg Let_def list.size(3) drop0 dec_val_nat_dec by simp
qed

lemma json_value_nat:
  assumes "\<not> digit c" "c \<noteq> CHR ''.''" "c \<noteq> CHR ''e''" "c \<noteq> CHR ''E''"
  shows "json_value (Suc f) d (nat_dec n @ c # r) = Some (JNumber (nat_dec n), c # r)"
proof -
  obtain e es where e: "nat_dec n = e # es" "digit e" using nat_dec_head [of n] by blast
  have "skip_space (nat_dec n @ c # r) = nat_dec n @ c # r"
    using e digit_not_ws by (simp add: skip_space_def)
  moreover have "e \<noteq> CHR ''{''" "e \<noteq> CHR ''[''" "e \<noteq> quote_char" "e \<noteq> CHR ''n''" "e \<noteq> CHR ''t''" "e \<noteq> CHR ''f''"
    using e(2) by (auto simp: digit_def)
  ultimately show ?thesis using json_number_nat [OF assms, of n r] e(1) by simp
qed

lemma skip_space_id: "\<not> json_space c \<Longrightarrow> skip_space (c # r) = c # r"
  by (simp add: skip_space_def)

lemma json_value_string:
  "\<forall>c \<in> set h. json_plain c \<Longrightarrow> json_value (Suc f) d (quote_char # h @ quote_char # r) = Some (JString h, r)"
  by (simp add: skip_space_id json_space_def json_string_body_plain)

lemma json_members_step:
  assumes "\<forall>c \<in> set k. json_plain c" "json_value f d r2 = Some (v, g # r4)"
  shows "json_members (Suc f) d (quote_char # k @ quote_char # CHR '':'' # r2) =
    (case skip_space (g # r4) of
       [] \<Rightarrow> None
     | g # r4 \<Rightarrow>
         if g = CHR ''}'' then Some ([(k, v)], r4)
         else if g = CHR '','' then map_option (apfst (\<lambda>ms. (k, v) # ms)) (json_members f d r4)
         else None)"
  using assms by (simp add: skip_space_id json_space_def json_string_body_plain)

section \<open>Printing and parsing\<close>

fun json_text :: "json \<Rightarrow> string" where
  "json_text (JString s) = json_quote s"
| "json_text (JNumber n) = n"
| "json_text (JObject ms) = json_object_text (map (\<lambda>(k, v). (k, json_text v)) ms)"
| "json_text JNull = ''null''"
| "json_text (JBool b) = (if b then ''true'' else ''false'')"
| "json_text (JArray vs) = ''['' @ Join (map json_text vs) '','' @ '']''"

fun plain_json :: "json \<Rightarrow> bool" where
  "plain_json (JString s) = (\<forall>c \<in> set s. json_plain c)"
| "plain_json (JNumber t) = (\<exists>n. t = nat_dec n)"
| "plain_json (JObject ms) = (ms \<noteq> [] \<and> list_all (\<lambda>(k, v). (\<forall>c \<in> set k. json_plain c) \<and> plain_json v) ms)"
| "plain_json _ = False"

fun json_depth :: "json \<Rightarrow> nat" where
  "json_depth (JObject ms) = Suc (foldr (\<lambda>(k, v) n. max (json_depth v) n) ms 0)"
| "json_depth (JArray vs) = Suc (foldr (\<lambda>v n. max (json_depth v) n) vs 0)"
| "json_depth _ = 0"

definition reads_back :: "json \<Rightarrow> bool" where
  "reads_back j \<longleftrightarrow>
     (\<forall>f d c r. c \<in> {CHR '','', CHR ''}''} \<longrightarrow> length (json_text j) \<le> f \<longrightarrow> json_depth j \<le> d \<longrightarrow>
        json_value f d (json_text j @ c # r) = Some (j, c # r))"

lemma plain_text_nonempty: "plain_json j \<Longrightarrow> json_text j \<noteq> []"
  by (cases j) (auto simp: json_quote_def json_object_text_def)

lemma members_read_back:
  assumes "ms \<noteq> []" "list_all (\<lambda>(k, v). (\<forall>c \<in> set k. json_plain c) \<and> reads_back v \<and> json_depth v \<le> d) ms"
    and "Suc (length (Join (map (\<lambda>(k, v). json_quote k @ '':'' @ v) (map (\<lambda>(k, v). (k, json_text v)) ms)) '','')) \<le> f"
  shows "json_members f d (Join (map (\<lambda>(k, v). json_quote k @ '':'' @ v) (map (\<lambda>(k, v). (k, json_text v)) ms)) '','' @ CHR ''}'' # r) =
    Some (ms, r)"
  using assms
proof (induction ms arbitrary: f)
  case (Cons kv ms)
  obtain k v where kv: "kv = (k, v)" by (cases kv)
  then have k: "\<forall>c \<in> set k. json_plain c" and v: "reads_back v" "json_depth v \<le> d" using Cons.prems(2) by auto
  obtain g where f: "f = Suc g" using Cons.prems(3) by (cases f) auto
  have quote: "json_quote k = quote_char # k @ [quote_char]" using k by (simp add: json_quote_def json_escape_plain)
  show ?case
  proof (cases ms)
    case Nil
    then have "length (json_text v) \<le> g" using Cons.prems(3) by (simp add: kv f quote)
    then have "json_value g d (json_text v @ CHR ''}'' # r) = Some (v, CHR ''}'' # r)" using v by (simp add: reads_back_def)
    from json_members_step [OF k this] show ?thesis by (simp add: kv f Nil quote skip_space_id json_space_def)
  next
    case (Cons kv' ms')
    let ?rest = "Join (map (\<lambda>(k, v). json_quote k @ '':'' @ v) (map (\<lambda>(k, v). (k, json_text v)) ms)) '',''"
    have len: "length (json_text v) \<le> g" "Suc (length ?rest) \<le> g" using Cons.prems(3) by (simp_all add: kv f quote Cons)
    have "json_value g d (json_text v @ CHR '','' # ?rest @ CHR ''}'' # r) = Some (v, CHR '','' # ?rest @ CHR ''}'' # r)"
      using v len(1) by (simp add: reads_back_def)
    from json_members_step [OF k this] Cons.IH [OF _ _ len(2)] Cons.prems(2) show ?thesis
      by (simp add: kv f Cons quote skip_space_id json_space_def)
  qed
qed simp

lemma depth_member: "(k, v) \<in> set ms \<Longrightarrow> json_depth v \<le> foldr (\<lambda>(k, v) n. max (json_depth v) n) ms 0"
  by (induction ms) auto

lemma object_reads_back:
  assumes "ms \<noteq> []" "list_all (\<lambda>(k, v). (\<forall>c \<in> set k. json_plain c) \<and> reads_back v) ms"
    and "length (json_text (JObject ms)) \<le> f" "json_depth (JObject ms) \<le> d"
  shows "json_value f d (json_text (JObject ms) @ r) = Some (JObject ms, r)"
proof -
  let ?text = "Join (map (\<lambda>(k, v). json_quote k @ '':'' @ v) (map (\<lambda>(k, v). (k, json_text v)) ms)) '',''"
  obtain g where f: "f = Suc g" "Suc (length ?text) \<le> g" using assms(3) by (cases f) (auto simp: json_object_text_def)
  obtain e where d: "d = Suc e" "\<And>k v. (k, v) \<in> set ms \<Longrightarrow> json_depth v \<le> e"
    using assms(4) depth_member order_trans by (cases d) fastforce+
  have members: "json_members g e (?text @ CHR ''}'' # r) = Some (ms, r)"
    using assms(2) d(2) by (intro members_read_back [OF assms(1) _ f(2)]) (auto simp: list_all_iff)
  obtain k v ms' where "ms = (k, v) # ms'" using assms(1) by (cases ms) auto
  then obtain t where t: "?text = quote_char # t"
    by (cases ms') (auto simp: json_quote_def)
  show ?thesis
    using members unfolding f(1) d(1) json_text.simps json_object_text_def t
    by (simp add: skip_space_id json_space_def)
qed

lemma plain_reads_back: "plain_json j \<Longrightarrow> reads_back j"
proof (induction j)
  case (JNumber t)
  then obtain n where t: "t = nat_dec n" by auto
  show ?case
    unfolding reads_back_def
  proof (intro allI impI)
    fix f d c r
    assume a: "c \<in> {CHR '','', CHR ''}''}" "length (json_text (JNumber t)) \<le> f"
    then obtain g where "f = Suc g" by (cases f) (auto simp: t)
    moreover have "\<not> digit c" "c \<noteq> CHR ''.''" "c \<noteq> CHR ''e''" "c \<noteq> CHR ''E''" using a(1) by (auto simp: digit_def)
    ultimately show "json_value f d (json_text (JNumber t) @ c # r) = Some (JNumber t, c # r)"
      by (simp add: t json_value_nat del: json_value.simps)
  qed
next
  case (JString s)
  show ?case
    unfolding reads_back_def
  proof (intro allI impI)
    fix f d c r
    assume "length (json_text (JString s)) \<le> f"
    then obtain g where "f = Suc g" by (cases f) (auto simp: json_quote_def)
    then show "json_value f d (json_text (JString s) @ c # r) = Some (JString s, c # r)"
      using JString by (simp add: json_quote_def json_escape_plain json_value_string del: json_value.simps)
  qed
next
  case (JObject ms)
  have "list_all (\<lambda>(k, v). (\<forall>c \<in> set k. json_plain c) \<and> reads_back v) ms"
    using JObject.prems JObject.IH by (fastforce simp: list_all_iff)
  then show ?case using JObject.prems object_reads_back unfolding reads_back_def by simp
qed simp_all

text \<open>Parsing inverts printing on objects without escapes.\<close>

lemma json_parse_text:
  assumes "plain_json (JObject ms)" "json_depth (JObject ms) \<le> json_max_depth"
  shows "json_parse (json_text (JObject ms)) = Some (JObject ms)"
proof -
  have "list_all (\<lambda>(k, v). (\<forall>c \<in> set k. json_plain c) \<and> reads_back v) ms"
    using assms(1) plain_reads_back by (fastforce simp: list_all_iff)
  then have "json_value (Suc (length (json_text (JObject ms)))) json_max_depth (json_text (JObject ms) @ []) = Some (JObject ms, [])"
    using assms by (intro object_reads_back) (simp_all del: json_text.simps json_depth.simps)
  then show ?thesis by (simp add: json_parse_def skip_space_def del: json_text.simps json_value.simps)
qed

end
