(* ===== verification/Paged_Query.thy ===== *)
theory Paged_Query
  imports Json_Text
begin

text \<open>
  What the task board query (\<open>src/orchestration/scheduler/query.go\<close>) and the mailbox query
  (\<open>src/orchestration/mailbox/query.go\<close>) share: the offset cursor with its JSON form, cutting a
  page, the contract of a cursor codec (the locale \<open>cursor_codec\<close>) and, proved once from it, that
  following the cursors returns every record once and in order.
\<close>

section \<open>Cursors\<close>

record query_cursor =
  qc_Offset :: int
  qc_QueryHash :: string

text \<open>\<open>json.Marshal\<close> and \<open>json.Unmarshal\<close> of the cursor struct.\<close>

definition marshalCursor :: "query_cursor \<Rightarrow> string" where
  "marshalCursor c =
     json_object_text [(''offset'', Itoa (qc_Offset c)), (''query_hash'', json_quote (qc_QueryHash c))]"

fun cursorField :: "query_cursor option \<Rightarrow> string \<times> json \<Rightarrow> query_cursor option" where
  "cursorField None kv = None"
| "cursorField (Some c) (k, v) =
     (if EqualFold k ''offset'' then
        map_option (\<lambda>n. c\<lparr>qc_Offset := n\<rparr>) (json_int_field (qc_Offset c) v)
      else if EqualFold k ''query_hash'' then
        map_option (\<lambda>h. c\<lparr>qc_QueryHash := h\<rparr>) (json_string_field (qc_QueryHash c) v)
      else Some c)"

definition unmarshalCursor :: "string \<Rightarrow> query_cursor option" where
  "unmarshalCursor s =
     (let zero = \<lparr>qc_Offset = 0, qc_QueryHash = []\<rparr>
      in case json_parse s of
           Some JNull \<Rightarrow> Some zero
         | Some (JObject ms) \<Rightarrow> foldl cursorField (Some zero) ms
         | _ \<Rightarrow> None)"

subsection \<open>Reading back what was written\<close>

lemma cursor_round_trip:
  assumes "int n < 2 ^ 63" "\<forall>c \<in> set h. hex_char c"
  shows "unmarshalCursor (marshalCursor \<lparr>qc_Offset = int n, qc_QueryHash = h\<rparr>) =
    Some \<lparr>qc_Offset = int n, qc_QueryHash = h\<rparr>"
proof -
  let ?ms = "[(''offset'', JNumber (nat_dec n)), (''query_hash'', JString h)]"
  have "\<forall>c \<in> set h. json_plain c" using assms(2) hex_char_json_plain by blast
  then have "plain_json (JObject ?ms)" by (auto simp: json_plain_def)
  then have "json_parse (json_text (JObject ?ms)) = Some (JObject ?ms)" by (rule json_parse_text) simp
  moreover have "marshalCursor \<lparr>qc_Offset = int n, qc_QueryHash = h\<rparr> = json_text (JObject ?ms)" by (simp add: marshalCursor_def)
  moreover have "EqualFold ''offset'' ''offset''" "\<not> EqualFold ''query_hash'' ''offset''" "EqualFold ''query_hash'' ''query_hash''"
    by code_simp+
  ultimately show ?thesis using assms(1) by (simp add: unmarshalCursor_def ParseInt64_nat)
qed

section \<open>Cutting and following pages\<close>

datatype query_error =
    PageSizeOutOfRange
  | UnsupportedSortField string
  | UnsupportedSortOrder string
  | UnsupportedKindFilter string
  | UnsupportedStateFilter string
  | TimeRangeInverted
  | InvalidQueryCursor

text \<open>One page of \<open>filtered\<close> from \<open>start\<close>, and the cursor of the next one if there is more.\<close>

definition cutPage ::
  "(query_cursor \<Rightarrow> string) \<Rightarrow> 'r list \<Rightarrow> int \<Rightarrow> int \<Rightarrow> string \<Rightarrow> (query_error, 'r list \<times> string) result" where
  "cutPage enc filtered pageSize start hash =
     (let len = int (length filtered);
          stop = (if start + pageSize > len then len else start + pageSize)
      in if start > len then Err InvalidQueryCursor
         else Ok (take (nat (stop - start)) (drop (nat start) filtered),
                  if stop < len then enc \<lparr>qc_Offset = stop, qc_QueryHash = hash\<rparr> else []))"

text \<open>
  A client that follows the cursors of a paged query until there is no next page. \<open>ask\<close> is one
  call of the query, which may change its state; the number bounds the calls.
\<close>

fun follow ::
  "nat \<Rightarrow> (string \<Rightarrow> 's \<Rightarrow> (query_error, 'r list \<times> string) result \<times> 's) \<Rightarrow> string \<Rightarrow> 's \<Rightarrow> 'r list option" where
  "follow 0 ask cursor s = None"
| "follow (Suc n) ask cursor s =
     (case ask cursor s of
        (Inl e, s') \<Rightarrow> None
      | (Inr (items, nxt), s') \<Rightarrow>
          if nxt = [] then Some items else map_option (\<lambda>rest. items @ rest) (follow n ask nxt s'))"

text \<open>What a query answers to a cursor when \<open>xs\<close> are the records that match.\<close>

definition pagedAnswer ::
  "(query_cursor \<Rightarrow> string) \<Rightarrow> (string \<Rightarrow> string \<Rightarrow> (query_error, int) result) \<Rightarrow> 'r list \<Rightarrow> int \<Rightarrow> string
     \<Rightarrow> string \<Rightarrow> (query_error, 'r list \<times> string) result" where
  "pagedAnswer enc dec xs pageSize hash cursor =
     (case dec cursor hash of Inl e \<Rightarrow> Err e | Inr start \<Rightarrow> cutPage enc xs pageSize start hash)"

text \<open>
  The contract of a cursor codec: the empty cursor is the first page, a cursor is read back under
  the hash it was made for and refused under any other, and it survives trimming.
\<close>

locale cursor_codec =
  fixes encode :: "query_cursor \<Rightarrow> string"
    and decode :: "string \<Rightarrow> string \<Rightarrow> (query_error, int) result"
    and hash_ok :: "string \<Rightarrow> bool"
  assumes decode_first: "decode [] h = Ok 0"
    and decode_encode:
      "hash_ok h \<Longrightarrow> int n < 2 ^ 63 \<Longrightarrow> decode (encode \<lparr>qc_Offset = int n, qc_QueryHash = h\<rparr>) h = Ok (int n)"
    and decode_foreign:
      "hash_ok h \<Longrightarrow> hash_ok h' \<Longrightarrow> h \<noteq> h' \<Longrightarrow> int n < 2 ^ 63 \<Longrightarrow>
       decode (encode \<lparr>qc_Offset = int n, qc_QueryHash = h\<rparr>) h' = Err InvalidQueryCursor"
    and encode_trimmed: "TrimSpace (encode c) = encode c"
    and encode_nonempty: "encode c \<noteq> []"
begin

lemma follow_from:
  assumes "0 < sz" "hash_ok h" "int (length xs) < 2 ^ 63"
    and "\<And>c s. I s \<Longrightarrow> TrimSpace c = c \<Longrightarrow> fst (ask c s) = pagedAnswer encode decode xs sz h c \<and> I (snd (ask c s))"
  shows "I s \<Longrightarrow> TrimSpace cursor = cursor \<Longrightarrow> n \<le> length xs \<Longrightarrow> decode cursor h = Ok (int n)
    \<Longrightarrow> length xs - n < k \<Longrightarrow> follow k ask cursor s = Some (drop n xs)"
proof (induction k arbitrary: cursor s n)
  case (Suc k)
  obtain s' where s': "ask cursor s = (cutPage encode xs sz (int n) h, s')" "I s'"
    using assms(4) [OF Suc.prems(1,2)] Suc.prems(4) by (cases "ask cursor s") (simp add: pagedAnswer_def)
  define m where "m = nat sz"
  have m: "sz = int m" "0 < m" using assms(1) by (simp_all add: m_def)
  show ?case
  proof (cases "n + m < length xs")
    case False
    then have "cutPage encode xs sz (int n) h = Ok (drop n xs, [])"
      using Suc.prems(3) m by (auto simp: cutPage_def Let_def)
    then show ?thesis using s' by simp
  next
    case True
    let ?next = "encode \<lparr>qc_Offset = int (n + m), qc_QueryHash = h\<rparr>"
    have "cutPage encode xs sz (int n) h = Ok (take m (drop n xs), ?next)"
      using Suc.prems(3) m True by (simp add: cutPage_def Let_def)
    moreover have "follow k ask ?next s' = Some (drop (n + m) xs)"
      using True m Suc.prems(5) assms(3)
      by (intro Suc.IH [OF s'(2) encode_trimmed] decode_encode assms(2)) auto
    moreover have "take m (drop n xs) @ drop (n + m) xs = drop n xs"
      by (metis add.commute append_take_drop_id drop_drop)
    ultimately show ?thesis using s' encode_nonempty by simp
  qed
qed simp

text \<open>Following the cursors from the first page returns exactly the matching records, in order.\<close>

lemma follow_all:
  assumes "0 < sz" "hash_ok h" "int (length xs) < 2 ^ 63"
    and "\<And>c s. I s \<Longrightarrow> TrimSpace c = c \<Longrightarrow> fst (ask c s) = pagedAnswer encode decode xs sz h c \<and> I (snd (ask c s))"
    and "I s"
  shows "follow (Suc (length xs)) ask [] s = Some xs"
  using follow_from [where I = I and ask = ask, OF assms(1-4) assms(5) TrimSpace_Nil, of 0 "Suc (length xs)"] decode_first
  by (simp del: follow.simps)

end

section \<open>The query cache\<close>

text \<open>
  The cache both owners keep: results by query hash, cleared whenever the epoch moves on.
  \<open>epoch\<close> is what the caller read before it looked at the store.
\<close>

record 'r query_cache =
  ca_epoch :: "64 word"
  ca_entries :: "(string, 'r list) gomap"

definition cacheRead :: "64 word \<Rightarrow> string \<Rightarrow> 'r query_cache \<Rightarrow> 'r list option" where
  "cacheRead epoch key c =
     (if TrimSpace key = [] then None
      else if ca_epoch c \<noteq> epoch then None
      else fmlookup (ca_entries c) key)"

abbreviation maxCacheEntries :: nat where "maxCacheEntries \<equiv> 32"

definition cacheWrite :: "64 word \<Rightarrow> string \<Rightarrow> 'r list \<Rightarrow> 'r query_cache \<Rightarrow> 'r query_cache" where
  "cacheWrite epoch key items c =
     (if TrimSpace key = [] then c
      else if ca_epoch c \<noteq> epoch then c
      else
        let m = (if maxCacheEntries \<le> fcard (fmdom (ca_entries c)) then fmempty else ca_entries c)
        in c\<lparr>ca_entries := fmupd key items m\<rparr>)"

definition cacheInvalidate :: "'r query_cache \<Rightarrow> 'r query_cache" where
  "cacheInvalidate c = c\<lparr>ca_epoch := ca_epoch c + 1, ca_entries := fmempty\<rparr>"

text \<open>The cache never holds more than its limit.\<close>

lemma cacheWrite_bound:
  "fcard (fmdom (ca_entries c)) \<le> maxCacheEntries
    \<Longrightarrow> fcard (fmdom (ca_entries (cacheWrite epoch key items c))) \<le> maxCacheEntries"
  by (simp add: cacheWrite_def Let_def fcard_finsert_if fcard_fempty)

section \<open>Parts of the two query languages\<close>

record query_time_range =
  tr_Start :: time
  tr_End :: time

definition rangeNano :: "(query_time_range \<Rightarrow> time) \<Rightarrow> query_time_range option \<Rightarrow> int" where
  "rangeNano f tr =
     (case tr of None \<Rightarrow> 0 | Some r \<Rightarrow> if IsZero (f r) then 0 else UnixNano (f r))"

text \<open>A filter that is not set matches everything.\<close>

definition matchesField :: "string \<Rightarrow> string \<Rightarrow> bool" where
  "matchesField wanted actual \<longleftrightarrow> wanted = [] \<or> actual = wanted"

definition inTimeRange :: "query_time_range option \<Rightarrow> time \<Rightarrow> bool" where
  "inTimeRange tr ts \<longleftrightarrow>
     (case tr of
        None \<Rightarrow> True
      | Some r \<Rightarrow>
          (IsZero (tr_Start r) \<or> \<not> (IsZero ts \<or> ts < tr_Start r))
          \<and> (IsZero (tr_End r) \<or> \<not> (IsZero ts \<or> tr_End r < ts)))"

section \<open>Hashes and encoded cursors as texts\<close>

text \<open>What a query hash looks like: lower-case hexadecimal, never empty.\<close>

definition hash_text :: "string \<Rightarrow> bool" where
  "hash_text h \<longleftrightarrow> h \<noteq> [] \<and> (\<forall>c \<in> set h. hex_char c)"

lemma hash_text_trimmed: "hash_text h \<Longrightarrow> TrimSpace h = h"
  unfolding hash_text_def by (intro TrimSpace_trimmed trimmed_plain) (blast intro: hex_char_plain)

lemma hash_text_sha1: "hash_text (hex_encode (sha1_sum m))"
proof -
  have "length (hex_encode (sha1_sum m)) = 40" by simp
  then show ?thesis using hex_encode_chars by (auto simp: hash_text_def simp del: length_hex_encode)
qed

lemma b64_trimmed: "TrimSpace (b64_encode s) = b64_encode s"
  using b64_encode_plain [of s] by (intro TrimSpace_trimmed trimmed_plain) (auto simp: b64_plain_def)

lemma marshalCursor_nonempty: "marshalCursor c \<noteq> []"
  by (simp add: marshalCursor_def json_object_text_def)

section \<open>The offset cursor in its text form\<close>

text \<open>Both queries encode and decode their cursors this way.\<close>

definition encodeOffsetCursor :: "query_cursor \<Rightarrow> string" where
  "encodeOffsetCursor c = b64_encode (marshalCursor c)"

definition decodeOffsetCursor :: "string \<Rightarrow> string \<Rightarrow> (query_error, int) result" where
  "decodeOffsetCursor cursor expectedHash =
     (if TrimSpace cursor = [] then Ok 0
      else
        (case Option.bind (b64_decode (TrimSpace cursor)) unmarshalCursor of
           None \<Rightarrow> Err InvalidQueryCursor
         | Some decoded \<Rightarrow>
             if qc_Offset decoded < 0 \<or> TrimSpace (qc_QueryHash decoded) = [] then Err InvalidQueryCursor
             else if TrimSpace (qc_QueryHash decoded) \<noteq> TrimSpace expectedHash then Err InvalidQueryCursor
             else Ok (qc_Offset decoded)))"

interpretation offset_cursor: cursor_codec encodeOffsetCursor decodeOffsetCursor hash_text
proof
  fix h h' :: string and n :: nat and c :: query_cursor
  show "decodeOffsetCursor [] h = Ok 0" by (simp add: decodeOffsetCursor_def)
  show "TrimSpace (encodeOffsetCursor c) = encodeOffsetCursor c"
    by (simp add: encodeOffsetCursor_def b64_trimmed)
  show "encodeOffsetCursor c \<noteq> []"
    by (simp add: encodeOffsetCursor_def b64_encode_nonempty marshalCursor_nonempty)
  assume h: "hash_text h" and n: "int n < 2 ^ 63"
  have dec: "Option.bind (b64_decode (TrimSpace (encodeOffsetCursor \<lparr>qc_Offset = int n, qc_QueryHash = h\<rparr>)))
      unmarshalCursor = Some \<lparr>qc_Offset = int n, qc_QueryHash = h\<rparr>"
    using h n by (simp add: encodeOffsetCursor_def b64_trimmed b64_round_trip cursor_round_trip hash_text_def)
  have ne: "TrimSpace (encodeOffsetCursor \<lparr>qc_Offset = int n, qc_QueryHash = h\<rparr>) \<noteq> []"
    by (simp add: encodeOffsetCursor_def b64_trimmed b64_encode_nonempty marshalCursor_nonempty)
  have t: "TrimSpace h = h" "h \<noteq> []" using h hash_text_trimmed by (simp_all add: hash_text_def)
  show "decodeOffsetCursor (encodeOffsetCursor \<lparr>qc_Offset = int n, qc_QueryHash = h\<rparr>) h = Ok (int n)"
    using ne t by (simp add: decodeOffsetCursor_def dec)
  assume "hash_text h'" "h \<noteq> h'"
  then show "decodeOffsetCursor (encodeOffsetCursor \<lparr>qc_Offset = int n, qc_QueryHash = h\<rparr>) h' =
      Err InvalidQueryCursor"
    using ne t hash_text_trimmed [of h'] by (simp add: decodeOffsetCursor_def dec)
qed

end
