(* ===== verification/Scheduler_Query.thy ===== *)
theory Scheduler_Query
  imports Scheduler_Types Scheduler_State Paged_Query "HOL-Library.Product_Lexorder"
begin

text \<open>
  The task board query of \<open>src/orchestration/scheduler/query.go\<close>: validating a request, the hash
  that names it, its cursors, which records match, their order and the page that is returned. The
  lemmas show that the order is the stable sort by time and identifiers and that the cursors keep the contract of
  \<open>cursor_codec\<close>. The query itself, with its cache, is an operation of the facade
  (\<open>Scheduler_Facade\<close>).
\<close>

section \<open>Requests\<close>

record task_query_request =
  rq_TaskID :: string
  rq_RunID :: string
  rq_WorkflowID :: string
  rq_TeamID :: string
  rq_State :: string
  rq_Priority :: string
  rq_AgentID :: string
  rq_PeerID :: string
  rq_ParentRunID :: string
  rq_TimeRange :: "query_time_range option"
  rq_PageSize :: "int option"
  rq_SortField :: string
  rq_SortOrder :: string
  rq_Cursor :: string

record task_query_result =
  tq_Items :: "task_record list"
  tq_NextCursor :: string
  tq_PageSize :: int
  tq_SortField :: string
  tq_SortOrder :: string

record normalized_task_query =
  nq_TaskID :: string
  nq_RunID :: string
  nq_WorkflowID :: string
  nq_TeamID :: string
  nq_State :: string
  nq_Priority :: string
  nq_AgentID :: string
  nq_PeerID :: string
  nq_ParentRunID :: string
  nq_TimeRange :: "query_time_range option"
  nq_PageSize :: int
  nq_SortField :: string
  nq_SortOrder :: string
  nq_Cursor :: string

abbreviation DefaultTaskBoardQueryPageSize :: int where "DefaultTaskBoardQueryPageSize \<equiv> 50"
abbreviation MaxTaskBoardQueryPageSize :: int where "MaxTaskBoardQueryPageSize \<equiv> 200"

definition taskStateNames :: "string list" where
  "taskStateNames =
     map state_string [TaskStateQueued, TaskStateRunning, TaskStateAwaitingReport, TaskStateSucceeded,
       TaskStateFailed, TaskStateDeadLetter]"

definition normalizeTaskBoardQuery :: "task_query_request \<Rightarrow> (query_error, normalized_task_query) result" where
  "normalizeTaskBoardQuery req =
     (let pageSize = (case rq_PageSize req of None \<Rightarrow> DefaultTaskBoardQueryPageSize | Some n \<Rightarrow> n);
          sortField = lower_or_default ''updated_at'' (rq_SortField req);
          sortOrder = lower_or_default ''desc'' (rq_SortOrder req);
          state = ToLower (TrimSpace (rq_State req))
      in if rq_PageSize req \<noteq> None \<and> (pageSize \<le> 0 \<or> MaxTaskBoardQueryPageSize < pageSize)
         then Err PageSizeOutOfRange
         else if sortField \<noteq> ''updated_at'' \<and> sortField \<noteq> ''created_at''
         then Err (UnsupportedSortField (rq_SortField req))
         else if sortOrder \<noteq> ''asc'' \<and> sortOrder \<noteq> ''desc''
         then Err (UnsupportedSortOrder (rq_SortOrder req))
         else if state \<noteq> [] \<and> state \<notin> set taskStateNames
         then Err (UnsupportedStateFilter (rq_State req))
         else if (case rq_TimeRange req of
                    None \<Rightarrow> False
                  | Some tr \<Rightarrow> \<not> IsZero (tr_Start tr) \<and> \<not> IsZero (tr_End tr) \<and> tr_End tr < tr_Start tr)
         then Err TimeRangeInverted
         else
           Ok \<lparr>nq_TaskID = TrimSpace (rq_TaskID req), nq_RunID = TrimSpace (rq_RunID req),
               nq_WorkflowID = TrimSpace (rq_WorkflowID req), nq_TeamID = TrimSpace (rq_TeamID req),
               nq_State = state, nq_Priority = ToLower (TrimSpace (rq_Priority req)),
               nq_AgentID = TrimSpace (rq_AgentID req), nq_PeerID = TrimSpace (rq_PeerID req),
               nq_ParentRunID = TrimSpace (rq_ParentRunID req), nq_TimeRange = rq_TimeRange req,
               nq_PageSize = pageSize, nq_SortField = sortField, nq_SortOrder = sortOrder,
               nq_Cursor = TrimSpace (rq_Cursor req)\<rparr>)"

section \<open>The hash of a query\<close>

text \<open>The text that is hashed: the fields of the query joined by bars.\<close>

definition taskBoardQueryKey :: "normalized_task_query \<Rightarrow> string" where
  "taskBoardQueryKey q =
     Join [nq_TaskID q, nq_RunID q, nq_WorkflowID q, nq_TeamID q, nq_State q, nq_Priority q, nq_AgentID q,
           nq_PeerID q, nq_ParentRunID q, Itoa (rangeNano tr_Start (nq_TimeRange q)),
           Itoa (rangeNano tr_End (nq_TimeRange q)), nq_SortField q, nq_SortOrder q, Itoa (nq_PageSize q)] ''|''"

definition taskBoardQueryHash :: "normalized_task_query \<Rightarrow> string" where
  "taskBoardQueryHash q = hex_encode (sha1_sum (taskBoardQueryKey q))"

section \<open>Cursors\<close>

definition encodeTaskBoardCursor :: "query_cursor \<Rightarrow> string" where
  "encodeTaskBoardCursor c = b64_encode (marshalCursor c)"

definition decodeTaskBoardCursor :: "string \<Rightarrow> string \<Rightarrow> (query_error, int) result" where
  "decodeTaskBoardCursor cursor expectedHash =
     (if TrimSpace cursor = [] then Ok 0
      else
        (case Option.bind (b64_decode (TrimSpace cursor)) unmarshalCursor of
           None \<Rightarrow> Err InvalidQueryCursor
         | Some decoded \<Rightarrow>
             if qc_Offset decoded < 0 \<or> TrimSpace (qc_QueryHash decoded) = [] then Err InvalidQueryCursor
             else if TrimSpace (qc_QueryHash decoded) \<noteq> TrimSpace expectedHash then Err InvalidQueryCursor
             else Ok (qc_Offset decoded)))"

section \<open>Matching, sorting, paging\<close>

definition matchesTaskBoardQuery :: "task_record \<Rightarrow> normalized_task_query \<Rightarrow> bool" where
  "matchesTaskBoardQuery r q \<longleftrightarrow>
     matchesField (nq_TaskID q) (TrimSpace (t_TaskID (r_Task r)))
     \<and> matchesField (nq_RunID q) (TrimSpace (t_RunID (r_Task r)))
     \<and> matchesField (nq_WorkflowID q) (TrimSpace (t_WorkflowID (r_Task r)))
     \<and> matchesField (nq_TeamID q) (TrimSpace (t_TeamID (r_Task r)))
     \<and> matchesField (nq_State q) (TrimSpace (state_string (r_State r)))
     \<and> matchesField (nq_Priority q) (normalizedPriority (t_Priority (r_Task r)))
     \<and> matchesField (nq_AgentID q) (TrimSpace (t_AgentID (r_Task r)))
     \<and> matchesField (nq_PeerID q) (TrimSpace (t_PeerID (r_Task r)))
     \<and> matchesField (nq_ParentRunID q) (TrimSpace (t_ParentRunID (r_Task r)))
     \<and> inTimeRange (nq_TimeRange q) (r_UpdatedAt r)"

definition taskBoardSortTimestamp :: "task_record \<Rightarrow> string \<Rightarrow> time" where
  "taskBoardSortTimestamp r field =
     (if TrimSpace (ToLower field) = ''created_at'' then r_CreatedAt r else r_UpdatedAt r)"

definition taskBoardLess :: "string \<Rightarrow> string \<Rightarrow> task_record \<Rightarrow> task_record \<Rightarrow> bool" where
  "taskBoardLess field order left right \<longleftrightarrow>
     (let desc = (TrimSpace (ToLower order) \<noteq> ''asc'');
          leftTS = taskBoardSortTimestamp left field;
          rightTS = taskBoardSortTimestamp right field;
          leftTaskID = TrimSpace (t_TaskID (r_Task left));
          rightTaskID = TrimSpace (t_TaskID (r_Task right))
      in if leftTS = rightTS then
           (if leftTaskID = rightTaskID
            then TrimSpace (t_RunID (r_Task left)) < TrimSpace (t_RunID (r_Task right))
            else leftTaskID < rightTaskID)
         else if desc then rightTS < leftTS
         else leftTS < rightTS)"

definition sortTaskBoardQuery :: "string \<Rightarrow> string \<Rightarrow> task_record list \<Rightarrow> task_record list" where
  "sortTaskBoardQuery field order items = SliceStable (taskBoardLess field order) items"

definition filterTaskBoardQueryRecords :: "task_record list \<Rightarrow> normalized_task_query \<Rightarrow> task_record list" where
  "filterTaskBoardQueryRecords records q =
     sortTaskBoardQuery (nq_SortField q) (nq_SortOrder q) (filter (\<lambda>r. matchesTaskBoardQuery r q) records)"

definition buildTaskBoardQueryResult ::
  "task_record list \<Rightarrow> normalized_task_query \<Rightarrow> int \<Rightarrow> string \<Rightarrow> (query_error, task_query_result) result" where
  "buildTaskBoardQueryResult filtered q start queryHash =
     (case cutPage encodeTaskBoardCursor filtered (nq_PageSize q) start queryHash of
        Inl e \<Rightarrow> Err e
      | Inr (items, nextCursor) \<Rightarrow>
          Ok \<lparr>tq_Items = items, tq_NextCursor = nextCursor, tq_PageSize = nq_PageSize q,
              tq_SortField = nq_SortField q, tq_SortOrder = nq_SortOrder q\<rparr>)"

section \<open>The cursors keep their contract\<close>

lemma board_cursor_eq: "encodeTaskBoardCursor = encodeOffsetCursor" "decodeTaskBoardCursor = decodeOffsetCursor"
  by (simp_all add: fun_eq_iff encodeTaskBoardCursor_def decodeTaskBoardCursor_def encodeOffsetCursor_def decodeOffsetCursor_def)

interpretation board_cursor: cursor_codec encodeTaskBoardCursor decodeTaskBoardCursor hash_text
  unfolding board_cursor_eq by (rule offset_cursor.cursor_codec_axioms)

section \<open>The order of the answer\<close>

text \<open>The sort key: the time stamp (reversed for a descending order), then task id, then run id.\<close>

definition boardKey :: "normalized_task_query \<Rightarrow> task_record \<Rightarrow> int \<times> string \<times> string" where
  "boardKey q r =
     (let ts = taskBoardSortTimestamp r (nq_SortField q)
      in (if TrimSpace (ToLower (nq_SortOrder q)) \<noteq> ''asc'' then - ts else ts,
          TrimSpace (t_TaskID (r_Task r)), TrimSpace (t_RunID (r_Task r))))"

lemma taskBoardLess_key:
  "taskBoardLess (nq_SortField q) (nq_SortOrder q) x y \<longleftrightarrow> boardKey q x < boardKey q y"
  by (auto simp: taskBoardLess_def boardKey_def Let_def less_prod_def')

lemma filterTaskBoardQueryRecords_sorted:
  "filterTaskBoardQueryRecords records q = sort_key (boardKey q) (filter (\<lambda>r. matchesTaskBoardQuery r q) records)"
  unfolding filterTaskBoardQueryRecords_def sortTaskBoardQuery_def
  by (rule SliceStable_key) (rule taskBoardLess_key)

lemma normalizeTaskBoardQuery_page:
  "normalizeTaskBoardQuery req = Ok q \<Longrightarrow> 0 < nq_PageSize q \<and> nq_PageSize q \<le> MaxTaskBoardQueryPageSize"
  by (auto simp: normalizeTaskBoardQuery_def Let_def split: if_splits option.splits)

end
