(* ===== verification/Scheduler_Facade.thy ===== *)
theory Scheduler_Facade
  imports Scheduler_Store Scheduler_Query
begin

text \<open>
  The \<open>Scheduler\<close> of \<open>src/orchestration/scheduler/scheduler.go\<close>: the facade over a queue store.
  Its operations call the store, invalidate the query cache and emit timeline events. The facade is
  a record over the store's type; every operation takes the store's methods \<open>st\<close> and \<open>clk\<close>, the
  reading of the clock during the call, and returns its Go result and the facade it leaves.
  \<open>f_events\<close> lists what the timeline handler has received, oldest first.
\<close>

section \<open>Timeline events\<close>

datatype payload_value = PayStr string | PayInt int | PayBool bool

record timeline_event =
  te_Version :: string
  te_Type :: string
  te_RunID :: string
  te_Time :: time
  te_Payload :: "(string, payload_value) gomap"

abbreviation ReasonEnqueue :: string where "ReasonEnqueue \<equiv> ''scheduler.enqueue''"
abbreviation ReasonDelayedEnqueue :: string where "ReasonDelayedEnqueue \<equiv> ''scheduler.delayed_enqueue''"
abbreviation ReasonDelayedWait :: string where "ReasonDelayedWait \<equiv> ''scheduler.delayed_wait''"
abbreviation ReasonDelayedReady :: string where "ReasonDelayedReady \<equiv> ''scheduler.delayed_ready''"
abbreviation ReasonClaim :: string where "ReasonClaim \<equiv> ''scheduler.claim''"
abbreviation ReasonHeartbeat :: string where "ReasonHeartbeat \<equiv> ''scheduler.heartbeat''"
abbreviation ReasonLeaseExpired :: string where "ReasonLeaseExpired \<equiv> ''scheduler.lease_expired''"
abbreviation ReasonManualCancel :: string where "ReasonManualCancel \<equiv> ''scheduler.manual_cancel''"
abbreviation ReasonManualRetry :: string where "ReasonManualRetry \<equiv> ''scheduler.manual_retry''"
abbreviation ReasonAwaitingReport :: string where "ReasonAwaitingReport \<equiv> ''scheduler.awaiting_report''"
abbreviation ReasonAsyncTimeout :: string where "ReasonAsyncTimeout \<equiv> ''scheduler.async_timeout''"
abbreviation ReasonAsyncLateReport :: string where "ReasonAsyncLateReport \<equiv> ''scheduler.async_late_report''"
abbreviation ReasonAsyncReconcile :: string where "ReasonAsyncReconcile \<equiv> ''scheduler.async_reconcile''"
abbreviation ReasonRequeue :: string where "ReasonRequeue \<equiv> ''scheduler.requeue''"
abbreviation ReasonQoSClaim :: string where "ReasonQoSClaim \<equiv> ''scheduler.qos_claim''"
abbreviation ReasonFairnessYield :: string where "ReasonFairnessYield \<equiv> ''scheduler.fairness_yield''"
abbreviation ReasonRetryBackoff :: string where "ReasonRetryBackoff \<equiv> ''scheduler.retry_backoff''"
abbreviation ReasonDeadLetter :: string where "ReasonDeadLetter \<equiv> ''scheduler.dead_letter''"
abbreviation ReasonSpawn :: string where "ReasonSpawn \<equiv> ''subagent.spawn''"
abbreviation ReasonJoin :: string where "ReasonJoin \<equiv> ''subagent.join''"
abbreviation ReasonBudgetReject :: string where "ReasonBudgetReject \<equiv> ''subagent.budget_reject''"

definition canonicalReasonSet :: "string list" where
  "canonicalReasonSet =
     [ReasonEnqueue, ReasonDelayedEnqueue, ReasonDelayedWait, ReasonDelayedReady, ReasonClaim,
      ReasonHeartbeat, ReasonLeaseExpired, ReasonManualCancel, ReasonManualRetry, ReasonAwaitingReport,
      ReasonAsyncTimeout, ReasonAsyncLateReport, ReasonAsyncReconcile, ReasonRequeue, ReasonQoSClaim,
      ReasonFairnessYield, ReasonRetryBackoff, ReasonDeadLetter, ReasonSpawn, ReasonJoin,
      ReasonBudgetReject]"

definition CanonicalReason :: "string \<Rightarrow> string option" where
  "CanonicalReason reason =
     (let normalized = TrimSpace reason
      in if normalized \<in> set canonicalReasonSet then Some normalized else None)"

datatype action_status =
  ActionStatusPending | ActionStatusRunning | ActionStatusSucceeded | ActionStatusFailed | ActionStatusCanceled

fun action_status_string :: "action_status \<Rightarrow> string" where
  "action_status_string ActionStatusPending = ''pending''"
| "action_status_string ActionStatusRunning = ''running''"
| "action_status_string ActionStatusSucceeded = ''succeeded''"
| "action_status_string ActionStatusFailed = ''failed''"
| "action_status_string ActionStatusCanceled = ''canceled''"

section \<open>The facade\<close>

record 's scheduler =
  f_store :: 's
  f_leaseTimeout :: duration
  f_guardrails :: guardrails
  f_governance :: governance_config
  f_asyncAwait :: async_await_config
  f_taskBoardControl :: control_config
  f_recoveryBoundary :: recovery_config
  f_timeline :: bool
  f_events :: "timeline_event list"
  f_seq :: int
  f_reconcileSeq :: int
  f_queryCache :: "task_record query_cache"

datatype facade_error =
    FStore sched_error
  | FBudget budget_reject_code
  | FCompleteStatus
  | FFailStatus
  | FQuery query_error
  | FStoreRequired
  | FLeaseTimeoutNotPositive

definition nonBlank :: "string \<Rightarrow> string \<Rightarrow> (string \<times> payload_value) list" where
  "nonBlank k v = (if TrimSpace v \<noteq> [] then [(k, PayStr (TrimSpace v))] else [])"

definition timelinePayload ::
  "task_record \<Rightarrow> attempt option \<Rightarrow> action_status \<Rightarrow> string \<Rightarrow> int \<Rightarrow> (string \<times> payload_value) list
     \<Rightarrow> (string, payload_value) gomap" where
  "timelinePayload r a status reason sequence extras =
     (let t = r_Task r in
      fold (\<lambda>(k, v). fmupd k v)
        ([(''phase'', PayStr ''run''), (''status'', PayStr (action_status_string status)),
          (''reason'', PayStr reason), (''sequence'', PayInt sequence), (''task_id'', PayStr (t_TaskID t))]
         @ (case a of None \<Rightarrow> [] | Some att \<Rightarrow> nonBlank ''attempt_id'' (at_AttemptID att))
         @ nonBlank ''run_id'' (t_RunID t) @ nonBlank ''workflow_id'' (t_WorkflowID t)
         @ nonBlank ''team_id'' (t_TeamID t) @ nonBlank ''step_id'' (t_StepID t)
         @ nonBlank ''agent_id'' (t_AgentID t) @ nonBlank ''peer_id'' (t_PeerID t)
         @ nonBlank ''parent_run_id'' (t_ParentRunID t) @ extras) fmempty)"

text \<open>No attempt (\<open>Attempt{}\<close>, whose id is blank) is \<open>None\<close>.\<close>

definition emitTimelineWithExtras ::
  "time \<Rightarrow> task_record \<Rightarrow> attempt option \<Rightarrow> action_status \<Rightarrow> string \<Rightarrow> (string \<times> payload_value) list
     \<Rightarrow> 's scheduler \<Rightarrow> 's scheduler" where
  "emitTimelineWithExtras clk r a status reason0 extras f =
     (if \<not> f_timeline f then f
      else
        (case CanonicalReason reason0 of
           None \<Rightarrow> f
         | Some reason \<Rightarrow>
             let sequence = f_seq f + 1
             in f\<lparr>f_seq := sequence,
                  f_events := f_events f @
                    [\<lparr>te_Version = ''v1'', te_Type = ''action.timeline'', te_RunID = TrimSpace (t_RunID (r_Task r)),
                      te_Time = clk, te_Payload = timelinePayload r a status reason sequence extras\<rparr>]\<rparr>))"

definition emitTimeline ::
  "time \<Rightarrow> task_record \<Rightarrow> attempt option \<Rightarrow> action_status \<Rightarrow> string \<Rightarrow> 's scheduler \<Rightarrow> 's scheduler" where
  "emitTimeline clk r a status reason f = emitTimelineWithExtras clk r a status reason [] f"

definition latestAttempt :: "task_record \<Rightarrow> attempt option" where
  "latestAttempt r = (if r_Attempts r = [] then None else Some (last (r_Attempts r)))"

subsection \<open>The query cache\<close>

definition taskBoardQueryEpoch :: "'s scheduler \<Rightarrow> 64 word" where
  "taskBoardQueryEpoch f = ca_epoch (f_queryCache f)"

definition readTaskBoardQueryCache :: "64 word \<Rightarrow> string \<Rightarrow> 's scheduler \<Rightarrow> task_record list option" where
  "readTaskBoardQueryCache epoch key f = cacheRead epoch key (f_queryCache f)"

definition writeTaskBoardQueryCache :: "64 word \<Rightarrow> string \<Rightarrow> task_record list \<Rightarrow> 's scheduler \<Rightarrow> 's scheduler" where
  "writeTaskBoardQueryCache epoch key items f =
     f\<lparr>f_queryCache := cacheWrite epoch key items (f_queryCache f)\<rparr>"

definition invalidateTaskBoardQueryCache :: "'s scheduler \<Rightarrow> 's scheduler" where
  "invalidateTaskBoardQueryCache f = f\<lparr>f_queryCache := cacheInvalidate (f_queryCache f)\<rparr>"

section \<open>Construction\<close>

definition WithTimelineEmitter :: "bool \<Rightarrow> 's scheduler \<Rightarrow> 's scheduler" where
  "WithTimelineEmitter handler f = f\<lparr>f_timeline := handler\<rparr>"

definition WithLeaseTimeout :: "duration \<Rightarrow> 's scheduler \<Rightarrow> 's scheduler" where
  "WithLeaseTimeout timeout f = (if 0 < timeout then f\<lparr>f_leaseTimeout := timeout\<rparr> else f)"

definition WithGuardrails :: "guardrails \<Rightarrow> 's scheduler \<Rightarrow> 's scheduler" where
  "WithGuardrails g f = f\<lparr>f_guardrails := g\<rparr>"

definition WithGovernance :: "governance_config \<Rightarrow> 's scheduler \<Rightarrow> 's scheduler" where
  "WithGovernance cfg f = f\<lparr>f_governance := normalizeGovernanceConfig cfg\<rparr>"

definition WithRecoveryBoundary :: "recovery_config \<Rightarrow> 's scheduler \<Rightarrow> 's scheduler" where
  "WithRecoveryBoundary cfg f = f\<lparr>f_recoveryBoundary := normalizeRecoveryBoundaryConfig cfg\<rparr>"

definition WithAsyncAwait :: "async_await_config \<Rightarrow> 's scheduler \<Rightarrow> 's scheduler" where
  "WithAsyncAwait cfg f = f\<lparr>f_asyncAwait := normalizeAsyncAwaitConfig cfg\<rparr>"

definition WithTaskBoardControl :: "control_config \<Rightarrow> 's scheduler \<Rightarrow> 's scheduler" where
  "WithTaskBoardControl cfg f = f\<lparr>f_taskBoardControl := normalizeTaskBoardControlConfig cfg\<rparr>"

text \<open>\<open>New\<close>: a missing store and a missing option are \<open>None\<close>.\<close>

definition New ::
  "'s queue_store \<Rightarrow> 's option \<Rightarrow> ('s scheduler \<Rightarrow> 's scheduler) option list \<Rightarrow> (facade_error, 's scheduler) result" where
  "New st store opts =
     (case store of
        None \<Rightarrow> Err FStoreRequired
      | Some sto \<Rightarrow>
          let f0 = \<lparr>f_store = sto, f_leaseTimeout = 2 * second,
                    f_guardrails = \<lparr>gr_MaxDepth = 0, gr_MaxActiveChildren = 0, gr_ChildTimeoutBudget = 0\<rparr>,
                    f_governance = defaultGovernanceConfig, f_asyncAwait = defaultAsyncAwaitConfig,
                    f_taskBoardControl = defaultTaskBoardControlConfig,
                    f_recoveryBoundary = defaultRecoveryBoundaryConfig,
                    f_timeline = False, f_events = [], f_seq = 0, f_reconcileSeq = 0,
                    f_queryCache = \<lparr>ca_epoch = 0, ca_entries = fmempty\<rparr>\<rparr>;
              f1 = fold (\<lambda>opt f. case opt of None \<Rightarrow> f | Some g \<Rightarrow> g f) opts f0
          in if f_leaseTimeout f1 \<le> 0 then Err FLeaseTimeoutNotPositive
             else
               let f2 = f1\<lparr>f_governance := normalizeGovernanceConfig (f_governance f1),
                           f_asyncAwait := normalizeAsyncAwaitConfig (f_asyncAwait f1),
                           f_taskBoardControl := normalizeTaskBoardControlConfig (f_taskBoardControl f1)\<rparr>
               in Ok (f2\<lparr>f_store :=
                          qs_SetTaskBoardControl st (f_taskBoardControl f2)
                            (qs_SetAsyncAwait st (f_asyncAwait f2)
                              (qs_SetRecoveryBoundary st (f_recoveryBoundary f2)
                                (qs_SetGovernance st (f_governance f2) (f_store f2))))\<rparr>))"

section \<open>Operations\<close>

text \<open>\<open>t.UnixMilli()\<close>, and a waiting time in milliseconds that is never negative.\<close>

definition UnixMilli :: "time \<Rightarrow> int" where
  "UnixMilli t = (t - 62135596800 * second) div millisecond"

definition waitMillis :: "time \<Rightarrow> time \<Rightarrow> int" where
  "waitMillis since till = (let ms = Milliseconds (time_sub till since) in if ms < 0 then 0 else ms)"

text \<open>A call of a store method.\<close>

definition storeCall :: "('s \<Rightarrow> (sched_error, 'a) result \<times> 's) \<Rightarrow> 's scheduler \<Rightarrow> (sched_error, 'a) result \<times> 's scheduler" where
  "storeCall m f = (case m (f_store f) of (res, sto) \<Rightarrow> (res, f\<lparr>f_store := sto\<rparr>))"

type_synonym ('s, 'a) facade_op = "'s scheduler \<Rightarrow> (facade_error, 'a) result \<times> 's scheduler"

definition Enqueue :: "'s queue_store \<Rightarrow> time \<Rightarrow> task \<Rightarrow> ('s, task_record) facade_op" where
  "Enqueue st clk t f =
     (case storeCall (qs_Enqueue st clk t clk) f of
        (Inl e, f1) \<Rightarrow> (Err (FStore e), f1)
      | (Inr r, f1) \<Rightarrow>
          let f2 = emitTimeline clk r None ActionStatusPending ReasonEnqueue (invalidateTaskBoardQueryCache f1);
              extras = [(''not_before_unix_ms'', PayInt (UnixMilli (t_NotBefore (r_Task r)))),
                        (''remaining_delay_ms'', PayInt (waitMillis clk (t_NotBefore (r_Task r))))]
          in (Ok r,
              if isTaskDelayed (r_Task r) clk
              then emitTimelineWithExtras clk r None ActionStatusPending ReasonDelayedWait extras
                     (emitTimelineWithExtras clk r None ActionStatusPending ReasonDelayedEnqueue extras f2)
              else f2))"

text \<open>A record that only carries the task, as the rejected spawns emit it.\<close>

definition taskOnlyRecord :: "task \<Rightarrow> task_record" where
  "taskOnlyRecord t =
     \<lparr>r_Task = t, r_State = TaskStateOther [], r_Attempts = [], r_CurrentAttempt = [], r_ManualRetryCount = 0,
      r_AwaitingReportSince = 0, r_ReportTimeoutAt = 0, r_RemoteTaskID = [], r_ResolutionSource = [],
      r_TerminalConflict = False, r_NextEligibleAt = 0, r_DeadLetterCode = [], r_Result = fmempty,
      r_ErrorMessage = [], r_ErrorClass = [], r_ErrorLayer = [], r_CreatedAt = 0, r_UpdatedAt = 0\<rparr>"

definition rejectSpawn :: "time \<Rightarrow> task \<Rightarrow> budget_reject_code \<Rightarrow> ('s, task_record) facade_op" where
  "rejectSpawn clk t code f =
     (Err (FBudget code), emitTimeline clk (taskOnlyRecord t) None ActionStatusFailed ReasonBudgetReject f)"

text \<open>The request with its timeout clamped to the parent's budget and recorded in the task.\<close>

definition resolveSpawn :: "spawn_request \<Rightarrow> spawn_request" where
  "resolveSpawn req =
     (let clamped = sp_ParentRemainingBudget req < sp_ChildTimeout req;
          timeout = (if clamped then sp_ParentRemainingBudget req else sp_ChildTimeout req);
          tr = sp_TimeoutResolution req;
          resolution =
            tr\<lparr>tr_ParentBudgetClamped := (clamped \<or> tr_ParentBudgetClamped tr),
               tr_EffectiveOperationProfile := TrimSpace (tr_EffectiveOperationProfile tr),
               tr_Source := TrimSpace (tr_Source tr), tr_Trace := TrimSpace (tr_Trace tr),
               tr_ResolvedTimeout := timeout\<rparr>
      in req\<lparr>sp_ChildTimeout := timeout, sp_TimeoutResolution := resolution,
             sp_Task := (sp_Task req)\<lparr>t_TimeoutResolution := resolution\<rparr>\<rparr>)"

definition SpawnChild :: "'s queue_store \<Rightarrow> time \<Rightarrow> spawn_request \<Rightarrow> ('s, task_record) facade_op" where
  "SpawnChild st clk req0 f =
     (if sp_ParentRemainingBudget req0 \<le> 0 then rejectSpawn clk (sp_Task req0) BudgetRejectParentBudgetExhausted f
      else if sp_ChildTimeout req0 \<le> 0 then rejectSpawn clk (sp_Task req0) BudgetRejectTimeout f
      else
        let req = resolveSpawn req0
        in (case ValidateSpawn (f_guardrails f) req of
              Some code \<Rightarrow> rejectSpawn clk (sp_Task req) code f
            | None \<Rightarrow>
                (case Enqueue st clk (sp_Task req) f of
                   (Inl e, f1) \<Rightarrow> (Err e, f1)
                 | (Inr r, f1) \<Rightarrow> (Ok r, emitTimeline clk r None ActionStatusPending ReasonSpawn f1))))"

definition emitQoSClaim :: "time \<Rightarrow> claimed_task \<Rightarrow> 's scheduler \<Rightarrow> 's scheduler" where
  "emitQoSClaim clk c f =
     (if g_QoS (f_governance f) = QoSModePriority then
        let base = [(''qos_mode'', PayStr (qos_string (g_QoS (f_governance f)))),
                    (''task_priority'', PayStr (normalizedPriority (ct_TaskPriority c)))];
            f1 = emitTimelineWithExtras clk (ct_Record c) (Some (ct_Attempt c)) ActionStatusRunning ReasonQoSClaim base f
        in if ct_FairnessYielded c
           then emitTimelineWithExtras clk (ct_Record c) (Some (ct_Attempt c)) ActionStatusPending ReasonFairnessYield
                  (base @ [(''fairness_window'', PayInt (g_MaxConsecutiveClaimsPerPriority (f_governance f))),
                           (''fairness_yielded'', PayBool True)]) f1
           else f1
      else f)"

definition Claim :: "'s queue_store \<Rightarrow> time \<Rightarrow> string \<Rightarrow> ('s, claimed_task option) facade_op" where
  "Claim st clk workerID f =
     (case storeCall (qs_Claim st clk workerID clk (f_leaseTimeout f)) f of
        (Inl e, f1) \<Rightarrow> (Err (FStore e), f1)
      | (Inr None, f1) \<Rightarrow> (Ok None, f1)
      | (Inr (Some c), f1) \<Rightarrow>
          let f2 = invalidateTaskBoardQueryCache f1;
              r = ct_Record c;
              f3 = (if isTaskDelayed (r_Task r) (r_CreatedAt r)
                    then emitTimelineWithExtras clk r (Some (ct_Attempt c)) ActionStatusPending ReasonDelayedReady
                           [(''not_before_unix_ms'', PayInt (UnixMilli (t_NotBefore (r_Task r)))),
                            (''delayed_wait_ms'', PayInt (waitMillis (r_CreatedAt r) clk))] f2
                    else f2);
              f4 = emitTimeline clk r (Some (ct_Attempt c)) ActionStatusRunning ReasonClaim f3
          in (Ok (Some c), emitQoSClaim clk c f4))"

definition Heartbeat :: "'s queue_store \<Rightarrow> time \<Rightarrow> string \<Rightarrow> string \<Rightarrow> string \<Rightarrow> ('s, claimed_task) facade_op" where
  "Heartbeat st clk taskID attemptID leaseToken f =
     (case storeCall (qs_Heartbeat st clk taskID attemptID leaseToken clk (f_leaseTimeout f)) f of
        (Inl e, f1) \<Rightarrow> (Err (FStore e), f1)
      | (Inr c, f1) \<Rightarrow>
          (Ok c, emitTimeline clk (ct_Record c) (Some (ct_Attempt c)) ActionStatusRunning ReasonHeartbeat
                   (invalidateTaskBoardQueryCache f1)))"

subsection \<open>Expiry\<close>

definition deadLetterExtras :: "task_record \<Rightarrow> (string \<times> payload_value) list" where
  "deadLetterExtras r =
     [(''task_priority'', PayStr (normalizedPriority (t_Priority (r_Task r)))),
      (''dead_letter_code'', PayStr (TrimSpace (r_DeadLetterCode r))),
      (''max_attempts'', PayInt (t_MaxAttempts (r_Task r))),
      (''dead_letter_state'', PayStr (state_string TaskStateDeadLetter)),
      (''retry_exhausted'', PayBool True),
      (''retry_attempts'', PayInt (int (length (r_Attempts r))))]"

text \<open>What \<open>ExpireLeases\<close> and \<open>Requeue\<close> report about a task that was taken back.\<close>

definition emitRetryOutcome :: "time \<Rightarrow> task_record \<Rightarrow> attempt option \<Rightarrow> 's scheduler \<Rightarrow> 's scheduler" where
  "emitRetryOutcome clk r a f =
     (case r_State r of
        TaskStateQueued \<Rightarrow>
          let f1 = emitTimeline clk r a ActionStatusPending ReasonRequeue f
          in if \<not> IsZero (r_NextEligibleAt r) \<and> clk < r_NextEligibleAt r
             then emitTimelineWithExtras clk r a ActionStatusPending ReasonRetryBackoff
                    [(''task_priority'', PayStr (normalizedPriority (t_Priority (r_Task r)))),
                     (''backoff_ms'', PayInt (Milliseconds (time_sub (r_NextEligibleAt r) clk))),
                     (''max_attempts'', PayInt (t_MaxAttempts (r_Task r)))] f1
             else f1
      | TaskStateDeadLetter \<Rightarrow>
          emitTimelineWithExtras clk r a ActionStatusFailed ReasonDeadLetter (deadLetterExtras r) f
      | _ \<Rightarrow> f)"

definition emitLeaseExpired :: "time \<Rightarrow> claimed_task \<Rightarrow> 's scheduler \<Rightarrow> 's scheduler" where
  "emitLeaseExpired clk c f =
     emitRetryOutcome clk (ct_Record c) (Some (ct_Attempt c))
       (emitTimeline clk (ct_Record c) (Some (ct_Attempt c)) ActionStatusFailed ReasonLeaseExpired f)"

definition emitReportTimeout :: "time \<Rightarrow> claimed_task \<Rightarrow> 's scheduler \<Rightarrow> 's scheduler" where
  "emitReportTimeout clk c f =
     (let r = ct_Record c;
          extras = [(''task_priority'', PayStr (normalizedPriority (t_Priority (r_Task r)))),
                    (''timeout_terminal'', PayStr (state_string (r_State r)))]
                   @ (if \<not> IsZero (r_ReportTimeoutAt r)
                      then [(''report_timeout_at_unix_ms'', PayInt (UnixMilli (r_ReportTimeoutAt r)))] else []);
          f1 = emitTimelineWithExtras clk r (Some (ct_Attempt c)) ActionStatusFailed ReasonAsyncTimeout extras f
      in if r_State r = TaskStateDeadLetter
         then emitTimelineWithExtras clk r (Some (ct_Attempt c)) ActionStatusFailed ReasonDeadLetter (deadLetterExtras r) f1
         else f1)"

definition ExpireLeases :: "'s queue_store \<Rightarrow> time \<Rightarrow> ('s, claimed_task list) facade_op" where
  "ExpireLeases st clk f =
     (case storeCall (qs_ExpireLeases st clk clk) f of
        (Inl e, f1) \<Rightarrow> (Err (FStore e), f1)
      | (Inr expired, f1) \<Rightarrow>
          (case storeCall (qs_ExpireAwaitingReports st clk clk) (fold (emitLeaseExpired clk) expired f1) of
             (Inl e, f2) \<Rightarrow> (Err (FStore e), f2)
           | (Inr awaiting, f2) \<Rightarrow>
               let f3 = fold (emitReportTimeout clk) awaiting f2;
                   gone = expired @ awaiting
               in (Ok gone, if gone \<noteq> [] then invalidateTaskBoardQueryCache f3 else f3)))"

subsection \<open>Reports, requeue, control\<close>

definition MarkAwaitingReport ::
  "'s queue_store \<Rightarrow> time \<Rightarrow> string \<Rightarrow> string \<Rightarrow> string option \<Rightarrow> ('s, task_record) facade_op" where
  "MarkAwaitingReport st clk taskID attemptID remoteTaskID f =
     (let remote = (case remoteTaskID of None \<Rightarrow> [] | Some v \<Rightarrow> TrimSpace v);
          timeout = aa_ReportTimeout (f_asyncAwait f)
      in (case storeCall (qs_MarkAwaitingReport st clk taskID attemptID remote clk timeout) f of
            (Inl e, f1) \<Rightarrow> (Err (FStore e), f1)
          | (Inr r, f1) \<Rightarrow>
              (Ok r,
               emitTimelineWithExtras clk r (attemptByID r (TrimSpace attemptID)) ActionStatusPending ReasonAwaitingReport
                 ((''report_timeout_ms'', PayInt (Milliseconds timeout)) # nonBlank ''remote_task_id'' (r_RemoteTaskID r))
                 (invalidateTaskBoardQueryCache f1))))"

definition Requeue :: "'s queue_store \<Rightarrow> time \<Rightarrow> string \<Rightarrow> ('s, task_record) facade_op" where
  "Requeue st clk taskID f =
     (case storeCall (qs_Requeue st clk taskID clk) f of
        (Inl e, f1) \<Rightarrow> (Err (FStore e), f1)
      | (Inr r, f1) \<Rightarrow> (Ok r, emitRetryOutcome clk r (latestAttempt r) (invalidateTaskBoardQueryCache f1)))"

definition ControlTask :: "'s queue_store \<Rightarrow> time \<Rightarrow> control_request \<Rightarrow> ('s, control_result) facade_op" where
  "ControlTask st clk req f =
     (case storeCall (qs_ControlTask st clk req clk) f of
        (Inl e, f1) \<Rightarrow> (Err (FStore e), f1)
      | (Inr res, f1) \<Rightarrow>
          if \<not> k_Applied res \<or> k_Deduplicated res then (Ok res, f1)
          else
            let f2 = invalidateTaskBoardQueryCache f1; r = k_Record res
            in (Ok res,
                case k_Action res of
                  TaskBoardControlActionCancel \<Rightarrow>
                    emitTimeline clk r (latestAttempt r) ActionStatusCanceled ReasonManualCancel f2
                | TaskBoardControlActionRetryTerminal \<Rightarrow>
                    emitTimeline clk r (latestAttempt r) ActionStatusPending ReasonManualRetry f2
                | TaskBoardControlActionOther _ \<Rightarrow> f2))"

subsection \<open>Terminal commits\<close>

definition joinCommit :: "time \<Rightarrow> action_status \<Rightarrow> terminal_commit \<Rightarrow> commit_result \<Rightarrow> 's scheduler \<Rightarrow> 's scheduler" where
  "joinCommit clk status c res f =
     (if cr_Duplicate res then f
      else emitTimeline clk (cr_Record res) (attemptByID (cr_Record res) (c_AttemptID c)) status ReasonJoin
             (invalidateTaskBoardQueryCache f))"

definition Complete :: "'s queue_store \<Rightarrow> time \<Rightarrow> terminal_commit \<Rightarrow> ('s, commit_result) facade_op" where
  "Complete st clk c f =
     (if c_Status c \<noteq> TaskStateSucceeded then (Err FCompleteStatus, f)
      else
        (case storeCall (qs_CommitTerminal st clk c) f of
           (Inl e, f1) \<Rightarrow> (Err (FStore e), f1)
         | (Inr res, f1) \<Rightarrow> (Ok res, joinCommit clk ActionStatusSucceeded c res f1)))"

definition Fail :: "'s queue_store \<Rightarrow> time \<Rightarrow> terminal_commit \<Rightarrow> ('s, commit_result) facade_op" where
  "Fail st clk c f =
     (if c_Status c \<noteq> TaskStateFailed then (Err FFailStatus, f)
      else
        (case storeCall (qs_CommitTerminal st clk c) f of
           (Inl e, f1) \<Rightarrow> (Err (FStore e), f1)
         | (Inr res, f1) \<Rightarrow> (Ok res, joinCommit clk ActionStatusFailed c res f1)))"

definition CommitAsyncReportTerminal :: "'s queue_store \<Rightarrow> time \<Rightarrow> terminal_commit \<Rightarrow> ('s, commit_result) facade_op" where
  "CommitAsyncReportTerminal st clk c f =
     (case storeCall (qs_CommitAsyncReportTerminal st clk c) f of
        (Inl e, f1) \<Rightarrow> (Err (FStore e), f1)
      | (Inr res, f1) \<Rightarrow>
          if cr_LateReport res then (Ok res, f1)
          else if cr_Duplicate res then (Ok res, f1)
          else
            let f2 = invalidateTaskBoardQueryCache f1;
                a = attemptByID (cr_Record res) (c_AttemptID c)
            in (Ok res,
                case c_Status c of
                  TaskStateSucceeded \<Rightarrow> emitTimeline clk (cr_Record res) a ActionStatusSucceeded ReasonJoin f2
                | TaskStateFailed \<Rightarrow> emitTimeline clk (cr_Record res) a ActionStatusFailed ReasonJoin f2
                | _ \<Rightarrow> f2))"

subsection \<open>Reading, restoring, querying\<close>

definition Get :: "'s queue_store \<Rightarrow> string \<Rightarrow> 's scheduler \<Rightarrow> task_record option" where
  "Get st taskID f = qs_Get st taskID (f_store f)"

definition Stats :: "'s queue_store \<Rightarrow> 's scheduler \<Rightarrow> stats" where
  "Stats st f = qs_Stats st (f_store f)"

definition Snapshot :: "'s queue_store \<Rightarrow> 's scheduler \<Rightarrow> store_snapshot" where
  "Snapshot st f = qs_Snapshot st (f_store f)"

definition Restore :: "'s queue_store \<Rightarrow> time \<Rightarrow> store_snapshot \<Rightarrow> ('s, unit) facade_op" where
  "Restore st clk sn f =
     (case storeCall (qs_Restore st clk sn) f of
        (Inl e, f1) \<Rightarrow> (Err (FStore e), f1)
      | (Inr u, f1) \<Rightarrow> (Ok (), invalidateTaskBoardQueryCache f1))"

definition QueryTasks :: "'s queue_store \<Rightarrow> task_query_request \<Rightarrow> ('s, task_query_result) facade_op" where
  "QueryTasks st req f =
     (case normalizeTaskBoardQuery req of
        Inl e \<Rightarrow> (Err (FQuery e), f)
      | Inr q \<Rightarrow>
          let queryHash = taskBoardQueryHash q
          in (case decodeTaskBoardCursor (nq_Cursor q) queryHash of
                Inl e \<Rightarrow> (Err (FQuery e), f)
              | Inr start \<Rightarrow>
                  let epoch = taskBoardQueryEpoch f;
                      (filtered, f1) =
                        (case readTaskBoardQueryCache epoch queryHash f of
                           Some items \<Rightarrow> (items, f)
                         | None \<Rightarrow>
                             let fresh = filterTaskBoardQueryRecords (sn_Tasks (Snapshot st f)) q
                             in (fresh, writeTaskBoardQueryCache epoch queryHash fresh f))
                  in (case buildTaskBoardQueryResult filtered q start queryHash of
                        Inl e \<Rightarrow> (Err (FQuery e), f1)
                      | Inr res \<Rightarrow> (Ok res, f1))))"

end
