(* ===== verification/Scheduler_Reconcile.thy ===== *)
theory Scheduler_Reconcile
  imports Scheduler_Facade
begin

text \<open>
  Reconciling tasks that await a remote report: \<open>async_reconcile.go\<close>, the poll classification and
  the commit it builds (\<open>a2a_adapter.go\<close>), and the error classification of the A2A package
  (\<open>src/a2a/interop.go\<close>). The remote peer is the pair of functions \<open>status\<close> and
  \<open>result\<close>, the two methods of \<open>A2AReconcilePollClient\<close>.
\<close>

section \<open>Remote records and errors\<close>

datatype a2a_status =
  StatusSubmitted | StatusRunning | StatusSucceeded | StatusFailed | StatusCanceled | StatusOther string

fun a2a_status_string :: "a2a_status \<Rightarrow> string" where
  "a2a_status_string StatusSubmitted = ''submitted''"
| "a2a_status_string StatusRunning = ''running''"
| "a2a_status_string StatusSucceeded = ''succeeded''"
| "a2a_status_string StatusFailed = ''failed''"
| "a2a_status_string StatusCanceled = ''canceled''"
| "a2a_status_string (StatusOther s) = s"

text \<open>The fields of \<open>a2a.TaskRecord\<close> that the scheduler reads.\<close>

record a2a_record =
  ar_TaskID :: string
  ar_Status :: a2a_status
  ar_Result :: "(string, go_any) gomap"
  ar_ErrorClass :: string
  ar_A2AErrorLayer :: string
  ar_ErrorMessage :: string

text \<open>
  An error as the code looks at it: its text, the code and layer of an \<open>a2aReasonError\<close> in its chain,
  and whether the chain holds a context cancellation or deadline.
\<close>

record go_error =
  ge_Message :: string
  ge_Reason :: "(string \<times> string) option"
  ge_Context :: bool

fun Contains :: "string \<Rightarrow> string \<Rightarrow> bool" where
  "Contains [] sub \<longleftrightarrow> sub = []"
| "Contains (c # s) sub \<longleftrightarrow> prefix sub (c # s) \<or> Contains s sub"

abbreviation ErrorLayerTransport :: string where "ErrorLayerTransport \<equiv> ''transport''"
abbreviation ErrorLayerProtocol :: string where "ErrorLayerProtocol \<equiv> ''protocol''"
abbreviation ErrorLayerSemantic :: string where "ErrorLayerSemantic \<equiv> ''semantic''"
abbreviation DeliveryErrorUnsupported :: string where "DeliveryErrorUnsupported \<equiv> ''a2a.delivery_unsupported''"
abbreviation DeliveryErrorRetryExhausted :: string where
  "DeliveryErrorRetryExhausted \<equiv> ''a2a.delivery_retry_exhausted''"
abbreviation DeliveryErrorSSEReconnectExhausted :: string where
  "DeliveryErrorSSEReconnectExhausted \<equiv> ''a2a.sse_reconnect_exhausted''"
abbreviation DeliveryErrorVersionMismatch :: string where
  "DeliveryErrorVersionMismatch \<equiv> ''a2a.version_mismatch''"

text \<open>\<open>a2a.ClassifyError\<close> of an error that is not nil: its class, layer and code.\<close>

definition ClassifyError :: "go_error \<Rightarrow> string \<times> string \<times> string" where
  "ClassifyError err =
     (case ge_Reason err of
        Some (code0, layer) \<Rightarrow>
          let code = TrimSpace code0 in
          if code = DeliveryErrorVersionMismatch then (''ErrContext'', ErrorLayerSemantic, code)
          else if code = DeliveryErrorUnsupported then (''ErrMCP'', ErrorLayerProtocol, code)
          else if code = DeliveryErrorRetryExhausted \<or> code = DeliveryErrorSSEReconnectExhausted
          then (''ErrMCP'', ErrorLayerTransport, code)
          else (''ErrMCP'', if layer = [] then ErrorLayerProtocol else layer, code)
      | None \<Rightarrow>
          if ge_Context err then (''ErrPolicyTimeout'', ErrorLayerTransport, ''timeout'')
          else
            let message = ToLower (TrimSpace (ge_Message err)); has = Contains message in
            if has ''a2a.version_mismatch'' \<or> has ''version mismatch''
            then (''ErrContext'', ErrorLayerSemantic, DeliveryErrorVersionMismatch)
            else if has ''a2a.delivery_unsupported'' \<or> has ''delivery unsupported''
            then (''ErrMCP'', ErrorLayerProtocol, DeliveryErrorUnsupported)
            else if has ''a2a.delivery_retry_exhausted'' \<or> has ''callback retry exhausted''
            then (''ErrMCP'', ErrorLayerTransport, DeliveryErrorRetryExhausted)
            else if has ''a2a.sse_reconnect_exhausted'' \<or> has ''sse reconnect exhausted''
            then (''ErrMCP'', ErrorLayerTransport, DeliveryErrorSSEReconnectExhausted)
            else if has ''unsupported method'' \<or> has ''protocol''
            then (''ErrMCP'', ErrorLayerProtocol, ''unsupported_method'')
            else if has ''invalid'' \<or> has ''semantic'' \<or> has ''schema''
            then (''ErrContext'', ErrorLayerSemantic, ''invalid_payload'')
            else if has ''connection'' \<or> has ''refused'' \<or> has ''transport''
            then (''ErrMCP'', ErrorLayerTransport, ''transport_failure'')
            else (''ErrMCP'', ErrorLayerProtocol, ''unknown''))"

section \<open>Classifying a poll\<close>

datatype poll_classification =
    ReconcilePollClassificationPending
  | ReconcilePollClassificationTerminal
  | ReconcilePollClassificationNotFound
  | ReconcilePollClassificationRetryableError
  | ReconcilePollClassificationNonRetryableErr

definition classifyReconcilePollError :: "go_error \<Rightarrow> poll_classification" where
  "classifyReconcilePollError err =
     (if Contains (ToLower (TrimSpace (ge_Message err))) ''not found'' then ReconcilePollClassificationNotFound
      else case ClassifyError err of (_, layer, _) \<Rightarrow>
        if layer = ErrorLayerTransport then ReconcilePollClassificationRetryableError
        else ReconcilePollClassificationNonRetryableErr)"

type_synonym poll_client = "string \<Rightarrow> (go_error, a2a_record) result"

text \<open>The record comes with the classification where it is terminal or pending.\<close>

definition ClassifyReconcilePoll ::
  "poll_client \<Rightarrow> poll_client \<Rightarrow> string \<Rightarrow> poll_classification \<times> a2a_record option" where
  "ClassifyReconcilePoll status result remote0 =
     (let remoteTaskID = TrimSpace remote0 in
      if remoteTaskID = [] then (ReconcilePollClassificationNonRetryableErr, None)
      else
        (case status remoteTaskID of
           Inl err \<Rightarrow> (classifyReconcilePollError err, None)
         | Inr rec \<Rightarrow>
             if ar_Status rec \<in> {StatusSucceeded, StatusFailed, StatusCanceled} then
               (case result remoteTaskID of
                  Inl err \<Rightarrow> (classifyReconcilePollError err, None)
                | Inr res \<Rightarrow>
                    (ReconcilePollClassificationTerminal,
                     Some (if TrimSpace (ar_TaskID res) = [] then res\<lparr>ar_TaskID := remoteTaskID\<rparr> else res)))
             else (ReconcilePollClassificationPending, Some rec)))"

text \<open>The \<open>%q\<close> verb, on the status names and other texts without characters to escape.\<close>

definition quoted :: "string \<Rightarrow> string" where
  "quoted s = quote_char # s @ [quote_char]"

definition blankCommit :: terminal_commit where
  "blankCommit =
     \<lparr>c_TaskID = [], c_AttemptID = [], c_Status = TaskStateOther [], c_Source = [], c_RemoteTaskID = [],
      c_Result = fmempty, c_ErrorMessage = [], c_ErrorClass = [], c_ErrorLayer = [], c_OutcomeKey = [],
      c_CommittedAt = 0, c_WorkspaceProvenance = None\<rparr>"

definition ReconcileTerminalCommitFromRecord ::
  "time \<Rightarrow> string \<Rightarrow> string \<Rightarrow> string \<Rightarrow> a2a_record \<Rightarrow> time \<Rightarrow> terminal_commit option" where
  "ReconcileTerminalCommitFromRecord clk taskID0 attemptID0 remote0 rec committedAt0 =
     (let taskID = TrimSpace taskID0; attemptID = TrimSpace attemptID0;
          base = blankCommit\<lparr>c_TaskID := taskID, c_AttemptID := attemptID,
                             c_Source := AsyncResolutionSourceReconcilePoll, c_RemoteTaskID := TrimSpace remote0,
                             c_CommittedAt := resolve_now clk committedAt0\<rparr>;
          layer = TrimSpace (ar_A2AErrorLayer rec);
          message = TrimSpace (ar_ErrorMessage rec)
      in if taskID = [] \<or> attemptID = [] then None
         else
           (case ar_Status rec of
              StatusSucceeded \<Rightarrow> Some (base\<lparr>c_Status := TaskStateSucceeded, c_Result := ar_Result rec\<rparr>)
            | _ \<Rightarrow>
                if ar_Status rec = StatusFailed \<or> ar_Status rec = StatusCanceled then
                  Some (base\<lparr>c_Status := TaskStateFailed,
                             c_ErrorMessage :=
                               (if message = [] then ''a2a terminal status '' @ quoted (a2a_status_string (ar_Status rec))
                                else message),
                             c_ErrorClass := (if ar_ErrorClass rec = [] then ''ErrMCP'' else ar_ErrorClass rec),
                             c_ErrorLayer := (if layer = [] then ErrorLayerProtocol else layer)\<rparr>)
                else None))"

section \<open>One reconcile cycle\<close>

record cycle_stats =
  cy_PollTotal :: int
  cy_TerminalByPoll :: int
  cy_ErrorTotal :: int
  cy_ConflictTotalDelta :: int

definition cycleError :: "cycle_stats \<Rightarrow> cycle_stats" where
  "cycleError cy = cy\<lparr>cy_ErrorTotal := cy_ErrorTotal cy + 1\<rparr>"

definition cycleCommit :: "commit_result \<Rightarrow> cycle_stats \<Rightarrow> cycle_stats" where
  "cycleCommit res cy =
     cy\<lparr>cy_ConflictTotalDelta := cy_ConflictTotalDelta cy + (if cr_Conflict res then 1 else 0),
        cy_TerminalByPoll := cy_TerminalByPoll cy + (if \<not> cr_Duplicate res \<and> \<not> cr_LateReport res then 1 else 0)\<rparr>"

text \<open>One task that awaits its report.\<close>

definition reconcileOne ::
  "'s queue_store \<Rightarrow> time \<Rightarrow> poll_client \<Rightarrow> poll_client \<Rightarrow> task_record \<Rightarrow> cycle_stats \<times> 's scheduler
     \<Rightarrow> cycle_stats \<times> 's scheduler" where
  "reconcileOne st clk status result r acc =
     (case acc of (cy, f) \<Rightarrow>
        let remoteTaskID = TrimSpace (r_RemoteTaskID r) in
        if remoteTaskID = [] then (cycleError cy, f)
        else
          (case currentAttempt r of
             None \<Rightarrow> (cycleError cy, f)
           | Some a \<Rightarrow>
               let cy1 = cy\<lparr>cy_PollTotal := cy_PollTotal cy + 1\<rparr>
               in (case ClassifyReconcilePoll status result remoteTaskID of
                     (ReconcilePollClassificationTerminal, Some rec) \<Rightarrow>
                       (case ReconcileTerminalCommitFromRecord clk (t_TaskID (r_Task r)) (at_AttemptID a) remoteTaskID rec clk of
                          None \<Rightarrow> (cycleError cy1, f)
                        | Some c \<Rightarrow>
                            (case CommitAsyncReportTerminal st clk c f of
                               (Inl e, f1) \<Rightarrow> (cycleError cy1, f1)
                             | (Inr res, f1) \<Rightarrow> (cycleCommit res cy1, f1)))
                   | (ReconcilePollClassificationRetryableError, _) \<Rightarrow> (cycleError cy1, f)
                   | (ReconcilePollClassificationNonRetryableErr, _) \<Rightarrow> (cycleError cy1, f)
                   | _ \<Rightarrow> (cy1, f))))"

definition ReconcileAwaitingReports ::
  "'s queue_store \<Rightarrow> time \<Rightarrow> poll_client \<Rightarrow> poll_client \<Rightarrow> ('s, cycle_stats) facade_op" where
  "ReconcileAwaitingReports st clk status result f =
     (let cfg = aa_Reconcile (f_asyncAwait f);
          zero = \<lparr>cy_PollTotal = 0, cy_TerminalByPoll = 0, cy_ErrorTotal = 0, cy_ConflictTotalDelta = 0\<rparr>
      in if \<not> rc_Enabled cfg then (Ok zero, f)
         else
           let awaiting = qs_ListAwaitingReport st clk clk (rc_BatchSize cfg) (f_store f);
               (cy, f1) = fold (reconcileOne st clk status result) awaiting (zero, f)
           in (case storeCall (qs_RecordAsyncReconcileStats st clk (cy_PollTotal cy) (cy_ErrorTotal cy)) f1 of
                 (Inl e, f2) \<Rightarrow> (Err (FStore e), f2)
               | (Inr u, f2) \<Rightarrow> (Ok cy, f2)))"

section \<open>The delay between cycles\<close>

definition reconcileJitteredInterval :: "duration \<Rightarrow> f64 \<Rightarrow> int \<Rightarrow> duration" where
  "reconcileJitteredInterval base0 ratio0 sequence =
     (let base = (if base0 \<le> 0 then 5 * second else base0) in
      if f64_le ratio0 (F64 0) then base
      else
        let ratio = (if f64_less (F64 1) ratio0 then F64 1 else ratio0);
            jitterRange = f64_to_int64 (f64_mul (f64_of_int base) ratio)
        in if jitterRange \<le> 0 then base
           else
             let seed = stableRetryJitterSeed ''async_reconcile_interval'' (Itoa sequence) sequence;
                 withJitter = wrap64 (base + jitter_offset seed jitterRange)
             in if withJitter \<le> 0 then millisecond else withJitter)"

definition NextAsyncReconcileDelay :: "'s scheduler \<Rightarrow> duration \<times> 's scheduler" where
  "NextAsyncReconcileDelay f =
     (let cfg = aa_Reconcile (f_asyncAwait f); sequence = f_reconcileSeq f + 1
      in (reconcileJitteredInterval (rc_Interval cfg) (rc_JitterRatio cfg) sequence, f\<lparr>f_reconcileSeq := sequence\<rparr>))"

section \<open>Bounds of the delay\<close>

lemma jitterRange_bounds:
  assumes "0 < base" "base \<le> 2 ^ 53" "\<not> f64_le ratio (F64 0)"
  shows "f64_to_int64 (f64_mul (f64_of_int base) (if f64_less (F64 1) ratio then F64 1 else ratio)) \<le> base"
proof (cases "if f64_less (F64 1) ratio then F64 1 else ratio")
  case (F64 x)
  have x: "0 \<le> x" "x \<le> 1" using F64 assms(3) by (cases ratio; auto split: if_splits)+
  have "0 \<le> of_int base * x" "of_int base * x \<le> of_int base"
    using x assms(1) by (simp_all add: mult_le_cancel_left1 mult_left_le)
  from f64_round_le_int [OF this assms(2)] obtain r where "f64_round (of_int base * x) = F64 r" "0 \<le> r" "r \<le> of_int base" by blast
  then show ?thesis
    using f64_to_int64_mono_bound [of r base] assms F64 by (simp add: f64_of_int_exact)
next
  case (F64Inf s)
  then show ?thesis using assms by (cases ratio) (auto split: if_splits)
next
  case F64NaN
  then show ?thesis using assms by (simp add: f64_of_int_exact)
qed

lemma reconcileJitteredInterval_bounds:
  assumes "base = (if base0 \<le> 0 then 5 * second else base0)" "base \<le> 2 ^ 53"
  shows "0 < reconcileJitteredInterval base0 ratio sequence
    \<and> reconcileJitteredInterval base0 ratio sequence \<le> max millisecond (2 * base)"
proof -
  have b: "0 < base" using assms(1) by (simp add: not_le duration_defs)
  define jr where "jr = f64_to_int64 (f64_mul (f64_of_int base) (if f64_less (F64 1) ratio then F64 1 else ratio))"
  define seed where "seed = stableRetryJitterSeed ''async_reconcile_interval'' (Itoa sequence) sequence"
  define w where "w = wrap64 (base + jitter_offset seed jr)"
  have eq: "reconcileJitteredInterval base0 ratio sequence =
      (if f64_le ratio (F64 0) \<or> jr \<le> 0 then base else if w \<le> 0 then millisecond else w)"
    by (simp add: reconcileJitteredInterval_def Let_def assms(1) [symmetric] jr_def w_def seed_def)
  show ?thesis
  proof (cases "f64_le ratio (F64 0) \<or> jr \<le> 0")
    case True
    then show ?thesis unfolding eq using b by auto
  next
    case False
    then have jr: "0 < jr" "jr \<le> base" using jitterRange_bounds [OF b assms(2)] by (auto simp: jr_def)
    have "0 \<le> seed" by (simp add: seed_def stableRetryJitterSeed_def fnv1a_seed_range)
    then have "- jr \<le> jitter_offset seed jr \<and> jitter_offset seed jr \<le> jr"
      using jitter_offset_bounds [of seed jr] jr assms(2) by simp
    moreover from this have "w = base + jitter_offset seed jr"
      unfolding w_def using jr assms(2) by (intro wrap64_id) auto
    ultimately have "w \<le> 2 * base" using jr by simp
    then show ?thesis unfolding eq using False by (auto simp: millisecond_def)
  qed
qed

end
