(* ===== verification/Persist_Options.thy ===== *)
theory Persist_Options
  imports Go_Numeric
begin

text \<open>
  When a file store writes its file: the options of \<open>src/orchestration/scheduler/store_file.go\<close>,
  which \<open>src/orchestration/mailbox/store_file.go\<close> repeats word for word. Without batching every
  change is written at once; with it, a write waits until enough changes have gathered or the
  oldest is old enough.
\<close>

section \<open>Options\<close>

record file_store_options =
  fo_PersistDebounce :: duration
  fo_PersistBatchSize :: int

definition WithPersistDebounce :: "duration \<Rightarrow> file_store_options \<Rightarrow> file_store_options" where
  "WithPersistDebounce debounce opts = opts\<lparr>fo_PersistDebounce := debounce\<rparr>"

definition WithPersistBatchSize :: "int \<Rightarrow> file_store_options \<Rightarrow> file_store_options" where
  "WithPersistBatchSize n opts = opts\<lparr>fo_PersistBatchSize := n\<rparr>"

definition normalizeFileStoreOptions ::
  "(file_store_options \<Rightarrow> file_store_options) option list \<Rightarrow> file_store_options" where
  "normalizeFileStoreOptions opts =
     (let o1 = fold (\<lambda>opt fo. case opt of None \<Rightarrow> fo | Some g \<Rightarrow> g fo) opts
                 \<lparr>fo_PersistDebounce = 0, fo_PersistBatchSize = 1\<rparr>;
          o2 = (if fo_PersistDebounce o1 < 0 then o1\<lparr>fo_PersistDebounce := 0\<rparr> else o1)
      in if fo_PersistBatchSize o2 \<le> 0 then o2\<lparr>fo_PersistBatchSize := 1\<rparr> else o2)"

definition batchingEnabled :: "file_store_options \<Rightarrow> bool" where
  "batchingEnabled fo \<longleftrightarrow> 0 < fo_PersistDebounce fo \<or> 1 < fo_PersistBatchSize fo"

text \<open>Normalised options are in range, and the default is to write at once.\<close>

lemma normalizeFileStoreOptions_range:
  "0 \<le> fo_PersistDebounce (normalizeFileStoreOptions opts) \<and> 1 \<le> fo_PersistBatchSize (normalizeFileStoreOptions opts)"
  by (simp add: normalizeFileStoreOptions_def Let_def)

lemma default_not_batching: "\<not> batchingEnabled (normalizeFileStoreOptions [])"
  by (simp add: normalizeFileStoreOptions_def batchingEnabled_def Let_def)

end
