(* ===== verification/Scheduler_File.thy ===== *)
theory Scheduler_File
  imports Scheduler_Store Persist_Options
begin

text \<open>
  The file store of \<open>src/orchestration/scheduler/store_file.go\<close>: a state machine whose state is
  written to a file after the operations that change it, at once or in batches. The JSON codec is
  a parameter: \<open>encode\<close> and \<open>decode\<close> of type \<open>'b\<close>, the content of a file. \<open>fault n\<close> says
  whether the \<open>n\<close>-th use of the file system fails and how, and \<open>torn n\<close> what a write that fails or is
  cut short leaves in the file it was writing, any bytes at all, if it got that far. The disk has two
  files: the one at the path of the store, and the temporary one that is written first and then renamed.
\<close>

section \<open>Environment and state\<close>

record 'b file_env =
  fe_encode :: "scheduler_state \<Rightarrow> 'b option"
  fe_decode :: "'b \<Rightarrow> scheduler_state option"
  fe_fault :: "nat \<Rightarrow> io_fault option"
  fe_torn :: "nat \<Rightarrow> 'b option"

record 'b file_store =
  fs_path :: string
  fs_state :: scheduler_state
  fs_persistOpts :: file_store_options
  fs_pendingPersist :: int
  fs_dirtySince :: time
  fs_file :: "'b option"
  fs_tmp :: "'b option"
  fs_uses :: nat

section \<open>Writing\<close>

text \<open>
  \<open>os.WriteFile\<close> truncates and writes, so that when it fails the file may hold anything; \<open>os.Rename\<close>
  replaces the target or leaves both files as they are.
\<close>

definition persist :: "'b file_env \<Rightarrow> 'b file_store \<Rightarrow> (sched_error, unit) result \<times> 'b file_store" where
  "persist env fs =
     (let fault = fe_fault env (fs_uses fs); fs1 = fs\<lparr>fs_uses := Suc (fs_uses fs)\<rparr> in
      if fault = Some MkdirFailed then (Err (ErrBackendIO MkdirFailed), fs1)
      else
        (case fe_encode env (fs_state fs) of
           None \<Rightarrow> (Err (ErrBackendIO EncodeFailed), fs1)
         | Some raw \<Rightarrow>
             if fault = Some WriteFailed
             then (Err (ErrBackendIO WriteFailed),
                   case fe_torn env (fs_uses fs) of None \<Rightarrow> fs1 | Some part \<Rightarrow> fs1\<lparr>fs_tmp := Some part\<rparr>)
             else if fault = Some RenameFailed then (Err (ErrBackendIO RenameFailed), fs1\<lparr>fs_tmp := Some raw\<rparr>)
             else (Ok (), fs1\<lparr>fs_tmp := None, fs_file := Some raw\<rparr>)))"

definition flushPersistLocked :: "'b file_env \<Rightarrow> 'b file_store \<Rightarrow> (sched_error, unit) result \<times> 'b file_store" where
  "flushPersistLocked env fs =
     (if batchingEnabled (fs_persistOpts fs) \<and> fs_pendingPersist fs = 0 then (Ok (), fs)
      else
        (case persist env fs of
           (Inl e, fs1) \<Rightarrow> (Err e, fs1)
         | (Inr u, fs1) \<Rightarrow> (Ok (), fs1\<lparr>fs_pendingPersist := 0, fs_dirtySince := 0\<rparr>)))"

definition maybePersistLocked ::
  "'b file_env \<Rightarrow> time \<Rightarrow> bool \<Rightarrow> 'b file_store \<Rightarrow> (sched_error, unit) result \<times> 'b file_store" where
  "maybePersistLocked env clk force fs =
     (if \<not> batchingEnabled (fs_persistOpts fs) then persist env fs
      else
        let fs1 = fs\<lparr>fs_pendingPersist := fs_pendingPersist fs + 1,
                     fs_dirtySince := (if IsZero (fs_dirtySince fs) then clk else fs_dirtySince fs)\<rparr>
        in if force then flushPersistLocked env fs1
           else if fo_PersistBatchSize (fs_persistOpts fs1) \<le> fs_pendingPersist fs1 then flushPersistLocked env fs1
           else if 0 < fo_PersistDebounce (fs_persistOpts fs1)
                   \<and> fo_PersistDebounce (fs_persistOpts fs1) \<le> time_sub clk (fs_dirtySince fs1)
           then flushPersistLocked env fs1
           else (Ok (), fs1))"

definition Flush :: "'b file_env \<Rightarrow> 'b file_store \<Rightarrow> (sched_error, unit) result \<times> 'b file_store" where
  "Flush env fs = flushPersistLocked env fs"

section \<open>Methods\<close>

text \<open>
  An operation of the state machine that is persisted when it succeeds and \<open>changed\<close> says that
  its result has something to persist.
\<close>

definition persisting ::
  "'b file_env \<Rightarrow> time \<Rightarrow> bool \<Rightarrow> ('a \<Rightarrow> bool) \<Rightarrow> (sched_error, 'a) result \<times> scheduler_state \<Rightarrow> 'b file_store
     \<Rightarrow> (sched_error, 'a) result \<times> 'b file_store" where
  "persisting env clk force changed outcome fs =
     (case outcome of
        (Inl e, s) \<Rightarrow> (Err e, fs\<lparr>fs_state := s\<rparr>)
      | (Inr v, s) \<Rightarrow>
          if \<not> changed v then (Ok v, fs\<lparr>fs_state := s\<rparr>)
          else
            (case maybePersistLocked env clk force (fs\<lparr>fs_state := s\<rparr>) of
               (Inl e, fs1) \<Rightarrow> (Err e, fs1)
             | (Inr u, fs1) \<Rightarrow> (Ok v, fs1)))"

definition file_Enqueue :: "'b file_env \<Rightarrow> time \<Rightarrow> task \<Rightarrow> time \<Rightarrow> 'b file_store \<Rightarrow> (sched_error, task_record) result \<times> 'b file_store" where
  "file_Enqueue env clk t now fs = persisting env clk False (\<lambda>_. True) (enqueue clk t now (fs_state fs)) fs"

definition file_Claim ::
  "'b file_env \<Rightarrow> time \<Rightarrow> string \<Rightarrow> time \<Rightarrow> duration \<Rightarrow> 'b file_store \<Rightarrow> (sched_error, claimed_task option) result \<times> 'b file_store" where
  "file_Claim env clk workerID now leaseTimeout fs =
     persisting env clk False (\<lambda>c. c \<noteq> None) (claim clk (TrimSpace workerID) now leaseTimeout (fs_state fs)) fs"

definition file_Heartbeat ::
  "'b file_env \<Rightarrow> time \<Rightarrow> string \<Rightarrow> string \<Rightarrow> string \<Rightarrow> time \<Rightarrow> duration \<Rightarrow> 'b file_store
     \<Rightarrow> (sched_error, claimed_task) result \<times> 'b file_store" where
  "file_Heartbeat env clk taskID attemptID leaseToken now leaseTimeout fs =
     persisting env clk False (\<lambda>_. True) (heartbeat clk taskID attemptID leaseToken now leaseTimeout (fs_state fs)) fs"

definition file_ControlTask ::
  "'b file_env \<Rightarrow> time \<Rightarrow> control_request \<Rightarrow> time \<Rightarrow> 'b file_store \<Rightarrow> (sched_error, control_result) result \<times> 'b file_store" where
  "file_ControlTask env clk req now fs =
     persisting env clk False (\<lambda>_. True) (controlTask clk req now (fs_state fs)) fs"

definition file_ExpireLeases ::
  "'b file_env \<Rightarrow> time \<Rightarrow> time \<Rightarrow> 'b file_store \<Rightarrow> (sched_error, claimed_task list) result \<times> 'b file_store" where
  "file_ExpireLeases env clk now fs =
     persisting env clk False (\<lambda>expired. expired \<noteq> [])
       (case expireLeases clk now (fs_state fs) of (expired, s) \<Rightarrow> (Ok expired, s)) fs"

definition file_ExpireAwaitingReports ::
  "'b file_env \<Rightarrow> time \<Rightarrow> time \<Rightarrow> 'b file_store \<Rightarrow> (sched_error, claimed_task list) result \<times> 'b file_store" where
  "file_ExpireAwaitingReports env clk now fs =
     persisting env clk False (\<lambda>expired. expired \<noteq> [])
       (case expireAwaitingReports clk now (fs_state fs) of (expired, s) \<Rightarrow> (Ok expired, s)) fs"

definition file_MarkAwaitingReport ::
  "'b file_env \<Rightarrow> time \<Rightarrow> string \<Rightarrow> string \<Rightarrow> string \<Rightarrow> time \<Rightarrow> duration \<Rightarrow> 'b file_store
     \<Rightarrow> (sched_error, task_record) result \<times> 'b file_store" where
  "file_MarkAwaitingReport env clk taskID attemptID remoteTaskID now reportTimeout fs =
     persisting env clk False (\<lambda>_. True)
       (markAwaitingReport clk taskID attemptID remoteTaskID now reportTimeout (fs_state fs)) fs"

definition file_RecordAsyncReconcileStats ::
  "'b file_env \<Rightarrow> time \<Rightarrow> int \<Rightarrow> int \<Rightarrow> 'b file_store \<Rightarrow> (sched_error, unit) result \<times> 'b file_store" where
  "file_RecordAsyncReconcileStats env clk pollTotal errorTotal fs =
     (if pollTotal \<le> 0 \<and> errorTotal \<le> 0 then (Ok (), fs)
      else maybePersistLocked env clk False
             (fs\<lparr>fs_state := recordAsyncReconcileStats pollTotal errorTotal (fs_state fs)\<rparr>))"

definition file_Requeue ::
  "'b file_env \<Rightarrow> time \<Rightarrow> string \<Rightarrow> time \<Rightarrow> 'b file_store \<Rightarrow> (sched_error, task_record) result \<times> 'b file_store" where
  "file_Requeue env clk taskID now fs =
     persisting env clk False (\<lambda>_. True) (requeue clk taskID now (fs_state fs)) fs"

definition file_CommitTerminal ::
  "'b file_env \<Rightarrow> time \<Rightarrow> terminal_commit \<Rightarrow> 'b file_store \<Rightarrow> (sched_error, commit_result) result \<times> 'b file_store" where
  "file_CommitTerminal env clk c fs =
     persisting env clk False (\<lambda>_. True) (commitTerminal clk c (fs_state fs)) fs"

definition file_CommitAsyncReportTerminal ::
  "'b file_env \<Rightarrow> time \<Rightarrow> terminal_commit \<Rightarrow> 'b file_store \<Rightarrow> (sched_error, commit_result) result \<times> 'b file_store" where
  "file_CommitAsyncReportTerminal env clk c fs =
     persisting env clk False (\<lambda>_. True) (commitAsyncReportTerminal clk c (fs_state fs)) fs"

definition file_Restore ::
  "'b file_env \<Rightarrow> time \<Rightarrow> store_snapshot \<Rightarrow> 'b file_store \<Rightarrow> (sched_error, unit) result \<times> 'b file_store" where
  "file_Restore env clk sn fs = persisting env clk True (\<lambda>_. True) (restore sn (fs_state fs)) fs"

section \<open>Opening\<close>

text \<open>\<open>load\<close>: the file is decoded, turned into a snapshot of this backend and restored.\<close>

definition load :: "'b file_env \<Rightarrow> 'b file_store \<Rightarrow> (sched_error, unit) result \<times> 'b file_store" where
  "load env fs =
     (let fault = fe_fault env (fs_uses fs); fs1 = fs\<lparr>fs_uses := Suc (fs_uses fs)\<rparr> in
      if fault = Some MkdirFailed then (Err (ErrBackendIO MkdirFailed), fs1)
      else if fault = Some ReadFailed then (Err (ErrBackendIO ReadFailed), fs1)
      else
        (case fs_file fs of
           None \<Rightarrow> (Ok (), fs1)
         | Some raw \<Rightarrow>
             (case fe_decode env raw of
                None \<Rightarrow> (Err (ErrBackendIO DecodeFailed), fs1)
              | Some decoded \<Rightarrow>
                  let sn = snapshot decoded;
                      sn' = sn\<lparr>sn_Backend := ''file'', sn_Stats := (sn_Stats sn)\<lparr>st_Backend := ''file''\<rparr>\<rparr>
                  in (case restore sn' (fs_state fs) of
                        (Inl e, s) \<Rightarrow> (Err (ErrBackendIO DecodeFailed), fs1\<lparr>fs_state := s\<rparr>)
                      | (Inr u, s) \<Rightarrow> (Ok (), fs1\<lparr>fs_state := s\<rparr>)))))"

text \<open>
  \<open>disk\<close> is what the path holds, \<open>uses\<close> how often the file system was used before. What an earlier
  process left in the temporary file is never read.
\<close>

definition NewFileStore ::
  "'b file_env \<Rightarrow> string \<Rightarrow> (file_store_options \<Rightarrow> file_store_options) option list \<Rightarrow> 'b option \<Rightarrow> nat
     \<Rightarrow> (sched_error, 'b file_store) result" where
  "NewFileStore env path opts disk uses =
     (let cleaned = TrimSpace path in
      if cleaned = [] then Err (ErrBackendIO BackendPathRequired)
      else
        (case load env
                \<lparr>fs_path = cleaned, fs_state = newSchedulerState ''file'',
                 fs_persistOpts = normalizeFileStoreOptions opts, fs_pendingPersist = 0, fs_dirtySince = 0,
                 fs_file = disk, fs_tmp = None, fs_uses = uses\<rparr> of
           (Inl e, fs) \<Rightarrow> Err e
         | (Inr u, fs) \<Rightarrow> Ok fs))"

text \<open>A setter works on the state and does not persist.\<close>

definition inState :: "(scheduler_state \<Rightarrow> scheduler_state) \<Rightarrow> 'b file_store \<Rightarrow> 'b file_store" where
  "inState g fs = fs\<lparr>fs_state := g (fs_state fs)\<rparr>"

definition FileStore :: "'b file_env \<Rightarrow> 'b file_store queue_store" where
  "FileStore env =
     \<lparr>qs_SetGovernance = (\<lambda>cfg. inState (setGovernance cfg)),
      qs_SetRecoveryBoundary = (\<lambda>cfg. inState (setRecoveryBoundary cfg)),
      qs_SetAsyncAwait = (\<lambda>cfg. inState (setAsyncAwait cfg)),
      qs_SetTaskBoardControl = (\<lambda>cfg. inState (setTaskBoardControl cfg)),
      qs_Enqueue = file_Enqueue env, qs_Claim = file_Claim env, qs_ControlTask = file_ControlTask env,
      qs_Heartbeat = file_Heartbeat env, qs_ExpireLeases = file_ExpireLeases env,
      qs_ExpireAwaitingReports = file_ExpireAwaitingReports env,
      qs_MarkAwaitingReport = file_MarkAwaitingReport env,
      qs_ListAwaitingReport = (\<lambda>clk now limit fs. listAwaitingReport clk now limit (fs_state fs)),
      qs_RecordAsyncReconcileStats = file_RecordAsyncReconcileStats env, qs_Requeue = file_Requeue env,
      qs_CommitTerminal = file_CommitTerminal env,
      qs_CommitAsyncReportTerminal = file_CommitAsyncReportTerminal env,
      qs_Get = (\<lambda>taskID fs. getTask taskID (fs_state fs)), qs_Stats = (\<lambda>fs. s_Stats (fs_state fs)),
      qs_Snapshot = (\<lambda>fs. snapshot (fs_state fs)), qs_Restore = file_Restore env\<rparr>"

end
