(* ===== verification/Scheduler_Contract.thy ===== *)
theory Scheduler_Contract
  imports Scheduler_Reconcile Scheduler_File Scheduler_Claims
begin

text \<open>
  What the facade relies on in its store (the locale \<open>queue_store_contract\<close>: every method does to
  the state behind the store what the operation of the state machine does, and answers as it
  answers or with a file system error), and what follows for the facade: every facade operation is
  a sequence of steps of the state machine. Both stores keep the contract.
\<close>

section \<open>The contract of a queue store\<close>

definition store_answer ::
  "('s \<Rightarrow> scheduler_state) \<Rightarrow> (sched_error, 'a) result \<times> 's \<Rightarrow> (sched_error, 'a) result \<times> scheduler_state \<Rightarrow> bool" where
  "store_answer view x y \<longleftrightarrow> view (snd x) = snd y \<and> (fst x = fst y \<or> (\<exists>e. fst x = Err (ErrBackendIO e)))"

lemma store_answerD: "store_answer view x y \<Longrightarrow> view (snd x) = snd y"
  by (simp add: store_answer_def)

locale queue_store_contract =
  fixes st :: "'s queue_store"
    and view :: "'s \<Rightarrow> scheduler_state"
  assumes set_Governance: "view (qs_SetGovernance st gcfg s) = setGovernance gcfg (view s)"
    and set_RecoveryBoundary: "view (qs_SetRecoveryBoundary st rcfg s) = setRecoveryBoundary rcfg (view s)"
    and set_AsyncAwait: "view (qs_SetAsyncAwait st acfg s) = setAsyncAwait acfg (view s)"
    and set_TaskBoardControl: "view (qs_SetTaskBoardControl st ccfg s) = setTaskBoardControl ccfg (view s)"
    and does_Enqueue: "store_answer view (qs_Enqueue st clk t now s) (enqueue clk t now (view s))"
    and does_Claim: "store_answer view (qs_Claim st clk w now lease s) (claim clk w now lease (view s))"
    and does_ControlTask: "store_answer view (qs_ControlTask st clk req now s) (controlTask clk req now (view s))"
    and does_Heartbeat:
      "store_answer view (qs_Heartbeat st clk tid aid tok now lease s) (heartbeat clk tid aid tok now lease (view s))"
    and does_ExpireLeases:
      "store_answer view (qs_ExpireLeases st clk now s)
         (Ok (fst (expireLeases clk now (view s))), snd (expireLeases clk now (view s)))"
    and does_ExpireAwaitingReports:
      "store_answer view (qs_ExpireAwaitingReports st clk now s)
         (Ok (fst (expireAwaitingReports clk now (view s))), snd (expireAwaitingReports clk now (view s)))"
    and does_MarkAwaitingReport:
      "store_answer view (qs_MarkAwaitingReport st clk tid aid remote now timeout s)
         (markAwaitingReport clk tid aid remote now timeout (view s))"
    and does_ListAwaitingReport: "qs_ListAwaitingReport st clk now limit s = listAwaitingReport clk now limit (view s)"
    and does_RecordStats:
      "store_answer view (qs_RecordAsyncReconcileStats st clk p e s) (Ok (), recordAsyncReconcileStats p e (view s))"
    and does_Requeue: "store_answer view (qs_Requeue st clk tid now s) (requeue clk tid now (view s))"
    and does_CommitTerminal: "store_answer view (qs_CommitTerminal st clk c s) (commitTerminal clk c (view s))"
    and does_CommitAsync:
      "store_answer view (qs_CommitAsyncReportTerminal st clk c s) (commitAsyncReportTerminal clk c (view s))"
    and does_Get: "qs_Get st tid s = getTask tid (view s)"
    and does_Stats: "qs_Stats st s = s_Stats (view s)"
    and does_Snapshot: "qs_Snapshot st s = snapshot (view s)"
    and does_Restore: "store_answer view (qs_Restore st clk sn s) (restore sn (view s))"

section \<open>Both stores keep it\<close>

lemma claim_TrimSpace: "claim clk (TrimSpace w) now lease s = claim clk w now lease s"
  by (simp add: claim_def)

interpretation mem_store: queue_store_contract MemoryStore "\<lambda>s. s"
  by unfold_locales
    (simp_all add: MemoryStore_def store_answer_def memory_Claim_def claim_TrimSpace memory_ExpireLeases_def
      memory_ExpireAwaitingReports_def memory_RecordAsyncReconcileStats_def split: prod.split)

lemma persist_state [simp]: "fs_state (snd (persist env fs)) = fs_state fs"
  by (simp add: persist_def Let_def split: option.split)

lemma persist_io: "fst (persist env fs) = Ok () \<or> (\<exists>e. fst (persist env fs) = Err (ErrBackendIO e))"
  by (simp add: persist_def Let_def split: option.split)

lemma flush_state [simp]: "fs_state (snd (flushPersistLocked env fs)) = fs_state fs"
  using persist_state [of env fs]
  by (auto simp: flushPersistLocked_def simp del: persist_state split: prod.splits sum.splits)

lemma flush_io: "fst (flushPersistLocked env fs) = Ok () \<or> (\<exists>e. fst (flushPersistLocked env fs) = Err (ErrBackendIO e))"
  using persist_io [of env fs] by (auto simp: flushPersistLocked_def split: prod.splits sum.splits)

lemma maybePersist_state [simp]: "fs_state (snd (maybePersistLocked env clk force fs)) = fs_state fs"
  by (simp add: maybePersistLocked_def Let_def)

lemma maybePersist_io:
  "fst (maybePersistLocked env clk force fs) = Ok () \<or> (\<exists>e. fst (maybePersistLocked env clk force fs) = Err (ErrBackendIO e))"
  using persist_io [of env] flush_io [of env] by (simp add: maybePersistLocked_def Let_def)

lemma persisting_answer: "store_answer fs_state (persisting env clk force changed outcome fs) outcome"
proof (cases outcome)
  case (Pair res s)
  show ?thesis
  proof (cases res)
    case (Inr v)
    let ?m = "maybePersistLocked env clk force (fs\<lparr>fs_state := s\<rparr>)"
    have "fs_state (snd ?m) = s" by simp
    then show ?thesis
      using Pair Inr maybePersist_io [of env clk force "fs\<lparr>fs_state := s\<rparr>"]
      by (cases ?m) (auto simp: store_answer_def persisting_def split: sum.split)
  qed (simp add: Pair store_answer_def persisting_def)
qed

lemma recordStats_none: "p \<le> 0 \<Longrightarrow> e \<le> 0 \<Longrightarrow> recordAsyncReconcileStats p e s = s"
  by (simp add: recordAsyncReconcileStats_def)

interpretation disk_store: queue_store_contract "FileStore env" fs_state for env :: "'b file_env"
proof unfold_locales
  fix clk p e and fs :: "'b file_store"
  show "store_answer fs_state (qs_RecordAsyncReconcileStats (FileStore env) clk p e fs)
      (Ok (), recordAsyncReconcileStats p e (fs_state fs))"
    using maybePersist_io [of env clk False "fs\<lparr>fs_state := recordAsyncReconcileStats p e (fs_state fs)\<rparr>"]
    by (auto simp: FileStore_def file_RecordAsyncReconcileStats_def store_answer_def recordStats_none)
qed (simp_all add: FileStore_def inState_def file_Enqueue_def file_Claim_def claim_TrimSpace file_ControlTask_def
    file_Heartbeat_def file_ExpireLeases_def file_ExpireAwaitingReports_def file_MarkAwaitingReport_def
    file_Requeue_def file_CommitTerminal_def file_CommitAsyncReportTerminal_def file_Restore_def
    persisting_answer case_prod_beta)

section \<open>What emitting and caching leave alone\<close>

named_theorems facade_frame \<open>what the timeline and the cache operations leave unchanged\<close>

lemma emit_frame [facade_frame]:
  "f_store (emitTimelineWithExtras clk r a status reason extras f) = f_store f"
  "f_queryCache (emitTimelineWithExtras clk r a status reason extras f) = f_queryCache f"
  "f_asyncAwait (emitTimelineWithExtras clk r a status reason extras f) = f_asyncAwait f"
  by (simp_all add: emitTimelineWithExtras_def Let_def split: option.split)

lemma emitTimeline_frame [facade_frame]:
  "f_store (emitTimeline clk r a status reason f) = f_store f"
  "f_queryCache (emitTimeline clk r a status reason f) = f_queryCache f"
  "f_asyncAwait (emitTimeline clk r a status reason f) = f_asyncAwait f"
  by (simp_all add: emitTimeline_def facade_frame)

lemma invalidate_frame [facade_frame]:
  "f_store (invalidateTaskBoardQueryCache f) = f_store f"
  "f_queryCache (invalidateTaskBoardQueryCache f) = cacheInvalidate (f_queryCache f)"
  "f_asyncAwait (invalidateTaskBoardQueryCache f) = f_asyncAwait f"
  by (simp_all add: invalidateTaskBoardQueryCache_def)

lemma write_frame [facade_frame]:
  "f_store (writeTaskBoardQueryCache epoch key items f) = f_store f"
  "f_asyncAwait (writeTaskBoardQueryCache epoch key items f) = f_asyncAwait f"
  by (simp_all add: writeTaskBoardQueryCache_def)

lemma emitRetryOutcome_frame [facade_frame]:
  "f_store (emitRetryOutcome clk r a f) = f_store f"
  "f_queryCache (emitRetryOutcome clk r a f) = f_queryCache f"
  by (simp_all add: emitRetryOutcome_def facade_frame Let_def split: task_state.split)

lemma emitQoSClaim_frame [facade_frame]:
  "f_store (emitQoSClaim clk c f) = f_store f"
  "f_queryCache (emitQoSClaim clk c f) = f_queryCache f"
  by (simp_all add: emitQoSClaim_def facade_frame Let_def)

lemma emitLeaseExpired_frame [facade_frame]:
  "f_store (emitLeaseExpired clk c f) = f_store f"
  "f_queryCache (emitLeaseExpired clk c f) = f_queryCache f"
  by (simp_all add: emitLeaseExpired_def facade_frame)

lemma emitReportTimeout_frame [facade_frame]:
  "f_store (emitReportTimeout clk c f) = f_store f"
  "f_queryCache (emitReportTimeout clk c f) = f_queryCache f"
  by (simp_all add: emitReportTimeout_def facade_frame Let_def)

lemma fold_emit_frame [facade_frame]:
  "f_store (fold (emitLeaseExpired clk) cs f) = f_store f"
  "f_queryCache (fold (emitLeaseExpired clk) cs f) = f_queryCache f"
  "f_store (fold (emitReportTimeout clk) cs f) = f_store f"
  "f_queryCache (fold (emitReportTimeout clk) cs f) = f_queryCache f"
  by (induction cs arbitrary: f) (simp_all add: facade_frame)

lemma joinCommit_store [facade_frame]: "f_store (joinCommit clk status c res f) = f_store f"
  by (simp add: joinCommit_def facade_frame)

section \<open>Facade operations are steps of the state machine\<close>

text \<open>
  The operations of the facade but for \<open>Restore\<close>, which replaces the whole state and is taken care of
  in \<open>facade_call\<close> below. A report can only be awaited once the clock reads a positive time.
\<close>

inductive facade_step :: "'s queue_store \<Rightarrow> 's scheduler \<Rightarrow> 's scheduler \<Rightarrow> bool" for st :: "'s queue_store" where
  fs_enqueue: "facade_step st f (snd (Enqueue st clk t f))"
| fs_spawn: "facade_step st f (snd (SpawnChild st clk req f))"
| fs_claim: "facade_step st f (snd (Claim st clk w f))"
| fs_heartbeat: "facade_step st f (snd (Heartbeat st clk tid aid tok f))"
| fs_expire: "facade_step st f (snd (ExpireLeases st clk f))"
| fs_await: "0 < clk \<Longrightarrow> facade_step st f (snd (MarkAwaitingReport st clk tid aid remote f))"
| fs_requeue: "facade_step st f (snd (Requeue st clk tid f))"
| fs_control: "facade_step st f (snd (ControlTask st clk creq f))"
| fs_complete: "facade_step st f (snd (Complete st clk c f))"
| fs_fail: "facade_step st f (snd (Fail st clk c f))"
| fs_report: "facade_step st f (snd (CommitAsyncReportTerminal st clk c f))"
| fs_reconcile: "facade_step st f (snd (ReconcileAwaitingReports st clk status result f))"
| fs_delay: "facade_step st f (snd (NextAsyncReconcileDelay f))"
| fs_query: "facade_step st f (snd (QueryTasks st qreq f))"

lemma query_store [facade_frame]: "f_store (snd (QueryTasks st req f)) = f_store f"
  by (simp add: QueryTasks_def facade_frame Let_def split: sum.split option.split)

lemma rejectSpawn_store [facade_frame]: "f_store (snd (rejectSpawn clk t code f)) = f_store f"
  by (simp add: rejectSpawn_def facade_frame)

text \<open>The store after an operation is the store its one method call leaves.\<close>

lemma storeCall_fst: "fst (storeCall m f) = fst (m (f_store f))"
  by (simp add: storeCall_def split: prod.split)

lemma storeCall_snd: "snd (storeCall m f) = f\<lparr>f_store := snd (m (f_store f))\<rparr>"
  by (simp add: storeCall_def split: prod.split)

lemma storeCall_pair: "storeCall m f = (fst (m (f_store f)), f\<lparr>f_store := snd (m (f_store f))\<rparr>)"
  using storeCall_fst [of m f] storeCall_snd [of m f] by (metis prod.collapse)

lemma Enqueue_store: "f_store (snd (Enqueue st clk t f)) = snd (qs_Enqueue st clk t clk (f_store f))"
  by (simp add: Enqueue_def storeCall_pair facade_frame Let_def split: sum.split)

lemma Claim_store: "f_store (snd (Claim st clk w f)) = snd (qs_Claim st clk w clk (f_leaseTimeout f) (f_store f))"
  by (simp add: Claim_def storeCall_pair facade_frame Let_def split: sum.split option.split)

lemma Heartbeat_store:
  "f_store (snd (Heartbeat st clk tid aid tok f)) = snd (qs_Heartbeat st clk tid aid tok clk (f_leaseTimeout f) (f_store f))"
  by (simp add: Heartbeat_def storeCall_pair facade_frame Let_def split: sum.split)

lemma MarkAwaitingReport_store:
  "\<exists>r timeout. f_store (snd (MarkAwaitingReport st clk tid aid remote f)) =
     snd (qs_MarkAwaitingReport st clk tid aid r clk timeout (f_store f))"
  by (auto simp: MarkAwaitingReport_def storeCall_pair facade_frame Let_def split: sum.split)

lemma Requeue_store: "f_store (snd (Requeue st clk tid f)) = snd (qs_Requeue st clk tid clk (f_store f))"
  by (simp add: Requeue_def storeCall_pair facade_frame split: sum.split)

lemma ControlTask_store: "f_store (snd (ControlTask st clk req f)) = snd (qs_ControlTask st clk req clk (f_store f))"
  by (simp add: ControlTask_def storeCall_pair facade_frame Let_def split: sum.split control_action.split)

lemma Complete_store:
  "f_store (snd (Complete st clk c f)) =
     (if c_Status c = TaskStateSucceeded then snd (qs_CommitTerminal st clk c (f_store f)) else f_store f)"
  by (simp add: Complete_def storeCall_pair facade_frame split: sum.split)

lemma Fail_store:
  "f_store (snd (Fail st clk c f)) =
     (if c_Status c = TaskStateFailed then snd (qs_CommitTerminal st clk c (f_store f)) else f_store f)"
  by (simp add: Fail_def storeCall_pair facade_frame split: sum.split)

lemma CommitAsync_store:
  "f_store (snd (CommitAsyncReportTerminal st clk c f)) = snd (qs_CommitAsyncReportTerminal st clk c (f_store f))"
  by (simp add: CommitAsyncReportTerminal_def storeCall_pair facade_frame Let_def split: sum.split task_state.split)

lemma SpawnChild_store:
  "f_store (snd (SpawnChild st clk req f)) = f_store f \<or>
   (\<exists>t. f_store (snd (SpawnChild st clk req f)) = snd (qs_Enqueue st clk t clk (f_store f)))"
proof -
  have "f_store (snd (case Enqueue st clk (sp_Task (resolveSpawn req)) f of
          (Inl e, f1) \<Rightarrow> (Err e, f1)
        | (Inr r, f1) \<Rightarrow> (Ok r, emitTimeline clk r None ActionStatusPending ReasonSpawn f1))) =
      snd (qs_Enqueue st clk (sp_Task (resolveSpawn req)) clk (f_store f))"
    using Enqueue_store [of st clk "sp_Task (resolveSpawn req)" f]
    by (auto simp: facade_frame split: prod.splits sum.splits)
  then show ?thesis by (simp add: SpawnChild_def facade_frame Let_def split: option.split) blast
qed

lemma ExpireLeases_store:
  "f_store (snd (ExpireLeases st clk f)) = snd (qs_ExpireLeases st clk clk (f_store f)) \<or>
   f_store (snd (ExpireLeases st clk f)) =
     snd (qs_ExpireAwaitingReports st clk clk (snd (qs_ExpireLeases st clk clk (f_store f))))"
  by (simp add: ExpireLeases_def storeCall_pair facade_frame Let_def split: sum.split)

text \<open>One call of a method that changes the store, other than \<open>Restore\<close>.\<close>

inductive store_step :: "'s queue_store \<Rightarrow> 's \<Rightarrow> 's \<Rightarrow> bool" for st :: "'s queue_store" where
  ss_enqueue: "store_step st s (snd (qs_Enqueue st clk t now s))"
| ss_claim: "store_step st s (snd (qs_Claim st clk w now lease s))"
| ss_heartbeat: "store_step st s (snd (qs_Heartbeat st clk tid aid tok now lease s))"
| ss_await: "0 < clk \<Longrightarrow> 0 \<le> now \<Longrightarrow> store_step st s (snd (qs_MarkAwaitingReport st clk tid aid remote now timeout s))"
| ss_control: "store_step st s (snd (qs_ControlTask st clk req now s))"
| ss_expireLeases: "store_step st s (snd (qs_ExpireLeases st clk now s))"
| ss_expireReports: "store_step st s (snd (qs_ExpireAwaitingReports st clk now s))"
| ss_requeue: "store_step st s (snd (qs_Requeue st clk tid now s))"
| ss_commit: "store_step st s (snd (qs_CommitTerminal st clk c s))"
| ss_commitAsync: "store_step st s (snd (qs_CommitAsyncReportTerminal st clk c s))"
| ss_recordStats: "store_step st s (snd (qs_RecordAsyncReconcileStats st clk p e s))"

lemma store_runs:
  "(store_step st)\<^sup>*\<^sup>* s (snd (qs_Enqueue st clk t now s))"
  "(store_step st)\<^sup>*\<^sup>* s (snd (qs_Claim st clk w now lease s))"
  "(store_step st)\<^sup>*\<^sup>* s (snd (qs_Heartbeat st clk tid aid tok now lease s))"
  "0 < clk \<Longrightarrow> 0 \<le> now \<Longrightarrow> (store_step st)\<^sup>*\<^sup>* s (snd (qs_MarkAwaitingReport st clk tid aid remote now timeout s))"
  "(store_step st)\<^sup>*\<^sup>* s (snd (qs_ControlTask st clk creq now s))"
  "(store_step st)\<^sup>*\<^sup>* s (snd (qs_ExpireLeases st clk now s))"
  "(store_step st)\<^sup>*\<^sup>* s (snd (qs_ExpireAwaitingReports st clk now s))"
  "(store_step st)\<^sup>*\<^sup>* s (snd (qs_Requeue st clk tid now s))"
  "(store_step st)\<^sup>*\<^sup>* s (snd (qs_CommitTerminal st clk c s))"
  "(store_step st)\<^sup>*\<^sup>* s (snd (qs_CommitAsyncReportTerminal st clk c s))"
  "(store_step st)\<^sup>*\<^sup>* s (snd (qs_RecordAsyncReconcileStats st clk p e s))"
  by (rule r_into_rtranclp, (rule store_step.intros; assumption?))+

lemma reconcileOne_runs:
  "(store_step st)\<^sup>*\<^sup>* (f_store f) (f_store (snd (reconcileOne st clk status result r (cy, f))))"
proof -
  have "(store_step st)\<^sup>*\<^sup>* (f_store f) (f_store f')" if "CommitAsyncReportTerminal st clk c f = (res, f')" for c res f'
    using CommitAsync_store [of st clk c f] store_runs(10) [of st "f_store f" clk c] that by simp
  then show ?thesis
    by (auto simp: reconcileOne_def Let_def
        split: option.splits prod.splits poll_classification.splits sum.splits)
qed

lemma reconcile_fold_runs:
  "(store_step st)\<^sup>*\<^sup>* (f_store (snd acc)) (f_store (snd (fold (reconcileOne st clk status result) rs acc)))"
proof (induction rs arbitrary: acc)
  case (Cons r rs)
  show ?case
    using reconcileOne_runs [of st "snd acc" clk status result r "fst acc"]
      Cons.IH [of "reconcileOne st clk status result r acc"] by (simp add: rtranclp_trans)
qed simp

lemma reconcile_runs:
  "(store_step st)\<^sup>*\<^sup>* (f_store f) (f_store (snd (ReconcileAwaitingReports st clk status result f)))"
proof (cases "rc_Enabled (aa_Reconcile (f_asyncAwait f))")
  case True
  let ?zero = "\<lparr>cy_PollTotal = 0, cy_TerminalByPoll = 0, cy_ErrorTotal = 0, cy_ConflictTotalDelta = 0\<rparr>"
  let ?rs = "qs_ListAwaitingReport st clk clk (rc_BatchSize (aa_Reconcile (f_asyncAwait f))) (f_store f)"
  obtain cy f1 where f1: "fold (reconcileOne st clk status result) ?rs (?zero, f) = (cy, f1)" by fastforce
  have "(store_step st)\<^sup>*\<^sup>* (f_store f) (f_store f1)"
    using reconcile_fold_runs [of st "(?zero, f)" clk status result ?rs] f1 by simp
  moreover have "f_store (snd (ReconcileAwaitingReports st clk status result f)) =
      snd (qs_RecordAsyncReconcileStats st clk (cy_PollTotal cy) (cy_ErrorTotal cy) (f_store f1))"
    using True f1 by (simp add: ReconcileAwaitingReports_def storeCall_pair split: sum.split)
  ultimately show ?thesis using store_runs(11) by (metis rtranclp_trans)
qed (simp add: ReconcileAwaitingReports_def)

text \<open>A facade operation is a sequence of method calls on its store.\<close>

lemma facade_store_runs: "facade_step st f f' \<Longrightarrow> (store_step st)\<^sup>*\<^sup>* (f_store f) (f_store f')"
proof (induction rule: facade_step.induct)
  case (fs_spawn f clk req)
  show ?case using SpawnChild_store [of st clk req f] by (auto simp: store_runs)
next
  case (fs_expire f clk)
  have "(store_step st)\<^sup>*\<^sup>* (f_store f) (snd (qs_ExpireAwaitingReports st clk clk (snd (qs_ExpireLeases st clk clk (f_store f)))))"
    by (rule rtranclp_trans) (rule store_runs)+
  then show ?case using ExpireLeases_store [of st clk f] by (auto simp: store_runs)
next
  case (fs_await clk f tid aid remote)
  then show ?case using MarkAwaitingReport_store [of st clk tid aid remote f] by (auto simp: store_runs)
next
  case (fs_reconcile f clk status result)
  show ?case by (rule reconcile_runs)
qed (simp_all add: Enqueue_store Claim_store Heartbeat_store Requeue_store ControlTask_store Complete_store Fail_store
    CommitAsync_store NextAsyncReconcileDelay_def Let_def facade_frame store_runs)

text \<open>The options of \<open>New\<close> configure the facade and leave its store alone.\<close>

definition keeps_store :: "('s scheduler \<Rightarrow> 's scheduler) option \<Rightarrow> bool" where
  "keeps_store opt \<longleftrightarrow> (case opt of None \<Rightarrow> True | Some g \<Rightarrow> (\<forall>f. f_store (g f) = f_store f))"

lemma options_keep_store:
  "keeps_store None" "keeps_store (Some (WithTimelineEmitter h))" "keeps_store (Some (WithLeaseTimeout d))"
  "keeps_store (Some (WithGuardrails g))" "keeps_store (Some (WithGovernance gcfg))"
  "keeps_store (Some (WithRecoveryBoundary rcfg))" "keeps_store (Some (WithAsyncAwait acfg))"
  "keeps_store (Some (WithTaskBoardControl ccfg))"
  by (simp_all add: keeps_store_def WithTimelineEmitter_def WithLeaseTimeout_def WithGuardrails_def
      WithGovernance_def WithRecoveryBoundary_def WithAsyncAwait_def WithTaskBoardControl_def)

lemma fold_options_store:
  "list_all keeps_store opts
    \<Longrightarrow> f_store (fold (\<lambda>opt f. case opt of None \<Rightarrow> f | Some g \<Rightarrow> g f) opts f) = f_store f"
  by (induction opts arbitrary: f) (auto simp: keeps_store_def split: option.splits)

section \<open>The state machine behind a store that keeps the contract\<close>

context queue_store_contract
begin

lemma state_after:
  "view (snd (qs_Enqueue st clk t now s)) = snd (enqueue clk t now (view s))"
  "view (snd (qs_Claim st clk w now lease s)) = snd (claim clk w now lease (view s))"
  "view (snd (qs_ControlTask st clk req now s)) = snd (controlTask clk req now (view s))"
  "view (snd (qs_Heartbeat st clk tid aid tok now lease s)) = snd (heartbeat clk tid aid tok now lease (view s))"
  "view (snd (qs_ExpireLeases st clk now s)) = snd (expireLeases clk now (view s))"
  "view (snd (qs_ExpireAwaitingReports st clk now s)) = snd (expireAwaitingReports clk now (view s))"
  "view (snd (qs_MarkAwaitingReport st clk tid aid remote now timeout s)) =
     snd (markAwaitingReport clk tid aid remote now timeout (view s))"
  "view (snd (qs_RecordAsyncReconcileStats st clk p e s)) = recordAsyncReconcileStats p e (view s)"
  "view (snd (qs_Requeue st clk tid now s)) = snd (requeue clk tid now (view s))"
  "view (snd (qs_CommitTerminal st clk c s)) = snd (commitTerminal clk c (view s))"
  "view (snd (qs_CommitAsyncReportTerminal st clk c s)) = snd (commitAsyncReportTerminal clk c (view s))"
  using store_answerD [OF does_Enqueue] store_answerD [OF does_Claim] store_answerD [OF does_ControlTask]
    store_answerD [OF does_Heartbeat] store_answerD [OF does_ExpireLeases]
    store_answerD [OF does_ExpireAwaitingReports] store_answerD [OF does_MarkAwaitingReport]
    store_answerD [OF does_RecordStats] store_answerD [OF does_Requeue] store_answerD [OF does_CommitTerminal]
    store_answerD [OF does_CommitAsync]
  by simp_all

lemma store_step_machine: "store_step st s s' \<Longrightarrow> sched_step (view s) (view s')"
  by (induction rule: store_step.induct) (simp_all add: state_after sched_step.intros)

lemma store_runs_machine: "(store_step st)\<^sup>*\<^sup>* s s' \<Longrightarrow> sched_step\<^sup>*\<^sup>* (view s) (view s')"
  by (induction rule: rtranclp_induct) (auto intro: rtranclp.rtrancl_into_rtrancl store_step_machine)

lemma facade_refines_machine: "facade_step st f f' \<Longrightarrow> sched_step\<^sup>*\<^sup>* (view (f_store f)) (view (f_store f'))"
  by (rule store_runs_machine) (rule facade_store_runs)

lemma facade_runs_machine: "(facade_step st)\<^sup>*\<^sup>* f f' \<Longrightarrow> sched_step\<^sup>*\<^sup>* (view (f_store f)) (view (f_store f'))"
  by (induction rule: rtranclp_induct) (auto dest: facade_refines_machine)

lemma new_machine:
  assumes "New st (Some sto) opts = Ok f" "list_all keeps_store opts"
  shows "sched_step\<^sup>*\<^sup>* (view sto) (view (f_store f))"
proof -
  have step: "sched_step\<^sup>*\<^sup>* s (setTaskBoardControl c (setAsyncAwait a (setRecoveryBoundary r (setGovernance g s))))"
    for s c a r g
    by (meson rtranclp.rtrancl_into_rtrancl rtranclp.rtrancl_refl step_setAsyncAwait step_setGovernance
        step_setRecoveryBoundary step_setTaskBoardControl)
  show ?thesis
    using assms(1) fold_options_store [OF assms(2)]
    by (auto simp: New_def Let_def set_Governance set_RecoveryBoundary set_AsyncAwait set_TaskBoardControl step
        split: if_splits)
qed

lemma restore_machine: "view (snd (qs_Restore st clk sn s)) = snd (restore sn (view s))"
  using does_Restore by (rule store_answerD)

end

section \<open>With Restore\<close>

text \<open>
  All operations of the state machine, of a store and of the facade. What a caller restores is one of
  the snapshots \<open>S\<close>.
\<close>

inductive sched_call :: "store_snapshot set \<Rightarrow> scheduler_state \<Rightarrow> scheduler_state \<Rightarrow> bool" for S where
  call_step: "sched_step s t \<Longrightarrow> sched_call S s t"
| call_restore: "sn \<in> S \<Longrightarrow> sched_call S s (snd (restore sn s))"

inductive store_call :: "store_snapshot set \<Rightarrow> 's queue_store \<Rightarrow> 's \<Rightarrow> 's \<Rightarrow> bool" for S and st :: "'s queue_store" where
  sc_step: "store_step st s s' \<Longrightarrow> store_call S st s s'"
| sc_restore: "sn \<in> S \<Longrightarrow> store_call S st s (snd (qs_Restore st clk sn s))"
| sc_governance: "store_call S st s (qs_SetGovernance st gcfg s)"
| sc_recovery: "store_call S st s (qs_SetRecoveryBoundary st rcfg s)"
| sc_asyncAwait: "store_call S st s (qs_SetAsyncAwait st acfg s)"
| sc_control: "store_call S st s (qs_SetTaskBoardControl st ccfg s)"

inductive facade_call :: "store_snapshot set \<Rightarrow> 's queue_store \<Rightarrow> 's scheduler \<Rightarrow> 's scheduler \<Rightarrow> bool"
  for S and st :: "'s queue_store" where
  fc_step: "facade_step st f f' \<Longrightarrow> facade_call S st f f'"
| fc_restore: "sn \<in> S \<Longrightarrow> facade_call S st f (snd (Restore st clk sn f))"

lemma Restore_store: "f_store (snd (Restore st clk sn f)) = snd (qs_Restore st clk sn (f_store f))"
  by (simp add: Restore_def storeCall_pair facade_frame split: sum.split)

lemma calls_of_steps: "sched_step\<^sup>*\<^sup>* s t \<Longrightarrow> (sched_call S)\<^sup>*\<^sup>* s t"
  by (rule rtranclp_mono [THEN predicate2D]) (auto intro: call_step)

context queue_store_contract
begin

lemma store_call_machine: "store_call S st s s' \<Longrightarrow> sched_call S (view s) (view s')"
proof (induction rule: store_call.induct)
  case (sc_step s s')
  then show ?case by (intro call_step store_step_machine)
next
  case (sc_restore sn s clk)
  then show ?case by (simp add: restore_machine call_restore)
qed (simp_all add: set_Governance set_RecoveryBoundary set_AsyncAwait set_TaskBoardControl sched_step.intros call_step)

lemma facade_call_machine: "facade_call S st f f' \<Longrightarrow> (sched_call S)\<^sup>*\<^sup>* (view (f_store f)) (view (f_store f'))"
proof (induction rule: facade_call.induct)
  case (fc_step f f')
  then show ?case using facade_refines_machine calls_of_steps by blast
next
  case (fc_restore sn f clk)
  then show ?case by (simp add: Restore_store restore_machine call_restore r_into_rtranclp)
qed

lemma facade_calls_machine: "(facade_call S st)\<^sup>*\<^sup>* f f' \<Longrightarrow> (sched_call S)\<^sup>*\<^sup>* (view (f_store f)) (view (f_store f'))"
  by (induction rule: rtranclp_induct) (auto dest: facade_call_machine)

end

end
