(* ===== verification/Scheduler_Board.thy ===== *)
theory Scheduler_Board
  imports Scheduler_Contract
begin

text \<open>
  The task board query through the facade: the query cache returns what a fresh query would
  return, as long as every change of the tasks is followed by an invalidation, and following the
  cursors lists every matching task once. \<open>board_step\<close> are the facade operations over the
  in-memory store that keep the cache right; the two that do not (a claim that only expires leases,
  and a duplicate report that flags a conflict) are restricted there.
\<close>

section \<open>Operations that leave the tasks alone\<close>

lemma enqueue_error: "fst (enqueue clk t now s) = Err e \<Longrightarrow> snd (enqueue clk t now s) = s"
  by (auto simp: enqueue_def Let_def split: sum.splits option.splits if_splits)

lemma claim_error: "fst (claim clk w now lease s) = Err e \<Longrightarrow> snd (claim clk w now lease s) = s"
  by (auto simp: claim_def Let_def split: prod.splits option.splits if_splits)

lemma heartbeat_error: "fst (heartbeat clk tid aid tok now lease s) = Err e \<Longrightarrow> snd (heartbeat clk tid aid tok now lease s) = s"
  by (auto simp: heartbeat_def Let_def split: option.splits if_splits)

lemma await_error:
  "fst (markAwaitingReport clk tid aid remote now timeout s) = Err e
    \<Longrightarrow> snd (markAwaitingReport clk tid aid remote now timeout s) = s"
  by (auto simp: markAwaitingReport_def Let_def split: option.splits if_splits)

lemma requeue_error: "fst (requeue clk tid now s) = Err e \<Longrightarrow> snd (requeue clk tid now s) = s"
  by (auto simp: requeue_def Let_def split: option.splits if_splits prod.splits)

lemma control_tasks:
  "case fst (controlTask clk req now s) of Inl e \<Rightarrow> True | Inr res \<Rightarrow> \<not> k_Applied res \<or> k_Deduplicated res
    \<Longrightarrow> s_Tasks (snd (controlTask clk req now s)) = s_Tasks s"
  by (auto simp: controlTask_def applyControl_def applyManualCancel_def applyManualRetry_def controlApplied_def
      bumpRejected_def storeRecord_def Let_def split: sum.splits option.splits if_splits control_action.splits prod.splits)

lemma commit_tasks:
  "case fst (commitTerminal clk c s) of Inl e \<Rightarrow> True | Inr res \<Rightarrow> cr_Duplicate res
    \<Longrightarrow> s_Tasks (snd (commitTerminal clk c s)) = s_Tasks s"
  by (auto simp: commitTerminal_def applyTerminalCommit_def commitOutcome_def bumpDuplicate_def Let_def
      split: sum.splits option.splits if_splits)

lemma applyTerminalCommit_outcome:
  "case fst (applyTerminalCommit r c s) of
     Inl e \<Rightarrow> snd (applyTerminalCommit r c s) = s
   | Inr res \<Rightarrow> \<not> cr_Duplicate res \<and> \<not> cr_LateReport res \<and> \<not> cr_Conflict res"
  by (simp add: applyTerminalCommit_def commitOutcome_def Let_def split: option.split)

lemma commitAsync_tasks:
  assumes "case fst (commitAsyncReportTerminal clk c s) of
     Inl e \<Rightarrow> True | Inr res \<Rightarrow> (cr_LateReport res \<or> cr_Duplicate res) \<and> \<not> cr_Conflict res"
  shows "s_Tasks (snd (commitAsyncReportTerminal clk c s)) = s_Tasks s"
proof (cases "normalizeCommit clk c")
  case (Inr c0)
  define c1 where "c1 = (if c_Source c0 = [] then c0\<lparr>c_Source := AsyncResolutionSourceCallback\<rparr> else c0)"
  show ?thesis
  proof (cases "fmlookup (s_Tasks s) (c_TaskID c1)")
    case (Some r)
    show ?thesis
    proof (cases "fmlookup (s_TerminalCommits s) (terminalCommitKey (c_TaskID c1) (c_AttemptID c1))")
      case None
      then show ?thesis
        using assms Inr Some applyTerminalCommit_outcome [of r c1 s]
        by (auto simp: commitAsyncReportTerminal_def c1_def [symmetric] Let_def split: option.splits sum.splits)
    next
      case existing: (Some existing)
      then show ?thesis
        using assms Inr Some
        by (auto simp: commitAsyncReportTerminal_def c1_def [symmetric] Let_def flagConflict_def commitOutcome_def
            bumpDuplicate_def case_prod_beta)
    qed
  qed (use Inr in \<open>simp add: commitAsyncReportTerminal_def c1_def [symmetric]\<close>)
qed (simp add: commitAsyncReportTerminal_def)

lemma expireLeases_none_tasks: "fst (expireLeases clk now s) = [] \<Longrightarrow> snd (expireLeases clk now s) = s"
proof -
  have "fst (expireLeasesLoop tm ids s) = [] \<Longrightarrow> snd (expireLeasesLoop tm ids s) = s" for tm ids s
    by (induction ids arbitrary: s) (auto simp: Let_def case_prod_beta split: option.splits if_splits)
  then show "fst (expireLeases clk now s) = [] \<Longrightarrow> snd (expireLeases clk now s) = s"
    by (simp add: expireLeases_def Let_def)
qed

lemma expireAwaitingReports_none: "fst (expireAwaitingReports clk now s) = [] \<Longrightarrow> snd (expireAwaitingReports clk now s) = s"
proof -
  have "fst (expireReportsLoop tm ids s) = [] \<Longrightarrow> snd (expireReportsLoop tm ids s) = s" for tm ids s
    by (induction ids arbitrary: s) (auto simp: Let_def case_prod_beta split: option.splits if_splits)
  then show "fst (expireAwaitingReports clk now s) = [] \<Longrightarrow> snd (expireAwaitingReports clk now s) = s"
    by (simp add: expireAwaitingReports_def Let_def)
qed

lemma claim_none_tasks:
  assumes "fst (claim clk w now lease s) = Ok None" "fst (expireLeases clk (resolve_now clk now) s) = []"
  shows "s_Tasks (snd (claim clk w now lease s)) = s_Tasks s"
  using assms expireLeases_none_tasks [OF assms(2)]
  by (auto simp: claim_def Let_def split: prod.splits option.splits if_splits)

section \<open>The cache\<close>

text \<open>A query without its cursor: what its hash and its matching records depend on.\<close>

abbreviation pageless :: "normalized_task_query \<Rightarrow> normalized_task_query" where
  "pageless q \<equiv> q\<lparr>nq_Cursor := []\<rparr>"

lemma taskBoardQueryHash_pageless [simp]: "taskBoardQueryHash (pageless q) = taskBoardQueryHash q"
  by (simp add: taskBoardQueryHash_def taskBoardQueryKey_def)

lemma filter_pageless [simp]: "filterTaskBoardQueryRecords rs (pageless q) = filterTaskBoardQueryRecords rs q"
  by (simp add: filterTaskBoardQueryRecords_def matchesTaskBoardQuery_def)

text \<open>
  \<open>Q\<close> are the queries a client issues. The cache is right when every entry is what one of them
  returns on the store as it is; the hash separates the queries when equal hashes mean equal
  answers.
\<close>

definition cache_coherent :: "'s queue_store \<Rightarrow> normalized_task_query set \<Rightarrow> 's scheduler \<Rightarrow> bool" where
  "cache_coherent st Q f \<longleftrightarrow>
     fmpred (\<lambda>h items. \<exists>q \<in> Q. taskBoardQueryHash q = h
                \<and> items = filterTaskBoardQueryRecords (sn_Tasks (Snapshot st f)) q)
       (ca_entries (f_queryCache f))"

definition hash_separates :: "normalized_task_query set \<Rightarrow> bool" where
  "hash_separates Q \<longleftrightarrow>
     (\<forall>q \<in> Q. \<forall>q' \<in> Q. taskBoardQueryHash q = taskBoardQueryHash q'
        \<longrightarrow> (\<forall>rs. filterTaskBoardQueryRecords rs q = filterTaskBoardQueryRecords rs q'))"

text \<open>The facade with an empty cache.\<close>

definition uncached :: "'s scheduler \<Rightarrow> 's scheduler" where
  "uncached f = f\<lparr>f_queryCache := \<lparr>ca_epoch = 0, ca_entries = fmempty\<rparr>\<rparr>"

lemma coherent_empty: "ca_entries (f_queryCache f) = fmempty \<Longrightarrow> cache_coherent st Q f"
  by (simp add: cache_coherent_def)

lemma coherent_invalidated: "f_queryCache f = cacheInvalidate c \<Longrightarrow> cache_coherent st Q f"
  by (simp add: coherent_empty cacheInvalidate_def)

lemma coherent_kept:
  assumes "cache_coherent st Q f" "f_queryCache f' = f_queryCache f" "sn_Tasks (Snapshot st f') = sn_Tasks (Snapshot st f)"
  shows "cache_coherent st Q f'"
  using assms by (simp add: cache_coherent_def)

lemma hash_not_blank: "TrimSpace (taskBoardQueryHash q) \<noteq> []"
  using hash_text_trimmed [OF hash_text_sha1] hash_text_sha1 by (auto simp: taskBoardQueryHash_def hash_text_def)

text \<open>What a query answers when its matching records are \<open>items\<close>.\<close>

definition boardAnswer :: "task_record list \<Rightarrow> normalized_task_query \<Rightarrow> (facade_error, task_query_result) result" where
  "boardAnswer items q =
     (case decodeTaskBoardCursor (nq_Cursor q) (taskBoardQueryHash q) of
        Inl e \<Rightarrow> Err (FQuery e)
      | Inr start \<Rightarrow>
          (case buildTaskBoardQueryResult items q start (taskBoardQueryHash q) of
             Inl e \<Rightarrow> Err (FQuery e)
           | Inr res \<Rightarrow> Ok res))"

lemma QueryTasks_hit:
  assumes "normalizeTaskBoardQuery req = Ok q"
    and "fmlookup (ca_entries (f_queryCache f)) (taskBoardQueryHash q) = Some items"
  shows "QueryTasks st req f = (boardAnswer items q, f)"
  using assms hash_not_blank [of q]
  by (simp add: QueryTasks_def boardAnswer_def readTaskBoardQueryCache_def cacheRead_def taskBoardQueryEpoch_def Let_def
      split: sum.split)

lemma QueryTasks_miss:
  assumes "normalizeTaskBoardQuery req = Ok q"
    and "fmlookup (ca_entries (f_queryCache f)) (taskBoardQueryHash q) = None"
  shows "fst (QueryTasks st req f) = boardAnswer (filterTaskBoardQueryRecords (sn_Tasks (Snapshot st f)) q) q"
  using assms hash_not_blank [of q]
  by (simp add: QueryTasks_def boardAnswer_def readTaskBoardQueryCache_def cacheRead_def taskBoardQueryEpoch_def Let_def
      split: sum.split)

lemma QueryTasks_fresh:
  assumes "cache_coherent st Q f" "hash_separates Q" "normalizeTaskBoardQuery req = Ok q" "pageless q \<in> Q"
  shows "fst (QueryTasks st req f) = boardAnswer (filterTaskBoardQueryRecords (sn_Tasks (Snapshot st f)) q) q"
proof (cases "fmlookup (ca_entries (f_queryCache f)) (taskBoardQueryHash q)")
  case None
  then show ?thesis by (rule QueryTasks_miss [OF assms(3)])
next
  case (Some items)
  obtain q' where q': "q' \<in> Q" "taskBoardQueryHash q' = taskBoardQueryHash (pageless q)"
      "items = filterTaskBoardQueryRecords (sn_Tasks (Snapshot st f)) q'"
    using assms(1) Some by (auto simp: cache_coherent_def fmpred_iff)
  have "filterTaskBoardQueryRecords rs q' = filterTaskBoardQueryRecords rs (pageless q)" for rs
    using assms(2,4) q'(1,2) by (auto simp: hash_separates_def)
  then have "items = filterTaskBoardQueryRecords (sn_Tasks (Snapshot st f)) q" using q'(3) by simp
  then show ?thesis using QueryTasks_hit [OF assms(3) Some] by simp
qed

lemma coherent_write:
  assumes "cache_coherent st Q f" "pageless q \<in> Q"
  shows "cache_coherent st Q (writeTaskBoardQueryCache epoch (taskBoardQueryHash q)
           (filterTaskBoardQueryRecords (sn_Tasks (Snapshot st f)) q) f)"
proof -
  let ?e = "filterTaskBoardQueryRecords (sn_Tasks (Snapshot st f)) q"
  have "\<exists>q' \<in> Q. taskBoardQueryHash q' = taskBoardQueryHash q
      \<and> ?e = filterTaskBoardQueryRecords (sn_Tasks (Snapshot st f)) q'"
    using assms(2) by (intro bexI [of _ "pageless q"]) simp_all
  then show ?thesis
    using assms(1)
    by (auto simp: cache_coherent_def writeTaskBoardQueryCache_def cacheWrite_def Snapshot_def Let_def
        intro!: fmpred_upd)
qed

lemma coherent_query:
  assumes "cache_coherent st Q f" "normalizeTaskBoardQuery req = Ok q" "pageless q \<in> Q"
  shows "cache_coherent st Q (snd (QueryTasks st req f))"
  using assms coherent_write [OF assms(1,3)]
  by (simp add: QueryTasks_def Let_def split: sum.split option.split)

section \<open>Operations that keep the cache right\<close>

lemma resolve_now_same [simp]: "resolve_now clk clk = clk"
  by (simp add: resolve_now_def)

lemma memory_methods:
  "qs_Enqueue MemoryStore = enqueue" "qs_Claim MemoryStore = claim" "qs_ControlTask MemoryStore = controlTask"
  "qs_Heartbeat MemoryStore = heartbeat" "qs_MarkAwaitingReport MemoryStore = markAwaitingReport"
  "qs_Requeue MemoryStore = requeue" "qs_CommitTerminal MemoryStore = commitTerminal"
  "qs_CommitAsyncReportTerminal MemoryStore = commitAsyncReportTerminal"
  "qs_ExpireLeases MemoryStore clk now s = (Ok (fst (expireLeases clk now s)), snd (expireLeases clk now s))"
  "qs_ExpireAwaitingReports MemoryStore clk now s =
     (Ok (fst (expireAwaitingReports clk now s)), snd (expireAwaitingReports clk now s))"
  "qs_RecordAsyncReconcileStats MemoryStore clk p e s = (Ok (), recordAsyncReconcileStats p e s)"
  "qs_ListAwaitingReport MemoryStore = listAwaitingReport"
  by (simp_all add: MemoryStore_def memory_ExpireLeases_def memory_ExpireAwaitingReports_def
      memory_RecordAsyncReconcileStats_def memory_Claim_def claim_TrimSpace fun_eq_iff case_prod_beta)

lemma memory_board: "sn_Tasks (Snapshot MemoryStore f) = sorted_values (s_Tasks (f_store f))"
  by (simp add: Snapshot_def MemoryStore_def snapshot_def)

lemma coherent_same_tasks:
  assumes "cache_coherent MemoryStore Q f" "f_queryCache f' = f_queryCache f"
    and "s_Tasks (f_store f') = s_Tasks (f_store f)"
  shows "cache_coherent MemoryStore Q f'"
  using assms by (intro coherent_kept [OF assms(1)]) (simp_all add: memory_board)

text \<open>
  An operation that invalidates the cache when its store method succeeds (\<open>ok\<close>), and whose method
  otherwise leaves the tasks alone.
\<close>

lemma coherent_op:
  assumes "cache_coherent MemoryStore Q f"
    and "f_queryCache f' = cacheInvalidate (f_queryCache f)
         \<or> (f_queryCache f' = f_queryCache f \<and> s_Tasks (f_store f') = s_Tasks (f_store f))"
  shows "cache_coherent MemoryStore Q f'"
  using assms coherent_invalidated coherent_same_tasks by metis

abbreviation keeps_board :: "scheduler_state scheduler \<Rightarrow> scheduler_state scheduler \<Rightarrow> bool" where
  "keeps_board f f' \<equiv>
     f_queryCache f' = cacheInvalidate (f_queryCache f)
     \<or> (f_queryCache f' = f_queryCache f \<and> s_Tasks (f_store f') = s_Tasks (f_store f))"

lemma board_Enqueue: "keeps_board f (snd (Enqueue MemoryStore clk t f))"
  using enqueue_error [of clk t clk "f_store f"]
  by (auto simp: Enqueue_def storeCall_pair memory_methods facade_frame Let_def split: sum.split)

lemma board_Spawn: "keeps_board f (snd (SpawnChild MemoryStore clk req f))"
  using board_Enqueue [of clk "sp_Task (resolveSpawn req)" f]
  by (auto simp: SpawnChild_def rejectSpawn_def facade_frame Let_def split: option.split prod.splits sum.splits)

lemma board_Claim:
  assumes "fst (Claim MemoryStore clk w f) \<noteq> Ok None \<or> fst (expireLeases clk clk (f_store f)) = []"
  shows "keeps_board f (snd (Claim MemoryStore clk w f))"
  using assms claim_error [of clk w clk "f_leaseTimeout f" "f_store f"]
    claim_none_tasks [of clk w clk "f_leaseTimeout f" "f_store f"]
  by (auto simp: Claim_def storeCall_pair memory_methods facade_frame Let_def split: sum.splits option.splits)

lemma board_Heartbeat: "keeps_board f (snd (Heartbeat MemoryStore clk tid aid tok f))"
  using heartbeat_error [of clk tid aid tok clk "f_leaseTimeout f" "f_store f"]
  by (auto simp: Heartbeat_def storeCall_pair memory_methods facade_frame Let_def split: sum.split)

lemma board_Expire: "keeps_board f (snd (ExpireLeases MemoryStore clk f))"
  using expireLeases_none_tasks [of clk clk "f_store f"]
    expireAwaitingReports_none [of clk clk "snd (expireLeases clk clk (f_store f))"]
  by (auto simp: ExpireLeases_def storeCall_pair memory_methods facade_frame Let_def)

lemma board_Await: "keeps_board f (snd (MarkAwaitingReport MemoryStore clk tid aid remote f))"
  using await_error [of clk tid aid _ clk "aa_ReportTimeout (f_asyncAwait f)" "f_store f"]
  by (auto simp: MarkAwaitingReport_def storeCall_pair memory_methods facade_frame Let_def split: sum.split)

lemma board_Requeue: "keeps_board f (snd (Requeue MemoryStore clk tid f))"
  using requeue_error [of clk tid clk "f_store f"]
  by (auto simp: Requeue_def storeCall_pair memory_methods facade_frame split: sum.split)

lemma board_Control: "keeps_board f (snd (ControlTask MemoryStore clk req f))"
  using control_tasks [of clk req clk "f_store f"]
  by (auto simp: ControlTask_def storeCall_pair memory_methods facade_frame Let_def
      split: sum.splits control_action.split)

lemma board_Complete: "keeps_board f (snd (Complete MemoryStore clk c f))"
  using commit_tasks [of clk c "f_store f"]
  by (auto simp: Complete_def joinCommit_def storeCall_pair memory_methods facade_frame split: sum.splits)

lemma board_Fail: "keeps_board f (snd (Fail MemoryStore clk c f))"
  using commit_tasks [of clk c "f_store f"]
  by (auto simp: Fail_def joinCommit_def storeCall_pair memory_methods facade_frame split: sum.splits)

lemma board_Report:
  assumes "case fst (CommitAsyncReportTerminal MemoryStore clk c f) of Inl e \<Rightarrow> True | Inr res \<Rightarrow> \<not> cr_Conflict res"
  shows "keeps_board f (snd (CommitAsyncReportTerminal MemoryStore clk c f))"
  using assms commitAsync_tasks [of clk c "f_store f"]
  by (auto simp: CommitAsyncReportTerminal_def storeCall_pair memory_methods facade_frame Let_def
      split: sum.splits task_state.split if_splits)

text \<open>A reconcile cycle that finds no conflict.\<close>

lemma reconcileOne_mono:
  "cy_ConflictTotalDelta (fst acc) \<le> cy_ConflictTotalDelta (fst (reconcileOne st clk status result r acc))"
  by (auto simp: reconcileOne_def Let_def cycleError_def cycleCommit_def
      split: option.splits prod.splits poll_classification.splits sum.splits if_splits)

lemma reconcile_mono:
  "cy_ConflictTotalDelta (fst acc) \<le> cy_ConflictTotalDelta (fst (fold (reconcileOne st clk status result) rs acc))"
proof (induction rs arbitrary: acc)
  case (Cons r rs)
  show ?case
    using reconcileOne_mono [of acc st clk status result r] Cons.IH [of "reconcileOne st clk status result r acc"]
    by simp
qed simp

lemma board_reconcileOne:
  assumes "cache_coherent MemoryStore Q (snd acc)"
    and "cy_ConflictTotalDelta (fst (reconcileOne MemoryStore clk status result r acc)) = cy_ConflictTotalDelta (fst acc)"
  shows "cache_coherent MemoryStore Q (snd (reconcileOne MemoryStore clk status result r acc))"
proof -
  have "cache_coherent MemoryStore Q f1"
    if "CommitAsyncReportTerminal MemoryStore clk c (snd acc) = (res, f1)"
      "case res of Inl e \<Rightarrow> True | Inr res \<Rightarrow> \<not> cr_Conflict res" for c res f1
    using board_Report [of clk c "snd acc"] that coherent_op [OF assms(1)] by (auto split: sum.splits)
  then show ?thesis
    using assms
    by (cases acc) (auto simp: reconcileOne_def Let_def cycleError_def cycleCommit_def
        split: option.splits prod.splits poll_classification.splits sum.splits if_splits)
qed

lemma board_reconcile_fold:
  assumes "cache_coherent MemoryStore Q (snd acc)"
    and "cy_ConflictTotalDelta (fst (fold (reconcileOne MemoryStore clk status result) rs acc)) = cy_ConflictTotalDelta (fst acc)"
  shows "cache_coherent MemoryStore Q (snd (fold (reconcileOne MemoryStore clk status result) rs acc))"
  using assms
proof (induction rs arbitrary: acc)
  case (Cons r rs)
  let ?acc = "reconcileOne MemoryStore clk status result r acc"
  have c: "cy_ConflictTotalDelta (fst ?acc) = cy_ConflictTotalDelta (fst acc)"
    using reconcileOne_mono [of acc MemoryStore clk status result r]
      reconcile_mono [of ?acc MemoryStore clk status result rs] Cons.prems(2) by simp
  show ?case
    using Cons.IH [OF board_reconcileOne [OF Cons.prems(1) c]] Cons.prems(2) c by simp
qed simp

lemma board_Reconcile:
  assumes "cache_coherent MemoryStore Q f"
    and "\<And>cy. fst (ReconcileAwaitingReports MemoryStore clk status result f) = Ok cy \<Longrightarrow> cy_ConflictTotalDelta cy = 0"
  shows "cache_coherent MemoryStore Q (snd (ReconcileAwaitingReports MemoryStore clk status result f))"
proof (cases "rc_Enabled (aa_Reconcile (f_asyncAwait f))")
  case True
  let ?zero = "\<lparr>cy_PollTotal = 0, cy_TerminalByPoll = 0, cy_ErrorTotal = 0, cy_ConflictTotalDelta = 0\<rparr>"
  let ?rs = "listAwaitingReport clk clk (rc_BatchSize (aa_Reconcile (f_asyncAwait f))) (f_store f)"
  obtain cy f1 where f1: "fold (reconcileOne MemoryStore clk status result) ?rs (?zero, f) = (cy, f1)" by fastforce
  let ?f2 = "f1\<lparr>f_store := recordAsyncReconcileStats (cy_PollTotal cy) (cy_ErrorTotal cy) (f_store f1)\<rparr>"
  have eq: "ReconcileAwaitingReports MemoryStore clk status result f = (Ok cy, ?f2)"
    using True f1 by (simp add: ReconcileAwaitingReports_def storeCall_pair memory_methods)
  have "cy_ConflictTotalDelta cy = 0" using assms(2) eq by simp
  then have "cache_coherent MemoryStore Q f1"
    using board_reconcile_fold [of Q "(?zero, f)" clk status result ?rs] assms(1) f1 by simp
  then have "cache_coherent MemoryStore Q ?f2"
    by (rule coherent_same_tasks) (simp_all add: recordAsyncReconcileStats_def)
  then show ?thesis using eq by simp
qed (use assms(1) in \<open>simp add: ReconcileAwaitingReports_def\<close>)

text \<open>The facade operations under which the task board stays right.\<close>

inductive board_step ::
  "normalized_task_query set \<Rightarrow> scheduler_state scheduler \<Rightarrow> scheduler_state scheduler \<Rightarrow> bool"
  for Q :: "normalized_task_query set" where
  bs_enqueue: "board_step Q f (snd (Enqueue MemoryStore clk t f))"
| bs_spawn: "board_step Q f (snd (SpawnChild MemoryStore clk req f))"
| bs_claim: "fst (Claim MemoryStore clk w f) \<noteq> Ok None \<or> fst (expireLeases clk clk (f_store f)) = []
    \<Longrightarrow> board_step Q f (snd (Claim MemoryStore clk w f))"
| bs_heartbeat: "board_step Q f (snd (Heartbeat MemoryStore clk tid aid tok f))"
| bs_expire: "board_step Q f (snd (ExpireLeases MemoryStore clk f))"
| bs_await: "board_step Q f (snd (MarkAwaitingReport MemoryStore clk tid aid remote f))"
| bs_requeue: "board_step Q f (snd (Requeue MemoryStore clk tid f))"
| bs_control: "board_step Q f (snd (ControlTask MemoryStore clk creq f))"
| bs_complete: "board_step Q f (snd (Complete MemoryStore clk c f))"
| bs_fail: "board_step Q f (snd (Fail MemoryStore clk c f))"
| bs_report: "(case fst (CommitAsyncReportTerminal MemoryStore clk c f) of Inl e \<Rightarrow> True | Inr res \<Rightarrow> \<not> cr_Conflict res)
    \<Longrightarrow> board_step Q f (snd (CommitAsyncReportTerminal MemoryStore clk c f))"
| bs_reconcile: "(\<And>cy. fst (ReconcileAwaitingReports MemoryStore clk status result f) = Ok cy \<Longrightarrow> cy_ConflictTotalDelta cy = 0)
    \<Longrightarrow> board_step Q f (snd (ReconcileAwaitingReports MemoryStore clk status result f))"
| bs_restore: "board_step Q f (snd (Restore MemoryStore clk sn f))"
| bs_query: "(\<And>q. normalizeTaskBoardQuery qreq = Ok q \<Longrightarrow> pageless q \<in> Q)
    \<Longrightarrow> board_step Q f (snd (QueryTasks MemoryStore qreq f))"

lemma restore_error: "fst (restore sn s) = Err e \<Longrightarrow> snd (restore sn s) = s"
  by (auto simp: restore_def split: sum.splits)

lemma board_Restore: "keeps_board f (snd (Restore MemoryStore clk sn f))"
  using restore_error [of sn "f_store f"]
  by (auto simp: Restore_def storeCall_pair MemoryStore_def facade_frame split: sum.split)

lemma board_step_coherent: "board_step Q f f' \<Longrightarrow> cache_coherent MemoryStore Q f \<Longrightarrow> cache_coherent MemoryStore Q f'"
proof (induction rule: board_step.induct)
  case (bs_reconcile clk status result f)
  then show ?case by (intro board_Reconcile)
next
  case (bs_query qreq f)
  show ?case
  proof (cases "normalizeTaskBoardQuery qreq")
    case (Inl e)
    then show ?thesis using bs_query(2) by (simp add: QueryTasks_def)
  next
    case (Inr q)
    then show ?thesis using bs_query coherent_query by blast
  qed
qed (erule coherent_op; (rule board_Enqueue board_Spawn board_Heartbeat board_Expire board_Await board_Requeue
    board_Control board_Complete board_Fail board_Restore | (rule board_Claim board_Report, assumption)))+

interpretation board: invariant_system "\<lambda>f. ca_entries (f_queryCache f) = fmempty" "board_step Q" "cache_coherent MemoryStore Q"
  for Q
  by unfold_locales (auto intro: coherent_empty board_step_coherent)

section \<open>Following the pages\<close>

text \<open>One call with a given cursor, reduced to its items and its next cursor.\<close>

definition askBoard ::
  "'s queue_store \<Rightarrow> task_query_request \<Rightarrow> string \<Rightarrow> 's scheduler \<Rightarrow> (query_error, task_record list \<times> string) result \<times> 's scheduler" where
  "askBoard st req cursor f =
     (case QueryTasks st (req\<lparr>rq_Cursor := cursor\<rparr>) f of
        (Inl (FQuery e), f') \<Rightarrow> (Err e, f')
      | (Inl _, f') \<Rightarrow> (Err InvalidQueryCursor, f')
      | (Inr res, f') \<Rightarrow> (Ok (tq_Items res, tq_NextCursor res), f'))"

lemma normalize_with_cursor:
  "normalizeTaskBoardQuery (req\<lparr>rq_Cursor := cursor\<rparr>) =
    map_sum id (\<lambda>q. q\<lparr>nq_Cursor := TrimSpace cursor\<rparr>) (normalizeTaskBoardQuery req)"
  by (simp add: normalizeTaskBoardQuery_def Let_def if_distrib [of "map_sum id _"] split del: if_split cong: if_cong)

lemma normalize_cursor:
  "normalizeTaskBoardQuery req = Ok q
    \<Longrightarrow> normalizeTaskBoardQuery (req\<lparr>rq_Cursor := cursor\<rparr>) = Ok (q\<lparr>nq_Cursor := TrimSpace cursor\<rparr>)"
  by (simp add: normalize_with_cursor)

lemma hash_cursor [simp]: "taskBoardQueryHash (q\<lparr>nq_Cursor := c\<rparr>) = taskBoardQueryHash q"
  by (simp add: taskBoardQueryHash_def taskBoardQueryKey_def)

lemma filter_cursor [simp]: "filterTaskBoardQueryRecords rs (q\<lparr>nq_Cursor := c\<rparr>) = filterTaskBoardQueryRecords rs q"
  by (simp add: filterTaskBoardQueryRecords_def matchesTaskBoardQuery_def)

lemma askBoard_answer:
  assumes "cache_coherent st Q f" "hash_separates Q" "normalizeTaskBoardQuery req = Ok q" "pageless q \<in> Q"
    and "TrimSpace cursor = cursor"
  shows "fst (askBoard st req cursor f) =
    pagedAnswer encodeTaskBoardCursor decodeTaskBoardCursor
      (filterTaskBoardQueryRecords (sn_Tasks (Snapshot st f)) q) (nq_PageSize q) (taskBoardQueryHash q) cursor"
proof -
  note n = normalize_cursor [OF assms(3), of cursor]
  have "fst (QueryTasks st (req\<lparr>rq_Cursor := cursor\<rparr>) f) =
      boardAnswer (filterTaskBoardQueryRecords (sn_Tasks (Snapshot st f)) q) (q\<lparr>nq_Cursor := cursor\<rparr>)"
    using QueryTasks_fresh [OF assms(1,2) n] assms(4,5) by simp
  then show ?thesis
    by (cases "QueryTasks st (req\<lparr>rq_Cursor := cursor\<rparr>) f")
      (auto simp: askBoard_def boardAnswer_def pagedAnswer_def buildTaskBoardQueryResult_def
        split: sum.splits facade_error.splits)
qed

lemma askBoard_state: "snd (askBoard st req cursor f) = snd (QueryTasks st (req\<lparr>rq_Cursor := cursor\<rparr>) f)"
  by (auto simp: askBoard_def split: prod.splits sum.splits facade_error.splits)

lemma askBoard_complete:
  assumes "cache_coherent st Q f" "hash_separates Q" "normalizeTaskBoardQuery req = Ok q" "pageless q \<in> Q"
    and "xs = filterTaskBoardQueryRecords (sn_Tasks (Snapshot st f)) q" "int (length xs) < 2 ^ 63"
  shows "follow (Suc (length xs)) (askBoard st req) [] f = Some xs"
proof (rule board_cursor.follow_all [where I = "\<lambda>g. cache_coherent st Q g \<and> f_store g = f_store f"])
  show "0 < nq_PageSize q" using normalizeTaskBoardQuery_page [OF assms(3)] by simp
  show "hash_text (taskBoardQueryHash q)" by (simp add: taskBoardQueryHash_def hash_text_sha1)
  show "cache_coherent st Q f \<and> f_store f = f_store f" using assms(1) by simp
next
  fix c g assume g: "cache_coherent st Q g \<and> f_store g = f_store f" and c: "TrimSpace c = c"
  have "sn_Tasks (Snapshot st g) = sn_Tasks (Snapshot st f)" using g by (simp add: Snapshot_def)
  then have "fst (askBoard st req c g) = pagedAnswer encodeTaskBoardCursor decodeTaskBoardCursor xs (nq_PageSize q) (taskBoardQueryHash q) c"
    using askBoard_answer [OF _ assms(2-4) c, of st g] g assms(5) by simp
  moreover have "cache_coherent st Q (snd (askBoard st req c g))"
    using coherent_query [OF _ normalize_cursor [OF assms(3), of c], of st Q g] g assms(4) by (simp add: askBoard_state)
  ultimately show "fst (askBoard st req c g) =
      pagedAnswer encodeTaskBoardCursor decodeTaskBoardCursor xs (nq_PageSize q) (taskBoardQueryHash q) c \<and>
      cache_coherent st Q (snd (askBoard st req c g)) \<and> f_store (snd (askBoard st req c g)) = f_store f"
    using g by (simp add: askBoard_state facade_frame)
qed (rule assms(6))

end
