(* ===== verification/Scheduler_Durability.thy ===== *)
theory Scheduler_Durability
  imports Scheduler_Contract Go_Encoding
begin

text \<open>
  What the file store guarantees about its file: a successful persist writes the state it has,
  opening the file again gives that state back, and whatever fails in between, the file is absent or
  holds one whole state that the store has had.
\<close>

section \<open>Reopening\<close>

text \<open>
  The part of the state that JSON carries: the exported fields, decoded over a fresh state
  (the configuration is not exported).
\<close>

definition exported :: "scheduler_state \<Rightarrow> scheduler_state" where
  "exported s =
     (newSchedulerState ''file'')
       \<lparr>s_Tasks := s_Tasks s, s_Queue := s_Queue s, s_TerminalCommits := s_TerminalCommits s,
        s_ControlOps := s_ControlOps s, s_DelayedWaitMs := s_DelayedWaitMs s, s_Stats := s_Stats s\<rparr>"

text \<open>
  The states that JSON keeps. \<open>encoding/json\<close> replaces the bytes of a string that are not UTF-8, and
  gives a value of type \<open>any\<close> back in its own types: an integer comes back as a floating point number.
  So the strings have to be valid UTF-8, and the values of a payload or a result that are not strings
  have to be among those that come back as they were, which \<open>kept\<close> names.
\<close>

definition clean_values :: "(nat \<Rightarrow> bool) \<Rightarrow> (string, go_any) gomap \<Rightarrow> bool" where
  "clean_values kept =
     fmpred (\<lambda>k v. ValidString k \<and> (case v of AnyString x \<Rightarrow> ValidString x | AnyOther n \<Rightarrow> kept n))"

definition clean_provenance :: "workspace_provenance option \<Rightarrow> bool" where
  "clean_provenance w =
     (case w of None \<Rightarrow> True
      | Some p \<Rightarrow> list_all ValidString
          [wp_WorkspaceID p, wp_ChangeSetID p, wp_BeforeIntegrity p, wp_AfterIntegrity p, wp_ProducedByRunID p,
           wp_ProducedByStepID p, wp_CheckpointID p])"

definition clean_state :: "task_state \<Rightarrow> bool" where
  "clean_state st = (case st of TaskStateOther x \<Rightarrow> ValidString x | _ \<Rightarrow> True)"

definition clean_task :: "(nat \<Rightarrow> bool) \<Rightarrow> task \<Rightarrow> bool" where
  "clean_task kept t \<longleftrightarrow>
     list_all ValidString
       [t_DispatchBinding t, t_TaskID t, t_RunID t, t_WorkflowID t, t_TeamID t, t_StepID t, t_AgentID t, t_PeerID t,
        t_ParentRunID t, t_Priority t, tr_EffectiveOperationProfile (t_TimeoutResolution t),
        tr_Source (t_TimeoutResolution t), tr_Trace (t_TimeoutResolution t)]
     \<and> clean_values kept (t_Payload t) \<and> clean_provenance (t_WorkspaceProvenance t)"

definition clean_attempt :: "attempt \<Rightarrow> bool" where
  "clean_attempt a \<longleftrightarrow>
     list_all ValidString [at_AttemptID a, at_WorkerID a, at_LeaseToken a]
     \<and> (case at_Status a of AttemptStatusOther x \<Rightarrow> ValidString x | _ \<Rightarrow> True)
     \<and> clean_provenance (at_WorkspaceProvenance a)"

definition clean_record :: "(nat \<Rightarrow> bool) \<Rightarrow> task_record \<Rightarrow> bool" where
  "clean_record kept r \<longleftrightarrow>
     clean_task kept (r_Task r) \<and> clean_state (r_State r) \<and> list_all clean_attempt (r_Attempts r)
     \<and> list_all ValidString
         [r_CurrentAttempt r, r_RemoteTaskID r, r_ResolutionSource r, r_DeadLetterCode r, r_ErrorMessage r,
          r_ErrorClass r, r_ErrorLayer r]
     \<and> clean_values kept (r_Result r)"

definition clean_commit :: "(nat \<Rightarrow> bool) \<Rightarrow> terminal_commit \<Rightarrow> bool" where
  "clean_commit kept c \<longleftrightarrow>
     list_all ValidString
       [c_TaskID c, c_AttemptID c, c_Source c, c_RemoteTaskID c, c_ErrorMessage c, c_ErrorClass c, c_ErrorLayer c,
        c_OutcomeKey c]
     \<and> clean_state (c_Status c) \<and> clean_values kept (c_Result c) \<and> clean_provenance (c_WorkspaceProvenance c)"

definition clean_control :: "(nat \<Rightarrow> bool) \<Rightarrow> control_result \<Rightarrow> bool" where
  "clean_control kept k \<longleftrightarrow>
     list_all ValidString [k_TaskID k, k_OperationID k, k_Reason k]
     \<and> (case k_Action k of TaskBoardControlActionOther x \<Rightarrow> ValidString x | _ \<Rightarrow> True)
     \<and> clean_record kept (k_Record k)"

definition json_clean :: "(nat \<Rightarrow> bool) \<Rightarrow> scheduler_state \<Rightarrow> bool" where
  "json_clean kept s \<longleftrightarrow>
     fmpred (\<lambda>k r. ValidString k \<and> clean_record kept r) (s_Tasks s) \<and> list_all ValidString (s_Queue s)
     \<and> fmpred (\<lambda>k c. ValidString k \<and> clean_commit kept c) (s_TerminalCommits s)
     \<and> fmpred (\<lambda>k c. ValidString k \<and> clean_control kept c) (s_ControlOps s)
     \<and> ValidString (st_Backend (s_Stats s)) \<and> ValidString (st_QoSMode (s_Stats s))
     \<and> fmpred (\<lambda>k n. ValidString k) (st_ManualControlByAction (s_Stats s))
     \<and> fmpred (\<lambda>k n. ValidString k) (st_ManualControlByReason (s_Stats s))"

text \<open>What the file store relies on: decoding gives the exported fields of a state that JSON keeps back.\<close>

definition json_codec :: "(nat \<Rightarrow> bool) \<Rightarrow> 'b file_env \<Rightarrow> bool" where
  "json_codec kept env \<longleftrightarrow>
     (\<forall>s raw. json_clean kept s \<longrightarrow> fe_encode env s = Some raw \<longrightarrow> fe_decode env raw = Some (exported s))"

lemma snapshot_exported: "snapshot (exported s) = snapshot s"
  by (simp add: snapshot_def exported_def snapshotControlOps_def)

lemma persist_writes:
  "persist env fs = (Ok (), fs') \<Longrightarrow> \<exists>raw. fs_file fs' = Some raw \<and> fe_encode env (fs_state fs') = Some raw"
  by (auto simp: persist_def Let_def split: option.splits if_splits)

lemma flush_writes:
  "flushPersistLocked env fs = (Ok (), fs') \<Longrightarrow> \<not> batchingEnabled (fs_persistOpts fs) \<or> fs_pendingPersist fs \<noteq> 0
     \<Longrightarrow> \<exists>raw. fs_file fs' = Some raw \<and> fe_encode env (fs_state fs') = Some raw"
  by (auto simp: flushPersistLocked_def dest!: persist_writes split: prod.splits sum.splits if_splits)

lemma maybePersist_writes:
  assumes "maybePersistLocked env clk force fs = (Ok (), fs')" "fs_pendingPersist fs' = 0" "0 \<le> fs_pendingPersist fs"
  shows "\<exists>raw. fs_file fs' = Some raw \<and> fe_encode env (fs_state fs') = Some raw"
proof (cases "batchingEnabled (fs_persistOpts fs)")
  case False
  then show ?thesis using assms(1) persist_writes by (simp add: maybePersistLocked_def)
next
  case True
  define fs1 where "fs1 = fs\<lparr>fs_pendingPersist := fs_pendingPersist fs + 1,
                     fs_dirtySince := (if IsZero (fs_dirtySince fs) then clk else fs_dirtySince fs)\<rparr>"
  have pending: "fs_pendingPersist fs1 \<noteq> 0" using assms(3) by (simp add: fs1_def)
  have "maybePersistLocked env clk force fs = flushPersistLocked env fs1 \<or> maybePersistLocked env clk force fs = (Ok (), fs1)"
    using True unfolding maybePersistLocked_def fs1_def [symmetric] Let_def by (simp split: if_split)
  then have "flushPersistLocked env fs1 = (Ok (), fs')" using assms(1,2) pending by auto
  then show ?thesis using pending flush_writes by blast
qed

lemma load_exported:
  assumes "sched_inv s" "queue_clean s" "provenance_linked s" "st_Backend (s_Stats s) = ''file''"
    and "fs_file fs = Some raw" "fe_decode env raw = Some (exported s)"
    and "fe_fault env (fs_uses fs) = None"
  shows "load env fs = (Ok (), fs\<lparr>fs_uses := Suc (fs_uses fs), fs_state := adopt s (fs_state fs)\<rparr>)"
proof -
  have b: "TrimSpace ''file'' = ''file''" by code_simp
  have "(snapshot s)\<lparr>sn_Backend := ''file'', sn_Stats := (sn_Stats (snapshot s))\<lparr>st_Backend := ''file''\<rparr>\<rparr> = snapshot s"
    using assms(4) b by (simp add: snapshot_def)
  then show ?thesis
    using assms restore_wf [OF assms(1-3)] by (simp add: load_def Let_def snapshot_exported)
qed

lemma reopen_exported:
  assumes "sched_inv s" "queue_clean s" "provenance_linked s" "st_Backend (s_Stats s) = ''file''"
    and "fe_decode env raw = Some (exported s)" "fe_fault env uses = None" "TrimSpace path \<noteq> []"
  shows "\<exists>g. NewFileStore env path opts (Some raw) uses = Ok g \<and> fs_state g = adopt s (newSchedulerState ''file'')"
proof -
  let ?fs = "\<lparr>fs_path = TrimSpace path, fs_state = newSchedulerState ''file'',
      fs_persistOpts = normalizeFileStoreOptions opts, fs_pendingPersist = 0, fs_dirtySince = 0,
      fs_file = Some raw, fs_tmp = None, fs_uses = uses\<rparr>"
  have "load env ?fs = (Ok (), ?fs\<lparr>fs_uses := Suc (fs_uses ?fs), fs_state := adopt s (fs_state ?fs)\<rparr>)"
    using assms by (intro load_exported) simp_all
  then show ?thesis using assms(7) by (simp add: NewFileStore_def Let_def)
qed

section \<open>What the file may hold\<close>

lemma persist_file:
  "fs_file (snd (persist env fs)) = fs_file fs \<or> fs_file (snd (persist env fs)) = fe_encode env (fs_state fs)"
  by (simp add: persist_def Let_def split: option.split)

lemma flush_file:
  "fs_file (snd (flushPersistLocked env fs)) = fs_file fs \<or> fs_file (snd (flushPersistLocked env fs)) = fe_encode env (fs_state fs)"
  using persist_file [of env fs] by (auto simp: flushPersistLocked_def split: prod.splits sum.splits)

lemma maybePersist_file:
  "fs_file (snd (maybePersistLocked env clk force fs)) = fs_file fs
   \<or> fs_file (snd (maybePersistLocked env clk force fs)) = fe_encode env (fs_state fs)"
proof (cases "batchingEnabled (fs_persistOpts fs)")
  case True
  let ?fs = "fs\<lparr>fs_pendingPersist := fs_pendingPersist fs + 1,
                fs_dirtySince := (if IsZero (fs_dirtySince fs) then clk else fs_dirtySince fs)\<rparr>"
  show ?thesis
    using True flush_file [of env ?fs] unfolding maybePersistLocked_def Let_def by (auto split: if_split)
qed (simp add: maybePersistLocked_def persist_file)

lemma persist_failed: "isl (fst (persist env fs)) \<Longrightarrow> fs_file (snd (persist env fs)) = fs_file fs"
  by (auto simp: persist_def Let_def split: option.splits if_splits)

lemma flush_failed: "isl (fst (flushPersistLocked env fs)) \<Longrightarrow> fs_file (snd (flushPersistLocked env fs)) = fs_file fs"
  using persist_failed [of env fs] by (auto simp: flushPersistLocked_def split: prod.splits sum.splits if_splits)

lemma maybePersist_failed:
  "isl (fst (maybePersistLocked env clk force fs)) \<Longrightarrow> fs_file (snd (maybePersistLocked env clk force fs)) = fs_file fs"
  by (auto simp: maybePersistLocked_def Let_def persist_failed flush_failed split: if_splits)

lemma persisting_file:
  "fs_file (snd (persisting env clk force changed outcome fs)) = fs_file fs
   \<or> fs_file (snd (persisting env clk force changed outcome fs)) = fe_encode env (snd outcome)"
  using maybePersist_file [of env clk force "fs\<lparr>fs_state := snd outcome\<rparr>"]
  by (auto simp: persisting_def split: prod.splits sum.splits)

lemma store_call_file:
  assumes "store_call S (FileStore env) fs fs'"
  shows "fs_file fs' = fs_file fs \<or> fs_file fs' = fe_encode env (fs_state fs')"
proof -
  have p: "fs_file (snd (persisting env clk force changed outcome fs)) = fs_file fs
     \<or> fs_file (snd (persisting env clk force changed outcome fs)) =
         fe_encode env (fs_state (snd (persisting env clk force changed outcome fs)))"
    for clk force and changed :: "'c \<Rightarrow> bool" and outcome
    using persisting_file [of env clk force changed outcome fs]
      store_answerD [OF persisting_answer, of env clk force changed outcome fs] by simp
  have r: "fs_file (snd (file_RecordAsyncReconcileStats env clk p e fs)) = fs_file fs
     \<or> fs_file (snd (file_RecordAsyncReconcileStats env clk p e fs)) =
         fe_encode env (fs_state (snd (file_RecordAsyncReconcileStats env clk p e fs)))" for clk p e
    using maybePersist_file [of env clk False "fs\<lparr>fs_state := recordAsyncReconcileStats p e (fs_state fs)\<rparr>"]
    by (simp add: file_RecordAsyncReconcileStats_def)
  have step: "fs_file fs' = fs_file fs \<or> fs_file fs' = fe_encode env (fs_state fs')"
    if "store_step (FileStore env) fs fs'" for fs'
    using that
    by (cases rule: store_step.cases)
      (simp_all only: FileStore_def queue_store.simps file_Enqueue_def file_Claim_def file_ControlTask_def
        file_Heartbeat_def file_ExpireLeases_def file_ExpireAwaitingReports_def file_MarkAwaitingReport_def
        file_Requeue_def file_CommitTerminal_def file_CommitAsyncReportTerminal_def p r)
  show ?thesis
    using assms
  proof (cases rule: store_call.cases)
    case sc_step
    then show ?thesis by (rule step)
  next
    case (sc_restore sn clk)
    then show ?thesis by (simp only: FileStore_def queue_store.simps file_Restore_def p)
  qed (simp_all add: FileStore_def inState_def)
qed

section \<open>The life of a file\<close>

text \<open>
  A store at a path where no file is, used in any way, with the states it has had, the latest first.
  A process that dies leaves on the disk what one of the failures of \<open>persist\<close> leaves: the temporary file
  torn or complete, and the file itself as it was. The next process opens the path again.
\<close>

inductive file_life :: "'b file_env \<Rightarrow> string \<Rightarrow> scheduler_state list \<Rightarrow> 'b file_store \<Rightarrow> bool"
  for env :: "'b file_env" and path where
  life_new: "NewFileStore env path opts None uses = Ok fs \<Longrightarrow> file_life env path [fs_state fs] fs"
| life_call: "file_life env path H fs \<Longrightarrow> store_call UNIV (FileStore env) fs fs' \<Longrightarrow> file_life env path (fs_state fs' # H) fs'"
| life_flush: "file_life env path H fs \<Longrightarrow> file_life env path H (snd (Flush env fs))"
| life_reopen:
    "file_life env path H fs \<Longrightarrow> NewFileStore env path opts (fs_file fs) uses = Ok fs'
       \<Longrightarrow> file_life env path (fs_state fs' # H) (fs'\<lparr>fs_tmp := fs_tmp fs\<rparr>)"

lemma load_file: "load env fs = (res, fs') \<Longrightarrow> fs_file fs' = fs_file fs"
  by (auto simp: load_def Let_def split: option.splits prod.splits sum.splits if_splits)

lemma NewFileStore_file: "NewFileStore env path opts disk uses = Ok fs \<Longrightarrow> fs_file fs = disk"
  by (auto simp: NewFileStore_def Let_def dest!: load_file split: if_splits prod.splits sum.splits)

lemma file_life_whole:
  "file_life env path H fs \<Longrightarrow>
     fs_state fs \<in> set H \<and> (fs_file fs = None \<or> (\<exists>s \<in> set H. fe_encode env s = fs_file fs))"
proof (induction rule: file_life.induct)
  case (life_new opts uses fs)
  then show ?case by (simp add: NewFileStore_file)
next
  case (life_call H fs fs')
  then show ?case using store_call_file [OF life_call.hyps(2)] by auto
next
  case (life_flush H fs)
  then show ?case using flush_file [of env fs] by (fastforce simp: Flush_def)
next
  case (life_reopen H fs opts uses fs')
  then show ?case using NewFileStore_file [OF life_reopen.hyps(2)] by auto
qed

end
