(* ===== verification/Scheduler_Timeline.thy ===== *)
theory Scheduler_Timeline
  imports Scheduler_Contract
begin

text \<open>
  The timeline that a scheduler emits: its events are numbered 1, 2, ... without gaps, in the order
  of emission, and each carries a canonical reason. The payload is a map, so this rests on no
  operation passing an extra entry under the keys of those two fields.
\<close>

section \<open>The payload of an event\<close>

lemma fold_fmupd_lookup:
  "fmlookup (fold (\<lambda>(k, v). fmupd k v) xs m) k = (case map_of (rev xs) k of None \<Rightarrow> fmlookup m k | Some v \<Rightarrow> Some v)"
proof (induction xs arbitrary: m)
  case (Cons x xs)
  show ?case
    by (cases x) (auto simp: Cons.IH map_add_def split: option.splits)
qed simp

lemma nonBlank_key: "k \<noteq> k' \<Longrightarrow> k \<notin> fst ` set (nonBlank k' v)"
  by (auto simp: nonBlank_def)

lemma fold_fmupd_skip:
  "k \<notin> fst ` set ys \<Longrightarrow> fmlookup (fold (\<lambda>(k, v). fmupd k v) (xs @ ys) m) k = fmlookup (fold (\<lambda>(k, v). fmupd k v) xs m) k"
  using map_of_eq_None_iff [of "rev ys" k] by (simp add: fold_fmupd_lookup map_add_def)

definition free_extras :: "(string \<times> payload_value) list \<Rightarrow> bool" where
  "free_extras extras \<longleftrightarrow> list_all (\<lambda>e. fst e \<noteq> ''sequence'' \<and> fst e \<noteq> ''reason'') extras"

lemma free_extras_keys: "free_extras extras \<Longrightarrow> ''sequence'' \<notin> fst ` set extras \<and> ''reason'' \<notin> fst ` set extras"
  by (auto simp: free_extras_def list_all_iff)

lemma timelinePayload_reserved:
  assumes "free_extras extras"
  shows "fmlookup (timelinePayload r a status reason n extras) ''sequence'' = Some (PayInt n)"
    and "fmlookup (timelinePayload r a status reason n extras) ''reason'' = Some (PayStr reason)"
proof -
  let ?ids = "(case a of None \<Rightarrow> [] | Some att \<Rightarrow> nonBlank ''attempt_id'' (at_AttemptID att))
         @ nonBlank ''run_id'' (t_RunID (r_Task r)) @ nonBlank ''workflow_id'' (t_WorkflowID (r_Task r))
         @ nonBlank ''team_id'' (t_TeamID (r_Task r)) @ nonBlank ''step_id'' (t_StepID (r_Task r))
         @ nonBlank ''agent_id'' (t_AgentID (r_Task r)) @ nonBlank ''peer_id'' (t_PeerID (r_Task r))
         @ nonBlank ''parent_run_id'' (t_ParentRunID (r_Task r)) @ extras"
  have k: "''sequence'' \<notin> fst ` set ?ids" "''reason'' \<notin> fst ` set ?ids"
    using free_extras_keys [OF assms] by (cases a; simp add: nonBlank_key image_Un)+
  show "fmlookup (timelinePayload r a status reason n extras) ''sequence'' = Some (PayInt n)"
    unfolding timelinePayload_def Let_def fold_fmupd_skip [OF k(1)] by simp
  show "fmlookup (timelinePayload r a status reason n extras) ''reason'' = Some (PayStr reason)"
    unfolding timelinePayload_def Let_def fold_fmupd_skip [OF k(2)] by simp
qed

section \<open>Numbering\<close>

definition timeline_ok :: "'s scheduler \<Rightarrow> bool" where
  "timeline_ok f \<longleftrightarrow>
     f_seq f = int (length (f_events f))
     \<and> (\<forall>i < length (f_events f).
          fmlookup (te_Payload (f_events f ! i)) ''sequence'' = Some (PayInt (int i + 1))
          \<and> (\<exists>reason \<in> set canonicalReasonSet. fmlookup (te_Payload (f_events f ! i)) ''reason'' = Some (PayStr reason)))"

lemma timeline_cong: "f_seq f' = f_seq f \<Longrightarrow> f_events f' = f_events f \<Longrightarrow> timeline_ok f' = timeline_ok f"
  by (simp add: timeline_ok_def)

named_theorems timeline \<open>operations that keep the timeline numbered\<close>

lemma timeline_store [timeline]: "timeline_ok (f\<lparr>f_store := s\<rparr>) = timeline_ok f"
  by (rule timeline_cong) simp_all

lemma timeline_seq [timeline]: "timeline_ok (f\<lparr>f_reconcileSeq := n\<rparr>) = timeline_ok f"
  by (rule timeline_cong) simp_all

lemma timeline_invalidate [timeline]: "timeline_ok (invalidateTaskBoardQueryCache f) = timeline_ok f"
  by (rule timeline_cong) (simp_all add: invalidateTaskBoardQueryCache_def)

lemma timeline_write [timeline]: "timeline_ok (writeTaskBoardQueryCache epoch key items f) = timeline_ok f"
  by (rule timeline_cong) (simp_all add: writeTaskBoardQueryCache_def)

lemma timeline_emitWith [timeline]:
  assumes "timeline_ok f" "free_extras extras"
  shows "timeline_ok (emitTimelineWithExtras clk r a status reason extras f)"
proof (cases "f_timeline f \<and> CanonicalReason reason \<noteq> None")
  case True
  then obtain c where c: "CanonicalReason reason = Some c" by auto
  have "c \<in> set canonicalReasonSet" using c by (auto simp: CanonicalReason_def Let_def split: if_splits)
  then show ?thesis
    using assms(1) True c timelinePayload_reserved [OF assms(2)]
    by (auto simp: emitTimelineWithExtras_def Let_def timeline_ok_def nth_append less_Suc_eq)
qed (use assms(1) in \<open>auto simp: emitTimelineWithExtras_def\<close>)

lemma timeline_emit [timeline]: "timeline_ok f \<Longrightarrow> timeline_ok (emitTimeline clk r a status reason f)"
  by (simp add: emitTimeline_def timeline_emitWith free_extras_def)

lemma free_extras_intros [timeline]:
  "free_extras []"
  "free_extras (e # es) \<longleftrightarrow> fst e \<noteq> ''sequence'' \<and> fst e \<noteq> ''reason'' \<and> free_extras es"
  "free_extras (es @ es') \<longleftrightarrow> free_extras es \<and> free_extras es'"
  "k \<noteq> ''sequence'' \<Longrightarrow> k \<noteq> ''reason'' \<Longrightarrow> free_extras (nonBlank k v)"
  "free_extras (deadLetterExtras r)"
  by (auto simp: free_extras_def nonBlank_def deadLetterExtras_def)

lemma timeline_retryOutcome [timeline]: "timeline_ok f \<Longrightarrow> timeline_ok (emitRetryOutcome clk r a f)"
  by (simp add: emitRetryOutcome_def Let_def timeline split: task_state.split)

lemma timeline_leaseExpired [timeline]: "timeline_ok f \<Longrightarrow> timeline_ok (emitLeaseExpired clk c f)"
  by (simp add: emitLeaseExpired_def timeline)

lemma timeline_reportTimeout [timeline]: "timeline_ok f \<Longrightarrow> timeline_ok (emitReportTimeout clk c f)"
  by (simp add: emitReportTimeout_def Let_def timeline)

lemma timeline_QoSClaim [timeline]: "timeline_ok f \<Longrightarrow> timeline_ok (emitQoSClaim clk c f)"
  by (simp add: emitQoSClaim_def Let_def timeline)

lemma timeline_folds [timeline]:
  "timeline_ok f \<Longrightarrow> timeline_ok (fold (emitLeaseExpired clk) cs f)"
  "timeline_ok f \<Longrightarrow> timeline_ok (fold (emitReportTimeout clk) cs f)"
  by (induction cs arbitrary: f) (simp_all add: timeline)

section \<open>Operations\<close>

lemma timeline_Enqueue: "timeline_ok f \<Longrightarrow> timeline_ok (snd (Enqueue st clk t f))"
  by (simp add: Enqueue_def Let_def storeCall_pair timeline split: sum.split option.split)

lemma timeline_Spawn: "timeline_ok f \<Longrightarrow> timeline_ok (snd (SpawnChild st clk req f))"
  using timeline_Enqueue [of f st clk "sp_Task (resolveSpawn req)"]
  by (auto simp: SpawnChild_def rejectSpawn_def Let_def timeline split: option.split prod.splits sum.splits)

lemma timeline_Claim: "timeline_ok f \<Longrightarrow> timeline_ok (snd (Claim st clk w f))"
  by (simp add: Claim_def Let_def storeCall_pair timeline split: sum.split option.split)

lemma timeline_Expire: "timeline_ok f \<Longrightarrow> timeline_ok (snd (ExpireLeases st clk f))"
  by (simp add: ExpireLeases_def Let_def storeCall_pair timeline split: sum.split)

lemma timeline_Await: "timeline_ok f \<Longrightarrow> timeline_ok (snd (MarkAwaitingReport st clk tid aid remote f))"
  by (simp add: MarkAwaitingReport_def Let_def storeCall_pair timeline split: sum.split option.split)

lemma timeline_Report: "timeline_ok f \<Longrightarrow> timeline_ok (snd (CommitAsyncReportTerminal st clk c f))"
  by (simp add: CommitAsyncReportTerminal_def Let_def storeCall_pair timeline split: sum.split task_state.split)

lemma timeline_reconcileOne: "timeline_ok (snd acc) \<Longrightarrow> timeline_ok (snd (reconcileOne st clk status result r acc))"
proof -
  assume "timeline_ok (snd acc)"
  then have "timeline_ok f" if "CommitAsyncReportTerminal st clk c (snd acc) = (res, f)" for c res f
    using timeline_Report [of "snd acc" st clk c] that by simp
  with \<open>timeline_ok (snd acc)\<close> show ?thesis
    by (cases acc) (auto simp: reconcileOne_def Let_def split: option.split prod.splits poll_classification.split sum.split)
qed

lemma timeline_reconcile_fold:
  "timeline_ok (snd acc) \<Longrightarrow> timeline_ok (snd (fold (reconcileOne st clk status result) rs acc))"
  by (induction rs arbitrary: acc) (simp_all add: timeline_reconcileOne)

lemma timeline_Reconcile: "timeline_ok f \<Longrightarrow> timeline_ok (snd (ReconcileAwaitingReports st clk status result f))"
proof -
  assume "timeline_ok f"
  then have "timeline_ok f1" if "fold (reconcileOne st clk status result) rs (z, f) = (cy, f1)" for rs z cy f1
    using timeline_reconcile_fold [of "(z, f)" st clk status result rs] that by simp
  with \<open>timeline_ok f\<close> show ?thesis
    by (auto simp: ReconcileAwaitingReports_def Let_def storeCall_pair timeline split: prod.splits sum.split)
qed

lemma timeline_Query: "timeline_ok f \<Longrightarrow> timeline_ok (snd (QueryTasks st req f))"
  by (simp add: QueryTasks_def Let_def timeline split: sum.split option.split)

lemma timeline_step: "facade_step st f f' \<Longrightarrow> timeline_ok f \<Longrightarrow> timeline_ok f'"
proof (induction rule: facade_step.induct)
  case (fs_control f clk creq)
  then show ?case
    by (simp add: ControlTask_def Let_def storeCall_pair timeline split: sum.split control_action.split)
qed (simp_all add: timeline_Enqueue timeline_Spawn timeline_Claim timeline_Expire timeline_Await timeline_Report
    timeline_Reconcile timeline_Query Heartbeat_def Requeue_def Complete_def Fail_def joinCommit_def
    NextAsyncReconcileDelay_def Let_def storeCall_pair timeline split: sum.split)

interpretation numbered: invariant_system "\<lambda>f. f_events f = [] \<and> f_seq f = 0" "facade_step st" timeline_ok
  for st :: "'s queue_store"
  by unfold_locales (simp add: timeline_ok_def, rule timeline_step)

end
