(* ===== verification/Facade_Properties.thy ===== *)
theory Facade_Properties
  imports Scheduler_Demo Scheduler_Board Scheduler_Durability Scheduler_Restore Scheduler_Timeline
begin

text \<open>
  The properties of the scheduler as its clients see it: the facade over a store, the file store,
  the task board, the timeline and the reconciliation of remote tasks.
\<close>

section \<open>A concrete scheduler\<close>

definition demo_facade :: "scheduler_state scheduler" where
  "demo_facade = projr (New MemoryStore (Some NewMemoryStore) [Some (WithTimelineEmitter True)])"

lemma demo_facade_new: "New MemoryStore (Some NewMemoryStore) [Some (WithTimelineEmitter True)] = Ok demo_facade"
proof -
  have "\<not> isl (New MemoryStore (Some NewMemoryStore) [Some (WithTimelineEmitter True)])" by code_simp
  then show ?thesis by (simp add: demo_facade_def)
qed

definition demo_enqueued :: "scheduler_state scheduler" where
  "demo_enqueued = snd (Enqueue MemoryStore 10 demo_task demo_facade)"

definition demo_claimed :: "scheduler_state scheduler" where
  "demo_claimed = snd (Claim MemoryStore 20 ''worker-1'' demo_enqueued)"

lemma demo_facade_runs: "(facade_step MemoryStore)\<^sup>*\<^sup>* demo_facade demo_claimed"
  unfolding demo_claimed_def demo_enqueued_def
  by (meson fs_claim fs_enqueue rtranclp.rtrancl_into_rtrancl rtranclp.rtrancl_refl)

text \<open>
  A codec that stores the exported fields as they are, and a disk that fails twice: the third use, the
  second write, leaves something else in the file it was writing, and the fourth cannot rename it.
\<close>

definition demo_env :: "scheduler_state file_env" where
  "demo_env = \<lparr>fe_encode = (\<lambda>s. Some (exported s)), fe_decode = Some,
               fe_fault = (\<lambda>n. if n = 2 then Some WriteFailed else if n = 3 then Some RenameFailed else None),
               fe_torn = (\<lambda>n. Some (newSchedulerState ''torn''))\<rparr>"

definition demo_disk :: "scheduler_state file_store" where
  "demo_disk = projr (NewFileStore demo_env ''queue.json'' [] None 0)"

definition demo_disk_one :: "scheduler_state file_store" where
  "demo_disk_one = snd (file_Enqueue demo_env 5 demo_task 10 demo_disk)"

definition demo_disk_two :: "scheduler_state file_store" where
  "demo_disk_two = snd (file_Enqueue demo_env 6 (demo_task\<lparr>t_TaskID := ''task-2''\<rparr>) 11 demo_disk_one)"

lemma demo_disk_new: "NewFileStore demo_env ''queue.json'' [] None 0 = Ok demo_disk"
proof -
  have "\<not> isl (NewFileStore demo_env ''queue.json'' [] None 0)" by code_simp
  then show ?thesis by (simp add: demo_disk_def)
qed

section \<open>The facade and its stores\<close>

lemma reach_runs: "step\<^sup>*\<^sup>* s t \<Longrightarrow> reach init step s \<Longrightarrow> reach init step t"
  by (induction rule: rtranclp_induct) (auto intro: reach_step)

lemma load_empty: "fs_file fs = None \<Longrightarrow> load env fs = (Ok (), fs') \<Longrightarrow> fs_state fs' = fs_state fs \<and> fs_file fs' = None"
  by (auto simp: load_def Let_def split: if_splits)

lemma NewFileStore_fresh:
  "NewFileStore env path fopts None uses = Ok fs \<Longrightarrow> fs_state fs = newSchedulerState ''file'' \<and> fs_file fs = None"
  by (auto simp: NewFileStore_def Let_def dest!: load_empty [rotated] split: if_splits prod.splits sum.splits)

text \<open>
  C22: Whatever sequence of operations a client calls on a scheduler, over the in-memory store or
  over a file store with a failing file system, the state behind its store is one that the state
  machine reaches: every facade operation, a reconcile cycle and a \<open>Restore\<close> included, is a sequence of
  state machine operations, which restore none but the snapshots that the client restores. The sets \<open>S\<close>
  and \<open>D\<close> of these snapshots are any sets.
\<close>

theorem facade_refines:
  assumes "list_all keeps_store opts" "list_all keeps_store dopts"
    and "New MemoryStore (Some NewMemoryStore) opts = Ok m" "(facade_call S MemoryStore)\<^sup>*\<^sup>* m m'"
    and "NewFileStore env path fopts None uses = Ok fs" "New (FileStore env) (Some fs) dopts = Ok d"
      "(facade_call D (FileStore env))\<^sup>*\<^sup>* d d'"
  shows "reach sched_init (sched_call S) (f_store m') \<and> reach sched_init (sched_call D) (fs_state (f_store d'))"
proof
  have "reach sched_init (sched_call S) NewMemoryStore" by (rule reach_init) (simp add: sched_init_def NewMemoryStore_def)
  then show "reach sched_init (sched_call S) (f_store m')"
    using calls_of_steps [OF mem_store.new_machine [OF assms(3,1)]] mem_store.facade_calls_machine [OF assms(4)] reach_runs
    by metis
  have "reach sched_init (sched_call D) (fs_state fs)"
    by (rule reach_init) (simp add: sched_init_def NewFileStore_fresh [OF assms(5)])
  then show "reach sched_init (sched_call D) (fs_state (f_store d'))"
    using calls_of_steps [OF disk_store.new_machine [OF assms(6,2)]] disk_store.facade_calls_machine [OF assms(7)] reach_runs
    by metis
qed

definition demo_rolled_back :: "scheduler_state scheduler" where
  "demo_rolled_back = snd (Restore MemoryStore 30 (Snapshot MemoryStore demo_enqueued) demo_claimed)"

theorem facade_refines_witness:
  "reach sched_init (sched_call {Snapshot MemoryStore demo_enqueued}) (f_store demo_rolled_back)
   \<and> map_option r_State (fmlookup (s_Tasks (f_store demo_claimed)) ''task-1'') = Some TaskStateRunning
   \<and> map_option r_State (fmlookup (s_Tasks (f_store demo_rolled_back)) ''task-1'') = Some TaskStateQueued"
proof -
  let ?S = "{Snapshot MemoryStore demo_enqueued}"
  have "\<not> isl (New (FileStore demo_env) (Some demo_disk) [])" by code_simp
  then obtain d where d: "New (FileStore demo_env) (Some demo_disk) [] = Ok d" using not_isl_Ok by blast
  have "(facade_call ?S MemoryStore)\<^sup>*\<^sup>* demo_facade demo_claimed"
    using demo_facade_runs by (rule rtranclp_mono [THEN predicate2D, rotated]) (auto intro: fc_step)
  then have runs: "(facade_call ?S MemoryStore)\<^sup>*\<^sup>* demo_facade demo_rolled_back"
    unfolding demo_rolled_back_def by (rule rtranclp.rtrancl_into_rtrancl) (rule fc_restore, simp)
  have "reach sched_init (sched_call ?S) (f_store demo_rolled_back)"
    using facade_refines [OF _ _ demo_facade_new runs demo_disk_new d rtranclp.rtrancl_refl]
    by (simp add: options_keep_store)
  moreover have "map_option r_State (fmlookup (s_Tasks (f_store demo_claimed)) ''task-1'') = Some TaskStateRunning"
    "map_option r_State (fmlookup (s_Tasks (f_store demo_rolled_back)) ''task-1'') = Some TaskStateQueued"
    by code_simp+
  ultimately show ?thesis by simp
qed

text \<open>
  The file store behaves like the in-memory store: every method answers what the in-memory
  store answers on the same state, or reports a file system error, and either way leaves the same
  state behind.
\<close>

lemma file_store_refines_memory:
  "store_answer fs_state (qs_Enqueue (FileStore env) clk t now fs) (qs_Enqueue MemoryStore clk t now (fs_state fs))
   \<and> store_answer fs_state (qs_Claim (FileStore env) clk w now lease fs) (qs_Claim MemoryStore clk w now lease (fs_state fs))
   \<and> store_answer fs_state (qs_ControlTask (FileStore env) clk creq now fs) (qs_ControlTask MemoryStore clk creq now (fs_state fs))
   \<and> store_answer fs_state (qs_Heartbeat (FileStore env) clk tid aid tok now lease fs)
       (qs_Heartbeat MemoryStore clk tid aid tok now lease (fs_state fs))
   \<and> store_answer fs_state (qs_ExpireLeases (FileStore env) clk now fs) (qs_ExpireLeases MemoryStore clk now (fs_state fs))
   \<and> store_answer fs_state (qs_ExpireAwaitingReports (FileStore env) clk now fs)
       (qs_ExpireAwaitingReports MemoryStore clk now (fs_state fs))
   \<and> store_answer fs_state (qs_MarkAwaitingReport (FileStore env) clk tid aid remote now timeout fs)
       (qs_MarkAwaitingReport MemoryStore clk tid aid remote now timeout (fs_state fs))
   \<and> store_answer fs_state (qs_RecordAsyncReconcileStats (FileStore env) clk p e fs)
       (qs_RecordAsyncReconcileStats MemoryStore clk p e (fs_state fs))
   \<and> store_answer fs_state (qs_Requeue (FileStore env) clk tid now fs) (qs_Requeue MemoryStore clk tid now (fs_state fs))
   \<and> store_answer fs_state (qs_CommitTerminal (FileStore env) clk c fs) (qs_CommitTerminal MemoryStore clk c (fs_state fs))
   \<and> store_answer fs_state (qs_CommitAsyncReportTerminal (FileStore env) clk c fs)
       (qs_CommitAsyncReportTerminal MemoryStore clk c (fs_state fs))
   \<and> store_answer fs_state (qs_Restore (FileStore env) clk sn fs) (qs_Restore MemoryStore clk sn (fs_state fs))
   \<and> qs_ListAwaitingReport (FileStore env) clk now limit fs = qs_ListAwaitingReport MemoryStore clk now limit (fs_state fs)
   \<and> qs_Get (FileStore env) tid fs = qs_Get MemoryStore tid (fs_state fs)
   \<and> qs_Stats (FileStore env) fs = qs_Stats MemoryStore (fs_state fs)
   \<and> qs_Snapshot (FileStore env) fs = qs_Snapshot MemoryStore (fs_state fs)"
  using disk_store.does_ExpireLeases [of env clk now fs] disk_store.does_ExpireAwaitingReports [of env clk now fs]
    disk_store.does_RecordStats [of env clk p e fs] disk_store.does_Restore [of env clk sn fs]
  by (simp add: memory_methods disk_store.does_Enqueue disk_store.does_Claim disk_store.does_ControlTask
      disk_store.does_Heartbeat disk_store.does_MarkAwaitingReport disk_store.does_Requeue
      disk_store.does_CommitTerminal disk_store.does_CommitAsync case_prod_beta)
    (simp add: FileStore_def MemoryStore_def)

section \<open>The file\<close>

lemma qs_file_Enqueue: "qs_Enqueue (FileStore env) = file_Enqueue env"
  by (simp add: FileStore_def)


lemma enqueue_torn:
  assumes "\<not> isl (fst (enqueue clk t now (fs_state fs)))" "\<not> batchingEnabled (fs_persistOpts fs)"
    and "fe_fault env (fs_uses fs) = Some WriteFailed" "fe_torn env (fs_uses fs) = Some part"
    and "fe_encode env (snd (enqueue clk t now (fs_state fs))) \<noteq> None"
  shows "fs_tmp (snd (file_Enqueue env clk t now fs)) = Some part"
  using assms
  by (cases "enqueue clk t now (fs_state fs)")
    (auto simp: file_Enqueue_def persisting_def maybePersistLocked_def persist_def Let_def split: sum.splits option.splits)

lemma demo_disk_torn: "fs_tmp demo_disk_two = Some (newSchedulerState ''torn'')"
  unfolding demo_disk_two_def
proof (rule enqueue_torn)
  show "fe_torn demo_env (fs_uses demo_disk_one) = Some (newSchedulerState ''torn'')"
    "fe_encode demo_env (snd (enqueue 6 (demo_task\<lparr>t_TaskID := ''task-2''\<rparr>) 11 (fs_state demo_disk_one))) \<noteq> None"
    by (simp_all add: demo_env_def)
qed code_simp+




text \<open>
  C24: The file is never torn. Take a store opened at a path where no file is, then used by any sequence
  of store operations, setters, restores and flushes, with the file system failing in any way at any use,
  a failed or interrupted write leaving any bytes in the file it was writing, and the store opened
  again at any point, as after a crash. Then the file at the path is absent or holds the encoding of one
  whole state that the store has had. The next write that is reported as done puts the store's present
  state there, and one that is reported as failed leaves the file as it is.
\<close>

theorem file_atomic:
  assumes "file_life env path H fs"
  shows "(fs_file fs = None \<or> (\<exists>s \<in> set H. fe_encode env s = fs_file fs))
    \<and> fs_file (snd (persist env fs)) = (if isl (fst (persist env fs)) then fs_file fs else fe_encode env (fs_state fs))"
proof -
  have "fs_file (snd (persist env fs)) = fe_encode env (fs_state fs)" if "\<not> isl (fst (persist env fs))"
    using that persist_writes [of env fs] persist_state [of env fs] by (cases "persist env fs"; cases "fst (persist env fs)") auto
  then show ?thesis using file_life_whole [OF assms] persist_failed [of env fs] by simp
qed

theorem file_atomic_witness:
  "fs_tmp demo_disk_two = Some (newSchedulerState ''torn'') \<and> fs_file demo_disk_two \<noteq> None
   \<and> fmlookup (s_Tasks (fs_state demo_disk_two)) ''task-2'' \<noteq> None
   \<and> (\<exists>s \<in> {fs_state demo_disk, fs_state demo_disk_one, fs_state demo_disk_two}. fe_encode demo_env s = fs_file demo_disk_two)"
proof -
  let ?L = "file_life demo_env ''queue.json''"
  have "?L [fs_state demo_disk] demo_disk" by (rule life_new) (rule demo_disk_new)
  then have "?L [fs_state demo_disk_one, fs_state demo_disk] demo_disk_one"
    unfolding demo_disk_one_def qs_file_Enqueue [symmetric] by (rule life_call) (rule sc_step, rule ss_enqueue)
  then have "?L [fs_state demo_disk_two, fs_state demo_disk_one, fs_state demo_disk] demo_disk_two"
    unfolding demo_disk_two_def qs_file_Enqueue [symmetric] by (rule life_call) (rule sc_step, rule ss_enqueue)
  from file_atomic [OF this]
  have "fs_file demo_disk_two = None
    \<or> (\<exists>s \<in> {fs_state demo_disk, fs_state demo_disk_one, fs_state demo_disk_two}. fe_encode demo_env s = fs_file demo_disk_two)"
    by auto
  moreover have "fs_file demo_disk_two \<noteq> None" "fmlookup (s_Tasks (fs_state demo_disk_two)) ''task-2'' \<noteq> None" by code_simp+
  moreover have "fs_tmp demo_disk_two = Some (newSchedulerState ''torn'')" by (rule demo_disk_torn)
  ultimately show ?thesis by blast
qed

section \<open>The task board\<close>

lemma QueryTasks_current:
  assumes "reach (\<lambda>f. ca_entries (f_queryCache f) = fmempty) (board_step Q) f" "hash_separates Q"
    and "normalizeTaskBoardQuery req = Ok q" "pageless q \<in> Q"
  shows "fst (QueryTasks MemoryStore req f) =
    boardAnswer (filterTaskBoardQueryRecords (sorted_values (s_Tasks (f_store f))) q) q"
  using QueryTasks_fresh [OF board.reach_invar [OF assms(1)] assms(2-4)] by (simp add: memory_board)

text \<open>
  The query cache is transparent: after any sequence of facade operations, a task board query
  answers what it would answer with an empty cache. Excluded are the two operations that change
  tasks without invalidating the cache (a claim that hands out nothing but expires leases, a report
  that conflicts with an earlier one), and it is assumed that the hash tells the clients' queries
  apart.
\<close>

lemma board_query_transparent:
  assumes "reach (\<lambda>f. ca_entries (f_queryCache f) = fmempty) (board_step Q) f" "hash_separates Q"
    and "\<forall>q. normalizeTaskBoardQuery req = Ok q \<longrightarrow> pageless q \<in> Q"
  shows "fst (QueryTasks MemoryStore req f) = fst (QueryTasks MemoryStore req (uncached f))"
proof (cases "normalizeTaskBoardQuery req")
  case (Inl e)
  then show ?thesis by (simp add: QueryTasks_def)
next
  case (Inr q)
  have "reach (\<lambda>f. ca_entries (f_queryCache f) = fmempty) (board_step Q) (uncached f)"
    by (rule reach_init) (simp add: uncached_def)
  then show ?thesis
    using QueryTasks_current [OF _ assms(2) Inr, of "uncached f"] QueryTasks_current [OF assms(1,2) Inr] assms(3) Inr
    by (simp add: uncached_def)
qed

definition demo_query :: task_query_request where
  "demo_query =
     \<lparr>rq_TaskID = [], rq_RunID = ''run-1'', rq_WorkflowID = [], rq_TeamID = [], rq_State = [], rq_Priority = [],
      rq_AgentID = [], rq_PeerID = [], rq_ParentRunID = [], rq_TimeRange = None, rq_PageSize = None,
      rq_SortField = [], rq_SortOrder = [], rq_Cursor = []\<rparr>"

definition demo_normal :: normalized_task_query where
  "demo_normal = projr (normalizeTaskBoardQuery demo_query)"

lemma demo_normalizes: "normalizeTaskBoardQuery demo_query = Ok demo_normal"
proof -
  have "\<not> isl (normalizeTaskBoardQuery demo_query)" by code_simp
  then show ?thesis by (simp add: demo_normal_def)
qed

definition demo_asked :: "scheduler_state scheduler" where
  "demo_asked = snd (QueryTasks MemoryStore demo_query demo_claimed)"

lemma demo_asked_reach: "reach (\<lambda>f. ca_entries (f_queryCache f) = fmempty) (board_step {pageless demo_normal}) demo_asked"
proof -
  let ?R = "reach (\<lambda>f. ca_entries (f_queryCache f) = fmempty) (board_step {pageless demo_normal})"
  have "ca_entries (f_queryCache demo_facade) = fmempty" by code_simp
  then have "?R demo_facade" by (rule reach_init)
  then have "?R demo_enqueued" unfolding demo_enqueued_def by (rule reach_step) (rule bs_enqueue)
  moreover have "fst (expireLeases 20 20 (f_store demo_enqueued)) = []" by code_simp
  ultimately have "?R demo_claimed"
    unfolding demo_claimed_def by (elim reach_step) (rule bs_claim, simp)
  then show ?thesis
    unfolding demo_asked_def by (rule reach_step) (rule bs_query, simp add: demo_normalizes)
qed

lemma demo_separates: "hash_separates {pageless demo_normal}"
  by (simp add: hash_separates_def)

lemma board_query_transparent_witness:
  "fst (QueryTasks MemoryStore demo_query demo_asked) = fst (QueryTasks MemoryStore demo_query (uncached demo_asked))"
  using board_query_transparent [OF demo_asked_reach demo_separates] by (simp add: demo_normalizes)

text \<open>
  C25: Over the in-memory store, following the next-page cursors from the first page lists every
  matching task exactly once, sorted by the query's time stamp, task id and run id, and ends after at most
  one call per task and one more. It is stated after any sequence of facade operations but the two that
  change tasks and leave the query cache as it is: a claim that hands out nothing but expires leases, and
  a report, by a caller or by a reconcile cycle, that conflicts with an earlier one. It is assumed that the hash of a query tells the queries of
  the clients apart (\<open>hash_separates\<close>), so that they share no cache entry.
\<close>

theorem board_pages_complete:
  assumes "reach (\<lambda>f. ca_entries (f_queryCache f) = fmempty) (board_step Q) f" "hash_separates Q"
    and "normalizeTaskBoardQuery req = Ok q" "pageless q \<in> Q"
    and "xs = sort_key (boardKey q) (filter (\<lambda>r. matchesTaskBoardQuery r q) (sorted_values (s_Tasks (f_store f))))"
    and "int (length xs) < 2 ^ 63"
  shows "follow (Suc (length xs)) (askBoard MemoryStore req) [] f = Some xs"
proof -
  have "xs = filterTaskBoardQueryRecords (sn_Tasks (Snapshot MemoryStore f)) q"
    using assms(5) by (simp add: filterTaskBoardQueryRecords_sorted memory_board)
  from askBoard_complete [OF board.reach_invar [OF assms(1)] assms(2-4) this assms(6)] show ?thesis .
qed

theorem board_pages_complete_witness:
  "\<exists>r. follow 2 (askBoard MemoryStore demo_query) [] demo_asked = Some [r] \<and> r_State r = TaskStateRunning"
proof -
  let ?xs = "sort_key (boardKey demo_normal)
    (filter (\<lambda>r. matchesTaskBoardQuery r demo_normal) (sorted_values (s_Tasks (f_store demo_asked))))"
  have s: "f_store demo_asked = f_store demo_claimed" by (simp add: demo_asked_def facade_frame)
  have "map r_State ?xs = [TaskStateRunning]" unfolding s by code_simp
  then obtain r where "?xs = [r]" "r_State r = TaskStateRunning" by auto
  then show ?thesis
    using board_pages_complete [OF demo_asked_reach demo_separates demo_normalizes _ refl] by (simp add: numeral_2_eq_2)
qed

end
