(* ===== verification/Facade_Operations.thy ===== *)
theory Facade_Operations
  imports Facade_Properties
begin

text \<open>
  Properties of single facade operations: what the query cache does wrong, the guardrails of a
  spawn, the delays and outcomes of reconciliation, the numbering of the timeline.
\<close>

section \<open>Stale and mixed up answers\<close>

text \<open>
  C28: A claim that hands out nothing does not invalidate the query cache, although it may have
  expired leases: a query whose answer is cached keeps its old answer.
\<close>

theorem claim_keeps_cached_answer:
  assumes "fst (Claim MemoryStore clk w f) = Ok None" "normalizeTaskBoardQuery req = Ok q"
    and "fmlookup (ca_entries (f_queryCache f)) (taskBoardQueryHash q) = Some items"
  shows "fst (QueryTasks MemoryStore req (snd (Claim MemoryStore clk w f))) = fst (QueryTasks MemoryStore req f)"
proof -
  have "f_queryCache (snd (Claim MemoryStore clk w f)) = f_queryCache f"
    using assms(1) by (auto simp: Claim_def storeCall_pair Let_def split: sum.splits option.splits)
  then show ?thesis
    using QueryTasks_hit [OF assms(2,3)] QueryTasks_hit [OF assms(2), of "snd (Claim MemoryStore clk w f)"] assms(3) by simp
qed

text \<open>The answer to the first page of at most 50 records is these records.\<close>

lemma boardAnswer_items:
  assumes "length items \<le> 50" "nq_Cursor q = []" "nq_PageSize q = 50"
  shows "map_sum id tq_Items (boardAnswer items q) = Ok items"
  using assms by (simp add: boardAnswer_def decodeTaskBoardCursor_def buildTaskBoardQueryResult_def cutPage_def Let_def)

lemma QueryTasks_writes:
  assumes "normalizeTaskBoardQuery req = Ok q" "ca_entries (f_queryCache f) = fmempty" "nq_Cursor q = []"
  shows "snd (QueryTasks st req f) =
    f\<lparr>f_queryCache := (f_queryCache f)\<lparr>ca_entries :=
       fmupd (taskBoardQueryHash q) (filterTaskBoardQueryRecords (sn_Tasks (Snapshot st f)) q) fmempty\<rparr>\<rparr>"
  using assms hash_not_blank [of q]
  by (simp add: QueryTasks_def readTaskBoardQueryCache_def cacheRead_def taskBoardQueryEpoch_def
      writeTaskBoardQueryCache_def cacheWrite_def decodeTaskBoardCursor_def Let_def fmdom_def split: sum.split)

lemma Claim_result_cache: "fst (Claim st clk w (f\<lparr>f_queryCache := c\<rparr>)) = fst (Claim st clk w f)"
  by (simp add: Claim_def storeCall_pair Let_def split: sum.split option.split)

definition stale_claimed :: "scheduler_state scheduler" where
  "stale_claimed =
     snd (Claim MemoryStore 20 ''worker-1'' (snd (Enqueue MemoryStore 10 (demo_task\<lparr>t_MaxAttempts := 1\<rparr>) demo_facade)))"

definition stale_asked :: "scheduler_state scheduler" where
  "stale_asked = snd (QueryTasks MemoryStore demo_query stale_claimed)"

text \<open>The lease of the only attempt has expired; the store has failed the task, the board still shows it running.\<close>

theorem claim_keeps_cached_answer_witness:
  "let f = snd (Claim MemoryStore (3 * second) ''worker-2'' stale_asked) in
     map_sum id (\<lambda>res. map r_State (tq_Items res)) (fst (QueryTasks MemoryStore demo_query f)) = Ok [TaskStateRunning]
     \<and> map_option r_State (fmlookup (s_Tasks (f_store f)) ''task-1'') = Some TaskStateFailed"
proof -
  let ?items = "filterTaskBoardQueryRecords (sorted_values (s_Tasks (f_store stale_claimed))) demo_normal"
  have e: "ca_entries (f_queryCache stale_claimed) = fmempty" "nq_Cursor demo_normal = []" "nq_PageSize demo_normal = 50"
    by code_simp+
  note w = QueryTasks_writes [OF demo_normalizes e(1,2), of MemoryStore]
  have hit: "fmlookup (ca_entries (f_queryCache stale_asked)) (taskBoardQueryHash demo_normal) = Some ?items"
    by (simp add: stale_asked_def w memory_board)
  have none: "fst (Claim MemoryStore (3 * second) ''worker-2'' stale_asked) = Ok None"
    unfolding stale_asked_def w Claim_result_cache by code_simp
  have same: "f_store stale_asked = f_store stale_claimed" "f_leaseTimeout stale_asked = f_leaseTimeout stale_claimed"
    by (simp_all add: stale_asked_def w)
  have states: "map r_State ?items = [TaskStateRunning]" by code_simp
  have "length ?items = 1" using states by (metis length_map length_Cons list.size(3) One_nat_def)
  then have "map_sum id tq_Items (fst (QueryTasks MemoryStore demo_query stale_asked)) = Ok ?items"
    using QueryTasks_hit [OF demo_normalizes hit] boardAnswer_items e by simp
  then have "map_sum id (\<lambda>res. map r_State (tq_Items res)) (fst (QueryTasks MemoryStore demo_query stale_asked)) = Ok [TaskStateRunning]"
    using states by (cases "fst (QueryTasks MemoryStore demo_query stale_asked)") simp_all
  moreover have "map_option r_State (fmlookup (s_Tasks (f_store (snd (Claim MemoryStore (3 * second) ''worker-2'' stale_asked)))) ''task-1'') = Some TaskStateFailed"
    unfolding Claim_store same by code_simp
  ultimately show ?thesis
    using claim_keeps_cached_answer [OF none demo_normalizes hit] by (simp add: Let_def)
qed

definition clash_facade :: "scheduler_state scheduler" where
  "clash_facade = snd (Enqueue MemoryStore 10 (demo_task\<lparr>t_TaskID := ''a'', t_RunID := ''b|c''\<rparr>) demo_facade)"

definition clash_first :: task_query_request where
  "clash_first = demo_query\<lparr>rq_TaskID := ''a|b'', rq_RunID := ''c''\<rparr>"

definition clash_second :: task_query_request where
  "clash_second = demo_query\<lparr>rq_TaskID := ''a'', rq_RunID := ''b|c''\<rparr>"

lemma clash_normalizes:
  "normalizeTaskBoardQuery clash_first = Ok (demo_normal\<lparr>nq_TaskID := ''a|b'', nq_RunID := ''c''\<rparr>)"
  "normalizeTaskBoardQuery clash_second = Ok (demo_normal\<lparr>nq_TaskID := ''a'', nq_RunID := ''b|c''\<rparr>)"
  by code_simp+

lemma hash_bar:
  "taskBoardQueryHash (q\<lparr>nq_TaskID := x @ ''|'' @ y, nq_RunID := z\<rparr>) =
   taskBoardQueryHash (q\<lparr>nq_TaskID := x, nq_RunID := y @ ''|'' @ z\<rparr>)"
  by (simp add: taskBoardQueryHash_def taskBoardQueryKey_def)

text \<open>
  C29: The hash that names a query does not separate its fields: moving a bar from one field to the
  next gives another query with the same hash. The cache is keyed by the hash, so the second of two
  such queries is answered with the records of the first: the board below holds one task that
  matches the second query, which finds it only while the first has not been asked.
\<close>

theorem query_hash_clash:
  "taskBoardQueryHash (q\<lparr>nq_TaskID := x @ ''|'' @ y, nq_RunID := z\<rparr>) =
     taskBoardQueryHash (q\<lparr>nq_TaskID := x, nq_RunID := y @ ''|'' @ z\<rparr>)
   \<and> map_sum id (\<lambda>res. length (tq_Items res)) (fst (QueryTasks MemoryStore clash_second clash_facade)) = Ok 1
   \<and> map_sum id (\<lambda>res. length (tq_Items res))
        (fst (QueryTasks MemoryStore clash_second (snd (QueryTasks MemoryStore clash_first clash_facade)))) = Ok 0"
proof -
  let ?q1 = "demo_normal\<lparr>nq_TaskID := ''a|b'', nq_RunID := ''c''\<rparr>"
  let ?q2 = "demo_normal\<lparr>nq_TaskID := ''a'', nq_RunID := ''b|c''\<rparr>"
  let ?board = "\<lambda>q. filterTaskBoardQueryRecords (sorted_values (s_Tasks (f_store clash_facade))) q"
  have e: "ca_entries (f_queryCache clash_facade) = fmempty" by code_simp
  have c: "nq_Cursor ?q1 = []" "nq_Cursor ?q2 = []" "nq_PageSize ?q2 = 50" by code_simp+
  have n: "length (?board ?q1) = 0" "length (?board ?q2) = 1" by code_simp+
  have h: "taskBoardQueryHash ?q1 = taskBoardQueryHash ?q2" using hash_bar [where q = demo_normal and x = "''a''" and y = "''b''" and z = "''c''"] by simp
  have count: "map_sum id (\<lambda>res. length (tq_Items res)) (boardAnswer items ?q2) = Ok (length items)" if "length items \<le> 50" for items
    using boardAnswer_items [OF that c(2,3)] by (cases "boardAnswer items ?q2") auto
  have "fst (QueryTasks MemoryStore clash_second clash_facade) = boardAnswer (?board ?q2) ?q2"
    using QueryTasks_miss [OF clash_normalizes(2), of clash_facade MemoryStore] e by (simp add: memory_board)
  moreover have "fst (QueryTasks MemoryStore clash_second (snd (QueryTasks MemoryStore clash_first clash_facade))) =
      boardAnswer (?board ?q1) ?q2"
    unfolding QueryTasks_writes [OF clash_normalizes(1) e c(1)] h
    by (subst QueryTasks_hit [OF clash_normalizes(2)]) (simp_all add: memory_board)
  ultimately show ?thesis using hash_bar count n by simp
qed

section \<open>Spawning\<close>

text \<open>The guardrails as a specification: a positive budget and timeout, and depth and number of children within their limits, if set.\<close>

definition spawn_allowed :: "guardrails \<Rightarrow> spawn_request \<Rightarrow> bool" where
  "spawn_allowed g req \<longleftrightarrow>
     0 < sp_ParentRemainingBudget req \<and> 0 < sp_ChildTimeout req
     \<and> (gr_MaxDepth g \<le> 0 \<or> wrap64 (sp_ParentDepth req + 1) \<le> gr_MaxDepth g)
     \<and> (gr_MaxActiveChildren g \<le> 0 \<or> sp_ParentActiveChildren req < gr_MaxActiveChildren g)"

lemma resolveSpawn_fields:
  "sp_ParentDepth (resolveSpawn req) = sp_ParentDepth req"
  "sp_ParentActiveChildren (resolveSpawn req) = sp_ParentActiveChildren req"
  "tr_ResolvedTimeout (t_TimeoutResolution (sp_Task (resolveSpawn req))) = min (sp_ChildTimeout req) (sp_ParentRemainingBudget req)"
  by (simp_all add: resolveSpawn_def Let_def min_def)

text \<open>
  The limit on the children's timeout among the guardrails is never looked at: whatever its
  value, a spawn has the same result and leaves the same store.
\<close>

lemma spawn_ignores_timeout_limit:
  "let f' = f\<lparr>f_guardrails := (f_guardrails f)\<lparr>gr_ChildTimeoutBudget := limit\<rparr>\<rparr> in
     fst (SpawnChild st clk req f') = fst (SpawnChild st clk req f)
     \<and> f_store (snd (SpawnChild st clk req f')) = f_store (snd (SpawnChild st clk req f))"
  by (simp add: SpawnChild_def rejectSpawn_def ValidateSpawn_def Enqueue_def storeCall_pair facade_frame Let_def
      split: sum.split)

lemma spawn_enqueues:
  assumes "spawn_allowed (f_guardrails f) req"
  shows "(fst (SpawnChild st clk req f), f_store (snd (SpawnChild st clk req f))) =
    map_prod (map_sum FStore id) id (qs_Enqueue st clk (sp_Task (resolveSpawn req)) clk (f_store f))"
proof -
  let ?child = "sp_Task (resolveSpawn req)"
  have "ValidateSpawn (f_guardrails f) (resolveSpawn req) = None"
    using assms by (auto simp: spawn_allowed_def ValidateSpawn_def resolveSpawn_fields)
  moreover have "fst (Enqueue st clk ?child f) = map_sum FStore id (fst (qs_Enqueue st clk ?child clk (f_store f)))"
    by (simp add: Enqueue_def storeCall_pair Let_def split: sum.split)
  ultimately show ?thesis
    using assms Enqueue_store [of st clk ?child f]
    by (auto simp: SpawnChild_def spawn_allowed_def facade_frame map_prod_def split: prod.splits sum.splits)
qed

lemma spawn_refused:
  "\<not> spawn_allowed (f_guardrails f) req \<Longrightarrow>
     (\<exists>code. fst (SpawnChild st clk req f) = Err (FBudget code)) \<and> f_store (snd (SpawnChild st clk req f)) = f_store f
     \<and> f_queryCache (snd (SpawnChild st clk req f)) = f_queryCache f"
  by (auto simp: SpawnChild_def rejectSpawn_def spawn_allowed_def ValidateSpawn_def Let_def facade_frame
      resolveSpawn_fields)

text \<open>
  C27: A child is spawned as the code's checks decide: the parent has budget left, the child's timeout is
  positive, and depth and number of active children stay within their limits, if these are set. An allowed
  spawn enqueues the task with the child's timeout clamped to what remains of the parent's budget, and
  has the result of this enqueue, an error included. A refused one answers with a budget error and leaves
  the store and the query cache alone. The guardrails' limit on the timeout of children takes no part in
  the decision, nor in the timeout of the child.
\<close>

theorem spawn_guarded:
  "(if spawn_allowed (f_guardrails f) req
    then (fst (SpawnChild st clk req f), f_store (snd (SpawnChild st clk req f))) =
         map_prod (map_sum FStore id) id (qs_Enqueue st clk (sp_Task (resolveSpawn req)) clk (f_store f))
      \<and> tr_ResolvedTimeout (t_TimeoutResolution (sp_Task (resolveSpawn req))) =
          min (sp_ChildTimeout req) (sp_ParentRemainingBudget req)
    else (\<exists>code. fst (SpawnChild st clk req f) = Err (FBudget code)) \<and> f_store (snd (SpawnChild st clk req f)) = f_store f
      \<and> f_queryCache (snd (SpawnChild st clk req f)) = f_queryCache f)
   \<and> (let f' = f\<lparr>f_guardrails := (f_guardrails f)\<lparr>gr_ChildTimeoutBudget := limit\<rparr>\<rparr> in
        fst (SpawnChild st clk req f') = fst (SpawnChild st clk req f)
        \<and> f_store (snd (SpawnChild st clk req f')) = f_store (snd (SpawnChild st clk req f)))"
proof (rule conjI [OF _ spawn_ignores_timeout_limit])
  note spawn_enqueues [of f req st clk] spawn_refused [of f req st clk] resolveSpawn_fields(3) [of req]
  then show "if spawn_allowed (f_guardrails f) req
    then (fst (SpawnChild st clk req f), f_store (snd (SpawnChild st clk req f))) =
         map_prod (map_sum FStore id) id (qs_Enqueue st clk (sp_Task (resolveSpawn req)) clk (f_store f))
      \<and> tr_ResolvedTimeout (t_TimeoutResolution (sp_Task (resolveSpawn req))) =
          min (sp_ChildTimeout req) (sp_ParentRemainingBudget req)
    else (\<exists>code. fst (SpawnChild st clk req f) = Err (FBudget code)) \<and> f_store (snd (SpawnChild st clk req f)) = f_store f
      \<and> f_queryCache (snd (SpawnChild st clk req f)) = f_queryCache f"
    by (cases "spawn_allowed (f_guardrails f) req") (simp_all only: if_True if_False simp_thms)
qed

end
