(* ===== verification/Facade_Reports.thy ===== *)
theory Facade_Reports
  imports Facade_Properties
begin

text \<open>
  Properties of reconciliation (its outcome for one task, the delay between cycles) and of the
  timeline.
\<close>

section \<open>Reconciliation\<close>

text \<open>A report of the current attempt settles a task that awaits one.\<close>

lemma report_applies:
  assumes inv: "sched_inv s" and r: "fmlookup (s_Tasks s) (c_TaskID n) = Some r"
    and st: "r_State r = TaskStateAwaitingReport" and n: "normalizeCommit clk c = Ok n" and src: "c_Source n \<noteq> []"
    and att: "c_AttemptID n = r_CurrentAttempt r"
  shows "c_WorkspaceProvenance n = t_WorkspaceProvenance (r_Task r) \<Longrightarrow>
      \<exists>r' s'. commitAsyncReportTerminal clk c s = (Ok (commitOutcome r' False False False), s')
        \<and> fmlookup (s_Tasks s') (c_TaskID n) = Some r' \<and> r_State r' = c_Status n"
    and "c_WorkspaceProvenance n \<noteq> t_WorkspaceProvenance (r_Task r)
      \<Longrightarrow> commitAsyncReportTerminal clk c s = (Err ErrWorkspaceBindingMismatch, s)"
proof -
  have wf: "wf_record (c_TaskID n) r" using inv r by (rule sched_inv_record)
  have st': "r_State r = TaskStateRunning \<or> r_State r = TaskStateAwaitingReport" using st by simp
  note f = wf_inflight_facts [OF wf st']
  have prov: "at_WorkspaceProvenance (last (r_Attempts r)) = t_WorkspaceProvenance (r_Task r)"
    using wf f(1) by (simp add: wf_record_def wf_attempts_def)
  have none: "fmlookup (s_TerminalCommits s) (terminalCommitKey (c_TaskID n) (c_AttemptID n)) = None"
    using running_uncommitted [OF inv r st'] att by simp
  show "commitAsyncReportTerminal clk c s = (Err ErrWorkspaceBindingMismatch, s)"
    if "c_WorkspaceProvenance n \<noteq> t_WorkspaceProvenance (r_Task r)"
    using that n src r none st f(2) prov by (simp add: commitAsyncReportTerminal_def)
  show "\<exists>r' s'. commitAsyncReportTerminal clk c s = (Ok (commitOutcome r' False False False), s')
        \<and> fmlookup (s_Tasks s') (c_TaskID n) = Some r' \<and> r_State r' = c_Status n"
    if "c_WorkspaceProvenance n = t_WorkspaceProvenance (r_Task r)"
    using that n src r none st f(2,4) prov att normalizeCommit_fields(7) [OF n]
    by (auto simp: commitAsyncReportTerminal_def applyTerminalCommit_def Let_def storeRecord_def terminalRecord_def)
qed

lemma reconcileCommit:
  assumes "trimmed k" "k \<noteq> []" "trimmed a" "a \<noteq> []" "ar_Status rec \<in> {StatusSucceeded, StatusFailed, StatusCanceled}"
  obtains c n where "ReconcileTerminalCommitFromRecord clk k a remote rec clk = Some c" "normalizeCommit clk c = Ok n"
    "c_TaskID n = k" "c_AttemptID n = a" "c_WorkspaceProvenance n = None" "c_Source n \<noteq> []"
    "c_Status n = (if ar_Status rec = StatusSucceeded then TaskStateSucceeded else TaskStateFailed)"
proof -
  define c where "c = the (ReconcileTerminalCommitFromRecord clk k a remote rec clk)"
  have c: "ReconcileTerminalCommitFromRecord clk k a remote rec clk = Some c" "c_TaskID c = k" "c_AttemptID c = a"
    "c_WorkspaceProvenance c = None" "c_Source c = AsyncResolutionSourceReconcilePoll"
    "c_Status c = (if ar_Status rec = StatusSucceeded then TaskStateSucceeded else TaskStateFailed)"
    using assms by (auto simp: c_def ReconcileTerminalCommitFromRecord_def blankCommit_def Let_def split: a2a_status.split)
  then obtain n where n: "normalizeCommit clk c = Ok n"
    using assms by (auto simp: normalizeCommit_def trimCommit_def Let_def)
  have "ToLower (TrimSpace AsyncResolutionSourceReconcilePoll) \<noteq> []" by code_simp
  then show ?thesis using that [OF c(1) n] normalizeCommit_fields [OF n] c assms by simp
qed

lemma reconcile_poll:
  assumes "status k = Inr rec" "ar_Status rec \<in> {StatusSucceeded, StatusFailed, StatusCanceled}" "result k = Inr res"
    and "trimmed k" "k \<noteq> []"
  obtains res' where "ClassifyReconcilePoll status result k = (ReconcilePollClassificationTerminal, Some res')"
    "ar_Status res' = ar_Status res"
  using assms by (auto simp: ClassifyReconcilePoll_def Let_def)

text \<open>
  C26: When the remote side reports that a task which awaits its report has ended, reconciling that
  task settles it with the reported outcome and counts it; except that a task with workspace
  provenance is never settled this way: the commit carries no provenance, the store refuses it, and
  the scheduler is left as it was.
\<close>

theorem reconcile_settles:
  assumes "sched_inv (f_store f)" "fmlookup (s_Tasks (f_store f)) k = Some r"
    and "r_State r = TaskStateAwaitingReport" "r_RemoteTaskID r \<noteq> []"
    and "status (r_RemoteTaskID r) = Inr rec" "ar_Status rec \<in> {StatusSucceeded, StatusFailed, StatusCanceled}"
    and "result (r_RemoteTaskID r) = Inr res" "ar_Status res \<in> {StatusSucceeded, StatusFailed, StatusCanceled}"
    and "reconcileOne MemoryStore clk status result r (cy, f) = (cy', f')"
  shows "if t_WorkspaceProvenance (r_Task r) = None
    then map_option r_State (fmlookup (s_Tasks (f_store f')) k) =
           Some (if ar_Status res = StatusSucceeded then TaskStateSucceeded else TaskStateFailed)
         \<and> cy' = cy\<lparr>cy_PollTotal := cy_PollTotal cy + 1, cy_TerminalByPoll := cy_TerminalByPoll cy + 1\<rparr>
    else f' = f \<and> cy' = cy\<lparr>cy_PollTotal := cy_PollTotal cy + 1, cy_ErrorTotal := cy_ErrorTotal cy + 1\<rparr>"
proof -
  have wf: "wf_record k r" using assms(1,2) by (rule sched_inv_record)
  have st': "r_State r = TaskStateRunning \<or> r_State r = TaskStateAwaitingReport" using assms(3) by simp
  note fl = wf_inflight_facts [OF wf st'] and key = wf_record_key [OF wf]
  have remote: "trimmed (r_RemoteTaskID r)" using wf by (simp add: wf_record_def wf_fields_def)
  obtain res' where poll: "ClassifyReconcilePoll status result (r_RemoteTaskID r) = (ReconcilePollClassificationTerminal, Some res')"
      "ar_Status res' = ar_Status res"
    using reconcile_poll [of status "r_RemoteTaskID r" rec result res] assms(4-7) remote by blast
  obtain c n where c: "ReconcileTerminalCommitFromRecord clk k (r_CurrentAttempt r) (r_RemoteTaskID r) res' clk = Some c"
      "normalizeCommit clk c = Ok n" "c_TaskID n = k" "c_AttemptID n = r_CurrentAttempt r"
      "c_WorkspaceProvenance n = None" "c_Source n \<noteq> []"
      "c_Status n = (if ar_Status res' = StatusSucceeded then TaskStateSucceeded else TaskStateFailed)"
    using reconcileCommit [of k "r_CurrentAttempt r" res' clk "r_RemoteTaskID r"] key fl(6,7) assms(8) poll(2) by metis
  have r: "fmlookup (s_Tasks (f_store f)) (c_TaskID n) = Some r" using assms(2) c(3) by simp
  note app = report_applies [OF assms(1) r assms(3) c(2,6,4)]
  have one: "reconcileOne MemoryStore clk status result r (cy, f) =
     (case CommitAsyncReportTerminal MemoryStore clk c f of
        (Inl e, f1) \<Rightarrow> (cycleError (cy\<lparr>cy_PollTotal := cy_PollTotal cy + 1\<rparr>), f1)
      | (Inr res, f1) \<Rightarrow> (cycleCommit res (cy\<lparr>cy_PollTotal := cy_PollTotal cy + 1\<rparr>), f1))"
    using poll(1) c(1) key fl(2,4) assms(4) remote by (simp add: reconcileOne_def Let_def)
  show ?thesis
  proof (cases "t_WorkspaceProvenance (r_Task r) = None")
    case True
    with app(1) c(3,5) obtain r' s' where r': "commitAsyncReportTerminal clk c (f_store f) = (Ok (commitOutcome r' False False False), s')"
        "fmlookup (s_Tasks s') k = Some r'" "r_State r' = c_Status n" by auto
    have "f_store (snd (CommitAsyncReportTerminal MemoryStore clk c f)) = s'"
      by (simp add: CommitAsync_store memory_methods r'(1))
    moreover have "fst (CommitAsyncReportTerminal MemoryStore clk c f) = Ok (commitOutcome r' False False False)"
      by (simp add: CommitAsyncReportTerminal_def storeCall_pair memory_methods r'(1) commitOutcome_def Let_def)
    ultimately show ?thesis
      using True one assms(9) r'(2,3) c(7) poll(2)
      by (cases "CommitAsyncReportTerminal MemoryStore clk c f") (auto simp: cycleCommit_def commitOutcome_def)
  next
    case False
    then have "commitAsyncReportTerminal clk c (f_store f) = (Err ErrWorkspaceBindingMismatch, f_store f)"
      using c(5) by (intro app(2)) auto
    then have "CommitAsyncReportTerminal MemoryStore clk c f = (Err (FStore ErrWorkspaceBindingMismatch), f)"
      by (simp add: CommitAsyncReportTerminal_def storeCall_pair memory_methods)
    then show ?thesis using False one assms(9) by (auto simp: cycleError_def)
  qed
qed

text \<open>A task that awaits the report of a remote task, and a peer that has completed it.\<close>

definition demo_waiting :: "scheduler_state scheduler" where
  "demo_waiting = snd (MarkAwaitingReport MemoryStore 30 ''task-1'' ''task-1-attempt-1'' (Some ''remote-1'') demo_claimed)"

definition demo_peer :: poll_client where
  "demo_peer remote =
     Inr \<lparr>ar_TaskID = remote, ar_Status = StatusSucceeded, ar_Result = fmempty, ar_ErrorClass = [],
          ar_A2AErrorLayer = [], ar_ErrorMessage = []\<rparr>"

definition demo_cycle :: cycle_stats where
  "demo_cycle = \<lparr>cy_PollTotal = 0, cy_TerminalByPoll = 0, cy_ErrorTotal = 0, cy_ConflictTotalDelta = 0\<rparr>"

lemma demo_waiting_inv: "sched_inv (f_store demo_waiting)"
proof -
  have "sched_step\<^sup>*\<^sup>* NewMemoryStore (f_store demo_facade)"
    by (rule mem_store.new_machine [OF demo_facade_new]) (simp add: options_keep_store)
  moreover have "(facade_step MemoryStore)\<^sup>*\<^sup>* demo_facade demo_waiting"
    unfolding demo_waiting_def using demo_facade_runs by (rule rtranclp.rtrancl_into_rtrancl) (rule fs_await, simp)
  moreover have "sched_inv NewMemoryStore" using sched_init_inv by (simp add: sched_init_def NewMemoryStore_def)
  ultimately show ?thesis using mem_store.facade_runs_machine sched.steps_invar by blast
qed

theorem reconcile_settles_witness:
  "\<exists>r. fmlookup (s_Tasks (f_store demo_waiting)) ''task-1'' = Some r \<and> r_State r = TaskStateAwaitingReport
     \<and> (case reconcileOne MemoryStore 40 demo_peer demo_peer r (demo_cycle, demo_waiting) of (cy, f) \<Rightarrow>
           map_option r_State (fmlookup (s_Tasks (f_store f)) ''task-1'') = Some TaskStateSucceeded
           \<and> cy_TerminalByPoll cy = 1)"
proof -
  have "case fmlookup (s_Tasks (f_store demo_waiting)) ''task-1'' of None \<Rightarrow> False
      | Some r \<Rightarrow> r_State r = TaskStateAwaitingReport \<and> r_RemoteTaskID r = ''remote-1'' \<and> t_WorkspaceProvenance (r_Task r) = None"
    by code_simp
  then obtain r where r: "fmlookup (s_Tasks (f_store demo_waiting)) ''task-1'' = Some r" "r_State r = TaskStateAwaitingReport"
      "r_RemoteTaskID r = ''remote-1''" "t_WorkspaceProvenance (r_Task r) = None" by (auto split: option.splits)
  obtain cy f where cy: "reconcileOne MemoryStore 40 demo_peer demo_peer r (demo_cycle, demo_waiting) = (cy, f)" by fastforce
  show ?thesis
    using r cy reconcile_settles [OF demo_waiting_inv r(1,2) _ _ _ _ _ cy, OF _ demo_peer_def _ demo_peer_def]
    by (auto simp: demo_cycle_def)
qed

text \<open>
  The delay before the next reconcile cycle is positive and at most twice the configured
  interval (five seconds if none is set), or one millisecond for an interval below half of that,
  whatever the jitter ratio, and each call draws from the next seed. The interval is below 2^53
  nanoseconds, 104 days, so that it is exact as a floating point number.
\<close>

lemma reconcile_delay_bounds:
  assumes "base = (if rc_Interval (aa_Reconcile (f_asyncAwait f)) \<le> 0 then 5 * second
                   else rc_Interval (aa_Reconcile (f_asyncAwait f)))" "base \<le> 2 ^ 53"
  shows "0 < fst (NextAsyncReconcileDelay f) \<and> fst (NextAsyncReconcileDelay f) \<le> max millisecond (2 * base)
    \<and> f_reconcileSeq (snd (NextAsyncReconcileDelay f)) = f_reconcileSeq f + 1"
  using reconcileJitteredInterval_bounds [OF assms] by (simp add: NextAsyncReconcileDelay_def Let_def)

lemma reconcile_delay_bounds_witness:
  "0 < fst (NextAsyncReconcileDelay demo_facade) \<and> fst (NextAsyncReconcileDelay demo_facade) \<le> 10 * second"
proof -
  have "rc_Interval (aa_Reconcile (f_asyncAwait demo_facade)) = 5 * second" by code_simp
  then show ?thesis
    using reconcile_delay_bounds [of "5 * second" demo_facade] by (simp add: second_def millisecond_def)
qed

section \<open>The timeline\<close>

text \<open>
  The events that a scheduler emits, over any store, are numbered 1, 2, ... in the order of
  emission without gaps or repetitions, and every event carries one of the canonical reasons.
\<close>

lemma timeline_numbered:
  assumes "reach (\<lambda>f. f_events f = [] \<and> f_seq f = 0) (facade_step st) f" "i < length (f_events f)"
  shows "fmlookup (te_Payload (f_events f ! i)) ''sequence'' = Some (PayInt (int i + 1))
    \<and> (\<exists>reason. reason \<in> set canonicalReasonSet
         \<and> fmlookup (te_Payload (f_events f ! i)) ''reason'' = Some (PayStr reason))"
  using numbered.reach_invar [OF assms(1)] assms(2) by (auto simp: timeline_ok_def)

lemma timeline_numbered_witness:
  "map (\<lambda>e. fmlookup (te_Payload e) ''reason'') (f_events demo_claimed) =
     [Some (PayStr ReasonEnqueue), Some (PayStr ReasonClaim)]
   \<and> fmlookup (te_Payload (f_events demo_claimed ! 1)) ''sequence'' = Some (PayInt 2)"
proof -
  have "f_events demo_facade = [] \<and> f_seq demo_facade = 0" by code_simp
  then have "reach (\<lambda>f. f_events f = [] \<and> f_seq f = 0) (facade_step MemoryStore) demo_claimed"
    by (rule reach_runs [OF demo_facade_runs, OF reach_init])
  moreover have reasons: "map (\<lambda>e. fmlookup (te_Payload e) ''reason'') (f_events demo_claimed) =
     [Some (PayStr ReasonEnqueue), Some (PayStr ReasonClaim)]" by code_simp
  moreover have "length (f_events demo_claimed) = 2" by code_simp
  ultimately show ?thesis using timeline_numbered [of MemoryStore demo_claimed 1] by simp
qed

end
