(* ===== verification/Mailbox_Types.thy ===== *)
theory Mailbox_Types
  imports Go_Encoding
begin

text \<open>
  The data of the mailbox (\<open>src/orchestration/mailbox/types.go\<close>): envelopes, records, policies
  and the projection of a record for the host (\<open>host_plan_binding.go\<close>), with the normalisers of
  envelopes, policies, worker settings and lifecycle reasons. Names that the scheduler also uses carry
  the prefix \<open>mb\<close>. The continuations of \<open>continuation.go\<close> are left out of the state.
\<close>

section \<open>Enumerations\<close>

datatype envelope_kind = KindCommand | KindEvent | KindResult | KindOther string

datatype message_state =
    StateQueued
  | StateInFlight
  | StateAcked
  | StateNacked
  | StateDeadLetter
  | StateExpired
  | StateOther string

datatype lifecycle_transition =
    TransitionConsume
  | TransitionAck
  | TransitionNack
  | TransitionRequeue
  | TransitionDeadLetter
  | TransitionExpired

fun transition_string :: "lifecycle_transition \<Rightarrow> string" where
  "transition_string TransitionConsume = ''consume''"
| "transition_string TransitionAck = ''ack''"
| "transition_string TransitionNack = ''nack''"
| "transition_string TransitionRequeue = ''requeue''"
| "transition_string TransitionDeadLetter = ''dead_letter''"
| "transition_string TransitionExpired = ''expired''"

abbreviation LifecycleReasonRetryExhausted :: string where "LifecycleReasonRetryExhausted \<equiv> ''retry_exhausted''"
abbreviation LifecycleReasonExpired :: string where "LifecycleReasonExpired \<equiv> ''expired''"
abbreviation LifecycleReasonConsumerMismatch :: string where "LifecycleReasonConsumerMismatch \<equiv> ''consumer_mismatch''"
abbreviation LifecycleReasonMessageNotFound :: string where "LifecycleReasonMessageNotFound \<equiv> ''message_not_found''"
abbreviation LifecycleReasonHandlerError :: string where "LifecycleReasonHandlerError \<equiv> ''handler_error''"
abbreviation LifecycleReasonLeaseExpired :: string where "LifecycleReasonLeaseExpired \<equiv> ''lease_expired''"

section \<open>Records\<close>

record host_plan_binding =
  hb_ContractVersion :: string
  hb_MessageID :: string
  hb_IdempotencyKey :: string
  hb_RunID :: string
  hb_ParentRunID :: string
  hb_CausationID :: string
  hb_AuthorityDigest :: string
  hb_PlanDigest :: string
  hb_WriteScope :: string
  hb_EffectNamespace :: string
  hb_Occurrence :: string
  hb_HostCorrelation :: string
  hb_ResourceLimit :: int

record host_plan_outcome =
  ho_MessageID :: string
  ho_RunID :: string
  ho_DeliveryID :: string
  ho_LeaseID :: string
  ho_DeliveryLeaseID :: string
  ho_AttemptCausation :: string
  ho_ParentRunID :: string
  ho_CausationID :: string
  ho_AuthorityDigest :: string
  ho_PlanDigest :: string
  ho_WriteScope :: string
  ho_EffectNamespace :: string
  ho_Occurrence :: string
  ho_HostCorrelation :: string
  ho_DeliveryAttempt :: int
  ho_LifecycleState :: message_state
  ho_LifecycleResult :: string
  ho_LifecycleReason :: string
  ho_TerminalOutcome :: string
  ho_Duplicate :: bool

record envelope =
  e_DispatchBinding :: string
  e_HostPlanBinding :: "host_plan_binding option"
  e_MessageID :: string
  e_IdempotencyKey :: string
  e_CorrelationID :: string
  e_Kind :: envelope_kind
  e_FromAgent :: string
  e_ToAgent :: string
  e_TaskID :: string
  e_RunID :: string
  e_WorkflowID :: string
  e_TeamID :: string
  e_Payload :: "(string, go_any) gomap"
  e_NotBefore :: time
  e_ExpireAt :: time
  e_Attempt :: int

record mb_record =
  m_Envelope :: envelope
  m_State :: message_state
  m_DeliveryID :: string
  m_LeaseID :: string
  m_ConsumerID :: string
  m_DeliveryAttempt :: int
  m_AttemptCausation :: string
  m_InFlightSince :: time
  m_LastHeartbeatAt :: time
  m_LeaseExpiresAt :: time
  m_NextEligibleAt :: time
  m_LastError :: string
  m_DeadLetterReason :: string
  m_CreatedAt :: time
  m_UpdatedAt :: time

record mb_stats =
  mt_Backend :: string
  mt_BackendFallback :: bool
  mt_BackendFallbackReason :: string
  mt_QueueTotal :: int
  mt_InFlightTotal :: int
  mt_PublishedTotal :: int
  mt_DuplicatePublishTotal :: int
  mt_ConsumedTotal :: int
  mt_AckTotal :: int
  mt_NackTotal :: int
  mt_RequeueTotal :: int
  mt_ExpiredTotal :: int
  mt_DeadLetterTotal :: int

record mb_policy =
  po_MaxAttempts :: int
  po_BackoffInitial :: duration
  po_BackoffMax :: duration
  po_JitterRatio :: f64
  po_TTL :: duration
  po_DLQEnabled :: bool

record publish_result =
  pr_Record :: mb_record
  pr_Duplicate :: bool

record worker_config =
  wc_Enabled :: bool
  wc_PollInterval :: duration
  wc_HandlerErrorPolicy :: string
  wc_InflightTimeout :: duration
  wc_HeartbeatInterval :: duration
  wc_ReclaimOnConsume :: bool
  wc_PanicPolicy :: string

record action_options =
  ao_Reclaimed :: bool
  ao_PanicRecovered :: bool

abbreviation noOptions :: action_options where
  "noOptions \<equiv> \<lparr>ao_Reclaimed = False, ao_PanicRecovered = False\<rparr>"

record lifecycle_event =
  le_Time :: time
  le_Transition :: lifecycle_transition
  le_Record :: mb_record
  le_ReasonCode :: string
  le_Reclaimed :: bool
  le_PanicRecovered :: bool

text \<open>Each error variable of the package is a constructor; \<open>MErrInvalid\<close> are the anonymous errors.\<close>

datatype mb_invalid =
    HostPlanFieldInvalid
  | HostPlanVersionUnsupported string
  | HostPlanResourceLimit
  | MessageIDRequired
  | IdempotencyKeyRequired
  | KindUnsupported envelope_kind
  | ConsumerIDRequired
  | PollIntervalInvalid
  | HandlerErrorPolicyInvalid string
  | InflightTimeoutInvalid
  | HeartbeatIntervalInvalid
  | PanicPolicyInvalid string
  | PublishKindMismatch
  | ReportKeyRequired
  | WorkerHandlerFailed

datatype mb_error =
    MErrDispatchBindingMismatch
  | MErrMessageNotFound
  | MErrMessageNotInflight
  | MErrConsumerMismatch
  | MErrSnapshotCorrupt
  | MErrUnsupportedBackend string
  | MErrInvalid mb_invalid
  | MErrBackendIO io_fault

section \<open>Normalisers\<close>

abbreviation HostPlanBindingContractVersion :: string where
  "HostPlanBindingContractVersion \<equiv> ''mailbox_host_plan_binding.v1''"

definition trimBinding :: "host_plan_binding \<Rightarrow> host_plan_binding" where
  "trimBinding b =
     b\<lparr>hb_ContractVersion := TrimSpace (hb_ContractVersion b), hb_MessageID := TrimSpace (hb_MessageID b),
       hb_IdempotencyKey := TrimSpace (hb_IdempotencyKey b), hb_RunID := TrimSpace (hb_RunID b),
       hb_ParentRunID := TrimSpace (hb_ParentRunID b), hb_CausationID := TrimSpace (hb_CausationID b),
       hb_AuthorityDigest := TrimSpace (hb_AuthorityDigest b), hb_PlanDigest := TrimSpace (hb_PlanDigest b),
       hb_WriteScope := TrimSpace (hb_WriteScope b), hb_EffectNamespace := TrimSpace (hb_EffectNamespace b),
       hb_Occurrence := TrimSpace (hb_Occurrence b), hb_HostCorrelation := TrimSpace (hb_HostCorrelation b)\<rparr>"

definition bindingFields :: "host_plan_binding \<Rightarrow> string list" where
  "bindingFields b =
     [hb_ContractVersion b, hb_MessageID b, hb_IdempotencyKey b, hb_RunID b, hb_ParentRunID b, hb_CausationID b,
      hb_AuthorityDigest b, hb_PlanDigest b, hb_WriteScope b, hb_EffectNamespace b, hb_Occurrence b,
      hb_HostCorrelation b]"

definition normalizeHostPlanBinding :: "host_plan_binding \<Rightarrow> (mb_error, host_plan_binding) result" where
  "normalizeHostPlanBinding inp =
     (let out = trimBinding inp in
      if list_ex (\<lambda>f. f = [] \<or> 1024 < length f) (bindingFields out) then Err (MErrInvalid HostPlanFieldInvalid)
      else if hb_ContractVersion out \<noteq> HostPlanBindingContractVersion
      then Err (MErrInvalid (HostPlanVersionUnsupported (hb_ContractVersion out)))
      else if hb_ResourceLimit out \<le> 0 \<or> 128 < hb_ResourceLimit out then Err (MErrInvalid HostPlanResourceLimit)
      else Ok out)"

definition trimEnvelope :: "envelope \<Rightarrow> envelope" where
  "trimEnvelope e =
     e\<lparr>e_MessageID := TrimSpace (e_MessageID e), e_DispatchBinding := TrimSpace (e_DispatchBinding e),
       e_IdempotencyKey := TrimSpace (e_IdempotencyKey e), e_CorrelationID := TrimSpace (e_CorrelationID e),
       e_FromAgent := TrimSpace (e_FromAgent e), e_ToAgent := TrimSpace (e_ToAgent e),
       e_TaskID := TrimSpace (e_TaskID e), e_RunID := TrimSpace (e_RunID e),
       e_WorkflowID := TrimSpace (e_WorkflowID e), e_TeamID := TrimSpace (e_TeamID e),
       e_Attempt := max (e_Attempt e) 0\<rparr>"

definition normalizeEnvelope :: "envelope \<Rightarrow> (mb_error, envelope) result" where
  "normalizeEnvelope inp =
     (let out = trimEnvelope inp in
      (case (case e_HostPlanBinding out of
               None \<Rightarrow> Ok None
             | Some b \<Rightarrow> map_sum id Some (normalizeHostPlanBinding b)) of
         Inl e \<Rightarrow> Err e
       | Inr binding \<Rightarrow>
           let out = out\<lparr>e_HostPlanBinding := binding\<rparr> in
           if e_MessageID out = [] then Err (MErrInvalid MessageIDRequired)
           else if e_IdempotencyKey out = [] then Err (MErrInvalid IdempotencyKeyRequired)
           else if e_Kind out \<notin> {KindCommand, KindEvent, KindResult}
           then Err (MErrInvalid (KindUnsupported (e_Kind out)))
           else Ok out))"

definition normalizePolicy :: "mb_policy \<Rightarrow> mb_policy" where
  "normalizePolicy p0 =
     (let p1 = (if po_MaxAttempts p0 \<le> 0 then p0\<lparr>po_MaxAttempts := 3\<rparr> else p0);
          p2 = (if po_BackoffInitial p1 \<le> 0 then p1\<lparr>po_BackoffInitial := 50 * millisecond\<rparr> else p1);
          p3 = (if po_BackoffMax p2 < po_BackoffInitial p2 then p2\<lparr>po_BackoffMax := po_BackoffInitial p2\<rparr> else p2);
          p4 = (if po_BackoffMax p3 = 0 then p3\<lparr>po_BackoffMax := 500 * millisecond\<rparr> else p3);
          p5 = (if f64_less (po_JitterRatio p4) (F64 0) then p4\<lparr>po_JitterRatio := F64 0\<rparr> else p4);
          p6 = (if f64_less (F64 1) (po_JitterRatio p5) then p5\<lparr>po_JitterRatio := F64 1\<rparr> else p5)
      in if po_TTL p6 < 0 then p6\<lparr>po_TTL := 0\<rparr> else p6)"

abbreviation WorkerHandlerErrorPolicyRequeue :: string where "WorkerHandlerErrorPolicyRequeue \<equiv> ''requeue''"
abbreviation WorkerHandlerErrorPolicyNack :: string where "WorkerHandlerErrorPolicyNack \<equiv> ''nack''"
abbreviation WorkerPanicPolicyFollowHandler :: string where
  "WorkerPanicPolicyFollowHandler \<equiv> ''follow_handler_error_policy''"

definition NormalizeWorkerConfig :: "worker_config \<Rightarrow> (mb_error, worker_config) result" where
  "NormalizeWorkerConfig inp =
     (let poll = (if wc_PollInterval inp = 0 then 100 * millisecond else wc_PollInterval inp);
          handler0 = ToLower (TrimSpace (wc_HandlerErrorPolicy inp));
          handler = (if handler0 = [] then WorkerHandlerErrorPolicyRequeue else handler0);
          inflight = (if wc_InflightTimeout inp = 0 then 30 * second else wc_InflightTimeout inp);
          beat = (if wc_HeartbeatInterval inp = 0 then 5 * second else wc_HeartbeatInterval inp);
          panic0 = ToLower (TrimSpace (wc_PanicPolicy inp));
          panic = (if panic0 = [] then WorkerPanicPolicyFollowHandler else panic0)
      in if poll \<le> 0 then Err (MErrInvalid PollIntervalInvalid)
         else if handler \<noteq> WorkerHandlerErrorPolicyRequeue \<and> handler \<noteq> WorkerHandlerErrorPolicyNack
         then Err (MErrInvalid (HandlerErrorPolicyInvalid (wc_HandlerErrorPolicy inp)))
         else if inflight \<le> 0 then Err (MErrInvalid InflightTimeoutInvalid)
         else if beat \<le> 0 \<or> inflight \<le> beat then Err (MErrInvalid HeartbeatIntervalInvalid)
         else if panic \<noteq> WorkerPanicPolicyFollowHandler then Err (MErrInvalid (PanicPolicyInvalid (wc_PanicPolicy inp)))
         else
           Ok (inp\<lparr>wc_PollInterval := poll, wc_HandlerErrorPolicy := handler, wc_InflightTimeout := inflight,
                   wc_HeartbeatInterval := beat, wc_PanicPolicy := panic,
                   wc_ReclaimOnConsume :=
                     (wc_ReclaimOnConsume inp
                      \<or> wc_InflightTimeout inp = 0 \<and> wc_HeartbeatInterval inp = 0
                        \<and> TrimSpace (wc_PanicPolicy inp) = [])\<rparr>))"

section \<open>Lifecycle reasons\<close>

definition LifecycleCanonicalReasons :: "string list" where
  "LifecycleCanonicalReasons =
     [LifecycleReasonRetryExhausted, LifecycleReasonExpired, LifecycleReasonConsumerMismatch,
      LifecycleReasonMessageNotFound, LifecycleReasonHandlerError, LifecycleReasonLeaseExpired]"

text \<open>The text before the first colon, if there is one.\<close>

definition NormalizeLifecycleReason :: "string \<Rightarrow> string" where
  "NormalizeLifecycleReason inp =
     (let reason = ToLower (TrimSpace inp) in
      if reason = [] then []
      else if CHR '':'' \<in> set reason then TrimSpace (takeWhile (\<lambda>c. c \<noteq> CHR '':'') reason)
      else reason)"

definition IsCanonicalLifecycleReason :: "string \<Rightarrow> bool" where
  "IsCanonicalLifecycleReason inp \<longleftrightarrow> NormalizeLifecycleReason inp \<in> set LifecycleCanonicalReasons"

fun LifecycleReasonFromError :: "mb_error \<Rightarrow> string" where
  "LifecycleReasonFromError MErrConsumerMismatch = LifecycleReasonConsumerMismatch"
| "LifecycleReasonFromError MErrMessageNotFound = LifecycleReasonMessageNotFound"
| "LifecycleReasonFromError _ = LifecycleReasonHandlerError"

definition CanonicalizeLifecycleReason :: "string \<Rightarrow> string \<Rightarrow> string" where
  "CanonicalizeLifecycleReason inp fallback =
     (if IsCanonicalLifecycleReason (NormalizeLifecycleReason inp) then NormalizeLifecycleReason inp
      else if IsCanonicalLifecycleReason (NormalizeLifecycleReason fallback) then NormalizeLifecycleReason fallback
      else LifecycleReasonHandlerError)"

section \<open>The host's view of a record\<close>

definition firstNonEmpty :: "string list \<Rightarrow> string" where
  "firstNonEmpty values = (case find (\<lambda>v. TrimSpace v \<noteq> []) values of None \<Rightarrow> [] | Some v \<Rightarrow> v)"

definition lifecycleProjection :: "mb_record \<Rightarrow> string \<times> string" where
  "lifecycleProjection r =
     (let lost = (NormalizeLifecycleReason (m_LastError r) = LifecycleReasonLeaseExpired) in
      (case m_State r of
         StateQueued \<Rightarrow>
           (if lost then ''lease_lost'' else if TrimSpace (m_LastError r) \<noteq> [] then ''retry'' else ''admitted'', [])
       | StateInFlight \<Rightarrow> (''leased'', [])
       | StateAcked \<Rightarrow> (''ack'', ''acked'')
       | StateNacked \<Rightarrow> (if lost then ''lease_lost'' else ''nack'', [])
       | StateDeadLetter \<Rightarrow> (''dlq'', ''dead_letter'')
       | StateExpired \<Rightarrow> (''timeout'', ''expired'')
       | StateOther _ \<Rightarrow> ([], [])))"

definition emptyBinding :: host_plan_binding where
  "emptyBinding =
     \<lparr>hb_ContractVersion = [], hb_MessageID = [], hb_IdempotencyKey = [], hb_RunID = [], hb_ParentRunID = [],
      hb_CausationID = [], hb_AuthorityDigest = [], hb_PlanDigest = [], hb_WriteScope = [],
      hb_EffectNamespace = [], hb_Occurrence = [], hb_HostCorrelation = [], hb_ResourceLimit = 0\<rparr>"

definition hostPlanOutcome :: "host_plan_binding \<Rightarrow> publish_result \<Rightarrow> host_plan_outcome" where
  "hostPlanOutcome b published =
     (let r = pr_Record published; (lifecycleResult, terminalOutcome) = lifecycleProjection r in
      \<lparr>ho_MessageID = e_MessageID (m_Envelope r), ho_RunID = hb_RunID b, ho_DeliveryID = m_DeliveryID r,
       ho_LeaseID = m_LeaseID r,
       ho_DeliveryLeaseID =
         (if m_DeliveryID r \<noteq> [] \<or> m_LeaseID r \<noteq> [] then m_DeliveryID r @ '':'' @ m_LeaseID r else []),
       ho_AttemptCausation = m_AttemptCausation r, ho_ParentRunID = hb_ParentRunID b,
       ho_CausationID = hb_CausationID b, ho_AuthorityDigest = hb_AuthorityDigest b,
       ho_PlanDigest = hb_PlanDigest b, ho_WriteScope = hb_WriteScope b,
       ho_EffectNamespace = hb_EffectNamespace b, ho_Occurrence = hb_Occurrence b,
       ho_HostCorrelation = hb_HostCorrelation b, ho_DeliveryAttempt = m_DeliveryAttempt r,
       ho_LifecycleState = m_State r, ho_LifecycleResult = lifecycleResult,
       ho_LifecycleReason = firstNonEmpty [m_DeadLetterReason r, m_LastError r],
       ho_TerminalOutcome = terminalOutcome, ho_Duplicate = pr_Duplicate published\<rparr>)"

definition HostPlanOutcomeFromRecord :: "mb_record \<Rightarrow> host_plan_outcome option" where
  "HostPlanOutcomeFromRecord r =
     map_option (\<lambda>b. hostPlanOutcome b \<lparr>pr_Record = r, pr_Duplicate = False\<rparr>) (e_HostPlanBinding (m_Envelope r))"

section \<open>Normal forms\<close>

lemma trimEnvelope_idem [simp]: "trimEnvelope (trimEnvelope e) = trimEnvelope e"
  by (simp add: trimEnvelope_def)

lemma trimBinding_idem [simp]: "trimBinding (trimBinding b) = trimBinding b"
  by (simp add: trimBinding_def)

lemma normalizeHostPlanBinding_idem:
  "normalizeHostPlanBinding b = Ok b' \<Longrightarrow> normalizeHostPlanBinding b' = Ok b'"
  by (auto simp: normalizeHostPlanBinding_def Let_def split: if_splits)

lemma map_sum_Ok: "map_sum id f x = Ok y \<longleftrightarrow> (\<exists>z. x = Ok z \<and> y = f z)"
  by (cases x) auto

text \<open>A record's envelope is its own normal form.\<close>

definition wf_envelope :: "envelope \<Rightarrow> bool" where
  "wf_envelope e \<longleftrightarrow> normalizeEnvelope e = Ok e"

lemma wf_envelope_iff:
  "wf_envelope e \<longleftrightarrow>
     trimEnvelope e = e \<and> e_MessageID e \<noteq> [] \<and> e_IdempotencyKey e \<noteq> [] \<and> e_Kind e \<in> {KindCommand, KindEvent, KindResult}
     \<and> (\<forall>b. e_HostPlanBinding e = Some b \<longrightarrow> normalizeHostPlanBinding b = Ok b)"
proof -
  have same: "(trimEnvelope e)\<lparr>e_HostPlanBinding := b\<rparr> = e \<longleftrightarrow> trimEnvelope e = e \<and> b = e_HostPlanBinding e" for b
    by (cases e) (auto simp: trimEnvelope_def)
  have binding: "e_HostPlanBinding (trimEnvelope e) = e_HostPlanBinding e" "e_Kind (trimEnvelope e) = e_Kind e"
    by (simp_all add: trimEnvelope_def)
  show ?thesis
    by (cases "e_HostPlanBinding e")
      (auto simp: wf_envelope_def normalizeEnvelope_def Let_def same binding map_sum_Ok split: sum.splits)
qed

lemma normalizeEnvelope_wf: "normalizeEnvelope e = Ok n \<Longrightarrow> wf_envelope n"
proof -
  assume "normalizeEnvelope e = Ok n"
  then obtain b where n: "n = (trimEnvelope e)\<lparr>e_HostPlanBinding := b\<rparr>" "\<forall>c. b = Some c \<longrightarrow> normalizeHostPlanBinding c = Ok c"
      "e_MessageID n \<noteq> []" "e_IdempotencyKey n \<noteq> []" "e_Kind n \<in> {KindCommand, KindEvent, KindResult}"
    by (auto simp: normalizeEnvelope_def Let_def map_sum_Ok normalizeHostPlanBinding_idem
        split: if_splits sum.splits option.splits)
  have "trimEnvelope ((trimEnvelope e)\<lparr>e_HostPlanBinding := b\<rparr>) = (trimEnvelope e)\<lparr>e_HostPlanBinding := b\<rparr>"
    by (simp add: trimEnvelope_def)
  then show ?thesis unfolding wf_envelope_iff using n by simp
qed

lemma wf_envelope_trimmed:
  assumes "wf_envelope e"
  shows "trimmed (e_MessageID e)" "trimmed (e_IdempotencyKey e)"
proof -
  have "e_MessageID (trimEnvelope e) = e_MessageID e" "e_IdempotencyKey (trimEnvelope e) = e_IdempotencyKey e"
    using assms by (simp_all add: wf_envelope_iff)
  then show "trimmed (e_MessageID e)" "trimmed (e_IdempotencyKey e)" by (simp_all add: trimEnvelope_def trimmed_iff)
qed

lemma wf_envelope_attempt:
  assumes "wf_envelope e" "0 \<le> k"
  shows "wf_envelope (e\<lparr>e_Attempt := k\<rparr>)"
proof -
  have "trimEnvelope (e\<lparr>e_Attempt := k\<rparr>) = (trimEnvelope e)\<lparr>e_Attempt := k\<rparr>" using assms(2) by (simp add: trimEnvelope_def)
  then show ?thesis using assms(1) by (simp add: wf_envelope_iff)
qed

lemma wf_envelope_expiry:
  assumes "wf_envelope e"
  shows "wf_envelope (e\<lparr>e_ExpireAt := t\<rparr>)"
proof -
  have "trimEnvelope (e\<lparr>e_ExpireAt := t\<rparr>) = (trimEnvelope e)\<lparr>e_ExpireAt := t\<rparr>" by (simp add: trimEnvelope_def)
  then show ?thesis using assms by (simp add: wf_envelope_iff)
qed

definition policy_ok :: "mb_policy \<Rightarrow> bool" where
  "policy_ok p \<longleftrightarrow>
     0 < po_MaxAttempts p \<and> 0 < po_BackoffInitial p \<and> po_BackoffInitial p \<le> po_BackoffMax p
     \<and> \<not> f64_less (po_JitterRatio p) (F64 0) \<and> \<not> f64_less (F64 1) (po_JitterRatio p) \<and> 0 \<le> po_TTL p"

lemma policy_ok_fix: "policy_ok p \<Longrightarrow> normalizePolicy p = p"
  by (simp add: policy_ok_def normalizePolicy_def)

lemma clamp_ratio:
  "\<not> f64_less (if f64_less (F64 1) (if f64_less r (F64 0) then F64 0 else r) then F64 1
                else if f64_less r (F64 0) then F64 0 else r) (F64 0)"
  "\<not> f64_less (F64 1) (if f64_less (F64 1) (if f64_less r (F64 0) then F64 0 else r) then F64 1
                else if f64_less r (F64 0) then F64 0 else r)"
  by (cases r; simp)+

lemma normalizePolicy_ok: "policy_ok (normalizePolicy p)"
proof -
  have f: "po_MaxAttempts (normalizePolicy p) = (if po_MaxAttempts p \<le> 0 then 3 else po_MaxAttempts p)"
    "po_BackoffInitial (normalizePolicy p) = (if po_BackoffInitial p \<le> 0 then 50 * millisecond else po_BackoffInitial p)"
    "po_BackoffInitial (normalizePolicy p) \<le> po_BackoffMax (normalizePolicy p)"
    "po_TTL (normalizePolicy p) = (if po_TTL p < 0 then 0 else po_TTL p)"
    "po_JitterRatio (normalizePolicy p) =
       (if f64_less (F64 1) (if f64_less (po_JitterRatio p) (F64 0) then F64 0 else po_JitterRatio p) then F64 1
        else if f64_less (po_JitterRatio p) (F64 0) then F64 0 else po_JitterRatio p)"
    by (simp_all add: normalizePolicy_def Let_def millisecond_def)
  show ?thesis
    unfolding policy_ok_def f(1,2,4,5) using f(2,3) clamp_ratio [of "po_JitterRatio p"] by (simp add: millisecond_def)
qed

lemma normalizePolicy_idem [simp]: "normalizePolicy (normalizePolicy p) = normalizePolicy p"
  by (rule policy_ok_fix [OF normalizePolicy_ok])

text \<open>Canonical reasons are what canonicalisation returns, and it leaves them alone.\<close>

lemma NormalizeLifecycleReason_canonical:
  "r \<in> set LifecycleCanonicalReasons \<Longrightarrow> NormalizeLifecycleReason r = r"
proof -
  have "\<forall>r \<in> set LifecycleCanonicalReasons. NormalizeLifecycleReason r = r" by code_simp
  then show "r \<in> set LifecycleCanonicalReasons \<Longrightarrow> NormalizeLifecycleReason r = r" by blast
qed

lemma trimmed_canonical: "r \<in> set LifecycleCanonicalReasons \<Longrightarrow> trimmed r \<and> r \<noteq> []"
proof -
  have "\<forall>r \<in> set LifecycleCanonicalReasons. TrimSpace r = r \<and> r \<noteq> []" by code_simp
  then show "r \<in> set LifecycleCanonicalReasons \<Longrightarrow> trimmed r \<and> r \<noteq> []" by (auto simp: trimmed_iff)
qed

lemma Canonicalize_fix: "r \<in> set LifecycleCanonicalReasons \<Longrightarrow> CanonicalizeLifecycleReason r f = r"
  by (simp add: CanonicalizeLifecycleReason_def IsCanonicalLifecycleReason_def NormalizeLifecycleReason_canonical)

lemma handler_error_canonical: "LifecycleReasonHandlerError \<in> set LifecycleCanonicalReasons"
  by (simp add: LifecycleCanonicalReasons_def)

end
