(* ===== verification/Mailbox_State.thy ===== *)
theory Mailbox_State
  imports Mailbox_Types
begin

text \<open>
  The mailbox state and its operations (\<open>src/orchestration/mailbox/state.go\<close>), with the journal
  they write (\<open>history.go\<close>). Every operation takes \<open>clk\<close>, the reading of the clock during the
  call, and returns its Go result and the state it leaves. The random source id of a new journal is
  an argument.
\<close>

section \<open>The journal\<close>

record history_entry =
  he_Sequence :: "64 word"
  he_Transition :: string
  he_Time :: time
  he_Outcome :: host_plan_outcome
  he_Reclaimed :: bool

record history_journal =
  hj_Version :: string
  hj_SourceID :: string
  hj_Sequence :: "64 word"
  hj_Floor :: "64 word"
  hj_Entries :: "history_entry list"
  hj_Unavailable :: bool

abbreviation HistoryVersion :: string where "HistoryVersion \<equiv> ''mailbox.history.v1''"
abbreviation HistoryRetentionEntries :: nat where "HistoryRetentionEntries \<equiv> 1024"
abbreviation MaxHistoryReferenceBytes :: nat where "MaxHistoryReferenceBytes \<equiv> 1024"

definition newHistoryJournal :: "string \<Rightarrow> history_journal" where
  "newHistoryJournal source =
     \<lparr>hj_Version = HistoryVersion, hj_SourceID = source, hj_Sequence = 0, hj_Floor = 0, hj_Entries = [],
      hj_Unavailable = False\<rparr>"

definition outcomeStrings :: "host_plan_outcome \<Rightarrow> string list" where
  "outcomeStrings h =
     [ho_MessageID h, ho_RunID h, ho_DeliveryID h, ho_LeaseID h, ho_DeliveryLeaseID h, ho_AttemptCausation h,
      ho_ParentRunID h, ho_CausationID h, ho_AuthorityDigest h, ho_PlanDigest h, ho_WriteScope h,
      ho_EffectNamespace h, ho_Occurrence h, ho_HostCorrelation h, ho_LifecycleResult h, ho_LifecycleReason h,
      ho_TerminalOutcome h]"

definition validHistoryEntry :: "history_entry \<Rightarrow> bool" where
  "validHistoryEntry x \<longleftrightarrow>
     list_all (\<lambda>v. ValidString v \<and> length v \<le> MaxHistoryReferenceBytes)
       (he_Transition x # outcomeStrings (he_Outcome x))
     \<and> ho_MessageID (he_Outcome x) \<noteq> [] \<and> \<not> IsZero (he_Time x)"

datatype history_source_kind =
    HistorySourceRunner | HistorySourceChild | HistorySourceTeam | HistorySourceWorkflow | HistorySourceMailbox
  | HistorySourceOther string

record source_ref =
  sr_Kind :: history_source_kind
  sr_Namespace :: string
  sr_ID :: string

definition validReference :: "string \<Rightarrow> bool" where
  "validReference v \<longleftrightarrow> ValidString v \<and> TrimSpace v \<noteq> [] \<and> length v \<le> MaxHistoryReferenceBytes"

definition validSource :: "source_ref \<Rightarrow> bool" where
  "validSource s \<longleftrightarrow>
     sr_Kind s \<in> {HistorySourceRunner, HistorySourceChild, HistorySourceTeam, HistorySourceWorkflow, HistorySourceMailbox}
     \<and> validReference (sr_Namespace s) \<and> validReference (sr_ID s)"

definition journalSource :: "history_journal \<Rightarrow> source_ref" where
  "journalSource h = \<lparr>sr_Kind = HistorySourceMailbox, sr_Namespace = HistoryVersion, sr_ID = hj_SourceID h\<rparr>"

fun validEntries :: "64 word \<Rightarrow> 64 word \<Rightarrow> history_entry list \<Rightarrow> bool" where
  "validEntries previous sequence [] = True"
| "validEntries previous sequence (x # xs) =
     (\<not> (he_Sequence x \<le> previous \<or> sequence < he_Sequence x \<or> \<not> validHistoryEntry x)
      \<and> validEntries (he_Sequence x) sequence xs)"

definition validJournal :: "history_journal \<Rightarrow> bool" where
  "validJournal h \<longleftrightarrow>
     \<not> (hj_Version h \<noteq> HistoryVersion \<or> \<not> validSource (journalSource h) \<or> hj_Sequence h < hj_Floor h
        \<or> HistoryRetentionEntries < length (hj_Entries h))
     \<and> validEntries (hj_Floor h) (hj_Sequence h) (hj_Entries h)"

definition historyOutcome :: "string \<Rightarrow> mb_record \<Rightarrow> string \<Rightarrow> host_plan_outcome" where
  "historyOutcome transition r reason =
     (let b = (case e_HostPlanBinding (m_Envelope r) of None \<Rightarrow> emptyBinding | Some b \<Rightarrow> b);
          o0 = hostPlanOutcome b \<lparr>pr_Record = r, pr_Duplicate = False\<rparr>;
          o1 = (if ho_LifecycleReason o0 \<noteq> []
                then o0\<lparr>ho_LifecycleReason := CanonicalizeLifecycleReason (ho_LifecycleReason o0) LifecycleReasonHandlerError\<rparr>
                else o0);
          o2 = (if ho_MessageID o1 = [] then o1\<lparr>ho_MessageID := e_MessageID (m_Envelope r)\<rparr> else o1);
          o3 = (if ho_RunID o2 = [] then o2\<lparr>ho_RunID := e_RunID (m_Envelope r)\<rparr> else o2);
          o4 = (if ho_HostCorrelation o3 = [] then o3\<lparr>ho_HostCorrelation := e_CorrelationID (m_Envelope r)\<rparr> else o3);
          o5 = (if transition = ''admit'' then o4\<lparr>ho_LifecycleResult := ''admitted''\<rparr> else o4)
      in if reason \<noteq> []
         then o5\<lparr>ho_LifecycleReason := CanonicalizeLifecycleReason reason LifecycleReasonHandlerError\<rparr>
         else o5)"

definition appendJournal :: "string \<Rightarrow> mb_record \<Rightarrow> string \<Rightarrow> action_options \<Rightarrow> history_journal \<Rightarrow> history_journal" where
  "appendJournal transition r reason opts h =
     (if hj_Unavailable h then h
      else
        let sequence = hj_Sequence h + 1;
            entry = \<lparr>he_Sequence = sequence, he_Transition = transition, he_Time = m_UpdatedAt r,
                     he_Outcome = historyOutcome transition r reason, he_Reclaimed = ao_Reclaimed opts\<rparr>;
            h1 = h\<lparr>hj_Sequence := sequence\<rparr>
        in if \<not> validHistoryEntry entry then h1\<lparr>hj_Unavailable := True\<rparr>
           else
             let entries = hj_Entries h @ [entry]
             in if HistoryRetentionEntries < length entries
                then h1\<lparr>hj_Floor := he_Sequence (hd entries), hj_Entries := tl entries\<rparr>
                else h1\<lparr>hj_Entries := entries\<rparr>)"

section \<open>The state\<close>

record mailbox_state =
  mx_History :: history_journal
  mx_Records :: "(string, mb_record) gomap"
  mx_Queue :: "string list"
  mx_Idempotency :: "(string, string) gomap"
  mx_Stats :: mb_stats
  mx_Policy :: mb_policy
  mx_events :: "lifecycle_event list"
  mx_traceEvents :: bool

type_synonym 'a mb_op = "mailbox_state \<Rightarrow> (mb_error, 'a) result \<times> mailbox_state"

definition emptyMbStats :: mb_stats where
  "emptyMbStats =
     \<lparr>mt_Backend = [], mt_BackendFallback = False, mt_BackendFallbackReason = [], mt_QueueTotal = 0,
      mt_InFlightTotal = 0, mt_PublishedTotal = 0, mt_DuplicatePublishTotal = 0, mt_ConsumedTotal = 0,
      mt_AckTotal = 0, mt_NackTotal = 0, mt_RequeueTotal = 0, mt_ExpiredTotal = 0, mt_DeadLetterTotal = 0\<rparr>"

definition newMailboxState :: "string \<Rightarrow> string \<Rightarrow> mb_policy \<Rightarrow> mailbox_state" where
  "newMailboxState source backend policy =
     \<lparr>mx_History = newHistoryJournal source, mx_Records = fmempty, mx_Queue = [], mx_Idempotency = fmempty,
      mx_Stats = emptyMbStats\<lparr>mt_Backend := TrimSpace backend\<rparr>, mx_Policy = normalizePolicy policy,
      mx_events = [], mx_traceEvents = False\<rparr>"

definition setFallback :: "string \<Rightarrow> mailbox_state \<Rightarrow> mailbox_state" where
  "setFallback reason s =
     s\<lparr>mx_Stats := (mx_Stats s)\<lparr>mt_BackendFallback := True, mt_BackendFallbackReason := TrimSpace reason\<rparr>\<rparr>"

definition setTraceEvents :: "bool \<Rightarrow> mailbox_state \<Rightarrow> mailbox_state" where
  "setTraceEvents enabled s =
     s\<lparr>mx_traceEvents := enabled, mx_events := (if enabled then mx_events s else [])\<rparr>"

definition drainLifecycleEvents :: "mailbox_state \<Rightarrow> lifecycle_event list \<times> mailbox_state" where
  "drainLifecycleEvents s = (mx_events s, s\<lparr>mx_events := []\<rparr>)"

definition appendHistory :: "string \<Rightarrow> mb_record \<Rightarrow> string \<Rightarrow> action_options \<Rightarrow> mailbox_state \<Rightarrow> mailbox_state" where
  "appendHistory transition r reason opts s =
     s\<lparr>mx_History := appendJournal transition r reason opts (mx_History s)\<rparr>"

text \<open>The reason code of an event; the code's two fallbacks for an empty code never apply.\<close>

definition eventReason :: "lifecycle_transition \<Rightarrow> string \<Rightarrow> string" where
  "eventReason transition reason =
     (let code = (if transition \<in> {TransitionNack, TransitionRequeue, TransitionDeadLetter, TransitionExpired}
                  then CanonicalizeLifecycleReason reason LifecycleReasonHandlerError else []);
          code = (if transition = TransitionDeadLetter \<and> TrimSpace code = [] then LifecycleReasonRetryExhausted else code)
      in if transition = TransitionExpired \<and> TrimSpace code = [] then LifecycleReasonExpired else code)"

definition emitLifecycleEvent ::
  "time \<Rightarrow> lifecycle_transition \<Rightarrow> mb_record \<Rightarrow> string \<Rightarrow> action_options \<Rightarrow> mailbox_state \<Rightarrow> mailbox_state" where
  "emitLifecycleEvent clk transition r reason opts s0 =
     (let s = appendHistory (transition_string transition) r reason opts s0 in
      if \<not> mx_traceEvents s then s
      else
        s\<lparr>mx_events := mx_events s @
            [\<lparr>le_Time = resolve_now clk (m_UpdatedAt r), le_Transition = transition, le_Record = r,
              le_ReasonCode = eventReason transition reason, le_Reclaimed = ao_Reclaimed opts,
              le_PanicRecovered = ao_PanicRecovered opts\<rparr>]\<rparr>)"

section \<open>Record helpers\<close>

definition putRecord :: "string \<Rightarrow> mb_record \<Rightarrow> mailbox_state \<Rightarrow> mailbox_state" where
  "putRecord mid r s = s\<lparr>mx_Records := fmupd mid r (mx_Records s)\<rparr>"

definition clearLease :: "mb_record \<Rightarrow> mb_record" where
  "clearLease r = r\<lparr>m_InFlightSince := 0, m_LastHeartbeatAt := 0, m_LeaseExpiresAt := 0\<rparr>"

definition isRecordExpired :: "mb_record \<Rightarrow> time \<Rightarrow> bool" where
  "isRecordExpired r now \<longleftrightarrow> \<not> IsZero (e_ExpireAt (m_Envelope r)) \<and> \<not> now < e_ExpireAt (m_Envelope r)"

definition leaseExpired :: "mb_record \<Rightarrow> time \<Rightarrow> duration \<Rightarrow> bool" where
  "leaseExpired r now inflightTimeout \<longleftrightarrow>
     m_State r = StateInFlight
     \<and> (if IsZero (m_LeaseExpiresAt r)
        then
          let base = (if IsZero (m_LastHeartbeatAt r) then m_InFlightSince r else m_LastHeartbeatAt r);
              base = (if IsZero base then m_UpdatedAt r else base)
          in \<not> IsZero base \<and> \<not> now < base + inflightTimeout
        else \<not> now < m_LeaseExpiresAt r)"

definition deadLetterReason :: "string \<Rightarrow> string \<Rightarrow> string" where
  "deadLetterReason code reason =
     (if TrimSpace reason = [] then TrimSpace code else TrimSpace code @ '':'' @ TrimSpace reason)"

definition stableJitterSeed :: "string \<Rightarrow> int \<Rightarrow> int" where
  "stableJitterSeed messageID attempt = fnv1a_seed (TrimSpace messageID @ ''|'' @ Itoa attempt)"

text \<open>The doubling loop of \<open>retryDelay\<close>, for the given number of rounds.\<close>

fun doubleDelay :: "nat \<Rightarrow> duration \<Rightarrow> duration \<Rightarrow> duration" where
  "doubleDelay 0 limit delay = delay"
| "doubleDelay (Suc n) limit delay =
     (let next = f64_to_int64 (f64_mul (f64_of_int delay) (F64 2))
      in if limit < next then limit else doubleDelay n limit next)"

definition mb_retryDelay :: "mb_policy \<Rightarrow> string \<Rightarrow> int \<Rightarrow> duration" where
  "mb_retryDelay policy0 messageID attempt =
     (let policy = normalizePolicy policy0 in
      if po_BackoffInitial policy \<le> 0 then 0
      else if attempt \<le> 1 then po_BackoffInitial policy
      else
        let delay = doubleDelay (nat (attempt - 1)) (po_BackoffMax policy) (po_BackoffInitial policy) in
        if f64_le (po_JitterRatio policy) (F64 0) then delay
        else
          let window = f64_to_int64 (f64_mul (f64_of_int delay) (po_JitterRatio policy)) in
          if window \<le> 0 then delay
          else
            let shifted = wrap64 (delay + jitter_offset (stableJitterSeed messageID attempt) window);
                shifted = (if shifted < 0 then 0 else shifted)
            in if po_BackoffMax policy < shifted then po_BackoffMax policy else shifted)"

section \<open>Publish\<close>

definition bumpDuplicatePublish :: "mailbox_state \<Rightarrow> mailbox_state" where
  "bumpDuplicatePublish s =
     s\<lparr>mx_Stats := (mx_Stats s)\<lparr>mt_DuplicatePublishTotal := mt_DuplicatePublishTotal (mx_Stats s) + 1\<rparr>\<rparr>"

definition publishDuplicate :: "envelope \<Rightarrow> mb_record \<Rightarrow> publish_result mb_op" where
  "publishDuplicate n existing s =
     (if e_DispatchBinding (m_Envelope existing) \<noteq> e_DispatchBinding n then (Err MErrDispatchBindingMismatch, s)
      else (Ok \<lparr>pr_Record = existing, pr_Duplicate = True\<rparr>, bumpDuplicatePublish s))"

definition newMbRecord :: "envelope \<Rightarrow> time \<Rightarrow> mb_record" where
  "newMbRecord e now =
     \<lparr>m_Envelope = e, m_State = StateQueued, m_DeliveryID = [], m_LeaseID = [], m_ConsumerID = [],
      m_DeliveryAttempt = 0, m_AttemptCausation = [], m_InFlightSince = 0, m_LastHeartbeatAt = 0,
      m_LeaseExpiresAt = 0, m_NextEligibleAt = 0, m_LastError = [], m_DeadLetterReason = [],
      m_CreatedAt = now, m_UpdatedAt = now\<rparr>"

definition publishNew :: "envelope \<Rightarrow> time \<Rightarrow> publish_result mb_op" where
  "publishNew n0 now s =
     (let n = (if IsZero (e_ExpireAt n0) \<and> 0 < po_TTL (mx_Policy s)
               then n0\<lparr>e_ExpireAt := now + po_TTL (mx_Policy s)\<rparr> else n0);
          r = newMbRecord n now;
          s1 = putRecord (e_MessageID n) r s
                 \<lparr>mx_Queue := mx_Queue s @ [e_MessageID n],
                  mx_Idempotency := fmupd (e_IdempotencyKey n) (e_MessageID n) (mx_Idempotency s),
                  mx_Stats := (mx_Stats s)\<lparr>mt_PublishedTotal := mt_PublishedTotal (mx_Stats s) + 1,
                                           mt_QueueTotal := mt_QueueTotal (mx_Stats s) + 1\<rparr>\<rparr>
      in (Ok \<lparr>pr_Record = r, pr_Duplicate = False\<rparr>, appendHistory ''admit'' r [] noOptions s1))"

definition publish :: "time \<Rightarrow> envelope \<Rightarrow> time \<Rightarrow> publish_result mb_op" where
  "publish clk e now s =
     (case normalizeEnvelope e of
        Inl err \<Rightarrow> (Err err, s)
      | Inr n \<Rightarrow>
          (case Option.bind (fmlookup (mx_Idempotency s) (e_IdempotencyKey n)) (fmlookup (mx_Records s)) of
             Some existing \<Rightarrow> publishDuplicate n existing s
           | None \<Rightarrow>
               (case fmlookup (mx_Records s) (e_MessageID n) of
                  Some existing \<Rightarrow> publishDuplicate n existing s
                | None \<Rightarrow> publishNew n (resolve_now clk now) s)))"

section \<open>Settling a message\<close>

text \<open>\<open>requireInflightRecord\<close>: the record, if there is one, and the error, if any.\<close>

definition requireInflightRecord :: "string \<Rightarrow> string \<Rightarrow> mailbox_state \<Rightarrow> mb_record option \<times> mb_error option" where
  "requireInflightRecord messageID consumerID s =
     (case fmlookup (mx_Records s) (TrimSpace messageID) of
        None \<Rightarrow> (None, Some MErrMessageNotFound)
      | Some r \<Rightarrow>
          (Some r,
           if m_State r \<noteq> StateInFlight then Some MErrMessageNotInflight
           else if TrimSpace consumerID \<noteq> [] \<and> m_ConsumerID r \<noteq> TrimSpace consumerID then Some MErrConsumerMismatch
           else None))"

definition mb_heartbeat :: "time \<Rightarrow> string \<Rightarrow> string \<Rightarrow> time \<Rightarrow> duration \<Rightarrow> mb_record mb_op" where
  "mb_heartbeat clk messageID consumerID now0 inflightTimeout s =
     (case requireInflightRecord messageID consumerID s of
        (Some r, None) \<Rightarrow>
          let now = resolve_now clk now0;
              r1 = r\<lparr>m_LastHeartbeatAt := now,
                     m_InFlightSince := (if IsZero (m_InFlightSince r) then now else m_InFlightSince r),
                     m_LeaseExpiresAt := (if 0 < inflightTimeout then now + inflightTimeout else m_LeaseExpiresAt r),
                     m_UpdatedAt := now\<rparr>
          in (Ok r1, putRecord (TrimSpace messageID) r1 s)
      | (_, Some e) \<Rightarrow> (Err e, s)
      | (None, None) \<Rightarrow> (Err MErrMessageNotFound, s))"

definition leaveInFlight :: "mb_stats \<Rightarrow> mb_stats" where
  "leaveInFlight st = st\<lparr>mt_InFlightTotal := max 0 (mt_InFlightTotal st - 1)\<rparr>"

definition ack :: "time \<Rightarrow> string \<Rightarrow> string \<Rightarrow> time \<Rightarrow> mb_record mb_op" where
  "ack clk messageID consumerID now s =
     (case requireInflightRecord messageID consumerID s of
        (Some r, None) \<Rightarrow>
          let r1 = (clearLease (r\<lparr>m_State := StateAcked\<rparr>))\<lparr>m_UpdatedAt := resolve_now clk now\<rparr>;
              st = leaveInFlight ((mx_Stats s)\<lparr>mt_AckTotal := mt_AckTotal (mx_Stats s) + 1\<rparr>)
          in (Ok r1,
              emitLifecycleEvent clk TransitionAck r1 [] noOptions
                (putRecord (TrimSpace messageID) r1 s\<lparr>mx_Stats := st\<rparr>))
      | (Some r, Some e) \<Rightarrow> if m_State r = StateAcked then (Ok r, s) else (Err e, s)
      | (None, _) \<Rightarrow> (Err MErrMessageNotFound, s))"

definition nackRecord :: "string \<Rightarrow> mb_record \<Rightarrow> mb_record" where
  "nackRecord reasonCode r = (clearLease (r\<lparr>m_State := StateNacked\<rparr>))\<lparr>m_LastError := reasonCode\<rparr>"

definition nackStats :: "mb_stats \<Rightarrow> mb_stats" where
  "nackStats st = leaveInFlight (st\<lparr>mt_NackTotal := mt_NackTotal st + 1\<rparr>)"

text \<open>A message that has used up its deliveries becomes a dead letter.\<close>

definition deadLetter :: "time \<Rightarrow> string \<Rightarrow> string \<Rightarrow> mb_record \<Rightarrow> action_options \<Rightarrow> mailbox_state \<Rightarrow> mb_record \<times> mailbox_state" where
  "deadLetter clk mid reasonCode r opts s =
     (let r1 = r\<lparr>m_State := StateDeadLetter, m_DeadLetterReason := deadLetterReason LifecycleReasonRetryExhausted reasonCode\<rparr>
      in (r1,
          emitLifecycleEvent clk TransitionDeadLetter r1 LifecycleReasonRetryExhausted opts
            (putRecord mid r1 s
               \<lparr>mx_Stats := (mx_Stats s)\<lparr>mt_DeadLetterTotal := mt_DeadLetterTotal (mx_Stats s) + 1\<rparr>\<rparr>)))"

definition nack :: "time \<Rightarrow> string \<Rightarrow> string \<Rightarrow> string \<Rightarrow> time \<Rightarrow> action_options \<Rightarrow> mb_record mb_op" where
  "nack clk messageID consumerID reason now opts s =
     (case requireInflightRecord messageID consumerID s of
        (Some r, None) \<Rightarrow>
          let mid = TrimSpace messageID;
              reasonCode = CanonicalizeLifecycleReason reason LifecycleReasonHandlerError;
              r1 = (nackRecord reasonCode r)\<lparr>m_UpdatedAt := resolve_now clk now\<rparr>;
              s1 = emitLifecycleEvent clk TransitionNack r1 reasonCode opts
                     (putRecord mid r1 s\<lparr>mx_Stats := nackStats (mx_Stats s)\<rparr>)
          in if po_MaxAttempts (mx_Policy s) \<le> m_DeliveryAttempt r1 \<and> po_DLQEnabled (mx_Policy s)
             then (case deadLetter clk mid reasonCode r1 opts s1 of (r2, s2) \<Rightarrow> (Ok r2, s2))
             else (Ok r1, s1)
      | (Some r, Some e) \<Rightarrow>
          if m_State r \<in> {StateNacked, StateDeadLetter, StateExpired} then (Ok r, s) else (Err e, s)
      | (None, _) \<Rightarrow> (Err MErrMessageNotFound, s))"

text \<open>The second half of \<open>requeue\<close>: a nacked message is retried, or given up when its deliveries are used up.\<close>

definition retryMessage :: "time \<Rightarrow> string \<Rightarrow> string \<Rightarrow> time \<Rightarrow> action_options \<Rightarrow> mb_record \<Rightarrow> mailbox_state \<Rightarrow> mb_record \<times> mailbox_state" where
  "retryMessage clk mid reasonCode now opts r s =
     (if po_MaxAttempts (mx_Policy s) \<le> m_DeliveryAttempt r
      then
        (if po_DLQEnabled (mx_Policy s)
         then deadLetter clk mid reasonCode (r\<lparr>m_UpdatedAt := now\<rparr>) opts s
         else
           let r1 = r\<lparr>m_State := StateExpired,
                      m_DeadLetterReason := deadLetterReason LifecycleReasonRetryExhausted reasonCode, m_UpdatedAt := now\<rparr>
           in (r1,
               emitLifecycleEvent clk TransitionExpired r1 LifecycleReasonRetryExhausted opts
                 (putRecord mid r1 s
                    \<lparr>mx_Stats := (mx_Stats s)\<lparr>mt_ExpiredTotal := mt_ExpiredTotal (mx_Stats s) + 1\<rparr>\<rparr>)))
      else
        let r1 = (clearLease (r\<lparr>m_State := StateQueued\<rparr>))
                   \<lparr>m_NextEligibleAt := now + mb_retryDelay (mx_Policy s) (e_MessageID (m_Envelope r)) (m_DeliveryAttempt r),
                    m_ConsumerID := [], m_UpdatedAt := now\<rparr>
        in (r1,
            emitLifecycleEvent clk TransitionRequeue r1 reasonCode opts
              (putRecord mid r1 s
                 \<lparr>mx_Queue := mx_Queue s @ [e_MessageID (m_Envelope r1)],
                  mx_Stats := (mx_Stats s)\<lparr>mt_QueueTotal := mt_QueueTotal (mx_Stats s) + 1,
                                           mt_RequeueTotal := mt_RequeueTotal (mx_Stats s) + 1\<rparr>\<rparr>)))"

definition mb_requeue :: "time \<Rightarrow> string \<Rightarrow> string \<Rightarrow> string \<Rightarrow> time \<Rightarrow> action_options \<Rightarrow> mb_record mb_op" where
  "mb_requeue clk messageID consumerID0 reason now opts s =
     (let mid = TrimSpace messageID; consumerID = TrimSpace consumerID0;
          reasonCode = CanonicalizeLifecycleReason reason LifecycleReasonHandlerError in
      (case fmlookup (mx_Records s) mid of
         None \<Rightarrow> (Err MErrMessageNotFound, s)
       | Some r \<Rightarrow>
           (case m_State r of
              StateInFlight \<Rightarrow>
                if consumerID \<noteq> [] \<and> m_ConsumerID r \<noteq> consumerID then (Err MErrConsumerMismatch, s)
                else
                  let r1 = nackRecord reasonCode r;
                      s1 = emitLifecycleEvent clk TransitionNack r1 reasonCode opts
                             (putRecord mid r1 s\<lparr>mx_Stats := nackStats (mx_Stats s)\<rparr>)
                  in (case retryMessage clk mid reasonCode (resolve_now clk now) opts r1 s1 of (r2, s2) \<Rightarrow> (Ok r2, s2))
            | StateNacked \<Rightarrow>
                (case retryMessage clk mid reasonCode (resolve_now clk now) opts r s of (r2, s2) \<Rightarrow> (Ok r2, s2))
            | _ \<Rightarrow> (Err MErrMessageNotInflight, s))))"

section \<open>Consume\<close>

definition expireRecord :: "time \<Rightarrow> string \<Rightarrow> mb_record \<Rightarrow> time \<Rightarrow> mailbox_state \<Rightarrow> mailbox_state" where
  "expireRecord clk mid r0 now s =
     (let r = r0\<lparr>m_UpdatedAt := now\<rparr>;
          st = (mx_Stats s)\<lparr>mt_QueueTotal := max 0 (mt_QueueTotal (mx_Stats s) - 1),
                            mt_ExpiredTotal := mt_ExpiredTotal (mx_Stats s) + 1\<rparr>;
          (r1, s1) =
            (if po_DLQEnabled (mx_Policy s)
             then
               let r1 = r\<lparr>m_State := StateDeadLetter, m_DeadLetterReason := deadLetterReason LifecycleReasonExpired []\<rparr>
               in (r1, emitLifecycleEvent clk TransitionDeadLetter r1 LifecycleReasonExpired noOptions
                         (s\<lparr>mx_Stats := st\<lparr>mt_DeadLetterTotal := mt_DeadLetterTotal st + 1\<rparr>\<rparr>))
             else (r\<lparr>m_State := StateExpired\<rparr>, s\<lparr>mx_Stats := st\<rparr>));
          r2 = clearLease r1
      in emitLifecycleEvent clk TransitionExpired r2 LifecycleReasonExpired noOptions (putRecord mid r2 s1))"

fun expireQueuedLoop :: "time \<Rightarrow> time \<Rightarrow> string list \<Rightarrow> mailbox_state \<Rightarrow> (string list \<times> bool) \<times> mailbox_state" where
  "expireQueuedLoop clk now [] s = (([], False), s)"
| "expireQueuedLoop clk now (q # qs) s =
     (let mid = TrimSpace q in
      (case fmlookup (mx_Records s) mid of
         None \<Rightarrow> expireQueuedLoop clk now qs s
       | Some r \<Rightarrow>
           if m_State r \<noteq> StateQueued then expireQueuedLoop clk now qs s
           else if \<not> isRecordExpired r now
           then (case expireQueuedLoop clk now qs s of ((kept, mutated), s1) \<Rightarrow> ((mid # kept, mutated), s1))
           else (case expireQueuedLoop clk now qs (expireRecord clk mid r now s) of
                   ((kept, mutated), s1) \<Rightarrow> ((kept, True), s1))))"

definition expireQueued :: "time \<Rightarrow> time \<Rightarrow> mailbox_state \<Rightarrow> bool \<times> mailbox_state" where
  "expireQueued clk now s =
     (if mx_Queue s = [] then (False, s)
      else (case expireQueuedLoop clk now (mx_Queue s) s of ((kept, mutated), s1) \<Rightarrow> (mutated, s1\<lparr>mx_Queue := kept\<rparr>)))"

text \<open>The in-flight messages whose lease has run out, in the order of their trimmed ids.\<close>

definition staleInFlight :: "time \<Rightarrow> duration \<Rightarrow> mailbox_state \<Rightarrow> string list" where
  "staleInFlight now inflightTimeout s =
     sort (map TrimSpace (filter
       (\<lambda>mid. case fmlookup (mx_Records s) mid of None \<Rightarrow> False | Some r \<Rightarrow> leaseExpired r now inflightTimeout)
       (sorted_keys (mx_Records s))))"

fun reclaimLoop :: "time \<Rightarrow> time \<Rightarrow> string list \<Rightarrow> mailbox_state \<Rightarrow> bool \<times> mailbox_state" where
  "reclaimLoop clk now [] s = (False, s)"
| "reclaimLoop clk now (mid # mids) s =
     (case mb_requeue clk mid [] LifecycleReasonLeaseExpired now \<lparr>ao_Reclaimed = True, ao_PanicRecovered = False\<rparr> s of
        (res, s1) \<Rightarrow> (case reclaimLoop clk now mids s1 of (mutated, s2) \<Rightarrow> (mutated \<or> \<not> isl res, s2)))"

definition reclaimStaleInFlight :: "time \<Rightarrow> time \<Rightarrow> duration \<Rightarrow> mailbox_state \<Rightarrow> bool \<times> mailbox_state" where
  "reclaimStaleInFlight clk now inflightTimeout s =
     (if inflightTimeout \<le> 0 then (False, s)
      else reclaimLoop clk now (staleInFlight now inflightTimeout s) s)"

definition consumable :: "time \<Rightarrow> mailbox_state \<Rightarrow> string \<Rightarrow> bool" where
  "consumable now s q \<longleftrightarrow>
     (case fmlookup (mx_Records s) (TrimSpace q) of
        None \<Rightarrow> False
      | Some r \<Rightarrow>
          m_State r = StateQueued
          \<and> \<not> (\<not> IsZero (e_NotBefore (m_Envelope r)) \<and> now < e_NotBefore (m_Envelope r))
          \<and> \<not> (\<not> IsZero (m_NextEligibleAt r) \<and> now < m_NextEligibleAt r))"

fun firstIndex :: "('a \<Rightarrow> bool) \<Rightarrow> 'a list \<Rightarrow> nat option" where
  "firstIndex P [] = None"
| "firstIndex P (x # xs) = (if P x then Some 0 else map_option Suc (firstIndex P xs))"

definition deliverRecord :: "string \<Rightarrow> time \<Rightarrow> duration \<Rightarrow> mb_record \<Rightarrow> mb_record" where
  "deliverRecord consumerID now inflightTimeout r =
     (let attempt = m_DeliveryAttempt r + 1;
          mid = e_MessageID (m_Envelope r);
          base = (case e_HostPlanBinding (m_Envelope r) of
                    Some b \<Rightarrow> if TrimSpace (hb_CausationID b) \<noteq> [] then hb_CausationID b else mid
                  | None \<Rightarrow> mid)
      in r\<lparr>m_State := StateInFlight, m_ConsumerID := consumerID, m_DeliveryAttempt := attempt,
           m_Envelope := (m_Envelope r)\<lparr>e_Attempt := attempt\<rparr>,
           m_DeliveryID := mid @ '':delivery:'' @ Itoa attempt, m_LeaseID := mid @ '':lease:'' @ Itoa attempt,
           m_AttemptCausation := base @ '':attempt:'' @ Itoa attempt, m_InFlightSince := now,
           m_LastHeartbeatAt := now, m_LeaseExpiresAt := (if 0 < inflightTimeout then now + inflightTimeout else 0),
           m_NextEligibleAt := 0, m_UpdatedAt := now\<rparr>)"

text \<open>The second half of \<open>consume\<close>: the first message that may be delivered is handed over.\<close>

definition takeMessage :: "time \<Rightarrow> string \<Rightarrow> time \<Rightarrow> duration \<Rightarrow> bool \<Rightarrow> (mb_record option \<times> bool) mb_op" where
  "takeMessage clk consumerID now inflightTimeout mutated s =
     (case firstIndex (consumable now s) (mx_Queue s) of
        None \<Rightarrow> (Ok (None, mutated), s)
      | Some selected \<Rightarrow>
          let mid = TrimSpace (mx_Queue s ! selected);
              s1 = s\<lparr>mx_Queue := remove_index selected (mx_Queue s)\<rparr>
          in (case fmlookup (mx_Records s1) mid of
                None \<Rightarrow> (Ok (None, mutated), s1)
              | Some r \<Rightarrow>
                  let r1 = deliverRecord consumerID now inflightTimeout r;
                      st = (mx_Stats s1)
                        \<lparr>mt_QueueTotal := max 0 (mt_QueueTotal (mx_Stats s1) - 1),
                         mt_InFlightTotal := mt_InFlightTotal (mx_Stats s1) + 1,
                         mt_ConsumedTotal := mt_ConsumedTotal (mx_Stats s1) + 1\<rparr>
                  in (Ok (Some r1, True),
                      emitLifecycleEvent clk TransitionConsume r1 [] noOptions (putRecord mid r1 s1\<lparr>mx_Stats := st\<rparr>))))"

text \<open>The result is the delivered record, if any, and whether the state has changed.\<close>

definition consume :: "time \<Rightarrow> string \<Rightarrow> time \<Rightarrow> duration \<Rightarrow> bool \<Rightarrow> (mb_record option \<times> bool) mb_op" where
  "consume clk consumerID0 now0 inflightTimeout reclaimOnConsume s =
     (let consumerID = TrimSpace consumerID0 in
      if consumerID = [] then (Err (MErrInvalid ConsumerIDRequired), s)
      else
        let now = resolve_now clk now0;
            (expired, s1) = expireQueued clk now s;
            (reclaimed, s2) = (if reclaimOnConsume then reclaimStaleInFlight clk now inflightTimeout s1 else (False, s1))
        in takeMessage clk consumerID now inflightTimeout (expired \<or> reclaimed) s2)"

end
