(* ===== verification/Mailbox_Inv.thy ===== *)
theory Mailbox_Inv
  imports Mailbox_State
begin

text \<open>
  The invariant of the mailbox state: what every record satisfies, how the queue, the idempotency
  index and the counters follow from the records, and that every operation of \<open>Mailbox_State\<close> keeps
  this.
\<close>

named_theorems mb_frame \<open>what the journal and the event trace leave unchanged\<close>

section \<open>The invariant\<close>

definition stateIds :: "message_state \<Rightarrow> (string, mb_record) gomap \<Rightarrow> string set" where
  "stateIds st m = {i. \<exists>r. fmlookup m i = Some r \<and> m_State r = st}"

definition countIn :: "message_state \<Rightarrow> (string, mb_record) gomap \<Rightarrow> int" where
  "countIn st m = int (card (stateIds st m))"

definition countAll :: "(string, mb_record) gomap \<Rightarrow> int" where
  "countAll m = int (card (fset (fmdom m)))"

definition deliveries :: "(string, mb_record) gomap \<Rightarrow> int" where
  "deliveries m = (\<Sum>i \<in> fset (fmdom m). m_DeliveryAttempt (the (fmlookup m i)))"

text \<open>What the state of a message says about its deliveries.\<close>

fun state_ok :: "mb_policy \<Rightarrow> mb_record \<Rightarrow> message_state \<Rightarrow> bool" where
  "state_ok p r StateQueued = (m_DeliveryAttempt r < po_MaxAttempts p)"
| "state_ok p r StateInFlight = (0 < m_DeliveryAttempt r \<and> m_ConsumerID r \<noteq> [] \<and> trimmed (m_ConsumerID r))"
| "state_ok p r StateAcked = (0 < m_DeliveryAttempt r)"
| "state_ok p r StateNacked = (0 < m_DeliveryAttempt r)"
| "state_ok p r StateDeadLetter = (po_DLQEnabled p \<and> m_DeadLetterReason r \<noteq> [])"
| "state_ok p r StateExpired = (\<not> po_DLQEnabled p)"
| "state_ok p r (StateOther x) = False"

definition delivery_ok :: "mb_record \<Rightarrow> bool" where
  "delivery_ok r \<longleftrightarrow>
     (let mid = e_MessageID (m_Envelope r); n = m_DeliveryAttempt r in
      0 < n \<longrightarrow> e_Attempt (m_Envelope r) = n \<and> m_DeliveryID r = mid @ '':delivery:'' @ Itoa n
              \<and> m_LeaseID r = mid @ '':lease:'' @ Itoa n)"

definition record_ok :: "mb_policy \<Rightarrow> mb_record \<Rightarrow> bool" where
  "record_ok p r \<longleftrightarrow>
     wf_envelope (m_Envelope r) \<and> 0 \<le> m_DeliveryAttempt r \<and> m_DeliveryAttempt r \<le> po_MaxAttempts p
     \<and> state_ok p r (m_State r) \<and> delivery_ok r
     \<and> (m_State r \<noteq> StateInFlight \<longrightarrow> clearLease r = r)"

definition records_ok :: "mb_policy \<Rightarrow> (string, mb_record) gomap \<Rightarrow> bool" where
  "records_ok p m \<longleftrightarrow> (\<forall>i r. fmlookup m i = Some r \<longrightarrow> e_MessageID (m_Envelope r) = i \<and> record_ok p r)"

definition mail_queue_ok :: "string list \<Rightarrow> (string, mb_record) gomap \<Rightarrow> bool" where
  "mail_queue_ok q m \<longleftrightarrow> distinct q \<and> set q = stateIds StateQueued m"

definition keys_ok :: "(string, string) gomap \<Rightarrow> (string, mb_record) gomap \<Rightarrow> bool" where
  "keys_ok idem m \<longleftrightarrow>
     (\<forall>k i. fmlookup idem k = Some i \<longleftrightarrow> (\<exists>r. fmlookup m i = Some r \<and> e_IdempotencyKey (m_Envelope r) = k))"

definition counts_ok :: "mb_stats \<Rightarrow> (string, mb_record) gomap \<Rightarrow> bool" where
  "counts_ok st m \<longleftrightarrow>
     mt_QueueTotal st = countIn StateQueued m \<and> mt_InFlightTotal st = countIn StateInFlight m
     \<and> mt_AckTotal st = countIn StateAcked m \<and> mt_DeadLetterTotal st = countIn StateDeadLetter m
     \<and> countIn StateExpired m \<le> mt_ExpiredTotal st
     \<and> mt_ConsumedTotal st = mt_InFlightTotal st + mt_AckTotal st + mt_NackTotal st
     \<and> mt_PublishedTotal st = countAll m \<and> mt_ConsumedTotal st = deliveries m"

definition mb_inv :: "mailbox_state \<Rightarrow> bool" where
  "mb_inv s \<longleftrightarrow>
     policy_ok (mx_Policy s) \<and> records_ok (mx_Policy s) (mx_Records s) \<and> mail_queue_ok (mx_Queue s) (mx_Records s)
     \<and> keys_ok (mx_Idempotency s) (mx_Records s) \<and> counts_ok (mx_Stats s) (mx_Records s)"

section \<open>Counting the records of a state\<close>

lemma finite_stateIds [simp]: "finite (stateIds st m)"
proof (rule finite_subset)
  show "stateIds st m \<subseteq> fset (fmdom m)" by (auto simp: stateIds_def fmdom_iff_lookup)
qed simp

lemma stateIds_fmupd:
  "stateIds st (fmupd i r m) = (if m_State r = st then insert i (stateIds st m) else stateIds st m - {i})"
  by (auto simp: stateIds_def split: if_splits)

lemma mem_stateIds: "fmlookup m i = Some r \<Longrightarrow> i \<in> stateIds st m \<longleftrightarrow> m_State r = st"
  by (simp add: stateIds_def)

lemma countIn_nonneg [simp]: "0 \<le> countIn st m"
  by (simp add: countIn_def)

lemma countIn_pos: "i \<in> stateIds st m \<Longrightarrow> 1 \<le> countIn st m"
  unfolding countIn_def by (metis One_nat_def Suc_leI card_gt_0_iff empty_iff finite_stateIds of_nat_1 of_nat_mono)

lemma countIn_replace:
  assumes "fmlookup m i = Some r0"
  shows "countIn st (fmupd i r m) = countIn st m + of_bool (m_State r = st) - of_bool (m_State r0 = st)"
proof -
  have "i \<in> stateIds st m \<longleftrightarrow> m_State r0 = st" using assms by (rule mem_stateIds)
  moreover have "1 \<le> countIn st m" if "m_State r0 = st" using that calculation by (blast intro: countIn_pos)
  ultimately show ?thesis by (auto simp: countIn_def stateIds_fmupd insert_absorb of_nat_diff)
qed

lemma countIn_new:
  assumes "fmlookup m i = None"
  shows "countIn st (fmupd i r m) = countIn st m + of_bool (m_State r = st)"
proof -
  have "i \<notin> stateIds st m" using assms by (simp add: stateIds_def)
  then show ?thesis by (simp add: countIn_def stateIds_fmupd)
qed

lemma countIn_empty [simp]: "countIn st fmempty = 0"
  by (simp add: countIn_def stateIds_def)

lemma countAll_replace: "fmlookup m i = Some r0 \<Longrightarrow> countAll (fmupd i r m) = countAll m"
  by (simp add: countAll_def insert_absorb fmdomI)

lemma countAll_new: "fmlookup m i = None \<Longrightarrow> countAll (fmupd i r m) = countAll m + 1"
  by (simp add: countAll_def fmdom_notI)

lemma deliveries_other:
  "(\<Sum>j \<in> fset (fmdom m) - {i}. m_DeliveryAttempt (the (fmlookup (fmupd i r m) j))) =
   (\<Sum>j \<in> fset (fmdom m) - {i}. m_DeliveryAttempt (the (fmlookup m j)))"
  by (rule sum.cong) auto

lemma deliveries_replace:
  assumes "fmlookup m i = Some r0"
  shows "deliveries (fmupd i r m) = deliveries m + m_DeliveryAttempt r - m_DeliveryAttempt r0"
proof -
  have i: "i \<in> fset (fmdom m)" "fset (fmdom (fmupd i r m)) = fset (fmdom m)" using fmdomI [OF assms] by auto
  show ?thesis
    unfolding deliveries_def i(2) sum.remove [OF finite_fset i(1)] deliveries_other using assms by simp
qed

lemma deliveries_new:
  assumes "fmlookup m i = None"
  shows "deliveries (fmupd i r m) = deliveries m + m_DeliveryAttempt r"
proof -
  have i: "i \<notin> fset (fmdom m)" using assms by (simp add: fmdom_notI)
  then have "fset (fmdom m) - {i} = fset (fmdom m)" by simp
  with deliveries_other [where m = m and i = i and r = r] show ?thesis using i by (simp add: deliveries_def)
qed

lemma deliveries_empty [simp]: "deliveries fmempty = 0"
  by (simp add: deliveries_def)

lemmas count_replace = countIn_replace countAll_replace deliveries_replace
lemmas count_new = countIn_new countAll_new deliveries_new

lemma countAll_empty [simp]: "countAll fmempty = 0"
  by (simp add: countAll_def)

text \<open>Every message is in exactly one of the six states, so the counters add up.\<close>

lemma countIn_sum:
  assumes "records_ok p m"
  shows "countAll m =
    countIn StateQueued m + countIn StateInFlight m + countIn StateAcked m + countIn StateNacked m
    + countIn StateDeadLetter m + countIn StateExpired m"
proof -
  let ?S = "{StateQueued, StateInFlight, StateAcked, StateNacked, StateDeadLetter, StateExpired}"
  have known: "m_State r \<in> ?S" if "fmlookup m i = Some r" for i r
  proof -
    have "state_ok p r (m_State r)" using that assms by (simp add: records_ok_def record_ok_def)
    then show ?thesis by (cases "m_State r") auto
  qed
  have "fset (fmdom m) = (\<Union>st \<in> ?S. stateIds st m)"
    using known by (fastforce simp: stateIds_def fmdom_iff_lookup)
  moreover have "card (\<Union>st \<in> ?S. stateIds st m) = (\<Sum>st \<in> ?S. card (stateIds st m))"
    by (rule card_UN_disjoint) (simp, simp, auto simp: stateIds_def)
  ultimately show ?thesis by (simp add: countIn_def countAll_def)
qed

section \<open>Replacing a record\<close>

lemma records_ok_lookup:
  assumes "records_ok p m" "fmlookup m i = Some r"
  shows "record_ok p r" "e_MessageID (m_Envelope r) = i" "trimmed i" "i \<noteq> []"
  using assms wf_envelope_trimmed(1) [of "m_Envelope r"] by (auto simp: records_ok_def record_ok_def wf_envelope_iff)

lemma records_ok_fmupd:
  "records_ok p m \<Longrightarrow> record_ok p r \<Longrightarrow> e_MessageID (m_Envelope r) = i \<Longrightarrow> records_ok p (fmupd i r m)"
  by (simp add: records_ok_def)

lemma keys_ok_fmupd:
  assumes "keys_ok idem m" "fmlookup m i = Some r0" "e_IdempotencyKey (m_Envelope r) = e_IdempotencyKey (m_Envelope r0)"
  shows "keys_ok idem (fmupd i r m)"
  using assms unfolding keys_ok_def by auto

lemma keys_ok_new:
  assumes idem: "keys_ok idem m" and fresh: "fmlookup idem k = None" "fmlookup m i = None"
    and key: "e_IdempotencyKey (m_Envelope r) = k"
  shows "keys_ok (fmupd k i idem) (fmupd i r m)"
proof -
  have used: "fmlookup idem k' = Some i' \<longleftrightarrow> (\<exists>r. fmlookup m i' = Some r \<and> e_IdempotencyKey (m_Envelope r) = k')" for k' i'
    using idem by (simp add: keys_ok_def)
  have "i' \<noteq> i" if "fmlookup idem k' = Some i'" for k' i' using that used fresh(2) by auto
  moreover have "e_IdempotencyKey (m_Envelope x) \<noteq> k" if "fmlookup m i' = Some x" for i' x using that used [of k i'] fresh(1) by auto
  ultimately show ?thesis unfolding keys_ok_def using key used by auto
qed

lemma mb_inv_cong:
  assumes "mx_Records t = mx_Records s" "mx_Queue t = mx_Queue s" "mx_Idempotency t = mx_Idempotency s"
    "mx_Stats t = mx_Stats s" "mx_Policy t = mx_Policy s"
  shows "mb_inv t = mb_inv s"
  using assms by (simp add: mb_inv_def)

lemma mb_inv_replace:
  assumes "mb_inv s" "fmlookup (mx_Records s) i = Some r0" "record_ok (mx_Policy s) r"
    and "e_MessageID (m_Envelope r) = e_MessageID (m_Envelope r0)"
    and "e_IdempotencyKey (m_Envelope r) = e_IdempotencyKey (m_Envelope r0)"
    and "mx_Records t = fmupd i r (mx_Records s)" "mx_Idempotency t = mx_Idempotency s" "mx_Policy t = mx_Policy s"
    and "mail_queue_ok (mx_Queue t) (mx_Records t)" "counts_ok (mx_Stats t) (mx_Records t)"
  shows "mb_inv t"
  using assms records_ok_lookup(2) [of "mx_Policy s" "mx_Records s" i r0]
  by (simp add: mb_inv_def records_ok_fmupd keys_ok_fmupd)

lemma mb_inv_new:
  assumes "mb_inv s" "fmlookup (mx_Records s) i = None" "record_ok (mx_Policy s) r" "e_MessageID (m_Envelope r) = i"
    and "fmlookup (mx_Idempotency s) (e_IdempotencyKey (m_Envelope r)) = None"
    and "mx_Records t = fmupd i r (mx_Records s)" "mx_Policy t = mx_Policy s"
    and "mx_Idempotency t = fmupd (e_IdempotencyKey (m_Envelope r)) i (mx_Idempotency s)"
    and "mail_queue_ok (mx_Queue t) (mx_Records t)" "counts_ok (mx_Stats t) (mx_Records t)"
  shows "mb_inv t"
  using assms by (simp add: mb_inv_def records_ok_fmupd keys_ok_new)

lemma mail_queue_ok_same:
  assumes "mail_queue_ok q m" "fmlookup m i = Some r0" "m_State r = StateQueued \<longleftrightarrow> m_State r0 = StateQueued"
  shows "mail_queue_ok q (fmupd i r m)"
proof -
  have "i \<in> stateIds StateQueued m \<longleftrightarrow> m_State r = StateQueued" using mem_stateIds [OF assms(2)] assms(3) by blast
  then have "stateIds StateQueued (fmupd i r m) = stateIds StateQueued m" by (simp add: stateIds_fmupd insert_absorb)
  then show ?thesis using assms(1) by (simp add: mail_queue_ok_def)
qed

lemma mail_queue_ok_append:
  assumes "mail_queue_ok q m" "i \<notin> stateIds StateQueued m" "m_State r = StateQueued"
  shows "mail_queue_ok (q @ [i]) (fmupd i r m)"
  using assms by (auto simp: mail_queue_ok_def stateIds_fmupd)

lemma mail_queue_ok_remove:
  assumes "mail_queue_ok (pre @ i # suf) m" "m_State r \<noteq> StateQueued"
  shows "mail_queue_ok (pre @ suf) (fmupd i r m)"
  using assms by (auto simp: mail_queue_ok_def stateIds_fmupd)

section \<open>What the journal leaves alone\<close>

lemma appendHistory_frame [mb_frame]:
  "mx_Records (appendHistory tr r reason opts s) = mx_Records s"
  "mx_Queue (appendHistory tr r reason opts s) = mx_Queue s"
  "mx_Idempotency (appendHistory tr r reason opts s) = mx_Idempotency s"
  "mx_Stats (appendHistory tr r reason opts s) = mx_Stats s"
  "mx_Policy (appendHistory tr r reason opts s) = mx_Policy s"
  "mx_traceEvents (appendHistory tr r reason opts s) = mx_traceEvents s"
  by (simp_all add: appendHistory_def)

lemma emitLifecycleEvent_frame [mb_frame]:
  "mx_Records (emitLifecycleEvent clk tr r reason opts s) = mx_Records s"
  "mx_Queue (emitLifecycleEvent clk tr r reason opts s) = mx_Queue s"
  "mx_Idempotency (emitLifecycleEvent clk tr r reason opts s) = mx_Idempotency s"
  "mx_Stats (emitLifecycleEvent clk tr r reason opts s) = mx_Stats s"
  "mx_Policy (emitLifecycleEvent clk tr r reason opts s) = mx_Policy s"
  "mx_traceEvents (emitLifecycleEvent clk tr r reason opts s) = mx_traceEvents s"
  by (simp_all add: emitLifecycleEvent_def Let_def mb_frame)

lemma putRecord_fields [mb_frame]:
  "mx_Records (putRecord mid r s) = fmupd mid r (mx_Records s)"
  "mx_Queue (putRecord mid r s) = mx_Queue s" "mx_Idempotency (putRecord mid r s) = mx_Idempotency s"
  "mx_Stats (putRecord mid r s) = mx_Stats s" "mx_Policy (putRecord mid r s) = mx_Policy s"
  by (simp_all add: putRecord_def)

lemma clearLease_fields [mb_frame]:
  "m_Envelope (clearLease r) = m_Envelope r" "m_State (clearLease r) = m_State r"
  "m_DeliveryAttempt (clearLease r) = m_DeliveryAttempt r" "m_ConsumerID (clearLease r) = m_ConsumerID r"
  "m_DeadLetterReason (clearLease r) = m_DeadLetterReason r" "m_DeliveryID (clearLease r) = m_DeliveryID r"
  "m_LeaseID (clearLease r) = m_LeaseID r" "clearLease (clearLease r) = clearLease r"
  by (simp_all add: clearLease_def)

lemma clearLease_fix_iff:
  "clearLease r = r \<longleftrightarrow> m_InFlightSince r = 0 \<and> m_LastHeartbeatAt r = 0 \<and> m_LeaseExpiresAt r = 0"
  by (cases r) (auto simp: clearLease_def)

section \<open>Every operation keeps the invariant\<close>

lemma mb_inv_parts:
  assumes "mb_inv s"
  shows "policy_ok (mx_Policy s)" "records_ok (mx_Policy s) (mx_Records s)" "mail_queue_ok (mx_Queue s) (mx_Records s)"
    "keys_ok (mx_Idempotency s) (mx_Records s)" "counts_ok (mx_Stats s) (mx_Records s)"
  using assms by (simp_all add: mb_inv_def)

lemma newMailboxState_inv: "mb_inv (newMailboxState source backend policy)"
  by (simp add: mb_inv_def newMailboxState_def emptyMbStats_def normalizePolicy_ok records_ok_def mail_queue_ok_def
      keys_ok_def counts_ok_def stateIds_def)

lemma stale_key: "keys_ok idem m \<Longrightarrow> Option.bind (fmlookup idem k) (fmlookup m) = None \<Longrightarrow> fmlookup idem k = None"
  by (cases "fmlookup idem k") (auto simp: keys_ok_def)

lemma publishNew_inv:
  assumes inv: "mb_inv s" and n: "wf_envelope n"
    and fresh: "fmlookup (mx_Idempotency s) (e_IdempotencyKey n) = None" "fmlookup (mx_Records s) (e_MessageID n) = None"
  shows "mb_inv (snd (publishNew n now s))"
proof -
  let ?m = "mx_Records s" and ?p = "mx_Policy s"
  define n1 where "n1 = (if IsZero (e_ExpireAt n) \<and> 0 < po_TTL ?p then n\<lparr>e_ExpireAt := now + po_TTL ?p\<rparr> else n)"
  define r where "r = newMbRecord n1 now"
  have n1: "wf_envelope n1" "e_MessageID n1 = e_MessageID n" "e_IdempotencyKey n1 = e_IdempotencyKey n"
    using n by (simp_all add: n1_def wf_envelope_expiry)
  have r: "m_Envelope r = n1" "m_State r = StateQueued" "record_ok ?p r" "m_DeliveryAttempt r = 0"
    using n1(1) mb_inv_parts(1) [OF inv]
    by (simp_all add: r_def newMbRecord_def record_ok_def delivery_ok_def clearLease_def policy_ok_def)
  have queue: "mail_queue_ok (mx_Queue s @ [e_MessageID n]) (fmupd (e_MessageID n) r ?m)"
    using mb_inv_parts(3) [OF inv] fresh(2) r(2) by (intro mail_queue_ok_append) (auto simp: stateIds_def)
  have counts: "counts_ok ((mx_Stats s)\<lparr>mt_PublishedTotal := mt_PublishedTotal (mx_Stats s) + 1,
      mt_QueueTotal := mt_QueueTotal (mx_Stats s) + 1\<rparr>) (fmupd (e_MessageID n) r ?m)"
    using mb_inv_parts(5) [OF inv] fresh(2) r(2,4) by (simp add: counts_ok_def count_new)
  show ?thesis
    unfolding publishNew_def Let_def snd_conv n1_def [symmetric] r_def [symmetric]
    by (rule mb_inv_new [OF inv fresh(2) r(3)]) (simp_all add: mb_frame r(1) n1(2,3) fresh(1) queue counts)
qed

lemma publish_inv: "mb_inv s \<Longrightarrow> mb_inv (snd (publish clk e now s))"
proof -
  assume inv: "mb_inv s"
  have dup: "mb_inv (snd (publishDuplicate n x s))" for n x
    using inv by (simp add: publishDuplicate_def bumpDuplicatePublish_def mb_inv_def counts_ok_def)
  show "mb_inv (snd (publish clk e now s))"
    using inv by (auto simp: publish_def dup split: sum.splits option.splits
        intro!: publishNew_inv normalizeEnvelope_wf stale_key [OF mb_inv_parts(4)])
qed

lemma record_ok_change:
  assumes "record_ok p r0" "m_Envelope r = m_Envelope r0" "m_DeliveryAttempt r = m_DeliveryAttempt r0"
    and "m_DeliveryID r = m_DeliveryID r0" "m_LeaseID r = m_LeaseID r0"
    and "state_ok p r (m_State r)" "m_State r = StateInFlight \<or> clearLease r = r"
  shows "record_ok p r"
  using assms by (auto simp: record_ok_def delivery_ok_def)

lemma requireInflight_Some:
  assumes "requireInflightRecord mid c s = (Some r, None)"
  shows "fmlookup (mx_Records s) (TrimSpace mid) = Some r" "m_State r = StateInFlight"
    "TrimSpace c = [] \<or> m_ConsumerID r = TrimSpace c"
  using assms by (auto simp: requireInflightRecord_def split: option.splits if_splits)

lemma requireInflight_None: "requireInflightRecord mid c s = (None, e) \<Longrightarrow> e = Some MErrMessageNotFound"
  by (auto simp: requireInflightRecord_def split: option.splits)

lemma inflight_record:
  assumes "mb_inv s" "fmlookup (mx_Records s) i = Some r" "m_State r = StateInFlight"
  shows "record_ok (mx_Policy s) r" "0 < m_DeliveryAttempt r" "1 \<le> countIn StateInFlight (mx_Records s)"
    "1 \<le> mt_InFlightTotal (mx_Stats s)"
proof -
  show ok: "record_ok (mx_Policy s) r" using mb_inv_parts(2) [OF assms(1)] assms(2) by (rule records_ok_lookup)
  show "0 < m_DeliveryAttempt r" using ok assms(3) by (simp add: record_ok_def)
  show one: "1 \<le> countIn StateInFlight (mx_Records s)" using assms(2,3) by (intro countIn_pos [of i]) (simp add: mem_stateIds)
  show "1 \<le> mt_InFlightTotal (mx_Stats s)" using one mb_inv_parts(5) [OF assms(1)] by (simp add: counts_ok_def)
qed

lemma touch_inv:
  assumes inv: "mb_inv s" and look: "fmlookup (mx_Records s) i = Some r0" "m_State r0 = StateInFlight"
    and r: "m_Envelope r = m_Envelope r0" "m_DeliveryAttempt r = m_DeliveryAttempt r0" "m_State r = m_State r0"
      "m_DeliveryID r = m_DeliveryID r0" "m_LeaseID r = m_LeaseID r0" "m_ConsumerID r = m_ConsumerID r0"
  shows "mb_inv (putRecord i r s)"
proof (rule mb_inv_replace [OF inv look(1), of r])
  note rec = inflight_record(1) [OF inv look]
  have "state_ok (mx_Policy s) r0 (m_State r0)" using rec by (simp add: record_ok_def)
  then show "record_ok (mx_Policy s) r" using look(2) r by (intro record_ok_change [OF rec]) auto
  show "mail_queue_ok (mx_Queue (putRecord i r s)) (mx_Records (putRecord i r s))"
    using mb_inv_parts(3) [OF inv] look(1) r(3) by (simp add: mb_frame mail_queue_ok_same)
  show "counts_ok (mx_Stats (putRecord i r s)) (mx_Records (putRecord i r s))"
    using mb_inv_parts(5) [OF inv] look(1) r(2,3) by (simp add: mb_frame counts_ok_def count_replace)
qed (use r in \<open>simp_all add: mb_frame\<close>)

lemma heartbeat_inv: "mb_inv s \<Longrightarrow> mb_inv (snd (mb_heartbeat clk mid c now lease s))"
proof (cases "requireInflightRecord mid c s")
  case (Pair ro eo)
  assume inv: "mb_inv s"
  show ?thesis
  proof (cases "ro = None \<or> eo \<noteq> None")
    case True
    then show ?thesis using Pair inv by (auto simp: mb_heartbeat_def split: option.splits)
  next
    case False
    then obtain r where r: "requireInflightRecord mid c s = (Some r, None)" using Pair by auto
    show ?thesis
      unfolding mb_heartbeat_def r prod.case option.case Let_def snd_conv
      by (rule touch_inv [OF inv requireInflight_Some(1,2) [OF r]]) simp_all
  qed
qed

text \<open>Leaving the in-flight state for good or for a retry.\<close>

lemma settle_inv:
  assumes inv: "mb_inv s" and look: "fmlookup (mx_Records s) i = Some r0" "m_State r0 = StateInFlight"
    and r: "m_Envelope r = m_Envelope r0" "m_DeliveryAttempt r = m_DeliveryAttempt r0"
      "m_DeliveryID r = m_DeliveryID r0" "m_LeaseID r = m_LeaseID r0" "clearLease r = r"
    and st: "m_State r = StateAcked \<and> st = leaveInFlight ((mx_Stats s)\<lparr>mt_AckTotal := mt_AckTotal (mx_Stats s) + 1\<rparr>)
      \<or> m_State r = StateNacked \<and> st = nackStats (mx_Stats s)"
  shows "mb_inv (putRecord i r s\<lparr>mx_Stats := st\<rparr>)"
proof (rule mb_inv_replace [OF inv look(1), of r])
  note rec = inflight_record [OF inv look]
  show "record_ok (mx_Policy s) r" using st rec(2) r by (intro record_ok_change [OF rec(1)]) auto
  show "mail_queue_ok (mx_Queue (putRecord i r s\<lparr>mx_Stats := st\<rparr>)) (mx_Records (putRecord i r s\<lparr>mx_Stats := st\<rparr>))"
    using mb_inv_parts(3) [OF inv] look st by (auto simp: mb_frame intro: mail_queue_ok_same)
  have "counts_ok st (fmupd i r (mx_Records s))"
    using st rec(4) mb_inv_parts(5) [OF inv] look r(2)
    by (elim disjE conjE) (simp_all add: counts_ok_def count_replace leaveInFlight_def nackStats_def)
  then show "counts_ok (mx_Stats (putRecord i r s\<lparr>mx_Stats := st\<rparr>)) (mx_Records (putRecord i r s\<lparr>mx_Stats := st\<rparr>))"
    by (simp add: mb_frame)
qed (use r in \<open>simp_all add: mb_frame\<close>)

lemma emit_inv: "mb_inv (emitLifecycleEvent clk tr r reason opts s) = mb_inv s"
  by (rule mb_inv_cong) (simp_all add: mb_frame)

lemma ack_inv: "mb_inv s \<Longrightarrow> mb_inv (snd (ack clk mid c now s))"
proof (cases "requireInflightRecord mid c s")
  case (Pair ro eo)
  assume inv: "mb_inv s"
  show ?thesis
  proof (cases "ro = None \<or> eo \<noteq> None")
    case True
    then show ?thesis using Pair inv by (auto simp: ack_def split: option.splits)
  next
    case False
    then obtain r where r: "requireInflightRecord mid c s = (Some r, None)" using Pair by auto
    show ?thesis
      unfolding ack_def r prod.case option.case Let_def snd_conv emit_inv
      by (rule settle_inv [OF inv requireInflight_Some(1,2) [OF r]]) (simp_all add: clearLease_def)
  qed
qed

text \<open>A nacked message moves on: to the dead letters, to the expired ones, or back to the queue.\<close>

lemma nacked_inv:
  assumes inv: "mb_inv s" and look: "fmlookup (mx_Records s) i = Some r0" "m_State r0 = StateNacked"
    and r: "m_Envelope r = m_Envelope r0" "m_DeliveryAttempt r = m_DeliveryAttempt r0"
      "m_DeliveryID r = m_DeliveryID r0" "m_LeaseID r = m_LeaseID r0" "clearLease r = r"
    and ok: "state_ok (mx_Policy s) r (m_State r)"
    and queue: "mail_queue_ok q (fmupd i r (mx_Records s))" and counts: "counts_ok st (fmupd i r (mx_Records s))"
  shows "mb_inv (putRecord i r s\<lparr>mx_Queue := q, mx_Stats := st\<rparr>)"
proof (rule mb_inv_replace [OF inv look(1), of r])
  have rec: "record_ok (mx_Policy s) r0" using mb_inv_parts(2) [OF inv] look(1) by (rule records_ok_lookup)
  show "record_ok (mx_Policy s) r" using r ok by (intro record_ok_change [OF rec]) auto
qed (use r queue counts in \<open>simp_all add: mb_frame\<close>)

lemma nacked_leaves:
  assumes inv: "mb_inv s" and look: "fmlookup (mx_Records s) i = Some r0" "m_State r0 = StateNacked"
    and st: "m_State r = StateDeadLetter \<and> st = (mx_Stats s)\<lparr>mt_DeadLetterTotal := mt_DeadLetterTotal (mx_Stats s) + 1\<rparr>
      \<or> m_State r = StateExpired \<and> st = (mx_Stats s)\<lparr>mt_ExpiredTotal := mt_ExpiredTotal (mx_Stats s) + 1\<rparr>"
    and n: "m_DeliveryAttempt r = m_DeliveryAttempt r0"
  shows "mail_queue_ok (mx_Queue s) (fmupd i r (mx_Records s))" "counts_ok st (fmupd i r (mx_Records s))"
proof -
  show "mail_queue_ok (mx_Queue s) (fmupd i r (mx_Records s))"
    using mb_inv_parts(3) [OF inv] look st by (auto intro: mail_queue_ok_same)
  show "counts_ok st (fmupd i r (mx_Records s))"
    using st mb_inv_parts(5) [OF inv] look n by (elim disjE conjE) (simp_all add: counts_ok_def count_replace)
qed

lemma deadLetterReason_nonempty: "code \<in> set LifecycleCanonicalReasons \<Longrightarrow> deadLetterReason code reason \<noteq> []"
  by (auto simp: deadLetterReason_def dest: trimmed_canonical)

lemma deadLetter_inv:
  assumes inv: "mb_inv s" and look: "fmlookup (mx_Records s) i = Some r0" "m_State r0 = StateNacked"
    and r: "m_Envelope r = m_Envelope r0" "m_DeliveryAttempt r = m_DeliveryAttempt r0"
      "m_DeliveryID r = m_DeliveryID r0" "m_LeaseID r = m_LeaseID r0" "clearLease r = r"
    and dlq: "po_DLQEnabled (mx_Policy s)"
  shows "mb_inv (snd (deadLetter clk i code r opts s))"
proof -
  let ?r = "r\<lparr>m_State := StateDeadLetter, m_DeadLetterReason := deadLetterReason LifecycleReasonRetryExhausted code\<rparr>"
  let ?st = "(mx_Stats s)\<lparr>mt_DeadLetterTotal := mt_DeadLetterTotal (mx_Stats s) + 1\<rparr>"
  have "m_DeadLetterReason ?r \<noteq> []"
    using deadLetterReason_nonempty [of LifecycleReasonRetryExhausted code] by (simp add: LifecycleCanonicalReasons_def)
  moreover have "clearLease ?r = ?r" using r(5) by (simp add: clearLease_fix_iff)
  ultimately have "mb_inv (putRecord i ?r s\<lparr>mx_Queue := mx_Queue s, mx_Stats := ?st\<rparr>)"
    using r dlq nacked_leaves [OF inv look, of ?r ?st] by (intro nacked_inv [OF inv look]) simp_all
  then show ?thesis by (simp add: deadLetter_def Let_def emit_inv mb_inv_def mb_frame)
qed

lemma retryMessage_inv:
  assumes inv: "mb_inv s" and look: "fmlookup (mx_Records s) i = Some r" "m_State r = StateNacked"
  shows "mb_inv (snd (retryMessage clk i code now opts r s))"
proof -
  have rec: "record_ok (mx_Policy s) r" "e_MessageID (m_Envelope r) = i"
    using mb_inv_parts(2) [OF inv] look(1) by (rule records_ok_lookup)+
  then have lease: "clearLease r = r" using look(2) by (simp add: record_ok_def)
  consider (dead) "po_MaxAttempts (mx_Policy s) \<le> m_DeliveryAttempt r" "po_DLQEnabled (mx_Policy s)"
    | (expired) "po_MaxAttempts (mx_Policy s) \<le> m_DeliveryAttempt r" "\<not> po_DLQEnabled (mx_Policy s)"
    | (retry) "m_DeliveryAttempt r < po_MaxAttempts (mx_Policy s)" by linarith
  then show ?thesis
  proof cases
    case dead
    then show ?thesis using lease by (simp add: retryMessage_def) (rule deadLetter_inv [OF inv look], simp_all add: clearLease_fix_iff)
  next
    case expired
    let ?r = "r\<lparr>m_State := StateExpired, m_DeadLetterReason := deadLetterReason LifecycleReasonRetryExhausted code, m_UpdatedAt := now\<rparr>"
    let ?st = "(mx_Stats s)\<lparr>mt_ExpiredTotal := mt_ExpiredTotal (mx_Stats s) + 1\<rparr>"
    have "mb_inv (putRecord i ?r s\<lparr>mx_Queue := mx_Queue s, mx_Stats := ?st\<rparr>)"
      using expired lease nacked_leaves [OF inv look, of ?r ?st] by (intro nacked_inv [OF inv look]) (simp_all add: clearLease_fix_iff)
    then show ?thesis using expired by (simp add: retryMessage_def Let_def emit_inv mb_inv_def mb_frame)
  next
    case retry
    let ?r = "(clearLease (r\<lparr>m_State := StateQueued\<rparr>))
                \<lparr>m_NextEligibleAt := now + mb_retryDelay (mx_Policy s) (e_MessageID (m_Envelope r)) (m_DeliveryAttempt r),
                 m_ConsumerID := [], m_UpdatedAt := now\<rparr>"
    let ?st = "(mx_Stats s)\<lparr>mt_QueueTotal := mt_QueueTotal (mx_Stats s) + 1, mt_RequeueTotal := mt_RequeueTotal (mx_Stats s) + 1\<rparr>"
    have "i \<notin> stateIds StateQueued (mx_Records s)" using look by (simp add: mem_stateIds)
    then have "mail_queue_ok (mx_Queue s @ [i]) (fmupd i ?r (mx_Records s))"
      using mb_inv_parts(3) [OF inv] by (intro mail_queue_ok_append) (simp_all add: mb_frame)
    moreover have "counts_ok ?st (fmupd i ?r (mx_Records s))"
      using mb_inv_parts(5) [OF inv] look by (simp add: counts_ok_def count_replace mb_frame)
    ultimately have "mb_inv (putRecord i ?r s\<lparr>mx_Queue := mx_Queue s @ [i], mx_Stats := ?st\<rparr>)"
      using retry by (intro nacked_inv [OF inv look]) (simp_all add: mb_frame clearLease_def)
    then show ?thesis using retry rec(2) by (simp add: retryMessage_def Let_def emit_inv mb_frame)
  qed
qed

lemma nack_step_inv:
  assumes "mb_inv s" "fmlookup (mx_Records s) i = Some r" "m_State r = StateInFlight"
  shows "mb_inv (putRecord i (nackRecord code r) s\<lparr>mx_Stats := nackStats (mx_Stats s)\<rparr>)"
    "mb_inv (putRecord i ((nackRecord code r)\<lparr>m_UpdatedAt := now\<rparr>) s\<lparr>mx_Stats := nackStats (mx_Stats s)\<rparr>)"
  by (rule settle_inv [OF assms]; simp add: nackRecord_def clearLease_def)+

lemma nackRecord_fields [mb_frame]:
  "m_State (nackRecord code r) = StateNacked" "m_Envelope (nackRecord code r) = m_Envelope r"
  "m_DeliveryAttempt (nackRecord code r) = m_DeliveryAttempt r" "clearLease (nackRecord code r) = nackRecord code r"
  by (simp_all add: nackRecord_def clearLease_def)

lemma nack_inv: "mb_inv s \<Longrightarrow> mb_inv (snd (nack clk mid c reason now opts s))"
proof (cases "requireInflightRecord mid c s")
  case (Pair ro eo)
  assume inv: "mb_inv s"
  show ?thesis
  proof (cases "ro = None \<or> eo \<noteq> None")
    case True
    then show ?thesis using Pair inv by (auto simp: nack_def split: option.splits)
  next
    case False
    then obtain r where r: "requireInflightRecord mid c s = (Some r, None)" using Pair by auto
    define code where "code = CanonicalizeLifecycleReason reason LifecycleReasonHandlerError"
    define r1 where "r1 = (nackRecord code r)\<lparr>m_UpdatedAt := resolve_now clk now\<rparr>"
    define s1 where "s1 = emitLifecycleEvent clk TransitionNack r1 code opts
      (putRecord (TrimSpace mid) r1 s\<lparr>mx_Stats := nackStats (mx_Stats s)\<rparr>)"
    have inv1: "mb_inv s1"
      unfolding s1_def emit_inv r1_def by (rule nack_step_inv [OF inv requireInflight_Some(1,2) [OF r]])
    have look: "fmlookup (mx_Records s1) (TrimSpace mid) = Some r1" "m_State r1 = StateNacked" "clearLease r1 = r1"
      by (simp_all add: s1_def r1_def mb_frame nackRecord_def clearLease_def)
    have "mb_inv (snd (deadLetter clk (TrimSpace mid) code r1 opts s1))" if "po_DLQEnabled (mx_Policy s1)"
      using look(3) that by (intro deadLetter_inv [OF inv1 look(1,2)]) simp_all
    then show ?thesis
      using inv1 unfolding nack_def r prod.case option.case Let_def code_def [symmetric] r1_def [symmetric] s1_def [symmetric]
      by (auto simp: s1_def mb_frame split: prod.splits)
  qed
qed

lemma requeue_inv: "mb_inv s \<Longrightarrow> mb_inv (snd (mb_requeue clk mid c reason now opts s))"
proof -
  assume inv: "mb_inv s"
  define i code where "i = TrimSpace mid" and "code = CanonicalizeLifecycleReason reason LifecycleReasonHandlerError"
  have flight: "mb_inv (snd (retryMessage clk i code t opts (nackRecord code r)
      (emitLifecycleEvent clk TransitionNack (nackRecord code r) code opts
         (putRecord i (nackRecord code r) s\<lparr>mx_Stats := nackStats (mx_Stats s)\<rparr>))))"
    if "fmlookup (mx_Records s) i = Some r" "m_State r = StateInFlight" for r t
    by (rule retryMessage_inv) (simp_all add: emit_inv mb_frame nack_step_inv [OF inv that])
  have nacked: "mb_inv (snd (retryMessage clk i code t opts r s))"
    if "fmlookup (mx_Records s) i = Some r" "m_State r = StateNacked" for r t
    using inv that by (rule retryMessage_inv)
  show ?thesis
    unfolding mb_requeue_def Let_def i_def [symmetric] code_def [symmetric]
    using inv flight nacked by (simp add: case_prod_beta split: option.split message_state.split)
qed

section \<open>Consuming keeps the invariant\<close>

lemma queued_record:
  assumes "mb_inv s" "fmlookup (mx_Records s) i = Some r" "m_State r = StateQueued"
  shows "record_ok (mx_Policy s) r" "clearLease r = r" "1 \<le> countIn StateQueued (mx_Records s)"
    "m_DeliveryAttempt r < po_MaxAttempts (mx_Policy s)"
proof -
  show ok: "record_ok (mx_Policy s) r" using mb_inv_parts(2) [OF assms(1)] assms(2) by (rule records_ok_lookup)
  then show "clearLease r = r" "m_DeliveryAttempt r < po_MaxAttempts (mx_Policy s)" using assms(3) by (simp_all add: record_ok_def)
  show "1 \<le> countIn StateQueued (mx_Records s)" using assms(2,3) by (intro countIn_pos [of i]) (simp add: mem_stateIds)
qed

definition expiredRecord :: "bool \<Rightarrow> mb_record \<Rightarrow> time \<Rightarrow> mb_record" where
  "expiredRecord dlq r now =
     clearLease (if dlq then r\<lparr>m_UpdatedAt := now, m_State := StateDeadLetter, m_DeadLetterReason := deadLetterReason LifecycleReasonExpired []\<rparr>
                 else r\<lparr>m_UpdatedAt := now, m_State := StateExpired\<rparr>)"

lemma expireRecord_fields:
  "mx_Records (expireRecord clk i r now s) = fmupd i (expiredRecord (po_DLQEnabled (mx_Policy s)) r now) (mx_Records s)"
  "mx_Idempotency (expireRecord clk i r now s) = mx_Idempotency s" "mx_Policy (expireRecord clk i r now s) = mx_Policy s"
  "mx_Queue (expireRecord clk i r now s) = mx_Queue s"
  "mx_Stats (expireRecord clk i r now s) =
     (let st = (mx_Stats s)\<lparr>mt_QueueTotal := max 0 (mt_QueueTotal (mx_Stats s) - 1),
                            mt_ExpiredTotal := mt_ExpiredTotal (mx_Stats s) + 1\<rparr>
      in if po_DLQEnabled (mx_Policy s) then st\<lparr>mt_DeadLetterTotal := mt_DeadLetterTotal st + 1\<rparr> else st)"
  by (simp_all add: expireRecord_def expiredRecord_def Let_def mb_frame)

lemma expireRecord_inv:
  assumes inv: "mb_inv (s\<lparr>mx_Queue := pre @ i # suf\<rparr>)" and look: "fmlookup (mx_Records s) i = Some r" "m_State r = StateQueued"
  shows "mb_inv ((expireRecord clk i r now s)\<lparr>mx_Queue := pre @ suf\<rparr>)"
proof -
  let ?d = "po_DLQEnabled (mx_Policy s)"
  let ?r = "expiredRecord ?d r now" and ?t = "(expireRecord clk i r now s)\<lparr>mx_Queue := pre @ suf\<rparr>"
  have q: "record_ok (mx_Policy s) r" "1 \<le> countIn StateQueued (mx_Records s)"
    using queued_record [OF inv, of i r] look by simp_all
  have "deadLetterReason LifecycleReasonExpired [] \<noteq> []"
    by (rule deadLetterReason_nonempty) (simp add: LifecycleCanonicalReasons_def)
  then have r: "record_ok (mx_Policy s) ?r" "m_State ?r = (if ?d then StateDeadLetter else StateExpired)" "m_Envelope ?r = m_Envelope r"
      "m_DeliveryAttempt ?r = m_DeliveryAttempt r"
    by (auto intro!: record_ok_change [OF q(1)] simp: expiredRecord_def mb_frame)
  show ?thesis
  proof (rule mb_inv_replace [OF inv, of i r ?r])
    show "mail_queue_ok (mx_Queue ?t) (mx_Records ?t)"
      using mb_inv_parts(3) [OF inv] r(2) by (simp add: expireRecord_fields mail_queue_ok_remove)
    show "counts_ok (mx_Stats ?t) (mx_Records ?t)"
      using mb_inv_parts(5) [OF inv] r(2,4) look q(2)
      by (simp add: expireRecord_fields counts_ok_def count_replace Let_def)
  qed (use look r in \<open>simp_all add: expireRecord_fields\<close>)
qed

lemma expireQueuedLoop_inv:
  "mb_inv (s\<lparr>mx_Queue := pre @ qs\<rparr>) \<Longrightarrow>
   mb_inv ((snd (expireQueuedLoop clk now qs s))\<lparr>mx_Queue := pre @ fst (fst (expireQueuedLoop clk now qs s))\<rparr>)"
proof (induction qs arbitrary: pre s)
  case Nil
  then show ?case by simp
next
  case (Cons q qs)
  have "q \<in> stateIds StateQueued (mx_Records s)" using mb_inv_parts(3) [OF Cons.prems] by (auto simp: mail_queue_ok_def)
  then obtain r where r: "fmlookup (mx_Records s) q = Some r" "m_State r = StateQueued" by (auto simp: stateIds_def)
  have q: "TrimSpace q = q" using records_ok_lookup(3) [OF mb_inv_parts(2) [OF Cons.prems], of q r] r by simp
  show ?case
  proof (cases "isRecordExpired r now")
    case True
    then show ?thesis
      using Cons.IH [OF expireRecord_inv [OF Cons.prems r]] r q by (simp add: case_prod_beta)
  next
    case False
    then show ?thesis using Cons.IH [of "pre @ [q]" s] Cons.prems r q by (simp add: case_prod_beta)
  qed
qed

lemma expireQueued_inv: "mb_inv s \<Longrightarrow> mb_inv (snd (expireQueued clk now s))"
  using expireQueuedLoop_inv [where s = s and pre = "[]" and qs = "mx_Queue s" and clk = clk and now = now] by (simp add: expireQueued_def case_prod_beta)

lemma reclaimLoop_inv: "mb_inv s \<Longrightarrow> mb_inv (snd (reclaimLoop clk now mids s))"
proof (induction mids arbitrary: s)
  case (Cons i mids)
  show ?case using Cons.IH [OF requeue_inv [OF Cons.prems]] by (simp add: case_prod_beta)
qed simp

lemma reclaim_inv: "mb_inv s \<Longrightarrow> mb_inv (snd (reclaimStaleInFlight clk now lease s))"
  by (simp add: reclaimStaleInFlight_def reclaimLoop_inv)

lemma firstIndex_Some: "firstIndex P xs = Some i \<Longrightarrow> i < length xs \<and> P (xs ! i) \<and> (\<forall>j < i. \<not> P (xs ! j))"
proof (induction xs arbitrary: i)
  case (Cons x xs)
  then show ?case by (auto simp: less_Suc_eq_0_disj split: if_splits)
qed simp

lemma firstIndex_None: "firstIndex P xs = None \<longleftrightarrow> (\<forall>x \<in> set xs. \<not> P x)"
  by (induction xs) auto

lemma deliverRecord_fields [mb_frame]:
  "m_State (deliverRecord c now lease r) = StateInFlight" "m_ConsumerID (deliverRecord c now lease r) = c"
  "m_DeliveryAttempt (deliverRecord c now lease r) = m_DeliveryAttempt r + 1"
  "m_Envelope (deliverRecord c now lease r) = (m_Envelope r)\<lparr>e_Attempt := m_DeliveryAttempt r + 1\<rparr>"
  by (simp_all add: deliverRecord_def Let_def)

lemma deliverRecord_ok:
  assumes "record_ok p r" "m_DeliveryAttempt r < po_MaxAttempts p" "c \<noteq> []" "trimmed c"
  shows "record_ok p (deliverRecord c now lease r)"
  using assms by (auto simp: record_ok_def delivery_ok_def deliverRecord_def Let_def wf_envelope_attempt)

text \<open>The delivery itself: the state after the message at position \<open>k\<close> of the queue is handed to \<open>c\<close>.\<close>

definition deliver :: "time \<Rightarrow> string \<Rightarrow> time \<Rightarrow> duration \<Rightarrow> nat \<Rightarrow> mb_record \<Rightarrow> mailbox_state \<Rightarrow> mailbox_state" where
  "deliver clk c now lease k r s =
     emitLifecycleEvent clk TransitionConsume (deliverRecord c now lease r) [] noOptions
       (putRecord (mx_Queue s ! k) (deliverRecord c now lease r) (s\<lparr>mx_Queue := remove_index k (mx_Queue s)\<rparr>)
          \<lparr>mx_Stats := (mx_Stats s)\<lparr>mt_QueueTotal := max 0 (mt_QueueTotal (mx_Stats s) - 1),
             mt_InFlightTotal := mt_InFlightTotal (mx_Stats s) + 1, mt_ConsumedTotal := mt_ConsumedTotal (mx_Stats s) + 1\<rparr>\<rparr>)"

lemma deliver_inv:
  assumes inv: "mb_inv s" and k: "k < length (mx_Queue s)" and c: "c \<noteq> []" "trimmed c"
    and look: "fmlookup (mx_Records s) (mx_Queue s ! k) = Some r" "m_State r = StateQueued"
  shows "mb_inv (deliver clk c now lease k r s)"
proof -
  let ?i = "mx_Queue s ! k" and ?r = "deliverRecord c now lease r"
  note q = queued_record [OF inv look]
  have split: "mx_Queue s = take k (mx_Queue s) @ ?i # drop (Suc k) (mx_Queue s)" using k by (rule id_take_nth_drop)
  have "mail_queue_ok (remove_index k (mx_Queue s)) (fmupd ?i ?r (mx_Records s))"
    using mb_inv_parts(3) [OF inv] mail_queue_ok_remove [of "take k (mx_Queue s)" ?i "drop (Suc k) (mx_Queue s)" "mx_Records s" ?r] split
    by (simp add: remove_index_def mb_frame)
  moreover have "counts_ok ((mx_Stats s)\<lparr>mt_QueueTotal := max 0 (mt_QueueTotal (mx_Stats s) - 1),
      mt_InFlightTotal := mt_InFlightTotal (mx_Stats s) + 1, mt_ConsumedTotal := mt_ConsumedTotal (mx_Stats s) + 1\<rparr>)
      (fmupd ?i ?r (mx_Records s))"
    using mb_inv_parts(5) [OF inv] look q(3) by (simp add: counts_ok_def count_replace mb_frame)
  ultimately show ?thesis
    unfolding deliver_def emit_inv
    by (intro mb_inv_replace [OF inv look(1), of ?r]) (simp_all add: mb_frame deliverRecord_ok [OF q(1,4) c])
qed

text \<open>\<open>consume\<close> once the expired and the stale messages are dealt with.\<close>

definition swept :: "time \<Rightarrow> time \<Rightarrow> duration \<Rightarrow> bool \<Rightarrow> mailbox_state \<Rightarrow> mailbox_state" where
  "swept clk now lease reclaim s =
     (let s1 = snd (expireQueued clk now s) in if reclaim then snd (reclaimStaleInFlight clk now lease s1) else s1)"

lemma swept_inv: "mb_inv s \<Longrightarrow> mb_inv (swept clk now lease reclaim s)"
  by (simp add: swept_def Let_def expireQueued_inv reclaim_inv)

lemma consume_cases:
  assumes inv: "mb_inv s"
  obtains (no_consumer) "TrimSpace c = []" "consume clk c now lease reclaim s = (Err (MErrInvalid ConsumerIDRequired), s)"
  | (empty) m where "TrimSpace c \<noteq> []"
      "firstIndex (consumable (resolve_now clk now) (swept clk (resolve_now clk now) lease reclaim s))
         (mx_Queue (swept clk (resolve_now clk now) lease reclaim s)) = None"
      "consume clk c now lease reclaim s = (Ok (None, m), swept clk (resolve_now clk now) lease reclaim s)"
  | (delivered) k r t where "TrimSpace c \<noteq> []" "t = swept clk (resolve_now clk now) lease reclaim s"
      "firstIndex (consumable (resolve_now clk now) t) (mx_Queue t) = Some k" "k < length (mx_Queue t)"
      "fmlookup (mx_Records t) (mx_Queue t ! k) = Some r" "m_State r = StateQueued"
      "consume clk c now lease reclaim s =
         (Ok (Some (deliverRecord (TrimSpace c) (resolve_now clk now) lease r), True),
          deliver clk (TrimSpace c) (resolve_now clk now) lease k r t)"
proof -
  define t where "t = swept clk (resolve_now clk now) lease reclaim s"
  have inv1: "mb_inv t" unfolding t_def using inv by (rule swept_inv)
  show ?thesis
  proof (cases "TrimSpace c = []")
    case True
    then show ?thesis by (intro no_consumer) (simp_all add: consume_def)
  next
    case False
    obtain m where unfolded: "consume clk c now lease reclaim s = takeMessage clk (TrimSpace c) (resolve_now clk now) lease m t"
      using False by (cases reclaim) (simp_all add: consume_def t_def swept_def case_prod_beta Let_def)
    show ?thesis
    proof (cases "firstIndex (consumable (resolve_now clk now) t) (mx_Queue t)")
      case None
      then show ?thesis using False unfolded by (intro empty [of m]) (simp_all add: t_def takeMessage_def)
    next
      case (Some k)
      have k: "k < length (mx_Queue t)" "consumable (resolve_now clk now) t (mx_Queue t ! k)" using firstIndex_Some [OF Some] by simp_all
      then have "mx_Queue t ! k \<in> stateIds StateQueued (mx_Records t)" using mb_inv_parts(3) [OF inv1] by (simp add: mail_queue_ok_def) (metis nth_mem)
      then obtain r where r: "fmlookup (mx_Records t) (mx_Queue t ! k) = Some r" "m_State r = StateQueued" by (auto simp: stateIds_def)
      have "TrimSpace (mx_Queue t ! k) = mx_Queue t ! k" using records_ok_lookup(3) [OF mb_inv_parts(2) [OF inv1] r(1)] by simp
      then show ?thesis
        using False Some k r unfolded by (intro delivered [of t k r]) (simp_all add: t_def [symmetric] takeMessage_def deliver_def Let_def)
    qed
  qed
qed

lemma consume_inv: "mb_inv s \<Longrightarrow> mb_inv (snd (consume clk c now lease reclaim s))"
proof -
  assume inv: "mb_inv s"
  then show ?thesis
  proof (cases rule: consume_cases [where c = c and clk = clk and now = now and lease = lease and reclaim = reclaim])
    case (delivered k r t)
    then show ?thesis using swept_inv [OF inv] by (simp add: deliver_inv)
  qed (simp_all add: inv swept_inv)
qed

end
