(* ===== verification/Mailbox_Steps.thy ===== *)
theory Mailbox_Steps
  imports Mailbox_Inv
begin

text \<open>
  Runs of the mailbox: the step relation over its operations, the invariant along every run, how a
  single record may change from one state to a later one, which records a delivery leaves alone, and
  the journal's own invariant.
\<close>

section \<open>The step relation\<close>

text \<open>
  The operations but for \<open>Restore\<close>, which \<open>Mailbox_Restore\<close> adds. The clock never reads the zero time,
  which is in the year one.
\<close>

inductive mb_step :: "mailbox_state \<Rightarrow> mailbox_state \<Rightarrow> bool" where
  step_publish: "clk \<noteq> 0 \<Longrightarrow> publish clk e now s = (res, t) \<Longrightarrow> mb_step s t"
| step_consume: "clk \<noteq> 0 \<Longrightarrow> consume clk c now lease reclaim s = (res, t) \<Longrightarrow> mb_step s t"
| step_heartbeat: "clk \<noteq> 0 \<Longrightarrow> mb_heartbeat clk mid c now lease s = (res, t) \<Longrightarrow> mb_step s t"
| step_ack: "clk \<noteq> 0 \<Longrightarrow> ack clk mid c now s = (res, t) \<Longrightarrow> mb_step s t"
| step_nack: "clk \<noteq> 0 \<Longrightarrow> nack clk mid c reason now opts s = (res, t) \<Longrightarrow> mb_step s t"
| step_requeue: "clk \<noteq> 0 \<Longrightarrow> mb_requeue clk mid c reason now opts s = (res, t) \<Longrightarrow> mb_step s t"
| step_trace: "mb_step s (setTraceEvents enabled s)"
| step_drain: "drainLifecycleEvents s = (evs, t) \<Longrightarrow> mb_step s t"
| step_fallback: "mb_step s (setFallback reason s)"

definition mb_init :: "mailbox_state \<Rightarrow> bool" where
  "mb_init s \<longleftrightarrow> (\<exists>source backend policy. s = newMailboxState source backend policy)"

lemma trace_inv: "mb_inv (setTraceEvents enabled s) = mb_inv s"
  by (rule mb_inv_cong) (simp_all add: setTraceEvents_def)

lemma drain_inv: "mb_inv (snd (drainLifecycleEvents s)) = mb_inv s"
  by (rule mb_inv_cong) (simp_all add: drainLifecycleEvents_def)

lemma fallback_inv: "mb_inv (setFallback reason s) = mb_inv s"
  by (simp add: setFallback_def mb_inv_def counts_ok_def)

interpretation mailbox: invariant_system mb_init mb_step mb_inv
proof unfold_locales
  show "mb_init s \<Longrightarrow> mb_inv s" for s by (auto simp: mb_init_def newMailboxState_inv)
  show "mb_inv s \<Longrightarrow> mb_step s t \<Longrightarrow> mb_inv t" for s t
    by (erule mb_step.cases)
      (metis publish_inv consume_inv heartbeat_inv ack_inv nack_inv requeue_inv trace_inv drain_inv fallback_inv snd_conv)+
qed

section \<open>How a record changes\<close>

definition final :: "message_state \<Rightarrow> bool" where
  "final st \<longleftrightarrow> st \<in> {StateAcked, StateDeadLetter, StateExpired}"

definition mail_evolves :: "mb_record \<Rightarrow> mb_record \<Rightarrow> bool" where
  "mail_evolves r r' \<longleftrightarrow>
     (final (m_State r) \<longrightarrow> r' = r) \<and> m_DeliveryAttempt r \<le> m_DeliveryAttempt r' \<and> m_CreatedAt r' = m_CreatedAt r
     \<and> (m_Envelope r')\<lparr>e_Attempt := 0\<rparr> = (m_Envelope r)\<lparr>e_Attempt := 0\<rparr>"

definition evolve :: "mailbox_state \<Rightarrow> mailbox_state \<Rightarrow> bool" where
  "evolve s t \<longleftrightarrow>
     (\<forall>i r. fmlookup (mx_Records s) i = Some r \<longrightarrow> (\<exists>r'. fmlookup (mx_Records t) i = Some r' \<and> mail_evolves r r'))"

lemma mail_evolves_refl [simp]: "mail_evolves r r"
  by (simp add: mail_evolves_def)

lemma mail_evolves_trans: "mail_evolves a b \<Longrightarrow> mail_evolves b c \<Longrightarrow> mail_evolves a c"
  by (auto simp: mail_evolves_def)

lemma evolve_same: "mx_Records t = mx_Records s \<Longrightarrow> evolve s t"
  by (simp add: evolve_def)

lemma evolve_trans: "evolve s t \<Longrightarrow> evolve t u \<Longrightarrow> evolve s u"
  unfolding evolve_def by (meson mail_evolves_trans)

lemma evolve_put:
  "fmlookup (mx_Records s) i = Some r0 \<Longrightarrow> mail_evolves r0 r \<Longrightarrow> mx_Records t = fmupd i r (mx_Records s) \<Longrightarrow> evolve s t"
  by (simp add: evolve_def)

lemma publish_evolve: "evolve s (snd (publish clk e now s))"
proof -
  have dup: "evolve s (snd (publishDuplicate n x s))" for n x
    by (rule evolve_same) (simp add: publishDuplicate_def bumpDuplicatePublish_def)
  have new: "evolve s (snd (publishNew n t s))" if "fmlookup (mx_Records s) (e_MessageID n) = None" for n t
    using that by (auto simp: evolve_def publishNew_def Let_def mb_frame)
  show ?thesis by (auto simp: publish_def dup new evolve_same split: sum.split option.split)
qed

lemma heartbeat_evolve: "evolve s (snd (mb_heartbeat clk mid c now lease s))"
proof (cases "requireInflightRecord mid c s")
  case (Pair ro eo)
  show ?thesis
  proof (cases "\<exists>r. ro = Some r \<and> eo = None")
    case True
    then obtain r where r: "requireInflightRecord mid c s = (Some r, None)" using Pair by auto
    note look = requireInflight_Some(1,2) [OF r]
    show ?thesis
      unfolding mb_heartbeat_def r prod.case option.case Let_def snd_conv
      by (rule evolve_put [OF look(1)]) (use look in \<open>simp_all add: mail_evolves_def final_def mb_frame\<close>)
  next
    case False
    then show ?thesis using Pair by (auto simp: mb_heartbeat_def evolve_same split: option.splits)
  qed
qed

lemma ack_evolve: "evolve s (snd (ack clk mid c now s))"
proof (cases "requireInflightRecord mid c s")
  case (Pair ro eo)
  show ?thesis
  proof (cases "\<exists>r. ro = Some r \<and> eo = None")
    case True
    then obtain r where r: "requireInflightRecord mid c s = (Some r, None)" using Pair by auto
    note look = requireInflight_Some(1,2) [OF r]
    show ?thesis
      unfolding ack_def r prod.case option.case Let_def snd_conv
      by (rule evolve_put [OF look(1)]) (use look in \<open>simp_all add: mail_evolves_def final_def mb_frame clearLease_def\<close>)
  next
    case False
    then show ?thesis using Pair by (auto simp: ack_def evolve_same split: option.splits)
  qed
qed

lemma deadLetter_evolve:
  assumes "fmlookup (mx_Records s) i = Some r0" "mail_evolves r0 r" "\<not> final (m_State r0)"
  shows "evolve s (snd (deadLetter clk i code r opts s))"
  by (rule evolve_put [OF assms(1)]) (use assms(2,3) in \<open>simp_all add: deadLetter_def Let_def mb_frame mail_evolves_def\<close>)

lemma retryMessage_evolve:
  assumes "fmlookup (mx_Records s) i = Some r" "m_State r = StateNacked"
  shows "evolve s (snd (retryMessage clk i code now opts r s))"
proof -
  have "mail_evolves r (r\<lparr>m_UpdatedAt := now\<rparr>)" "\<not> final (m_State r)" using assms(2) by (simp_all add: mail_evolves_def final_def)
  note dead = deadLetter_evolve [OF assms(1) this]
  have "evolve s (snd (retryMessage clk i code now opts r s))"
    if "\<not> (po_MaxAttempts (mx_Policy s) \<le> m_DeliveryAttempt r \<and> po_DLQEnabled (mx_Policy s))"
    using that assms
    by (cases "po_MaxAttempts (mx_Policy s) \<le> m_DeliveryAttempt r")
      (simp_all add: retryMessage_def Let_def mb_frame evolve_def, simp_all add: mail_evolves_def final_def clearLease_def)
  then show ?thesis using dead by (cases "po_MaxAttempts (mx_Policy s) \<le> m_DeliveryAttempt r \<and> po_DLQEnabled (mx_Policy s)") (simp_all add: retryMessage_def)
qed

lemma nackRecord_evolves: "m_State r = StateInFlight \<Longrightarrow> mail_evolves r (nackRecord code r)"
  by (simp add: mail_evolves_def final_def nackRecord_def clearLease_def)

lemma nack_evolve: "evolve s (snd (nack clk mid c reason now opts s))"
proof (cases "requireInflightRecord mid c s")
  case (Pair ro eo)
  show ?thesis
  proof (cases "\<exists>r. ro = Some r \<and> eo = None")
    case True
    then obtain r where r: "requireInflightRecord mid c s = (Some r, None)" using Pair by auto
    note look = requireInflight_Some(1,2) [OF r]
    define code where "code = CanonicalizeLifecycleReason reason LifecycleReasonHandlerError"
    define r1 where "r1 = (nackRecord code r)\<lparr>m_UpdatedAt := resolve_now clk now\<rparr>"
    define s1 where "s1 = emitLifecycleEvent clk TransitionNack r1 code opts
      (putRecord (TrimSpace mid) r1 s\<lparr>mx_Stats := nackStats (mx_Stats s)\<rparr>)"
    have r1: "mail_evolves r r1" "\<not> final (m_State r1)"
      using look(2) by (simp_all add: r1_def mail_evolves_def final_def nackRecord_def clearLease_def)
    have s1: "evolve s s1" "fmlookup (mx_Records s1) (TrimSpace mid) = Some r1"
      using evolve_put [OF look(1) r1(1), of s1] by (simp_all add: s1_def mb_frame)
    show ?thesis
      unfolding nack_def r prod.case option.case Let_def code_def [symmetric] r1_def [symmetric] s1_def [symmetric]
      using s1 evolve_trans [OF s1(1) deadLetter_evolve [OF s1(2) mail_evolves_refl r1(2)]] by (simp add: case_prod_beta)
  next
    case False
    then show ?thesis using Pair by (auto simp: nack_def evolve_same split: option.splits)
  qed
qed

lemma requeue_evolve: "evolve s (snd (mb_requeue clk mid c reason now opts s))"
proof -
  define i code where "i = TrimSpace mid" and "code = CanonicalizeLifecycleReason reason LifecycleReasonHandlerError"
  have flight: "evolve s (snd (retryMessage clk i code t opts (nackRecord code r)
      (emitLifecycleEvent clk TransitionNack (nackRecord code r) code opts
         (putRecord i (nackRecord code r) s\<lparr>mx_Stats := nackStats (mx_Stats s)\<rparr>))))"
    if "fmlookup (mx_Records s) i = Some r" "m_State r = StateInFlight" for r t
    by (rule evolve_trans [OF evolve_put [OF that(1) nackRecord_evolves [OF that(2)]] retryMessage_evolve]) (simp_all add: mb_frame)
  show ?thesis
    unfolding mb_requeue_def Let_def i_def [symmetric] code_def [symmetric]
    using flight by (simp add: case_prod_beta evolve_same retryMessage_evolve split: option.split message_state.split)
qed

lemma expireRecord_evolve:
  assumes "fmlookup (mx_Records s) i = Some r" "m_State r = StateQueued"
  shows "evolve s (expireRecord clk i r now s)"
  by (rule evolve_put [OF assms(1) _ expireRecord_fields(1)])
    (use assms(2) in \<open>simp add: mail_evolves_def final_def expiredRecord_def clearLease_def\<close>)

lemma expireQueuedLoop_evolve: "evolve s (snd (expireQueuedLoop clk now qs s))"
proof (induction qs arbitrary: s)
  case (Cons q qs)
  show ?case
    using Cons.IH evolve_trans [OF expireRecord_evolve Cons.IH]
    by (simp add: Let_def case_prod_beta split: option.split)
qed (simp add: evolve_same)

lemma expireQueued_evolve: "evolve s (snd (expireQueued clk now s))"
  using evolve_trans [OF expireQueuedLoop_evolve evolve_same] by (simp add: expireQueued_def case_prod_beta evolve_same)

lemma reclaimLoop_evolve: "evolve s (snd (reclaimLoop clk now mids s))"
proof (induction mids arbitrary: s)
  case (Cons i mids)
  show ?case using evolve_trans [OF requeue_evolve Cons.IH] by (simp add: case_prod_beta)
qed (simp add: evolve_same)

lemma swept_evolve: "evolve s (swept clk now lease reclaim s)"
  using evolve_trans [OF expireQueued_evolve reclaimLoop_evolve] expireQueued_evolve
  by (simp add: swept_def Let_def reclaimStaleInFlight_def)

lemma deliver_evolve:
  assumes "fmlookup (mx_Records s) (mx_Queue s ! k) = Some r" "m_State r = StateQueued"
  shows "evolve s (deliver clk c now lease k r s)"
  by (rule evolve_put [OF assms(1), of "deliverRecord c now lease r"])
    (use assms(2) in \<open>simp_all add: deliver_def mb_frame mail_evolves_def final_def\<close>, simp add: deliverRecord_def Let_def)

lemma consume_evolve: "mb_inv s \<Longrightarrow> evolve s (snd (consume clk c now lease reclaim s))"
proof -
  assume "mb_inv s"
  then show ?thesis
  proof (cases rule: consume_cases [where c = c and clk = clk and now = now and lease = lease and reclaim = reclaim])
    case (delivered k r t)
    then show ?thesis using evolve_trans [OF swept_evolve deliver_evolve] by simp
  qed (simp_all add: evolve_same swept_evolve)
qed

lemma mb_step_evolve: "mb_step s t \<Longrightarrow> mb_inv s \<Longrightarrow> evolve s t"
  by (erule mb_step.cases)
    (metis publish_evolve consume_evolve heartbeat_evolve ack_evolve nack_evolve requeue_evolve snd_conv
      | auto simp: setTraceEvents_def drainLifecycleEvents_def setFallback_def intro: evolve_same)+

lemma mb_steps_evolve: "mb_step\<^sup>*\<^sup>* s t \<Longrightarrow> mb_inv s \<Longrightarrow> evolve s t"
proof (induction rule: rtranclp_induct)
  case base
  then show ?case by (simp add: evolve_same)
next
  case (step t u)
  then show ?case using evolve_trans mb_step_evolve mailbox.steps_invar by blast
qed

section \<open>What a delivery leaves alone\<close>

lemma retryMessage_other:
  "j \<noteq> i \<Longrightarrow> fmlookup (mx_Records (snd (retryMessage clk i code now opts r s))) j = fmlookup (mx_Records s) j"
  by (simp add: retryMessage_def deadLetter_def Let_def mb_frame)

lemma requeue_other:
  "j \<noteq> TrimSpace mid \<Longrightarrow> fmlookup (mx_Records (snd (mb_requeue clk mid c reason now opts s))) j = fmlookup (mx_Records s) j"
  by (simp add: mb_requeue_def Let_def case_prod_beta retryMessage_other mb_frame split: option.split message_state.split)

lemma reclaimLoop_other:
  "j \<notin> TrimSpace ` set mids \<Longrightarrow> fmlookup (mx_Records (snd (reclaimLoop clk now mids s))) j = fmlookup (mx_Records s) j"
  by (induction mids arbitrary: s) (simp_all add: case_prod_beta requeue_other)

lemma expireQueuedLoop_other:
  assumes "fmlookup (mx_Records s) j = Some r" "m_State r \<noteq> StateQueued"
  shows "fmlookup (mx_Records (snd (expireQueuedLoop clk now qs s))) j = Some r"
  using assms(1)
proof (induction qs arbitrary: s)
  case (Cons q qs)
  have "TrimSpace q \<noteq> j" if "fmlookup (mx_Records s) (TrimSpace q) = Some x" "m_State x = StateQueued" for x
    using that Cons.prems assms(2) by auto
  then show ?case
    using Cons.IH [OF Cons.prems] Cons.IH [of "expireRecord clk (TrimSpace q) x now s" for x] Cons.prems
    by (simp add: Let_def case_prod_beta expireRecord_fields split: option.split)
qed simp

lemma swept_keeps:
  assumes inv: "mb_inv s" and look: "fmlookup (mx_Records s) j = Some r" "m_State r = StateInFlight"
    and held: "\<not> (reclaim \<and> 0 < lease \<and> leaseExpired r now lease)"
  shows "fmlookup (mx_Records (swept clk now lease reclaim s)) j = Some r"
proof -
  let ?s = "snd (expireQueued clk now s)"
  have kept: "fmlookup (mx_Records ?s) j = Some r"
    using expireQueuedLoop_other [OF look(1)] look by (simp add: expireQueued_def case_prod_beta)
  note ids = records_ok_lookup(3) [OF mb_inv_parts(2) [OF expireQueued_inv [OF inv]]]
  have "j \<notin> TrimSpace ` set (staleInFlight now lease ?s)" if "\<not> leaseExpired r now lease"
    using that kept ids by (auto simp: staleInFlight_def mem_sorted_keys)
  then show ?thesis
    using held kept by (auto simp: swept_def Let_def reclaimStaleInFlight_def reclaimLoop_other)
qed

section \<open>Bounds of the retry delay\<close>

lemma double_exact:
  assumes "0 \<le> d" "d \<le> 2 ^ 52"
  shows "f64_to_int64 (f64_mul (f64_of_int d) (F64 2)) = 2 * d"
proof -
  have "f64_of_int d = F64 (of_int d)" using assms by (intro f64_of_int_exact) simp_all
  then have "f64_mul (f64_of_int d) (F64 2) = f64_round (of_int (2 * d))" by (simp add: mult.commute)
  also have "\<dots> = F64 (of_int (2 * d))" using assms by (intro f64_round_int_exact) simp_all
  finally have "f64_mul (f64_of_int d) (F64 2) = F64 (of_int (2 * d))" .
  moreover have "trunc (of_int (2 * d)) = 2 * d" using assms(1) unfolding trunc_def by (simp del: of_int_mult)
  ultimately show ?thesis using assms by (simp del: of_int_mult)
qed

text \<open>The loop's exponential growth, cut at the maximum.\<close>

lemma doubleDelay_eq:
  "0 < d \<Longrightarrow> d \<le> limit \<Longrightarrow> limit \<le> 2 ^ 52 \<Longrightarrow> doubleDelay n limit d = min limit (2 ^ n * d)"
proof (induction n arbitrary: d)
  case (Suc n)
  have d: "f64_to_int64 (f64_mul (f64_of_int d) (F64 2)) = 2 * d" using Suc.prems by (intro double_exact) simp_all
  show ?case
  proof (cases "limit < 2 * d")
    case True
    have "2 * d * 1 \<le> 2 * d * 2 ^ n" using Suc.prems by (intro mult_left_mono) simp_all
    then have "limit \<le> 2 ^ Suc n * d" using True by (simp add: mult.commute mult.left_commute)
    then show ?thesis using True d by simp
  next
    case False
    then show ?thesis using Suc.IH [of "2 * d"] Suc.prems d by (simp add: mult.commute mult.left_commute)
  qed
qed simp

lemma mail_retryDelay_bounds:
  assumes p: "policy_ok p" "po_BackoffMax p \<le> 2 ^ 52" and n: "1 \<le> n"
  shows "0 \<le> mb_retryDelay p i n" "mb_retryDelay p i n \<le> po_BackoffMax p"
    "f64_le (po_JitterRatio p) (F64 0) \<Longrightarrow> mb_retryDelay p i n = min (po_BackoffMax p) (2 ^ nat (n - 1) * po_BackoffInitial p)"
proof -
  define d where "d = min (po_BackoffMax p) (2 ^ nat (n - 1) * po_BackoffInitial p)"
  have b: "0 < po_BackoffInitial p" "po_BackoffInitial p \<le> po_BackoffMax p" using p(1) by (simp_all add: policy_ok_def)
  have d: "0 \<le> d" "d \<le> po_BackoffMax p" using b by (simp_all add: d_def)
  have grow: "(if n \<le> 1 then po_BackoffInitial p else doubleDelay (nat (n - 1)) (po_BackoffMax p) (po_BackoffInitial p)) = d"
    using n b p(2) doubleDelay_eq [of "po_BackoffInitial p" "po_BackoffMax p" "nat (n - 1)"] by (auto simp: d_def)
  have eq: "mb_retryDelay p i n =
      (if n \<le> 1 \<or> f64_le (po_JitterRatio p) (F64 0) then d
       else let window = f64_to_int64 (f64_mul (f64_of_int d) (po_JitterRatio p)) in
            if window \<le> 0 then d
            else min (po_BackoffMax p) (max 0 (wrap64 (d + jitter_offset (stableJitterSeed i n) window))))"
    using b grow by (auto simp: mb_retryDelay_def policy_ok_fix [OF p(1)] Let_def min_def max_def)
  show "0 \<le> mb_retryDelay p i n" "mb_retryDelay p i n \<le> po_BackoffMax p"
    unfolding eq Let_def using d by auto
  show "f64_le (po_JitterRatio p) (F64 0) \<Longrightarrow> mb_retryDelay p i n = min (po_BackoffMax p) (2 ^ nat (n - 1) * po_BackoffInitial p)"
    by (simp add: eq d_def)
qed

end
