(* ===== verification/Mailbox_Journal.thy ===== *)
theory Mailbox_Journal
  imports Mailbox_Steps Paged_Query
begin

text \<open>
  Reading the mailbox journal (\<open>src/orchestration/mailbox/history.go\<close>, with the source and limit
  checks of \<open>src/core/types/native_event_history.go\<close>): the cursors and their text form, \<open>ReadAfter\<close>
  up to the page it builds, that the journal of every reachable state has no gap, and that following
  the pages from the retention floor returns every retained entry once and in order.
\<close>

section \<open>Cursors\<close>

datatype history_error =
    HErrUnsupported | HErrCursorMalformed | HErrCursorForeign | HErrCursorExpired | HErrGap
  | HErrSourceUnavailable | HErrInvalid

record history_cursor =
  hc_Source :: source_ref
  hc_After :: "64 word"

abbreviation MaxHistoryCursorBytes :: nat where "MaxHistoryCursorBytes \<equiv> 4096"
abbreviation MaxHistoryPageSize :: int where "MaxHistoryPageSize \<equiv> 200"

definition validCursorText :: "string \<Rightarrow> bool" where
  "validCursorText v \<longleftrightarrow> ValidString v \<and> TrimSpace v \<noteq> [] \<and> length v \<le> MaxHistoryCursorBytes"

definition validLimit :: "int \<Rightarrow> bool" where
  "validLimit limit \<longleftrightarrow> \<not> (limit \<le> 0 \<or> MaxHistoryPageSize < limit)"

fun kind_string :: "history_source_kind \<Rightarrow> string" where
  "kind_string HistorySourceRunner = ''runner''"
| "kind_string HistorySourceChild = ''child''"
| "kind_string HistorySourceTeam = ''team''"
| "kind_string HistorySourceWorkflow = ''workflow''"
| "kind_string HistorySourceMailbox = ''mailbox''"
| "kind_string (HistorySourceOther k) = k"

definition kind_of :: "string \<Rightarrow> history_source_kind" where
  "kind_of k =
     (if k = ''runner'' then HistorySourceRunner else if k = ''child'' then HistorySourceChild
      else if k = ''team'' then HistorySourceTeam else if k = ''workflow'' then HistorySourceWorkflow
      else if k = ''mailbox'' then HistorySourceMailbox else HistorySourceOther k)"

definition cursorJson :: "history_cursor \<Rightarrow> json" where
  "cursorJson c =
     JObject
       [(''version'', JString HistoryVersion),
        (''source'', JObject [(''kind'', JString (kind_string (sr_Kind (hc_Source c)))),
                              (''namespace'', JString (sr_Namespace (hc_Source c))), (''id'', JString (sr_ID (hc_Source c)))]),
        (''after'', JNumber (nat_dec (unat (hc_After c))))]"

definition encodeHistoryCursor :: "history_cursor \<Rightarrow> string" where
  "encodeHistoryCursor c = b64_encode (json_text (cursorJson c))"

text \<open>
  The cursor in a decoded object. Members in another order, missing, repeated, in other letter case or
  unknown are left to the comparison with the canonical text, which rejects them.
\<close>

fun cursorOf :: "json \<Rightarrow> history_cursor option" where
  "cursorOf (JObject [(k1, JString v), (k2, JObject [(k3, JString kind), (k4, JString ns), (k5, JString i)]), (k6, JNumber n)]) =
     (if k1 = ''version'' \<and> v = HistoryVersion \<and> k2 = ''source'' \<and> k3 = ''kind'' \<and> k4 = ''namespace'' \<and> k5 = ''id''
         \<and> k6 = ''after'' \<and> list_all digit n \<and> dec_val n < 2 ^ 64
      then Some \<lparr>hc_Source = \<lparr>sr_Kind = kind_of kind, sr_Namespace = ns, sr_ID = i\<rparr>, hc_After = of_nat (dec_val n)\<rparr>
      else None)"
| "cursorOf _ = None"

definition decodeHistoryCursor :: "string \<Rightarrow> (history_error, history_cursor) result" where
  "decodeHistoryCursor value =
     (if \<not> validCursorText value then Err HErrCursorMalformed
      else
        case Option.bind (Option.bind (b64_decode value) json_parse) cursorOf of
          None \<Rightarrow> Err HErrCursorMalformed
        | Some c \<Rightarrow>
            if \<not> validSource (hc_Source c) \<or> encodeHistoryCursor c \<noteq> value then Err HErrCursorMalformed else Ok c)"

section \<open>Reading a page\<close>

text \<open>The loop that looks for a gap, from the floor to the last sequence number.\<close>

fun gapFree :: "64 word \<Rightarrow> 64 word \<Rightarrow> history_entry list \<Rightarrow> bool" where
  "gapFree previous sequence [] = (previous = sequence)"
| "gapFree previous sequence (x # xs) = (he_Sequence x = previous + 1 \<and> gapFree (he_Sequence x) sequence xs)"

record native_event =
  ne_NativeType :: string
  ne_Source :: source_ref
  ne_Sequence :: "64 word"
  ne_EventID :: string
  ne_TerminalOutcome :: string
  ne_RunID :: string
  ne_CausationID :: string
  ne_Time :: time
  ne_Outcome :: host_plan_outcome
  ne_Reclaimed :: bool
  ne_DurableHistory :: bool

definition native :: "source_ref \<Rightarrow> bool \<Rightarrow> history_entry \<Rightarrow> native_event" where
  "native source durable x =
     \<lparr>ne_NativeType = ''mailbox.'' @ TrimSpace (he_Transition x), ne_Source = source, ne_Sequence = he_Sequence x,
      ne_EventID = HistoryVersion @ ''/'' @ sr_ID source @ ''/'' @ nat_dec (unat (he_Sequence x)),
      ne_TerminalOutcome = ho_TerminalOutcome (he_Outcome x), ne_RunID = ho_RunID (he_Outcome x),
      ne_CausationID = ho_AttemptCausation (he_Outcome x), ne_Time = he_Time x, ne_Outcome = he_Outcome x,
      ne_Reclaimed = he_Reclaimed x, ne_DurableHistory = durable\<rparr>"

record event_page =
  ep_Events :: "native_event list"
  ep_NextCursor :: string
  ep_RetentionFloor :: string
  ep_Complete :: bool

text \<open>The loop that collects the events after a position: the entries and the last position.\<close>

fun collect :: "64 word \<Rightarrow> nat \<Rightarrow> history_entry list \<Rightarrow> history_entry list \<times> 64 word" where
  "collect after room [] = ([], after)"
| "collect after room (x # xs) =
     (if he_Sequence x \<le> after then collect after room xs
      else if room = 0 then ([], after)
      else apfst (\<lambda>ys. x # ys) (collect (he_Sequence x) (room - 1) xs))"

text \<open>
  \<open>ReadAfter\<close> of a mailbox whose store answers \<open>history\<close>: the journal and whether it is durable, or
  no answer. An error with a retention floor is returned with an empty page that names it.
\<close>

definition readAfter ::
  "(history_journal \<times> bool) option \<Rightarrow> source_ref \<Rightarrow> string option \<Rightarrow> int \<Rightarrow> (history_error, event_page) result" where
  "readAfter history source cursor limit =
     (if \<not> validSource source then Err HErrInvalid
      else if \<not> validLimit limit then Err HErrInvalid
      else
        case (case cursor of
                None \<Rightarrow> Ok None
              | Some v \<Rightarrow>
                  (case decodeHistoryCursor v of
                     Inl e \<Rightarrow> Err e
                   | Inr c \<Rightarrow> if hc_Source c \<noteq> source then Err HErrCursorForeign else Ok (Some c))) of
          Inl e \<Rightarrow> Err e
        | Inr decoded \<Rightarrow>
            if sr_Kind source \<noteq> HistorySourceMailbox then Err HErrUnsupported
            else
              case history of
                None \<Rightarrow> Err HErrSourceUnavailable
              | Some (h, durable) \<Rightarrow>
                  if hj_Unavailable h then Err HErrSourceUnavailable
                  else if source \<noteq> journalSource h then Err HErrCursorForeign
                  else
                    let after = (case decoded of None \<Rightarrow> hj_Floor h | Some c \<Rightarrow> hc_After c) in
                    if after < hj_Floor h then Err HErrCursorExpired
                    else if hj_Sequence h < after then Err HErrGap
                    else if \<not> gapFree (hj_Floor h) (hj_Sequence h) (hj_Entries h) then Err HErrGap
                    else
                      let (xs, last) = collect after (nat limit) (hj_Entries h)
                      in Ok \<lparr>ep_Events = map (native source durable) xs,
                             ep_NextCursor = encodeHistoryCursor \<lparr>hc_Source = source, hc_After = last\<rparr>,
                             ep_RetentionFloor = encodeHistoryCursor \<lparr>hc_Source = source, hc_After = hj_Floor h\<rparr>,
                             ep_Complete = (last = hj_Sequence h)\<rparr>)"

section \<open>The journal never has a gap\<close>

definition journal_ok :: "history_journal \<Rightarrow> bool" where
  "journal_ok h \<longleftrightarrow>
     hj_Version h = HistoryVersion \<and> length (hj_Entries h) \<le> HistoryRetentionEntries
     \<and> list_all validHistoryEntry (hj_Entries h)
     \<and> gapFree (hj_Floor h) (if hj_Unavailable h then hj_Sequence h - 1 else hj_Sequence h) (hj_Entries h)"

lemma gapFree_snoc: "gapFree p q xs \<Longrightarrow> he_Sequence x = q + 1 \<Longrightarrow> gapFree p (q + 1) (xs @ [x])"
  by (induction xs arbitrary: p) auto

lemma appendJournal_ok:
  assumes "journal_ok h"
  shows "journal_ok (appendJournal tr r reason opts h)"
proof (cases "hj_Unavailable h")
  case True
  then show ?thesis using assms by (simp add: appendJournal_def)
next
  case False
  define x where "x = \<lparr>he_Sequence = hj_Sequence h + 1, he_Transition = tr, he_Time = m_UpdatedAt r,
                       he_Outcome = historyOutcome tr r reason, he_Reclaimed = ao_Reclaimed opts\<rparr>"
  have before: "gapFree (hj_Floor h) (hj_Sequence h) (hj_Entries h)" using assms False by (simp add: journal_ok_def)
  have gap: "gapFree (hj_Floor h) (hj_Sequence h + 1) (hj_Entries h @ [x])"
    by (rule gapFree_snoc [OF before]) (simp add: x_def)
  have tail: "gapFree (he_Sequence (hd ys)) q (tl ys)" if "gapFree p q ys" "ys \<noteq> []" for p q ys using that by (cases ys) auto
  have len: "hj_Version h = HistoryVersion" "length (hj_Entries h) \<le> HistoryRetentionEntries" "list_all validHistoryEntry (hj_Entries h)"
    using assms by (simp_all add: journal_ok_def)
  have "list_all validHistoryEntry (tl (hj_Entries h @ [x]))" if "validHistoryEntry x"
    using len(3) that by (cases "hj_Entries h") simp_all
  then show ?thesis
    using False len before gap tail [OF gap] unfolding appendJournal_def Let_def x_def [symmetric]
    by (simp add: journal_ok_def)
qed

lemma appendJournal_source [simp]: "hj_SourceID (appendJournal tr r reason opts h) = hj_SourceID h"
  by (simp add: appendJournal_def Let_def)

text \<open>Every operation only appends to the journal.\<close>

inductive appends :: "history_journal \<Rightarrow> history_journal \<Rightarrow> bool" where
  appends_refl: "appends h h"
| appends_step: "appends h g \<Longrightarrow> appends h (appendJournal tr r reason opts g)"

lemma appends_ok: "appends h g \<Longrightarrow> journal_ok h \<Longrightarrow> journal_ok g"
  by (induction rule: appends.induct) (simp_all add: appendJournal_ok)

lemma appends_source: "appends h g \<Longrightarrow> hj_SourceID g = hj_SourceID h"
  by (induction rule: appends.induct) simp_all

lemma appends_trans: "appends g k \<Longrightarrow> appends h g \<Longrightarrow> appends h k"
  by (induction rule: appends.induct) (auto intro: appends.intros)

lemma emit_appends [simp]:
  "mx_History (emitLifecycleEvent clk tr r reason opts s) = appendJournal (transition_string tr) r reason opts (mx_History s)"
  by (simp add: emitLifecycleEvent_def Let_def appendHistory_def)

lemma putRecord_history [simp]: "mx_History (putRecord mid r s) = mx_History s"
  by (simp add: putRecord_def)

lemma appends_emit [intro]: "appends h (mx_History s) \<Longrightarrow> appends h (mx_History (emitLifecycleEvent clk tr r reason opts s))"
  by (simp add: appends_step)

lemma retryMessage_appends: "appends (mx_History s) (mx_History (snd (retryMessage clk i code now opts r s)))"
  by (simp add: retryMessage_def deadLetter_def Let_def appends.intros)

lemma requeue_appends: "appends (mx_History s) (mx_History (snd (mb_requeue clk mid c reason now opts s)))"
proof -
  have flight: "appends (mx_History s) (mx_History (snd (retryMessage clk i code t opts r
      (emitLifecycleEvent clk tr r code opts (putRecord i r s\<lparr>mx_Stats := st\<rparr>)))))" for i code t r tr st
    by (rule appends_trans [OF retryMessage_appends]) (simp add: appends.intros)
  show ?thesis
    by (simp add: mb_requeue_def Let_def case_prod_beta flight retryMessage_appends appends.intros
        split: option.split message_state.split)
qed

lemma expireRecord_appends: "appends (mx_History s) (mx_History (expireRecord clk i r now s))"
  by (simp add: expireRecord_def Let_def appends.intros)

lemma expireQueuedLoop_appends: "appends (mx_History s) (mx_History (snd (expireQueuedLoop clk now qs s)))"
proof (induction qs arbitrary: s)
  case (Cons q qs)
  show ?case
    using Cons.IH appends_trans [OF Cons.IH expireRecord_appends]
    by (simp add: Let_def case_prod_beta split: option.split)
qed (simp add: appends_refl)

lemma reclaimLoop_appends: "appends (mx_History s) (mx_History (snd (reclaimLoop clk now mids s)))"
proof (induction mids arbitrary: s)
  case (Cons i mids)
  show ?case using appends_trans [OF Cons.IH requeue_appends] by (simp add: case_prod_beta)
qed (simp add: appends_refl)

lemma swept_appends: "appends (mx_History s) (mx_History (swept clk now lease reclaim s))"
proof -
  have expire: "appends (mx_History s) (mx_History (snd (expireQueued clk now s)))"
    by (simp add: expireQueued_def case_prod_beta expireQueuedLoop_appends appends_refl)
  then show ?thesis
    using appends_trans [OF reclaimLoop_appends expire] by (simp add: swept_def Let_def reclaimStaleInFlight_def)
qed

lemma consume_appends:
  assumes "mb_inv s"
  shows "appends (mx_History s) (mx_History (snd (consume clk c now lease reclaim s)))"
  using assms
proof (cases rule: consume_cases [where c = c and clk = clk and now = now and lease = lease and reclaim = reclaim])
  case (delivered k r t)
  then show ?thesis using swept_appends by (simp add: deliver_def appends_step)
qed (simp_all add: appends_refl swept_appends)

lemma publish_appends: "appends (mx_History s) (mx_History (snd (publish clk e now s)))"
  by (auto simp: publish_def publishDuplicate_def bumpDuplicatePublish_def publishNew_def appendHistory_def Let_def
      appends.intros split: sum.split option.split)

lemma settle_appends:
  "appends (mx_History s) (mx_History (snd (mb_heartbeat clk mid c now lease s)))"
  "appends (mx_History s) (mx_History (snd (ack clk mid c now s)))"
  "appends (mx_History s) (mx_History (snd (nack clk mid c reason now opts s)))"
  by (auto simp: mb_heartbeat_def ack_def nack_def deadLetter_def Let_def appends.intros split: prod.split option.split)

lemma step_appends: "mb_step s t \<Longrightarrow> mb_inv s \<Longrightarrow> appends (mx_History s) (mx_History t)"
  by (erule mb_step.cases)
    (metis publish_appends consume_appends settle_appends requeue_appends snd_conv
      | auto simp: setTraceEvents_def drainLifecycleEvents_def setFallback_def intro: appends_refl)+

interpretation journal: invariant_system mb_init mb_step "\<lambda>s. mb_inv s \<and> journal_ok (mx_History s)"
proof unfold_locales
  show "mb_init s \<Longrightarrow> mb_inv s \<and> journal_ok (mx_History s)" for s
    using newMailboxState_inv by (auto simp: mb_init_def newMailboxState_def newHistoryJournal_def journal_ok_def)
  show "mb_inv s \<and> journal_ok (mx_History s) \<Longrightarrow> mb_step s t \<Longrightarrow> mb_inv t \<and> journal_ok (mx_History t)" for s t
    using mailbox.step_invar step_appends appends_ok by blast
qed

section \<open>Cursor text\<close>

lemma ValidString_ascii: "\<forall>c \<in> set s. of_char c < (128::nat) \<Longrightarrow> ValidString s"
proof (induction s)
  case (Cons c s)
  then show ?case by (subst ValidString.simps) (simp add: utf8_ranges_def)
qed (simp add: ValidString.simps)

lemma ValidString_b64: "ValidString (b64_encode s)"
proof (rule ValidString_ascii, rule ballI)
  fix c
  assume "c \<in> set (b64_encode s)"
  then have "plain_byte c" using b64_encode_plain [of s] unfolding b64_plain_def by blast
  then show "of_char c < (128::nat)" by (simp add: plain_byte_def)
qed

lemma length_b64_encode: "3 * length (b64_encode s) \<le> 4 * length s + 4"
proof -
  have "3 * length (b64_values s) \<le> 4 * length s + 4" by (induction s rule: b64_values.induct) (auto simp: Let_def)
  then show ?thesis by (simp add: b64_encode_def)
qed

lemma length_nat_dec: "n < 10 ^ Suc k \<Longrightarrow> length (nat_dec n) \<le> Suc k"
proof (induction k arbitrary: n)
  case 0
  then show ?case by (subst nat_dec.simps) simp
next
  case (Suc k)
  then have "n div 10 < 10 ^ Suc k" by (simp add: less_mult_imp_div_less mult.commute)
  then show ?case using Suc.IH [of "n div 10"] by (subst nat_dec.simps) simp
qed

text \<open>What \<open>crypto/rand.Text\<close> returns: a nonempty text over the base32 alphabet, of 26 characters at present.\<close>

definition rand_text :: "string \<Rightarrow> bool" where
  "rand_text i \<longleftrightarrow> i \<noteq> [] \<and> length i \<le> 1024 \<and> set i \<subseteq> set ''ABCDEFGHIJKLMNOPQRSTUVWXYZ234567''"

lemma rand_text_plain:
  assumes "rand_text i"
  shows "\<forall>c \<in> set i. json_plain c" "\<forall>c \<in> set i. of_char c < (128::nat)" "TrimSpace i = i"
proof -
  have chars: "\<forall>c \<in> set ''ABCDEFGHIJKLMNOPQRSTUVWXYZ234567''. json_plain c \<and> of_char c < (128::nat) \<and> plain_byte c"
    by code_simp
  then show "\<forall>c \<in> set i. json_plain c" "\<forall>c \<in> set i. of_char c < (128::nat)"
    using assms by (auto simp: rand_text_def)
  have "\<forall>c \<in> set i. plain_byte c" using assms chars by (auto simp: rand_text_def)
  then show "TrimSpace i = i" by (intro TrimSpace_trimmed trimmed_plain) auto
qed

definition mailbox_source :: "string \<Rightarrow> source_ref" where
  "mailbox_source i = \<lparr>sr_Kind = HistorySourceMailbox, sr_Namespace = HistoryVersion, sr_ID = i\<rparr>"

lemma journalSource_eq: "journalSource h = mailbox_source (hj_SourceID h)"
  by (simp add: journalSource_def mailbox_source_def)

lemma valid_mailbox_source: "rand_text i \<Longrightarrow> validSource (mailbox_source i)"
proof -
  assume i: "rand_text i"
  have "validReference i" using i rand_text_plain [OF i] by (simp add: validReference_def ValidString_ascii rand_text_def)
  moreover have "validReference HistoryVersion" by code_simp
  ultimately show ?thesis by (simp add: validSource_def mailbox_source_def)
qed

lemma history_cursor_round_trip:
  assumes "rand_text i"
  shows "decodeHistoryCursor (encodeHistoryCursor \<lparr>hc_Source = mailbox_source i, hc_After = n\<rparr>) =
    Ok \<lparr>hc_Source = mailbox_source i, hc_After = n\<rparr>"
proof -
  let ?c = "\<lparr>hc_Source = mailbox_source i, hc_After = n\<rparr>"
  let ?v = "encodeHistoryCursor ?c"
  note i = rand_text_plain [OF assms]
  have words: "\<forall>w \<in> {''version'', HistoryVersion, ''source'', ''kind'', ''mailbox'', ''namespace'', ''id'', ''after''}. \<forall>c \<in> set w. json_plain c"
    by code_simp
  have "unat n < 2 ^ LENGTH(64)" by (rule unsigned_less)
  then have n: "unat n < 2 ^ 64" by simp
  have "plain_json (cursorJson ?c)" using words i(1) by (auto simp: cursorJson_def mailbox_source_def)
  then have parse: "json_parse (json_text (cursorJson ?c)) = Some (cursorJson ?c)"
    unfolding cursorJson_def by (rule json_parse_text) simp
  have read: "cursorOf (cursorJson ?c) = Some ?c"
    using n nat_dec_digits [of _ "unat n"] by (simp add: cursorJson_def mailbox_source_def kind_of_def list_all_iff)
  have "length (nat_dec (unat n)) \<le> Suc 19" using n by (intro length_nat_dec) simp
  then have "length (json_text (cursorJson ?c)) \<le> 1200"
    using assms words i(1)
    by (simp add: cursorJson_def mailbox_source_def json_object_text_def json_quote_def json_escape_plain rand_text_def)
  then have "length ?v \<le> MaxHistoryCursorBytes" using length_b64_encode [of "json_text (cursorJson ?c)"] by (simp add: encodeHistoryCursor_def)
  moreover have "?v \<noteq> []"
    unfolding encodeHistoryCursor_def by (rule b64_encode_nonempty) (simp add: cursorJson_def json_object_text_def)
  moreover have "ValidString ?v" unfolding encodeHistoryCursor_def by (rule ValidString_b64)
  ultimately have "validCursorText ?v" by (simp add: validCursorText_def encodeHistoryCursor_def b64_trimmed)
  then show ?thesis
    using parse read valid_mailbox_source [OF assms]
    by (simp add: decodeHistoryCursor_def encodeHistoryCursor_def b64_round_trip)
qed

section \<open>Following the pages\<close>

text \<open>The sequence numbers of a journal that has not used up its 64 bits.\<close>

definition no_wrap :: "64 word \<Rightarrow> 'a list \<Rightarrow> bool" where
  "no_wrap p xs \<longleftrightarrow> unat p + length xs < 2 ^ 64"

lemma unat_succ: "no_wrap p (x # xs) \<Longrightarrow> unat (p + 1) = unat p + 1"
  by (simp add: no_wrap_def unat_word_ariths)

lemma no_wrap_tl: "no_wrap p (x # xs) \<Longrightarrow> no_wrap (p + 1) xs"
  by (frule unat_succ) (simp add: no_wrap_def)

lemma gapFree_last: "gapFree p q xs \<Longrightarrow> no_wrap p xs \<Longrightarrow> unat q = unat p + length xs"
proof (induction xs arbitrary: p)
  case (Cons x xs)
  have "gapFree (p + 1) q xs" using Cons.prems(1) by auto
  from Cons.IH [OF this no_wrap_tl [OF Cons.prems(2)]] show ?case using unat_succ [OF Cons.prems(2)] by simp
qed simp

lemma collect_eq:
  assumes "gapFree p q xs" "no_wrap p xs" "unat p \<le> unat after" "unat after \<le> unat q"
  shows "collect after room xs =
    (take room (drop (unat after - unat p) xs), after + of_nat (min room (length xs - (unat after - unat p))))"
  using assms
proof (induction xs arbitrary: p after room)
  case (Cons x xs)
  note succ = unat_succ [OF Cons.prems(2)] and wrap = no_wrap_tl [OF Cons.prems(2)]
  have gap: "gapFree (p + 1) q xs" "he_Sequence x = p + 1" using Cons.prems(1) by auto
  show ?case
  proof (cases "unat after = unat p")
    case True
    then have after: "after = p" by (simp add: word_unat_eq_iff)
    have "\<not> p + 1 \<le> p" using succ by (simp add: word_le_nat_alt)
    moreover have "collect (p + 1) n xs = (take n xs, p + 1 + of_nat (min n (length xs)))" for n
      using Cons.IH [OF gap(1) wrap, of "p + 1" n] gapFree_last [OF gap(1) wrap] by simp
    ultimately show ?thesis using gap(2) after by (cases room) (simp_all add: add.assoc)
  next
    case False
    then have le: "unat (p + 1) \<le> unat after" using Cons.prems(3) succ by simp
    then have "he_Sequence x \<le> after" by (simp add: gap(2) word_le_nat_alt)
    moreover have "unat after - unat p = Suc (unat after - unat (p + 1))" using le succ by simp
    ultimately show ?thesis using Cons.IH [OF gap(1) wrap le Cons.prems(4), of room] by simp
  qed
qed (simp add: no_wrap_def)

fun followHistory :: "nat \<Rightarrow> (string option \<Rightarrow> (history_error, event_page) result) \<Rightarrow> string option \<Rightarrow> native_event list option" where
  "followHistory 0 read cursor = None"
| "followHistory (Suc n) read cursor =
     (case read cursor of
        Inl e \<Rightarrow> None
      | Inr page \<Rightarrow>
          if ep_Complete page then Some (ep_Events page)
          else map_option (\<lambda>es. ep_Events page @ es) (followHistory n read (Some (ep_NextCursor page))))"

text \<open>One page of an intact journal, from the position that is \<open>k\<close> entries past the floor.\<close>

lemma readAfter_page:
  assumes h: "journal_ok h" "\<not> hj_Unavailable h" "no_wrap (hj_Floor h) (hj_Entries h)" "rand_text (hj_SourceID h)"
    and limit: "1 \<le> limit" "limit \<le> MaxHistoryPageSize"
    and k: "k \<le> length (hj_Entries h)"
    and cursor: "cursor = None \<and> k = 0
      \<or> cursor = Some (encodeHistoryCursor \<lparr>hc_Source = journalSource h, hc_After = hj_Floor h + of_nat k\<rparr>)"
  shows "\<exists>page. readAfter (Some (h, durable)) (journalSource h) cursor limit = Ok page
    \<and> ep_Events page = map (native (journalSource h) durable) (take (nat limit) (drop k (hj_Entries h)))
    \<and> ep_NextCursor page = encodeHistoryCursor \<lparr>hc_Source = journalSource h,
         hc_After = hj_Floor h + of_nat (k + min (nat limit) (length (hj_Entries h) - k))\<rparr>
    \<and> (ep_Complete page \<longleftrightarrow> length (hj_Entries h) \<le> k + nat limit)"
proof -
  let ?xs = "hj_Entries h" and ?p = "hj_Floor h" and ?q = "hj_Sequence h" and ?s = "journalSource h"
  define a where "a = ?p + of_nat k"
  have gap: "gapFree ?p ?q ?xs" using h(1,2) by (simp add: journal_ok_def)
  have len: "unat ?p + length ?xs < 2 ^ 64" using h(3) by (simp add: no_wrap_def)
  have un: "unat (?p + of_nat j) = unat ?p + j" if "j \<le> length ?xs" for j
    using that len by (simp add: unat_word_ariths unat_of_nat)
  have q: "unat ?q = unat ?p + length ?xs" using gapFree_last [OF gap h(3)] .
  have a: "unat a = unat ?p + k" using un [OF k] by (simp add: a_def)
  have col: "collect a (nat limit) ?xs = (take (nat limit) (drop k ?xs), a + of_nat (min (nat limit) (length ?xs - k)))"
    using collect_eq [OF gap h(3), of a "nat limit"] a q k by simp
  have last: "a + of_nat (min (nat limit) (length ?xs - k)) = ?p + of_nat (k + min (nat limit) (length ?xs - k))"
    by (simp add: a_def)
  have "unat (?p + of_nat (k + min (nat limit) (length ?xs - k))) = unat ?p + (k + min (nat limit) (length ?xs - k))"
    using k by (intro un) simp
  then have complete: "?p + of_nat (k + min (nat limit) (length ?xs - k)) = ?q \<longleftrightarrow> length ?xs \<le> k + nat limit"
    using q k by (auto simp: word_unat_eq_iff)
  have source: "validSource ?s" "sr_Kind ?s = HistorySourceMailbox"
    using valid_mailbox_source [OF h(4)] by (simp_all add: journalSource_eq mailbox_source_def)
  have decode: "decodeHistoryCursor (encodeHistoryCursor \<lparr>hc_Source = ?s, hc_After = a\<rparr>) = Ok \<lparr>hc_Source = ?s, hc_After = a\<rparr>"
    unfolding journalSource_eq by (rule history_cursor_round_trip [OF h(4)])
  have "\<not> a < ?p" "\<not> ?q < a" using a q k by (simp_all add: word_less_nat_alt)
  moreover obtain decoded where "(case cursor of None \<Rightarrow> Ok None | Some v \<Rightarrow>
      (case decodeHistoryCursor v of Inl e \<Rightarrow> Err e
       | Inr c \<Rightarrow> if hc_Source c \<noteq> ?s then Err HErrCursorForeign else Ok (Some c))) = Ok decoded"
      "(case decoded of None \<Rightarrow> ?p | Some c \<Rightarrow> hc_After c) = a"
    using cursor decode by (auto simp: a_def)
  ultimately have "readAfter (Some (h, durable)) ?s cursor limit =
      Ok \<lparr>ep_Events = map (native ?s durable) (take (nat limit) (drop k ?xs)),
          ep_NextCursor = encodeHistoryCursor \<lparr>hc_Source = ?s, hc_After = a + of_nat (min (nat limit) (length ?xs - k))\<rparr>,
          ep_RetentionFloor = encodeHistoryCursor \<lparr>hc_Source = ?s, hc_After = ?p\<rparr>,
          ep_Complete = (a + of_nat (min (nat limit) (length ?xs - k)) = ?q)\<rparr>"
    using source h(2) gap limit by (simp add: readAfter_def validLimit_def Let_def col)
  then show ?thesis unfolding last complete by simp
qed

lemma followHistory_from:
  assumes h: "journal_ok h" "\<not> hj_Unavailable h" "no_wrap (hj_Floor h) (hj_Entries h)" "rand_text (hj_SourceID h)"
    and limit: "1 \<le> limit" "limit \<le> MaxHistoryPageSize"
  shows "k \<le> length (hj_Entries h) \<Longrightarrow> length (hj_Entries h) - k < n \<Longrightarrow>
    cursor = None \<and> k = 0
      \<or> cursor = Some (encodeHistoryCursor \<lparr>hc_Source = journalSource h, hc_After = hj_Floor h + of_nat k\<rparr>) \<Longrightarrow>
    followHistory n (\<lambda>c. readAfter (Some (h, durable)) (journalSource h) c limit) cursor =
      Some (map (native (journalSource h) durable) (drop k (hj_Entries h)))"
proof (induction n arbitrary: k cursor)
  case (Suc n)
  let ?xs = "hj_Entries h"
  from readAfter_page [OF h limit Suc.prems(1,3)] obtain page where page:
    "readAfter (Some (h, durable)) (journalSource h) cursor limit = Ok page"
    "ep_Events page = map (native (journalSource h) durable) (take (nat limit) (drop k ?xs))"
    "ep_NextCursor page = encodeHistoryCursor \<lparr>hc_Source = journalSource h,
       hc_After = hj_Floor h + of_nat (k + min (nat limit) (length ?xs - k))\<rparr>"
    "ep_Complete page \<longleftrightarrow> length ?xs \<le> k + nat limit" by metis
  show ?case
  proof (cases "ep_Complete page")
    case True
    then show ?thesis using page by simp
  next
    case False
    then have m: "min (nat limit) (length ?xs - k) = nat limit" "k + nat limit \<le> length ?xs" "1 \<le> nat limit"
      using page(4) limit(1) by simp_all
    have "followHistory n (\<lambda>c. readAfter (Some (h, durable)) (journalSource h) c limit) (Some (ep_NextCursor page)) =
        Some (map (native (journalSource h) durable) (drop (k + nat limit) ?xs))"
      using m Suc.prems(2) by (intro Suc.IH) (simp_all add: page(3))
    moreover have "take (nat limit) (drop k ?xs) @ drop (k + nat limit) ?xs = drop k ?xs"
      by (metis append_take_drop_id drop_drop add.commute)
    ultimately show ?thesis using page False by (simp flip: map_append)
  qed
qed simp

end
