(* ===== verification/Mailbox_Snapshot.thy ===== *)
theory Mailbox_Snapshot
  imports Mailbox_Journal
begin

text \<open>
  Snapshots of the mailbox (\<open>snapshot\<close>, \<open>restore\<close> and \<open>cloneMailboxState\<close> of \<open>state.go\<close>,
  \<open>normalizeSnapshot\<close> and \<open>sortRecordsDeterministic\<close> of \<open>types.go\<close>), and that restoring a snapshot of
  a reachable state gives that state back. Continuation records are not part of the modelled state.
\<close>

section \<open>Snapshot and restore\<close>

record mb_snapshot =
  mn_History :: "history_journal option"
  mn_Backend :: string
  mn_Records :: "mb_record list"
  mn_Queue :: "string list"
  mn_Idempotency :: "(string, string) gomap"
  mn_Stats :: mb_stats
  mn_Policy :: mb_policy

definition recordBefore :: "mb_record \<Rightarrow> mb_record \<Rightarrow> bool" where
  "recordBefore l r \<longleftrightarrow>
     (if m_UpdatedAt l = m_UpdatedAt r
      then
        if m_CreatedAt l = m_CreatedAt r
        then TrimSpace (e_MessageID (m_Envelope l)) < TrimSpace (e_MessageID (m_Envelope r))
        else m_CreatedAt l < m_CreatedAt r
      else m_UpdatedAt l < m_UpdatedAt r)"

definition sortRecordsDeterministic :: "mb_record list \<Rightarrow> mb_record list" where
  "sortRecordsDeterministic = SliceStable recordBefore"

definition recordList :: "mailbox_state \<Rightarrow> mb_record list" where
  "recordList s = List.map_filter (fmlookup (mx_Records s)) (sorted_keys (mx_Records s))"

definition mb_snapshotOf :: "mailbox_state \<Rightarrow> mb_snapshot" where
  "mb_snapshotOf s =
     \<lparr>mn_History = Some (mx_History s), mn_Backend = mt_Backend (mx_Stats s),
      mn_Records = sortRecordsDeterministic (recordList s), mn_Queue = mx_Queue s,
      mn_Idempotency = mx_Idempotency s, mn_Stats = mx_Stats s, mn_Policy = mx_Policy s\<rparr>"

text \<open>One record of a snapshot, given the message ids seen before it.\<close>

definition normalizeSnapshotRecord :: "string list \<Rightarrow> mb_record \<Rightarrow> (mb_error, mb_record) result" where
  "normalizeSnapshotRecord seen r =
     (case normalizeEnvelope (m_Envelope r) of
        Inl e \<Rightarrow> Err MErrSnapshotCorrupt
      | Inr env \<Rightarrow>
          let r1 = r\<lparr>m_Envelope := env, m_ConsumerID := TrimSpace (m_ConsumerID r), m_LastError := TrimSpace (m_LastError r),
                     m_DeadLetterReason := TrimSpace (m_DeadLetterReason r)\<rparr>
          in if m_State r1 \<notin> {StateQueued, StateInFlight, StateAcked, StateNacked, StateDeadLetter, StateExpired}
             then Err MErrSnapshotCorrupt
             else if m_DeliveryAttempt r1 < 0 then Err MErrSnapshotCorrupt
             else if IsZero (m_CreatedAt r1) then Err MErrSnapshotCorrupt
             else
               let r2 = (if IsZero (m_UpdatedAt r1) then r1\<lparr>m_UpdatedAt := m_CreatedAt r1\<rparr> else r1)
               in if e_MessageID (m_Envelope r2) \<in> set seen then Err MErrSnapshotCorrupt else Ok r2)"

fun normalizeSnapshotRecords :: "string list \<Rightarrow> mb_record list \<Rightarrow> (mb_error, mb_record list) result" where
  "normalizeSnapshotRecords seen [] = Ok []"
| "normalizeSnapshotRecords seen (r # rs) =
     (case normalizeSnapshotRecord seen r of
        Inl e \<Rightarrow> Err e
      | Inr r1 \<Rightarrow> map_sum id (\<lambda>rs1. r1 # rs1) (normalizeSnapshotRecords (e_MessageID (m_Envelope r1) # seen) rs))"

fun normalizeSnapshotQueue :: "string list \<Rightarrow> string list \<Rightarrow> (mb_error, string list) result" where
  "normalizeSnapshotQueue seen [] = Ok []"
| "normalizeSnapshotQueue seen (q # qs) =
     (let mid = TrimSpace q in
      if mid = [] then normalizeSnapshotQueue seen qs
      else if mid \<in> set seen then Err MErrSnapshotCorrupt
      else map_sum id (\<lambda>qs1. mid # qs1) (normalizeSnapshotQueue (mid # seen) qs))"

definition stateIndex :: "mb_record list \<Rightarrow> (string, message_state) gomap" where
  "stateIndex rs = foldl (\<lambda>m r. fmupd (e_MessageID (m_Envelope r)) (m_State r) m) fmempty rs"

text \<open>
  The loop over the idempotency map, whose iteration order \<open>ks\<close> Go leaves open. An entry that is
  not trimmed is replaced by its trimmed form.
\<close>

fun normalizeIdempotency ::
  "(string, message_state) gomap \<Rightarrow> string list \<Rightarrow> (string, string) gomap \<Rightarrow> (mb_error, (string, string) gomap) result" where
  "normalizeIdempotency idSet [] m = Ok m"
| "normalizeIdempotency idSet (key # ks) m =
     (case fmlookup m key of
        None \<Rightarrow> normalizeIdempotency idSet ks m
      | Some messageID \<Rightarrow>
          let k = TrimSpace key; v = TrimSpace messageID in
          if k = [] \<or> v = [] then Err MErrSnapshotCorrupt
          else if fmlookup idSet v = None then Err MErrSnapshotCorrupt
          else if k \<noteq> key \<or> v \<noteq> messageID then normalizeIdempotency idSet ks (fmupd k v (fmdrop key m))
          else normalizeIdempotency idSet ks m)"

definition mb_normalizeSnapshot :: "string list \<Rightarrow> mb_snapshot \<Rightarrow> string \<Rightarrow> (mb_error, mb_snapshot) result" where
  "mb_normalizeSnapshot ks inp fallbackBackend =
     (let backend = TrimSpace (mn_Backend inp);
          backend = (if backend = [] then TrimSpace fallbackBackend else backend);
          backend = (if backend = [] then ''memory'' else backend)
      in case normalizeSnapshotRecords [] (mn_Records inp) of
           Inl e \<Rightarrow> Err e
         | Inr records \<Rightarrow>
             (case normalizeSnapshotQueue [] (mn_Queue inp) of
                Inl e \<Rightarrow> Err e
              | Inr queue \<Rightarrow>
                  let idSet = stateIndex records in
                  if list_ex (\<lambda>mid. fmlookup idSet mid \<noteq> Some StateQueued) queue then Err MErrSnapshotCorrupt
                  else
                    (case normalizeIdempotency idSet ks (mn_Idempotency inp) of
                       Inl e \<Rightarrow> Err e
                     | Inr idem \<Rightarrow>
                         Ok (inp\<lparr>mn_Backend := backend, mn_Policy := normalizePolicy (mn_Policy inp), mn_Records := records,
                                 mn_Queue := queue, mn_Idempotency := idem,
                                 mn_Stats := (mn_Stats inp)\<lparr>mt_Backend := backend\<rparr>\<rparr>))))"

text \<open>\<open>source\<close> is the random id of the journal a snapshot without one gets.\<close>

definition mb_restore :: "string list \<Rightarrow> string \<Rightarrow> mb_snapshot \<Rightarrow> unit mb_op" where
  "mb_restore ks source snapshot s =
     (case mb_normalizeSnapshot ks snapshot (mt_Backend (mx_Stats s)) of
        Inl e \<Rightarrow> (Err e, s)
      | Inr n \<Rightarrow>
          if (case mn_History n of None \<Rightarrow> False | Some h \<Rightarrow> \<not> validJournal h) then (Err MErrSnapshotCorrupt, s)
          else
            let history = (case mn_History n of None \<Rightarrow> newHistoryJournal source | Some h \<Rightarrow> h);
                inFlightTotal = int (length (filter (\<lambda>r. m_State r = StateInFlight) (mn_Records n)))
            in (Ok (),
                s\<lparr>mx_Records := fmap_of_list (rev (map (\<lambda>r. (e_MessageID (m_Envelope r), r)) (mn_Records n))),
                  mx_History := history, mx_Queue := mn_Queue n, mx_Idempotency := mn_Idempotency n,
                  mx_Policy := normalizePolicy (mn_Policy n),
                  mx_Stats := (mn_Stats n)\<lparr>mt_QueueTotal := int (length (mn_Queue n)), mt_InFlightTotal := inFlightTotal\<rparr>\<rparr>))"

definition cloneMailboxState :: "string list \<Rightarrow> string \<Rightarrow> mailbox_state \<Rightarrow> (mb_error, mailbox_state) result" where
  "cloneMailboxState ks source s =
     (case mb_restore ks source (mb_snapshotOf s) (newMailboxState source (mt_Backend (mx_Stats s)) (mx_Policy s)) of
        (Inl e, _) \<Rightarrow> Err e
      | (Inr _, t) \<Rightarrow> Ok t)"

section \<open>Records a snapshot leaves as they are\<close>

lemma trimmed_prepend_plain:
  assumes "trimmed r" "r \<noteq> []" "l \<noteq> []" "\<forall>c \<in> set l. plain_byte c"
  shows "trimmed (l @ r)"
proof -
  obtain c l' where l: "l = c # l'" using assms(3) by (cases l) auto
  obtain k d where k: "l = k @ [d]" using assms(3) by (cases l rule: rev_cases) auto
  have white: "x \<notin> set p" if "x \<in> set l" "p \<in> set white_runes" for x p
    using plain_byte_white that assms(4) by blast
  have "no_prefix white_runes (c # l' @ r)"
    by (rule no_prefix_rev_snoc) (metis white l list.set_intros(1) hd_in_set)
  moreover have "d \<notin> set (tl p)" if p: "p \<in> set (map rev white_runes)" for p
  proof -
    obtain p' where "p = rev p'" "p' \<in> set white_runes" using p by auto
    then have "d \<notin> set p" using white [of d p'] k by simp
    then show ?thesis by (cases p) auto
  qed
  then have "no_prefix (map rev white_runes) (rev r @ d # rev k)"
    using assms(1,2) by (intro no_prefix_append) (simp_all add: trimmed_def)
  moreover have "rev (l @ r) = rev r @ d # rev k" "l @ r = c # l' @ r" using k l by simp_all
  ultimately show ?thesis by (simp only: trimmed_def)
qed

definition tidy :: "mb_record \<Rightarrow> bool" where
  "tidy r \<longleftrightarrow>
     trimmed (m_ConsumerID r) \<and> trimmed (m_LastError r) \<and> trimmed (m_DeadLetterReason r) \<and> m_CreatedAt r \<noteq> 0 \<and> m_UpdatedAt r \<noteq> 0"

definition all_tidy :: "mailbox_state \<Rightarrow> bool" where
  "all_tidy s \<longleftrightarrow> trimmed (mt_Backend (mx_Stats s)) \<and> (\<forall>i r. fmlookup (mx_Records s) i = Some r \<longrightarrow> tidy r)"

lemma trimmed_reason: "trimmed (CanonicalizeLifecycleReason r LifecycleReasonHandlerError)"
proof -
  have "trimmed (NormalizeLifecycleReason x)" for x by (auto simp: NormalizeLifecycleReason_def Let_def)
  moreover have "trimmed LifecycleReasonHandlerError" using handler_error_canonical trimmed_canonical by blast
  ultimately show ?thesis by (auto simp: CanonicalizeLifecycleReason_def)
qed

lemma trimmed_deadLetterReason:
  assumes "code \<in> set LifecycleCanonicalReasons"
  shows "trimmed (deadLetterReason code reason)"
proof -
  have "\<forall>r \<in> set LifecycleCanonicalReasons. \<forall>c \<in> set r. plain_byte c" by code_simp
  then have "\<forall>c \<in> set (code @ '':''). plain_byte c" using assms by (auto simp: plain_byte_def)
  moreover have "TrimSpace code = code" using trimmed_canonical [OF assms] by simp
  ultimately show ?thesis
    using trimmed_prepend_plain [of "TrimSpace reason" "code @ '':''"] trimmed_canonical [OF assms]
    by (auto simp: deadLetterReason_def)
qed

lemma all_tidy_put:
  "all_tidy s \<Longrightarrow> tidy r \<Longrightarrow> mx_Records t = fmupd i r (mx_Records s) \<Longrightarrow> mt_Backend (mx_Stats t) = mt_Backend (mx_Stats s) \<Longrightarrow> all_tidy t"
  by (simp add: all_tidy_def)

lemma all_tidy_same:
  "all_tidy s \<Longrightarrow> mx_Records t = mx_Records s \<Longrightarrow> mt_Backend (mx_Stats t) = mt_Backend (mx_Stats s) \<Longrightarrow> all_tidy t"
  by (simp add: all_tidy_def)

lemma backend_kept [mb_frame]:
  "mt_Backend (nackStats st) = mt_Backend st" "mt_Backend (leaveInFlight st) = mt_Backend st"
  by (simp_all add: nackStats_def leaveInFlight_def)

lemma tidy_lease [simp]: "tidy (clearLease r) = tidy r" "tidy (r\<lparr>m_State := st\<rparr>) = tidy r"
  by (simp_all add: tidy_def clearLease_def)

lemma nackRecord_tidy: "tidy r \<Longrightarrow> trimmed code \<Longrightarrow> tidy (nackRecord code r)"
  by (simp add: tidy_def nackRecord_def clearLease_def)

lemma retryMessage_tidy:
  assumes "all_tidy s" "tidy r" "now \<noteq> 0"
  shows "all_tidy (snd (retryMessage clk i code now opts r s))"
proof -
  have "trimmed (deadLetterReason LifecycleReasonRetryExhausted code)"
    by (rule trimmed_deadLetterReason) (simp add: LifecycleCanonicalReasons_def)
  then show ?thesis
    using assms by (simp add: retryMessage_def deadLetter_def Let_def all_tidy_def mb_frame) (simp add: tidy_def clearLease_def)
qed

lemma resolve_clk: "clk \<noteq> 0 \<Longrightarrow> resolve_now clk now \<noteq> 0"
  by (simp add: resolve_now_def)

lemma requeue_tidy:
  assumes "all_tidy s" "clk \<noteq> 0"
  shows "all_tidy (snd (mb_requeue clk mid c reason now opts s))"
proof -
  define i code where "i = TrimSpace mid" and "code = CanonicalizeLifecycleReason reason LifecycleReasonHandlerError"
  have tidy: "tidy r" if "fmlookup (mx_Records s) i = Some r" for r using that assms(1) by (simp add: all_tidy_def)
  have code: "trimmed code" unfolding code_def by (rule trimmed_reason)
  have flight: "all_tidy (snd (retryMessage clk i code (resolve_now clk now) opts (nackRecord code r)
      (emitLifecycleEvent clk TransitionNack (nackRecord code r) code opts
         (putRecord i (nackRecord code r) s\<lparr>mx_Stats := nackStats (mx_Stats s)\<rparr>))))"
    if "fmlookup (mx_Records s) i = Some r" for r
    by (rule retryMessage_tidy [OF all_tidy_put [OF assms(1) nackRecord_tidy [OF tidy [OF that] code]]
          nackRecord_tidy [OF tidy [OF that] code] resolve_clk [OF assms(2)]])
      (simp_all add: mb_frame)
  show ?thesis
    unfolding mb_requeue_def Let_def i_def [symmetric] code_def [symmetric]
    using assms flight tidy
    by (simp add: case_prod_beta retryMessage_tidy resolve_clk split: option.split message_state.split)
qed

lemma expireRecord_tidy: "all_tidy s \<Longrightarrow> tidy r \<Longrightarrow> now \<noteq> 0 \<Longrightarrow> all_tidy (expireRecord clk i r now s)"
proof (rule all_tidy_put [OF _ _ expireRecord_fields(1)])
  assume "tidy r" "now \<noteq> 0"
  moreover have "trimmed (deadLetterReason LifecycleReasonExpired [])"
    by (rule trimmed_deadLetterReason) (simp add: LifecycleCanonicalReasons_def)
  ultimately show "tidy (expiredRecord (po_DLQEnabled (mx_Policy s)) r now)" by (simp add: expiredRecord_def) (simp add: tidy_def)
qed (simp_all add: expireRecord_fields Let_def)

lemma expireQueuedLoop_tidy: "all_tidy s \<Longrightarrow> now \<noteq> 0 \<Longrightarrow> all_tidy (snd (expireQueuedLoop clk now qs s))"
proof (induction qs arbitrary: s)
  case (Cons q qs)
  have "tidy r" if "fmlookup (mx_Records s) (TrimSpace q) = Some r" for r using that Cons.prems(1) by (simp add: all_tidy_def)
  then show ?case
    using Cons.IH [OF Cons.prems] Cons.IH [OF expireRecord_tidy [OF Cons.prems(1) _ Cons.prems(2)] Cons.prems(2)]
    by (simp add: Let_def case_prod_beta split: option.split)
qed simp

lemma reclaimLoop_tidy: "all_tidy s \<Longrightarrow> clk \<noteq> 0 \<Longrightarrow> all_tidy (snd (reclaimLoop clk now mids s))"
proof (induction mids arbitrary: s)
  case (Cons i mids)
  show ?case using Cons.IH [OF requeue_tidy [OF Cons.prems] Cons.prems(2)] by (simp add: case_prod_beta)
qed simp

lemma swept_tidy:
  assumes "all_tidy s" "clk \<noteq> 0" "now \<noteq> 0"
  shows "all_tidy (swept clk now lease reclaim s)"
proof -
  have "all_tidy (snd (expireQueued clk now s))"
    using all_tidy_same [OF expireQueuedLoop_tidy [OF assms(1,3)]] assms(1) by (simp add: expireQueued_def case_prod_beta)
  then show ?thesis using assms(2) by (simp add: swept_def Let_def reclaimStaleInFlight_def reclaimLoop_tidy)
qed

lemma consume_tidy:
  assumes "mb_inv s" "all_tidy s" "clk \<noteq> 0"
  shows "all_tidy (snd (consume clk c now lease reclaim s))"
  using assms(1)
proof (cases rule: consume_cases [where c = c and clk = clk and now = now and lease = lease and reclaim = reclaim])
  case (delivered k r t)
  have t: "all_tidy t" unfolding delivered(2) by (rule swept_tidy [OF assms(2,3) resolve_clk [OF assms(3)]])
  have "tidy r" using t delivered(5) by (simp add: all_tidy_def)
  then have "tidy (deliverRecord (TrimSpace c) (resolve_now clk now) lease r)"
    using resolve_clk [OF assms(3)] by (simp add: tidy_def deliverRecord_def Let_def)
  then show ?thesis
    using delivered(7) by (auto intro!: all_tidy_put [OF t] simp: deliver_def mb_frame)
qed (simp_all add: assms swept_tidy resolve_clk)

lemma publish_tidy: "all_tidy s \<Longrightarrow> clk \<noteq> 0 \<Longrightarrow> all_tidy (snd (publish clk e now s))"
proof -
  assume s: "all_tidy s" "clk \<noteq> 0"
  have "tidy (newMbRecord n (resolve_now clk now))" for n
    using resolve_clk [OF s(2)] by (simp add: tidy_def newMbRecord_def)
  then have new: "all_tidy (snd (publishNew n (resolve_now clk now) s))" for n
    using s(1) by (simp add: publishNew_def Let_def all_tidy_def mb_frame)
  have dup: "all_tidy (snd (publishDuplicate n x s))" for n x
    by (rule all_tidy_same [OF s(1)]) (simp_all add: publishDuplicate_def bumpDuplicatePublish_def)
  show ?thesis using s(1) by (auto simp: publish_def dup new split: sum.split option.split)
qed

lemma settle_tidy:
  assumes "all_tidy s" "clk \<noteq> 0"
  shows "all_tidy (snd (mb_heartbeat clk mid c now lease s))" "all_tidy (snd (ack clk mid c now s))"
    "all_tidy (snd (nack clk mid c reason now opts s))"
proof -
  have tidy: "tidy r" if "requireInflightRecord mid c s = (Some r, x)" for r x
    using that assms(1) by (auto simp: requireInflightRecord_def all_tidy_def split: option.splits)
  note now = resolve_clk [OF assms(2), of now]
  have dead: "trimmed (deadLetterReason LifecycleReasonRetryExhausted code)" for code
    by (rule trimmed_deadLetterReason) (simp add: LifecycleCanonicalReasons_def)
  show "all_tidy (snd (mb_heartbeat clk mid c now lease s))"
    using assms(1) tidy now
    by (auto simp: mb_heartbeat_def all_tidy_def mb_frame tidy_def Let_def split: prod.split option.split)
  show "all_tidy (snd (ack clk mid c now s))"
    using assms(1) tidy now
    by (auto simp: ack_def all_tidy_def mb_frame tidy_def Let_def clearLease_def split: prod.split option.split)
  show "all_tidy (snd (nack clk mid c reason now opts s))"
    using assms(1) tidy now dead trimmed_reason
    by (auto simp: nack_def deadLetter_def nackRecord_def all_tidy_def mb_frame tidy_def Let_def clearLease_def split: prod.split option.split)
qed

lemma step_tidy: "mb_step s t \<Longrightarrow> mb_inv s \<Longrightarrow> all_tidy s \<Longrightarrow> all_tidy t"
  by (erule mb_step.cases)
    (metis publish_tidy consume_tidy settle_tidy requeue_tidy snd_conv
      | auto simp: setTraceEvents_def drainLifecycleEvents_def setFallback_def all_tidy_def)+

interpretation restorable: invariant_system mb_init mb_step "\<lambda>s. mb_inv s \<and> journal_ok (mx_History s) \<and> all_tidy s"
proof unfold_locales
  show "mb_init s \<Longrightarrow> mb_inv s \<and> journal_ok (mx_History s) \<and> all_tidy s" for s
    using journal.init_invar [of s] by (auto simp: mb_init_def newMailboxState_def emptyMbStats_def all_tidy_def)
  show "mb_inv s \<and> journal_ok (mx_History s) \<and> all_tidy s \<Longrightarrow> mb_step s t \<Longrightarrow>
      mb_inv t \<and> journal_ok (mx_History t) \<and> all_tidy t" for s t
    using journal.step_invar step_tidy by blast
qed

section \<open>Restoring a snapshot\<close>

lemma known_state: "state_ok p r st \<Longrightarrow> st \<in> {StateQueued, StateInFlight, StateAcked, StateNacked, StateDeadLetter, StateExpired}"
  by (cases st) simp_all

lemma normalizeSnapshotRecord_id:
  assumes "record_ok p r" "tidy r" "e_MessageID (m_Envelope r) \<notin> set seen"
  shows "normalizeSnapshotRecord seen r = Ok r"
proof -
  have env: "normalizeEnvelope (m_Envelope r) = Ok (m_Envelope r)" and st: "state_ok p r (m_State r)" and n: "0 \<le> m_DeliveryAttempt r"
    using assms(1) by (simp_all add: record_ok_def wf_envelope_def)
  have "r\<lparr>m_Envelope := m_Envelope r, m_ConsumerID := TrimSpace (m_ConsumerID r), m_LastError := TrimSpace (m_LastError r),
          m_DeadLetterReason := TrimSpace (m_DeadLetterReason r)\<rparr> = r"
    using assms(2) by (simp add: tidy_def)
  then show ?thesis
    using assms(2,3) known_state [OF st] n unfolding normalizeSnapshotRecord_def env sum.case Let_def by (simp add: tidy_def)
qed

lemma normalizeSnapshotRecords_id:
  assumes "\<forall>r \<in> set rs. record_ok p r \<and> tidy r" "distinct (map (\<lambda>r. e_MessageID (m_Envelope r)) rs)"
    and "set seen \<inter> (\<lambda>r. e_MessageID (m_Envelope r)) ` set rs = {}"
  shows "normalizeSnapshotRecords seen rs = Ok rs"
  using assms
proof (induction rs arbitrary: seen)
  case (Cons r rs)
  have "normalizeSnapshotRecord seen r = Ok r" using Cons.prems by (intro normalizeSnapshotRecord_id [of p]) auto
  moreover have "normalizeSnapshotRecords (e_MessageID (m_Envelope r) # seen) rs = Ok rs" using Cons.prems by (intro Cons.IH) auto
  ultimately show ?case by simp
qed simp

lemma normalizeSnapshotQueue_id:
  assumes "\<forall>q \<in> set qs. trimmed q \<and> q \<noteq> []" "distinct qs" "set seen \<inter> set qs = {}"
  shows "normalizeSnapshotQueue seen qs = Ok qs"
  using assms
proof (induction qs arbitrary: seen)
  case (Cons q qs)
  have "normalizeSnapshotQueue (q # seen) qs = Ok qs" using Cons.prems by (intro Cons.IH) auto
  then show ?case using Cons.prems by simp
qed simp

lemma normalizeIdempotency_id:
  assumes "\<And>k v. fmlookup m k = Some v \<Longrightarrow> trimmed k \<and> k \<noteq> [] \<and> trimmed v \<and> v \<noteq> [] \<and> fmlookup idSet v \<noteq> None"
  shows "normalizeIdempotency idSet ks m = Ok m"
proof (induction ks)
  case (Cons k ks)
  show ?case
  proof (cases "fmlookup m k")
    case (Some v)
    then show ?thesis using Cons assms [OF Some] by (auto simp: Let_def)
  qed (simp add: Cons)
qed simp

lemma stateIndex_lookup:
  assumes "distinct (map (\<lambda>r. e_MessageID (m_Envelope r)) rs)" "r \<in> set rs"
  shows "fmlookup (stateIndex rs) (e_MessageID (m_Envelope r)) = Some (m_State r)"
proof -
  have keep: "fmlookup (foldl (\<lambda>m r. fmupd (e_MessageID (m_Envelope r)) (m_State r) m) m xs) i = fmlookup m i"
    if "i \<notin> (\<lambda>r. e_MessageID (m_Envelope r)) ` set xs" for m xs i
    using that by (induction xs arbitrary: m) auto
  have "fmlookup (foldl (\<lambda>m r. fmupd (e_MessageID (m_Envelope r)) (m_State r) m) m xs) (e_MessageID (m_Envelope r)) = Some (m_State r)"
    if "distinct (map (\<lambda>r. e_MessageID (m_Envelope r)) xs)" "r \<in> set xs" for m xs
    using that by (induction xs arbitrary: m) (auto simp: keep)
  then show ?thesis using assms by (simp add: stateIndex_def)
qed

text \<open>The records of a state as a list: each one once, under its own id.\<close>

lemma recordList_props:
  assumes "records_ok p (mx_Records s)"
  shows "set (recordList s) = {r. \<exists>i. fmlookup (mx_Records s) i = Some r}"
    and "map (\<lambda>r. e_MessageID (m_Envelope r)) (recordList s) = sorted_keys (mx_Records s)"
proof -
  show "set (recordList s) = {r. \<exists>i. fmlookup (mx_Records s) i = Some r}"
    by (auto simp: recordList_def List.map_filter_def image_iff mem_sorted_keys fmdom_iff_lookup)
      (metis fmdomI option.sel)
  have "map (\<lambda>r. e_MessageID (m_Envelope r)) (List.map_filter (fmlookup (mx_Records s)) ks) = ks"
    if "set ks \<subseteq> set (sorted_keys (mx_Records s))" for ks
    using that assms
  proof (induction ks)
    case (Cons k ks)
    then obtain r where "fmlookup (mx_Records s) k = Some r" by (auto simp: fmdom_iff_lookup)
    then show ?case using Cons records_ok_lookup(2) [OF assms] by (simp add: map_filter_simps)
  qed (simp add: map_filter_simps)
  then show "map (\<lambda>r. e_MessageID (m_Envelope r)) (recordList s) = sorted_keys (mx_Records s)"
    unfolding recordList_def by blast
qed

lemma snapshot_records:
  assumes "records_ok p (mx_Records s)"
  defines "rs \<equiv> mn_Records (mb_snapshotOf s)"
  shows "set rs = {r. \<exists>i. fmlookup (mx_Records s) i = Some r}"
    and "distinct (map (\<lambda>r. e_MessageID (m_Envelope r)) rs)"
    and "fmap_of_list (rev (map (\<lambda>r. (e_MessageID (m_Envelope r), r)) rs)) = mx_Records s"
    and "int (length (filter (\<lambda>r. m_State r = st) rs)) = countIn st (mx_Records s)"
proof -
  have m: "mset rs = mset (recordList s)" by (simp add: rs_def mb_snapshotOf_def sortRecordsDeterministic_def)
  show rs: "set rs = {r. \<exists>i. fmlookup (mx_Records s) i = Some r}"
    using recordList_props(1) [OF assms(1)] mset_eq_setD [OF m] by simp
  have "mset (map (\<lambda>r. e_MessageID (m_Envelope r)) rs) = mset (sorted_keys (mx_Records s))"
    using m recordList_props(2) [OF assms(1)] by (metis mset_map)
  then show dist: "distinct (map (\<lambda>r. e_MessageID (m_Envelope r)) rs)"
    using mset_eq_imp_distinct_iff distinct_sorted_keys by blast
  have key: "fmlookup (mx_Records s) (e_MessageID (m_Envelope r)) = Some r" if "r \<in> set rs" for r
    using that rs records_ok_lookup(2) [OF assms(1)] by auto
  show "fmap_of_list (rev (map (\<lambda>r. (e_MessageID (m_Envelope r), r)) rs)) = mx_Records s"
  proof (rule fmap_ext)
    fix i
    have d: "distinct (map fst (rev (map (\<lambda>r. (e_MessageID (m_Envelope r), r)) rs)))"
      using dist by (simp add: comp_def flip: rev_map)
    show "fmlookup (fmap_of_list (rev (map (\<lambda>r. (e_MessageID (m_Envelope r), r)) rs))) i = fmlookup (mx_Records s) i"
    proof (cases "fmlookup (mx_Records s) i")
      case None
      then have "i \<notin> fst ` set (rev (map (\<lambda>r. (e_MessageID (m_Envelope r), r)) rs))" using key by force
      then show ?thesis using None by (simp add: fmlookup_of_list map_of_eq_None_iff)
    next
      case (Some r)
      then have "(i, r) \<in> set (rev (map (\<lambda>r. (e_MessageID (m_Envelope r), r)) rs))"
        using rs records_ok_lookup(2) [OF assms(1) Some] by force
      then show ?thesis using Some map_of_is_SomeI [OF d] by (simp add: fmlookup_of_list)
    qed
  qed
  have "length (filter (\<lambda>r. m_State r = st) rs) = card ((\<lambda>r. e_MessageID (m_Envelope r)) ` set (filter (\<lambda>r. m_State r = st) rs))"
  proof -
    have "distinct (map (\<lambda>r. e_MessageID (m_Envelope r)) (filter (\<lambda>r. m_State r = st) rs))"
      using dist by (rule distinct_map_filter)
    then show ?thesis using distinct_card by fastforce
  qed
  also have "(\<lambda>r. e_MessageID (m_Envelope r)) ` set (filter (\<lambda>r. m_State r = st) rs) = stateIds st (mx_Records s)"
    using rs records_ok_lookup(2) [OF assms(1)] key by (force simp: stateIds_def image_iff)
  finally show "int (length (filter (\<lambda>r. m_State r = st) rs)) = countIn st (mx_Records s)" by (simp add: countIn_def)
qed

lemma gapFree_validEntries:
  "gapFree p q xs \<Longrightarrow> no_wrap p xs \<Longrightarrow> unat q \<le> unat sequence \<Longrightarrow> list_all validHistoryEntry xs \<Longrightarrow> validEntries p sequence xs"
proof (induction xs arbitrary: p)
  case (Cons x xs)
  have x: "he_Sequence x = p + 1" "gapFree (p + 1) q xs" using Cons.prems(1) by auto
  note succ = unat_succ [OF Cons.prems(2)] and wrap = no_wrap_tl [OF Cons.prems(2)]
  have "unat (p + 1) \<le> unat q" using gapFree_last [OF x(2) wrap] by simp
  then have "p < he_Sequence x" "he_Sequence x \<le> sequence"
    using x(1) succ Cons.prems(3) by (simp_all add: word_less_nat_alt word_le_nat_alt)
  then show ?case using Cons.IH [OF x(2) wrap Cons.prems(3)] Cons.prems(4) x(1) by (simp add: not_le not_less)
qed simp

lemma journal_ok_valid:
  assumes h: "journal_ok h" "unat (hj_Floor h) + length (hj_Entries h) + 1 < 2 ^ 64" "rand_text (hj_SourceID h)"
  shows "validJournal h"
proof -
  let ?q = "if hj_Unavailable h then hj_Sequence h - 1 else hj_Sequence h"
  have wrap: "no_wrap (hj_Floor h) (hj_Entries h)" "unat (hj_Floor h) + length (hj_Entries h) + 1 < 2 ^ 64"
    using h(2) by (simp_all add: no_wrap_def)
  have gap: "gapFree (hj_Floor h) ?q (hj_Entries h)" "hj_Version h = HistoryVersion"
    "length (hj_Entries h) \<le> HistoryRetentionEntries" "list_all validHistoryEntry (hj_Entries h)"
    using h(1) by (simp_all add: journal_ok_def)
  note last = gapFree_last [OF gap(1) wrap(1)]
  have "unat (?q + 1) = unat ?q + 1" using last wrap(2) by (simp add: unat_word_ariths)
  then have seq: "unat ?q \<le> unat (hj_Sequence h)" by (cases "hj_Unavailable h") simp_all
  then have "hj_Floor h \<le> hj_Sequence h" using last by (simp add: word_le_nat_alt)
  then show ?thesis
    using gap gapFree_validEntries [OF gap(1) wrap(1) seq gap(4)] valid_mailbox_source [OF h(3)]
    by (simp add: validJournal_def journalSource_eq)
qed

lemma normalizeSnapshot_id:
  assumes inv: "mb_inv s" "all_tidy s" "mt_Backend (mx_Stats s) \<noteq> []"
  shows "mb_normalizeSnapshot ks (mb_snapshotOf s) backend = Ok (mb_snapshotOf s)"
proof -
  let ?n = "mb_snapshotOf s" and ?m = "mx_Records s"
  let ?i = "stateIndex (mn_Records ?n)"
  note recs = mb_inv_parts(2) [OF inv(1)]
  note sr = snapshot_records [OF recs]
  have ok: "record_ok (mx_Policy s) r \<and> tidy r" if "r \<in> set (mn_Records ?n)" for r
    using that sr(1) records_ok_lookup(1) [OF recs] inv(2) by (auto simp: all_tidy_def)
  have "normalizeSnapshotRecords [] (mn_Records ?n) = Ok (mn_Records ?n)"
    using ok sr(2) by (intro normalizeSnapshotRecords_id [of _ "mx_Policy s"]) auto
  moreover have state: "fmlookup ?i i = Some (m_State r)" if "fmlookup ?m i = Some r" for i r
    using stateIndex_lookup [OF sr(2), of r] that sr(1) records_ok_lookup(2) [OF recs that] by auto
  have queued: "q \<in> stateIds StateQueued ?m" if "q \<in> set (mn_Queue ?n)" for q
    using that mb_inv_parts(3) [OF inv(1)] by (simp add: mail_queue_ok_def mb_snapshotOf_def)
  have "normalizeSnapshotQueue [] (mn_Queue ?n) = Ok (mn_Queue ?n)"
  proof (rule normalizeSnapshotQueue_id)
    show "\<forall>q \<in> set (mn_Queue ?n). trimmed q \<and> q \<noteq> []"
      using queued records_ok_lookup(3,4) [OF recs] by (fastforce simp: stateIds_def)
    show "distinct (mn_Queue ?n)" using mb_inv_parts(3) [OF inv(1)] by (simp add: mail_queue_ok_def mb_snapshotOf_def)
  qed simp
  moreover have "\<not> list_ex (\<lambda>mid. fmlookup ?i mid \<noteq> Some StateQueued) (mn_Queue ?n)"
    using queued state by (fastforce simp: list_ex_iff stateIds_def)
  moreover have "normalizeIdempotency ?i ks (mn_Idempotency ?n) = Ok (mn_Idempotency ?n)"
  proof (rule normalizeIdempotency_id)
    fix k v
    assume "fmlookup (mn_Idempotency ?n) k = Some v"
    then obtain r where r: "fmlookup ?m v = Some r" "e_IdempotencyKey (m_Envelope r) = k"
      using mb_inv_parts(4) [OF inv(1)] by (auto simp: keys_ok_def mb_snapshotOf_def)
    then have "wf_envelope (m_Envelope r)" using records_ok_lookup(1) [OF recs] by (auto simp: record_ok_def)
    then show "trimmed k \<and> k \<noteq> [] \<and> trimmed v \<and> v \<noteq> [] \<and> fmlookup ?i v \<noteq> None"
      using r state records_ok_lookup(3,4) [OF recs r(1)] wf_envelope_trimmed [of "m_Envelope r"] by (auto simp: wf_envelope_iff)
  qed
  moreover have "normalizePolicy (mn_Policy ?n) = mn_Policy ?n"
    using policy_ok_fix [OF mb_inv_parts(1) [OF inv(1)]] by (simp add: mb_snapshotOf_def)
  moreover have "TrimSpace (mn_Backend ?n) = mn_Backend ?n" "mn_Backend ?n \<noteq> []" "mt_Backend (mn_Stats ?n) = mn_Backend ?n"
    using inv(2,3) by (simp_all add: mb_snapshotOf_def all_tidy_def)
  ultimately show ?thesis by (simp add: mb_normalizeSnapshot_def Let_def)
qed

lemma mb_restore_snapshot:
  assumes inv: "mb_inv s" "all_tidy s" "mt_Backend (mx_Stats s) \<noteq> []" and h: "validJournal (mx_History s)"
  shows "mb_restore ks source (mb_snapshotOf s) t = (Ok (), s\<lparr>mx_events := mx_events t, mx_traceEvents := mx_traceEvents t\<rparr>)"
proof -
  let ?n = "mb_snapshotOf s"
  note sr = snapshot_records [OF mb_inv_parts(2) [OF inv(1)]]
  have "int (length (mn_Queue ?n)) = countIn StateQueued (mx_Records s)"
    using mb_inv_parts(3) [OF inv(1)] distinct_card by (fastforce simp: mail_queue_ok_def countIn_def mb_snapshotOf_def)
  then have stats: "(mx_Stats s)\<lparr>mt_QueueTotal := int (length (mn_Queue ?n)),
      mt_InFlightTotal := int (length (filter (\<lambda>r. m_State r = StateInFlight) (mn_Records ?n)))\<rparr> = mx_Stats s"
    using mb_inv_parts(5) [OF inv(1)] sr(4) by (simp add: counts_ok_def)
  have fields: "mn_History ?n = Some (mx_History s)" "mn_Queue ?n = mx_Queue s" "mn_Idempotency ?n = mx_Idempotency s"
    "mn_Stats ?n = mx_Stats s" "normalizePolicy (mn_Policy ?n) = mx_Policy s"
    using policy_ok_fix [OF mb_inv_parts(1) [OF inv(1)]] by (simp_all add: mb_snapshotOf_def)
  show ?thesis
    unfolding mb_restore_def normalizeSnapshot_id [OF inv] sum.case fields(1) option.case Let_def sr(3) fields(4) stats
    using h by (simp add: fields)
qed

text \<open>A clone is a copy without the trace.\<close>

lemma cloneMailboxState_copy:
  assumes "mb_inv s" "all_tidy s" "mt_Backend (mx_Stats s) \<noteq> []" "validJournal (mx_History s)"
  shows "cloneMailboxState ks source s = Ok (s\<lparr>mx_events := [], mx_traceEvents := False\<rparr>)"
  by (simp add: cloneMailboxState_def mb_restore_snapshot [OF assms] newMailboxState_def)

end
