(* ===== verification/Mailbox_Query.thy ===== *)
theory Mailbox_Query
  imports Mailbox_Snapshot "HOL-Library.Product_Lexorder"
begin

text \<open>
  The mailbox query of \<open>src/orchestration/mailbox/query.go\<close>: validating a request, its hash, which
  records match, their order and the page. The lemmas show that the order is the stable sort by time
  and message id and that the cursors keep the contract of \<open>cursor_codec\<close>.
\<close>

section \<open>Requests\<close>

record mb_query_request =
  rm_MessageID :: string
  rm_IdempotencyKey :: string
  rm_CorrelationID :: string
  rm_Kind :: string
  rm_State :: string
  rm_FromAgent :: string
  rm_ToAgent :: string
  rm_TaskID :: string
  rm_RunID :: string
  rm_WorkflowID :: string
  rm_TeamID :: string
  rm_TimeRange :: "query_time_range option"
  rm_PageSize :: "int option"
  rm_SortField :: string
  rm_SortOrder :: string
  rm_Cursor :: string

record mb_query_result =
  mq_Items :: "mb_record list"
  mq_NextCursor :: string
  mq_PageSize :: int
  mq_SortField :: string
  mq_SortOrder :: string

record normalized_query =
  nm_MessageID :: string
  nm_IdempotencyKey :: string
  nm_CorrelationID :: string
  nm_Kind :: string
  nm_State :: string
  nm_FromAgent :: string
  nm_ToAgent :: string
  nm_TaskID :: string
  nm_RunID :: string
  nm_WorkflowID :: string
  nm_TeamID :: string
  nm_TimeRange :: "query_time_range option"
  nm_PageSize :: int
  nm_SortField :: string
  nm_SortOrder :: string
  nm_Cursor :: string

abbreviation DefaultQueryPageSize :: int where "DefaultQueryPageSize \<equiv> 50"
abbreviation MaxQueryPageSize :: int where "MaxQueryPageSize \<equiv> 200"

fun envelope_kind_string :: "envelope_kind \<Rightarrow> string" where
  "envelope_kind_string KindCommand = ''command''"
| "envelope_kind_string KindEvent = ''event''"
| "envelope_kind_string KindResult = ''result''"
| "envelope_kind_string (KindOther k) = k"

fun message_state_string :: "message_state \<Rightarrow> string" where
  "message_state_string StateQueued = ''queued''"
| "message_state_string StateInFlight = ''in_flight''"
| "message_state_string StateAcked = ''acked''"
| "message_state_string StateNacked = ''nacked''"
| "message_state_string StateDeadLetter = ''dead_letter''"
| "message_state_string StateExpired = ''expired''"
| "message_state_string (StateOther x) = x"

definition lowerTrim :: "string \<Rightarrow> string" where
  "lowerTrim s = ToLower (TrimSpace s)"

definition normalizeQuery :: "mb_query_request \<Rightarrow> (query_error, normalized_query) result" where
  "normalizeQuery req =
     (let pageSize = (case rm_PageSize req of None \<Rightarrow> DefaultQueryPageSize | Some n \<Rightarrow> n);
          sortField = (if lowerTrim (rm_SortField req) = [] then ''updated_at'' else lowerTrim (rm_SortField req));
          sortOrder = (if lowerTrim (rm_SortOrder req) = [] then ''desc'' else lowerTrim (rm_SortOrder req));
          kind = lowerTrim (rm_Kind req);
          state = lowerTrim (rm_State req)
      in if rm_PageSize req \<noteq> None \<and> (pageSize \<le> 0 \<or> MaxQueryPageSize < pageSize) then Err PageSizeOutOfRange
         else if sortField \<noteq> ''updated_at'' \<and> sortField \<noteq> ''created_at'' then Err (UnsupportedSortField (rm_SortField req))
         else if sortOrder \<noteq> ''asc'' \<and> sortOrder \<noteq> ''desc'' then Err (UnsupportedSortOrder (rm_SortOrder req))
         else if kind \<noteq> [] \<and> kind \<notin> set (map envelope_kind_string [KindCommand, KindEvent, KindResult])
         then Err (UnsupportedKindFilter (rm_Kind req))
         else if state \<noteq> [] \<and> state \<notin> set (map message_state_string
                   [StateQueued, StateInFlight, StateAcked, StateNacked, StateDeadLetter, StateExpired])
         then Err (UnsupportedStateFilter (rm_State req))
         else if (case rm_TimeRange req of
                    None \<Rightarrow> False
                  | Some tr \<Rightarrow> \<not> IsZero (tr_Start tr) \<and> \<not> IsZero (tr_End tr) \<and> tr_End tr < tr_Start tr)
         then Err TimeRangeInverted
         else
           Ok \<lparr>nm_MessageID = TrimSpace (rm_MessageID req), nm_IdempotencyKey = TrimSpace (rm_IdempotencyKey req),
               nm_CorrelationID = TrimSpace (rm_CorrelationID req), nm_Kind = kind, nm_State = state,
               nm_FromAgent = TrimSpace (rm_FromAgent req), nm_ToAgent = TrimSpace (rm_ToAgent req),
               nm_TaskID = TrimSpace (rm_TaskID req), nm_RunID = TrimSpace (rm_RunID req),
               nm_WorkflowID = TrimSpace (rm_WorkflowID req), nm_TeamID = TrimSpace (rm_TeamID req),
               nm_TimeRange = rm_TimeRange req, nm_PageSize = pageSize, nm_SortField = sortField,
               nm_SortOrder = sortOrder, nm_Cursor = TrimSpace (rm_Cursor req)\<rparr>)"

section \<open>The hash of a query\<close>

definition queryKey :: "normalized_query \<Rightarrow> string" where
  "queryKey q =
     Join [nm_MessageID q, nm_IdempotencyKey q, nm_CorrelationID q, nm_Kind q, nm_State q, nm_FromAgent q, nm_ToAgent q,
           nm_TaskID q, nm_RunID q, nm_WorkflowID q, nm_TeamID q, Itoa (rangeNano tr_Start (nm_TimeRange q)),
           Itoa (rangeNano tr_End (nm_TimeRange q)), nm_SortField q, nm_SortOrder q, Itoa (nm_PageSize q)] ''|''"

definition queryHash :: "normalized_query \<Rightarrow> string" where
  "queryHash q = hex_encode (sha1_sum (queryKey q))"

section \<open>Cursors\<close>

definition encodeCursor :: "query_cursor \<Rightarrow> string" where
  "encodeCursor c = b64_encode (marshalCursor c)"

definition decodeCursor :: "string \<Rightarrow> string \<Rightarrow> (query_error, int) result" where
  "decodeCursor cursor expectedHash =
     (if TrimSpace cursor = [] then Ok 0
      else
        (case Option.bind (b64_decode (TrimSpace cursor)) unmarshalCursor of
           None \<Rightarrow> Err InvalidQueryCursor
         | Some decoded \<Rightarrow>
             if qc_Offset decoded < 0 \<or> TrimSpace (qc_QueryHash decoded) = [] then Err InvalidQueryCursor
             else if TrimSpace (qc_QueryHash decoded) \<noteq> TrimSpace expectedHash then Err InvalidQueryCursor
             else Ok (qc_Offset decoded)))"

section \<open>Matching, sorting, paging\<close>

definition matchesQuery :: "mb_record \<Rightarrow> normalized_query \<Rightarrow> bool" where
  "matchesQuery r q \<longleftrightarrow>
     (let env = m_Envelope r in
      matchesField (nm_MessageID q) (TrimSpace (e_MessageID env))
      \<and> matchesField (nm_IdempotencyKey q) (TrimSpace (e_IdempotencyKey env))
      \<and> matchesField (nm_CorrelationID q) (TrimSpace (e_CorrelationID env))
      \<and> matchesField (nm_Kind q) (TrimSpace (envelope_kind_string (e_Kind env)))
      \<and> matchesField (nm_State q) (TrimSpace (message_state_string (m_State r)))
      \<and> matchesField (nm_FromAgent q) (TrimSpace (e_FromAgent env))
      \<and> matchesField (nm_ToAgent q) (TrimSpace (e_ToAgent env))
      \<and> matchesField (nm_TaskID q) (TrimSpace (e_TaskID env))
      \<and> matchesField (nm_RunID q) (TrimSpace (e_RunID env))
      \<and> matchesField (nm_WorkflowID q) (TrimSpace (e_WorkflowID env))
      \<and> matchesField (nm_TeamID q) (TrimSpace (e_TeamID env))
      \<and> inTimeRange (nm_TimeRange q) (m_UpdatedAt r))"

definition querySortTimestamp :: "mb_record \<Rightarrow> string \<Rightarrow> time" where
  "querySortTimestamp r field = (if lowerTrim field = ''created_at'' then m_CreatedAt r else m_UpdatedAt r)"

definition queryLess :: "string \<Rightarrow> string \<Rightarrow> mb_record \<Rightarrow> mb_record \<Rightarrow> bool" where
  "queryLess field order left right \<longleftrightarrow>
     (let desc = (lowerTrim order \<noteq> ''asc'');
          leftTS = querySortTimestamp left field;
          rightTS = querySortTimestamp right field
      in if leftTS = rightTS
         then TrimSpace (e_MessageID (m_Envelope left)) < TrimSpace (e_MessageID (m_Envelope right))
         else if desc then rightTS < leftTS
         else leftTS < rightTS)"

definition sortQuery :: "string \<Rightarrow> string \<Rightarrow> mb_record list \<Rightarrow> mb_record list" where
  "sortQuery field order records = SliceStable (queryLess field order) records"

definition filterQueryRecords :: "mb_record list \<Rightarrow> normalized_query \<Rightarrow> mb_record list" where
  "filterQueryRecords records q =
     sortQuery (nm_SortField q) (nm_SortOrder q) (filter (\<lambda>r. matchesQuery r q) records)"

definition buildQueryResult :: "mb_record list \<Rightarrow> normalized_query \<Rightarrow> int \<Rightarrow> string \<Rightarrow> (query_error, mb_query_result) result" where
  "buildQueryResult filtered q start hash =
     (case cutPage encodeCursor filtered (nm_PageSize q) start hash of
        Inl e \<Rightarrow> Err e
      | Inr (items, nextCursor) \<Rightarrow>
          Ok \<lparr>mq_Items = items, mq_NextCursor = nextCursor, mq_PageSize = nm_PageSize q,
              mq_SortField = nm_SortField q, mq_SortOrder = nm_SortOrder q\<rparr>)"

section \<open>The cursors keep their contract\<close>

lemma mail_cursor_eq: "encodeCursor = encodeOffsetCursor" "decodeCursor = decodeOffsetCursor"
  by (simp_all add: fun_eq_iff encodeCursor_def decodeCursor_def encodeOffsetCursor_def decodeOffsetCursor_def)

interpretation mail_cursor: cursor_codec encodeCursor decodeCursor hash_text
  unfolding mail_cursor_eq by (rule offset_cursor.cursor_codec_axioms)

lemma queryHash_text: "hash_text (queryHash q)"
  by (simp add: queryHash_def hash_text_sha1)

section \<open>The order of the answer\<close>

definition mailKey :: "normalized_query \<Rightarrow> mb_record \<Rightarrow> int \<times> string" where
  "mailKey q r =
     (let ts = querySortTimestamp r (nm_SortField q)
      in (if lowerTrim (nm_SortOrder q) \<noteq> ''asc'' then - ts else ts, TrimSpace (e_MessageID (m_Envelope r))))"

lemma queryLess_key: "queryLess (nm_SortField q) (nm_SortOrder q) x y \<longleftrightarrow> mailKey q x < mailKey q y"
  by (auto simp: queryLess_def mailKey_def Let_def less_prod_def')

lemma filterQueryRecords_sorted:
  "filterQueryRecords records q = sort_key (mailKey q) (filter (\<lambda>r. matchesQuery r q) records)"
  unfolding filterQueryRecords_def sortQuery_def by (rule SliceStable_key) (rule queryLess_key)

lemma guard_Ok: "(if b then Err e else x) = Ok y \<longleftrightarrow> \<not> b \<and> x = Ok y"
  by simp

lemma normalizeQuery_page:
  assumes "normalizeQuery req = Ok q"
  shows "0 < nm_PageSize q \<and> nm_PageSize q \<le> MaxQueryPageSize" "nm_Cursor q = TrimSpace (rm_Cursor req)"
proof -
  let ?n = "case rm_PageSize req of None \<Rightarrow> DefaultQueryPageSize | Some n \<Rightarrow> n"
  note parts = assms [unfolded normalizeQuery_def Let_def guard_Ok]
  have "\<not> (rm_PageSize req \<noteq> None \<and> (?n \<le> 0 \<or> MaxQueryPageSize < ?n))" using parts by (elim conjE)
  moreover have "nm_PageSize q = ?n" using parts by - (elim conjE, drule Inr_inject, erule subst, simp only: normalized_query.simps)
  moreover have "nm_Cursor q = TrimSpace (rm_Cursor req)"
    using parts by - (elim conjE, drule Inr_inject, erule subst, simp only: normalized_query.simps)
  ultimately show "0 < nm_PageSize q \<and> nm_PageSize q \<le> MaxQueryPageSize" "nm_Cursor q = TrimSpace (rm_Cursor req)"
    by (auto split: option.splits)
qed

end
