(* ===== verification/Mailbox_Store.thy ===== *)
theory Mailbox_Store
  imports Mailbox_Query Persist_Options
begin

text \<open>
  The interface \<open>Store\<close> of \<open>src/orchestration/mailbox/types.go\<close> as a record of its methods, its
  contract, and the two stores: the in-memory one of \<open>store_memory.go\<close> and the file store of
  \<open>store_file.go\<close>. The JSON codec of snapshots is a parameter; \<open>fault n\<close> says whether the \<open>n\<close>-th use
  of the file system fails and how. A write goes to a temporary file that is then renamed, so a
  failing write leaves the file as it was.
\<close>

section \<open>The interface\<close>

record 's mail_store =
  ms_Publish :: "time \<Rightarrow> envelope \<Rightarrow> time \<Rightarrow> 's \<Rightarrow> (mb_error, publish_result) result \<times> 's"
  ms_Consume :: "time \<Rightarrow> string \<Rightarrow> time \<Rightarrow> duration \<Rightarrow> bool \<Rightarrow> 's \<Rightarrow> (mb_error, mb_record option) result \<times> 's"
  ms_Heartbeat :: "time \<Rightarrow> string \<Rightarrow> string \<Rightarrow> time \<Rightarrow> duration \<Rightarrow> 's \<Rightarrow> (mb_error, mb_record) result \<times> 's"
  ms_Ack :: "time \<Rightarrow> string \<Rightarrow> string \<Rightarrow> time \<Rightarrow> 's \<Rightarrow> (mb_error, mb_record) result \<times> 's"
  ms_Nack :: "time \<Rightarrow> string \<Rightarrow> string \<Rightarrow> string \<Rightarrow> time \<Rightarrow> action_options \<Rightarrow> 's \<Rightarrow> (mb_error, mb_record) result \<times> 's"
  ms_Requeue :: "time \<Rightarrow> string \<Rightarrow> string \<Rightarrow> string \<Rightarrow> time \<Rightarrow> action_options \<Rightarrow> 's \<Rightarrow> (mb_error, mb_record) result \<times> 's"
  ms_Stats :: "'s \<Rightarrow> mb_stats"
  ms_Snapshot :: "'s \<Rightarrow> mb_snapshot"
  ms_Restore :: "time \<Rightarrow> string list \<Rightarrow> string \<Rightarrow> mb_snapshot \<Rightarrow> 's \<Rightarrow> (mb_error, unit) result \<times> 's"
  ms_DrainLifecycleEvents :: "'s \<Rightarrow> lifecycle_event list \<times> 's"
  ms_SetLifecycleTracing :: "bool \<Rightarrow> 's \<Rightarrow> 's"
  ms_historySnapshot :: "'s \<Rightarrow> (history_journal \<times> bool) option"

section \<open>The in-memory store\<close>

definition memoryConsume :: "time \<Rightarrow> string \<Rightarrow> time \<Rightarrow> duration \<Rightarrow> bool \<Rightarrow> mb_record option mb_op" where
  "memoryConsume clk consumerID now inflightTimeout reclaimOnConsume s =
     (case consume clk consumerID now inflightTimeout reclaimOnConsume s of (res, s1) \<Rightarrow> (map_sum id fst res, s1))"

definition NewMailMemoryStore :: "string \<Rightarrow> mb_policy \<Rightarrow> mailbox_state" where
  "NewMailMemoryStore source policy = newMailboxState source ''memory'' policy"

definition MailMemoryStore :: "mailbox_state mail_store" where
  "MailMemoryStore =
     \<lparr>ms_Publish = publish, ms_Consume = memoryConsume, ms_Heartbeat = mb_heartbeat, ms_Ack = ack, ms_Nack = nack,
      ms_Requeue = mb_requeue, ms_Stats = mx_Stats, ms_Snapshot = mb_snapshotOf, ms_Restore = (\<lambda>clk. mb_restore),
      ms_DrainLifecycleEvents = drainLifecycleEvents, ms_SetLifecycleTracing = setTraceEvents,
      ms_historySnapshot = (\<lambda>s. Some (mx_History s, False))\<rparr>"

section \<open>The file store\<close>

record 'b mail_file_env =
  me_encode :: "mb_snapshot \<Rightarrow> 'b option"
  me_decode :: "'b \<Rightarrow> mb_snapshot option"
  me_fault :: "nat \<Rightarrow> io_fault option"

record 'b mail_file_store =
  mf_historyPersistFailed :: bool
  mf_historyCommitted :: bool
  mf_path :: string
  mf_state :: mailbox_state
  mf_persistOpts :: file_store_options
  mf_pendingPersist :: int
  mf_dirtySince :: time
  mf_file :: "'b option"
  mf_uses :: nat

definition mailPersistRaw :: "'b mail_file_env \<Rightarrow> 'b mail_file_store \<Rightarrow> (mb_error, unit) result \<times> 'b mail_file_store" where
  "mailPersistRaw env fs =
     (let fault = me_fault env (mf_uses fs); fs1 = fs\<lparr>mf_uses := Suc (mf_uses fs)\<rparr> in
      if fault = Some MkdirFailed then (Err (MErrBackendIO MkdirFailed), fs1)
      else
        (case me_encode env (mb_snapshotOf (mf_state fs)) of
           None \<Rightarrow> (Err (MErrBackendIO EncodeFailed), fs1)
         | Some raw \<Rightarrow>
             if fault = Some WriteFailed then (Err (MErrBackendIO WriteFailed), fs1)
             else if fault = Some RenameFailed then (Err (MErrBackendIO RenameFailed), fs1)
             else (Ok (), fs1\<lparr>mf_file := Some raw\<rparr>)))"

text \<open>The deferred function of \<open>persist\<close> records whether the journal on disk is current.\<close>

definition mailPersist :: "'b mail_file_env \<Rightarrow> 'b mail_file_store \<Rightarrow> (mb_error, unit) result \<times> 'b mail_file_store" where
  "mailPersist env fs =
     (case mailPersistRaw env fs of
        (res, fs1) \<Rightarrow>
          (res, fs1\<lparr>mf_historyPersistFailed := isl res, mf_historyCommitted := (mf_historyCommitted fs1 \<or> \<not> isl res)\<rparr>))"

definition mailFlushPersistLocked :: "'b mail_file_env \<Rightarrow> 'b mail_file_store \<Rightarrow> (mb_error, unit) result \<times> 'b mail_file_store" where
  "mailFlushPersistLocked env fs =
     (if batchingEnabled (mf_persistOpts fs) \<and> mf_pendingPersist fs = 0 then (Ok (), fs)
      else
        (case mailPersist env fs of
           (Inl e, fs1) \<Rightarrow> (Err e, fs1)
         | (Inr u, fs1) \<Rightarrow> (Ok (), fs1\<lparr>mf_pendingPersist := 0, mf_dirtySince := 0\<rparr>)))"

definition mailMaybePersistLocked ::
  "'b mail_file_env \<Rightarrow> time \<Rightarrow> bool \<Rightarrow> 'b mail_file_store \<Rightarrow> (mb_error, unit) result \<times> 'b mail_file_store" where
  "mailMaybePersistLocked env clk force fs =
     (if \<not> batchingEnabled (mf_persistOpts fs) then mailPersist env fs
      else
        let fs1 = fs\<lparr>mf_pendingPersist := mf_pendingPersist fs + 1,
                     mf_dirtySince := (if IsZero (mf_dirtySince fs) then clk else mf_dirtySince fs)\<rparr>
        in if force then mailFlushPersistLocked env fs1
           else if fo_PersistBatchSize (mf_persistOpts fs1) \<le> mf_pendingPersist fs1 then mailFlushPersistLocked env fs1
           else if 0 < fo_PersistDebounce (mf_persistOpts fs1)
                   \<and> fo_PersistDebounce (mf_persistOpts fs1) \<le> time_sub clk (mf_dirtySince fs1)
           then mailFlushPersistLocked env fs1
           else (Ok (), fs1))"

definition mailFlush :: "'b mail_file_env \<Rightarrow> 'b mail_file_store \<Rightarrow> (mb_error, unit) result \<times> 'b mail_file_store" where
  "mailFlush env fs = mailFlushPersistLocked env fs"

text \<open>An operation of the state, followed by a write when it succeeds and \<open>changed\<close> something.\<close>

definition mailPersisting ::
  "'b mail_file_env \<Rightarrow> time \<Rightarrow> bool \<Rightarrow> ('a \<Rightarrow> bool) \<Rightarrow> (mb_error, 'a) result \<times> mailbox_state \<Rightarrow> 'b mail_file_store
     \<Rightarrow> (mb_error, 'a) result \<times> 'b mail_file_store" where
  "mailPersisting env clk force changed outcome fs =
     (case outcome of
        (Inl e, s) \<Rightarrow> (Err e, fs\<lparr>mf_state := s\<rparr>)
      | (Inr v, s) \<Rightarrow>
          if \<not> changed v then (Ok v, fs\<lparr>mf_state := s\<rparr>)
          else
            (case mailMaybePersistLocked env clk force (fs\<lparr>mf_state := s\<rparr>) of
               (Inl e, fs1) \<Rightarrow> (Err e, fs1)
             | (Inr u, fs1) \<Rightarrow> (Ok v, fs1)))"

definition filePublish :: "'b mail_file_env \<Rightarrow> time \<Rightarrow> envelope \<Rightarrow> time \<Rightarrow> 'b mail_file_store \<Rightarrow> (mb_error, publish_result) result \<times> 'b mail_file_store" where
  "filePublish env clk e now fs = mailPersisting env clk False (\<lambda>_. True) (publish clk e now (mf_state fs)) fs"

definition fileConsume ::
  "'b mail_file_env \<Rightarrow> time \<Rightarrow> string \<Rightarrow> time \<Rightarrow> duration \<Rightarrow> bool \<Rightarrow> 'b mail_file_store
     \<Rightarrow> (mb_error, mb_record option) result \<times> 'b mail_file_store" where
  "fileConsume env clk consumerID now inflightTimeout reclaimOnConsume fs =
     (case mailPersisting env clk False (\<lambda>(r, mutated). r \<noteq> None \<or> mutated)
             (consume clk consumerID now inflightTimeout reclaimOnConsume (mf_state fs)) fs of
        (res, fs1) \<Rightarrow> (map_sum id fst res, fs1))"

definition fileHeartbeat ::
  "'b mail_file_env \<Rightarrow> time \<Rightarrow> string \<Rightarrow> string \<Rightarrow> time \<Rightarrow> duration \<Rightarrow> 'b mail_file_store \<Rightarrow> (mb_error, mb_record) result \<times> 'b mail_file_store" where
  "fileHeartbeat env clk mid c now lease fs =
     mailPersisting env clk False (\<lambda>_. True) (mb_heartbeat clk mid c now lease (mf_state fs)) fs"

definition fileAck ::
  "'b mail_file_env \<Rightarrow> time \<Rightarrow> string \<Rightarrow> string \<Rightarrow> time \<Rightarrow> 'b mail_file_store \<Rightarrow> (mb_error, mb_record) result \<times> 'b mail_file_store" where
  "fileAck env clk mid c now fs = mailPersisting env clk False (\<lambda>_. True) (ack clk mid c now (mf_state fs)) fs"

definition fileNack ::
  "'b mail_file_env \<Rightarrow> time \<Rightarrow> string \<Rightarrow> string \<Rightarrow> string \<Rightarrow> time \<Rightarrow> action_options \<Rightarrow> 'b mail_file_store
     \<Rightarrow> (mb_error, mb_record) result \<times> 'b mail_file_store" where
  "fileNack env clk mid c reason now opts fs =
     mailPersisting env clk False (\<lambda>_. True) (nack clk mid c reason now opts (mf_state fs)) fs"

definition fileRequeue ::
  "'b mail_file_env \<Rightarrow> time \<Rightarrow> string \<Rightarrow> string \<Rightarrow> string \<Rightarrow> time \<Rightarrow> action_options \<Rightarrow> 'b mail_file_store
     \<Rightarrow> (mb_error, mb_record) result \<times> 'b mail_file_store" where
  "fileRequeue env clk mid c reason now opts fs =
     mailPersisting env clk False (\<lambda>_. True) (mb_requeue clk mid c reason now opts (mf_state fs)) fs"

definition fileRestore ::
  "'b mail_file_env \<Rightarrow> time \<Rightarrow> string list \<Rightarrow> string \<Rightarrow> mb_snapshot \<Rightarrow> 'b mail_file_store \<Rightarrow> (mb_error, unit) result \<times> 'b mail_file_store" where
  "fileRestore env clk ks source sn fs = mailPersisting env clk True (\<lambda>_. True) (mb_restore ks source sn (mf_state fs)) fs"

definition fileHistorySnapshot :: "'b mail_file_store \<Rightarrow> (history_journal \<times> bool) option" where
  "fileHistorySnapshot fs =
     (if mf_pendingPersist fs \<noteq> 0 \<or> mf_historyPersistFailed fs \<or> \<not> mf_historyCommitted fs then None
      else Some (mx_History (mf_state fs), True))"

text \<open>\<open>load\<close>, with the random source id and the iteration order a restore needs.\<close>

definition mailLoad ::
  "'b mail_file_env \<Rightarrow> string list \<Rightarrow> string \<Rightarrow> 'b mail_file_store \<Rightarrow> (mb_error, unit) result \<times> 'b mail_file_store" where
  "mailLoad env ks source fs =
     (let fault = me_fault env (mf_uses fs); fs1 = fs\<lparr>mf_uses := Suc (mf_uses fs)\<rparr> in
      if fault = Some MkdirFailed then (Err (MErrBackendIO MkdirFailed), fs1)
      else if fault = Some ReadFailed then (Err (MErrBackendIO ReadFailed), fs1)
      else
        (case mf_file fs of
           None \<Rightarrow> (Ok (), fs1)
         | Some raw \<Rightarrow>
             (case me_decode env raw of
                None \<Rightarrow> (Err (MErrBackendIO DecodeFailed), fs1)
              | Some sn \<Rightarrow>
                  (case mb_restore ks source sn (mf_state fs) of
                     (Inl e, s) \<Rightarrow> (Err (MErrBackendIO DecodeFailed), fs1\<lparr>mf_state := s\<rparr>)
                   | (Inr u, s) \<Rightarrow>
                       (Ok (), fs1\<lparr>mf_state := s, mf_historyCommitted := (mn_History sn \<noteq> None)\<rparr>)))))"

definition NewMailFileStore ::
  "'b mail_file_env \<Rightarrow> string list \<Rightarrow> string \<Rightarrow> string \<Rightarrow> mb_policy \<Rightarrow> (file_store_options \<Rightarrow> file_store_options) option list
     \<Rightarrow> 'b option \<Rightarrow> nat \<Rightarrow> (mb_error, 'b mail_file_store) result" where
  "NewMailFileStore env ks source path policy opts disk uses =
     (let cleaned = TrimSpace path in
      if cleaned = [] then Err (MErrBackendIO BackendPathRequired)
      else
        (case mailLoad env ks source
                \<lparr>mf_historyPersistFailed = False, mf_historyCommitted = False, mf_path = cleaned,
                 mf_state = newMailboxState source ''file'' policy,
                 mf_persistOpts = normalizeFileStoreOptions opts, mf_pendingPersist = 0, mf_dirtySince = 0,
                 mf_file = disk, mf_uses = uses\<rparr> of
           (Inl e, fs) \<Rightarrow> Err e
         | (Inr u, fs) \<Rightarrow> Ok fs))"

definition MailFileStore :: "'b mail_file_env \<Rightarrow> 'b mail_file_store mail_store" where
  "MailFileStore env =
     \<lparr>ms_Publish = filePublish env, ms_Consume = fileConsume env, ms_Heartbeat = fileHeartbeat env, ms_Ack = fileAck env,
      ms_Nack = fileNack env, ms_Requeue = fileRequeue env, ms_Stats = (\<lambda>fs. mx_Stats (mf_state fs)),
      ms_Snapshot = (\<lambda>fs. mb_snapshotOf (mf_state fs)), ms_Restore = fileRestore env,
      ms_DrainLifecycleEvents =
        (\<lambda>fs. case drainLifecycleEvents (mf_state fs) of (evs, s) \<Rightarrow> (evs, fs\<lparr>mf_state := s\<rparr>)),
      ms_SetLifecycleTracing = (\<lambda>enabled fs. fs\<lparr>mf_state := setTraceEvents enabled (mf_state fs)\<rparr>),
      ms_historySnapshot = fileHistorySnapshot\<rparr>"

section \<open>Choosing a store\<close>

record 'b store_init =
  si_Store :: "mailbox_state + 'b mail_file_store"
  si_Requested :: string
  si_Backend :: string
  si_Fallback :: bool
  si_FallbackReason :: string

definition newStoreWithFallback ::
  "'b mail_file_env \<Rightarrow> string list \<Rightarrow> string \<Rightarrow> string \<Rightarrow> string \<Rightarrow> mb_policy
     \<Rightarrow> (file_store_options \<Rightarrow> file_store_options) option list \<Rightarrow> 'b option \<Rightarrow> nat \<Rightarrow> (mb_error, 'b store_init) result" where
  "newStoreWithFallback env ks source backend path policy opts disk uses =
     (let kind = ToLower (TrimSpace backend) in
      if kind = [] \<or> kind = ''memory''
      then Ok \<lparr>si_Store = Inl (NewMailMemoryStore source policy), si_Requested = [], si_Backend = ''memory'',
              si_Fallback = False, si_FallbackReason = []\<rparr>
      else if kind = ''file''
      then
        (case NewMailFileStore env ks source path policy opts disk uses of
           Inl e \<Rightarrow>
             Ok \<lparr>si_Store = Inl (setFallback ''mailbox.backend.file_init_failed'' (NewMailMemoryStore source policy)),
                 si_Requested = ''file'', si_Backend = ''memory'', si_Fallback = True,
                 si_FallbackReason = ''mailbox.backend.file_init_failed''\<rparr>
         | Inr fs \<Rightarrow>
             Ok \<lparr>si_Store = Inr fs, si_Requested = ''file'', si_Backend = ''file'', si_Fallback = False,
                 si_FallbackReason = []\<rparr>)
      else Err (MErrUnsupportedBackend backend))"

section \<open>The contract of a store\<close>

text \<open>
  A method does to the state behind the store what the operation of the state does, and answers as it
  answers or with a file system error.
\<close>

definition mail_answer :: "('s \<Rightarrow> mailbox_state) \<Rightarrow> (mb_error, 'a) result \<times> 's \<Rightarrow> (mb_error, 'a) result \<times> mailbox_state \<Rightarrow> bool" where
  "mail_answer view x y \<longleftrightarrow> view (snd x) = snd y \<and> (fst x = fst y \<or> (\<exists>e. fst x = Err (MErrBackendIO e)))"

lemma mail_answerD: "mail_answer view x y \<Longrightarrow> view (snd x) = snd y"
  by (simp add: mail_answer_def)

locale mail_store_contract =
  fixes st :: "'s mail_store"
    and view :: "'s \<Rightarrow> mailbox_state"
  assumes does_Publish: "mail_answer view (ms_Publish st clk e now s) (publish clk e now (view s))"
    and does_Consume: "mail_answer view (ms_Consume st clk c now lease reclaim s) (memoryConsume clk c now lease reclaim (view s))"
    and does_Heartbeat: "mail_answer view (ms_Heartbeat st clk mid c now lease s) (mb_heartbeat clk mid c now lease (view s))"
    and does_Ack: "mail_answer view (ms_Ack st clk mid c now s) (ack clk mid c now (view s))"
    and does_Nack: "mail_answer view (ms_Nack st clk mid c reason now opts s) (nack clk mid c reason now opts (view s))"
    and does_Requeue: "mail_answer view (ms_Requeue st clk mid c reason now opts s) (mb_requeue clk mid c reason now opts (view s))"
    and does_Stats: "ms_Stats st s = mx_Stats (view s)"
    and does_Snapshot: "ms_Snapshot st s = mb_snapshotOf (view s)"
    and does_Restore: "mail_answer view (ms_Restore st clk ks source sn s) (mb_restore ks source sn (view s))"
    and does_Drain: "ms_DrainLifecycleEvents st s = (evs, s') \<Longrightarrow> drainLifecycleEvents (view s) = (evs, view s')"
    and does_Tracing: "view (ms_SetLifecycleTracing st b s) = setTraceEvents b (view s)"
    and does_history: "ms_historySnapshot st s = Some (h, d) \<Longrightarrow> h = mx_History (view s)"

section \<open>Both stores keep it\<close>

interpretation mail_memory: mail_store_contract MailMemoryStore "\<lambda>s. s"
  by unfold_locales (simp_all add: MailMemoryStore_def mail_answer_def)

lemma mailPersist_state [simp]: "mf_state (snd (mailPersist env fs)) = mf_state fs"
  by (simp add: mailPersist_def mailPersistRaw_def Let_def split: option.split)

lemma mailPersist_io: "fst (mailPersist env fs) = Ok () \<or> (\<exists>e. fst (mailPersist env fs) = Err (MErrBackendIO e))"
  by (simp add: mailPersist_def mailPersistRaw_def Let_def split: option.split)

lemma mailFlush_state [simp]: "mf_state (snd (mailFlushPersistLocked env fs)) = mf_state fs"
  using mailPersist_state [of env fs]
  by (auto simp: mailFlushPersistLocked_def simp del: mailPersist_state split: prod.splits sum.splits)

lemma mailFlush_io: "fst (mailFlushPersistLocked env fs) = Ok () \<or> (\<exists>e. fst (mailFlushPersistLocked env fs) = Err (MErrBackendIO e))"
  using mailPersist_io [of env fs] by (auto simp: mailFlushPersistLocked_def split: prod.splits sum.splits)

lemma mailMaybePersist_state [simp]: "mf_state (snd (mailMaybePersistLocked env clk force fs)) = mf_state fs"
  by (simp add: mailMaybePersistLocked_def Let_def)

lemma mailMaybePersist_io:
  "fst (mailMaybePersistLocked env clk force fs) = Ok () \<or> (\<exists>e. fst (mailMaybePersistLocked env clk force fs) = Err (MErrBackendIO e))"
  using mailPersist_io [of env] mailFlush_io [of env] by (simp add: mailMaybePersistLocked_def Let_def)

lemma mailPersisting_answer: "mail_answer mf_state (mailPersisting env clk force changed outcome fs) outcome"
proof (cases outcome)
  case (Pair res s)
  show ?thesis
  proof (cases res)
    case (Inr v)
    let ?m = "mailMaybePersistLocked env clk force (fs\<lparr>mf_state := s\<rparr>)"
    have "mf_state (snd ?m) = s" by simp
    then show ?thesis
      using Pair Inr mailMaybePersist_io [of env clk force "fs\<lparr>mf_state := s\<rparr>"]
      by (cases ?m) (auto simp: mail_answer_def mailPersisting_def split: sum.split)
  qed (simp add: Pair mail_answer_def mailPersisting_def)
qed

lemma fileConsume_answer:
  "mail_answer mf_state (fileConsume env clk c now lease reclaim fs) (memoryConsume clk c now lease reclaim (mf_state fs))"
  using mailPersisting_answer [of env clk False "\<lambda>(r, mutated). r \<noteq> None \<or> mutated" "consume clk c now lease reclaim (mf_state fs)" fs]
  by (auto simp: mail_answer_def fileConsume_def memoryConsume_def case_prod_beta)

interpretation mail_file: mail_store_contract "MailFileStore env" mf_state for env :: "'b mail_file_env"
proof unfold_locales
  show "ms_DrainLifecycleEvents (MailFileStore env) fs = (evs, fs') \<Longrightarrow> drainLifecycleEvents (mf_state fs) = (evs, mf_state fs')"
    for fs fs' evs by (auto simp: MailFileStore_def split: prod.splits)
  show "ms_historySnapshot (MailFileStore env) fs = Some (h, d) \<Longrightarrow> h = mx_History (mf_state fs)" for fs h d
    by (auto simp: MailFileStore_def fileHistorySnapshot_def split: if_splits)
qed (simp_all add: MailFileStore_def filePublish_def fileConsume_answer fileHeartbeat_def fileAck_def fileNack_def
    fileRequeue_def fileRestore_def mailPersisting_answer)

section \<open>What the file holds\<close>

text \<open>After a write the file holds the state, and a failing write leaves the file as it was.\<close>

lemma mailPersist_file:
  "fst (mailPersist env fs) = Ok () \<and> mf_file (snd (mailPersist env fs)) = me_encode env (mb_snapshotOf (mf_state fs))
     \<and> mf_file (snd (mailPersist env fs)) \<noteq> None
   \<or> isl (fst (mailPersist env fs)) \<and> mf_file (snd (mailPersist env fs)) = mf_file fs"
  by (auto simp: mailPersist_def mailPersistRaw_def Let_def split: option.split)

text \<open>A file that holds a snapshot of a good state opens to that state.\<close>

lemma mail_reopen:
  assumes s: "mb_inv s" "all_tidy s" "mt_Backend (mx_Stats s) \<noteq> []" "validJournal (mx_History s)"
    and disk: "me_decode env raw = Some (mb_snapshotOf s)" "me_fault env uses = None" and path: "TrimSpace path \<noteq> []"
  shows "\<exists>g. NewMailFileStore env ks source path policy opts (Some raw) uses = Ok g
    \<and> mf_state g = s\<lparr>mx_events := [], mx_traceEvents := False\<rparr> \<and> mf_historyCommitted g \<and> mf_pendingPersist g = 0"
proof -
  have "mb_restore ks source (mb_snapshotOf s) (newMailboxState source ''file'' policy) =
      (Ok (), s\<lparr>mx_events := [], mx_traceEvents := False\<rparr>)"
    by (simp add: mb_restore_snapshot [OF s] newMailboxState_def)
  then show ?thesis
    using disk path by (simp add: NewMailFileStore_def mailLoad_def Let_def mb_snapshotOf_def)
qed

end
