(* ===== verification/Mailbox_Facade.thy ===== *)
theory Mailbox_Facade
  imports Mailbox_Store
begin

text \<open>
  The facade \<open>Mailbox\<close> of \<open>src/orchestration/mailbox/mailbox.go\<close> over any store, and the worker of
  \<open>worker.go\<close> (without continuations). \<open>clk\<close> is what \<open>time.Now()\<close> reads in the store during a call,
  \<open>now\<close> what the facade's own clock reads. An observer is a number; what the observers are told is
  recorded. The handler of a worker, the ticks of its heartbeat and the text of an error are arguments.
\<close>

section \<open>The facade\<close>

record 's mailbox =
  mb_store :: 's
  mb_observers :: nat
  mb_observed :: "(nat \<times> lifecycle_event) list"
  mb_queryCache :: "mb_record query_cache"

type_synonym ('s, 'a) mail_op = "'s mailbox \<Rightarrow> (mb_error, 'a) result \<times> 's mailbox"

definition NewMailbox :: "'s mail_store \<Rightarrow> nat \<Rightarrow> 's \<Rightarrow> 's mailbox" where
  "NewMailbox st observers s =
     \<lparr>mb_store = ms_SetLifecycleTracing st (0 < observers) s, mb_observers = observers, mb_observed = [],
      mb_queryCache = \<lparr>ca_epoch = 0, ca_entries = fmempty\<rparr>\<rparr>"

definition invalidateQueryCache :: "'s mailbox \<Rightarrow> 's mailbox" where
  "invalidateQueryCache m = m\<lparr>mb_queryCache := cacheInvalidate (mb_queryCache m)\<rparr>"

definition emitLifecycle :: "'s mail_store \<Rightarrow> time \<Rightarrow> 's mailbox \<Rightarrow> 's mailbox" where
  "emitLifecycle st now m =
     (case ms_DrainLifecycleEvents st (mb_store m) of
        (events, s) \<Rightarrow>
          m\<lparr>mb_store := s,
            mb_observed := mb_observed m @
              concat (map (\<lambda>ev. let ev1 = (if IsZero (le_Time ev) then ev\<lparr>le_Time := now\<rparr> else ev)
                                in map (\<lambda>k. (k, ev1)) [0..<mb_observers m]) events)\<rparr>)"

text \<open>A store call, the invalidation after a success, and the events it has left.\<close>

definition mailCall :: "'s mail_store \<Rightarrow> time \<Rightarrow> ('s \<Rightarrow> (mb_error, 'a) result \<times> 's) \<Rightarrow> ('s, 'a) mail_op" where
  "mailCall st now call m =
     (case call (mb_store m) of
        (res, s) \<Rightarrow>
          let m1 = m\<lparr>mb_store := s\<rparr>; m2 = (if isl res then m1 else invalidateQueryCache m1)
          in (res, emitLifecycle st now m2))"

definition Publish :: "'s mail_store \<Rightarrow> time \<Rightarrow> time \<Rightarrow> envelope \<Rightarrow> ('s, publish_result) mail_op" where
  "Publish st clk now e m =
     (case ms_Publish st clk e now (mb_store m) of
        (res, s) \<Rightarrow> let m1 = m\<lparr>mb_store := s\<rparr> in (res, if isl res then m1 else invalidateQueryCache m1))"

definition Consume :: "'s mail_store \<Rightarrow> time \<Rightarrow> time \<Rightarrow> string \<Rightarrow> ('s, mb_record option) mail_op" where
  "Consume st clk now consumerID = mailCall st now (ms_Consume st clk consumerID now 0 False)"

definition ConsumeWithLease :: "'s mail_store \<Rightarrow> time \<Rightarrow> time \<Rightarrow> string \<Rightarrow> duration \<Rightarrow> bool \<Rightarrow> ('s, mb_record option) mail_op" where
  "ConsumeWithLease st clk now consumerID inflightTimeout reclaimOnConsume =
     mailCall st now (ms_Consume st clk consumerID now inflightTimeout reclaimOnConsume)"

definition Ack :: "'s mail_store \<Rightarrow> time \<Rightarrow> time \<Rightarrow> string \<Rightarrow> string \<Rightarrow> ('s, mb_record) mail_op" where
  "Ack st clk now messageID consumerID = mailCall st now (ms_Ack st clk messageID consumerID now)"

definition NackWithOptions ::
  "'s mail_store \<Rightarrow> time \<Rightarrow> time \<Rightarrow> string \<Rightarrow> string \<Rightarrow> string \<Rightarrow> action_options \<Rightarrow> ('s, mb_record) mail_op" where
  "NackWithOptions st clk now messageID consumerID reason opts =
     mailCall st now (ms_Nack st clk messageID consumerID reason now opts)"

definition Nack :: "'s mail_store \<Rightarrow> time \<Rightarrow> time \<Rightarrow> string \<Rightarrow> string \<Rightarrow> string \<Rightarrow> ('s, mb_record) mail_op" where
  "Nack st clk now messageID consumerID reason =
     mailCall st now (ms_Nack st clk messageID consumerID reason now noOptions)"

definition RequeueWithOptions ::
  "'s mail_store \<Rightarrow> time \<Rightarrow> time \<Rightarrow> string \<Rightarrow> string \<Rightarrow> string \<Rightarrow> action_options \<Rightarrow> ('s, mb_record) mail_op" where
  "RequeueWithOptions st clk now messageID consumerID reason opts =
     mailCall st now (ms_Requeue st clk messageID consumerID reason now opts)"

definition MailRequeue :: "'s mail_store \<Rightarrow> time \<Rightarrow> time \<Rightarrow> string \<Rightarrow> string \<Rightarrow> string \<Rightarrow> ('s, mb_record) mail_op" where
  "MailRequeue st clk now messageID consumerID reason =
     mailCall st now (ms_Requeue st clk messageID consumerID reason now noOptions)"

definition MailHeartbeat :: "'s mail_store \<Rightarrow> time \<Rightarrow> time \<Rightarrow> string \<Rightarrow> string \<Rightarrow> duration \<Rightarrow> ('s, mb_record) mail_op" where
  "MailHeartbeat st clk now messageID consumerID inflightTimeout =
     mailCall st now (ms_Heartbeat st clk messageID consumerID now inflightTimeout)"

definition MailRestore :: "'s mail_store \<Rightarrow> time \<Rightarrow> string list \<Rightarrow> string \<Rightarrow> mb_snapshot \<Rightarrow> ('s, unit) mail_op" where
  "MailRestore st clk ks source sn m =
     (case ms_Restore st clk ks source sn (mb_store m) of
        (res, s) \<Rightarrow> let m1 = m\<lparr>mb_store := s\<rparr> in (res, if isl res then m1 else invalidateQueryCache m1))"

definition Query :: "'s mail_store \<Rightarrow> mb_query_request \<Rightarrow> 's mailbox \<Rightarrow> (query_error, mb_query_result) result \<times> 's mailbox" where
  "Query st req m =
     (case normalizeQuery req of
        Inl e \<Rightarrow> (Err e, m)
      | Inr q \<Rightarrow>
          let key = queryHash q in
          (case decodeCursor (nm_Cursor q) key of
             Inl e \<Rightarrow> (Err e, m)
           | Inr start \<Rightarrow>
               let epoch = ca_epoch (mb_queryCache m);
                   (filtered, m1) =
                     (case cacheRead epoch key (mb_queryCache m) of
                        Some items \<Rightarrow> (items, m)
                      | None \<Rightarrow>
                          let fresh = filterQueryRecords (mn_Records (ms_Snapshot st (mb_store m))) q
                          in (fresh, m\<lparr>mb_queryCache := cacheWrite epoch key fresh (mb_queryCache m)\<rparr>))
               in (buildQueryResult filtered q start key, m1)))"

definition PublishCommand :: "'s mail_store \<Rightarrow> time \<Rightarrow> time \<Rightarrow> envelope \<Rightarrow> ('s, publish_result) mail_op" where
  "PublishCommand st clk now e m =
     (if e_Kind e \<noteq> KindCommand then (Err (MErrInvalid PublishKindMismatch), m) else Publish st clk now e m)"

definition PublishResult :: "'s mail_store \<Rightarrow> time \<Rightarrow> time \<Rightarrow> envelope \<Rightarrow> ('s, publish_result) mail_op" where
  "PublishResult st clk now e m =
     (if e_Kind e \<noteq> KindResult then (Err (MErrInvalid PublishKindMismatch), m) else Publish st clk now e m)"

datatype 'w invoke_error = InvokeStore mb_error | InvokeWait 'w

definition fillFrom :: "string \<Rightarrow> string \<Rightarrow> string" where
  "fillFrom own other = (if TrimSpace own = [] then other else own)"

text \<open>
  \<open>InvokeSync\<close>: the command and the result that were published, as far as it got, and the error.
  \<open>wait\<close> is the callback, which may use the mailbox.
\<close>

definition InvokeSync ::
  "'s mail_store \<Rightarrow> time \<Rightarrow> time \<Rightarrow> time \<Rightarrow> time \<Rightarrow> envelope \<Rightarrow> (envelope \<Rightarrow> 's mailbox \<Rightarrow> ('w, envelope) result \<times> 's mailbox)
     \<Rightarrow> 's mailbox \<Rightarrow> (publish_result option \<times> publish_result option \<times> 'w invoke_error option) \<times> 's mailbox" where
  "InvokeSync st clk now clk2 now2 command wait m =
     (case PublishCommand st clk now (command\<lparr>e_Kind := KindCommand\<rparr>) m of
        (Inl e, m1) \<Rightarrow> ((None, None, Some (InvokeStore e)), m1)
      | (Inr published, m1) \<Rightarrow>
          let sent = m_Envelope (pr_Record published) in
          (case wait sent m1 of
             (Inl w, m2) \<Rightarrow> ((Some published, None, Some (InvokeWait w)), m2)
           | (Inr terminal, m2) \<Rightarrow>
               let t = terminal\<lparr>e_Kind := KindResult, e_CorrelationID := fillFrom (e_CorrelationID terminal) (e_MessageID sent),
                         e_RunID := fillFrom (e_RunID terminal) (e_RunID sent), e_TaskID := fillFrom (e_TaskID terminal) (e_TaskID sent),
                         e_WorkflowID := fillFrom (e_WorkflowID terminal) (e_WorkflowID sent),
                         e_TeamID := fillFrom (e_TeamID terminal) (e_TeamID sent)\<rparr>
               in (case PublishResult st clk2 now2 t m2 of
                     (Inl e, m3) \<Rightarrow> ((Some published, None, Some (InvokeStore e)), m3)
                   | (Inr result, m3) \<Rightarrow> ((Some published, Some result, None), m3))))"

section \<open>Envelopes of commands, results and reports\<close>

text \<open>The constructors of \<open>bridge.go\<close>.\<close>

record mail_correlation =
  cn_RunID :: string
  cn_TaskID :: string
  cn_WorkflowID :: string
  cn_TeamID :: string

record async_report =
  ar_ReportKey :: string
  ar_OutcomeKey :: string
  ar_Correlation :: mail_correlation
  ar_FromAgent :: string
  ar_ToAgent :: string
  ar_Payload :: "(string, go_any) gomap"

definition NewCommandEnvelope ::
  "string \<Rightarrow> string \<Rightarrow> mail_correlation \<Rightarrow> string \<Rightarrow> string \<Rightarrow> (string, go_any) gomap \<Rightarrow> time \<Rightarrow> time \<Rightarrow> envelope" where
  "NewCommandEnvelope messageID idempotencyKey correlation fromAgent toAgent payload notBefore expireAt =
     \<lparr>e_DispatchBinding = [], e_HostPlanBinding = None, e_MessageID = TrimSpace messageID,
      e_IdempotencyKey = TrimSpace idempotencyKey, e_CorrelationID = TrimSpace messageID, e_Kind = KindCommand,
      e_FromAgent = TrimSpace fromAgent, e_ToAgent = TrimSpace toAgent, e_TaskID = TrimSpace (cn_TaskID correlation),
      e_RunID = TrimSpace (cn_RunID correlation), e_WorkflowID = TrimSpace (cn_WorkflowID correlation),
      e_TeamID = TrimSpace (cn_TeamID correlation), e_Payload = payload, e_NotBefore = notBefore, e_ExpireAt = expireAt,
      e_Attempt = 0\<rparr>"

definition NewResultEnvelope :: "envelope \<Rightarrow> string \<Rightarrow> string \<Rightarrow> (string, go_any) gomap \<Rightarrow> envelope" where
  "NewResultEnvelope command messageID idempotencyKey payload =
     \<lparr>e_DispatchBinding = [], e_HostPlanBinding = None, e_MessageID = TrimSpace messageID,
      e_IdempotencyKey = TrimSpace idempotencyKey, e_CorrelationID = TrimSpace (e_MessageID command), e_Kind = KindResult,
      e_FromAgent = TrimSpace (e_ToAgent command), e_ToAgent = TrimSpace (e_FromAgent command),
      e_TaskID = TrimSpace (e_TaskID command), e_RunID = TrimSpace (e_RunID command),
      e_WorkflowID = TrimSpace (e_WorkflowID command), e_TeamID = TrimSpace (e_TeamID command), e_Payload = payload,
      e_NotBefore = 0, e_ExpireAt = 0, e_Attempt = 0\<rparr>"

definition NewAsyncResultEnvelope :: "async_report \<Rightarrow> (mb_error, envelope) result" where
  "NewAsyncResultEnvelope report =
     (let reportKey = TrimSpace (ar_ReportKey report);
          outcomeKey = (if TrimSpace (ar_OutcomeKey report) = [] then ''result'' else TrimSpace (ar_OutcomeKey report));
          correlation = ar_Correlation report
      in if reportKey = [] then Err (MErrInvalid ReportKeyRequired)
         else
           Ok \<lparr>e_DispatchBinding = [], e_HostPlanBinding = None, e_MessageID = reportKey @ '':'' @ outcomeKey,
               e_IdempotencyKey = reportKey, e_CorrelationID = TrimSpace (cn_TaskID correlation), e_Kind = KindResult,
               e_FromAgent = TrimSpace (ar_FromAgent report), e_ToAgent = TrimSpace (ar_ToAgent report),
               e_TaskID = TrimSpace (cn_TaskID correlation), e_RunID = TrimSpace (cn_RunID correlation),
               e_WorkflowID = TrimSpace (cn_WorkflowID correlation), e_TeamID = TrimSpace (cn_TeamID correlation),
               e_Payload = ar_Payload report, e_NotBefore = 0, e_ExpireAt = 0, e_Attempt = 0\<rparr>)"

definition PublishAsyncResult :: "'s mail_store \<Rightarrow> time \<Rightarrow> time \<Rightarrow> async_report \<Rightarrow> ('s, publish_result) mail_op" where
  "PublishAsyncResult st clk now report m =
     (case NewAsyncResultEnvelope report of
        Inl e \<Rightarrow> (Err e, m)
      | Inr envelope \<Rightarrow> PublishResult st clk now envelope m)"

section \<open>Workers\<close>

record mail_worker =
  wk_config :: worker_config
  wk_consumerID :: string

abbreviation DefaultWorkerConsumerID :: string where "DefaultWorkerConsumerID \<equiv> ''mailbox-worker''"

definition NewWorker :: "worker_config \<Rightarrow> string \<Rightarrow> (mb_error, mail_worker) result" where
  "NewWorker cfg consumerID =
     map_sum id (\<lambda>normalized.
       \<lparr>wk_config = normalized,
        wk_consumerID = (if TrimSpace consumerID = [] then DefaultWorkerConsumerID else TrimSpace consumerID)\<rparr>)
       (NormalizeWorkerConfig cfg)"

datatype handler_outcome = HandlerDone | HandlerError string | HandlerPanic string

text \<open>The heartbeat goroutine: one beat per tick until the handler has returned or a beat fails.\<close>

fun workerBeats ::
  "'s mail_store \<Rightarrow> string \<Rightarrow> mail_worker \<Rightarrow> (time \<times> time) list \<Rightarrow> 's mailbox \<Rightarrow> mb_error option \<times> 's mailbox" where
  "workerBeats st messageID w [] m = (None, m)"
| "workerBeats st messageID w ((clk, now) # ticks) m =
     (case MailHeartbeat st clk now messageID (wk_consumerID w) (wc_InflightTimeout (wk_config w)) m of
        (Inl e, m1) \<Rightarrow> (Some e, m1)
      | (Inr r, m1) \<Rightarrow> workerBeats st messageID w ticks m1)"

text \<open>What the worker does with a claimed message once its handler has returned.\<close>

definition workerSettle ::
  "'s mail_store \<Rightarrow> (mb_error \<Rightarrow> string) \<Rightarrow> time \<Rightarrow> time \<Rightarrow> mail_worker \<Rightarrow> mb_record \<Rightarrow> handler_outcome \<Rightarrow> mb_error option
     \<Rightarrow> ('s, mb_record) mail_op" where
  "workerSettle st errText clk now w claimed outcome beat m =
     (let mid = e_MessageID (m_Envelope claimed); c = wk_consumerID w;
          failed = (\<lambda>reason opts.
            if wc_HandlerErrorPolicy (wk_config w) = ''nack''
            then NackWithOptions st clk now mid c reason opts m
            else RequeueWithOptions st clk now mid c reason opts m)
      in case outcome of
           HandlerPanic text \<Rightarrow> failed LifecycleReasonHandlerError \<lparr>ao_Reclaimed = False, ao_PanicRecovered = True\<rparr>
         | HandlerError text \<Rightarrow> failed (CanonicalizeLifecycleReason text LifecycleReasonHandlerError) noOptions
         | HandlerDone \<Rightarrow>
             (case beat of
                Some e \<Rightarrow> failed (CanonicalizeLifecycleReason (errText e) LifecycleReasonHandlerError) noOptions
              | None \<Rightarrow> Ack st clk now mid c m))"

text \<open>
  The clock readings of one round of a worker. The handler is a function of the record: a handler that
  uses the mailbox itself, and what others do between the claim and the end of a round, are not modelled.
\<close>

record worker_round =
  wr_claim :: "time \<times> time"
  wr_ticks :: "(time \<times> time) list"
  wr_settle :: "time \<times> time"

definition RunOnce ::
  "'s mail_store \<Rightarrow> (mb_error \<Rightarrow> string) \<Rightarrow> (mb_record \<Rightarrow> handler_outcome) \<Rightarrow> mail_worker \<Rightarrow> worker_round
     \<Rightarrow> 's mailbox \<Rightarrow> (bool \<times> mb_error option) \<times> 's mailbox" where
  "RunOnce st errText handler w rnd m =
     (case ConsumeWithLease st (fst (wr_claim rnd)) (snd (wr_claim rnd)) (wk_consumerID w)
             (wc_InflightTimeout (wk_config w)) (wc_ReclaimOnConsume (wk_config w)) m of
        (Inl e, m1) \<Rightarrow> ((False, Some e), m1)
      | (Inr None, m1) \<Rightarrow> ((False, None), m1)
      | (Inr (Some claimed), m1) \<Rightarrow>
          (case workerBeats st (e_MessageID (m_Envelope claimed)) w (wr_ticks rnd) m1 of
             (beat, m2) \<Rightarrow>
               (case workerSettle st errText (fst (wr_settle rnd)) (snd (wr_settle rnd)) w claimed (handler claimed) beat m2 of
                  (Inl e, m3) \<Rightarrow> ((True, Some e), m3)
                | (Inr r, m3) \<Rightarrow> ((True, None), m3))))"

text \<open>
  \<open>Run\<close>: rounds until the context is done (the list ends) or a round fails. The result counts the
  rounds that processed a message.
\<close>

fun workerRounds ::
  "'s mail_store \<Rightarrow> (mb_error \<Rightarrow> string) \<Rightarrow> (mb_record \<Rightarrow> handler_outcome) \<Rightarrow> mail_worker \<Rightarrow> worker_round list
     \<Rightarrow> 's mailbox \<Rightarrow> (nat \<times> mb_error option) \<times> 's mailbox" where
  "workerRounds st errText handler w [] m = ((0, None), m)"
| "workerRounds st errText handler w (rnd # rnds) m =
     (case RunOnce st errText handler w rnd m of
        ((processed, Some e), m1) \<Rightarrow> ((of_bool processed, Some e), m1)
      | ((processed, None), m1) \<Rightarrow>
          (case workerRounds st errText handler w rnds m1 of
             ((n, res), m2) \<Rightarrow> ((of_bool processed + n, res), m2)))"

definition workerRun ::
  "'s mail_store \<Rightarrow> (mb_error \<Rightarrow> string) \<Rightarrow> (mb_record \<Rightarrow> handler_outcome) \<Rightarrow> mail_worker \<Rightarrow> worker_round list
     \<Rightarrow> 's mailbox \<Rightarrow> (nat \<times> mb_error option) \<times> 's mailbox" where
  "workerRun st errText handler w rnds m =
     (if \<not> wc_Enabled (wk_config w) then ((0, None), m) else workerRounds st errText handler w rnds m)"

end
