(* ===== verification/Mailbox_Runs.thy ===== *)
theory Mailbox_Runs
  imports Mailbox_Facade "HOL-Library.Sublist"
begin

text \<open>
  What follows for the users of a mailbox: every facade operation is a sequence of steps of the state,
  whatever store keeps the contract; a message that is due is delivered in its turn; and the deliveries a mailbox
  can make are bounded, so a worker stops finding work.
\<close>

section \<open>A bound on deliveries\<close>

text \<open>How many deliveries the published messages still allow.\<close>

definition budget :: "mailbox_state \<Rightarrow> int" where
  "budget s = po_MaxAttempts (mx_Policy s) * mt_PublishedTotal (mx_Stats s) - mt_ConsumedTotal (mx_Stats s)"

lemma budget_nonneg: "mb_inv s \<Longrightarrow> 0 \<le> budget s"
proof -
  assume inv: "mb_inv s"
  let ?m = "mx_Records s" and ?n = "po_MaxAttempts (mx_Policy s)"
  have "m_DeliveryAttempt (the (fmlookup ?m i)) \<le> ?n" if "i \<in> fset (fmdom ?m)" for i
    using that records_ok_lookup(1) [OF mb_inv_parts(2) [OF inv]] by (auto simp: fmdom_iff_lookup record_ok_def)
  then have "deliveries ?m \<le> (\<Sum>i \<in> fset (fmdom ?m). ?n)" unfolding deliveries_def by (rule sum_mono)
  then show ?thesis using mb_inv_parts(5) [OF inv] by (simp add: budget_def counts_ok_def countAll_def mult.commute)
qed

lemma budget_cong:
  "mx_Policy t = mx_Policy s \<Longrightarrow> mt_PublishedTotal (mx_Stats t) = mt_PublishedTotal (mx_Stats s) \<Longrightarrow>
   mt_ConsumedTotal (mx_Stats t) = mt_ConsumedTotal (mx_Stats s) \<Longrightarrow> budget t = budget s"
  by (simp add: budget_def)

lemma retryMessage_budget: "budget (snd (retryMessage clk i code now opts r s)) = budget s"
  by (rule budget_cong) (simp_all add: retryMessage_def deadLetter_def Let_def mb_frame)

lemma nackStats_totals [mb_frame]:
  "mt_PublishedTotal (nackStats st) = mt_PublishedTotal st" "mt_ConsumedTotal (nackStats st) = mt_ConsumedTotal st"
  "mt_PublishedTotal (leaveInFlight st) = mt_PublishedTotal st" "mt_ConsumedTotal (leaveInFlight st) = mt_ConsumedTotal st"
  by (simp_all add: nackStats_def leaveInFlight_def)

lemma requeue_budget: "budget (snd (mb_requeue clk mid c reason now opts s)) = budget s"
proof -
  have "budget (emitLifecycleEvent clk tr r code opts (putRecord i r s\<lparr>mx_Stats := nackStats (mx_Stats s)\<rparr>)) = budget s" for tr r code i
    by (rule budget_cong) (simp_all add: mb_frame)
  then show ?thesis
    by (simp add: mb_requeue_def Let_def case_prod_beta retryMessage_budget split: option.split message_state.split)
qed

lemma settle_budget:
  "budget (snd (mb_heartbeat clk mid c now lease s)) = budget s" "budget (snd (ack clk mid c now s)) = budget s"
  "budget (snd (nack clk mid c reason now opts s)) = budget s"
  by (rule budget_cong; auto simp: mb_heartbeat_def ack_def nack_def deadLetter_def Let_def mb_frame split: prod.split option.split)+

lemma swept_budget: "budget (swept clk now lease reclaim s) = budget s"
proof -
  have "budget (expireRecord clk i r t s) = budget s" for i r t s
    by (rule budget_cong) (simp_all add: expireRecord_fields Let_def)
  then have "budget (snd (expireQueuedLoop clk t qs s)) = budget s" for t qs s
    by (induction qs arbitrary: s) (simp_all add: Let_def case_prod_beta split: option.split)
  moreover have "budget (s\<lparr>mx_Queue := q\<rparr>) = budget s" for q s by (simp add: budget_def)
  moreover have "budget (snd (reclaimLoop clk t mids s)) = budget s" for t mids s
    by (induction mids arbitrary: s) (simp_all add: case_prod_beta requeue_budget)
  ultimately show ?thesis by (simp add: swept_def Let_def expireQueued_def reclaimStaleInFlight_def case_prod_beta)
qed

lemma consume_budget:
  assumes "mb_inv s"
  shows "budget (snd (consume clk c now lease reclaim s)) =
    budget s - (case fst (consume clk c now lease reclaim s) of Inr (Some r, _) \<Rightarrow> 1 | _ \<Rightarrow> 0)"
  using assms
proof (cases rule: consume_cases [where c = c and clk = clk and now = now and lease = lease and reclaim = reclaim])
  case (delivered k r t)
  have "budget (deliver clk (TrimSpace c) (resolve_now clk now) lease k r t) = budget t - 1"
    by (simp add: budget_def deliver_def mb_frame)
  then show ?thesis using delivered swept_budget by simp
qed (simp_all add: swept_budget)

section \<open>A message that is due is delivered\<close>

definition due :: "time \<Rightarrow> mb_record \<Rightarrow> bool" where
  "due now r \<longleftrightarrow>
     m_State r = StateQueued \<and> \<not> isRecordExpired r now
     \<and> (IsZero (e_NotBefore (m_Envelope r)) \<or> e_NotBefore (m_Envelope r) \<le> now)
     \<and> (IsZero (m_NextEligibleAt r) \<or> m_NextEligibleAt r \<le> now)"

lemma expireQueuedLoop_keeps:
  assumes "mb_inv (s\<lparr>mx_Queue := pre @ qs\<rparr>)" "i \<in> set qs" "fmlookup (mx_Records s) i = Some r" "due now r"
  shows "i \<in> set (fst (fst (expireQueuedLoop clk now qs s)))
    \<and> fmlookup (mx_Records (snd (expireQueuedLoop clk now qs s))) i = Some r"
  using assms
proof (induction qs arbitrary: pre s)
  case (Cons q qs)
  have "q \<in> stateIds StateQueued (mx_Records s)" using mb_inv_parts(3) [OF Cons.prems(1)] by (auto simp: mail_queue_ok_def)
  then obtain x where x: "fmlookup (mx_Records s) q = Some x" "m_State x = StateQueued" by (auto simp: stateIds_def)
  have q: "TrimSpace q = q" using records_ok_lookup(3) [OF mb_inv_parts(2) [OF Cons.prems(1)], of q x] x by simp
  have dist: "distinct (q # qs)" using mb_inv_parts(3) [OF Cons.prems(1)] by (auto simp: mail_queue_ok_def)
  have kept: "fmlookup (mx_Records (snd (expireQueuedLoop clk now ys t))) i = Some r"
    if "i \<notin> set ys" "fmlookup (mx_Records t) i = Some r" "\<forall>y \<in> set ys. TrimSpace y = y" for ys t
    using that by (induction ys arbitrary: t) (auto simp: Let_def case_prod_beta expireRecord_fields split: option.split)
  show ?case
  proof (cases "isRecordExpired x now")
    case True
    then have "i \<noteq> q" using x Cons.prems(3,4) by (auto simp: due_def)
    then show ?thesis
      using Cons.IH [OF expireRecord_inv [OF Cons.prems(1) x], of clk now] Cons.prems(2,3,4) x q True
      by (simp add: case_prod_beta expireRecord_fields)
  next
    case False
    have inv: "mb_inv (s\<lparr>mx_Queue := (pre @ [q]) @ qs\<rparr>)" using Cons.prems(1) by simp
    have "TrimSpace y = y" if "y \<in> set qs" for y
    proof -
      have "y \<in> stateIds StateQueued (mx_Records s)" using that mb_inv_parts(3) [OF Cons.prems(1)] by (auto simp: mail_queue_ok_def)
      then obtain z where "fmlookup (mx_Records s) y = Some z" by (auto simp: stateIds_def)
      then show ?thesis using records_ok_lookup(3) [OF mb_inv_parts(2) [OF Cons.prems(1)], of y z] by simp
    qed
    then have trim: "\<forall>y \<in> set qs. TrimSpace y = y" by blast
    show ?thesis
    proof (cases "i = q")
      case True
      then show ?thesis using False x q kept [of qs s] dist trim Cons.prems(3) by (simp add: case_prod_beta)
    next
      case False
      then show ?thesis using Cons.IH [OF inv _ Cons.prems(3,4)] Cons.prems(2) \<open>\<not> isRecordExpired x now\<close> x q by (simp add: case_prod_beta)
    qed
  qed
qed simp

lemma retryMessage_queue: "i \<in> set (mx_Queue s) \<Longrightarrow> i \<in> set (mx_Queue (snd (retryMessage clk j code now opts r s)))"
  by (simp add: retryMessage_def deadLetter_def Let_def mb_frame)

lemma requeue_queue: "i \<in> set (mx_Queue s) \<Longrightarrow> i \<in> set (mx_Queue (snd (mb_requeue clk mid c reason now opts s)))"
  by (simp add: mb_requeue_def Let_def case_prod_beta retryMessage_queue mb_frame split: option.split message_state.split)

lemma requeue_queued:
  assumes "fmlookup (mx_Records s) i = Some r" "m_State r = StateQueued"
  shows "fmlookup (mx_Records (snd (mb_requeue clk mid c reason now opts s))) i = Some r"
proof (cases "i = TrimSpace mid")
  case True
  then show ?thesis using assms by (simp add: mb_requeue_def Let_def)
qed (simp add: assms requeue_other)

lemma reclaimLoop_keeps:
  "fmlookup (mx_Records s) i = Some r \<Longrightarrow> m_State r = StateQueued \<Longrightarrow> i \<in> set (mx_Queue s) \<Longrightarrow>
   i \<in> set (mx_Queue (snd (reclaimLoop clk now mids s))) \<and> fmlookup (mx_Records (snd (reclaimLoop clk now mids s))) i = Some r"
  by (induction mids arbitrary: s) (simp_all add: case_prod_beta requeue_queue requeue_queued)

lemma swept_due:
  assumes "mb_inv s" "fmlookup (mx_Records s) i = Some r" "due now r"
  shows "i \<in> set (mx_Queue (swept clk now lease reclaim s)) \<and> fmlookup (mx_Records (swept clk now lease reclaim s)) i = Some r"
proof -
  let ?s = "snd (expireQueued clk now s)"
  have "i \<in> set (mx_Queue s)" using mb_inv_parts(3) [OF assms(1)] assms(2,3) by (auto simp: mail_queue_ok_def stateIds_def due_def)
  then have "i \<in> set (mx_Queue ?s)" "fmlookup (mx_Records ?s) i = Some r"
    using expireQueuedLoop_keeps [where pre = "[]" and qs = "mx_Queue s" and s = s and clk = clk, OF _ _ assms(2,3)] assms(1)
    by (auto simp: expireQueued_def case_prod_beta)
  then show ?thesis
    using reclaimLoop_keeps [of ?s i r] assms(3) by (simp add: swept_def Let_def reclaimStaleInFlight_def due_def)
qed

lemma consume_due:
  assumes inv: "mb_inv s" and c: "TrimSpace c \<noteq> []" and r: "fmlookup (mx_Records s) i = Some r" "due (resolve_now clk now) r"
  shows "\<exists>d. fst (consume clk c now lease reclaim s) = Ok (Some d, True) \<and> m_ConsumerID d = TrimSpace c \<and> m_State d = StateInFlight"
  using inv
proof (cases rule: consume_cases [where c = c and clk = clk and now = now and lease = lease and reclaim = reclaim])
  case no_consumer
  then show ?thesis using c by simp
next
  case (empty m)
  let ?t = "swept clk (resolve_now clk now) lease reclaim s"
  have i: "i \<in> set (mx_Queue ?t)" "fmlookup (mx_Records ?t) i = Some r" using swept_due [OF inv r] by simp_all
  have "trimmed i" using records_ok_lookup(3) [OF mb_inv_parts(2) [OF inv] r(1)] .
  then have "consumable (resolve_now clk now) ?t i" using i(2) r(2) by (auto simp: consumable_def due_def)
  then show ?thesis using empty(2) i(1) by (auto simp: firstIndex_None)
next
  case (delivered k x t)
  then show ?thesis by (simp add: mb_frame)
qed

section \<open>A due message is delivered in its turn\<close>

definition ahead :: "'a \<Rightarrow> 'a list \<Rightarrow> nat" where
  "ahead x xs = length (takeWhile (\<lambda>y. y \<noteq> x) xs)"

lemma ahead_append: "x \<in> set xs \<Longrightarrow> ahead x (xs @ ys) = ahead x xs"
  by (simp add: ahead_def takeWhile_append1)

lemma ahead_subseq: "subseq ys xs \<Longrightarrow> distinct xs \<Longrightarrow> x \<in> set ys \<Longrightarrow> ahead x ys \<le> ahead x xs"
proof (induction rule: list_emb.induct)
  case (list_emb_Cons xs ys y)
  then have "x \<in> set ys" "x \<noteq> y" using list_emb_set [of "(=)" xs ys x] by auto
  then show ?case using list_emb_Cons by (auto simp: ahead_def)
qed (auto simp: ahead_def)

lemma ahead_remove_index:
  "distinct xs \<Longrightarrow> k < length xs \<Longrightarrow> x \<in> set xs \<Longrightarrow> k < ahead x xs \<Longrightarrow> ahead x (remove_index k xs) < ahead x xs"
proof (induction xs arbitrary: k)
  case (Cons y xs)
  then show ?case by (cases k) (auto simp: ahead_def remove_index_def split: if_splits)
qed simp

lemma ahead_nth: "x \<in> set xs \<Longrightarrow> ahead x xs < length xs \<and> xs ! ahead x xs = x"
  by (induction xs) (auto simp: ahead_def)

lemma firstIndex_ahead: "firstIndex P xs = Some k \<Longrightarrow> x \<in> set xs \<Longrightarrow> P x \<Longrightarrow> k \<le> ahead x xs"
  using firstIndex_Some [of P xs k] ahead_nth [of x xs] by (metis not_le)

lemma expireQueuedLoop_subseq: "subseq (fst (fst (expireQueuedLoop clk now qs s))) (map TrimSpace qs)"
  by (induction qs arbitrary: s) (auto simp: Let_def case_prod_beta list_emb_Cons split: option.split)

lemma requeue_extends: "\<exists>zs. mx_Queue (snd (mb_requeue clk mid c reason now opts s)) = mx_Queue s @ zs"
  by (simp add: mb_requeue_def retryMessage_def deadLetter_def Let_def case_prod_beta mb_frame split: option.split message_state.split)

lemma reclaimLoop_extends: "\<exists>zs. mx_Queue (snd (reclaimLoop clk now mids s)) = mx_Queue s @ zs"
proof (induction mids arbitrary: s)
  case (Cons mid mids)
  let ?opts = "\<lparr>ao_Reclaimed = True, ao_PanicRecovered = False\<rparr>"
  let ?t = "snd (mb_requeue clk mid [] LifecycleReasonLeaseExpired now ?opts s)"
  obtain zs where "mx_Queue ?t = mx_Queue s @ zs" using requeue_extends by blast
  moreover obtain ys where "mx_Queue (snd (reclaimLoop clk now mids ?t)) = mx_Queue ?t @ ys" using Cons.IH by blast
  ultimately show ?case by (simp add: case_prod_beta)
qed simp

lemma swept_ahead:
  assumes "mb_inv s" "fmlookup (mx_Records s) i = Some r" "due now r"
  shows "ahead i (mx_Queue (swept clk now lease reclaim s)) \<le> ahead i (mx_Queue s)"
proof -
  let ?s = "snd (expireQueued clk now s)"
  note q = mb_inv_parts(3) [OF assms(1), unfolded mail_queue_ok_def]
  have "TrimSpace x = x" if "x \<in> set (mx_Queue s)" for x
    using that q records_ok_lookup(3) [OF mb_inv_parts(2) [OF assms(1)]] by (auto simp: stateIds_def)
  then have "map TrimSpace (mx_Queue s) = mx_Queue s" by (simp add: map_idI)
  then have "subseq (mx_Queue ?s) (mx_Queue s)"
    using expireQueuedLoop_subseq [of clk now "mx_Queue s" s] by (simp add: expireQueued_def case_prod_beta)
  moreover have mem: "i \<in> set (mx_Queue ?s)"
    using swept_due [OF assms, where reclaim = False] by (simp add: swept_def Let_def)
  ultimately have "ahead i (mx_Queue ?s) \<le> ahead i (mx_Queue s)" using q by (simp add: ahead_subseq)
  moreover obtain zs where "mx_Queue (snd (reclaimStaleInFlight clk now lease ?s)) = mx_Queue ?s @ zs"
    using reclaimLoop_extends [of clk now _ ?s] by (cases "lease \<le> 0") (auto simp: reclaimStaleInFlight_def)
  ultimately show ?thesis using mem by (auto simp: swept_def Let_def ahead_append)
qed

lemma consume_turn:
  assumes inv: "mb_inv s" and c: "TrimSpace c \<noteq> []" and r: "fmlookup (mx_Records s) i = Some r" "due (resolve_now clk now) r"
  shows "\<exists>d. fst (consume clk c now lease reclaim s) = Ok (Some d, True) \<and> m_ConsumerID d = TrimSpace c \<and> m_State d = StateInFlight
    \<and> (e_MessageID (m_Envelope d) = i
       \<or> fmlookup (mx_Records (snd (consume clk c now lease reclaim s))) i = Some r
         \<and> ahead i (mx_Queue (snd (consume clk c now lease reclaim s))) < ahead i (mx_Queue s))"
  using inv
proof (cases rule: consume_cases [where c = c and clk = clk and now = now and lease = lease and reclaim = reclaim])
  case no_consumer
  then show ?thesis using c by simp
next
  case (empty m)
  then show ?thesis using consume_due [OF inv c r, where lease = lease and reclaim = reclaim] by simp
next
  case (delivered k x t)
  have t: "mb_inv t" "i \<in> set (mx_Queue t)" "fmlookup (mx_Records t) i = Some r"
    using swept_inv [OF inv] swept_due [OF inv r] by (simp_all add: delivered(2))
  note ids = records_ok_lookup [OF mb_inv_parts(2) [OF t(1)]]
  have "consumable (resolve_now clk now) t i" using t(3) r(2) ids(3) [OF t(3)] by (auto simp: consumable_def due_def)
  then have k: "k \<le> ahead i (mx_Queue t)" using firstIndex_ahead delivered(3) t(2) by metis
  have le: "ahead i (mx_Queue t) \<le> ahead i (mx_Queue s)" unfolding delivered(2) by (rule swept_ahead [OF inv r])
  show ?thesis
  proof (cases "k = ahead i (mx_Queue t)")
    case True
    then have "mx_Queue t ! k = i" using ahead_nth [OF t(2)] by simp
    then have "e_MessageID (m_Envelope x) = i" using ids(2) [OF delivered(5)] by simp
    then show ?thesis using delivered(7) by (simp add: mb_frame)
  next
    case False
    have "mx_Queue t ! k \<noteq> i"
      using False nth_eq_iff_index_eq [of "mx_Queue t" k "ahead i (mx_Queue t)"] ahead_nth [OF t(2)] delivered(4)
        mb_inv_parts(3) [OF t(1)] by (auto simp: mail_queue_ok_def)
    moreover have "ahead i (remove_index k (mx_Queue t)) < ahead i (mx_Queue t)"
      using False k t(2) delivered(4) mb_inv_parts(3) [OF t(1)] by (intro ahead_remove_index) (auto simp: mail_queue_ok_def)
    ultimately show ?thesis using delivered(7) le t(3) by (simp add: deliver_def mb_frame)
  qed
qed

text \<open>A sequence of consumes, by any consumers, and the records they were handed.\<close>

type_synonym claim_try = "time \<times> string \<times> time \<times> duration \<times> bool"

fun consumes :: "claim_try list \<Rightarrow> mailbox_state \<Rightarrow> mb_record list \<times> mailbox_state" where
  "consumes [] s = ([], s)"
| "consumes ((clk, c, now, lease, reclaim) # tries) s =
     (case consume clk c now lease reclaim s of
        (Inr (Some d, _), s1) \<Rightarrow> (case consumes tries s1 of (ds, s2) \<Rightarrow> (d # ds, s2))
      | (_, s1) \<Rightarrow> consumes tries s1)"

definition try_due :: "mb_record \<Rightarrow> claim_try \<Rightarrow> bool" where
  "try_due r = (\<lambda>(clk, c, now, lease, reclaim). TrimSpace c \<noteq> [] \<and> due (resolve_now clk now) r)"

lemma consumes_turn:
  assumes "mb_inv s" "fmlookup (mx_Records s) i = Some r" "list_all (try_due r) tries" "ahead i (mx_Queue s) < length tries"
  shows "\<exists>d \<in> set (fst (consumes tries s)). e_MessageID (m_Envelope d) = i"
  using assms
proof (induction tries arbitrary: s)
  case (Cons t tries)
  obtain clk c now lease reclaim where t: "t = (clk, c, now, lease, reclaim)" by (metis prod.collapse)
  let ?op = "consume clk c now lease reclaim s"
  have "TrimSpace c \<noteq> []" "due (resolve_now clk now) r" using Cons.prems(3) by (simp_all add: t try_due_def)
  from consume_turn [OF Cons.prems(1) this(1) Cons.prems(2) this(2), of lease reclaim] obtain d where d:
    "fst ?op = Ok (Some d, True)"
    "e_MessageID (m_Envelope d) = i
      \<or> fmlookup (mx_Records (snd ?op)) i = Some r \<and> ahead i (mx_Queue (snd ?op)) < ahead i (mx_Queue s)" by blast
  then have op: "?op = (Ok (Some d, True), snd ?op)" by (metis prod.collapse)
  have split: "fst (consumes (t # tries) s) = d # fst (consumes tries (snd ?op))"
    unfolding t consumes.simps by (subst op) (simp add: case_prod_beta)
  from d(2) show ?case
  proof
    assume next': "fmlookup (mx_Records (snd ?op)) i = Some r \<and> ahead i (mx_Queue (snd ?op)) < ahead i (mx_Queue s)"
    then have "\<exists>d \<in> set (fst (consumes tries (snd ?op))). e_MessageID (m_Envelope d) = i"
      using Cons.prems(3,4) by (intro Cons.IH [OF consume_inv [OF Cons.prems(1)]]) auto
    then show ?thesis unfolding split by simp
  qed (simp add: split)
qed simp

section \<open>Facade operations are steps of the state\<close>

text \<open>The operations of the facade that change or read the messages, but for \<open>Restore\<close>.\<close>

inductive mail_step :: "'s mail_store \<Rightarrow> 's mailbox \<Rightarrow> 's mailbox \<Rightarrow> bool" for st :: "'s mail_store" where
  mail_publish: "clk \<noteq> 0 \<Longrightarrow> mail_step st m (snd (Publish st clk now e m))"
| mail_consume: "clk \<noteq> 0 \<Longrightarrow> mail_step st m (snd (Consume st clk now c m))"
| mail_lease: "clk \<noteq> 0 \<Longrightarrow> mail_step st m (snd (ConsumeWithLease st clk now c lease reclaim m))"
| mail_ack: "clk \<noteq> 0 \<Longrightarrow> mail_step st m (snd (Ack st clk now mid c m))"
| mail_nack: "clk \<noteq> 0 \<Longrightarrow> mail_step st m (snd (NackWithOptions st clk now mid c reason opts m))"
| mail_requeue: "clk \<noteq> 0 \<Longrightarrow> mail_step st m (snd (RequeueWithOptions st clk now mid c reason opts m))"
| mail_beat: "clk \<noteq> 0 \<Longrightarrow> mail_step st m (snd (MailHeartbeat st clk now mid c lease m))"
| mail_query: "mail_step st m (snd (Query st req m))"

lemma memoryConsume_step: "clk \<noteq> 0 \<Longrightarrow> mb_step s (snd (memoryConsume clk c now lease reclaim s))"
  by (cases "consume clk c now lease reclaim s") (auto simp: memoryConsume_def intro: step_consume)

lemma op_steps:
  assumes "clk \<noteq> 0"
  shows "mb_step s (snd (publish clk e now s))" "mb_step s (snd (mb_heartbeat clk mid c now lease s))"
    "mb_step s (snd (ack clk mid c now s))" "mb_step s (snd (nack clk mid c reason now opts s))"
    "mb_step s (snd (mb_requeue clk mid c reason now opts s))"
  using mb_step.intros(1,3-6) [OF assms] by (metis prod.collapse)+

lemma Query_store: "mb_store (snd (Query st req m)) = mb_store m"
  by (simp add: Query_def Let_def case_prod_beta split: sum.split option.split)

text \<open>The clock readings of a round are never the zero time.\<close>

definition round_ok :: "worker_round \<Rightarrow> bool" where
  "round_ok rnd \<longleftrightarrow> fst (wr_claim rnd) \<noteq> 0 \<and> fst (wr_settle rnd) \<noteq> 0 \<and> list_all (\<lambda>(clk, now). clk \<noteq> 0) (wr_ticks rnd)"

context mail_store_contract
begin

lemma emit_core: "mb_step (view (mb_store m)) (view (mb_store (emitLifecycle st now m)))"
proof (cases "ms_DrainLifecycleEvents st (mb_store m)")
  case (Pair events s)
  from step_drain [OF does_Drain [OF Pair]] show ?thesis by (simp add: emitLifecycle_def Pair)
qed

lemma emit_budget: "budget (view (mb_store (emitLifecycle st now m))) = budget (view (mb_store m))"
proof (cases "ms_DrainLifecycleEvents st (mb_store m)")
  case (Pair events s)
  have "view s = (view (mb_store m))\<lparr>mx_events := []\<rparr>" using does_Drain [OF Pair] by (simp add: drainLifecycleEvents_def)
  then show ?thesis by (simp add: emitLifecycle_def Pair budget_def)
qed

lemma mailCall_core:
  assumes "mail_answer view (call (mb_store m)) (op (view (mb_store m)))" "mb_step (view (mb_store m)) (snd (op (view (mb_store m))))"
  shows "mb_step\<^sup>*\<^sup>* (view (mb_store m)) (view (mb_store (snd (mailCall st now call m))))"
proof -
  obtain res s where call: "call (mb_store m) = (res, s)" by (cases "call (mb_store m)")
  then have s: "mb_step (view (mb_store m)) (view s)" using assms by (simp add: mail_answer_def)
  let ?m = "if isl res then m\<lparr>mb_store := s\<rparr> else invalidateQueryCache (m\<lparr>mb_store := s\<rparr>)"
  have "mb_store ?m = s" by (simp add: invalidateQueryCache_def)
  then have "mb_step (view s) (view (mb_store (emitLifecycle st now ?m)))" using emit_core [of ?m now] by simp
  then show ?thesis using s by (simp add: mailCall_def call Let_def)
qed

lemma mailCall_budget:
  assumes "mail_answer view (call (mb_store m)) (op (view (mb_store m)))"
  shows "budget (view (mb_store (snd (mailCall st now call m)))) = budget (snd (op (view (mb_store m))))"
proof -
  obtain res s where call: "call (mb_store m) = (res, s)" by (cases "call (mb_store m)")
  let ?m = "if isl res then m\<lparr>mb_store := s\<rparr> else invalidateQueryCache (m\<lparr>mb_store := s\<rparr>)"
  have "mb_store ?m = s" by (simp add: invalidateQueryCache_def)
  then have "budget (view (mb_store (emitLifecycle st now ?m))) = budget (view s)" using emit_budget [of now ?m] by simp
  then show ?thesis using assms by (simp add: mailCall_def call Let_def mail_answer_def)
qed

lemma call_budget:
  "budget (view (mb_store (snd (mailCall st now (ms_Heartbeat st clk mid c t lease) m)))) = budget (view (mb_store m))"
  "budget (view (mb_store (snd (mailCall st now (ms_Ack st clk mid c t) m)))) = budget (view (mb_store m))"
  "budget (view (mb_store (snd (mailCall st now (ms_Nack st clk mid c reason t opts) m)))) = budget (view (mb_store m))"
  "budget (view (mb_store (snd (mailCall st now (ms_Requeue st clk mid c reason t opts) m)))) = budget (view (mb_store m))"
  by (simp_all add: mailCall_budget [where op = "mb_heartbeat clk mid c t lease"] mailCall_budget [where op = "ack clk mid c t"]
      mailCall_budget [where op = "nack clk mid c reason t opts"] mailCall_budget [where op = "mb_requeue clk mid c reason t opts"]
      does_Heartbeat does_Ack does_Nack does_Requeue settle_budget requeue_budget)

lemma mailCall_result: "fst (mailCall st now call m) = fst (call (mb_store m))"
  by (simp add: mailCall_def Let_def case_prod_beta)

lemma mail_step_core: "mail_step st m m' \<Longrightarrow> mb_step\<^sup>*\<^sup>* (view (mb_store m)) (view (mb_store m'))"
proof (induction rule: mail_step.induct)
  case (mail_publish clk m now e)
  have "view (mb_store (snd (Publish st clk now e m))) = snd (publish clk e now (view (mb_store m)))"
    using mail_answerD [OF does_Publish, of clk e now "mb_store m"]
    by (simp add: Publish_def Let_def case_prod_beta invalidateQueryCache_def)
  moreover have "mb_step (view (mb_store m)) (snd (publish clk e now (view (mb_store m))))" by (rule op_steps(1) [OF mail_publish])
  ultimately show ?case by (simp add: r_into_rtranclp)
next
  case (mail_consume clk m now c)
  then show ?case unfolding Consume_def
    by (intro mailCall_core [where op = "memoryConsume clk c now 0 False"] does_Consume memoryConsume_step)
next
  case (mail_lease clk m now c lease reclaim)
  then show ?case unfolding ConsumeWithLease_def
    by (intro mailCall_core [where op = "memoryConsume clk c now lease reclaim"] does_Consume memoryConsume_step)
next
  case (mail_ack clk m now mid c)
  then show ?case unfolding Ack_def
    by (intro mailCall_core [where op = "ack clk mid c now"] does_Ack op_steps(3))
next
  case (mail_nack clk m now mid c reason opts)
  then show ?case unfolding NackWithOptions_def
    by (intro mailCall_core [where op = "nack clk mid c reason now opts"] does_Nack op_steps(4))
next
  case (mail_requeue clk m now mid c reason opts)
  then show ?case unfolding RequeueWithOptions_def
    by (intro mailCall_core [where op = "mb_requeue clk mid c reason now opts"] does_Requeue op_steps(5))
next
  case (mail_beat clk m now mid c lease)
  then show ?case unfolding MailHeartbeat_def
    by (intro mailCall_core [where op = "mb_heartbeat clk mid c now lease"] does_Heartbeat op_steps(2))
next
  case (mail_query m req)
  then show ?case by (simp add: Query_store)
qed

lemma mail_steps_core: "(mail_step st)\<^sup>*\<^sup>* m m' \<Longrightarrow> mb_step\<^sup>*\<^sup>* (view (mb_store m)) (view (mb_store m'))"
  by (induction rule: rtranclp_induct) (auto dest: mail_step_core)

text \<open>A worker stops finding work.\<close>

lemma beats_steps: "list_all (\<lambda>(clk, now). clk \<noteq> 0) ticks \<Longrightarrow> (mail_step st)\<^sup>*\<^sup>* m (snd (workerBeats st mid w ticks m))"
proof (induction ticks arbitrary: m)
  case (Cons tick ticks)
  obtain clk now where tick: "tick = (clk, now)" by (cases tick)
  let ?beat = "MailHeartbeat st clk now mid (wk_consumerID w) (wc_InflightTimeout (wk_config w)) m"
  have "mail_step st m (snd ?beat)" using Cons.prems by (intro mail_beat) (simp add: tick)
  moreover have "(mail_step st)\<^sup>*\<^sup>* (snd ?beat) (snd (workerBeats st mid w ticks (snd ?beat)))" using Cons by simp
  ultimately have "(mail_step st)\<^sup>*\<^sup>* m (snd (workerBeats st mid w ticks (snd ?beat)))" by (rule converse_rtranclp_into_rtranclp)
  then show ?case using \<open>mail_step st m (snd ?beat)\<close> by (auto simp: tick case_prod_beta split: sum.split)
qed simp

lemma beats_budget: "budget (view (mb_store (snd (workerBeats st mid w ticks m)))) = budget (view (mb_store m))"
proof (induction ticks arbitrary: m)
  case (Cons tick ticks)
  obtain clk now where tick: "tick = (clk, now)" by (cases tick)
  then show ?case using Cons.IH by (simp add: MailHeartbeat_def call_budget case_prod_beta split: sum.split)
qed simp

lemma settle_steps: "clk \<noteq> 0 \<Longrightarrow> mail_step st m (snd (workerSettle st errText clk now w claimed outcome beat m))"
  by (auto simp: workerSettle_def Let_def intro: mail_step.intros split: handler_outcome.split option.split)

lemma workerSettle_budget:
  "budget (view (mb_store (snd (workerSettle st errText clk now w claimed outcome beat m)))) = budget (view (mb_store m))"
  by (simp add: workerSettle_def Let_def Ack_def NackWithOptions_def RequeueWithOptions_def call_budget
      split: handler_outcome.split option.split)

lemma RunOnce_steps:
  assumes "round_ok rnd"
  shows "(mail_step st)\<^sup>*\<^sup>* m (snd (RunOnce st errText handler w rnd m))"
proof -
  let ?claim = "ConsumeWithLease st (fst (wr_claim rnd)) (snd (wr_claim rnd)) (wk_consumerID w)
    (wc_InflightTimeout (wk_config w)) (wc_ReclaimOnConsume (wk_config w)) m"
  have claim: "mail_step st m (snd ?claim)" using assms by (intro mail_lease) (simp add: round_ok_def)
  have rest: "(mail_step st)\<^sup>*\<^sup>* m
      (snd (workerSettle st errText (fst (wr_settle rnd)) (snd (wr_settle rnd)) w claimed (handler claimed) beat
         (snd (workerBeats st mid w (wr_ticks rnd) (snd ?claim)))))" for claimed mid beat
  proof -
    let ?beats = "snd (workerBeats st mid w (wr_ticks rnd) (snd ?claim))"
    have "(mail_step st)\<^sup>*\<^sup>* (snd ?claim) ?beats" using assms by (intro beats_steps) (simp add: round_ok_def)
    with claim have "(mail_step st)\<^sup>*\<^sup>* m ?beats" by (rule converse_rtranclp_into_rtranclp)
    moreover have "mail_step st ?beats
        (snd (workerSettle st errText (fst (wr_settle rnd)) (snd (wr_settle rnd)) w claimed (handler claimed) beat ?beats))"
      using assms by (intro settle_steps) (simp add: round_ok_def)
    ultimately show ?thesis by (rule rtranclp.rtrancl_into_rtrancl)
  qed
  show ?thesis
    using claim rest by (auto simp: RunOnce_def case_prod_beta split: sum.split option.split)
qed

lemma RunOnce_budget:
  assumes "mb_inv (view (mb_store m))"
  shows "budget (view (mb_store (snd (RunOnce st errText handler w rnd m)))) \<le>
    budget (view (mb_store m)) - of_bool (fst (fst (RunOnce st errText handler w rnd m)))"
proof -
  let ?clk = "fst (wr_claim rnd)" and ?now = "snd (wr_claim rnd)" and ?c = "wk_consumerID w"
    and ?l = "wc_InflightTimeout (wk_config w)" and ?r = "wc_ReclaimOnConsume (wk_config w)"
  let ?claim = "ConsumeWithLease st ?clk ?now ?c ?l ?r m"
  let ?core = "consume ?clk ?c ?now ?l ?r (view (mb_store m))"
  have after: "budget (view (mb_store (snd ?claim))) = budget (snd ?core)"
    unfolding ConsumeWithLease_def
    by (simp add: mailCall_budget [where op = "memoryConsume ?clk ?c ?now ?l ?r"] does_Consume) (simp add: memoryConsume_def case_prod_beta)
  have answer: "\<exists>x. fst ?core = Ok (Some d, x)" if "fst ?claim = Ok (Some d)" for d
  proof -
    have "fst ?claim = fst (ms_Consume st ?clk ?c ?now ?l ?r (mb_store m))" by (simp add: ConsumeWithLease_def mailCall_result)
    then have "fst (memoryConsume ?clk ?c ?now ?l ?r (view (mb_store m))) = Ok (Some d)"
      using does_Consume [of ?clk ?c ?now ?l ?r "mb_store m"] that by (auto simp: mail_answer_def)
    then show ?thesis by (cases "fst ?core") (auto simp: memoryConsume_def case_prod_beta)
  qed
  have spent: "budget (snd ?core) = budget (view (mb_store m)) - (case fst ?core of Inr (Some r, _) \<Rightarrow> 1 | _ \<Rightarrow> 0)"
    by (rule consume_budget [OF assms])
  then have "budget (snd ?core) \<le> budget (view (mb_store m))" by (auto split: sum.splits option.splits prod.splits)
  then show ?thesis
    using answer spent after
    by (cases ?claim; cases "fst ?claim") (auto simp: RunOnce_def case_prod_beta workerSettle_budget beats_budget split: option.split sum.split)
qed

lemma workerRounds_bound:
  assumes "mb_inv (view (mb_store m))" "list_all round_ok rnds"
  shows "int (fst (fst (workerRounds st errText handler w rnds m))) \<le> budget (view (mb_store m))"
  using assms
proof (induction rnds arbitrary: m)
  case Nil
  then show ?case by (simp add: budget_nonneg)
next
  case (Cons rnd rnds)
  obtain processed res m1 where once: "RunOnce st errText handler w rnd m = ((processed, res), m1)"
    by (metis prod.collapse)
  have "mb_step\<^sup>*\<^sup>* (view (mb_store m)) (view (mb_store m1))"
    using mail_steps_core [OF RunOnce_steps [of rnd m errText handler w]] Cons.prems(2) by (simp add: once)
  then have inv: "mb_inv (view (mb_store m1))" using mailbox.steps_invar Cons.prems(1) by blast
  have "budget (view (mb_store m1)) \<le> budget (view (mb_store m)) - of_bool processed"
    using RunOnce_budget [OF Cons.prems(1), of errText handler w rnd] by (simp add: once)
  then show ?case
    using Cons.IH [OF inv] Cons.prems(2) budget_nonneg [OF inv]
    by (cases processed) (auto simp: once case_prod_beta split: option.split)
qed

end

end
