(* ===== verification/Mailbox_Cache.thy ===== *)
theory Mailbox_Cache
  imports Mailbox_Facade
begin

text \<open>
  The query cache of the mailbox facade over the memory store: after any sequence of operations each of
  its entries is what the query selects from the store as it is, so a client that follows the cursors
  sees every matching record once, in order.
\<close>

section \<open>The query cache\<close>

text \<open>
  \<open>Q\<close> are the queries that are asked. Two of them with the same hash must select the same records; the
  code has no other way to tell them apart.
\<close>

definition mail_separates :: "normalized_query set \<Rightarrow> bool" where
  "mail_separates Q \<longleftrightarrow>
     (\<forall>q \<in> Q. \<forall>q' \<in> Q. queryHash q = queryHash q' \<longrightarrow> (\<forall>rs. filterQueryRecords rs q = filterQueryRecords rs q'))"

definition mail_coherent :: "normalized_query set \<Rightarrow> mailbox_state mailbox \<Rightarrow> bool" where
  "mail_coherent Q m \<longleftrightarrow>
     fmpred (\<lambda>h items. \<exists>q \<in> Q. queryHash q = h \<and> items = filterQueryRecords (mn_Records (mb_snapshotOf (mb_store m))) q)
       (ca_entries (mb_queryCache m))"

text \<open>A query without its cursor, which neither the hash nor the selection depends on.\<close>

definition cursorless :: "normalized_query \<Rightarrow> normalized_query" where
  "cursorless q = q\<lparr>nm_Cursor := []\<rparr>"

lemma cursorless_same [simp]: "queryHash (cursorless q) = queryHash q" "filterQueryRecords rs (cursorless q) = filterQueryRecords rs q"
  by (simp_all add: cursorless_def queryHash_def queryKey_def filterQueryRecords_def matchesQuery_def)

lemma mail_coherent_step:
  assumes "mail_coherent Q m"
    and "ca_entries (mb_queryCache m') = fmempty
      \<or> ca_entries (mb_queryCache m') = ca_entries (mb_queryCache m) \<and> mx_Records (mb_store m') = mx_Records (mb_store m)"
  shows "mail_coherent Q m'"
  using assms by (auto simp: mail_coherent_def mb_snapshotOf_def recordList_def)

text \<open>An operation that fails leaves the records alone.\<close>

lemma failed_records:
  "isl (fst (publish clk e now s)) \<Longrightarrow> snd (publish clk e now s) = s"
  "isl (fst (memoryConsume clk c now lease reclaim s)) \<Longrightarrow> snd (memoryConsume clk c now lease reclaim s) = s"
  "isl (fst (mb_heartbeat clk mid c now lease s)) \<Longrightarrow> snd (mb_heartbeat clk mid c now lease s) = s"
  "isl (fst (ack clk mid c now s)) \<Longrightarrow> snd (ack clk mid c now s) = s"
  "isl (fst (nack clk mid c reason now opts s)) \<Longrightarrow> snd (nack clk mid c reason now opts s) = s"
  "isl (fst (mb_requeue clk mid c reason now opts s)) \<Longrightarrow> snd (mb_requeue clk mid c reason now opts s) = s"
proof -
  show "isl (fst (memoryConsume clk c now lease reclaim s)) \<Longrightarrow> snd (memoryConsume clk c now lease reclaim s) = s"
  proof (cases "TrimSpace c = []")
    case False
    have "\<not> isl (fst (takeMessage clk (TrimSpace c) t lease b u))" for t b u
      by (simp add: takeMessage_def Let_def split: option.split)
    then show "isl (fst (memoryConsume clk c now lease reclaim s)) \<Longrightarrow> ?thesis"
      using False by (auto simp: memoryConsume_def consume_def Let_def case_prod_beta isl_map_sum)
  qed (simp add: memoryConsume_def consume_def)
qed (auto simp: publish_def publishDuplicate_def publishNew_def mb_heartbeat_def ack_def nack_def mb_requeue_def Let_def case_prod_beta
    split: sum.splits option.splits prod.splits message_state.splits if_splits)

lemma mailCall_cache:
  assumes "isl (fst (call (mb_store m))) \<Longrightarrow> snd (call (mb_store m)) = mb_store m"
  shows "ca_entries (mb_queryCache (snd (mailCall MailMemoryStore now call m))) = fmempty
    \<or> ca_entries (mb_queryCache (snd (mailCall MailMemoryStore now call m))) = ca_entries (mb_queryCache m)
      \<and> mx_Records (mb_store (snd (mailCall MailMemoryStore now call m))) = mx_Records (mb_store m)"
  using assms
  by (auto simp: mailCall_def Let_def case_prod_beta emitLifecycle_def MailMemoryStore_def drainLifecycleEvents_def
      invalidateQueryCache_def cacheInvalidate_def)

lemma mail_coherent_call:
  assumes "mail_coherent Q m" and "\<And>s. isl (fst (call s)) \<Longrightarrow> snd (call s) = s"
  shows "mail_coherent Q (snd (mailCall MailMemoryStore now call m))"
  using assms(1) mailCall_cache [where call = call, OF assms(2)] by (rule mail_coherent_step)

lemma mail_coherent_query:
  assumes coh: "mail_coherent Q m" and q: "normalizeQuery req = Ok q" "cursorless q \<in> Q"
  shows "mail_coherent Q (snd (Query MailMemoryStore req m))"
proof -
  let ?fresh = "filterQueryRecords (mn_Records (mb_snapshotOf (mb_store m))) q"
  have "\<exists>p \<in> Q. queryHash p = queryHash q \<and> ?fresh = filterQueryRecords (mn_Records (mb_snapshotOf (mb_store m))) p"
    using q(2) by (intro bexI [of _ "cursorless q"]) simp_all
  then have "mail_coherent Q (m\<lparr>mb_queryCache := cacheWrite epoch (queryHash q) ?fresh (mb_queryCache m)\<rparr>)" for epoch
    using coh by (auto simp: mail_coherent_def cacheWrite_def Let_def intro!: fmpred_upd)
  then show ?thesis
    using coh by (simp add: Query_def q(1) Let_def MailMemoryStore_def split: sum.split option.split)
qed

inductive mail_run :: "normalized_query set \<Rightarrow> mailbox_state mailbox \<Rightarrow> mailbox_state mailbox \<Rightarrow> bool" for Q where
  run_publish: "mail_run Q m (snd (Publish MailMemoryStore clk now e m))"
| run_consume: "mail_run Q m (snd (ConsumeWithLease MailMemoryStore clk now c lease reclaim m))"
| run_ack: "mail_run Q m (snd (Ack MailMemoryStore clk now mid c m))"
| run_nack: "mail_run Q m (snd (NackWithOptions MailMemoryStore clk now mid c reason opts m))"
| run_requeue: "mail_run Q m (snd (RequeueWithOptions MailMemoryStore clk now mid c reason opts m))"
| run_beat: "mail_run Q m (snd (MailHeartbeat MailMemoryStore clk now mid c lease m))"
| run_restore: "mail_run Q m (snd (MailRestore MailMemoryStore clk ks source sn m))"
| run_query: "normalizeQuery req = Ok q \<Longrightarrow> cursorless q \<in> Q \<Longrightarrow> mail_run Q m (snd (Query MailMemoryStore req m))"

lemma memory_methods_mail:
  "ms_Publish MailMemoryStore = publish" "ms_Consume MailMemoryStore = memoryConsume" "ms_Heartbeat MailMemoryStore = mb_heartbeat"
  "ms_Ack MailMemoryStore = ack" "ms_Nack MailMemoryStore = nack" "ms_Requeue MailMemoryStore = mb_requeue"
  "ms_Restore MailMemoryStore = (\<lambda>clk. mb_restore)"
  by (simp_all add: MailMemoryStore_def)

lemma mail_run_coherent: "mail_run Q m m' \<Longrightarrow> mail_coherent Q m \<Longrightarrow> mail_coherent Q m'"
proof (induction rule: mail_run.induct)
  case (run_publish m clk now e)
  then show ?case
    using failed_records(1) [of clk e now "mb_store m"]
    by (auto intro!: mail_coherent_step [OF run_publish] simp: Publish_def Let_def case_prod_beta invalidateQueryCache_def
        cacheInvalidate_def memory_methods_mail)
next
  case (run_restore m clk ks source sn)
  have "isl (fst (mb_restore ks source sn (mb_store m))) \<Longrightarrow> snd (mb_restore ks source sn (mb_store m)) = mb_store m"
    by (auto simp: mb_restore_def Let_def split: sum.splits if_splits)
  then show ?case
    by (auto intro!: mail_coherent_step [OF run_restore] simp: MailRestore_def Let_def case_prod_beta invalidateQueryCache_def
        cacheInvalidate_def memory_methods_mail)
next
  case (run_query req q m)
  then show ?case by (intro mail_coherent_query)
next
  case (run_consume m clk now c lease reclaim)
  then show ?case unfolding ConsumeWithLease_def memory_methods_mail by (elim mail_coherent_call) (rule failed_records(2))
next
  case (run_ack m clk now mid c)
  then show ?case unfolding Ack_def memory_methods_mail by (elim mail_coherent_call) (rule failed_records(4))
next
  case (run_nack m clk now mid c reason opts)
  then show ?case unfolding NackWithOptions_def memory_methods_mail by (elim mail_coherent_call) (rule failed_records(5))
next
  case (run_requeue m clk now mid c reason opts)
  then show ?case unfolding RequeueWithOptions_def memory_methods_mail by (elim mail_coherent_call) (rule failed_records(6))
next
  case (run_beat m clk now mid c lease)
  then show ?case unfolding MailHeartbeat_def memory_methods_mail by (elim mail_coherent_call) (rule failed_records(3))
qed

interpretation mail_cache: invariant_system "\<lambda>m. ca_entries (mb_queryCache m) = fmempty" "mail_run Q" "mail_coherent Q"
  by unfold_locales (simp add: mail_coherent_def, erule mail_run_coherent)

section \<open>Paging through an answer\<close>

definition askMail :: "'s mail_store \<Rightarrow> mb_query_request \<Rightarrow> string \<Rightarrow> 's mailbox \<Rightarrow> (query_error, mb_record list \<times> string) result \<times> 's mailbox" where
  "askMail st req cursor m =
     (case Query st (req\<lparr>rm_Cursor := cursor\<rparr>) m of
        (Inl e, m') \<Rightarrow> (Err e, m')
      | (Inr res, m') \<Rightarrow> (Ok (mq_Items res, mq_NextCursor res), m'))"

lemma normalizeQuery_cursor:
  "normalizeQuery (req\<lparr>rm_Cursor := cursor\<rparr>) = map_sum id (\<lambda>q. q\<lparr>nm_Cursor := TrimSpace cursor\<rparr>) (normalizeQuery req)"
  by (simp add: normalizeQuery_def Let_def if_distrib [of "map_sum id _"] split del: if_split cong: if_cong)

lemma with_cursor [simp]:
  "cursorless (q\<lparr>nm_Cursor := c\<rparr>) = cursorless q" "queryHash (q\<lparr>nm_Cursor := c\<rparr>) = queryHash q"
  "filterQueryRecords rs (q\<lparr>nm_Cursor := c\<rparr>) = filterQueryRecords rs q"
  by (simp_all add: cursorless_def queryHash_def queryKey_def filterQueryRecords_def matchesQuery_def)

lemma cached_right:
  assumes "mail_coherent Q m" "mail_separates Q" "cursorless q \<in> Q"
    and "cacheRead epoch (queryHash q) (mb_queryCache m) = Some items"
  shows "items = filterQueryRecords (mn_Records (mb_snapshotOf (mb_store m))) q"
proof -
  have "fmlookup (ca_entries (mb_queryCache m)) (queryHash q) = Some items"
    using assms(4) by (simp add: cacheRead_def split: if_splits)
  then obtain p where p: "p \<in> Q" "queryHash p = queryHash (cursorless q)"
    "items = filterQueryRecords (mn_Records (mb_snapshotOf (mb_store m))) p"
    using assms(1) by (auto simp: mail_coherent_def fmpred_iff)
  then have "\<forall>rs. filterQueryRecords rs p = filterQueryRecords rs (cursorless q)"
    using assms(2,3) unfolding mail_separates_def by blast
  then show ?thesis using p(3) by simp
qed

lemma askMail_answer:
  assumes "mail_coherent Q m" "mail_separates Q" "normalizeQuery req = Ok q" "cursorless q \<in> Q" "TrimSpace cursor = cursor"
  shows "fst (askMail MailMemoryStore req cursor m) =
    pagedAnswer encodeCursor decodeCursor (filterQueryRecords (mn_Records (mb_snapshotOf (mb_store m))) q)
      (nm_PageSize q) (queryHash q) cursor"
proof -
  let ?q = "q\<lparr>nm_Cursor := cursor\<rparr>"
  have n: "normalizeQuery (req\<lparr>rm_Cursor := cursor\<rparr>) = Ok ?q" using assms(3,5) by (simp add: normalizeQuery_cursor)
  note right = cached_right [OF assms(1,2,4)]
  show ?thesis
    by (auto simp: askMail_def Query_def n pagedAnswer_def buildQueryResult_def MailMemoryStore_def Let_def dest: right
        split: sum.split option.split prod.split)
qed

lemma Query_memory_store: "mb_store (snd (Query MailMemoryStore req m)) = mb_store m"
  by (simp add: Query_def Let_def split: sum.split option.split)

lemma askMail_snd: "snd (askMail MailMemoryStore req cursor m) = snd (Query MailMemoryStore (req\<lparr>rm_Cursor := cursor\<rparr>) m)"
  by (simp add: askMail_def split: prod.split sum.split)

lemma askMail_complete:
  assumes "mail_coherent Q m" "mail_separates Q" "normalizeQuery req = Ok q" "cursorless q \<in> Q"
    and xs: "xs = filterQueryRecords (mn_Records (mb_snapshotOf (mb_store m))) q" "int (length xs) < 2 ^ 63"
  shows "follow (Suc (length xs)) (askMail MailMemoryStore req) [] m = Some xs"
proof (rule mail_cursor.follow_all [where I = "\<lambda>m'. mail_coherent Q m' \<and> mb_store m' = mb_store m"])
  show "0 < nm_PageSize q" using normalizeQuery_page(1) [OF assms(3)] by simp
  show "hash_text (queryHash q)" by (rule queryHash_text)
  show "fst (askMail MailMemoryStore req c m') = pagedAnswer encodeCursor decodeCursor xs (nm_PageSize q) (queryHash q) c
      \<and> mail_coherent Q (snd (askMail MailMemoryStore req c m')) \<and> mb_store (snd (askMail MailMemoryStore req c m')) = mb_store m"
    if I: "mail_coherent Q m' \<and> mb_store m' = mb_store m" and c: "TrimSpace c = c" for c m'
  proof -
    have n: "normalizeQuery (req\<lparr>rm_Cursor := c\<rparr>) = Ok (q\<lparr>nm_Cursor := c\<rparr>)" using assms(3) c by (simp add: normalizeQuery_cursor)
    have "mail_coherent Q (snd (Query MailMemoryStore (req\<lparr>rm_Cursor := c\<rparr>) m'))"
      using mail_coherent_query [OF _ n] I assms(4) by simp
    then show ?thesis using askMail_answer [of Q m' req q c] I assms(2-4) c xs(1) by (simp add: askMail_snd Query_memory_store)
  qed
qed (use assms in simp_all)

end
