(* ===== verification/Mailbox_Demo.thy ===== *)
theory Mailbox_Demo
  imports Mailbox_Runs Mailbox_Cache
begin

text \<open>
  A concrete run of a mailbox for the witnesses of its properties: two commands are published
  (\<open>mail_full\<close>), a consumer claims the first with a lease of 100 ns (\<open>mail_claimed\<close>) and acknowledges it
  (\<open>mail_acked\<close>).
\<close>

section \<open>A concrete run\<close>

definition mail_command :: "string \<Rightarrow> string \<Rightarrow> envelope" where
  "mail_command mid key =
     NewCommandEnvelope mid key \<lparr>cn_RunID = ''run-1'', cn_TaskID = ''task-1'', cn_WorkflowID = [], cn_TeamID = []\<rparr>
       ''planner'' ''worker'' fmempty 0 0"

definition mail_policy :: mb_policy where
  "mail_policy =
     \<lparr>po_MaxAttempts = 2, po_BackoffInitial = 10, po_BackoffMax = 40, po_JitterRatio = F64 0, po_TTL = 0, po_DLQEnabled = True\<rparr>"

definition mail_empty :: mailbox_state where
  "mail_empty = newMailboxState ''SOURCE2345'' ''memory'' mail_policy"

definition mail_one :: mailbox_state where
  "mail_one = snd (publish 5 (mail_command ''m1'' ''k1'') 10 mail_empty)"

definition mail_full :: mailbox_state where
  "mail_full = snd (publish 5 (mail_command ''m2'' ''k2'') 11 mail_one)"

definition mail_claimed :: mailbox_state where
  "mail_claimed = snd (consume 5 ''c1'' 20 100 False mail_full)"

definition mail_acked :: mailbox_state where
  "mail_acked = snd (ack 5 ''m1'' ''c1'' 30 mail_claimed)"

lemma mb_step_op:
  assumes "clk \<noteq> 0"
  shows "mb_step s (snd (publish clk e now s))" "mb_step s (snd (consume clk c now lease reclaim s))"
    "mb_step s (snd (ack clk mid c now s))"
  using assms
  by (metis mb_step.step_publish prod.collapse, metis mb_step.step_consume prod.collapse, metis mb_step.step_ack prod.collapse)

lemma reach_mail_empty: "reach mb_init mb_step mail_empty"
  by (rule reach_init) (auto simp: mb_init_def mail_empty_def)

lemma mail_demo_steps: "mb_step mail_empty mail_one" "mb_step mail_one mail_full" "mb_step mail_full mail_claimed" "mb_step mail_claimed mail_acked"
  by (simp_all add: mail_one_def mail_full_def mail_claimed_def mail_acked_def mb_step_op)

lemma reach_mail_one: "reach mb_init mb_step mail_one"
  using reach_mail_empty mail_demo_steps(1) by (rule reach_step)

lemma reach_mail_full: "reach mb_init mb_step mail_full"
  using reach_mail_one mail_demo_steps(2) by (rule reach_step)

lemma reach_mail_claimed: "reach mb_init mb_step mail_claimed"
  using reach_mail_full mail_demo_steps(3) by (rule reach_step)

lemma reach_mail_acked: "reach mb_init mb_step mail_acked"
  using reach_mail_claimed mail_demo_steps(4) by (rule reach_step)

lemma mail_acked_state: "map_option m_State (fmlookup (mx_Records mail_acked) ''m1'') = Some StateAcked"
  by code_simp

section \<open>A mailbox over a file\<close>

definition mail_disk :: "mb_snapshot mail_file_env" where
  "mail_disk = \<lparr>me_encode = Some, me_decode = Some, me_fault = (\<lambda>_. None)\<rparr>"

definition mail_file_empty :: "mb_snapshot mail_file_store" where
  "mail_file_empty = projr (NewMailFileStore mail_disk [] ''SOURCE2345'' ''/tmp/mail.json'' mail_policy [] None 0)"

definition mail_box :: "mb_snapshot mail_file_store mailbox" where
  "mail_box = snd (Publish (MailFileStore mail_disk) 5 10 (mail_command ''m1'' ''k1'') (NewMailbox (MailFileStore mail_disk) 1 mail_file_empty))"

section \<open>A cached query\<close>

definition mail_request :: mb_query_request where
  "mail_request =
     \<lparr>rm_MessageID = [], rm_IdempotencyKey = [], rm_CorrelationID = [], rm_Kind = ''command'', rm_State = [], rm_FromAgent = [],
      rm_ToAgent = [], rm_TaskID = [], rm_RunID = ''run-1'', rm_WorkflowID = [], rm_TeamID = [], rm_TimeRange = None,
      rm_PageSize = Some 1, rm_SortField = [], rm_SortOrder = ''asc'', rm_Cursor = []\<rparr>"

definition mail_normal :: normalized_query where
  "mail_normal = projr (normalizeQuery mail_request)"

definition mail_memory_box :: "mailbox_state mailbox" where
  "mail_memory_box =
     snd (Publish MailMemoryStore 5 11 (mail_command ''m2'' ''k2'')
       (snd (Publish MailMemoryStore 5 10 (mail_command ''m1'' ''k1'') (NewMailbox MailMemoryStore 0 mail_empty))))"

definition mail_asked :: "mailbox_state mailbox" where
  "mail_asked = snd (Query MailMemoryStore mail_request mail_memory_box)"

lemma mail_normalizes: "normalizeQuery mail_request = Ok mail_normal"
proof -
  have "\<not> isl (normalizeQuery mail_request)" by code_simp
  then show ?thesis by (simp add: mail_normal_def)
qed

lemma mail_asked_reach: "reach (\<lambda>m. ca_entries (mb_queryCache m) = fmempty) (mail_run {cursorless mail_normal}) mail_asked"
proof -
  let ?R = "reach (\<lambda>m. ca_entries (mb_queryCache m) = fmempty) (mail_run {cursorless mail_normal})"
  have "?R (NewMailbox MailMemoryStore 0 mail_empty)" by (rule reach_init) (simp add: NewMailbox_def)
  then have "?R (snd (Publish MailMemoryStore 5 10 (mail_command ''m1'' ''k1'') (NewMailbox MailMemoryStore 0 mail_empty)))"
    by (rule reach_step) (rule run_publish)
  then have "?R mail_memory_box" unfolding mail_memory_box_def by (rule reach_step) (rule run_publish)
  then show ?thesis unfolding mail_asked_def by (rule reach_step) (rule run_query [OF mail_normalizes], simp)
qed

end
