(* ===== verification/Mailbox_Restore.thy ===== *)
theory Mailbox_Restore
  imports Mailbox_Snapshot
begin

text \<open>
  Restoring as one of the mailbox's operations. The snapshots that are restored are those a mailbox has
  taken: then the result is the state the snapshot was taken of, with the trace of the mailbox that
  restores it, or the snapshot is refused. \<open>mailbox_from\<close> are the states reached in this way.
\<close>

section \<open>What restoring a snapshot of a mailbox does\<close>

definition named :: "string \<Rightarrow> mailbox_state \<Rightarrow> mailbox_state" where
  "named backend s = s\<lparr>mx_Stats := (mx_Stats s)\<lparr>mt_Backend := backend\<rparr>\<rparr>"

abbreviation restorable_state :: "mailbox_state \<Rightarrow> bool" where
  "restorable_state s \<equiv> mb_inv s \<and> journal_ok (mx_History s) \<and> all_tidy s"

lemma named_restorable: "restorable_state s \<Longrightarrow> trimmed backend \<Longrightarrow> restorable_state (named backend s)"
proof -
  assume s: "restorable_state s" "trimmed backend"
  have "mb_inv (named backend s) = mb_inv s"
    by (simp add: mb_inv_def named_def counts_ok_def)
  then show ?thesis using s by (simp add: all_tidy_def named_def)
qed

text \<open>A mailbox without a backend name gets the name of the one that restores it, or \<open>memory\<close>.\<close>

lemma normalizeSnapshot_named:
  assumes "mt_Backend (mx_Stats t) = []"
  shows "\<exists>b. trimmed b \<and> b \<noteq> [] \<and> mb_normalizeSnapshot ks (mb_snapshotOf t) backend = mb_normalizeSnapshot ks (mb_snapshotOf (named b t)) backend"
proof -
  define b where "b = (if TrimSpace backend = [] then ''memory'' else TrimSpace backend)"
  have memory: "TrimSpace ''memory'' = ''memory''" by code_simp
  then have b: "TrimSpace b = b" "b \<noteq> []" by (simp_all add: b_def)
  have "mb_snapshotOf (named b t) = (mb_snapshotOf t)\<lparr>mn_Backend := b, mn_Stats := (mx_Stats t)\<lparr>mt_Backend := b\<rparr>\<rparr>"
    by (simp add: mb_snapshotOf_def named_def recordList_def)
  then have "mb_normalizeSnapshot ks (mb_snapshotOf t) backend = mb_normalizeSnapshot ks (mb_snapshotOf (named b t)) backend"
    using assms b by (simp add: mb_normalizeSnapshot_def mb_snapshotOf_def Let_def b_def split: sum.split)
  then show ?thesis using b trimmed_TrimSpace [of b] by (intro exI [of _ b]) simp
qed

lemma restore_named:
  assumes "restorable_state t" "mt_Backend (mx_Stats t) \<noteq> []"
  shows "mb_restore ks source (mb_snapshotOf t) s = (Ok (), t\<lparr>mx_events := mx_events s, mx_traceEvents := mx_traceEvents s\<rparr>)
    \<or> (\<exists>e. mb_restore ks source (mb_snapshotOf t) s = (Err e, s))"
proof (cases "validJournal (mx_History t)")
  case True
  then show ?thesis using mb_restore_snapshot assms by blast
next
  case False
  then show ?thesis
    using normalizeSnapshot_id [of t ks] assms by (simp add: mb_restore_def mb_snapshotOf_def)
qed

lemma restore_taken:
  assumes "restorable_state t"
  obtains (restored) b where "trimmed b"
      "snd (mb_restore ks source (mb_snapshotOf t) s) = (named b t)\<lparr>mx_events := mx_events s, mx_traceEvents := mx_traceEvents s\<rparr>"
  | (refused) "snd (mb_restore ks source (mb_snapshotOf t) s) = s"
proof (cases "mt_Backend (mx_Stats t) = []")
  case True
  then obtain b where b: "trimmed b" "b \<noteq> []"
      "mb_normalizeSnapshot ks (mb_snapshotOf t) (mt_Backend (mx_Stats s)) =
       mb_normalizeSnapshot ks (mb_snapshotOf (named b t)) (mt_Backend (mx_Stats s))"
    using normalizeSnapshot_named by blast
  then have "mb_restore ks source (mb_snapshotOf t) s = mb_restore ks source (mb_snapshotOf (named b t)) s"
    by (simp only: mb_restore_def)
  then show ?thesis
    using restore_named [OF named_restorable [OF assms b(1)], of ks source s] b(1,2) that by (auto simp: named_def)
next
  case False
  have "named (mt_Backend (mx_Stats t)) t = t" "trimmed (mt_Backend (mx_Stats t))"
    using assms by (simp_all add: named_def all_tidy_def)
  then show ?thesis using restore_named [OF assms False, of ks source s] that by force
qed

section \<open>The states of a mailbox\<close>

text \<open>
  What the operations reach from the states \<open>I\<close>, restoring snapshots of states reached in the same way
  included, of this mailbox or of another one.
\<close>

inductive mailbox_from :: "(mailbox_state \<Rightarrow> bool) \<Rightarrow> mailbox_state \<Rightarrow> bool" for I where
  box_init: "I s \<Longrightarrow> mailbox_from I s"
| box_step: "mailbox_from I s \<Longrightarrow> mb_step s t \<Longrightarrow> mailbox_from I t"
| box_restore: "mailbox_from I s \<Longrightarrow> mailbox_from I t \<Longrightarrow> mailbox_from I (snd (mb_restore ks source (mb_snapshotOf t) s))"

lemma box_reach: "reach I mb_step s \<Longrightarrow> mailbox_from I s"
  by (induction rule: reach.induct) (auto intro: mailbox_from.intros)

lemma box_steps: "mb_step\<^sup>*\<^sup>* s t \<Longrightarrow> mailbox_from I s \<Longrightarrow> mailbox_from I t"
  by (induction rule: rtranclp_induct) (auto intro: box_step)

text \<open>If all start states have evolved from one state, so have all states: none of their messages gets lost.\<close>

lemma box_invariant:
  assumes "mailbox_from I s" "\<And>x. I x \<Longrightarrow> restorable_state x \<and> evolve old x"
  shows "restorable_state s \<and> evolve old s"
  using assms(1)
proof (induction rule: mailbox_from.induct)
  case (box_init s)
  then show ?case by (rule assms(2))
next
  case (box_step s t)
  then show ?case
    using restorable.step_invar [of s t] mb_step_evolve [of s t] evolve_trans by blast
next
  case (box_restore s t ks source)
  have t: "restorable_state t" using box_restore.IH(2) by simp
  show ?case
    using t
  proof (cases rule: restore_taken [where ks = ks and source = source and s = s])
    case (restored b)
    let ?t = "(named b t)\<lparr>mx_events := mx_events s, mx_traceEvents := mx_traceEvents s\<rparr>"
    have "mb_inv ?t = mb_inv (named b t)" by (rule mb_inv_cong) simp_all
    moreover have "evolve old ?t" using box_restore.IH(2) by (simp add: evolve_def named_def)
    ultimately show ?thesis
      using named_restorable [OF t restored(1)] restored(2) by (simp add: all_tidy_def)
  next
    case refused
    then show ?thesis using box_restore.IH(1) by simp
  qed
qed

lemma box_restorable: "mailbox_from mb_init s \<Longrightarrow> restorable_state s"
  using box_invariant [of mb_init s "newMailboxState [] [] (mx_Policy s)"] restorable.init_invar
  by (simp add: evolve_def newMailboxState_def)

lemma box_evolve:
  assumes "mailbox_from ((=) s) t" "restorable_state s"
  shows "restorable_state t \<and> evolve s t"
  using assms(1) by (rule box_invariant) (use assms(2) in \<open>auto simp: evolve_same\<close>)

end
