(* ===== verification/Mailbox_Properties.thy ===== *)
theory Mailbox_Properties
  imports Mailbox_Demo Mailbox_Restore
begin

text \<open>
  The properties of the mailbox: its state machine, its journal and snapshots, its facade and its
  workers. The states that witness their hypotheses are those of \<open>Mailbox_Demo\<close>.
\<close>

section \<open>The state machine\<close>

text \<open>
  C30: Every state that the operations reach from an empty mailbox is well formed, restoring snapshots
  that a mailbox has taken included (\<open>mailbox_from\<close>): each record has the
  fields its state calls for and at most \<open>MaxAttempts\<close> deliveries, the queue lists exactly the queued
  messages without repetition, the idempotency index and the records agree, the counters of
  \<open>Stats\<close> are the numbers of records and deliveries they stand for, the journal is a gap-free run of
  valid entries, and all texts are trimmed and all time stamps set. The clock never shows the zero time.
  Snapshots that were not taken from a mailbox are outside the statement.
\<close>

theorem mailbox_well_formed:
  assumes "mailbox_from mb_init s"
  shows "mb_inv s \<and> journal_ok (mx_History s) \<and> all_tidy s"
  using assms by (rule box_restorable)

definition mail_rolled_back :: mailbox_state where
  "mail_rolled_back = snd (mb_restore [''k1'', ''k2''] ''OTHER'' (mb_snapshotOf mail_claimed) mail_acked)"

theorem mailbox_well_formed_witness:
  "mb_inv mail_rolled_back \<and> journal_ok (mx_History mail_rolled_back) \<and> all_tidy mail_rolled_back
   \<and> map_option m_State (fmlookup (mx_Records mail_rolled_back) ''m1'') = Some StateInFlight"
proof -
  have "mailbox_from mb_init mail_rolled_back"
    unfolding mail_rolled_back_def by (intro box_restore box_reach reach_mail_acked reach_mail_claimed)
  moreover have "map_option m_State (fmlookup (mx_Records mail_rolled_back) ''m1'') = Some StateInFlight" by code_simp
  ultimately show ?thesis using mailbox_well_formed by blast
qed

lemma publish_stored:
  assumes inv: "mb_inv s" and pub: "publish clk e now s = (Ok res, t)"
  shows "fmlookup (mx_Records t) (e_MessageID (m_Envelope (pr_Record res))) = Some (pr_Record res)"
proof -
  note ids = records_ok_lookup(2) [OF mb_inv_parts(2) [OF inv]]
  have "fmlookup (mx_Records t) (e_MessageID (m_Envelope (pr_Record res))) = Some (pr_Record res)"
    if "publishDuplicate n x s = (Ok res, t)" "fmlookup (mx_Records s) i = Some x" for n x i
    using that ids [OF that(2)] by (auto simp: publishDuplicate_def bumpDuplicatePublish_def split: if_splits)
  then show ?thesis
    using pub by (auto simp: publish_def publishNew_def newMbRecord_def Let_def mb_frame bind_eq_Some_conv split: sum.splits option.splits)
qed

text \<open>
  C31: A message is published once. Whatever the operations do after a publish that succeeded,
  publishing again with the same idempotency key and the same dispatch binding succeeds as a duplicate,
  returns the record of the first message with its payload, and changes nothing but the count of
  duplicates. Among the operations in between are restores of snapshots taken after the publish;
  restoring an earlier one takes the message back, and is outside the statement. The clock never shows the
  zero time.
\<close>

theorem publish_once:
  assumes "mailbox_from mb_init s" "publish clk e now s = (Ok res, t)" "clk \<noteq> 0" "mailbox_from ((=) t) u"
    and "normalizeEnvelope e' = Ok n" "e_IdempotencyKey n = e_IdempotencyKey (m_Envelope (pr_Record res))"
      "e_DispatchBinding n = e_DispatchBinding (m_Envelope (pr_Record res))"
  shows "\<exists>r. publish clk' e' now' u = (Ok \<lparr>pr_Record = r, pr_Duplicate = True\<rparr>, bumpDuplicatePublish u)
    \<and> e_MessageID (m_Envelope r) = e_MessageID (m_Envelope (pr_Record res))
    \<and> e_Payload (m_Envelope r) = e_Payload (m_Envelope (pr_Record res))
    \<and> fmlookup (mx_Records u) (e_MessageID (m_Envelope r)) = Some r"
proof -
  let ?r = "pr_Record res" and ?i = "e_MessageID (m_Envelope (pr_Record res))"
  have inv: "mb_inv s" using box_restorable [OF assms(1)] by simp
  have "mailbox_from mb_init t" using box_step [OF assms(1)] step_publish [OF assms(3,2)] .
  from box_evolve [OF assms(4) box_restorable [OF this]] have inv_u: "mb_inv u" and "evolve t u" by simp_all
  then obtain r where r: "fmlookup (mx_Records u) ?i = Some r" "mail_evolves ?r r"
    using publish_stored [OF inv assms(2)] by (auto simp: evolve_def)
  have same: "(m_Envelope r)\<lparr>e_Attempt := 0\<rparr> = (m_Envelope ?r)\<lparr>e_Attempt := 0\<rparr>" using r(2) by (simp add: mail_evolves_def)
  have field: "e_IdempotencyKey (m_Envelope r) = e_IdempotencyKey (m_Envelope ?r)"
    "e_DispatchBinding (m_Envelope r) = e_DispatchBinding (m_Envelope ?r)" "e_Payload (m_Envelope r) = e_Payload (m_Envelope ?r)"
    using arg_cong [OF same, of e_IdempotencyKey] arg_cong [OF same, of e_DispatchBinding] arg_cong [OF same, of e_Payload] by simp_all
  have "fmlookup (mx_Idempotency u) (e_IdempotencyKey n) = Some ?i"
    using mb_inv_parts(4) [OF inv_u] r(1) field(1) assms(6) by (auto simp: keys_ok_def)
  then have "publish clk' e' now' u = publishDuplicate n r u" using r(1) assms(5) by (simp add: publish_def)
  moreover have "e_MessageID (m_Envelope r) = ?i" using records_ok_lookup(2) [OF mb_inv_parts(2) [OF inv_u] r(1)] .
  ultimately show ?thesis using r(1) field assms(7) by (simp add: publishDuplicate_def)
qed

theorem publish_once_witness:
  "\<exists>r. publish 5 (mail_command ''other'' '' k1 '') 40 mail_acked = (Ok \<lparr>pr_Record = r, pr_Duplicate = True\<rparr>, bumpDuplicatePublish mail_acked)
     \<and> e_MessageID (m_Envelope r) = ''m1'' \<and> m_State r = StateAcked"
proof -
  let ?pub = "publish 5 (mail_command ''m1'' ''k1'') 10 mail_empty"
  have "\<not> isl (fst ?pub)" by code_simp
  then obtain res where res: "?pub = (Ok res, mail_one)" unfolding mail_one_def by (metis isl_def obj_sumE prod.collapse)
  let ?n = "projr (normalizeEnvelope (mail_command ''other'' '' k1 ''))"
  have "\<not> isl (normalizeEnvelope (mail_command ''other'' '' k1 ''))" by code_simp
  then have n: "normalizeEnvelope (mail_command ''other'' '' k1 '') = Ok ?n" by simp
  have "(e_IdempotencyKey ?n, e_DispatchBinding ?n) = (''k1'', [])" by code_simp
  moreover have "map_sum (\<lambda>_. ()) (\<lambda>p. let e = m_Envelope (pr_Record p) in (e_IdempotencyKey e, e_DispatchBinding e, e_MessageID e)) (fst ?pub)
      = Ok (''k1'', [], ''m1'')" by code_simp
  ultimately have eq: "e_IdempotencyKey ?n = e_IdempotencyKey (m_Envelope (pr_Record res))"
    "e_DispatchBinding ?n = e_DispatchBinding (m_Envelope (pr_Record res))" "e_MessageID (m_Envelope (pr_Record res)) = ''m1''"
    by (simp_all add: res Let_def)
  have "mb_step\<^sup>*\<^sup>* mail_one mail_acked" using mail_demo_steps(2,3,4) by (meson converse_rtranclp_into_rtranclp rtranclp.rtrancl_refl)
  then have "mailbox_from ((=) mail_one) mail_acked" by (rule box_steps) (simp add: box_init)
  from publish_once [where clk' = 5 and now' = 40, OF box_reach [OF reach_mail_empty] res _ this n eq(1,2)] obtain r where r:
    "publish 5 (mail_command ''other'' '' k1 '') 40 mail_acked = (Ok \<lparr>pr_Record = r, pr_Duplicate = True\<rparr>, bumpDuplicatePublish mail_acked)"
    "e_MessageID (m_Envelope r) = ''m1''" "fmlookup (mx_Records mail_acked) ''m1'' = Some r" by (auto simp: eq(3))
  then show ?thesis using mail_acked_state by auto
qed

text \<open>
  C32: A delivery is exclusive. While a message is in flight and a consume may not reclaim it (reclaiming
  is off, or the lease has not run out), no consume hands it out or changes its record, and nobody
  but the consumer that holds it can acknowledge it under a consumer id: one that is not blank and not the
  holder's is refused. A blank id is not checked.
\<close>

theorem exclusive_delivery:
  assumes "mailbox_from mb_init s" "fmlookup (mx_Records s) j = Some r" "m_State r = StateInFlight"
    and "\<not> (reclaim \<and> 0 < lease \<and> leaseExpired r (resolve_now clk now) lease)"
  shows "fmlookup (mx_Records (snd (consume clk c now lease reclaim s))) j = Some r
    \<and> (\<forall>d b. fst (consume clk c now lease reclaim s) = Ok (Some d, b) \<longrightarrow> e_MessageID (m_Envelope d) \<noteq> j)
    \<and> (TrimSpace c \<noteq> [] \<and> TrimSpace c \<noteq> m_ConsumerID r \<longrightarrow> ack clk j c now s = (Err MErrConsumerMismatch, s))"
proof -
  have inv: "mb_inv s" using box_restorable [OF assms(1)] by simp
  let ?t = "swept clk (resolve_now clk now) lease reclaim s"
  have kept: "fmlookup (mx_Records ?t) j = Some r" by (rule swept_keeps [OF inv assms(2,3,4)])
  have both: "fmlookup (mx_Records (snd (consume clk c now lease reclaim s))) j = Some r
      \<and> (\<forall>d b. fst (consume clk c now lease reclaim s) = Ok (Some d, b) \<longrightarrow> e_MessageID (m_Envelope d) \<noteq> j)"
    using inv
  proof (cases rule: consume_cases [where c = c and clk = clk and now = now and lease = lease and reclaim = reclaim])
    case (delivered k x t)
    then have "mx_Queue t ! k \<noteq> j" using kept assms(3) by auto
    moreover have "e_MessageID (m_Envelope x) = mx_Queue t ! k"
      using records_ok_lookup(2) [OF mb_inv_parts(2) [OF swept_inv [OF inv]]] delivered(2,5) by blast
    ultimately show ?thesis using delivered(2,7) kept by (simp add: deliver_def mb_frame)
  qed (simp_all add: kept assms(2))
  have "TrimSpace j = j" using records_ok_lookup(3) [OF mb_inv_parts(2) [OF inv] assms(2)] by simp
  then have "TrimSpace c \<noteq> [] \<and> TrimSpace c \<noteq> m_ConsumerID r \<longrightarrow> ack clk j c now s = (Err MErrConsumerMismatch, s)"
    using assms(2,3) by (simp add: ack_def requireInflightRecord_def)
  then show ?thesis using both by blast
qed

theorem exclusive_delivery_witness:
  "fmlookup (mx_Records (snd (consume 5 ''c2'' 119 100 True mail_claimed))) ''m1'' = fmlookup (mx_Records mail_claimed) ''m1''
   \<and> map_sum id (\<lambda>(d, b). map_option (e_MessageID \<circ> m_Envelope) d) (fst (consume 5 ''c2'' 119 100 True mail_claimed)) = Ok (Some ''m2'')
   \<and> ack 5 ''m1'' ''c2'' 119 mail_claimed = (Err MErrConsumerMismatch, mail_claimed)"
proof -
  have "map_option (\<lambda>r. (m_State r, m_ConsumerID r, leaseExpired r 119 100)) (fmlookup (mx_Records mail_claimed) ''m1'')
      = Some (StateInFlight, ''c1'', False)" by code_simp
  then obtain r where r: "fmlookup (mx_Records mail_claimed) ''m1'' = Some r" "m_State r = StateInFlight" "m_ConsumerID r = ''c1''"
    "\<not> (True \<and> 0 < (100::int) \<and> leaseExpired r (resolve_now 5 119) 100)" by (auto simp: resolve_now_def)
  have "TrimSpace ''c2'' = ''c2''" by code_simp
  moreover have "map_sum id (\<lambda>(d, b). map_option (e_MessageID \<circ> m_Envelope) d) (fst (consume 5 ''c2'' 119 100 True mail_claimed)) = Ok (Some ''m2'')"
    by code_simp
  ultimately show ?thesis using exclusive_delivery [OF box_reach [OF reach_mail_claimed] r(1,2,4), of "''c2''"] r(1,3) by simp
qed

text \<open>
  C33: A message that is acknowledged, dead-lettered or expired stays so: no later sequence of
  operations changes its record, restores of snapshots taken since then included. Restoring an earlier
  snapshot takes the message back to what it was, and is outside the statement.
\<close>

theorem final_stays:
  assumes "mailbox_from mb_init s" "fmlookup (mx_Records s) i = Some r" "m_State r \<in> {StateAcked, StateDeadLetter, StateExpired}"
    and "mailbox_from ((=) s) t"
  shows "fmlookup (mx_Records t) i = Some r"
  using box_evolve [OF assms(4) box_restorable [OF assms(1)]] assms(2,3) by (fastforce simp: evolve_def mail_evolves_def final_def)

theorem final_stays_witness:
  "fmlookup (mx_Records (snd (consume 5 ''c2'' 500 100 True mail_acked))) ''m1'' = fmlookup (mx_Records mail_acked) ''m1''
   \<and> map_option m_State (fmlookup (mx_Records mail_acked) ''m1'') = Some StateAcked"
proof -
  obtain r where r: "fmlookup (mx_Records mail_acked) ''m1'' = Some r" "m_State r = StateAcked" using mail_acked_state by auto
  have "mb_step\<^sup>*\<^sup>* mail_acked (snd (consume 5 ''c2'' 500 100 True mail_acked))" by (intro r_into_rtranclp mb_step_op) simp
  then have "mailbox_from ((=) mail_acked) (snd (consume 5 ''c2'' 500 100 True mail_acked))"
    by (rule box_steps) (simp add: box_init)
  then show ?thesis using final_stays [OF box_reach [OF reach_mail_acked] r(1)] r mail_acked_state by simp
qed

text \<open>
  C34: A message that is due is delivered in its turn. If it is queued behind \<open>k\<close> others, it is handed
  out by one of the next \<open>k + 1\<close> consumes, whoever makes them and whether or not they reclaim expired
  leases, as long as it is due (not expired, not delayed) at each of them.
\<close>

theorem due_delivered_in_turn:
  assumes "reach mb_init mb_step s" "fmlookup (mx_Records s) i = Some r"
    and "list_all (try_due r) tries" "ahead i (mx_Queue s) < length tries"
  shows "\<exists>d \<in> set (fst (consumes tries s)). e_MessageID (m_Envelope d) = i"
  using mailbox.reach_invar [OF assms(1)] assms(2-4) by (rule consumes_turn)

theorem due_delivered_in_turn_witness:
  "\<exists>d \<in> set (fst (consumes [(5, ''c1'', 20, 100, True), (5, ''c2'', 21, 0, False)] mail_full)). e_MessageID (m_Envelope d) = ''m2''"
proof -
  let ?tries = "[(5, ''c1'', 20, 100, True), (5, ''c2'', 21, 0, False)]"
  have "map_option (\<lambda>r. list_all (try_due r) ?tries) (fmlookup (mx_Records mail_full) ''m2'') = Some True" by code_simp
  then obtain r where r: "fmlookup (mx_Records mail_full) ''m2'' = Some r" "list_all (try_due r) ?tries" by auto
  have "ahead ''m2'' (mx_Queue mail_full) < length ?tries" by code_simp
  from due_delivered_in_turn [OF reach_mail_full r this] show ?thesis .
qed

section \<open>The journal and the snapshots\<close>

text \<open>
  C35: A mailbox survives a snapshot. Restoring what \<open>snapshot\<close> exports of a reachable mailbox succeeds
  and gives back all of its records, queue, idempotency index, counters, policy and journal, whatever
  state is overwritten and in whatever order the snapshot's index is walked. The journal's source id is
  a text of \<open>crypto/rand.Text\<close>, and its sequence numbers have not reached the end of \<open>uint64\<close>.
\<close>

theorem restore_round_trip:
  assumes "reach mb_init mb_step s" "mt_Backend (mx_Stats s) \<noteq> []" "rand_text (hj_SourceID (mx_History s))"
    and "unat (hj_Floor (mx_History s)) + length (hj_Entries (mx_History s)) + 1 < 2 ^ 64"
  shows "mb_restore ks source (mb_snapshotOf s) t = (Ok (), s\<lparr>mx_events := mx_events t, mx_traceEvents := mx_traceEvents t\<rparr>)"
proof -
  have inv: "mb_inv s" "journal_ok (mx_History s)" "all_tidy s" using restorable.reach_invar [OF assms(1)] by simp_all
  show ?thesis using inv(1,3) assms(2) journal_ok_valid [OF inv(2) assms(4,3)] by (rule mb_restore_snapshot)
qed

lemma mail_acked_journal:
  "rand_text (hj_SourceID (mx_History mail_acked))" "mt_Backend (mx_Stats mail_acked) \<noteq> []"
  "hj_Floor (mx_History mail_acked) = 0" "length (hj_Entries (mx_History mail_acked)) = 4" "\<not> hj_Unavailable (mx_History mail_acked)"
proof -
  have "(\<lambda>s. (hj_SourceID (mx_History s), mt_Backend (mx_Stats s), hj_Floor (mx_History s), length (hj_Entries (mx_History s)),
      hj_Unavailable (mx_History s))) mail_acked = (''SOURCE2345'', ''memory'', 0, 4, False)" by code_simp
  moreover have "rand_text ''SOURCE2345''" by code_simp
  ultimately show "rand_text (hj_SourceID (mx_History mail_acked))" "mt_Backend (mx_Stats mail_acked) \<noteq> []"
    "hj_Floor (mx_History mail_acked) = 0" "length (hj_Entries (mx_History mail_acked)) = 4" "\<not> hj_Unavailable (mx_History mail_acked)"
    by simp_all
qed

theorem restore_round_trip_witness:
  "mb_restore [''k2'', ''k1''] ''OTHER'' (mb_snapshotOf mail_acked) mail_empty = (Ok (), mail_acked)"
proof -
  have "(\<lambda>s. (mx_events s, mx_traceEvents s)) mail_acked = ([], False)" by code_simp
  then have "mx_events mail_acked = []" "mx_traceEvents mail_acked = False" by simp_all
  moreover have "mx_events mail_empty = []" "mx_traceEvents mail_empty = False" by (simp_all add: mail_empty_def newMailboxState_def)
  ultimately show ?thesis
    using restore_round_trip [OF reach_mail_acked mail_acked_journal(2,1), of "[''k2'', ''k1'']" "''OTHER''" mail_empty]
    by (simp add: mail_acked_journal)
qed

text \<open>
  A reader that starts without a cursor and follows the cursors of \<open>ReadAfter\<close> until a page is
  complete gets every retained entry of the journal once and in order, for every page size that is
  allowed, and needs at most one call per entry and one more. The journal is available and its sequence numbers fit.
\<close>

lemma history_pages_complete:
  assumes "reach mb_init mb_step s" "h = mx_History s" "\<not> hj_Unavailable h" "rand_text (hj_SourceID h)"
    and "no_wrap (hj_Floor h) (hj_Entries h)" "1 \<le> limit" "limit \<le> MaxHistoryPageSize"
  shows "followHistory (Suc (length (hj_Entries h))) (\<lambda>c. readAfter (Some (h, durable)) (journalSource h) c limit) None =
    Some (map (native (journalSource h) durable) (hj_Entries h))"
proof -
  have "journal_ok h" using journal.reach_invar [OF assms(1)] assms(2) by simp
  from followHistory_from [OF this assms(3,5,4,6,7), of 0 "Suc (length (hj_Entries h))" None durable] show ?thesis by simp
qed

lemma history_pages_complete_witness:
  "\<exists>es. followHistory 5 (\<lambda>c. readAfter (Some (mx_History mail_acked, False)) (journalSource (mx_History mail_acked)) c 3) None = Some es
     \<and> length es = 4"
proof -
  let ?h = "mx_History mail_acked"
  have "no_wrap (hj_Floor ?h) (hj_Entries ?h)" by (simp add: no_wrap_def mail_acked_journal)
  from history_pages_complete [OF reach_mail_acked refl mail_acked_journal(5,1) this, of 3 False] show ?thesis
    by (simp add: mail_acked_journal del: followHistory.simps)
qed

section \<open>Workers and queries\<close>

text \<open>
  C36: A worker runs dry. Over the file store, whatever its handler does and however the file system fails,
  the rounds in which it processes a message are at most the deliveries that the published messages
  still allow: \<open>MaxAttempts\<close> for each, less those made already.
\<close>

theorem worker_runs_dry:
  assumes "reach mb_init mb_step (mf_state fs)" "(mail_step (MailFileStore env))\<^sup>*\<^sup>* (NewMailbox (MailFileStore env) observers fs) m"
    and "list_all round_ok rnds" "s = mf_state (mb_store m)"
  shows "int (fst (fst (workerRun (MailFileStore env) errText handler w rnds m)))
    \<le> po_MaxAttempts (mx_Policy s) * mt_PublishedTotal (mx_Stats s) - mt_ConsumedTotal (mx_Stats s)"
proof -
  let ?new = "NewMailbox (MailFileStore env) observers fs"
  have "mb_step (mf_state fs) (mf_state (mb_store ?new))" by (simp add: NewMailbox_def mail_file.does_Tracing step_trace)
  with assms(1) have "reach mb_init mb_step (mf_state (mb_store ?new))" by (rule reach_step)
  from mailbox.reach_invar [OF this] have "mb_inv (mf_state (mb_store m))"
    using mailbox.steps_invar mail_file.mail_steps_core [OF assms(2)] by blast
  from mail_file.workerRounds_bound [OF this assms(3)] budget_nonneg [OF this] show ?thesis
    by (simp add: workerRun_def assms(4) budget_def)
qed

theorem worker_runs_dry_witness:
  "let st = MailFileStore mail_disk;
       w = \<lparr>wk_config = \<lparr>wc_Enabled = True, wc_PollInterval = 1, wc_HandlerErrorPolicy = ''nack'', wc_InflightTimeout = 100,
                wc_HeartbeatInterval = 10, wc_ReclaimOnConsume = True, wc_PanicPolicy = []\<rparr>, wk_consumerID = ''c1''\<rparr>;
       rnd = \<lparr>wr_claim = (5, 20), wr_ticks = [(5, 25)], wr_settle = (5, 30)\<rparr>
   in int (fst (fst (workerRun st (\<lambda>_. []) (\<lambda>_. HandlerError ''boom'') w [rnd, rnd, rnd] mail_box))) \<le> 2
      \<and> fst (workerRun st (\<lambda>_. []) (\<lambda>_. HandlerError ''boom'') w [rnd, rnd, rnd] mail_box) = (1, None)"
proof -
  let ?st = "MailFileStore mail_disk"
  let ?w = "\<lparr>wk_config = \<lparr>wc_Enabled = True, wc_PollInterval = 1, wc_HandlerErrorPolicy = ''nack'', wc_InflightTimeout = 100,
    wc_HeartbeatInterval = 10, wc_ReclaimOnConsume = True, wc_PanicPolicy = []\<rparr>, wk_consumerID = ''c1''\<rparr>"
  let ?rnd = "\<lparr>wr_claim = (5, 20), wr_ticks = [(5, 25)], wr_settle = (5, 30)\<rparr>"
  have "mf_state mail_file_empty = newMailboxState ''SOURCE2345'' ''file'' mail_policy" by code_simp
  then have init: "reach mb_init mb_step (mf_state mail_file_empty)" by (intro reach_init) (auto simp: mb_init_def)
  have steps: "(mail_step ?st)\<^sup>*\<^sup>* (NewMailbox ?st 1 mail_file_empty) mail_box"
    unfolding mail_box_def by (intro r_into_rtranclp mail_publish) simp
  have ok: "list_all round_ok [?rnd, ?rnd, ?rnd]" by (simp add: round_ok_def)
  have "(\<lambda>s. po_MaxAttempts (mx_Policy s) * mt_PublishedTotal (mx_Stats s) - mt_ConsumedTotal (mx_Stats s)) (mf_state (mb_store mail_box)) = 2"
    by code_simp
  moreover have "fst (workerRun ?st (\<lambda>_. []) (\<lambda>_. HandlerError ''boom'') ?w [?rnd, ?rnd, ?rnd] mail_box) = (1, None)" by code_simp
  ultimately show ?thesis
    using worker_runs_dry [OF init steps ok refl, of "\<lambda>_. []" "\<lambda>_. HandlerError ''boom''" ?w] by (simp add: Let_def)
qed

text \<open>
  C37: Over the memory store, following the next-page cursors of \<open>Query\<close> from the first page lists every
  matching message exactly once, sorted by the query's time stamp and the message id, although answers
  come from the cache, and ends after at most one call per message and one more. It is stated after any
  sequence of facade operations. \<open>Q\<close> are the queries that were asked; it is assumed that those with the
  same hash select the same records (\<open>mail_separates\<close>).
\<close>

theorem mail_pages_complete:
  assumes "reach (\<lambda>m. ca_entries (mb_queryCache m) = fmempty) (mail_run Q) m" "mail_separates Q"
    and "normalizeQuery req = Ok q" "cursorless q \<in> Q"
    and "xs = sort_key (mailKey q) (filter (\<lambda>r. matchesQuery r q) (mn_Records (mb_snapshotOf (mb_store m))))"
    and "int (length xs) < 2 ^ 63"
  shows "follow (Suc (length xs)) (askMail MailMemoryStore req) [] m = Some xs"
  using mail_cache.reach_invar [OF assms(1)] assms(2-6) by (intro askMail_complete) (simp_all add: filterQueryRecords_sorted)

theorem mail_pages_complete_witness:
  "\<exists>x y. follow 3 (askMail MailMemoryStore mail_request) [] mail_asked = Some [x, y] \<and> e_MessageID (m_Envelope x) = ''m1''"
proof -
  let ?xs = "sort_key (mailKey mail_normal)
    (filter (\<lambda>r. matchesQuery r mail_normal) (mn_Records (mb_snapshotOf (mb_store mail_asked))))"
  have s: "mb_store mail_asked = mb_store mail_memory_box" by (simp add: mail_asked_def Query_memory_store)
  have "map (\<lambda>r. e_MessageID (m_Envelope r)) ?xs = [''m1'', ''m2'']" unfolding s by code_simp
  then obtain x y where xs: "?xs = [x, y]" "e_MessageID (m_Envelope x) = ''m1''" by auto
  have "mail_separates {cursorless mail_normal}" by (simp add: mail_separates_def)
  from mail_pages_complete [OF mail_asked_reach this mail_normalizes _ refl] show ?thesis
    using xs by (simp add: numeral_3_eq_3 del: follow.simps)
qed

end
