(* ===== verification/Topo_Order.thy ===== *)
theory Topo_Order
  imports Go_Encoding
begin

text \<open>
  Orders of a dependency graph. \<open>greedy\<close> is the reference: of the nodes whose dependencies have been
  listed, take the smallest id next. The locale \<open>ready_queue\<close> is the contract of an implementation
  that keeps a sorted queue of ready nodes and counts the dependencies that are still open; both
  \<open>stableTopologicalOrder\<close> of the execution graph and \<open>Plan\<close> of the workflow engine keep it.
\<close>

section \<open>Acyclic graphs\<close>

text \<open>\<open>deps n\<close> are the nodes that \<open>n\<close> depends on.\<close>

definition dep_edges :: "'a list \<Rightarrow> ('a \<Rightarrow> 'a list) \<Rightarrow> ('a \<times> 'a) set" where
  "dep_edges ns deps = {(d, n). n \<in> set ns \<and> d \<in> set (deps n)}"

lemma finite_dep_edges: "finite (dep_edges ns deps)"
proof (rule finite_subset)
  show "dep_edges ns deps \<subseteq> (\<Union>n \<in> set ns. set (deps n)) \<times> set ns" by (auto simp: dep_edges_def)
qed simp

text \<open>A list that names each node after all it depends on.\<close>

definition topological :: "'a list \<Rightarrow> ('a \<Rightarrow> 'a list) \<Rightarrow> 'a list \<Rightarrow> bool" where
  "topological ns deps order \<longleftrightarrow>
     mset order = mset ns \<and> (\<forall>i < length order. \<forall>d \<in> set (deps (order ! i)). d \<in> set (take i order))"

lemma topological_acyclic:
  assumes "topological ns deps order" "distinct ns"
  shows "acyclic (dep_edges ns deps)"
proof -
  have m: "mset order = mset ns" using assms(1) by (simp add: topological_def)
  have d: "distinct order" using assms(2) mset_eq_imp_distinct_iff [OF m] by simp
  have s: "set order = set ns" using m by (rule mset_eq_setD)
  define pos where "pos x = (LEAST i. i < length order \<and> order ! i = x)" for x
  have pos: "pos (order ! i) = i" if "i < length order" for i
    unfolding pos_def using that d by (intro Least_equality) (auto simp: nth_eq_iff_index_eq)
  have "pos x < pos y" if edge: "(x, y) \<in> dep_edges ns deps" for x y
  proof -
    have "y \<in> set order" using edge s by (simp add: dep_edges_def)
    then obtain i where i: "i < length order" "order ! i = y" by (auto simp: in_set_conv_nth)
    then have "x \<in> set (take i order)" using assms(1) edge by (auto simp: topological_def dep_edges_def)
    then obtain j where "j < i" "order ! j = x" using i(1) by (auto simp: in_set_conv_nth)
    then show ?thesis using pos [of i] pos [of j] i by auto
  qed
  then have "dep_edges ns deps \<subseteq> measure pos" by auto
  then show ?thesis using wf_measure wf_subset wf_acyclic by blast
qed

section \<open>The reference order\<close>

definition available :: "('a \<Rightarrow> 'a list) \<Rightarrow> 'a list \<Rightarrow> 'a list \<Rightarrow> 'a::linorder list" where
  "available deps listed rest = sort (filter (\<lambda>n. set (deps n) \<subseteq> set listed) rest)"

function greedy :: "('a::linorder \<Rightarrow> 'a list) \<Rightarrow> 'a list \<Rightarrow> 'a list \<Rightarrow> 'a list" where
  "greedy deps listed rest =
     (case available deps listed rest of
        [] \<Rightarrow> []
      | n # _ \<Rightarrow> n # greedy deps (n # listed) (remove1 n rest))"
  by pat_completeness auto
termination
proof (relation "measure (\<lambda>(deps, listed, rest). length rest)")
  fix deps listed rest n x
  assume "available deps listed rest = n # (x :: 'a list)"
  then have "n \<in> set (available deps listed rest)" by simp
  then have "n \<in> set rest" by (simp add: available_def)
  then show "((deps, n # listed, remove1 n rest), deps, listed, rest) \<in> measure (\<lambda>(deps, listed, rest). length rest)"
    using length_pos_if_in_set [of n rest] by (simp add: length_remove1)
qed simp

declare greedy.simps [simp del]

lemma available_hd: "available deps listed rest = n # ns \<Longrightarrow> n \<in> set rest \<and> set (deps n) \<subseteq> set listed"
proof -
  assume "available deps listed rest = n # ns"
  then have "n \<in> set (available deps listed rest)" by simp
  then show ?thesis by (simp add: available_def)
qed

lemma greedy_deps:
  "i < length (greedy deps listed rest) \<Longrightarrow>
   set (deps (greedy deps listed rest ! i)) \<subseteq> set listed \<union> set (take i (greedy deps listed rest))"
proof (induction deps listed rest arbitrary: i rule: greedy.induct)
  case (1 deps listed rest)
  show ?case
  proof (cases "available deps listed rest")
    case Nil
    then show ?thesis using "1.prems" by (simp add: greedy.simps [of deps listed rest])
  next
    case (Cons n ns)
    have eq: "greedy deps listed rest = n # greedy deps (n # listed) (remove1 n rest)"
      by (simp add: greedy.simps [of deps listed rest] Cons)
    show ?thesis
    proof (cases i)
      case 0
      then show ?thesis using available_hd [OF Cons] by (simp add: eq)
    next
      case (Suc j)
      then show ?thesis using "1.IH" [OF Cons, of j] "1.prems" by (auto simp: eq)
    qed
  qed
qed

lemma greedy_sub: "mset (greedy deps listed rest) \<subseteq># mset rest"
proof (induction deps listed rest rule: greedy.induct)
  case (1 deps listed rest)
  show ?case
  proof (cases "available deps listed rest")
    case Nil
    then show ?thesis by (simp add: greedy.simps [of deps listed rest])
  next
    case (Cons n ns)
    then show ?thesis using "1.IH" [OF Cons] available_hd [OF Cons]
      by (simp add: greedy.simps [of deps listed rest] insert_subset_eq_iff)
  qed
qed

text \<open>In an acyclic graph, some node is always available.\<close>

lemma available_nonempty:
  assumes "acyclic (dep_edges ns deps)" "rest \<noteq> []" "set rest \<subseteq> set ns" "\<forall>n \<in> set rest. set (deps n) \<subseteq> set listed \<union> set rest"
  shows "available deps listed rest \<noteq> []"
proof -
  have "wf (dep_edges ns deps)" using assms(1) finite_dep_edges by (rule finite_acyclic_wf [rotated])
  then obtain n where n: "n \<in> set rest" "\<forall>m. (m, n) \<in> dep_edges ns deps \<longrightarrow> m \<notin> set rest"
    using assms(2) wf_eq_minimal [of "dep_edges ns deps"] by (metis list.set_sel(1))
  then have "set (deps n) \<subseteq> set listed" using assms(3,4) by (auto simp: dep_edges_def)
  then have "n \<in> set (available deps listed rest)" using n(1) by (simp add: available_def)
  then show ?thesis by auto
qed

lemma greedy_complete_from:
  "acyclic (dep_edges ns deps) \<Longrightarrow> set rest \<subseteq> set ns \<Longrightarrow> \<forall>n \<in> set rest. set (deps n) \<subseteq> set listed \<union> set rest \<Longrightarrow>
   mset (greedy deps listed rest) = mset rest"
proof (induction deps listed rest rule: greedy.induct)
  case (1 deps listed rest)
  show ?case
  proof (cases "available deps listed rest")
    case Nil
    then have "rest = []" using available_nonempty "1.prems" by blast
    then show ?thesis using Nil by (simp add: greedy.simps [of deps listed "[]"])
  next
    case (Cons n ms)
    have n: "n \<in> set rest" using available_hd [OF Cons] by simp
    have "set rest \<subseteq> insert n (set (remove1 n rest))" by (auto intro: ccontr)
    moreover have "set (remove1 n rest) \<subseteq> set rest" by (rule set_remove1_subset)
    ultimately have "\<forall>m \<in> set (remove1 n rest). set (deps m) \<subseteq> set (n # listed) \<union> set (remove1 n rest)"
      using "1.prems"(3) by (simp add: subset_iff) blast
    then have "mset (greedy deps (n # listed) (remove1 n rest)) = mset (remove1 n rest)"
      using "1.prems"(2) by (intro "1.IH" [OF Cons "1.prems"(1)]) (auto dest: set_remove1_subset [THEN subsetD])
    then show ?thesis using n by (simp add: greedy.simps [of deps listed rest] Cons)
  qed
qed

theorem greedy_topological:
  assumes "distinct ns" "\<forall>n \<in> set ns. set (deps n) \<subseteq> set ns"
  shows "acyclic (dep_edges ns deps) \<longleftrightarrow> length (greedy deps [] ns) = length ns"
    and "acyclic (dep_edges ns deps) \<Longrightarrow> topological ns deps (greedy deps [] ns)"
proof -
  have topo: "topological ns deps (greedy deps [] ns)" if "mset (greedy deps [] ns) = mset ns"
    using that greedy_deps [of _ deps "[]" ns] by (auto simp: topological_def)
  have full: "mset (greedy deps [] ns) = mset ns" if "acyclic (dep_edges ns deps)"
    using that assms(2) by (intro greedy_complete_from [of ns]) auto
  show "topological ns deps (greedy deps [] ns)" if "acyclic (dep_edges ns deps)" using topo full that by blast
  show "acyclic (dep_edges ns deps) \<longleftrightarrow> length (greedy deps [] ns) = length ns"
  proof
    assume "length (greedy deps [] ns) = length ns"
    then have "mset (greedy deps [] ns) = mset ns"
      using greedy_sub [of deps "[]" ns] by (metis size_mset subset_mset.le_less mset_subset_size less_irrefl)
    then show "acyclic (dep_edges ns deps)" using topo topological_acyclic assms(1) by blast
  qed (use full in \<open>metis size_mset\<close>)
qed

section \<open>Keeping a queue of ready nodes\<close>

text \<open>How many dependencies of \<open>n\<close> have not been listed, counted with repetition.\<close>

definition open_deps :: "('a \<Rightarrow> 'a list) \<Rightarrow> 'a list \<Rightarrow> 'a \<Rightarrow> int" where
  "open_deps deps listed n = int (length (filter (\<lambda>d. d \<notin> set listed) (deps n)))"

lemma open_deps_zero: "open_deps deps listed n = 0 \<longleftrightarrow> set (deps n) \<subseteq> set listed"
  by (auto simp: open_deps_def filter_empty_conv)

lemma open_deps_nonneg: "0 \<le> open_deps deps listed n"
  by (simp add: open_deps_def)

lemma open_deps_Cons: "x \<notin> set listed \<Longrightarrow> open_deps deps (x # listed) n = open_deps deps listed n - int (count_list (deps n) x)"
proof -
  assume x: "x \<notin> set listed"
  have "length (filter (\<lambda>d. d \<notin> set listed) ds) = length (filter (\<lambda>d. d \<notin> set (x # listed)) ds) + count_list ds x" for ds
    using x by (induction ds) auto
  then show ?thesis by (simp add: open_deps_def)
qed

text \<open>
  The contract of the loop: \<open>release x\<close> takes \<open>x\<close> off the counts of the nodes that depend on it and
  queues those that reach zero, in order. \<open>loop\<close> lists the head of the queue and releases it until the
  queue is empty. \<open>cnt\<close> reads a count.
\<close>

locale ready_queue =
  fixes ns :: "'a::linorder list"
    and deps :: "'a \<Rightarrow> 'a list"
    and cnt :: "'c \<Rightarrow> 'a \<Rightarrow> int"
    and release :: "'a \<Rightarrow> 'a list \<Rightarrow> 'c \<Rightarrow> 'a list \<times> 'c"
    and loop :: "'a list \<Rightarrow> 'c \<Rightarrow> 'a list"
  assumes loop_Nil: "loop [] c = []"
    and loop_Cons: "loop (x # q) c = x # (case release x q c of (q', c') \<Rightarrow> loop q' c')"
    and release_cnt:
      "distinct ns \<Longrightarrow> x \<in> set ns \<Longrightarrow> sorted q \<Longrightarrow> n \<in> set ns \<Longrightarrow> cnt (snd (release x q c)) n = cnt c n - int (count_list (deps n) x)"
    and release_queue:
      "distinct ns \<Longrightarrow> x \<in> set ns \<Longrightarrow> sorted q \<Longrightarrow> \<forall>n \<in> set ns. 0 \<le> cnt c n - int (count_list (deps n) x) \<Longrightarrow>
       sorted (fst (release x q c))
       \<and> mset (fst (release x q c)) = mset q + mset (filter (\<lambda>n. 0 < cnt c n \<and> cnt c n = int (count_list (deps n) x)) ns)"
begin

definition loop_inv :: "'a list \<Rightarrow> 'a list \<Rightarrow> 'c \<Rightarrow> bool" where
  "loop_inv listed rest c \<longleftrightarrow>
     distinct rest \<and> set listed \<inter> set rest = {} \<and> set ns = set listed \<union> set rest
     \<and> (\<forall>n \<in> set listed. set (deps n) \<subseteq> set listed) \<and> (\<forall>n \<in> set ns. cnt c n = open_deps deps listed n)"

lemma release_step:
  assumes ns: "distinct ns" and inv: "loop_inv listed rest c" and q: "x # q = available deps listed rest"
  shows "loop_inv (x # listed) (remove1 x rest) (snd (release x q c))"
    and "fst (release x q c) = available deps (x # listed) (remove1 x rest)"
proof -
  have x: "x \<in> set rest" "set (deps x) \<subseteq> set listed" using available_hd [OF q [symmetric]] by simp_all
  have xl: "x \<notin> set listed" "x \<in> set ns" using x(1) inv by (auto simp: loop_inv_def)
  have sorted: "sorted (x # q)" and dist: "distinct (x # q)"
    using inv unfolding q by (simp_all add: available_def loop_inv_def)
  have cnt: "cnt (snd (release x q c)) n = open_deps deps (x # listed) n" if "n \<in> set ns" for n
    using that inv ns xl sorted by (simp add: release_cnt open_deps_Cons loop_inv_def)
  show "loop_inv (x # listed) (remove1 x rest) (snd (release x q c))"
    using inv x xl cnt by (auto simp: loop_inv_def)
  have nonneg: "\<forall>n \<in> set ns. 0 \<le> cnt c n - int (count_list (deps n) x)"
    using inv open_deps_Cons [OF xl(1), of deps] open_deps_nonneg [of deps "x # listed"] by (simp add: loop_inv_def)
  note r = release_queue [OF ns xl(2) _ nonneg, of q]
  let ?new = "filter (\<lambda>n. 0 < cnt c n \<and> cnt c n = int (count_list (deps n) x)) ns"
  have set_q: "set (x # q) = {n \<in> set rest. set (deps n) \<subseteq> set listed}" unfolding q by (auto simp: available_def)
  have "set ?new = {n \<in> set ns. \<not> set (deps n) \<subseteq> set listed \<and> set (deps n) \<subseteq> set (x # listed)}"
  proof -
    have "0 < cnt c n \<and> cnt c n = int (count_list (deps n) x) \<longleftrightarrow>
        \<not> set (deps n) \<subseteq> set listed \<and> set (deps n) \<subseteq> set (x # listed)" if "n \<in> set ns" for n
      using that inv open_deps_zero [of deps listed n] open_deps_zero [of deps "x # listed" n] open_deps_Cons [OF xl(1), of deps n]
        open_deps_nonneg [of deps listed n] by (auto simp: loop_inv_def)
    then show ?thesis by auto
  qed
  then have set_new: "set ?new = {n \<in> set rest. \<not> set (deps n) \<subseteq> set listed \<and> set (deps n) \<subseteq> set (x # listed)}"
    using inv by (auto simp: loop_inv_def)
  have "distinct (q @ ?new)" using dist ns set_q set_new by auto
  then have "mset (q @ ?new) = mset (filter (\<lambda>n. set (deps n) \<subseteq> set (x # listed)) (remove1 x rest))"
    using inv set_q set_new dist x(2)
    by (subst set_eq_iff_mset_eq_distinct [symmetric]) (auto simp: loop_inv_def)
  then show "fst (release x q c) = available deps (x # listed) (remove1 x rest)"
    using r sorted unfolding available_def by (intro properties_for_sort [symmetric]) simp_all
qed

lemma loop_greedy:
  "distinct ns \<Longrightarrow> loop_inv listed rest c \<Longrightarrow> loop (available deps listed rest) c = greedy deps listed rest"
proof (induction "length rest" arbitrary: listed rest c rule: less_induct)
  case less
  show ?case
  proof (cases "available deps listed rest")
    case Nil
    then show ?thesis by (simp add: loop_Nil greedy.simps [of deps listed rest])
  next
    case (Cons x q)
    note step = release_step [OF less.prems Cons [symmetric]]
    have "x \<in> set rest" using available_hd [OF Cons] by simp
    then have "length (remove1 x rest) < length rest" using length_pos_if_in_set [of x rest] by (simp add: length_remove1)
    from less.hyps [OF this less.prems(1) step(1)] show ?thesis
      by (simp add: Cons loop_Cons greedy.simps [of deps listed rest] case_prod_beta step(2))
  qed
qed

lemma loop_reference:
  assumes "distinct ns" "\<forall>n \<in> set ns. cnt c n = int (length (deps n))"
  shows "loop (sort (filter (\<lambda>n. deps n = []) ns)) c = greedy deps [] ns"
  using loop_greedy [of "[]" ns c] assms by (simp add: loop_inv_def open_deps_def available_def)

end

end
