(* ===== verification/Go_Sha256.thy ===== *)
theory Go_Sha256
  imports Go_Encoding
begin

text \<open>
  SHA-256 as \<open>crypto/sha256\<close> computes it. The constants of the rounds and of the initial state are
  computed from what the standard says they are: the first 32 bits of the fractional parts of the cube
  roots of the first 64 primes, and of the square roots of the first eight.
\<close>

unbundle bit_operations_syntax

section \<open>Constants\<close>

text \<open>The integer \<open>k\<close>-th root of \<open>n\<close>, one binary digit after the other from the highest.\<close>

fun root_digits :: "nat \<Rightarrow> int \<Rightarrow> nat \<Rightarrow> int \<Rightarrow> int" where
  "root_digits k n 0 r = r"
| "root_digits k n (Suc b) r = root_digits k n b (if (r + 2 ^ b) ^ k \<le> n then r + 2 ^ b else r)"

lemma root_digits_floor:
  assumes "r ^ k \<le> n" "n < (r + 2 ^ b) ^ k"
  shows "root_digits k n b r ^ k \<le> n \<and> n < (root_digits k n b r + 1) ^ k"
  using assms
proof (induction k n b r rule: root_digits.induct)
  case (2 k n b r)
  have "r + 2 ^ Suc b = r + 2 ^ b + 2 ^ b" by simp
  with 2(3) have "n < (r + 2 ^ b + 2 ^ b) ^ k" by metis
  with 2(1,2) show ?case by (cases "(r + 2 ^ b) ^ k \<le> n") (simp_all add: not_le)
qed simp

text \<open>The number \<open>p\<close> is shifted by 32 digits of its root, of which the word keeps those after the point.\<close>

definition fraction_of_root :: "nat \<Rightarrow> nat \<Rightarrow> 32 word" where
  "fraction_of_root k p = word_of_int (root_digits k (int p * 2 ^ (32 * k)) 37 0)"

text \<open>Thirty-seven digits are enough for the roots in use, whose integer parts are below 32.\<close>

lemma fraction_of_root_floor:
  assumes "0 < k" "p < 32 ^ k"
  defines "r \<equiv> root_digits k (int p * 2 ^ (32 * k)) 37 0"
  shows "r ^ k \<le> int p * 2 ^ (32 * k) \<and> int p * 2 ^ (32 * k) < (r + 1) ^ k"
  unfolding r_def
proof (rule root_digits_floor)
  show "0 ^ k \<le> int p * 2 ^ (32 * k)" by (simp only: zero_power [OF assms(1)]) simp
  have "int p < 32 ^ k" using assms(2) by (metis of_nat_less_iff of_nat_numeral of_nat_power)
  then have "int p * 2 ^ (32 * k) < 32 ^ k * 2 ^ (32 * k)" by (rule mult_strict_right_mono) simp
  also have "\<dots> = (0 + 2 ^ 37) ^ k" by (simp add: power_mult flip: power_mult_distrib)
  finally show "int p * 2 ^ (32 * k) < (0 + 2 ^ 37) ^ k" .
qed

definition first_primes :: "nat \<Rightarrow> nat list" where
  "first_primes n = take n (filter (\<lambda>p. \<forall>d \<in> set [2..<p]. p mod d \<noteq> 0) [2..<312])"

definition sha256_constants :: "32 word list" where
  "sha256_constants = map (fraction_of_root 3) (first_primes 64)"

definition sha256_start :: "32 word list" where
  "sha256_start = map (fraction_of_root 2) (first_primes 8)"

section \<open>The digest\<close>

definition sha256_schedule :: "32 word list \<Rightarrow> 32 word list" where
  "sha256_schedule ws =
     fold (\<lambda>t ws.
         let a = ws ! (t - 15); b = ws ! (t - 2);
             s0 = word_rotr 7 a XOR word_rotr 18 a XOR drop_bit 3 a;
             s1 = word_rotr 17 b XOR word_rotr 19 b XOR drop_bit 10 b
         in ws @ [ws ! (t - 16) + s0 + ws ! (t - 7) + s1])
       [16..<64] ws"

type_synonym sha256_state =
  "32 word \<times> 32 word \<times> 32 word \<times> 32 word \<times> 32 word \<times> 32 word \<times> 32 word \<times> 32 word"

fun sha256_round :: "32 word \<times> 32 word \<Rightarrow> sha256_state \<Rightarrow> sha256_state" where
  "sha256_round (k, w) (a, b, c, d, e, f, g, h) =
     (let s1 = word_rotr 6 e XOR word_rotr 11 e XOR word_rotr 25 e;
          ch = (e AND f) XOR (NOT e AND g);
          t1 = h + s1 + ch + k + w;
          s0 = word_rotr 2 a XOR word_rotr 13 a XOR word_rotr 22 a;
          maj = (a AND b) XOR (a AND c) XOR (b AND c)
      in (t1 + s0 + maj, a, b, c, d + t1, e, f, g))"

fun sha256_block :: "string \<Rightarrow> sha256_state \<Rightarrow> sha256_state" where
  "sha256_block m (a, b, c, d, e, f, g, h) =
     (case fold sha256_round (zip sha256_constants (sha256_schedule (map be_word (chunks 4 m)))) (a, b, c, d, e, f, g, h) of
        (a', b', c', d', e', f', g', h') \<Rightarrow> (a + a', b + b', c + c', d + d', e + e', f + f', g + g', h + h'))"

text \<open>\<open>sha256.Sum256\<close>: the digest's thirty-two bytes. The padding is that of SHA-1.\<close>

definition sha256_sum :: "string \<Rightarrow> string" where
  "sha256_sum m =
     (let h = sha256_start in
      case fold sha256_block (chunks 64 (sha1_pad m)) (h ! 0, h ! 1, h ! 2, h ! 3, h ! 4, h ! 5, h ! 6, h ! 7) of
        (a, b, c, d, e, f, g, h) \<Rightarrow> concat (map (\<lambda>w. be_bytes 4 (uint w)) [a, b, c, d, e, f, g, h]))"

lemma length_sha256_sum [simp]: "length (sha256_sum m) = 32"
  by (simp add: sha256_sum_def Let_def split: prod.splits)

end
