(* ===== verification/Exec_Graph.thy ===== *)
theory Exec_Graph
  imports Topo_Order Go_Sha256 Json_Text
begin

text \<open>
  The execution topology of \<open>src/orchestration/graph/graph.go\<close>: \<open>Compile\<close> validates a graph of nodes
  and dependencies, brings it into a canonical form, orders it and names it by a digest of its
  canonical JSON.
\<close>

section \<open>Data\<close>

abbreviation MaxGraphIDBytes :: nat where "MaxGraphIDBytes \<equiv> 128"
abbreviation MaxVersionBytes :: nat where "MaxVersionBytes \<equiv> 32"
abbreviation MaxNodeIDBytes :: nat where "MaxNodeIDBytes \<equiv> 128"
abbreviation MaxNodes :: nat where "MaxNodes \<equiv> 1024"
abbreviation MaxEdges :: nat where "MaxEdges \<equiv> 8192"
abbreviation MaxCanonicalBytes :: nat where "MaxCanonicalBytes \<equiv> 1048576"
abbreviation TopologySchemaV1 :: string where "TopologySchemaV1 \<equiv> ''execution_graph.v1''"

record graph_node =
  gn_ID :: string
  gn_DependsOn :: "string list"

record graph_definition =
  gd_GraphID :: string
  gd_Version :: string
  gd_Nodes :: "graph_node list"

record graph_identity =
  gi_GraphID :: string
  gi_Version :: string
  gi_TopologyDigest :: string

record compiled_graph =
  cg_Definition :: graph_definition
  cg_Identity :: graph_identity
  cg_Order :: "string list"

datatype graph_error_code =
    CodeGraphIDRequired
  | CodeGraphIDTooLong
  | CodeVersionRequired
  | CodeVersionTooLong
  | CodeNoNodes
  | CodeInvalidUTF8
  | CodeNodeLimitExceeded
  | CodeEdgeLimitExceeded
  | CodeCanonicalTooLarge
  | CodeNodeIDRequired
  | CodeNodeIDTooLong
  | CodeDuplicateNodeID
  | CodeDependencyRequired
  | CodeDependencyNotFound
  | CodeDependencyCycle

record graph_error =
  ge_Code :: graph_error_code
  ge_Field :: string
  ge_NodeID :: string
  ge_Value :: string

definition graphErr :: "graph_error_code \<Rightarrow> string \<Rightarrow> string \<Rightarrow> string \<Rightarrow> (graph_error, 'a) result" where
  "graphErr code field nodeID val = Err \<lparr>ge_Code = code, ge_Field = field, ge_NodeID = nodeID, ge_Value = val\<rparr>"

section \<open>Reading the nodes\<close>

text \<open>The loop over the dependencies of one node, with those kept so far and the number of edges.\<close>

fun compileDeps :: "string \<Rightarrow> string list \<Rightarrow> string list \<Rightarrow> nat \<Rightarrow> (graph_error, string list \<times> nat) result" where
  "compileDeps nodeID [] kept edgeCount = Ok (kept, edgeCount)"
| "compileDeps nodeID (raw # raws) kept edgeCount =
     (let dependency = TrimSpace raw in
      if dependency = [] then graphErr CodeDependencyRequired ''nodes.depends_on'' nodeID []
      else if \<not> ValidString dependency then graphErr CodeInvalidUTF8 ''nodes.depends_on'' nodeID []
      else if MaxNodeIDBytes < length dependency then graphErr CodeNodeIDTooLong ''nodes.depends_on'' nodeID dependency
      else if dependency \<in> set kept then compileDeps nodeID raws kept edgeCount
      else if MaxEdges < edgeCount + 1 then graphErr CodeEdgeLimitExceeded ''nodes.depends_on'' [] []
      else compileDeps nodeID raws (kept @ [dependency]) (edgeCount + 1))"

fun compileNodes ::
  "graph_node list \<Rightarrow> (string, graph_node) gomap \<Rightarrow> nat \<Rightarrow> nat \<Rightarrow> (graph_error, (string, graph_node) gomap) result" where
  "compileNodes [] nodesByID edgeCount rawCount = Ok nodesByID"
| "compileNodes (n # ns) nodesByID edgeCount rawCount =
     (let nodeID = TrimSpace (gn_ID n) in
      if nodeID = [] then graphErr CodeNodeIDRequired ''nodes.id'' [] []
      else if \<not> ValidString nodeID then graphErr CodeInvalidUTF8 ''nodes.id'' nodeID []
      else if MaxNodeIDBytes < length nodeID then graphErr CodeNodeIDTooLong ''nodes.id'' nodeID []
      else if fmlookup nodesByID nodeID \<noteq> None then graphErr CodeDuplicateNodeID ''nodes.id'' nodeID []
      else if MaxEdges < rawCount + length (gn_DependsOn n) then graphErr CodeEdgeLimitExceeded ''nodes.depends_on'' [] []
      else
        (case compileDeps nodeID (gn_DependsOn n) [] edgeCount of
           Inl e \<Rightarrow> Err e
         | Inr (kept, edgeCount') \<Rightarrow>
             compileNodes ns (fmupd nodeID \<lparr>gn_ID = nodeID, gn_DependsOn = sort kept\<rparr> nodesByID) edgeCount'
               (rawCount + length (gn_DependsOn n))))"

text \<open>The check that every dependency is another known node.\<close>

fun checkNodeDeps :: "(string, graph_node) gomap \<Rightarrow> string \<Rightarrow> string list \<Rightarrow> (graph_error, unit) result" where
  "checkNodeDeps nodesByID nodeID [] = Ok ()"
| "checkNodeDeps nodesByID nodeID (d # ds) =
     (if d = nodeID then graphErr CodeDependencyCycle ''nodes.depends_on'' nodeID []
      else if fmlookup nodesByID d = None then graphErr CodeDependencyNotFound ''nodes.depends_on'' nodeID d
      else checkNodeDeps nodesByID nodeID ds)"

fun checkGraphDeps :: "(string, graph_node) gomap \<Rightarrow> graph_node list \<Rightarrow> (graph_error, unit) result" where
  "checkGraphDeps nodesByID [] = Ok ()"
| "checkGraphDeps nodesByID (n # ns) =
     (case checkNodeDeps nodesByID (gn_ID n) (gn_DependsOn n) of Inl e \<Rightarrow> Err e | Inr u \<Rightarrow> checkGraphDeps nodesByID ns)"

section \<open>The stable topological order\<close>

definition map_count :: "(string, int) gomap \<Rightarrow> string \<Rightarrow> int" where
  "map_count m k = (case fmlookup m k of None \<Rightarrow> 0 | Some v \<Rightarrow> v)"

definition map_list :: "(string, 'a list) gomap \<Rightarrow> string \<Rightarrow> 'a list" where
  "map_list m k = (case fmlookup m k of None \<Rightarrow> [] | Some v \<Rightarrow> v)"

definition graphIndegree :: "graph_node list \<Rightarrow> (string, int) gomap" where
  "graphIndegree nodes = foldl (\<lambda>m n. fmupd (gn_ID n) (int (length (gn_DependsOn n))) m) fmempty nodes"

definition graphDependents :: "graph_node list \<Rightarrow> (string, string list) gomap" where
  "graphDependents nodes =
     foldl (\<lambda>m n. foldl (\<lambda>m d. fmupd d (map_list m d @ [gn_ID n]) m) m (gn_DependsOn n)) fmempty nodes"

text \<open>\<open>sort.Search\<close>: the least index at which a monotone test holds, by bisection.\<close>

function SearchFrom :: "(nat \<Rightarrow> bool) \<Rightarrow> nat \<Rightarrow> nat \<Rightarrow> nat" where
  "SearchFrom f i j =
     (if i < j then let h = (i + j) div 2 in if f h then SearchFrom f i h else SearchFrom f (h + 1) j else i)"
  by pat_completeness auto
termination by (relation "measure (\<lambda>(f, i, j). j - i)") auto

declare SearchFrom.simps [simp del]

definition SearchStrings :: "string list \<Rightarrow> string \<Rightarrow> nat" where
  "SearchStrings xs x = SearchFrom (\<lambda>i. x \<le> xs ! i) 0 (length xs)"

definition insertReady :: "string \<Rightarrow> string list \<Rightarrow> string list" where
  "insertReady node ready =
     (let index = SearchStrings ready node in take index ready @ node # drop index ready)"

fun releaseNodes :: "string list \<Rightarrow> string list \<Rightarrow> (string, int) gomap \<Rightarrow> string list \<times> (string, int) gomap" where
  "releaseNodes [] ready indegree = (ready, indegree)"
| "releaseNodes (d # ds) ready indegree =
     (let degree = map_count indegree d - 1
      in releaseNodes ds (if degree = 0 then insertReady d ready else ready) (fmupd d degree indegree))"

text \<open>The nodes with open dependencies, of which each released node leaves one.\<close>

definition open_count :: "(string, int) gomap \<Rightarrow> nat" where
  "open_count m = card {k \<in> fset (fmdom m). 0 < map_count m k}"

lemma open_count_decr:
  "open_count (fmupd d (map_count m d - 1) m) + (if map_count m d - 1 = 0 then 1 else 0) \<le> open_count m"
proof -
  let ?A = "{k \<in> fset (fmdom m). 0 < map_count m k}"
  have fin: "finite ?A" by simp
  have sub: "{k \<in> fset (fmdom (fmupd d (map_count m d - 1) m)). 0 < map_count (fmupd d (map_count m d - 1) m) k}
      \<subseteq> (if map_count m d - 1 = 0 then ?A - {d} else ?A)"
    by (auto simp: map_count_def fmdom_iff_lookup split: option.splits if_splits)
  show ?thesis
  proof (cases "map_count m d - 1 = 0")
    case True
    then have d: "d \<in> ?A" by (auto simp: map_count_def fmdom_iff_lookup split: option.splits)
    have "open_count (fmupd d (map_count m d - 1) m) \<le> card (?A - {d})"
      unfolding open_count_def using sub True fin by (intro card_mono) auto
    then show ?thesis using True d fin card_Suc_Diff1 [OF fin d] by (simp add: open_count_def)
  next
    case False
    then show ?thesis unfolding open_count_def using sub fin by (auto intro!: card_mono)
  qed
qed

lemma length_insertReady [simp]: "length (insertReady d ready) = Suc (length ready)"
  by (simp add: insertReady_def Let_def)

lemma releaseNodes_measure:
  "length (fst (releaseNodes ds ready m)) + open_count (snd (releaseNodes ds ready m)) \<le> length ready + open_count m"
proof (induction ds arbitrary: ready m)
  case (Cons d ds)
  let ?m = "fmupd d (map_count m d - 1) m"
  show ?case
    using Cons.IH [of "if map_count m d - 1 = 0 then insertReady d ready else ready" ?m] open_count_decr [of d m]
    by (auto simp: Let_def split: if_splits)
qed simp

function graphLoop :: "(string, string list) gomap \<Rightarrow> string list \<Rightarrow> (string, int) gomap \<Rightarrow> string list" where
  "graphLoop dependents ready indegree =
     (case ready of
        [] \<Rightarrow> []
      | nodeID # rest \<Rightarrow>
          (case releaseNodes (map_list dependents nodeID) rest indegree of
             (ready', indegree') \<Rightarrow> nodeID # graphLoop dependents ready' indegree'))"
  by pat_completeness auto
termination
proof (relation "measure (\<lambda>(dependents, ready, indegree). length ready + open_count indegree)", goal_cases)
  case (2 dependents ready indegree nodeID rest ready' indegree')
  then have "releaseNodes (map_list dependents nodeID) rest indegree = (ready', indegree')" by simp
  then show ?case
    using releaseNodes_measure [of "map_list dependents nodeID" rest indegree] 2(1) by simp
qed simp

declare graphLoop.simps [simp del]

definition stableTopologicalOrder :: "graph_node list \<Rightarrow> (graph_error, string list) result" where
  "stableTopologicalOrder nodes =
     (let indegree = graphIndegree nodes;
          ready = sort (filter (\<lambda>k. map_count indegree k = 0) (sorted_keys indegree));
          order = graphLoop (graphDependents nodes) ready indegree
      in if length order \<noteq> length nodes then graphErr CodeDependencyCycle ''nodes.depends_on'' [] []
         else Ok order)"

section \<open>Compile\<close>

definition nodeJson :: "graph_node \<Rightarrow> json" where
  "nodeJson n =
     JObject ((''id'', JString (gn_ID n))
       # (if gn_DependsOn n = [] then [] else [(''depends_on'', JArray (map JString (gn_DependsOn n)))]))"

definition canonicalJson :: "graph_definition \<Rightarrow> string" where
  "canonicalJson d =
     json_text (JObject [(''schema'', JString TopologySchemaV1), (''graph_id'', JString (gd_GraphID d)),
       (''version'', JString (gd_Version d)), (''nodes'', JArray (map nodeJson (gd_Nodes d)))])"

text \<open>What follows once the nodes are read: their order, the dependencies, the order and the digest.\<close>

definition finishCompile :: "string \<Rightarrow> string \<Rightarrow> (string, graph_node) gomap \<Rightarrow> (graph_error, compiled_graph) result" where
  "finishCompile graphID version nodesByID =
     (let nodes = List.map_filter (fmlookup nodesByID) (sorted_keys nodesByID);
          definition' = \<lparr>gd_GraphID = graphID, gd_Version = version, gd_Nodes = nodes\<rparr>
      in case checkGraphDeps nodesByID nodes of
           Inl e \<Rightarrow> Err e
         | Inr u \<Rightarrow>
             (case stableTopologicalOrder nodes of
                Inl e \<Rightarrow> Err e
              | Inr order \<Rightarrow>
                  let canonical = canonicalJson definition' in
                  if MaxCanonicalBytes < length canonical then graphErr CodeCanonicalTooLarge ''definition'' [] []
                  else Ok \<lparr>cg_Definition = definition',
                           cg_Identity = \<lparr>gi_GraphID = graphID, gi_Version = version,
                                          gi_TopologyDigest = ''sha256:'' @ hex_encode (sha256_sum canonical)\<rparr>,
                           cg_Order = order\<rparr>))"

definition Compile :: "graph_definition \<Rightarrow> (graph_error, compiled_graph) result" where
  "Compile inp =
     (let graphID = TrimSpace (gd_GraphID inp); version = TrimSpace (gd_Version inp) in
      if graphID = [] then graphErr CodeGraphIDRequired ''graph_id'' [] []
      else if \<not> ValidString graphID then graphErr CodeInvalidUTF8 ''graph_id'' [] []
      else if MaxGraphIDBytes < length graphID then graphErr CodeGraphIDTooLong ''graph_id'' [] []
      else if version = [] then graphErr CodeVersionRequired ''version'' [] []
      else if \<not> ValidString version then graphErr CodeInvalidUTF8 ''version'' [] []
      else if MaxVersionBytes < length version then graphErr CodeVersionTooLong ''version'' [] []
      else if gd_Nodes inp = [] then graphErr CodeNoNodes ''nodes'' [] []
      else if MaxNodes < length (gd_Nodes inp) then graphErr CodeNodeLimitExceeded ''nodes'' [] []
      else
        (case compileNodes (gd_Nodes inp) fmempty 0 0 of
           Inl e \<Rightarrow> Err e
         | Inr nodesByID \<Rightarrow> finishCompile graphID version nodesByID))"

end
