(* ===== verification/Exec_Graph_Order.thy ===== *)
theory Exec_Graph_Order
  imports Exec_Graph
begin

text \<open>
  What \<open>Compile\<close> does: its order is the reference order, it accepts exactly the acyclic graphs within
  the limits, and its result depends on the topology alone.
\<close>

section \<open>Insertion at the place a search finds\<close>

lemma SearchFrom_least:
  assumes mono: "\<And>k l. k \<le> l \<Longrightarrow> f k \<Longrightarrow> l < n \<Longrightarrow> f l"
  shows "i \<le> j \<Longrightarrow> j \<le> n \<Longrightarrow>
    i \<le> SearchFrom f i j \<and> SearchFrom f i j \<le> j \<and> (\<forall>k. i \<le> k \<and> k < SearchFrom f i j \<longrightarrow> \<not> f k)
    \<and> (\<forall>k. SearchFrom f i j \<le> k \<and> k < j \<longrightarrow> f k)"
proof (induction "j - i" arbitrary: i j rule: less_induct)
  case less
  let ?h = "(i + j) div 2"
  show ?case
  proof (cases "i < j")
    case False
    then have "SearchFrom f i j = i" by (simp add: SearchFrom.simps [of f i j])
    then show ?thesis using False less.prems by auto
  next
    case True
    then have h: "i \<le> ?h" "?h < j" by auto
    show ?thesis
    proof (cases "f ?h")
      case True
      have up: "f k" if "?h \<le> k" "k < j" for k using mono [OF that(1) True] that(2) less.prems(2) by simp
      have eq: "SearchFrom f i j = SearchFrom f i ?h" using True \<open>i < j\<close> by (simp add: SearchFrom.simps [of f i j] Let_def)
      have ih: "i \<le> SearchFrom f i ?h \<and> SearchFrom f i ?h \<le> ?h \<and> (\<forall>k. i \<le> k \<and> k < SearchFrom f i ?h \<longrightarrow> \<not> f k)
          \<and> (\<forall>k. SearchFrom f i ?h \<le> k \<and> k < ?h \<longrightarrow> f k)"
        using h less.prems by (intro less.hyps) auto
      have "f k" if "SearchFrom f i ?h \<le> k" "k < j" for k using ih up that by (cases "k < ?h") auto
      then show ?thesis unfolding eq using ih h by auto
    next
      case False
      have down: "\<not> f k" if "k \<le> ?h" for k using mono [OF that] False h less.prems(2) by auto
      have eq: "SearchFrom f i j = SearchFrom f (?h + 1) j" using False \<open>i < j\<close> by (simp add: SearchFrom.simps [of f i j] Let_def)
      have ih: "?h + 1 \<le> SearchFrom f (?h + 1) j \<and> SearchFrom f (?h + 1) j \<le> j
          \<and> (\<forall>k. ?h + 1 \<le> k \<and> k < SearchFrom f (?h + 1) j \<longrightarrow> \<not> f k) \<and> (\<forall>k. SearchFrom f (?h + 1) j \<le> k \<and> k < j \<longrightarrow> f k)"
        using h less.prems by (intro less.hyps) auto
      have "\<not> f k" if "k < SearchFrom f (?h + 1) j" for k using ih down that by (cases "k \<le> ?h") auto
      then show ?thesis unfolding eq using ih h by auto
    qed
  qed
qed

lemma insertReady_sorted:
  assumes "sorted ready"
  shows "insertReady x ready = insort x ready"
proof -
  let ?k = "SearchStrings ready x"
  have s: "?k \<le> length ready" "\<forall>i < ?k. ready ! i < x" "\<forall>i. ?k \<le> i \<and> i < length ready \<longrightarrow> x \<le> ready ! i"
    using SearchFrom_least [of "\<lambda>i. x \<le> ready ! i" "length ready" 0 "length ready"] assms
    by (auto simp: SearchStrings_def sorted_iff_nth_mono not_le intro: order_trans)
  have "\<forall>y \<in> set (take ?k ready). y < x" using s(1,2) by (auto simp: in_set_conv_nth)
  moreover have "\<forall>y \<in> set (drop ?k ready). x \<le> y" using s(1,3) by (auto simp: in_set_conv_nth)
  moreover have "sorted (take ?k ready @ drop ?k ready)" using assms by simp
  ultimately have "sorted (insertReady x ready)"
    unfolding insertReady_def Let_def sorted_append by (auto simp: sorted_wrt_append dest: order.strict_implies_order)
  moreover have "mset (take ?k ready) + mset (drop ?k ready) = mset ready" by (metis append_take_drop_id mset_append)
  then have "mset (insertReady x ready) = mset (insort x ready)" by (simp add: insertReady_def Let_def)
  ultimately show ?thesis using assms by (metis properties_for_sort sorted_insort sorted_sort_id)
qed

section \<open>Releasing a node\<close>

lemma map_count_fmupd [simp]: "map_count (fmupd k v m) n = (if n = k then v else map_count m n)"
  by (simp add: map_count_def)

lemma map_list_fmupd [simp]: "map_list (fmupd k v m) n = (if n = k then v else map_list m n)"
  by (simp add: map_list_def)

lemma map_list_empty [simp]: "map_list fmempty n = []"
  by (simp add: map_list_def)

lemma releaseNodes_count: "map_count (snd (releaseNodes ds ready m)) n = map_count m n - int (count_list ds n)"
  by (induction ds arbitrary: ready m) (auto simp: Let_def)

lemma releaseNodes_queue:
  "sorted ready \<Longrightarrow> \<forall>d \<in> set ds. int (count_list ds d) \<le> map_count m d \<Longrightarrow>
   sorted (fst (releaseNodes ds ready m))
   \<and> mset (fst (releaseNodes ds ready m)) = mset ready + mset_set {d \<in> set ds. map_count m d = int (count_list ds d)}"
proof (induction ds arbitrary: ready m)
  case (Cons d ds)
  let ?m = "fmupd d (map_count m d - 1) m" and ?hit = "map_count m d - 1 = 0"
  let ?q = "if ?hit then insertReady d ready else ready"
  have pre: "\<forall>e \<in> set ds. int (count_list ds e) \<le> map_count ?m e" using Cons.prems(2) by (auto split: if_splits)
  have q: "sorted ?q" "mset ?q = mset ready + (if ?hit then {#d#} else {#})"
    using Cons.prems(1) by (simp_all add: insertReady_sorted sorted_insort)
  have hit: "d \<notin> set ds" if ?hit
    using that Cons.prems(2) by (auto simp: count_list_0_iff [symmetric])
  let ?new = "{e \<in> set (d # ds). map_count m e = int (count_list (d # ds) e)}"
  let ?old = "{e \<in> set ds. map_count ?m e = int (count_list ds e)}"
  have "?new = (if ?hit then insert d ?old else ?old) \<and> (?hit \<longrightarrow> d \<notin> ?old)"
    using hit by (auto split: if_splits simp: count_list_0_iff)
  then have "mset_set ?new = mset_set ?old + (if ?hit then {#d#} else {#})" by auto
  then show ?case using Cons.IH [OF q(1) pre] q(2) by (auto simp: Let_def)
qed simp

text \<open>The dependents of a node: each node once for every time it lists the dependency.\<close>

lemma graphDependents_eq:
  "map_list (graphDependents nodes) x = concat (map (\<lambda>n. replicate (count_list (gn_DependsOn n) x) (gn_ID n)) nodes)"
proof (induction nodes rule: rev_induct)
  case (snoc n nodes)
  have "map_list (foldl (\<lambda>m d. fmupd d (map_list m d @ [i]) m) m ds) x = map_list m x @ replicate (count_list ds x) i"
    for m :: "(string, string list) gomap" and ds and i :: string
    by (induction ds arbitrary: m) (auto simp: replicate_append_same)
  then show ?case using snoc by (simp add: graphDependents_def)
qed (simp add: graphDependents_def)

definition depsOf :: "graph_node list \<Rightarrow> string \<Rightarrow> string list" where
  "depsOf nodes k = (case map_of (map (\<lambda>n. (gn_ID n, gn_DependsOn n)) nodes) k of None \<Rightarrow> [] | Some ds \<Rightarrow> ds)"

lemma depsOf_node: "distinct (map gn_ID nodes) \<Longrightarrow> n \<in> set nodes \<Longrightarrow> depsOf nodes (gn_ID n) = gn_DependsOn n"
proof -
  assume a: "distinct (map gn_ID nodes)" "n \<in> set nodes"
  then have "map_of (map (\<lambda>n. (gn_ID n, gn_DependsOn n)) nodes) (gn_ID n) = Some (gn_DependsOn n)"
    by (intro map_of_is_SomeI) (auto simp: comp_def)
  then show ?thesis by (simp add: depsOf_def)
qed

lemma count_copies:
  fixes ns :: "graph_node list"
  shows "k \<notin> gn_ID ` set ns \<Longrightarrow> count_list (concat (map (\<lambda>n. replicate (c n) (gn_ID n)) ns)) k = 0"
    and "distinct (map gn_ID ns) \<Longrightarrow> n \<in> set ns \<Longrightarrow> count_list (concat (map (\<lambda>n. replicate (c n) (gn_ID n)) ns)) (gn_ID n) = c n"
proof -
  have none: "count_list (concat (map (\<lambda>n. replicate (c n) (gn_ID n)) ms)) k = 0" if "k \<notin> gn_ID ` set ms" for ms k
    using that by (auto simp: count_list_0_iff)
  then show "k \<notin> gn_ID ` set ns \<Longrightarrow> count_list (concat (map (\<lambda>n. replicate (c n) (gn_ID n)) ns)) k = 0" .
  have rep: "count_list (replicate m y) k = (if y = k then m else 0)" for m and y k :: string by (induction m) auto
  show "distinct (map gn_ID ns) \<Longrightarrow> n \<in> set ns \<Longrightarrow> count_list (concat (map (\<lambda>n. replicate (c n) (gn_ID n)) ns)) (gn_ID n) = c n"
  proof (induction ns)
    case (Cons x ns)
    show ?case
    proof (cases "n = x")
      case True
      then have "gn_ID n \<notin> gn_ID ` set ns" using Cons.prems(1) by simp
      then show ?thesis using none [of "gn_ID n" ns] True by (simp add: rep)
    next
      case False
      then have "n \<in> set ns" "gn_ID x \<noteq> gn_ID n" using Cons.prems by (auto simp: image_iff)
      then show ?thesis using Cons by (simp add: rep)
    qed
  qed simp
qed

lemma dependents_count:
  assumes "distinct (map gn_ID nodes)"
  shows "count_list (map_list (graphDependents nodes) x) k = (if k \<in> gn_ID ` set nodes then count_list (depsOf nodes k) x else 0)"
proof (cases "k \<in> gn_ID ` set nodes")
  case True
  then obtain n where n: "n \<in> set nodes" "k = gn_ID n" by auto
  show ?thesis using count_copies(2) [OF assms n(1), of "\<lambda>n. count_list (gn_DependsOn n) x"] depsOf_node [OF assms n(1)] n
    by (simp add: graphDependents_eq)
next
  case False
  then show ?thesis using count_copies(1) [OF False, of "\<lambda>n. count_list (gn_DependsOn n) x"] by (simp add: graphDependents_eq)
qed

lemma dependents_set: "set (map_list (graphDependents nodes) x) \<subseteq> gn_ID ` set nodes"
  by (auto simp: graphDependents_eq)

interpretation graph_queue: ready_queue "map gn_ID nodes" "depsOf nodes" map_count
    "\<lambda>x. releaseNodes (map_list (graphDependents nodes) x)" "graphLoop (graphDependents nodes)" for nodes
proof unfold_locales
  show "graphLoop (graphDependents nodes) [] c = []" for c by (simp add: graphLoop.simps)
  show "graphLoop (graphDependents nodes) (x # q) c =
      x # (case releaseNodes (map_list (graphDependents nodes) x) q c of (q', c') \<Rightarrow> graphLoop (graphDependents nodes) q' c')" for x q c
    by (simp add: graphLoop.simps [of _ "x # q"] case_prod_beta)
  show "map_count (snd (releaseNodes (map_list (graphDependents nodes) x) q c)) n = map_count c n - int (count_list (depsOf nodes n) x)"
    if "distinct (map gn_ID nodes)" "n \<in> set (map gn_ID nodes)" for x q c n
    using that by (auto simp: releaseNodes_count dependents_count)
  show "sorted (fst (releaseNodes (map_list (graphDependents nodes) x) q c))
      \<and> mset (fst (releaseNodes (map_list (graphDependents nodes) x) q c)) =
        mset q + mset (filter (\<lambda>n. 0 < map_count c n \<and> map_count c n = int (count_list (depsOf nodes n) x)) (map gn_ID nodes))"
    if d: "distinct (map gn_ID nodes)" and q: "sorted q"
      and c: "\<forall>n \<in> set (map gn_ID nodes). 0 \<le> map_count c n - int (count_list (depsOf nodes n) x)" for x q c
  proof -
    let ?ds = "map_list (graphDependents nodes) x"
    have "\<forall>k \<in> set ?ds. int (count_list ?ds k) \<le> map_count c k"
      using c dependents_set [of nodes x] dependents_count [OF d, of x] by auto
    note r = releaseNodes_queue [OF q this]
    have "{k \<in> set ?ds. map_count c k = int (count_list ?ds k)} =
        set (filter (\<lambda>n. 0 < map_count c n \<and> map_count c n = int (count_list (depsOf nodes n) x)) (map gn_ID nodes))"
      (is "?L = ?R")
    proof (rule set_eqI)
      fix k
      show "k \<in> ?L \<longleftrightarrow> k \<in> ?R"
        using dependents_set [of nodes x] dependents_count [OF d, of x k] count_list_0_iff [of ?ds k]
        by (cases "k \<in> gn_ID ` set nodes") auto
    qed
    then have "mset_set {k \<in> set ?ds. map_count c k = int (count_list ?ds k)} =
        mset (filter (\<lambda>n. 0 < map_count c n \<and> map_count c n = int (count_list (depsOf nodes n) x)) (map gn_ID nodes))"
      by (simp only:) (rule mset_set_set, rule distinct_filter, rule d)
    with r show ?thesis by simp
  qed
qed

section \<open>The order of a graph\<close>

lemma graphIndegree_keys: "fset (fmdom (graphIndegree nodes)) = gn_ID ` set nodes"
  by (induction nodes rule: rev_induct) (auto simp: graphIndegree_def)

lemma graphIndegree_count:
  "distinct (map gn_ID nodes) \<Longrightarrow> n \<in> set nodes \<Longrightarrow> map_count (graphIndegree nodes) (gn_ID n) = int (length (gn_DependsOn n))"
  by (induction nodes rule: rev_induct) (auto simp: graphIndegree_def image_iff)

lemma stableTopologicalOrder_reference:
  assumes d: "distinct (map gn_ID nodes)"
  shows "stableTopologicalOrder nodes =
    (let order = greedy (depsOf nodes) [] (map gn_ID nodes) in
     if length order = length nodes then Ok order else graphErr CodeDependencyCycle ''nodes.depends_on'' [] [])"
proof -
  let ?m = "graphIndegree nodes"
  have cnt: "\<forall>k \<in> set (map gn_ID nodes). map_count ?m k = int (length (depsOf nodes k))"
    using graphIndegree_count [OF d] depsOf_node [OF d] by auto
  have keys: "sorted_keys ?m = sort (map gn_ID nodes)"
    using d graphIndegree_keys [of nodes]
    by (intro sorted_distinct_set_unique) simp_all
  have "sort (filter (\<lambda>k. map_count ?m k = 0) (sorted_keys ?m)) = sort (filter (\<lambda>k. depsOf nodes k = []) (map gn_ID nodes))"
  proof -
    have "filter (\<lambda>k. map_count ?m k = 0) (map gn_ID nodes) = filter (\<lambda>k. depsOf nodes k = []) (map gn_ID nodes)"
      using cnt by (intro filter_cong) auto
    then show ?thesis unfolding keys by (simp add: filter_sort sorted_sort_id)
  qed
  then show ?thesis
    using graph_queue.loop_reference [OF d cnt] by (simp add: stableTopologicalOrder_def Let_def)
qed

section \<open>What is accepted, and what is returned\<close>

text \<open>The canonical form of a node: its texts trimmed, its dependencies sorted without repetition.\<close>

definition canonNode :: "graph_node \<Rightarrow> graph_node" where
  "canonNode n = \<lparr>gn_ID = TrimSpace (gn_ID n), gn_DependsOn = sort (remdups (map TrimSpace (gn_DependsOn n)))\<rparr>"

definition bounded_text :: "nat \<Rightarrow> string \<Rightarrow> bool" where
  "bounded_text limit s \<longleftrightarrow> s \<noteq> [] \<and> ValidString s \<and> length s \<le> limit"

definition node_ok :: "graph_node \<Rightarrow> bool" where
  "node_ok n \<longleftrightarrow> bounded_text MaxNodeIDBytes (gn_ID n) \<and> (\<forall>d \<in> set (gn_DependsOn n). bounded_text MaxNodeIDBytes d)"

definition raw_edges :: "graph_node list \<Rightarrow> nat" where
  "raw_edges ns = sum_list (map (\<lambda>n. length (gn_DependsOn n)) ns)"

lemma compileDeps_kept:
  assumes "\<forall>r \<in> set raws. bounded_text MaxNodeIDBytes (TrimSpace r)" "edges + length raws \<le> MaxEdges" "distinct kept"
  shows "\<exists>kept' edges'. compileDeps nodeID raws kept edges = Ok (kept', edges') \<and> distinct kept'
    \<and> set kept' = set kept \<union> TrimSpace ` set raws \<and> edges' \<le> edges + length raws"
  using assms
proof (induction raws arbitrary: kept edges)
  case (Cons r raws)
  have r: "bounded_text MaxNodeIDBytes (TrimSpace r)" and rs: "\<forall>r \<in> set raws. bounded_text MaxNodeIDBytes (TrimSpace r)"
    using Cons.prems(1) by auto
  show ?case
  proof (cases "TrimSpace r \<in> set kept")
    case True
    obtain kept' edges' where k: "compileDeps nodeID raws kept edges = Ok (kept', edges')" "distinct kept'"
      "set kept' = set kept \<union> TrimSpace ` set raws" "edges' \<le> edges + length raws"
      using Cons.IH [OF rs _ Cons.prems(3), of edges] Cons.prems(2) by auto
    then show ?thesis using r True by (auto simp: bounded_text_def Let_def)
  next
    case False
    obtain kept' edges' where k: "compileDeps nodeID raws (kept @ [TrimSpace r]) (edges + 1) = Ok (kept', edges')" "distinct kept'"
      "set kept' = set (kept @ [TrimSpace r]) \<union> TrimSpace ` set raws" "edges' \<le> edges + 1 + length raws"
      using Cons.IH [OF rs, of "edges + 1" "kept @ [TrimSpace r]"] Cons.prems(2,3) False by auto
    then show ?thesis using r False Cons.prems(2) by (auto simp: bounded_text_def Let_def)
  qed
qed simp

lemma compileDeps_refused:
  "r \<in> set raws \<Longrightarrow> \<not> bounded_text MaxNodeIDBytes (TrimSpace r) \<Longrightarrow> isl (compileDeps nodeID raws kept edges)"
  by (induction raws arbitrary: kept edges) (auto simp: bounded_text_def graphErr_def Let_def)

lemma sort_remdups_set: "distinct xs \<Longrightarrow> set xs = set ys \<Longrightarrow> sort xs = sort (remdups ys)"
  by (metis sorted_list_of_set_sort_remdups distinct_remdups_id)

lemma compileNodes_Ok:
  "edges \<le> raw \<Longrightarrow> raw \<le> MaxEdges \<Longrightarrow>
   compileNodes ns m edges raw = Ok m' \<longleftrightarrow>
     (\<forall>n \<in> set ns. node_ok (canonNode n)) \<and> distinct (map (gn_ID \<circ> canonNode) ns)
     \<and> (\<forall>n \<in> set ns. fmlookup m (gn_ID (canonNode n)) = None) \<and> raw + raw_edges ns \<le> MaxEdges
     \<and> m' = foldl (\<lambda>m n. fmupd (gn_ID (canonNode n)) (canonNode n) m) m ns"
proof (induction ns arbitrary: m edges raw)
  case (Cons n ns)
  let ?id = "TrimSpace (gn_ID n)" and ?raw = "raw + length (gn_DependsOn n)"
  let ?first = "bounded_text MaxNodeIDBytes ?id \<and> fmlookup m ?id = None \<and> ?raw \<le> MaxEdges
    \<and> (\<forall>r \<in> set (gn_DependsOn n). bounded_text MaxNodeIDBytes (TrimSpace r))"
  show ?case
  proof (cases ?first)
    case False
    have refused: "\<exists>e. compileDeps ?id (gn_DependsOn n) [] edges = Err e"
      if "\<not> (\<forall>r \<in> set (gn_DependsOn n). bounded_text MaxNodeIDBytes (TrimSpace r))"
      using that compileDeps_refused [of _ "gn_DependsOn n" ?id "[]" edges] by (meson isl_def)
    have "isl (compileNodes (n # ns) m edges raw)"
    proof (cases "\<forall>r \<in> set (gn_DependsOn n). bounded_text MaxNodeIDBytes (TrimSpace r)")
      case True
      with False show ?thesis unfolding bounded_text_def [of MaxNodeIDBytes ?id] by (auto simp: graphErr_def Let_def)
    next
      case False
      then obtain e where "compileDeps ?id (gn_DependsOn n) [] edges = Err e" using refused by blast
      then show ?thesis by (auto simp: graphErr_def Let_def)
    qed
    then show ?thesis using False by (auto simp: node_ok_def canonNode_def raw_edges_def)
  next
    case True
    then obtain kept edges' where k: "compileDeps ?id (gn_DependsOn n) [] edges = Ok (kept, edges')" "distinct kept"
      "set kept = TrimSpace ` set (gn_DependsOn n)" "edges' \<le> edges + length (gn_DependsOn n)"
      using compileDeps_kept [of "gn_DependsOn n" edges "[]" ?id] Cons.prems by auto
    have "\<lparr>gn_ID = ?id, gn_DependsOn = sort kept\<rparr> = canonNode n"
      using sort_remdups_set [OF k(2), of "map TrimSpace (gn_DependsOn n)"] k(3) by (simp add: canonNode_def)
    then have "compileNodes (n # ns) m edges raw = compileNodes ns (fmupd ?id (canonNode n) m) edges' ?raw"
      using True k(1) by (simp add: bounded_text_def Let_def)
    moreover have "?id = gn_ID (canonNode n)" by (simp add: canonNode_def)
    moreover have "node_ok (canonNode n)" using True by (auto simp: node_ok_def canonNode_def)
    ultimately show ?thesis
      using Cons.IH [of edges' ?raw "fmupd ?id (canonNode n) m"] k(4) Cons.prems True by (auto simp: raw_edges_def add.assoc)
  qed
qed (auto simp: raw_edges_def)

text \<open>Read from an empty map, the nodes are the canonical ones, sorted by id.\<close>

definition canonNodes :: "graph_node list \<Rightarrow> graph_node list" where
  "canonNodes ns = sort_key gn_ID (map canonNode ns)"

lemma canonNodes_ids: "set (canonNodes ns) = canonNode ` set ns" "distinct (map (gn_ID \<circ> canonNode) ns) \<Longrightarrow> distinct (map gn_ID (canonNodes ns))"
proof -
  show "set (canonNodes ns) = canonNode ` set ns" by (simp add: canonNodes_def)
  have "mset (map gn_ID (canonNodes ns)) = mset (map (gn_ID \<circ> canonNode) ns)" by (simp add: canonNodes_def multiset.map_comp)
  then show "distinct (map (gn_ID \<circ> canonNode) ns) \<Longrightarrow> distinct (map gn_ID (canonNodes ns))"
    by (metis mset_eq_imp_distinct_iff)
qed

lemma nodes_in_order:
  assumes "distinct (map (gn_ID \<circ> canonNode) ns)"
    and m: "m = foldl (\<lambda>m n. fmupd (gn_ID (canonNode n)) (canonNode n) m) fmempty ns"
  shows "List.map_filter (fmlookup m) (sorted_keys m) = canonNodes ns"
    and "fmlookup m k \<noteq> None \<longleftrightarrow> k \<in> gn_ID ` set (canonNodes ns)"
proof -
  have look: "fmlookup m k = map_of (map (\<lambda>n. (gn_ID (canonNode n), canonNode n)) (rev ns)) k" for k
    unfolding m by (induction ns rule: rev_induct) auto
  have dom: "fmlookup m k \<noteq> None \<longleftrightarrow> k \<in> gn_ID ` set (canonNodes ns)" for k
    unfolding look by (auto simp: map_of_eq_None_iff canonNodes_ids(1) image_image)
  then show "fmlookup m k \<noteq> None \<longleftrightarrow> k \<in> gn_ID ` set (canonNodes ns)" .
  have keys: "sorted_keys m = map gn_ID (canonNodes ns)"
    using canonNodes_ids(2) [OF assms(1)] dom
    by (intro sorted_distinct_set_unique) (auto simp: mem_sorted_keys canonNodes_def fmlookup_dom_iff)
  have "fmlookup m (gn_ID c) = Some c" if c: "c \<in> set (canonNodes ns)" for c
  proof -
    obtain n where n: "n \<in> set ns" "c = canonNode n" using c unfolding canonNodes_ids(1) by auto
    have "distinct (map (gn_ID \<circ> canonNode) (rev ns))" using assms(1) by (metis distinct_rev rev_map)
    then show ?thesis unfolding look n(2) using n(1) by (intro map_of_is_SomeI) (auto simp: comp_def)
  qed
  then have "List.map_filter (fmlookup m) (map gn_ID cs) = cs" if "set cs \<subseteq> set (canonNodes ns)" for cs
    using that by (induction cs) (auto simp: List.map_filter_simps)
  then show "List.map_filter (fmlookup m) (sorted_keys m) = canonNodes ns" unfolding keys by simp
qed

lemma checkNodeDeps_Ok: "checkNodeDeps m i ds = Ok u \<longleftrightarrow> (\<forall>d \<in> set ds. d \<noteq> i \<and> fmlookup m d \<noteq> None)"
  by (induction ds) (auto simp: graphErr_def)

lemma checkGraphDeps_Ok:
  "checkGraphDeps m ns = Ok u \<longleftrightarrow> (\<forall>n \<in> set ns. \<forall>d \<in> set (gn_DependsOn n). d \<noteq> gn_ID n \<and> fmlookup m d \<noteq> None)"
proof (induction ns)
  case (Cons n ns)
  then show ?case
    by (cases "checkNodeDeps m (gn_ID n) (gn_DependsOn n)") (use checkNodeDeps_Ok [of m "gn_ID n" "gn_DependsOn n"] in auto)
qed simp

text \<open>The specification: which inputs are graphs, and what a graph compiles to.\<close>

definition canonicalGraph :: "graph_definition \<Rightarrow> graph_definition" where
  "canonicalGraph inp =
     \<lparr>gd_GraphID = TrimSpace (gd_GraphID inp), gd_Version = TrimSpace (gd_Version inp), gd_Nodes = canonNodes (gd_Nodes inp)\<rparr>"

definition compiledGraph :: "graph_definition \<Rightarrow> compiled_graph" where
  "compiledGraph inp =
     (let d = canonicalGraph inp
      in \<lparr>cg_Definition = d,
          cg_Identity = \<lparr>gi_GraphID = gd_GraphID d, gi_Version = gd_Version d,
                         gi_TopologyDigest = ''sha256:'' @ hex_encode (sha256_sum (canonicalJson d))\<rparr>,
          cg_Order = greedy (depsOf (gd_Nodes d)) [] (map gn_ID (gd_Nodes d))\<rparr>)"

definition valid_graph :: "graph_definition \<Rightarrow> bool" where
  "valid_graph inp \<longleftrightarrow>
     (let ns = canonNodes (gd_Nodes inp); ids = map gn_ID ns in
      bounded_text MaxGraphIDBytes (TrimSpace (gd_GraphID inp)) \<and> bounded_text MaxVersionBytes (TrimSpace (gd_Version inp))
      \<and> ns \<noteq> [] \<and> length ns \<le> MaxNodes \<and> list_all node_ok ns \<and> distinct ids \<and> raw_edges (gd_Nodes inp) \<le> MaxEdges
      \<and> list_all (\<lambda>n. set (gn_DependsOn n) \<subseteq> set ids) ns
      \<and> length (canonicalJson (canonicalGraph inp)) \<le> MaxCanonicalBytes)"

definition acyclic_graph :: "graph_definition \<Rightarrow> bool" where
  "acyclic_graph inp \<longleftrightarrow>
     acyclic (dep_edges (map gn_ID (canonNodes (gd_Nodes inp))) (depsOf (canonNodes (gd_Nodes inp))))"

lemma finishCompile_Ok:
  assumes d: "distinct (map (gn_ID \<circ> canonNode) ns)"
    and m: "m = foldl (\<lambda>m n. fmupd (gn_ID (canonNode n)) (canonNode n) m) fmempty ns"
    and inp: "ns = gd_Nodes inp" "gid = TrimSpace (gd_GraphID inp)" "ver = TrimSpace (gd_Version inp)"
  shows "finishCompile gid ver m = Ok c \<longleftrightarrow>
    list_all (\<lambda>n. set (gn_DependsOn n) \<subseteq> gn_ID ` set (canonNodes ns)) (canonNodes ns)
    \<and> acyclic (dep_edges (map gn_ID (canonNodes ns)) (depsOf (canonNodes ns)))
    \<and> length (canonicalJson (canonicalGraph inp)) \<le> MaxCanonicalBytes \<and> c = compiledGraph inp"
proof -
  let ?ns = "canonNodes ns" and ?ids = "map gn_ID (canonNodes ns)"
  note nodes = nodes_in_order [OF d m] and dist = canonNodes_ids(2) [OF d]
  note deps = depsOf_node [OF dist]
  let ?closed = "\<forall>n \<in> set ?ns. set (gn_DependsOn n) \<subseteq> gn_ID ` set ?ns"
  let ?acyc = "acyclic (dep_edges ?ids (depsOf ?ns))"
  have self: "d \<noteq> gn_ID n" if "?acyc" "n \<in> set ?ns" "d \<in> set (gn_DependsOn n)" for n d
  proof
    assume "d = gn_ID n"
    then have "(gn_ID n, gn_ID n) \<in> dep_edges ?ids (depsOf ?ns)" using that deps by (auto simp: dep_edges_def)
    then show False using that(1) by (auto simp: acyclic_def)
  qed
  have check: "(\<exists>u. checkGraphDeps m ?ns = Ok u) \<longleftrightarrow> ?closed \<and> (\<forall>n \<in> set ?ns. gn_ID n \<notin> set (gn_DependsOn n))"
    using nodes(2) checkGraphDeps_Ok [of m ?ns] by auto
  have order: "stableTopologicalOrder ?ns =
      (if ?acyc then Ok (greedy (depsOf ?ns) [] ?ids) else graphErr CodeDependencyCycle ''nodes.depends_on'' [] [])" if ?closed
    using that stableTopologicalOrder_reference [OF dist] greedy_topological(1) [OF dist, of "depsOf ?ns"] deps by (auto simp: Let_def)
  show ?thesis
  proof (cases "?closed \<and> ?acyc")
    case True
    then obtain u where u: "checkGraphDeps m ?ns = Ok u" using check self by blast
    show ?thesis using True u order by (auto simp: finishCompile_def nodes(1) compiledGraph_def canonicalGraph_def inp Let_def graphErr_def list_all_iff)
  next
    case False
    then have "isl (finishCompile gid ver m)"
      using check order by (cases "checkGraphDeps m ?ns") (auto simp: finishCompile_def nodes(1) Let_def graphErr_def)
    then show ?thesis using False by (auto simp: list_all_iff)
  qed
qed

lemma Compile_Ok:
  "Compile inp = Ok c \<longleftrightarrow> valid_graph inp \<and> acyclic_graph inp \<and> c = compiledGraph inp"
proof -
  let ?ns = "gd_Nodes inp" and ?gid = "TrimSpace (gd_GraphID inp)" and ?ver = "TrimSpace (gd_Version inp)"
  let ?m = "foldl (\<lambda>m n. fmupd (gn_ID (canonNode n)) (canonNode n) m) fmempty ?ns"
  let ?head = "bounded_text MaxGraphIDBytes ?gid \<and> bounded_text MaxVersionBytes ?ver \<and> ?ns \<noteq> [] \<and> length ?ns \<le> MaxNodes"
  let ?read = "(\<forall>n \<in> set ?ns. node_ok (canonNode n)) \<and> distinct (map (gn_ID \<circ> canonNode) ?ns) \<and> raw_edges ?ns \<le> MaxEdges"
  have "mset (map gn_ID (canonNodes ?ns)) = mset (map (gn_ID \<circ> canonNode) ?ns)" by (simp add: canonNodes_def multiset.map_comp)
  then have dist: "distinct (map gn_ID (canonNodes ?ns)) \<longleftrightarrow> distinct (map (gn_ID \<circ> canonNode) ?ns)"
    by (metis mset_eq_imp_distinct_iff)
  have len: "length (canonNodes ?ns) = length ?ns" by (simp add: canonNodes_def)
  have reading: "compileNodes ?ns fmempty 0 0 = Ok m \<longleftrightarrow> ?read \<and> m = ?m" for m
    using compileNodes_Ok [of 0 0 ?ns fmempty m] by auto
  have head: "Compile inp = Ok c \<longleftrightarrow>
      ?head \<and> (\<exists>m. compileNodes ?ns fmempty 0 0 = Ok m \<and> finishCompile ?gid ?ver m = Ok c)"
    unfolding Compile_def Let_def bounded_text_def by (auto simp: graphErr_def split: sum.splits)
  have "(\<exists>m. compileNodes ?ns fmempty 0 0 = Ok m \<and> finishCompile ?gid ?ver m = Ok c) \<longleftrightarrow>
      ?read \<and> finishCompile ?gid ?ver ?m = Ok c"
    unfolding reading by blast
  also have "\<dots> \<longleftrightarrow> ?read \<and> list_all (\<lambda>n. set (gn_DependsOn n) \<subseteq> gn_ID ` set (canonNodes ?ns)) (canonNodes ?ns)
      \<and> acyclic_graph inp \<and> length (canonicalJson (canonicalGraph inp)) \<le> MaxCanonicalBytes
      \<and> c = compiledGraph inp"
  proof (cases ?read)
    case True
    then have "distinct (map (gn_ID \<circ> canonNode) ?ns)" by blast
    from finishCompile_Ok [OF this refl refl refl refl, of c] True show ?thesis unfolding acyclic_graph_def by simp
  qed blast
  finally have rest: "(\<exists>m. compileNodes ?ns fmempty 0 0 = Ok m \<and> finishCompile ?gid ?ver m = Ok c) \<longleftrightarrow>
      ?read \<and> list_all (\<lambda>n. set (gn_DependsOn n) \<subseteq> gn_ID ` set (canonNodes ?ns)) (canonNodes ?ns)
      \<and> acyclic_graph inp \<and> length (canonicalJson (canonicalGraph inp)) \<le> MaxCanonicalBytes
      \<and> c = compiledGraph inp" .
  have ok: "list_all node_ok (canonNodes ?ns) \<longleftrightarrow> (\<forall>n \<in> set ?ns. node_ok (canonNode n))"
    by (simp add: list_all_iff canonNodes_ids(1))
  have ne: "canonNodes ?ns = [] \<longleftrightarrow> ?ns = []" using len by force
  show ?thesis unfolding head rest valid_graph_def Let_def dist len ok ne list.set_map by blast
qed

text \<open>The order of a graph: every node once, no node before what it needs.\<close>

lemma compiledGraph_order:
  assumes "valid_graph inp" "acyclic_graph inp"
  shows "topological (map gn_ID (gd_Nodes (cg_Definition (compiledGraph inp))))
    (depsOf (gd_Nodes (cg_Definition (compiledGraph inp)))) (cg_Order (compiledGraph inp))"
proof -
  let ?ns = "canonNodes (gd_Nodes inp)"
  have d: "distinct (map gn_ID ?ns)" and sub: "\<forall>n \<in> set ?ns. set (gn_DependsOn n) \<subseteq> set (map gn_ID ?ns)"
    using assms(1) by (auto simp: valid_graph_def Let_def list_all_iff)
  have "\<forall>k \<in> set (map gn_ID ?ns). set (depsOf ?ns k) \<subseteq> set (map gn_ID ?ns)" using sub depsOf_node [OF d] by auto
  from greedy_topological(2) [OF d this] show ?thesis
    using assms(2) by (simp add: acyclic_graph_def compiledGraph_def canonicalGraph_def Let_def)
qed

text \<open>Only the topology counts: two inputs with the same canonical nodes compile alike.\<close>

lemma canonNodes_mset:
  assumes "mset (map canonNode ns) = mset (map canonNode ns')" "distinct (map gn_ID (canonNodes ns))"
  shows "canonNodes ns' = canonNodes ns"
proof -
  have m: "mset (canonNodes ns') = mset (canonNodes ns)" using assms(1) by (simp add: canonNodes_def)
  then have "distinct (map gn_ID (canonNodes ns'))" using assms(2) by (metis mset_eq_imp_distinct_iff mset_map)
  moreover have "set (canonNodes ns') = set (canonNodes ns)" using m by (rule mset_eq_setD)
  moreover have "sorted (map gn_ID (canonNodes ns'))" "sorted (map gn_ID (canonNodes ns))" by (simp_all add: canonNodes_def)
  moreover have "inj_on gn_ID (set (canonNodes ns))" using assms(2) by (simp add: distinct_map)
  ultimately show ?thesis using assms(2) by (intro map_sorted_distinct_set_unique [of gn_ID]) auto
qed

definition same_graph :: "graph_definition \<Rightarrow> graph_definition \<Rightarrow> bool" where
  "same_graph a b \<longleftrightarrow> TrimSpace (gd_GraphID a) = TrimSpace (gd_GraphID b) \<and> TrimSpace (gd_Version a) = TrimSpace (gd_Version b)
     \<and> mset (map canonNode (gd_Nodes a)) = mset (map canonNode (gd_Nodes b))"

lemma same_graph_compiled:
  assumes "same_graph a b" "distinct (map gn_ID (canonNodes (gd_Nodes a)))"
  shows "compiledGraph b = compiledGraph a" "acyclic_graph b \<longleftrightarrow> acyclic_graph a"
    "raw_edges (gd_Nodes b) \<le> MaxEdges \<Longrightarrow> valid_graph a \<Longrightarrow> valid_graph b"
proof -
  have n: "canonNodes (gd_Nodes b) = canonNodes (gd_Nodes a)"
    using assms canonNodes_mset [of "gd_Nodes a" "gd_Nodes b"] by (simp add: same_graph_def)
  have c: "canonicalGraph b = canonicalGraph a" using assms(1) by (simp add: same_graph_def canonicalGraph_def n)
  then show "compiledGraph b = compiledGraph a" by (simp add: compiledGraph_def)
  show "acyclic_graph b \<longleftrightarrow> acyclic_graph a" by (simp add: acyclic_graph_def n)
  show "raw_edges (gd_Nodes b) \<le> MaxEdges \<Longrightarrow> valid_graph a \<Longrightarrow> valid_graph b"
    unfolding valid_graph_def n c Let_def using assms(1) by (simp add: same_graph_def)
qed

lemma Compile_same_graph:
  assumes "Compile a = Ok c" "same_graph a b" "raw_edges (gd_Nodes b) \<le> MaxEdges"
  shows "Compile b = Ok c"
proof -
  have a: "valid_graph a" "acyclic_graph a" "c = compiledGraph a" using assms(1) by (auto simp: Compile_Ok)
  then have "distinct (map gn_ID (canonNodes (gd_Nodes a)))" by (simp add: valid_graph_def Let_def)
  from same_graph_compiled [OF assms(2) this] show ?thesis using a assms(3) by (simp add: Compile_Ok)
qed

lemma canonNode_idem: "canonNode (canonNode n) = canonNode n"
proof -
  have "map TrimSpace xs = xs" if "\<forall>x \<in> set xs. TrimSpace x = x" for xs :: "string list" using that by (induction xs) auto
  then have "map TrimSpace (sort (remdups (map TrimSpace (gn_DependsOn n)))) = sort (remdups (map TrimSpace (gn_DependsOn n)))" by simp
  then show ?thesis by (simp add: canonNode_def sorted_sort_id)
qed

lemma same_graph_canonical: "same_graph inp (cg_Definition (compiledGraph inp))"
  by (simp add: same_graph_def compiledGraph_def canonicalGraph_def Let_def canonNodes_def image_mset.compositionality comp_def canonNode_idem)

lemma canonical_edges: "raw_edges (canonNodes ns) \<le> raw_edges ns"
proof -
  have "raw_edges (canonNodes ns) = raw_edges (map canonNode ns)"
    unfolding raw_edges_def canonNodes_def by (simp add: multiset.map_comp comp_def flip: sum_mset_sum_list)
  also have "\<dots> \<le> raw_edges ns"
  proof (induction ns)
    case (Cons n ns)
    have "length (gn_DependsOn (canonNode n)) \<le> length (gn_DependsOn n)"
      using length_remdups_leq [of "map TrimSpace (gn_DependsOn n)"] by (simp add: canonNode_def)
    then show ?case using Cons by (simp add: raw_edges_def)
  qed (simp add: raw_edges_def)
  finally show ?thesis .
qed

lemma Compile_idem:
  assumes "Compile inp = Ok c"
  shows "Compile (cg_Definition c) = Ok c"
proof -
  have c: "c = compiledGraph inp" "raw_edges (gd_Nodes inp) \<le> MaxEdges" using assms by (auto simp: Compile_Ok valid_graph_def Let_def)
  have "gd_Nodes (cg_Definition c) = canonNodes (gd_Nodes inp)" by (simp add: c(1) compiledGraph_def canonicalGraph_def Let_def)
  then show ?thesis
    using Compile_same_graph [OF assms same_graph_canonical] c canonical_edges [of "gd_Nodes inp"] by simp
qed

lemma valid_graph_acyclic:
  assumes "valid_graph inp"
  shows "acyclic_graph inp \<longleftrightarrow>
    length (greedy (depsOf (canonNodes (gd_Nodes inp))) [] (map gn_ID (canonNodes (gd_Nodes inp)))) = length (gd_Nodes inp)"
proof -
  let ?ns = "canonNodes (gd_Nodes inp)"
  have d: "distinct (map gn_ID ?ns)" and sub: "\<forall>n \<in> set ?ns. set (gn_DependsOn n) \<subseteq> set (map gn_ID ?ns)"
    using assms by (auto simp: valid_graph_def Let_def list_all_iff)
  have "\<forall>k \<in> set (map gn_ID ?ns). set (depsOf ?ns k) \<subseteq> set (map gn_ID ?ns)" using sub depsOf_node [OF d] by auto
  from greedy_topological(1) [OF d this] show ?thesis by (simp add: acyclic_graph_def canonNodes_def)
qed

end
