(* ===== verification/Workflow_Types.thy ===== *)
theory Workflow_Types
  imports Exec_Graph_Order
begin

text \<open>
  The workflow definition (\<open>src/orchestration/workflow/engine.go\<close>): the types of steps, subgraphs
  and definitions, their normal form, the validation of a definition with its search for a
  dependency cycle, and \<open>PreflightDefinition\<close>.

  Kinds and conditions are texts, as in the code, because a definition may hold any text there.
  Durations and counters are \<open>int\<close>. The message of a validation error is not kept: it is a text for
  people that no code reads. A nil map or slice is the empty one, from which the code never tells it
  apart. A Go map is visited in an order the language leaves open: it is the argument \<open>ord\<close>, which
  takes the sorted keys of a map to the order in which a loop over it visits them.
\<close>

section \<open>Types\<close>

datatype step_status =
    StepStatusPending | StepStatusRunning | StepStatusSucceeded | StepStatusFailed | StepStatusSkipped | StepStatusCanceled
  | StepStatusOther string

definition StepKindRunner :: string where "StepKindRunner = ''runner''"
definition StepKindTool :: string where "StepKindTool = ''tool''"
definition StepKindMCP :: string where "StepKindMCP = ''mcp''"
definition StepKindSkill :: string where "StepKindSkill = ''skill''"
definition StepKindA2A :: string where "StepKindA2A = ''a2a''"

definition ConditionAlways :: string where "ConditionAlways = ''always''"
definition ConditionOnSuccess :: string where "ConditionOnSuccess = ''on_success''"
definition ConditionOnFailure :: string where "ConditionOnFailure = ''on_failure''"

lemmas workflow_texts =
  StepKindRunner_def StepKindTool_def StepKindMCP_def StepKindSkill_def StepKindA2A_def
  ConditionAlways_def ConditionOnSuccess_def ConditionOnFailure_def

datatype wf_error_code =
    ErrCodeWorkflowIDRequired | ErrCodeStepIDRequired | ErrCodeDuplicateStepID | ErrCodeMissingDependency
  | ErrCodeDependencyCycle | ErrCodeUnsupportedCondition | ErrCodeUnsupportedStepKind
  | ErrCodeInvalidRetryMaxAttempts | ErrCodeInvalidRetryBackoff | ErrCodeInvalidStepTimeout
  | ErrCodeA2AAgentIDRequired | ErrCodeA2APeerIDRequired | ErrCodeNoSteps | ErrCodeGraphComposabilityDisabled
  | ErrCodeSubgraphNotFound | ErrCodeSubgraphDepthExceeded | ErrCodeSubgraphCycle | ErrCodeSubgraphAliasCollision
  | ErrCodeExpandedStepIDCollision | ErrCodeConditionTemplateNotFound | ErrCodeConditionTemplateVarMissing
  | ErrCodeConditionTemplateScope | ErrCodeSubgraphOverrideForbidden | ErrCodeSubgraphOverrideStepMissing

record validation_error =
  ve_Code :: wf_error_code
  ve_StepID :: string
  ve_Field :: string

definition wfErr :: "wf_error_code \<Rightarrow> string \<Rightarrow> string \<Rightarrow> validation_error" where
  "wfErr code stepID field = \<lparr>ve_Code = code, ve_StepID = stepID, ve_Field = field\<rparr>"

record step_retry =
  rt_MaxAttempts :: int
  rt_Backoff :: int

record step_override =
  so_Retry :: "step_retry option"
  so_Timeout :: "int option"
  so_Kind :: "string option"

record step =
  s_StepID :: string
  s_Step :: string
  s_TaskID :: string
  s_TeamID :: string
  s_AgentID :: string
  s_PeerID :: string
  s_Kind :: string
  s_DependsOn :: "string list"
  s_Condition :: string
  s_Retry :: step_retry
  s_Timeout :: int
  s_Payload :: "(string, go_any) gomap"
  s_CollabPrimitive :: string
  s_UseSubgraph :: string
  s_Alias :: string
  s_ConditionTemplate :: string
  s_TemplateVars :: "(string, string) gomap"
  s_Overrides :: "(string, step_override) gomap"

record subgraph =
  sg_Steps :: "step list"

record workflow_definition =
  wd_WorkflowID :: string
  wd_Steps :: "step list"
  wd_Subgraphs :: "(string, subgraph) gomap"
  wd_ConditionTemplates :: "(string, string) gomap"

type_synonym map_order = "string list \<Rightarrow> string list"

section \<open>Normal form\<close>

definition normalizeStepKind :: "string \<Rightarrow> string" where
  "normalizeStepKind kind = (let k = ToLower (TrimSpace kind) in if k = [] then StepKindRunner else k)"

definition normalizeCondition :: "string \<Rightarrow> string" where
  "normalizeCondition condition = (let c = ToLower (TrimSpace condition) in if c = [] then ConditionAlways else c)"

text \<open>The trimmed texts that are not empty, each at its first place, after those kept so far.\<close>

fun keepUnique :: "string list \<Rightarrow> string list \<Rightarrow> string list" where
  "keepUnique out [] = out"
| "keepUnique out (item # items) =
     (let key = TrimSpace item in
      if key = [] then keepUnique out items
      else if key \<in> set out then keepUnique out items
      else keepUnique (out @ [key]) items)"

definition normalizeDependsOn :: "string list \<Rightarrow> string list" where
  "normalizeDependsOn items = keepUnique [] items"

text \<open>The loop that writes the values of a map under their trimmed keys.\<close>

definition trimKeys :: "map_order \<Rightarrow> ('a \<Rightarrow> 'b) \<Rightarrow> (string, 'a) gomap \<Rightarrow> (string, 'b) gomap" where
  "trimKeys ord f m =
     foldl (\<lambda>out k. case fmlookup m k of
               None \<Rightarrow> out
             | Some v \<Rightarrow> (let key = TrimSpace k in if key = [] then out else fmupd key (f v) out))
       fmempty (ord (sorted_keys m))"

definition normalizeStringMap :: "map_order \<Rightarrow> (string, string) gomap \<Rightarrow> (string, string) gomap" where
  "normalizeStringMap ord m = trimKeys ord TrimSpace m"

definition normalizeOverrideMap :: "map_order \<Rightarrow> (string, step_override) gomap \<Rightarrow> (string, step_override) gomap" where
  "normalizeOverrideMap ord m = trimKeys ord (\<lambda>v. v\<lparr>so_Kind := map_option normalizeStepKind (so_Kind v)\<rparr>) m"

definition normalizeStepID :: "step \<Rightarrow> string" where
  "normalizeStepID s =
     (let id1 = (if TrimSpace (s_StepID s) = [] then TrimSpace (s_Step s) else TrimSpace (s_StepID s));
          alias = TrimSpace (s_Alias s); use = TrimSpace (s_UseSubgraph s)
      in if id1 \<noteq> [] then id1 else if alias \<noteq> [] then alias else if use \<noteq> [] then use else [])"

definition normalizeStep :: "map_order \<Rightarrow> step \<Rightarrow> step" where
  "normalizeStep ord s =
     (let stepID = normalizeStepID s; taskID = TrimSpace (s_TaskID s)
      in s\<lparr>s_StepID := stepID,
           s_UseSubgraph := TrimSpace (s_UseSubgraph s),
           s_Alias := TrimSpace (s_Alias s),
           s_TaskID := (if taskID = [] then stepID else taskID),
           s_TeamID := TrimSpace (s_TeamID s),
           s_AgentID := TrimSpace (s_AgentID s),
           s_PeerID := TrimSpace (s_PeerID s),
           s_Kind := normalizeStepKind (s_Kind s),
           s_Condition := normalizeCondition (s_Condition s),
           s_DependsOn := normalizeDependsOn (s_DependsOn s),
           s_CollabPrimitive := ToLower (TrimSpace (s_CollabPrimitive s)),
           s_ConditionTemplate := TrimSpace (s_ConditionTemplate s),
           s_TemplateVars := normalizeStringMap ord (s_TemplateVars s),
           s_Overrides := normalizeOverrideMap ord (s_Overrides s)\<rparr>)"

definition normalizeSteps :: "map_order \<Rightarrow> step list \<Rightarrow> step list" where
  "normalizeSteps ord steps = map (normalizeStep ord) steps"

definition normalizeDefinition :: "map_order \<Rightarrow> workflow_definition \<Rightarrow> workflow_definition" where
  "normalizeDefinition ord d =
     d\<lparr>wd_WorkflowID := TrimSpace (wd_WorkflowID d),
       wd_Subgraphs := trimKeys ord (\<lambda>sub. sub\<lparr>sg_Steps := normalizeSteps ord (sg_Steps sub)\<rparr>) (wd_Subgraphs d),
       wd_ConditionTemplates := trimKeys ord TrimSpace (wd_ConditionTemplates d),
       wd_Steps := normalizeSteps ord (wd_Steps d)\<rparr>"

section \<open>Validation\<close>

text \<open>The collaboration primitives a step may name (\<open>src/orchestration/collab/primitives.go\<close>).\<close>

datatype collab_primitive = PrimitiveHandoff | PrimitiveDelegation | PrimitiveAggregation

definition ParsePrimitive :: "string \<Rightarrow> collab_primitive option" where
  "ParsePrimitive v =
     (let p = ToLower (TrimSpace v) in
      if p = ''handoff'' then Some PrimitiveHandoff
      else if p = ''delegation'' then Some PrimitiveDelegation
      else if p = ''aggregation'' then Some PrimitiveAggregation
      else None)"

text \<open>What one step violates by itself.\<close>

definition stepViolations :: "step \<Rightarrow> validation_error list" where
  "stepViolations s =
     (if s_Kind s \<in> {StepKindRunner, StepKindTool, StepKindMCP, StepKindSkill, StepKindA2A} then []
      else [wfErr ErrCodeUnsupportedStepKind (s_StepID s) ''steps.kind''])
     @ (if s_Kind s = StepKindA2A then
          (if TrimSpace (s_AgentID s) = [] then [wfErr ErrCodeA2AAgentIDRequired (s_StepID s) ''steps.agent_id''] else [])
          @ (if TrimSpace (s_PeerID s) = [] then [wfErr ErrCodeA2APeerIDRequired (s_StepID s) ''steps.peer_id''] else [])
        else [])
     @ (if s_CollabPrimitive s \<noteq> [] \<and> ParsePrimitive (s_CollabPrimitive s) = None then
          [wfErr ErrCodeUnsupportedCondition (s_StepID s) ''steps.collab_primitive''] else [])
     @ (if s_Condition s \<in> {ConditionAlways, ConditionOnSuccess, ConditionOnFailure} then []
        else [wfErr ErrCodeUnsupportedCondition (s_StepID s) ''steps.condition''])
     @ (if rt_MaxAttempts (s_Retry s) < 0 then
          [wfErr ErrCodeInvalidRetryMaxAttempts (s_StepID s) ''steps.retry.max_attempts''] else [])
     @ (if rt_Backoff (s_Retry s) < 0 then [wfErr ErrCodeInvalidRetryBackoff (s_StepID s) ''steps.retry.backoff''] else [])
     @ (if s_Timeout s < 0 then [wfErr ErrCodeInvalidStepTimeout (s_StepID s) ''steps.timeout''] else [])"

fun checkSteps :: "step list \<Rightarrow> (string, step) gomap \<Rightarrow> validation_error list \<times> (string, step) gomap" where
  "checkSteps [] stepsByID = ([], stepsByID)"
| "checkSteps (s # ss) stepsByID =
     (if TrimSpace (s_StepID s) = [] then
        (case checkSteps ss stepsByID of (vs, m) \<Rightarrow> (wfErr ErrCodeStepIDRequired [] ''steps.step'' # vs, m))
      else if fmlookup stepsByID (s_StepID s) \<noteq> None then
        (case checkSteps ss stepsByID of (vs, m) \<Rightarrow> (wfErr ErrCodeDuplicateStepID (s_StepID s) ''steps.step'' # vs, m))
      else
        (case checkSteps ss (fmupd (s_StepID s) s stepsByID) of (vs, m) \<Rightarrow> (stepViolations s @ vs, m)))"

definition depViolations :: "(string, step) gomap \<Rightarrow> step \<Rightarrow> validation_error list" where
  "depViolations stepsByID s =
     (if TrimSpace (s_StepID s) = [] then []
      else concat (map (\<lambda>d.
        if d = s_StepID s then [wfErr ErrCodeDependencyCycle (s_StepID s) ''steps.depends_on'']
        else if fmlookup stepsByID d = None then [wfErr ErrCodeMissingDependency (s_StepID s) ''steps.depends_on'']
        else []) (s_DependsOn s)))"

section \<open>The search for a cycle\<close>

text \<open>
  \<open>visited\<close> holds 1 for a step whose dependencies are being followed and 2 for one that is done with.
\<close>

definition adjacency :: "step list \<Rightarrow> (string, string list) gomap" where
  "adjacency steps = foldl (\<lambda>adj s. fmupd (s_StepID s) (s_DependsOn s) adj) fmempty steps"

function dfs :: "(string, string list) gomap \<Rightarrow> string \<Rightarrow> (string, int) gomap \<Rightarrow> bool \<times> (string, int) gomap"
  and dfsDeps :: "(string, string list) gomap \<Rightarrow> string list \<Rightarrow> (string, int) gomap \<Rightarrow> bool \<times> (string, int) gomap"
where
  "dfs adj i visited =
     (if map_count visited i = 1 then (True, visited)
      else if map_count visited i = 2 then (False, visited)
      else
        (case dfsDeps adj (map_list adj i) (fmupd i 1 visited) of
           (found, visited') \<Rightarrow> if found then (True, visited') else (False, fmupd i 2 visited')))"
| "dfsDeps adj [] visited = (False, visited)"
| "dfsDeps adj (d # ds) visited =
     (case dfs adj d visited of
        (found, visited') \<Rightarrow> if found then (True, visited') else dfsDeps adj ds visited')"
  by pat_completeness auto

text \<open>A mark is never taken back, which is why the search ends.\<close>

definition marked :: "(string, int) gomap \<Rightarrow> string set" where
  "marked v = {i. map_count v i = 1 \<or> map_count v i = 2}"

lemma marked_upd: "c = 1 \<or> c = 2 \<Longrightarrow> marked (fmupd i c v) = insert i (marked v)"
  by (auto simp: marked_def map_count_def)

lemma dfs_marks:
  "dfs_dfsDeps_dom (Inl (adj, i, v)) \<Longrightarrow> marked v \<subseteq> marked (snd (dfs adj i v))"
  "dfs_dfsDeps_dom (Inr (adj, ds, v)) \<Longrightarrow> marked v \<subseteq> marked (snd (dfsDeps adj ds v))"
proof (induction adj i v and adj ds v rule: dfs_dfsDeps.pinduct)
  case (1 adj i visited)
  show ?case using 1 by (auto simp: dfs.psimps marked_upd split: prod.split)
next
  case (2 adj visited)
  then show ?case by (simp add: dfsDeps.psimps)
next
  case (3 adj d ds visited)
  obtain f w where fw: "dfs adj d visited = (f, w)" by fastforce
  show ?case
  proof (cases f)
    case True
    then show ?thesis using 3 fw by (simp add: dfsDeps.psimps)
  next
    case False
    then show ?thesis using 3 fw by (auto simp: dfsDeps.psimps)
  qed
qed

definition unmarked :: "(string, string list) gomap \<Rightarrow> (string, int) gomap \<Rightarrow> nat" where
  "unmarked adj v = card (fset (fmdom adj) - marked v)"

lemma unmarked_mono: "marked v \<subseteq> marked v' \<Longrightarrow> unmarked adj v' \<le> unmarked adj v"
  unfolding unmarked_def by (intro card_mono) auto

lemma unmarked_less:
  assumes "i |\<in>| fmdom adj" "i \<notin> marked v"
  shows "unmarked adj (fmupd i 1 v) < unmarked adj v"
  unfolding unmarked_def using assms by (intro psubset_card_mono) (auto simp: marked_upd)

termination dfs
proof (relation "inv_image (less_than <*lex*> less_than)
    (\<lambda>x. case x of Inl (adj, i, v) \<Rightarrow> (unmarked adj v, 1) | Inr (adj, ds, v) \<Rightarrow> (unmarked adj v, 2 * length ds))", goal_cases)
  case (2 adj i visited)
  have i: "i \<notin> marked visited" using 2 by (simp add: marked_def)
  show ?case
  proof (cases "i |\<in>| fmdom adj")
    case True
    then show ?thesis using unmarked_less [OF True i] by simp
  next
    case False
    then have "map_list adj i = []" by (simp add: map_list_def fmdom_notD)
    moreover have "unmarked adj (fmupd i 1 visited) \<le> unmarked adj visited" by (rule unmarked_mono) (auto simp: marked_upd)
    ultimately show ?thesis by auto
  qed
next
  case (4 adj d ds visited found visited')
  then have "marked visited \<subseteq> marked visited'" using dfs_marks(1) by (metis snd_conv)
  then show ?case using unmarked_mono [of visited visited' adj] by auto
qed auto

declare dfs.simps [simp del]

fun anyCycle :: "(string, string list) gomap \<Rightarrow> string list \<Rightarrow> (string, int) gomap \<Rightarrow> bool" where
  "anyCycle adj [] visited = False"
| "anyCycle adj (i # is) visited =
     (case dfs adj i visited of (found, visited') \<Rightarrow> found \<or> anyCycle adj is visited')"

definition hasCycle :: "step list \<Rightarrow> bool" where
  "hasCycle steps = (let adj = adjacency steps in anyCycle adj (sorted_keys adj) fmempty)"

definition ValidateDefinition :: "workflow_definition \<Rightarrow> validation_error list" where
  "ValidateDefinition d =
     (let v0 = (if TrimSpace (wd_WorkflowID d) = [] then [wfErr ErrCodeWorkflowIDRequired [] ''workflow_id''] else []) in
      if wd_Steps d = [] then v0 @ [wfErr ErrCodeNoSteps [] ''steps'']
      else
        (case checkSteps (wd_Steps d) fmempty of
           (vs, stepsByID) \<Rightarrow>
             let violations = v0 @ vs @ concat (map (depViolations stepsByID) (wd_Steps d)) in
             if violations \<noteq> [] then violations
             else if hasCycle (wd_Steps d) then [wfErr ErrCodeDependencyCycle [] ''steps.depends_on'']
             else []))"

definition PreflightDefinition :: "map_order \<Rightarrow> int \<Rightarrow> workflow_definition \<Rightarrow> (validation_error list, workflow_definition) result" where
  "PreflightDefinition ord defaultStepTimeout d =
     (let d = normalizeDefinition ord d; errs = ValidateDefinition d in
      if errs \<noteq> [] then Err errs
      else Ok (d\<lparr>wd_Steps := map (\<lambda>s. if s_Timeout s \<le> 0 then s\<lparr>s_Timeout := defaultStepTimeout\<rparr> else s) (wd_Steps d)\<rparr>))"

end
