(* ===== verification/Workflow_Valid.thy ===== *)
theory Workflow_Valid
  imports Workflow_Types
begin

text \<open>
  What validation decides: the depth-first search finds a cycle exactly when the dependencies have
  one, and a definition passes \<open>ValidateDefinition\<close> exactly when it is a workflow, which is stated
  without any of the loops of the code.
\<close>

section \<open>The search finds exactly the cycles\<close>

definition needs :: "(string, string list) gomap \<Rightarrow> (string \<times> string) set" where
  "needs adj = {(i, d). d \<in> set (map_list adj i)}"

definition onPath :: "(string, int) gomap \<Rightarrow> string set" where
  "onPath v = {i. map_count v i = 1}"

definition done_with :: "(string, int) gomap \<Rightarrow> string set" where
  "done_with v = {i. map_count v i = 2}"

lemma marks [simp]:
  "onPath (fmupd i 1 v) = insert i (onPath v)" "done_with (fmupd i 1 v) = done_with v - {i}"
  "onPath (fmupd i 2 v) = onPath v - {i}" "done_with (fmupd i 2 v) = insert i (done_with v)"
  "onPath fmempty = {}" "done_with fmempty = {}"
  by (auto simp: onPath_def done_with_def map_count_def)

lemma not_both: "i \<in> onPath v \<Longrightarrow> i \<notin> done_with v"
  by (simp add: onPath_def done_with_def)

text \<open>The steps done with need only such steps, and none of them is on a cycle.\<close>

definition settled :: "(string, string list) gomap \<Rightarrow> (string, int) gomap \<Rightarrow> bool" where
  "settled adj v \<longleftrightarrow> (\<forall>b \<in> done_with v. set (map_list adj b) \<subseteq> done_with v \<and> (b, b) \<notin> (needs adj)\<^sup>+)"

lemma settled_reach:
  assumes "settled adj v" "b \<in> done_with v" "(b, c) \<in> (needs adj)\<^sup>*"
  shows "c \<in> done_with v"
  using assms(3) by (induction rule: rtrancl_induct) (use assms(1,2) in \<open>auto simp: settled_def needs_def\<close>)

lemma dfs_clear:
  "\<not> fst (dfs adj i v) \<Longrightarrow> settled adj v \<Longrightarrow>
     (let v' = snd (dfs adj i v) in onPath v' = onPath v \<and> done_with v \<subseteq> done_with v' \<and> i \<in> done_with v' \<and> settled adj v')"
  "\<not> fst (dfsDeps adj ds v) \<Longrightarrow> settled adj v \<Longrightarrow>
     (let v' = snd (dfsDeps adj ds v) in onPath v' = onPath v \<and> done_with v \<subseteq> done_with v' \<and> set ds \<subseteq> done_with v' \<and> settled adj v')"
proof (induction adj i v and adj ds v rule: dfs_dfsDeps.induct)
  case (1 adj i v)
  show ?case
  proof (cases "map_count v i = 1 \<or> map_count v i = 2")
    case True
    then show ?thesis using 1 by (auto simp: dfs.simps [of adj i v] onPath_def done_with_def)
  next
    case False
    let ?w = "snd (dfsDeps adj (map_list adj i) (fmupd i 1 v))"
    have i: "i \<notin> onPath v" "i \<notin> done_with v" using False by (auto simp: onPath_def done_with_def)
    have eq: "dfs adj i v = (if fst (dfsDeps adj (map_list adj i) (fmupd i 1 v)) then (True, ?w) else (False, fmupd i 2 ?w))"
      using False by (subst dfs.simps) (auto split: prod.split)
    have s: "settled adj (fmupd i 1 v)" using 1(3) i by (auto simp: settled_def)
    have nf: "\<not> fst (dfsDeps adj (map_list adj i) (fmupd i 1 v))" using 1(2) eq by (auto split: if_splits)
    have w: "onPath ?w = insert i (onPath v)" "done_with v \<subseteq> done_with ?w" "set (map_list adj i) \<subseteq> done_with ?w" "settled adj ?w"
      using 1(1) [OF _ _ nf s] False i by (auto simp: Let_def)
    have "(i, i) \<notin> (needs adj)\<^sup>+"
    proof
      assume "(i, i) \<in> (needs adj)\<^sup>+"
      then obtain d where d: "(i, d) \<in> needs adj" "(d, i) \<in> (needs adj)\<^sup>*" by (meson tranclD)
      then have "d \<in> done_with ?w" using w(3) by (auto simp: needs_def)
      then have "i \<in> done_with ?w" using settled_reach [OF w(4) _ d(2)] by simp
      then show False using w(1) not_both by blast
    qed
    then have "settled adj (fmupd i 2 ?w)" using w(3,4) by (auto simp: settled_def)
    then show ?thesis using eq nf w i by (auto simp: Let_def)
  qed
next
  case (2 adj v)
  then show ?case by simp
next
  case (3 adj d ds v)
  obtain f w where fw: "dfs adj d v = (f, w)" by fastforce
  have f: "\<not> f" using 3(3) fw by (auto split: if_splits)
  have w: "onPath w = onPath v" "done_with v \<subseteq> done_with w" "d \<in> done_with w" "settled adj w"
    using 3(1) 3(4) fw f by (auto simp: Let_def)
  have "\<not> fst (dfsDeps adj ds w)" using 3(3) fw f by simp
  from 3(2) [OF fw [symmetric] f this w(4)] show ?case using w fw f by (auto simp: Let_def)
qed

lemma dfs_found:
  "fst (dfs adj i v) \<Longrightarrow> settled adj v \<Longrightarrow> \<forall>g \<in> onPath v. (g, i) \<in> (needs adj)\<^sup>+ \<Longrightarrow> \<exists>x. (x, x) \<in> (needs adj)\<^sup>+"
  "fst (dfsDeps adj ds v) \<Longrightarrow> settled adj v \<Longrightarrow> \<forall>g \<in> onPath v. \<forall>d \<in> set ds. (g, d) \<in> (needs adj)\<^sup>+ \<Longrightarrow>
   \<exists>x. (x, x) \<in> (needs adj)\<^sup>+"
proof (induction adj i v and adj ds v rule: dfs_dfsDeps.induct)
  case (1 adj i v)
  show ?case
  proof (cases "map_count v i = 1 \<or> map_count v i = 2")
    case True
    then have "i \<in> onPath v" using 1(2) by (auto simp: dfs.simps [of adj i v] onPath_def)
    then show ?thesis using 1(4) by blast
  next
    case False
    then have i: "i \<notin> done_with v" by (auto simp: done_with_def)
    have fd: "fst (dfsDeps adj (map_list adj i) (fmupd i 1 v))"
      using 1(2) False by (auto simp: dfs.simps [of adj i v] split: prod.splits if_splits)
    have s: "settled adj (fmupd i 1 v)" using 1(3) i by (auto simp: settled_def)
    have "(g, d) \<in> (needs adj)\<^sup>+" if "g \<in> onPath (fmupd i 1 v)" "d \<in> set (map_list adj i)" for g d
    proof -
      have e: "(i, d) \<in> needs adj" using that(2) by (simp add: needs_def)
      show ?thesis
      proof (cases "g = i")
        case True
        then show ?thesis using e by auto
      next
        case False
        then have "(g, i) \<in> (needs adj)\<^sup>+" using that(1) 1(4) by auto
        then show ?thesis using e by (rule trancl_into_trancl)
      qed
    qed
    then show ?thesis using 1(1) [OF _ _ fd s] False by blast
  qed
next
  case (2 adj v)
  then show ?case by simp
next
  case (3 adj d ds v)
  obtain f w where fw: "dfs adj d v = (f, w)" by fastforce
  show ?case
  proof (cases f)
    case True
    then show ?thesis using 3(1,4,5) fw by auto
  next
    case False
    then have w: "onPath w = onPath v" "settled adj w" using dfs_clear(1) [of adj d v] 3(4) fw by (auto simp: Let_def)
    have "fst (dfsDeps adj ds w)" using 3(3) fw False by simp
    then show ?thesis using 3(2) [OF fw [symmetric] False _ w(2)] 3(5) w(1) by auto
  qed
qed

lemma anyCycle_correct:
  "settled adj v \<Longrightarrow> onPath v = {} \<Longrightarrow> fset (fmdom adj) \<subseteq> set is \<union> done_with v \<Longrightarrow>
   anyCycle adj is v \<longleftrightarrow> (\<exists>x. (x, x) \<in> (needs adj)\<^sup>+)"
proof (induction "is" arbitrary: v)
  case Nil
  have "x \<in> done_with v" if "(x, x) \<in> (needs adj)\<^sup>+" for x
  proof -
    obtain d where "(x, d) \<in> needs adj" using \<open>(x, x) \<in> (needs adj)\<^sup>+\<close> by (meson tranclD)
    then have "x \<in> fset (fmdom adj)" by (cases "fmlookup adj x") (auto simp: needs_def map_list_def fmdom_iff_lookup)
    then show ?thesis using Nil(3) by auto
  qed
  then show ?case using Nil(1) by (auto simp: settled_def)
next
  case (Cons i "is")
  obtain f w where fw: "dfs adj i v = (f, w)" by fastforce
  show ?case
  proof (cases f)
    case True
    then show ?thesis using dfs_found(1) [of adj i v] Cons.prems fw by auto
  next
    case False
    then have w: "onPath w = {}" "done_with v \<subseteq> done_with w" "i \<in> done_with w" "settled adj w"
      using dfs_clear(1) [of adj i v] Cons.prems fw by (auto simp: Let_def)
    then show ?thesis using Cons.IH [OF w(4,1)] Cons.prems(3) fw False by auto
  qed
qed

text \<open>The dependencies of the steps of a definition, by id; of steps that share an id the last counts.\<close>

definition stepDeps :: "step list \<Rightarrow> string \<Rightarrow> string list" where
  "stepDeps steps i = (case map_of (rev (map (\<lambda>s. (s_StepID s, s_DependsOn s)) steps)) i of None \<Rightarrow> [] | Some ds \<Rightarrow> ds)"

lemma adjacency_lookup: "fmlookup (adjacency steps) i = map_of (rev (map (\<lambda>s. (s_StepID s, s_DependsOn s)) steps)) i"
  unfolding adjacency_def by (induction steps rule: rev_induct) auto

lemma adjacency_list: "map_list (adjacency steps) i = stepDeps steps i"
  by (simp add: map_list_def stepDeps_def adjacency_lookup)

lemma stepDeps_step:
  assumes "distinct (map s_StepID steps)" "s \<in> set steps"
  shows "stepDeps steps (s_StepID s) = s_DependsOn s"
proof -
  have "distinct (map fst (rev (map (\<lambda>s. (s_StepID s, s_DependsOn s)) steps)))"
    using assms(1) by (simp add: comp_def rev_map [symmetric])
  then have "map_of (rev (map (\<lambda>s. (s_StepID s, s_DependsOn s)) steps)) (s_StepID s) = Some (s_DependsOn s)"
    using assms(2) by (intro map_of_is_SomeI) auto
  then show ?thesis by (simp add: stepDeps_def)
qed

theorem hasCycle_correct: "hasCycle steps \<longleftrightarrow> \<not> acyclic (dep_edges (map s_StepID steps) (stepDeps steps))"
proof -
  have "stepDeps steps i = []" if "i \<notin> set (map s_StepID steps)" for i
  proof -
    have "map_of (rev (map (\<lambda>s. (s_StepID s, s_DependsOn s)) steps)) i = None"
      using that by (auto simp: map_of_eq_None_iff)
    then show ?thesis by (simp add: stepDeps_def)
  qed
  then have n: "needs (adjacency steps) = (dep_edges (map s_StepID steps) (stepDeps steps))\<inverse>"
    by (auto simp: needs_def dep_edges_def adjacency_list) (metis empty_iff list.set(1))+
  have "settled (adjacency steps) fmempty" by (simp add: settled_def)
  then have "hasCycle steps \<longleftrightarrow> (\<exists>x. (x, x) \<in> (needs (adjacency steps))\<^sup>+)"
    unfolding hasCycle_def Let_def by (rule anyCycle_correct) (auto simp: mem_sorted_keys)
  then show ?thesis unfolding n by (auto simp: acyclic_def trancl_converse)
qed

section \<open>The definitions that pass\<close>

definition step_ok :: "step \<Rightarrow> bool" where
  "step_ok s \<longleftrightarrow> TrimSpace (s_StepID s) \<noteq> []
     \<and> s_Kind s \<in> {StepKindRunner, StepKindTool, StepKindMCP, StepKindSkill, StepKindA2A}
     \<and> (s_Kind s = StepKindA2A \<longrightarrow> TrimSpace (s_AgentID s) \<noteq> [] \<and> TrimSpace (s_PeerID s) \<noteq> [])
     \<and> (s_CollabPrimitive s = [] \<or> ParsePrimitive (s_CollabPrimitive s) \<noteq> None)
     \<and> s_Condition s \<in> {ConditionAlways, ConditionOnSuccess, ConditionOnFailure}
     \<and> 0 \<le> rt_MaxAttempts (s_Retry s) \<and> 0 \<le> rt_Backoff (s_Retry s) \<and> 0 \<le> s_Timeout s"

definition workflow_ok :: "workflow_definition \<Rightarrow> bool" where
  "workflow_ok d \<longleftrightarrow>
     (let steps = wd_Steps d; ids = map s_StepID steps in
      TrimSpace (wd_WorkflowID d) \<noteq> [] \<and> steps \<noteq> [] \<and> list_all step_ok steps \<and> distinct ids
      \<and> list_all (\<lambda>s. set (s_DependsOn s) \<subseteq> set ids) steps \<and> acyclic (dep_edges ids (stepDeps steps)))"

lemma if_Nil: "(if b then [] else [x]) = [] \<longleftrightarrow> b" "(if b then [x] else []) = [] \<longleftrightarrow> \<not> b"
  "(if b then xs @ ys else []) = [] \<longleftrightarrow> \<not> b \<or> xs = [] \<and> ys = []"
  by auto

lemma stepViolations_Nil: "TrimSpace (s_StepID s) \<noteq> [] \<Longrightarrow> stepViolations s = [] \<longleftrightarrow> step_ok s"
  unfolding stepViolations_def step_ok_def append_is_Nil_conv if_Nil not_less [symmetric] by argo

lemma checkSteps_Nil:
  "fst (checkSteps ss m) = [] \<longleftrightarrow>
     list_all step_ok ss \<and> distinct (map s_StepID ss) \<and> (\<forall>s \<in> set ss. fmlookup m (s_StepID s) = None)"
proof (induction ss arbitrary: m)
  case (Cons s ss)
  show ?case
  proof (cases "TrimSpace (s_StepID s) = [] \<or> fmlookup m (s_StepID s) \<noteq> None")
    case True
    then have "fst (checkSteps (s # ss) m) \<noteq> []" by (auto simp: case_prod_beta)
    moreover have "\<not> (list_all step_ok (s # ss) \<and> (\<forall>t \<in> set (s # ss). fmlookup m (s_StepID t) = None))"
      using True by (auto simp: step_ok_def)
    ultimately show ?thesis by blast
  next
    case False
    then have eq: "fst (checkSteps (s # ss) m) = stepViolations s @ fst (checkSteps ss (fmupd (s_StepID s) s m))"
      by (simp add: case_prod_beta)
    have "(\<forall>t \<in> set ss. fmlookup (fmupd (s_StepID s) s m) (s_StepID t) = None) \<longleftrightarrow>
        s_StepID s \<notin> s_StepID ` set ss \<and> (\<forall>t \<in> set ss. fmlookup m (s_StepID t) = None)"
      by (auto split: if_splits)
    then show ?thesis using False Cons.IH [of "fmupd (s_StepID s) s m"] stepViolations_Nil [of s] unfolding eq by auto
  qed
qed simp

lemma checkSteps_keys:
  "fst (checkSteps ss m) = [] \<Longrightarrow> fmlookup (snd (checkSteps ss m)) k = None \<longleftrightarrow> fmlookup m k = None \<and> k \<notin> s_StepID ` set ss"
proof (induction ss arbitrary: m)
  case (Cons s ss)
  then have s: "TrimSpace (s_StepID s) \<noteq> []" "fmlookup m (s_StepID s) = None" by (auto simp: case_prod_beta split: if_splits)
  then have "snd (checkSteps (s # ss) m) = snd (checkSteps ss (fmupd (s_StepID s) s m))" "fst (checkSteps ss (fmupd (s_StepID s) s m)) = []"
    using Cons.prems by (auto simp: case_prod_beta)
  then show ?case using Cons.IH [of "fmupd (s_StepID s) s m"] by auto
qed simp

lemma depViolations_Nil:
  assumes "TrimSpace (s_StepID s) \<noteq> []"
  shows "depViolations m s = [] \<longleftrightarrow> (\<forall>d \<in> set (s_DependsOn s). d \<noteq> s_StepID s \<and> fmlookup m d \<noteq> None)"
proof -
  have c: "concat (map f ds) = [] \<longleftrightarrow> (\<forall>d \<in> set ds. f d = [])" for f :: "string \<Rightarrow> validation_error list" and ds by simp
  show ?thesis unfolding depViolations_def if_not_P [OF assms] c by (intro ball_cong refl) simp
qed

theorem ValidateDefinition_Nil: "ValidateDefinition d = [] \<longleftrightarrow> workflow_ok d"
proof -
  let ?ss = "wd_Steps d" and ?ids = "map s_StepID (wd_Steps d)"
  let ?own = "list_all step_ok ?ss \<and> distinct ?ids"
  have own: "fst (checkSteps ?ss fmempty) = [] \<longleftrightarrow> ?own" by (simp add: checkSteps_Nil)
  have deps: "concat (map (depViolations (snd (checkSteps ?ss fmempty))) ?ss) = [] \<longleftrightarrow>
      list_all (\<lambda>s. set (s_DependsOn s) \<subseteq> set ?ids - {s_StepID s}) ?ss" if o: ?own
  proof -
    have "depViolations (snd (checkSteps ?ss fmempty)) s = [] \<longleftrightarrow> set (s_DependsOn s) \<subseteq> set ?ids - {s_StepID s}" if "s \<in> set ?ss" for s
      using that o own checkSteps_keys [of ?ss fmempty] by (subst depViolations_Nil) (auto simp: list_all_iff step_ok_def)
    then show ?thesis by (auto simp: list_all_iff)
  qed
  have self: "list_all (\<lambda>s. set (s_DependsOn s) \<subseteq> set ?ids - {s_StepID s}) ?ss \<longleftrightarrow> list_all (\<lambda>s. set (s_DependsOn s) \<subseteq> set ?ids) ?ss"
    if "?own" "acyclic (dep_edges ?ids (stepDeps ?ss))"
  proof -
    have "s_StepID s \<notin> set (s_DependsOn s)" if "s \<in> set ?ss" for s
    proof
      assume "s_StepID s \<in> set (s_DependsOn s)"
      then have "(s_StepID s, s_StepID s) \<in> dep_edges ?ids (stepDeps ?ss)"
        using \<open>s \<in> set ?ss\<close> stepDeps_step [of ?ss s] \<open>?own\<close> by (auto simp: dep_edges_def)
      then show False using \<open>acyclic (dep_edges ?ids (stepDeps ?ss))\<close> by (auto simp: acyclic_def)
    qed
    then show ?thesis by (auto simp: list_all_iff)
  qed
  show ?thesis
  proof (cases "TrimSpace (wd_WorkflowID d) \<noteq> [] \<and> ?ss \<noteq> [] \<and> ?own")
    case True
    then have o: "list_all step_ok ?ss" "distinct ?ids" by auto
    have "ValidateDefinition d = [] \<longleftrightarrow>
        concat (map (depViolations (snd (checkSteps ?ss fmempty))) ?ss) = [] \<and> \<not> hasCycle ?ss"
      using True own unfolding ValidateDefinition_def Let_def by (simp add: case_prod_beta)
    then show ?thesis
      unfolding workflow_ok_def Let_def hasCycle_correct using True deps [OF conjI [OF o]] self [OF conjI [OF o]] by blast
  next
    case False
    then have "ValidateDefinition d \<noteq> []"
      using own unfolding ValidateDefinition_def Let_def by (auto simp: case_prod_beta)
    then show ?thesis using False unfolding workflow_ok_def Let_def by blast
  qed
qed

end
