(* ===== verification/Workflow_Compose.thy ===== *)
theory Workflow_Compose
  imports Workflow_Valid
begin

text \<open>
  Composed workflows (\<open>src/orchestration/workflow/composability.go\<close>): the expansion of the subgraph
  instances of a definition into flat steps, the overrides an instance makes, the condition templates
  and their variables.

  The expansion can fail with validation errors, and it can index an empty slice, where the code
  panics: both are values of the failure type. The summary counters are threaded through as the code
  threads its pointer; a failed compilation drops them, as every caller does.
\<close>

definition maxSubgraphDepth :: nat where "maxSubgraphDepth = 3"

record graph_summary =
  gs_SubgraphExpansionTotal :: int
  gs_ConditionTemplateTotal :: int

datatype compose_failure = Violations "validation_error list" | IndexPanic

definition composeErr :: "wf_error_code \<Rightarrow> string \<Rightarrow> string \<Rightarrow> (compose_failure, 'a) result" where
  "composeErr code stepID field = Err (Violations [wfErr code stepID field])"

definition stepUsesGraphComposability :: "step \<Rightarrow> bool" where
  "stepUsesGraphComposability s \<longleftrightarrow>
     TrimSpace (s_UseSubgraph s) \<noteq> [] \<or> TrimSpace (s_Alias s) \<noteq> [] \<or> TrimSpace (s_ConditionTemplate s) \<noteq> []
     \<or> s_TemplateVars s \<noteq> fmempty \<or> s_Overrides s \<noteq> fmempty"

definition hasGraphComposabilitySyntax :: "workflow_definition \<Rightarrow> bool" where
  "hasGraphComposabilitySyntax d \<longleftrightarrow>
     wd_Subgraphs d \<noteq> fmempty \<or> wd_ConditionTemplates d \<noteq> fmempty \<or> list_ex stepUsesGraphComposability (wd_Steps d)"

section \<open>Lists of texts\<close>

definition containsString :: "string list \<Rightarrow> string \<Rightarrow> bool" where
  "containsString items key \<longleftrightarrow> list_ex (\<lambda>item. TrimSpace item = TrimSpace key) items"

definition appendUniqueStrings :: "string list \<Rightarrow> string list \<Rightarrow> string list" where
  "appendUniqueStrings base extra = keepUnique (keepUnique [] base) extra"

definition resolveSubgraphAlias :: "step \<Rightarrow> string" where
  "resolveSubgraphAlias s =
     (if TrimSpace (s_Alias s) \<noteq> [] then TrimSpace (s_Alias s)
      else if TrimSpace (s_StepID s) \<noteq> [] then TrimSpace (s_StepID s)
      else TrimSpace (s_UseSubgraph s))"

section \<open>Condition templates\<close>

text \<open>
  The pattern of a variable: two opening braces, white space, a name, white space, two closing braces.
  Names, white space and braces have no byte in common, so there is at most one match at a place.
\<close>

definition nameByte :: "char \<Rightarrow> bool" where
  "nameByte c \<longleftrightarrow>
     (let n = of_char c :: nat
      in 97 \<le> n \<and> n \<le> 122 \<or> 65 \<le> n \<and> n \<le> 90 \<or> 48 \<le> n \<and> n \<le> 57 \<or> c = CHR ''_'' \<or> c = CHR ''.'' \<or> c = CHR ''-'')"

definition patternSpace :: "char \<Rightarrow> bool" where
  "patternSpace c \<longleftrightarrow> c \<in> {CHR 0x09, CHR 0x0A, CHR 0x0C, CHR 0x0D, CHR 0x20}"

definition matchVariable :: "string \<Rightarrow> (string \<times> string) option" where
  "matchVariable s =
     (if take 2 s = ''{{'' then
        let r = dropWhile patternSpace (drop 2 s); name = takeWhile nameByte r;
            t = dropWhile patternSpace (dropWhile nameByte r)
        in if name \<noteq> [] \<and> take 2 t = ''}}'' then Some (name, drop 2 t) else None
      else None)"

lemma matchVariable_shorter: "matchVariable s = Some (name, rest) \<Longrightarrow> length rest < length s"
proof -
  assume m: "matchVariable s = Some (name, rest)"
  let ?r = "dropWhile patternSpace (drop 2 s)"
  have s: "2 \<le> length s" and rest: "rest = drop 2 (dropWhile patternSpace (dropWhile nameByte ?r))"
    using m by (auto simp: matchVariable_def Let_def split: if_splits dest: arg_cong [of _ _ length])
  have "length rest \<le> length (dropWhile nameByte ?r)"
    using length_dropWhile_le [of patternSpace "dropWhile nameByte ?r"] by (simp add: rest)
  also have "\<dots> \<le> length ?r" by (rule length_dropWhile_le)
  also have "\<dots> \<le> length (drop 2 s)" by (rule length_dropWhile_le)
  finally show ?thesis using s by simp
qed

text \<open>A template as the bytes outside its variables and the variables, each with its text.\<close>

function templateParts :: "string \<Rightarrow> (char + string \<times> string) list" where
  "templateParts s =
     (case s of
        [] \<Rightarrow> []
      | c # cs \<Rightarrow>
          (case matchVariable s of
             None \<Rightarrow> Inl c # templateParts cs
           | Some (name, rest) \<Rightarrow> Inr (name, take (length s - length rest) s) # templateParts rest))"
  by pat_completeness auto
termination by (relation "measure length") (auto dest: matchVariable_shorter)

declare templateParts.simps [simp del]

definition resolveConditionTemplate :: "string \<Rightarrow> (string, string) gomap \<Rightarrow> string option" where
  "resolveConditionTemplate template vars =
     (let parts = templateParts template;
          names = List.map_filter (\<lambda>p. case p of Inl c \<Rightarrow> None | Inr (name, tok) \<Rightarrow> Some (TrimSpace name)) parts
      in if names = [] then Some (TrimSpace template)
         else if list_ex (\<lambda>name. fmlookup vars name = None) names then None
         else Some (TrimSpace (concat (map (\<lambda>p. case p of
                Inl c \<Rightarrow> [c]
              | Inr (name, tok) \<Rightarrow> (case fmlookup vars (TrimSpace name) of None \<Rightarrow> tok | Some v \<Rightarrow> TrimSpace v)) parts))))"

definition applyConditionTemplate ::
  "workflow_definition \<Rightarrow> step \<Rightarrow> graph_summary \<Rightarrow> (compose_failure, step \<times> graph_summary) result" where
  "applyConditionTemplate d s summary =
     (let stepID = TrimSpace (s_StepID s); templateName = TrimSpace (s_ConditionTemplate s) in
      if templateName = [] then
        (if s_TemplateVars s \<noteq> fmempty then composeErr ErrCodeConditionTemplateScope stepID ''steps.template_vars''
         else Ok (s, summary))
      else
        (case fmlookup (wd_ConditionTemplates d) templateName of
           None \<Rightarrow> composeErr ErrCodeConditionTemplateNotFound stepID ''steps.condition_template''
         | Some templateValue \<Rightarrow>
             (case resolveConditionTemplate templateValue (s_TemplateVars s) of
                None \<Rightarrow> composeErr ErrCodeConditionTemplateVarMissing stepID ''steps.template_vars''
              | Some resolved \<Rightarrow>
                  let condition = normalizeCondition resolved in
                  if condition \<in> {ConditionAlways, ConditionOnSuccess, ConditionOnFailure} then
                    Ok (s\<lparr>s_Condition := condition\<rparr>,
                        summary\<lparr>gs_ConditionTemplateTotal := gs_ConditionTemplateTotal summary + 1\<rparr>)
                  else composeErr ErrCodeConditionTemplateScope stepID ''steps.condition_template'')))"

section \<open>One step, one instance\<close>

definition underPrefix :: "string \<Rightarrow> string \<Rightarrow> string" where
  "underPrefix scope rawID = (if scope = [] then rawID else scope @ ''/'' @ rawID)"

definition compileConcreteStep ::
  "workflow_definition \<Rightarrow> step \<Rightarrow> string \<Rightarrow> graph_summary \<Rightarrow> (compose_failure, step \<times> graph_summary) result" where
  "compileConcreteStep d s scope summary =
     (let rawID = TrimSpace (s_StepID s); fullID = underPrefix scope rawID; taskID = TrimSpace (s_TaskID s);
          s' = s\<lparr>s_StepID := fullID, s_TaskID := (if taskID = [] \<or> taskID = rawID then fullID else taskID), s_DependsOn := []\<rparr>
      in case applyConditionTemplate d s' summary of
           Inl e \<Rightarrow> Err e
         | Inr (t, summary') \<Rightarrow>
             Ok (t\<lparr>s_UseSubgraph := [], s_Alias := [], s_ConditionTemplate := [], s_TemplateVars := fmempty,
                   s_Overrides := fmempty\<rparr>, summary'))"

definition stepIndex :: "step list \<Rightarrow> string \<Rightarrow> nat option" where
  "stepIndex steps stepID = map_of (rev (map (\<lambda>(i, s). (TrimSpace (s_StepID s), i)) (enumerate 0 steps))) stepID"

fun overrideLoop ::
  "step \<Rightarrow> (string \<Rightarrow> nat option) \<Rightarrow> (string, step_override) gomap \<Rightarrow> string list \<Rightarrow> step list \<Rightarrow> (compose_failure, step list) result" where
  "overrideLoop instanc index overrides [] out = Ok out"
| "overrideLoop instanc index overrides (target # targets) out =
     (case fmlookup overrides target of
        None \<Rightarrow> overrideLoop instanc index overrides targets out
      | Some override \<Rightarrow>
          (case index (TrimSpace target) of
             None \<Rightarrow> composeErr ErrCodeSubgraphOverrideStepMissing (TrimSpace (s_StepID instanc)) ''steps.overrides''
           | Some i \<Rightarrow>
               if (case so_Kind override of None \<Rightarrow> False | Some k \<Rightarrow> TrimSpace k \<noteq> []) then
                 composeErr ErrCodeSubgraphOverrideForbidden (TrimSpace (s_StepID instanc)) ''steps.overrides.kind''
               else
                 let s0 = out ! i;
                     s1 = (case so_Retry override of None \<Rightarrow> s0 | Some r \<Rightarrow> s0\<lparr>s_Retry := r\<rparr>);
                     s2 = (case so_Timeout override of None \<Rightarrow> s1 | Some t \<Rightarrow> s1\<lparr>s_Timeout := t\<rparr>)
                 in overrideLoop instanc index overrides targets (out[i := s2])))"

definition applySubgraphOverrides :: "map_order \<Rightarrow> step \<Rightarrow> step list \<Rightarrow> (compose_failure, step list) result" where
  "applySubgraphOverrides ord instanc steps =
     overrideLoop instanc (stepIndex steps) (s_Overrides instanc) (ord (sorted_keys (s_Overrides instanc))) steps"

section \<open>Entry and exit steps\<close>

definition degreeKeys :: "step list \<Rightarrow> string list" where
  "degreeKeys steps = sort (remdups (filter (\<lambda>i. i \<noteq> []) (map (\<lambda>s. TrimSpace (s_StepID s)) steps)))"

text \<open>The edges inside the steps, one pair of dependent and dependency for each entry of a dependency list.\<close>

definition innerEdges :: "step list \<Rightarrow> (string \<times> string) list" where
  "innerEdges steps =
     concat (map (\<lambda>s. let i = TrimSpace (s_StepID s) in
       if i = [] then []
       else map (\<lambda>d. (i, TrimSpace d))
              (filter (\<lambda>d. TrimSpace d \<noteq> [] \<and> TrimSpace d \<in> set (degreeKeys steps)) (s_DependsOn s))) steps)"

definition inferEntryAndExit :: "step list \<Rightarrow> string list \<times> string list" where
  "inferEntryAndExit steps =
     (let inDegree = (\<lambda>i. length (filter (\<lambda>(a, b). a = i) (innerEdges steps)));
          outDegree = (\<lambda>i. length (filter (\<lambda>(a, b). b = i) (innerEdges steps)))
      in (filter (\<lambda>i. inDegree i = 0) (degreeKeys steps), filter (\<lambda>i. outDegree i = 0) (degreeKeys steps)))"

section \<open>Scopes\<close>

record compiled_node =
  cn_rawID :: string
  cn_steps :: "step list"
  cn_entryIDs :: "string list"
  cn_exitIDs :: "string list"
  cn_rawDeps :: "string list"

text \<open>The dependencies of a node, by the exits of the nodes they name.\<close>

fun resolveDeps :: "(string \<Rightarrow> string list option) \<Rightarrow> string \<Rightarrow> string list \<Rightarrow> string list \<Rightarrow> (compose_failure, string list) result" where
  "resolveDeps exits rawID [] resolved = Ok resolved"
| "resolveDeps exits rawID (dep # deps) resolved =
     (let depID = TrimSpace dep in
      if depID = [] then resolveDeps exits rawID deps resolved
      else
        (case exits depID of
           None \<Rightarrow> composeErr ErrCodeMissingDependency rawID ''steps.depends_on''
         | Some xs \<Rightarrow> resolveDeps exits rawID deps (appendUniqueStrings resolved xs)))"

definition addDeps :: "string list \<Rightarrow> step \<Rightarrow> step" where
  "addDeps resolved s = s\<lparr>s_DependsOn := appendUniqueStrings (s_DependsOn s) resolved\<rparr>"

text \<open>A slice element that may not be there.\<close>

definition indexed :: "'a list \<Rightarrow> nat \<Rightarrow> (compose_failure, 'a) result" where
  "indexed xs i = (if i < length xs then Ok (xs ! i) else Err IndexPanic)"

text \<open>
  The test for a node that is a single step compares the first entry and then, where that one is the
  step, the first exit.
\<close>

definition singleStep :: "compiled_node \<Rightarrow> (compose_failure, bool) result" where
  "singleStep n =
     (case cn_steps n of
        [s] \<Rightarrow>
          (case indexed (cn_entryIDs n) 0 of
             Inl e \<Rightarrow> Err e
           | Inr entry \<Rightarrow>
               if entry \<noteq> s_StepID s then Ok False
               else (case indexed (cn_exitIDs n) 0 of Inl e \<Rightarrow> Err e | Inr exit \<Rightarrow> Ok (exit = s_StepID s)))
      | _ \<Rightarrow> Ok False)"

definition attachDeps :: "(string \<Rightarrow> string list option) \<Rightarrow> compiled_node \<Rightarrow> (compose_failure, step list) result" where
  "attachDeps exits n =
     (case resolveDeps exits (cn_rawID n) (cn_rawDeps n) [] of
        Inl e \<Rightarrow> Err e
      | Inr resolved \<Rightarrow>
          (case singleStep n of
             Inl e \<Rightarrow> Err e
           | Inr single \<Rightarrow>
               if single then Ok (map (addDeps resolved) (cn_steps n))
               else Ok (map (\<lambda>s. if s_StepID s \<in> set (cn_entryIDs n) then addDeps resolved s else s) (cn_steps n))))"

fun attachAll :: "(string \<Rightarrow> string list option) \<Rightarrow> compiled_node list \<Rightarrow> (compose_failure, step list list) result" where
  "attachAll exits [] = Ok []"
| "attachAll exits (n # ns) =
     (case attachDeps exits n of
        Inl e \<Rightarrow> Err e
      | Inr ss \<Rightarrow> (case attachAll exits ns of Inl e \<Rightarrow> Err e | Inr sss \<Rightarrow> Ok (ss # sss)))"

fun collectSteps :: "step list \<Rightarrow> string list \<Rightarrow> (compose_failure, unit) result" where
  "collectSteps [] seen = Ok ()"
| "collectSteps (s # ss) seen =
     (if s_StepID s \<in> set seen then composeErr ErrCodeExpandedStepIDCollision (s_StepID s) ''steps.step_id''
      else collectSteps ss (s_StepID s # seen))"

text \<open>What follows once the nodes of a scope are there.\<close>

definition finishScope :: "compiled_node list \<Rightarrow> (compose_failure, step list) result" where
  "finishScope nodes =
     (case attachAll (\<lambda>i. map_option cn_exitIDs (find (\<lambda>n. cn_rawID n = i) nodes)) nodes of
        Inl e \<Rightarrow> Err e
      | Inr sss \<Rightarrow> (case collectSteps (concat sss) [] of Inl e \<Rightarrow> Err e | Inr u \<Rightarrow> Ok (concat sss)))"

definition concreteNode :: "string \<Rightarrow> step \<Rightarrow> step \<Rightarrow> compiled_node" where
  "concreteNode rawID raw s =
     \<lparr>cn_rawID = rawID, cn_steps = [s], cn_entryIDs = [s_StepID s], cn_exitIDs = [s_StepID s], cn_rawDeps = s_DependsOn raw\<rparr>"

definition instanceNode :: "string \<Rightarrow> step \<Rightarrow> step list \<Rightarrow> compiled_node" where
  "instanceNode rawID raw childSteps =
     (case inferEntryAndExit childSteps of
        (entryIDs, exitIDs) \<Rightarrow>
          \<lparr>cn_rawID = rawID, cn_steps = childSteps, cn_entryIDs = entryIDs, cn_exitIDs = exitIDs, cn_rawDeps = s_DependsOn raw\<rparr>)"

function compileScope ::
  "map_order \<Rightarrow> workflow_definition \<Rightarrow> step list \<Rightarrow> string \<Rightarrow> nat \<Rightarrow> string list \<Rightarrow> graph_summary \<Rightarrow>
   (compose_failure, step list \<times> graph_summary) result"
  and scopeNodes ::
  "map_order \<Rightarrow> workflow_definition \<Rightarrow> step list \<Rightarrow> string \<Rightarrow> nat \<Rightarrow> string list \<Rightarrow> string list \<Rightarrow> string list \<Rightarrow>
   compiled_node list \<Rightarrow> graph_summary \<Rightarrow> (compose_failure, compiled_node list \<times> graph_summary) result"
where
  "compileScope ord d rawSteps scope depth stack summary =
     (case scopeNodes ord d rawSteps scope depth stack [] [] [] summary of
        Inl e \<Rightarrow> Err e
      | Inr (nodes, summary') \<Rightarrow>
          (case finishScope nodes of Inl e \<Rightarrow> Err e | Inr out \<Rightarrow> Ok (out, summary')))"
| "scopeNodes ord d [] scope depth stack rawIDSeen aliasSeen nodes summary = Ok (nodes, summary)"
| "scopeNodes ord d (s # rawSteps) scope depth stack rawIDSeen aliasSeen nodes summary =
     (let rawID = TrimSpace (s_StepID s); refName = TrimSpace (s_UseSubgraph s) in
      if rawID = [] then composeErr ErrCodeStepIDRequired [] ''steps.step_id''
      else if rawID \<in> set rawIDSeen then composeErr ErrCodeDuplicateStepID rawID ''steps.step_id''
      else if refName = [] then
        (case compileConcreteStep d s scope summary of
           Inl e \<Rightarrow> Err e
         | Inr (expandedStep, summary') \<Rightarrow>
             scopeNodes ord d rawSteps scope depth stack (rawID # rawIDSeen) aliasSeen
               (nodes @ [concreteNode rawID s expandedStep]) summary')
      else
        (case fmlookup (wd_Subgraphs d) refName of
           None \<Rightarrow> composeErr ErrCodeSubgraphNotFound rawID ''steps.use_subgraph''
         | Some sub \<Rightarrow>
             if maxSubgraphDepth < depth + 1 then composeErr ErrCodeSubgraphDepthExceeded rawID ''steps.use_subgraph''
             else if containsString stack refName then composeErr ErrCodeSubgraphCycle rawID ''steps.use_subgraph''
             else
               let alias = resolveSubgraphAlias s in
               if CHR ''/'' \<in> set alias then composeErr ErrCodeSubgraphAliasCollision rawID ''steps.alias''
               else if alias \<in> set aliasSeen then composeErr ErrCodeSubgraphAliasCollision rawID ''steps.alias''
               else
                 (case applySubgraphOverrides ord s (sg_Steps sub) of
                    Inl e \<Rightarrow> Err e
                  | Inr subgraphSteps \<Rightarrow>
                      (case compileScope ord d subgraphSteps (underPrefix scope alias) (depth + 1) (stack @ [refName]) summary of
                         Inl e \<Rightarrow> Err e
                       | Inr (childSteps, summary') \<Rightarrow>
                           scopeNodes ord d rawSteps scope depth stack (rawID # rawIDSeen) (alias # aliasSeen)
                             (nodes @ [instanceNode rawID s childSteps])
                             (summary'\<lparr>gs_SubgraphExpansionTotal :=
                                gs_SubgraphExpansionTotal summary' + int (length childSteps)\<rparr>)))))"
  by pat_completeness auto
termination
  by (relation "inv_image (less_than <*lex*> less_than)
        (\<lambda>x. case x of
           Inl (ord, d, rawSteps, scope, depth, stack, summary) \<Rightarrow> (Suc maxSubgraphDepth - depth, Suc (length rawSteps))
         | Inr (ord, d, rawSteps, scope, depth, stack, rawIDSeen, aliasSeen, nodes, summary) \<Rightarrow>
             (Suc maxSubgraphDepth - depth, length rawSteps))") (auto simp: maxSubgraphDepth_def)

declare compileScope.simps [simp del] scopeNodes.simps(2) [simp del]

fun ensureExpandedStepIDUniqueness :: "step list \<Rightarrow> string list \<Rightarrow> (compose_failure, unit) result" where
  "ensureExpandedStepIDUniqueness [] seen = Ok ()"
| "ensureExpandedStepIDUniqueness (s # ss) seen =
     (let i = TrimSpace (s_StepID s) in
      if i = [] then ensureExpandedStepIDUniqueness ss seen
      else if i \<in> set seen then composeErr ErrCodeExpandedStepIDCollision i ''steps.step_id''
      else ensureExpandedStepIDUniqueness ss (i # seen))"

definition compileDefinition ::
  "map_order \<Rightarrow> bool \<Rightarrow> workflow_definition \<Rightarrow> (compose_failure, workflow_definition \<times> graph_summary) result" where
  "compileDefinition ord graphComposabilityEnabled d =
     (let summary = \<lparr>gs_SubgraphExpansionTotal = 0, gs_ConditionTemplateTotal = 0\<rparr> in
      if \<not> graphComposabilityEnabled then
        (if hasGraphComposabilitySyntax d then
           composeErr ErrCodeGraphComposabilityDisabled [] ''workflow.graph_composability.enabled''
         else Ok (d, summary))
      else if \<not> hasGraphComposabilitySyntax d then Ok (d, summary)
      else
        (case compileScope ord d (wd_Steps d) [] 0 [] summary of
           Inl e \<Rightarrow> Err e
         | Inr (expandedSteps, summary') \<Rightarrow>
             (case ensureExpandedStepIDUniqueness expandedSteps [] of
                Inl e \<Rightarrow> Err e
              | Inr u \<Rightarrow> Ok (d\<lparr>wd_Steps := expandedSteps, wd_Subgraphs := fmempty, wd_ConditionTemplates := fmempty\<rparr>, summary'))))"

end
