(* ===== verification/Workflow_Plan.thy ===== *)
theory Workflow_Plan
  imports Workflow_Compose
begin

text \<open>
  Planning (\<open>Plan\<close> in \<open>src/orchestration/workflow/engine.go\<close>) and the projection of a workflow to an
  execution graph (\<open>src/orchestration/workflow/graph_projection.go\<close>). \<open>Plan\<close> has its own loop over a
  queue of ready steps, which keeps the contract of the ready queue, so it lists the reference order.
  A definition that passes validation always has one: the error after the loop is never returned.
\<close>

section \<open>Plan\<close>

definition planInDegree :: "step list \<Rightarrow> (string, int) gomap" where
  "planInDegree steps =
     foldl (\<lambda>m s. foldl (\<lambda>m d. fmupd (s_StepID s) (map_count m (s_StepID s) + 1) m) m (s_DependsOn s))
       (foldl (\<lambda>m s. fmupd (s_StepID s) 0 m) fmempty steps) steps"

definition planEdges :: "step list \<Rightarrow> (string, string list) gomap" where
  "planEdges steps =
     foldl (\<lambda>m s. foldl (\<lambda>m d. fmupd d (map_list m d @ [s_StepID s]) m) m (s_DependsOn s)) fmempty steps"

fun planRelease :: "string list \<Rightarrow> string list \<Rightarrow> (string, int) gomap \<Rightarrow> string list \<times> (string, int) gomap" where
  "planRelease [] ready inDegree = (ready, inDegree)"
| "planRelease (to # next) ready inDegree =
     (let degree = map_count inDegree to - 1
      in planRelease next (if degree = 0 then ready @ [to] else ready) (fmupd to degree inDegree))"

text \<open>One round of the loop: the dependents of the listed step are released, the queue is sorted.\<close>

definition planStep :: "(string, string list) gomap \<Rightarrow> string \<Rightarrow> string list \<Rightarrow> (string, int) gomap \<Rightarrow> string list \<times> (string, int) gomap" where
  "planStep edges i ready inDegree =
     (case planRelease (sort (map_list edges i)) ready inDegree of (ready', inDegree') \<Rightarrow> (sort ready', inDegree'))"

lemma planRelease_releaseNodes:
  "snd (planRelease ds ready m) = snd (releaseNodes ds ready' m)"
  "mset ready = mset ready' \<Longrightarrow> mset (fst (planRelease ds ready m)) = mset (fst (releaseNodes ds ready' m))"
proof -
  show "snd (planRelease ds ready m) = snd (releaseNodes ds ready' m)"
    by (induction ds arbitrary: ready ready' m) (auto simp: Let_def)
  have ins: "mset (insertReady d r) = add_mset d (mset r)" for d r
  proof -
    have "mset (take k r) + mset (drop k r) = mset r" for k by (metis append_take_drop_id mset_append)
    then show ?thesis by (simp add: insertReady_def Let_def)
  qed
  show "mset ready = mset ready' \<Longrightarrow> mset (fst (planRelease ds ready m)) = mset (fst (releaseNodes ds ready' m))"
  proof (induction ds arbitrary: ready ready' m)
    case (Cons d ds)
    let ?hit = "map_count m d - 1 = 0"
    have "mset (if ?hit then ready @ [d] else ready) = mset (if ?hit then insertReady d ready' else ready')"
      using Cons.prems by (simp add: ins)
    from Cons.IH [OF this] show ?case by (simp only: planRelease.simps releaseNodes.simps Let_def)
  qed simp
qed

lemma planStep_measure:
  assumes "planStep edges i ready m = (ready', m')"
  shows "length ready' + open_count m' \<le> length ready + open_count m"
proof -
  obtain r n where rn: "planRelease (sort (map_list edges i)) ready m = (r, n)" by fastforce
  have "length r = length (fst (releaseNodes (sort (map_list edges i)) ready m))"
    using planRelease_releaseNodes(2) [OF refl, of "sort (map_list edges i)" ready m] rn by (metis fst_conv size_mset)
  moreover have "n = snd (releaseNodes (sort (map_list edges i)) ready m)"
    using planRelease_releaseNodes(1) [of "sort (map_list edges i)" ready m ready] rn by simp
  ultimately show ?thesis
    using releaseNodes_measure [of "sort (map_list edges i)" ready m] assms rn by (auto simp: planStep_def)
qed

function planLoop :: "(string, string list) gomap \<Rightarrow> string list \<Rightarrow> (string, int) gomap \<Rightarrow> string list" where
  "planLoop edges ready inDegree =
     (case ready of
        [] \<Rightarrow> []
      | i # rest \<Rightarrow> (case planStep edges i rest inDegree of (ready', inDegree') \<Rightarrow> i # planLoop edges ready' inDegree'))"
  by pat_completeness auto
termination
proof (relation "measure (\<lambda>(edges, ready, inDegree). length ready + open_count inDegree)", goal_cases)
  case (2 edges ready inDegree i rest ready' inDegree')
  then have "planStep edges i rest inDegree = (ready', inDegree')" by simp
  from planStep_measure [OF this] show ?case using 2(1) by simp
qed simp

declare planLoop.simps [simp del]

definition planOrder :: "step list \<Rightarrow> string list" where
  "planOrder steps =
     (let inDegree = planInDegree steps
      in planLoop (planEdges steps) (sort (filter (\<lambda>k. map_count inDegree k = 0) (sorted_keys inDegree))) inDegree)"

definition Plan :: "map_order \<Rightarrow> bool \<Rightarrow> workflow_definition \<Rightarrow> (compose_failure, string list) result" where
  "Plan ord enabled d =
     (case compileDefinition ord enabled (normalizeDefinition ord d) of
        Inl e \<Rightarrow> Err e
      | Inr (compiled, summary) \<Rightarrow>
          let errs = ValidateDefinition compiled; order = planOrder (wd_Steps compiled) in
          if errs \<noteq> [] then Err (Violations errs)
          else if length order \<noteq> length (wd_Steps compiled) then Err (Violations [wfErr ErrCodeDependencyCycle [] []])
          else Ok order)"

section \<open>The projection\<close>

datatype project_failure = ComposeFailed compose_failure | GraphFailed graph_error

definition stepNode :: "step \<Rightarrow> graph_node" where
  "stepNode s = \<lparr>gn_ID = s_StepID s, gn_DependsOn = s_DependsOn s\<rparr>"

definition ProjectExecutionGraph :: "map_order \<Rightarrow> bool \<Rightarrow> workflow_definition \<Rightarrow> (project_failure, compiled_graph) result" where
  "ProjectExecutionGraph ord enabled d =
     (case compileDefinition ord enabled (normalizeDefinition ord d) of
        Inl e \<Rightarrow> Err (ComposeFailed e)
      | Inr (compiled, summary) \<Rightarrow>
          let d' = normalizeDefinition ord compiled; violations = ValidateDefinition d' in
          if violations \<noteq> [] then Err (ComposeFailed (Violations violations))
          else
            (case Compile \<lparr>gd_GraphID = wd_WorkflowID d', gd_Version = ''v1'', gd_Nodes = map stepNode (wd_Steps d')\<rparr> of
               Inl e \<Rightarrow> Err (GraphFailed e)
             | Inr c \<Rightarrow> Ok c))"

section \<open>The loop keeps the contract of the ready queue\<close>

lemma planEdges_dependents: "planEdges steps = graphDependents (map stepNode steps)"
  by (induction steps rule: rev_induct) (simp_all add: planEdges_def graphDependents_def stepNode_def)

lemma stepDeps_depsOf:
  assumes "distinct (map s_StepID steps)"
  shows "depsOf (map stepNode steps) i = stepDeps steps i"
proof (cases "i \<in> s_StepID ` set steps")
  case True
  then obtain s where s: "s \<in> set steps" "i = s_StepID s" by auto
  have "distinct (map gn_ID (map stepNode steps))" using assms by (simp add: comp_def stepNode_def)
  from depsOf_node [OF this, of "stepNode s"] show ?thesis using s stepDeps_step [OF assms s(1)] by (simp add: stepNode_def)
next
  case False
  then have "map_of (map (\<lambda>n. (gn_ID n, gn_DependsOn n)) (map stepNode steps)) i = None"
    "map_of (rev (map (\<lambda>s. (s_StepID s, s_DependsOn s)) steps)) i = None"
    by (auto simp: map_of_eq_None_iff stepNode_def)
  then show ?thesis unfolding depsOf_def stepDeps_def by simp
qed

lemma stepNode_ids: "map gn_ID (map stepNode steps) = map s_StepID steps"
  by (simp add: stepNode_def)

lemma count_list_sort: "count_list (sort xs) x = count_list xs x" for x :: "'a :: linorder"
  by (metis count_mset mset_sort)

interpretation plan_queue: ready_queue "map s_StepID steps" "stepDeps steps" map_count
    "planStep (planEdges steps)" "planLoop (planEdges steps)" for steps
proof unfold_locales
  let ?E = "planEdges steps" and ?ds = "\<lambda>x. sort (map_list (planEdges steps) x)"
  show "planLoop ?E [] c = []" for c by (simp add: planLoop.simps)
  show "planLoop ?E (x # q) c = x # (case planStep ?E x q c of (q', c') \<Rightarrow> planLoop ?E q' c')" for x q c
    by (simp add: planLoop.simps [of _ "x # q"] case_prod_beta)
  have snd: "snd (planStep ?E x q c) = snd (releaseNodes (?ds x) q c)" for x q c
    using planRelease_releaseNodes(1) [of "?ds x" q c q] by (simp add: planStep_def case_prod_beta)
  have fst: "sorted (fst (planStep ?E x q c))" "mset (fst (planStep ?E x q c)) = mset (fst (releaseNodes (?ds x) q c))" for x q c
    using planRelease_releaseNodes(2) [OF refl, of "?ds x" q c] by (simp_all add: planStep_def case_prod_beta)
  have count: "count_list (?ds x) k = (if k \<in> s_StepID ` set steps then count_list (stepDeps steps k) x else 0)"
    if "distinct (map s_StepID steps)" for x k
    using that dependents_count [of "map stepNode steps" x k] unfolding stepNode_ids
    by (simp add: planEdges_dependents count_list_sort stepDeps_depsOf image_image) (simp add: stepNode_def)
  show "map_count (snd (planStep ?E x q c)) n = map_count c n - int (count_list (stepDeps steps n) x)"
    if "distinct (map s_StepID steps)" "n \<in> set (map s_StepID steps)" for x q c n
    using that by (auto simp: snd releaseNodes_count count)
  show "sorted (fst (planStep ?E x q c))
      \<and> mset (fst (planStep ?E x q c)) =
        mset q + mset (filter (\<lambda>n. 0 < map_count c n \<and> map_count c n = int (count_list (stepDeps steps n) x)) (map s_StepID steps))"
    if d: "distinct (map s_StepID steps)" and q: "sorted q"
      and c: "\<forall>n \<in> set (map s_StepID steps). 0 \<le> map_count c n - int (count_list (stepDeps steps n) x)" for x q c
  proof -
    have sub: "set (?ds x) \<subseteq> s_StepID ` set steps"
      using count [OF d, of x] count_list_0_iff [of "?ds x"] by (metis subsetI)
    then have "\<forall>k \<in> set (?ds x). int (count_list (?ds x) k) \<le> map_count c k" using c count [OF d, of x] by auto
    note r = releaseNodes_queue [OF q this]
    have "{k \<in> set (?ds x). map_count c k = int (count_list (?ds x) k)} =
        set (filter (\<lambda>n. 0 < map_count c n \<and> map_count c n = int (count_list (stepDeps steps n) x)) (map s_StepID steps))"
      (is "?L = ?R")
    proof (rule set_eqI)
      fix k
      show "k \<in> ?L \<longleftrightarrow> k \<in> ?R"
        using sub count [OF d, of x k] count_list_0_iff [of "?ds x" k] by (cases "k \<in> s_StepID ` set steps") auto
    qed
    then have "mset_set {k \<in> set (?ds x). map_count c k = int (count_list (?ds x) k)} =
        mset (filter (\<lambda>n. 0 < map_count c n \<and> map_count c n = int (count_list (stepDeps steps n) x)) (map s_StepID steps))"
      by (simp only:) (rule mset_set_set, rule distinct_filter, rule d)
    with r fst show ?thesis by simp
  qed
qed

lemma planInDegree_zero: "fset (fmdom (foldl (\<lambda>m s. fmupd (s_StepID s) 0 m) fmempty steps)) = s_StepID ` set steps"
  "map_count (foldl (\<lambda>m s. fmupd (s_StepID s) 0 m) fmempty steps) i = 0"
  by (induction steps rule: rev_induct) (auto simp: map_count_def)

lemma planInDegree_steps:
  assumes "s_StepID ` set ss \<subseteq> fset (fmdom m)"
  shows "fmdom (foldl (\<lambda>m s. foldl (\<lambda>m d. fmupd (s_StepID s) (map_count m (s_StepID s) + 1) m) m (s_DependsOn s)) m ss) = fmdom m"
    and "map_count (foldl (\<lambda>m s. foldl (\<lambda>m d. fmupd (s_StepID s) (map_count m (s_StepID s) + 1) m) m (s_DependsOn s)) m ss) i
      = map_count m i + int (sum_list (map (\<lambda>s. if s_StepID s = i then length (s_DependsOn s) else 0) ss))"
proof -
  have one: "fmdom (foldl (\<lambda>m d. fmupd k (map_count m k + 1) m) m ds) = (if ds = [] then fmdom m else finsert k (fmdom m))"
    "map_count (foldl (\<lambda>m d. fmupd k (map_count m k + 1) m) m ds) i = map_count m i + (if i = k then int (length ds) else 0)"
    for k :: string and ds :: "string list" and m i
    by (induction ds arbitrary: m) auto
  have "k |\<in>| fmdom m \<Longrightarrow> finsert k (fmdom m) = fmdom m" for k and m :: "(string, int) gomap" by auto
  then show "fmdom (foldl (\<lambda>m s. foldl (\<lambda>m d. fmupd (s_StepID s) (map_count m (s_StepID s) + 1) m) m (s_DependsOn s)) m ss) = fmdom m"
    using assms by (induction ss arbitrary: m) (auto simp: one)
  show "map_count (foldl (\<lambda>m s. foldl (\<lambda>m d. fmupd (s_StepID s) (map_count m (s_StepID s) + 1) m) m (s_DependsOn s)) m ss) i
      = map_count m i + int (sum_list (map (\<lambda>s. if s_StepID s = i then length (s_DependsOn s) else 0) ss))"
    by (induction ss arbitrary: m) (auto simp: one)
qed

lemma planInDegree_deps:
  assumes "distinct (map s_StepID steps)"
  shows "sorted_keys (planInDegree steps) = sort (map s_StepID steps)"
    and "\<forall>i \<in> set (map s_StepID steps). map_count (planInDegree steps) i = int (length (stepDeps steps i))"
proof -
  have "fset (fmdom (planInDegree steps)) = s_StepID ` set steps"
    unfolding planInDegree_def by (subst planInDegree_steps(1)) (simp_all add: planInDegree_zero(1))
  then show "sorted_keys (planInDegree steps) = sort (map s_StepID steps)"
    using assms by (intro sorted_distinct_set_unique) simp_all
  have sum: "sum_list (map (\<lambda>t. if s_StepID t = s_StepID s then length (s_DependsOn t) else 0) ss) =
      (if s \<in> set ss then length (s_DependsOn s) else 0)"
    if "inj_on s_StepID (insert s (set ss))" "distinct ss" for s ss
    using that
  proof (induction ss)
    case (Cons t ss)
    have IH: "sum_list (map (\<lambda>t. if s_StepID t = s_StepID s then length (s_DependsOn t) else 0) ss) = (if s \<in> set ss then length (s_DependsOn s) else 0)"
      using Cons.prems by (intro Cons.IH) (auto simp: inj_on_def)
    have "s_StepID t = s_StepID s \<longleftrightarrow> t = s" using Cons.prems(1) by (auto simp: inj_on_def)
    then show ?case using IH Cons.prems(2) by auto
  qed simp
  show "\<forall>i \<in> set (map s_StepID steps). map_count (planInDegree steps) i = int (length (stepDeps steps i))"
  proof
    fix i assume "i \<in> set (map s_StepID steps)"
    then obtain s where s: "s \<in> set steps" "i = s_StepID s" by auto
    have "inj_on s_StepID (insert s (set steps))" "distinct steps" using assms s(1) by (simp_all add: distinct_map insert_absorb)
    from sum [OF this] have "map_count (planInDegree steps) i = int (length (s_DependsOn s))"
      unfolding planInDegree_def using s by (subst planInDegree_steps(2)) (simp_all add: planInDegree_zero)
    then show "map_count (planInDegree steps) i = int (length (stepDeps steps i))"
      using stepDeps_step [OF assms s(1)] s(2) by simp
  qed
qed

theorem planOrder_reference:
  assumes "distinct (map s_StepID steps)"
  shows "planOrder steps = greedy (stepDeps steps) [] (map s_StepID steps)"
proof -
  let ?m = "planInDegree steps"
  note deg = planInDegree_deps [OF assms]
  have "filter (\<lambda>k. map_count ?m k = 0) (map s_StepID steps) = filter (\<lambda>k. stepDeps steps k = []) (map s_StepID steps)"
    using deg(2) by (intro filter_cong) auto
  then have "sort (filter (\<lambda>k. map_count ?m k = 0) (sorted_keys ?m)) = sort (filter (\<lambda>k. stepDeps steps k = []) (map s_StepID steps))"
    unfolding deg(1) by (simp add: filter_sort sorted_sort_id)
  then show ?thesis using plan_queue.loop_reference [OF assms deg(2)] by (simp add: planOrder_def Let_def)
qed

lemma workflow_ok_order:
  assumes "workflow_ok d"
  shows "distinct (map s_StepID (wd_Steps d))"
    "topological (map s_StepID (wd_Steps d)) (stepDeps (wd_Steps d)) (planOrder (wd_Steps d))"
    "length (planOrder (wd_Steps d)) = length (wd_Steps d)"
proof -
  show d: "distinct (map s_StepID (wd_Steps d))" using assms by (simp add: workflow_ok_def Let_def)
  have "\<forall>i \<in> set (map s_StepID (wd_Steps d)). set (stepDeps (wd_Steps d) i) \<subseteq> set (map s_StepID (wd_Steps d))"
    using assms stepDeps_step [OF d] by (auto simp: workflow_ok_def Let_def list_all_iff)
  note g = greedy_topological [OF d this]
  have a: "acyclic (dep_edges (map s_StepID (wd_Steps d)) (stepDeps (wd_Steps d)))" using assms by (simp add: workflow_ok_def Let_def)
  show "topological (map s_StepID (wd_Steps d)) (stepDeps (wd_Steps d)) (planOrder (wd_Steps d))"
    using g(2) [OF a] by (simp add: planOrder_reference [OF d])
  show "length (planOrder (wd_Steps d)) = length (wd_Steps d)" using g(1) a by (simp add: planOrder_reference [OF d])
qed

theorem Plan_eq:
  "Plan ord enabled d =
     (case compileDefinition ord enabled (normalizeDefinition ord d) of
        Inl e \<Rightarrow> Err e
      | Inr (compiled, summary) \<Rightarrow>
          if workflow_ok compiled then Ok (greedy (stepDeps (wd_Steps compiled)) [] (map s_StepID (wd_Steps compiled)))
          else Err (Violations (ValidateDefinition compiled)))"
proof -
  have "(if ValidateDefinition c \<noteq> [] then Err (Violations (ValidateDefinition c))
      else if length (planOrder (wd_Steps c)) \<noteq> length (wd_Steps c) then Err (Violations [wfErr ErrCodeDependencyCycle [] []])
      else Ok (planOrder (wd_Steps c))) =
     (if workflow_ok c then Ok (greedy (stepDeps (wd_Steps c)) [] (map s_StepID (wd_Steps c)))
      else Err (Violations (ValidateDefinition c)))" for c
    using workflow_ok_order [of c] by (simp add: ValidateDefinition_Nil planOrder_reference)
  then show ?thesis by (simp add: Plan_def Let_def split: sum.split prod.split)
qed

end
