(* ===== verification/Workflow_Expand.thy ===== *)
theory Workflow_Expand
  imports Workflow_Plan
begin

text \<open>
  What expansion keeps: the steps it returns are in normal form with distinct ids; they no longer use
  composition; and where one step of a scope depends on another, every step of the expansion of the
  first needs, directly or through others, every step of the expansion of the second. The execution
  graph a workflow is projected to therefore has the order \<open>Plan\<close> returns.
\<close>

section \<open>Lists of trimmed texts\<close>

definition normal_texts :: "string list \<Rightarrow> bool" where
  "normal_texts xs \<longleftrightarrow> distinct xs \<and> (\<forall>x \<in> set xs. TrimSpace x = x \<and> x \<noteq> [])"

lemma keepUnique_set: "set (keepUnique out xs) = set out \<union> (TrimSpace ` set xs - {[]})"
  by (induction out xs rule: keepUnique.induct) (auto simp: Let_def)

lemma normal_texts_snoc: "normal_texts (xs @ [x]) \<longleftrightarrow> normal_texts xs \<and> x \<notin> set xs \<and> TrimSpace x = x \<and> x \<noteq> []"
  unfolding normal_texts_def by auto

lemma keepUnique_normal: "normal_texts out \<Longrightarrow> normal_texts (keepUnique out xs)"
  by (induction xs arbitrary: out) (simp_all add: Let_def normal_texts_snoc)

lemma keepUnique_id: "normal_texts (out @ xs) \<Longrightarrow> keepUnique out xs = out @ xs"
proof (induction xs arbitrary: out)
  case (Cons x xs)
  then have "TrimSpace x = x" "x \<noteq> []" "x \<notin> set out" by (auto simp: normal_texts_def)
  then show ?case using Cons by (simp add: Let_def)
qed simp

lemma normal_texts_Nil [simp]: "normal_texts []"
  by (simp add: normal_texts_def)

lemma normalizeDependsOn_normal: "normal_texts (normalizeDependsOn xs)" "normal_texts xs \<Longrightarrow> normalizeDependsOn xs = xs"
  by (simp_all add: normalizeDependsOn_def keepUnique_normal keepUnique_id)

lemma appendUniqueStrings_normal: "normal_texts (appendUniqueStrings xs ys)"
  by (simp add: appendUniqueStrings_def keepUnique_normal)

lemma appendUniqueStrings_set:
  "normal_texts xs \<Longrightarrow> normal_texts ys \<Longrightarrow> set (appendUniqueStrings xs ys) = set xs \<union> set ys"
  by (auto simp: appendUniqueStrings_def keepUnique_set normal_texts_def image_iff)

section \<open>Ids under a scope\<close>

lemma prefix_before_slash:
  fixes p x y :: string
  assumes "prefix p (x @ CHR ''/'' # y)" "CHR ''/'' \<notin> set p"
  shows "prefix p x"
proof -
  consider "prefix p x" | us where "p = x @ us" "prefix us (CHR ''/'' # y)" using assms(1) by (auto simp: prefix_append)
  then show ?thesis
  proof cases
    case 2
    then have "us = []" using assms(2) by (cases us) auto
    then show ?thesis using 2(1) by simp
  qed
qed

lemma trimmed_under:
  assumes "trimmed a" "trimmed b"
  shows "trimmed (a @ ''/'' @ b)"
proof -
  have slash: "CHR ''/'' \<notin> set p" if "p \<in> set white_runes" for p using that by (auto simp: white_runes_def)
  have "no_prefix white_runes (a @ CHR ''/'' # b)"
    using assms(1) slash prefix_before_slash unfolding trimmed_def no_prefix_def by blast
  moreover have "no_prefix (map rev white_runes) (rev b @ CHR ''/'' # rev a)"
  proof -
    have "CHR ''/'' \<notin> set p" if "p \<in> set (map rev white_runes)" for p using that slash by auto
    then show ?thesis using assms(2) prefix_before_slash unfolding trimmed_def no_prefix_def by blast
  qed
  ultimately show ?thesis by (simp add: trimmed_def)
qed

lemma underPrefix_trimmed: "trimmed scope \<Longrightarrow> trimmed i \<Longrightarrow> trimmed (underPrefix scope i)"
  using trimmed_under by (simp add: underPrefix_def)

lemma underPrefix_Nil [simp]: "i \<noteq> [] \<Longrightarrow> underPrefix scope i \<noteq> []"
  by (simp add: underPrefix_def)

section \<open>Entries and exits\<close>

definition flat_step :: "step \<Rightarrow> bool" where
  "flat_step s \<longleftrightarrow> trimmed (s_StepID s) \<and> s_StepID s \<noteq> [] \<and> normal_texts (s_DependsOn s) \<and> \<not> stepUsesGraphComposability s"

definition scope_node :: "compiled_node \<Rightarrow> bool" where
  "scope_node n \<longleftrightarrow> list_all flat_step (cn_steps n) \<and> distinct (map s_StepID (cn_steps n))
     \<and> inferEntryAndExit (cn_steps n) = (cn_entryIDs n, cn_exitIDs n)"

lemma degreeKeys_flat: "list_all flat_step ss \<Longrightarrow> set (degreeKeys ss) = s_StepID ` set ss"
  by (auto simp: degreeKeys_def list_all_iff flat_step_def image_iff)

lemma innerEdges_flat:
  assumes "list_all flat_step ss"
  shows "set (innerEdges ss) = {(s_StepID s, d) | s d. s \<in> set ss \<and> d \<in> set (s_DependsOn s) \<and> d \<in> s_StepID ` set ss}"
proof -
  have "(let i = TrimSpace (s_StepID s) in if i = [] then [] else map (\<lambda>d. (i, TrimSpace d))
        (filter (\<lambda>d. TrimSpace d \<noteq> [] \<and> TrimSpace d \<in> set (degreeKeys ss)) (s_DependsOn s))) =
      map (\<lambda>d. (s_StepID s, d)) (filter (\<lambda>d. d \<in> s_StepID ` set ss) (s_DependsOn s))" if "s \<in> set ss" for s
  proof -
    have s: "TrimSpace (s_StepID s) = s_StepID s" "s_StepID s \<noteq> []" "\<forall>d \<in> set (s_DependsOn s). TrimSpace d = d \<and> d \<noteq> []"
      using that assms by (auto simp: list_all_iff flat_step_def normal_texts_def)
    have "filter (\<lambda>d. TrimSpace d \<noteq> [] \<and> TrimSpace d \<in> set (degreeKeys ss)) (s_DependsOn s) = filter (\<lambda>d. d \<in> s_StepID ` set ss) (s_DependsOn s)"
      using s(3) degreeKeys_flat [OF assms] by (intro filter_cong) auto
    then show ?thesis using s by (simp add: Let_def)
  qed
  then show ?thesis unfolding innerEdges_def by (auto cong: map_cong)
qed

lemma inferEntryAndExit_sets:
  assumes "list_all flat_step ss" "distinct (map s_StepID ss)" "inferEntryAndExit ss = (entry, exit)"
  shows "set entry = {s_StepID s | s. s \<in> set ss \<and> set (s_DependsOn s) \<inter> s_StepID ` set ss = {}}"
    and "set exit = {s_StepID s | s. s \<in> set ss \<and> (\<forall>t \<in> set ss. s_StepID s \<notin> set (s_DependsOn t))}"
proof -
  have ee: "entry = filter (\<lambda>i. \<forall>(a, b) \<in> set (innerEdges ss). a \<noteq> i) (degreeKeys ss)"
    "exit = filter (\<lambda>i. \<forall>(a, b) \<in> set (innerEdges ss). b \<noteq> i) (degreeKeys ss)"
    using assms(3) by (auto simp: inferEntryAndExit_def Let_def filter_empty_conv case_prod_beta)
  have inj: "s = t" if "s \<in> set ss" "t \<in> set ss" "s_StepID s = s_StepID t" for s t
    using assms(2) that by (simp add: distinct_map inj_on_def)
  have "(\<forall>(a, b) \<in> set (innerEdges ss). a \<noteq> s_StepID s) \<longleftrightarrow> set (s_DependsOn s) \<inter> s_StepID ` set ss = {}" if s: "s \<in> set ss" for s
  proof
    assume "\<forall>(a, b) \<in> set (innerEdges ss). a \<noteq> s_StepID s"
    then show "set (s_DependsOn s) \<inter> s_StepID ` set ss = {}" using s unfolding innerEdges_flat [OF assms(1)] by fast
  next
    assume none: "set (s_DependsOn s) \<inter> s_StepID ` set ss = {}"
    have "a \<noteq> s_StepID s" if ab: "(a, b) \<in> set (innerEdges ss)" for a b
    proof
      assume "a = s_StepID s"
      then obtain t where "t \<in> set ss" "s_StepID s = s_StepID t" "b \<in> set (s_DependsOn t)" "b \<in> s_StepID ` set ss"
        using ab unfolding innerEdges_flat [OF assms(1)] by blast
      then show False using inj [OF s] none by blast
    qed
    then show "\<forall>(a, b) \<in> set (innerEdges ss). a \<noteq> s_StepID s" by blast
  qed
  then show "set entry = {s_StepID s | s. s \<in> set ss \<and> set (s_DependsOn s) \<inter> s_StepID ` set ss = {}}"
    unfolding ee set_filter degreeKeys_flat [OF assms(1)] by auto
  have "(\<forall>(a, b) \<in> set (innerEdges ss). b \<noteq> s_StepID s) \<longleftrightarrow> (\<forall>t \<in> set ss. s_StepID s \<notin> set (s_DependsOn t))" if s: "s \<in> set ss" for s
    using s by (auto simp: innerEdges_flat [OF assms(1)])
  then show "set exit = {s_StepID s | s. s \<in> set ss \<and> (\<forall>t \<in> set ss. s_StepID s \<notin> set (s_DependsOn t))}"
    unfolding ee set_filter degreeKeys_flat [OF assms(1)] by auto
qed

text \<open>In steps without a cycle, every step comes after an entry and before an exit.\<close>

definition edges_of :: "step list \<Rightarrow> (string \<times> string) set" where
  "edges_of ss = {(d, s_StepID s) | d s. s \<in> set ss \<and> d \<in> set (s_DependsOn s)}"

lemma edges_ofI: "t \<in> set ss \<Longrightarrow> d \<in> set (s_DependsOn t) \<Longrightarrow> s_StepID t = i \<Longrightarrow> (d, i) \<in> edges_of ss"
  by (auto simp: edges_of_def)

lemma entry_exit_reach:
  assumes flat: "list_all flat_step ss" "distinct (map s_StepID ss)" "inferEntryAndExit ss = (entry, exit)"
    and acyc: "acyclic (edges_of ss)" and s: "s \<in> set ss"
  shows "\<exists>e \<in> set entry. (e, s_StepID s) \<in> (edges_of ss)\<^sup>*" and "\<exists>x \<in> set exit. (s_StepID s, x) \<in> (edges_of ss)\<^sup>*"
proof -
  note sets = inferEntryAndExit_sets [OF flat]
  have "edges_of ss = (\<Union>s \<in> set ss. (\<lambda>d. (d, s_StepID s)) ` set (s_DependsOn s))" by (auto simp: edges_of_def)
  then have fin: "finite (edges_of ss)" by simp
  have "wf (edges_of ss)" using fin acyc by (rule finite_acyclic_wf)
  then have "\<forall>s \<in> set ss. i = s_StepID s \<longrightarrow> (\<exists>e \<in> set entry. (e, s_StepID s) \<in> (edges_of ss)\<^sup>*)" for i
  proof (induction i)
    case (less i)
    show ?case
    proof (intro ballI impI)
      fix s assume s: "s \<in> set ss" "i = s_StepID s"
      show "\<exists>e \<in> set entry. (e, s_StepID s) \<in> (edges_of ss)\<^sup>*"
      proof (cases "set (s_DependsOn s) \<inter> s_StepID ` set ss = {}")
        case True
        then have "s_StepID s \<in> set entry" using s(1) unfolding sets(1) by blast
        then show ?thesis by blast
      next
        case False
        then obtain t where t: "t \<in> set ss" "s_StepID t \<in> set (s_DependsOn s)" by blast
        then have edge: "(s_StepID t, s_StepID s) \<in> edges_of ss" using s(1) unfolding edges_of_def by blast
        obtain e where "e \<in> set entry" "(e, s_StepID t) \<in> (edges_of ss)\<^sup>*" using less [of "s_StepID t"] edge s(2) t(1) by blast
        then show ?thesis using edge by (meson rtrancl.rtrancl_into_rtrancl)
      qed
    qed
  qed
  then show "\<exists>e \<in> set entry. (e, s_StepID s) \<in> (edges_of ss)\<^sup>*" using s by blast
  have "wf ((edges_of ss)\<inverse>)" using fin acyc by (rule finite_acyclic_wf_converse)
  then have "\<forall>s \<in> set ss. i = s_StepID s \<longrightarrow> (\<exists>x \<in> set exit. (s_StepID s, x) \<in> (edges_of ss)\<^sup>*)" for i
  proof (induction i)
    case (less i)
    show ?case
    proof (intro ballI impI)
      fix s assume s: "s \<in> set ss" "i = s_StepID s"
      show "\<exists>x \<in> set exit. (s_StepID s, x) \<in> (edges_of ss)\<^sup>*"
      proof (cases "\<forall>t \<in> set ss. s_StepID s \<notin> set (s_DependsOn t)")
        case True
        then have "s_StepID s \<in> set exit" using s(1) unfolding sets(2) by blast
        then show ?thesis by blast
      next
        case False
        then obtain t where t: "t \<in> set ss" "s_StepID s \<in> set (s_DependsOn t)" by blast
        then have edge: "(s_StepID s, s_StepID t) \<in> edges_of ss" unfolding edges_of_def by blast
        obtain x where "x \<in> set exit" "(s_StepID t, x) \<in> (edges_of ss)\<^sup>*" using less [of "s_StepID t"] edge s(2) t(1) by blast
        then show ?thesis using edge by (meson converse_rtrancl_into_rtrancl)
      qed
    qed
  qed
  then show "\<exists>x \<in> set exit. (s_StepID s, x) \<in> (edges_of ss)\<^sup>*" using s by blast
qed

section \<open>Attaching the dependencies of a node\<close>

lemma resolveDeps_Ok:
  assumes "resolveDeps exits rawID deps acc = Ok r" "normal_texts acc" "\<And>i xs. exits i = Some xs \<Longrightarrow> normal_texts xs"
  shows "normal_texts r" "set acc \<subseteq> set r"
    "\<forall>dep \<in> set deps. TrimSpace dep \<noteq> [] \<longrightarrow> (\<exists>xs. exits (TrimSpace dep) = Some xs \<and> set xs \<subseteq> set r)"
proof -
  have "normal_texts r \<and> set acc \<subseteq> set r \<and> (\<forall>dep \<in> set deps. TrimSpace dep \<noteq> [] \<longrightarrow> (\<exists>xs. exits (TrimSpace dep) = Some xs \<and> set xs \<subseteq> set r))"
    using assms(1,2)
  proof (induction deps arbitrary: acc)
    case (Cons dep deps)
    show ?case
    proof (cases "TrimSpace dep = []")
      case True
      then show ?thesis using Cons by (simp add: Let_def)
    next
      case False
      then obtain xs where xs: "exits (TrimSpace dep) = Some xs" "resolveDeps exits rawID deps (appendUniqueStrings acc xs) = Ok r"
        using Cons.prems(1) by (auto simp: Let_def composeErr_def split: option.splits)
      note IH = Cons.IH [OF xs(2) appendUniqueStrings_normal]
      have "set (appendUniqueStrings acc xs) = set acc \<union> set xs" using Cons.prems(2) assms(3) [OF xs(1)] by (rule appendUniqueStrings_set)
      then show ?thesis using IH xs(1) by auto
    qed
  qed simp
  then show "normal_texts r" "set acc \<subseteq> set r"
    "\<forall>dep \<in> set deps. TrimSpace dep \<noteq> [] \<longrightarrow> (\<exists>xs. exits (TrimSpace dep) = Some xs \<and> set xs \<subseteq> set r)" by blast+
qed

definition attachTo :: "compiled_node \<Rightarrow> string list \<Rightarrow> step list" where
  "attachTo n r = map (\<lambda>s. if s_StepID s \<in> set (cn_entryIDs n) then addDeps r s else s) (cn_steps n)"

lemma attachDeps_Ok:
  assumes "attachDeps exits n = Ok ss"
  shows "\<exists>r. resolveDeps exits (cn_rawID n) (cn_rawDeps n) [] = Ok r \<and> ss = attachTo n r"
proof -
  obtain r where r: "resolveDeps exits (cn_rawID n) (cn_rawDeps n) [] = Ok r"
    using assms by (auto simp: attachDeps_def split: sum.splits)
  obtain single where single: "singleStep n = Ok single" using assms r by (auto simp: attachDeps_def split: sum.splits)
  have "\<forall>s \<in> set (cn_steps n). s_StepID s \<in> set (cn_entryIDs n)" if single
  proof -
    have "singleStep n = Ok True" using single that by simp
    then obtain s where "cn_steps n = [s]" "cn_entryIDs n \<noteq> []" "cn_entryIDs n ! 0 = s_StepID s"
      by (auto simp: singleStep_def indexed_def split: list.splits sum.splits if_splits)
    then show ?thesis by (metis list.set_intros(1) list.set_cases nth_Cons_0 nth_mem length_greater_0_conv empty_iff list.set(1) set_ConsD)
  qed
  then have "ss = attachTo n r" using assms r single by (auto simp: attachDeps_def attachTo_def split: if_splits)
  then show ?thesis using r by blast
qed

lemma attachTo_steps:
  "map s_StepID (attachTo n r) = map s_StepID (cn_steps n)"
  "s \<in> set (cn_steps n) \<Longrightarrow> \<exists>t \<in> set (attachTo n r). s_StepID t = s_StepID s \<and> (normal_texts (s_DependsOn s) \<longrightarrow> normal_texts r \<longrightarrow>
     set (s_DependsOn s) \<subseteq> set (s_DependsOn t) \<and> (s_StepID s \<in> set (cn_entryIDs n) \<longrightarrow> set r \<subseteq> set (s_DependsOn t)))"
proof -
  show "map s_StepID (attachTo n r) = map s_StepID (cn_steps n)" by (simp add: attachTo_def addDeps_def)
  assume s: "s \<in> set (cn_steps n)"
  let ?t = "if s_StepID s \<in> set (cn_entryIDs n) then addDeps r s else s"
  have "?t \<in> set (attachTo n r)" using s unfolding attachTo_def by (auto simp: image_iff)
  then show "\<exists>t \<in> set (attachTo n r). s_StepID t = s_StepID s \<and> (normal_texts (s_DependsOn s) \<longrightarrow> normal_texts r \<longrightarrow>
     set (s_DependsOn s) \<subseteq> set (s_DependsOn t) \<and> (s_StepID s \<in> set (cn_entryIDs n) \<longrightarrow> set r \<subseteq> set (s_DependsOn t)))"
    by (intro bexI [of _ ?t]) (simp_all add: addDeps_def appendUniqueStrings_set)
qed

lemma attachTo_flat: "list_all flat_step (cn_steps n) \<Longrightarrow> list_all flat_step (attachTo n r)"
  by (auto simp: attachTo_def list_all_iff flat_step_def addDeps_def appendUniqueStrings_normal stepUsesGraphComposability_def)

lemma attachAll_Ok:
  "attachAll exits ns = Ok sss \<Longrightarrow> \<exists>rs. length rs = length ns \<and> sss = map2 attachTo ns rs
    \<and> (\<forall>i < length ns. resolveDeps exits (cn_rawID (ns ! i)) (cn_rawDeps (ns ! i)) [] = Ok (rs ! i))"
proof (induction ns arbitrary: sss)
  case (Cons n ns)
  obtain ss sss' where a: "attachDeps exits n = Ok ss" "attachAll exits ns = Ok sss'" "sss = ss # sss'"
    using Cons.prems by (auto split: sum.splits)
  obtain r where r: "resolveDeps exits (cn_rawID n) (cn_rawDeps n) [] = Ok r" "ss = attachTo n r" using attachDeps_Ok [OF a(1)] by blast
  obtain rs where rs: "length rs = length ns" "sss' = map2 attachTo ns rs"
    "\<forall>i < length ns. resolveDeps exits (cn_rawID (ns ! i)) (cn_rawDeps (ns ! i)) [] = Ok (rs ! i)" using Cons.IH [OF a(2)] by blast
  show ?case using a(3) r rs by (intro exI [of _ "r # rs"]) (auto simp: nth_Cons split: nat.split)
qed simp

lemma collectSteps_Ok: "collectSteps ss seen = Ok u \<Longrightarrow> distinct (map s_StepID ss) \<and> s_StepID ` set ss \<inter> set seen = {}"
  by (induction ss seen rule: collectSteps.induct) (auto simp: composeErr_def split: if_splits)

lemma finishScope_Ok:
  assumes "finishScope nodes = Ok out"
  shows "\<exists>rs. length rs = length nodes \<and> out = concat (map2 attachTo nodes rs) \<and> distinct (map s_StepID out)
    \<and> (\<forall>i < length nodes. resolveDeps (\<lambda>i. map_option cn_exitIDs (find (\<lambda>n. cn_rawID n = i) nodes))
         (cn_rawID (nodes ! i)) (cn_rawDeps (nodes ! i)) [] = Ok (rs ! i))"
proof -
  obtain sss where "attachAll (\<lambda>i. map_option cn_exitIDs (find (\<lambda>n. cn_rawID n = i) nodes)) nodes = Ok sss"
    "collectSteps (concat sss) [] = Ok ()" "out = concat sss"
    using assms by (auto simp: finishScope_def split: sum.splits)
  then show ?thesis using attachAll_Ok collectSteps_Ok by fastforce
qed

lemma finishScope_flat:
  assumes "finishScope nodes = Ok out" "list_all scope_node nodes"
  shows "list_all flat_step out" "distinct (map s_StepID out)"
proof -
  obtain rs where rs: "length rs = length nodes" "out = concat (map2 attachTo nodes rs)" "distinct (map s_StepID out)"
    using finishScope_Ok [OF assms(1)] by blast
  show "distinct (map s_StepID out)" by (rule rs(3))
  have "list_all flat_step (attachTo n r)" if "(n, r) \<in> set (zip nodes rs)" for n r
    using that assms(2) by (intro attachTo_flat) (auto simp: list_all_iff scope_node_def dest: set_zip_leftD)
  then show "list_all flat_step out" unfolding rs(2) by (auto simp: list_all_iff)
qed

section \<open>The steps of a scope are flat\<close>

lemma applyConditionTemplate_Ok:
  "applyConditionTemplate d s sm = Ok (t, sm') \<Longrightarrow> s_StepID t = s_StepID s \<and> s_DependsOn t = s_DependsOn s"
  by (auto simp: applyConditionTemplate_def composeErr_def Let_def split: if_splits option.splits)

lemma compileConcreteStep_flat:
  assumes "compileConcreteStep d s scope sm = Ok (t, sm')" "trimmed scope" "TrimSpace (s_StepID s) \<noteq> []"
  shows "flat_step t \<and> s_StepID t = underPrefix scope (TrimSpace (s_StepID s)) \<and> s_DependsOn t = []"
  using assms underPrefix_trimmed [OF assms(2) trimmed_TrimSpace]
  by (auto simp: compileConcreteStep_def Let_def flat_step_def stepUsesGraphComposability_def
      split: sum.splits prod.splits dest!: applyConditionTemplate_Ok)

lemma concreteNode_ok:
  assumes "flat_step t" "s_DependsOn t = []"
  shows "scope_node (concreteNode rawID s t)"
proof -
  have "TrimSpace (s_StepID t) = s_StepID t" "s_StepID t \<noteq> []" using assms(1) by (simp_all add: flat_step_def)
  then show ?thesis using assms
    by (simp add: scope_node_def concreteNode_def inferEntryAndExit_def innerEdges_def degreeKeys_def Let_def)
qed

lemma instanceNode_ok: "list_all flat_step ss \<Longrightarrow> distinct (map s_StepID ss) \<Longrightarrow> scope_node (instanceNode rawID s ss)"
  by (simp add: scope_node_def instanceNode_def split: prod.split)

lemma instanceNode_fields [simp]:
  "cn_rawID (instanceNode rawID s ss) = rawID" "cn_rawDeps (instanceNode rawID s ss) = s_DependsOn s"
  "cn_rawID (concreteNode rawID s t) = rawID" "cn_rawDeps (concreteNode rawID s t) = s_DependsOn s"
  by (simp_all add: instanceNode_def concreteNode_def split: prod.split)

lemma resolveSubgraphAlias_trimmed: "trimmed (resolveSubgraphAlias s)"
  by (simp add: resolveSubgraphAlias_def)

theorem compileScope_flat:
  "compileScope ord d raws scope depth stack sm = Ok (out, sm') \<Longrightarrow> trimmed scope \<Longrightarrow>
   list_all flat_step out \<and> distinct (map s_StepID out)"
  "scopeNodes ord d raws scope depth stack seen als nodes sm = Ok (nodes', sm') \<Longrightarrow> trimmed scope \<Longrightarrow> list_all scope_node nodes \<Longrightarrow>
   set (map cn_rawID nodes) \<subseteq> set seen \<Longrightarrow> distinct (map cn_rawID nodes) \<Longrightarrow>
   list_all scope_node nodes' \<and> distinct (map cn_rawID nodes')
   \<and> map cn_rawID nodes' = map cn_rawID nodes @ map (\<lambda>s. TrimSpace (s_StepID s)) raws
   \<and> map cn_rawDeps nodes' = map cn_rawDeps nodes @ map s_DependsOn raws"
proof (induction ord d raws scope depth stack sm and ord d raws scope depth stack seen als nodes sm
    arbitrary: out sm' and nodes' sm' rule: compileScope_scopeNodes.induct)
  case (1 ord d rawSteps scope depth stack summary)
  from 1(2) obtain nodes s1 where n: "scopeNodes ord d rawSteps scope depth stack [] [] [] summary = Ok (nodes, s1)" "finishScope nodes = Ok out"
    by (subst (asm) compileScope.simps) (auto split: sum.splits prod.splits)
  show ?case using 1(1) [OF n(1) 1(3)] finishScope_flat [OF n(2)] by simp
next
  case (2 ord d scope depth stack rawIDSeen aliasSeen nodes summary)
  then show ?case by simp
next
  case (3 ord d s rawSteps scope depth stack rawIDSeen aliasSeen nodes summary)
  let ?id = "TrimSpace (s_StepID s)" and ?ref = "TrimSpace (s_UseSubgraph s)"
  have id: "?id \<noteq> []" "?id \<notin> set rawIDSeen"
    using 3(4) by (auto simp: scopeNodes.simps(2) Let_def composeErr_def split: if_splits)
  show ?case
  proof (cases "?ref = []")
    case True
    then obtain t s1 where t: "compileConcreteStep d s scope summary = Ok (t, s1)"
      "scopeNodes ord d rawSteps scope depth stack (?id # rawIDSeen) aliasSeen (nodes @ [concreteNode ?id s t]) s1 = Ok (nodes', sm')"
      using 3(4) id by (auto simp: scopeNodes.simps(2) Let_def split: sum.splits prod.splits)
    have "scope_node (concreteNode ?id s t)" using compileConcreteStep_flat [OF t(1) 3(5) id(1)] concreteNode_ok by blast
    then show ?thesis using 3(1) [OF refl refl id True t(1) refl t(2) 3(5)] 3(6-8) id by auto
  next
    case False
    let ?inst = "resolveSubgraphAlias s"
    obtain sub where sub: "fmlookup (wd_Subgraphs d) ?ref = Some sub" "\<not> maxSubgraphDepth < depth + 1" "\<not> containsString stack ?ref"
      "CHR ''/'' \<notin> set ?inst" "?inst \<notin> set aliasSeen"
      using 3(4) id False by (auto simp: scopeNodes.simps(2) Let_def composeErr_def split: option.splits if_splits)
    obtain steps where steps: "applySubgraphOverrides ord s (sg_Steps sub) = Ok steps"
      using 3(4) id False sub by (auto simp: scopeNodes.simps(2) Let_def split: sum.splits)
    obtain child s1 where child:
      "compileScope ord d steps (underPrefix scope ?inst) (depth + 1) (stack @ [?ref]) summary = Ok (child, s1)"
      "scopeNodes ord d rawSteps scope depth stack (?id # rawIDSeen) (?inst # aliasSeen) (nodes @ [instanceNode ?id s child])
         (s1\<lparr>gs_SubgraphExpansionTotal := gs_SubgraphExpansionTotal s1 + int (length child)\<rparr>) = Ok (nodes', sm')"
      using 3(4) id False sub steps by (auto simp: scopeNodes.simps(2) Let_def split: sum.splits prod.splits)
    have "trimmed (underPrefix scope ?inst)" using 3(5) resolveSubgraphAlias_trimmed by (rule underPrefix_trimmed)
    from 3(2) [OF refl refl id False sub(1-3) refl sub(4,5) steps child(1) this]
    have "scope_node (instanceNode ?id s child)" using instanceNode_ok by blast
    then show ?thesis using 3(3) [OF refl refl id False sub(1-3) refl sub(4,5) steps child(1) refl child(2) 3(5)] 3(6-8) id by auto
  qed
qed

section \<open>Expansion keeps the order\<close>

lemma edges_of_dep_edges: "distinct (map s_StepID ss) \<Longrightarrow> dep_edges (map s_StepID ss) (stepDeps ss) = edges_of ss"
  by (auto simp: dep_edges_def edges_of_def stepDeps_step)

lemma attachTo_in:
  assumes "length rs = length nodes" "i < length nodes"
  shows "set (attachTo (nodes ! i) (rs ! i)) \<subseteq> set (concat (map2 attachTo nodes rs))"
proof -
  have "(nodes ! i, rs ! i) \<in> set (zip nodes rs)" using assms by (auto simp: set_zip)
  then show ?thesis by auto
qed

lemma attached_edges:
  assumes "length rs = length nodes" "n \<in> set nodes" "scope_node n" "out = concat (map2 attachTo nodes rs)" "\<forall>r \<in> set rs. normal_texts r"
  shows "edges_of (cn_steps n) \<subseteq> edges_of out"
proof -
  obtain i where i: "i < length nodes" "nodes ! i = n" using assms(2) by (auto simp: in_set_conv_nth)
  then have sub: "set (attachTo n (rs ! i)) \<subseteq> set out" using attachTo_in [OF assms(1) i(1)] assms(4) by simp
  have r: "normal_texts (rs ! i)" using assms(1,5) i(1) by simp
  have "(d, s_StepID s) \<in> edges_of out" if s: "s \<in> set (cn_steps n)" "d \<in> set (s_DependsOn s)" for s d
  proof -
    have "normal_texts (s_DependsOn s)" using assms(3) s(1) by (auto simp: scope_node_def list_all_iff flat_step_def)
    then obtain t where "t \<in> set (attachTo n (rs ! i))" "s_StepID t = s_StepID s" "set (s_DependsOn s) \<subseteq> set (s_DependsOn t)"
      using attachTo_steps(2) [OF s(1), of "rs ! i"] r by blast
    then show ?thesis using s(2) sub by (intro edges_ofI [of t]) auto
  qed
  then show ?thesis by (auto simp: edges_of_def)
qed

theorem expansion_order:
  assumes fin: "finishScope nodes = Ok out" and nodes: "list_all scope_node nodes" "distinct (map cn_rawID nodes)"
    and acyc: "acyclic (edges_of out)"
    and mn: "m \<in> set nodes" "n \<in> set nodes" "cn_rawID m \<noteq> []" "cn_rawID m \<in> TrimSpace ` set (cn_rawDeps n)"
    and t: "t \<in> set (cn_steps m)" and s: "s \<in> set (cn_steps n)"
  shows "(s_StepID t, s_StepID s) \<in> (edges_of out)\<^sup>+"
proof -
  let ?exits = "\<lambda>i. map_option cn_exitIDs (find (\<lambda>n. cn_rawID n = i) nodes)"
  obtain rs where rs: "length rs = length nodes" "out = concat (map2 attachTo nodes rs)"
    and res: "\<And>i. i < length nodes \<Longrightarrow> resolveDeps ?exits (cn_rawID (nodes ! i)) (cn_rawDeps (nodes ! i)) [] = Ok (rs ! i)"
    using finishScope_Ok [OF fin] by blast
  have ok: "scope_node k" if "k \<in> set nodes" for k using nodes(1) that by (simp add: list_all_iff)
  have exit_normal: "normal_texts (cn_exitIDs k)" if k: "k \<in> set nodes" for k
  proof -
    have e: "inferEntryAndExit (cn_steps k) = (cn_entryIDs k, cn_exitIDs k)" "list_all flat_step (cn_steps k)" "distinct (map s_StepID (cn_steps k))"
      using ok [OF k] by (auto simp: scope_node_def)
    have "cn_exitIDs k = snd (inferEntryAndExit (cn_steps k))" using e(1) by simp
    then have "distinct (cn_exitIDs k)" by (simp add: inferEntryAndExit_def Let_def degreeKeys_def)
    then show ?thesis using inferEntryAndExit_sets(2) [OF e(2,3,1)] e(2)
      by (auto simp: normal_texts_def list_all_iff flat_step_def)
  qed
  have exits: "normal_texts xs" if "?exits i = Some xs" for i xs
    using that exit_normal by (auto simp: find_Some_iff)
  have normal: "\<forall>r \<in> set rs. normal_texts r"
    using resolveDeps_Ok(1) [OF res normal_texts_Nil exits] rs(1) by (auto simp: in_set_conv_nth)
  have sub: "edges_of (cn_steps k) \<subseteq> edges_of out" if "k \<in> set nodes" for k
    using attached_edges [OF rs(1) that ok [OF that] rs(2) normal] .
  have reach: "\<exists>e \<in> set (cn_entryIDs k). (e, s_StepID u) \<in> (edges_of out)\<^sup>*" "\<exists>x \<in> set (cn_exitIDs k). (s_StepID u, x) \<in> (edges_of out)\<^sup>*"
    if k: "k \<in> set nodes" "u \<in> set (cn_steps k)" for k u
  proof -
    have e: "list_all flat_step (cn_steps k)" "distinct (map s_StepID (cn_steps k))" "inferEntryAndExit (cn_steps k) = (cn_entryIDs k, cn_exitIDs k)"
      using ok [OF k(1)] by (auto simp: scope_node_def)
    have "acyclic (edges_of (cn_steps k))" using acyc sub [OF k(1)] by (rule acyclic_subset)
    from entry_exit_reach [OF e this k(2)] show "\<exists>e \<in> set (cn_entryIDs k). (e, s_StepID u) \<in> (edges_of out)\<^sup>*"
      "\<exists>x \<in> set (cn_exitIDs k). (s_StepID u, x) \<in> (edges_of out)\<^sup>*" using rtrancl_mono [OF sub [OF k(1)]] by blast+
  qed
  obtain x where x: "x \<in> set (cn_exitIDs m)" "(s_StepID t, x) \<in> (edges_of out)\<^sup>*" using reach(2) [OF mn(1) t] by blast
  obtain e where e: "e \<in> set (cn_entryIDs n)" "(e, s_StepID s) \<in> (edges_of out)\<^sup>*" using reach(1) [OF mn(2) s] by blast
  have "(x, e) \<in> edges_of out"
  proof -
    obtain i where i: "i < length nodes" "nodes ! i = n" using mn(2) by (auto simp: in_set_conv_nth)
    have "?exits (cn_rawID m) = Some (cn_exitIDs m)"
    proof -
      have "find (\<lambda>n. cn_rawID n = cn_rawID m) nodes = Some m"
        using mn(1) nodes(2) by (induction nodes) auto
      then show ?thesis by simp
    qed
    then have r: "set (cn_exitIDs m) \<subseteq> set (rs ! i)"
      using resolveDeps_Ok(3) [OF res [OF i(1)] normal_texts_Nil exits] mn(3,4) i(2) by fastforce
    obtain u where u: "u \<in> set (cn_steps n)" "s_StepID u = e"
      using e(1) ok [OF mn(2)] inferEntryAndExit_sets(1) [of "cn_steps n" "cn_entryIDs n" "cn_exitIDs n"] by (auto simp: scope_node_def)
    have "normal_texts (s_DependsOn u)" using ok [OF mn(2)] u(1) by (auto simp: scope_node_def list_all_iff flat_step_def)
    then obtain v where v: "v \<in> set (attachTo n (rs ! i))" "s_StepID v = e" "set (rs ! i) \<subseteq> set (s_DependsOn v)"
      using attachTo_steps(2) [OF u(1), of "rs ! i"] normal i(1) rs(1) e(1) u(2) by auto
    have "v \<in> set out" using v(1) attachTo_in [OF rs(1) i(1)] rs(2) i(2) by blast
    then show ?thesis using v(2,3) r x(1) by (intro edges_ofI [of v]) auto
  qed
  then show ?thesis using x(2) e(2) by (meson rtrancl_into_trancl1 trancl_rtrancl_trancl)
qed

section \<open>The compiled definition\<close>

definition plain_step :: "step \<Rightarrow> bool" where
  "plain_step s \<longleftrightarrow> TrimSpace (s_StepID s) = s_StepID s \<and> normal_texts (s_DependsOn s)"

lemma normalizeStep_plain: "plain_step (normalizeStep ord s)"
  by (simp add: plain_step_def normalizeStep_def normalizeStepID_def normalizeDependsOn_normal Let_def)

lemma compileDefinition_plain:
  assumes "compileDefinition ord enabled (normalizeDefinition ord d) = Ok (c, sm)"
  shows "list_all plain_step (wd_Steps c)"
proof -
  let ?d = "normalizeDefinition ord d"
  consider "c = ?d"
    | out where "compileScope ord ?d (wd_Steps ?d) [] 0 [] \<lparr>gs_SubgraphExpansionTotal = 0, gs_ConditionTemplateTotal = 0\<rparr> = Ok (out, sm)"
        "wd_Steps c = out"
    using assms by (auto simp: compileDefinition_def composeErr_def Let_def split: if_splits sum.splits)
  then show ?thesis
  proof cases
    case 1
    then show ?thesis by (simp add: list_all_iff normalizeDefinition_def normalizeSteps_def normalizeStep_plain)
  next
    case 2
    then show ?thesis using compileScope_flat(1) by (fastforce simp: list_all_iff flat_step_def plain_step_def)
  qed
qed

lemma normalizeStep_id:
  assumes "plain_step s" "s_StepID s \<noteq> []"
  shows "stepNode (normalizeStep ord s) = stepNode s"
  using assms by (simp add: plain_step_def normalizeStep_def normalizeStepID_def normalizeDependsOn_normal stepNode_def Let_def)

section \<open>The projected graph has the planned order\<close>

lemma greedy_cong:
  "mset rest = mset rest' \<Longrightarrow> \<forall>n \<in> set rest. set (deps n) = set (deps' n) \<Longrightarrow> greedy deps listed rest = greedy deps' listed rest'"
proof (induction deps listed rest arbitrary: rest' rule: greedy.induct)
  case (1 deps listed rest)
  have set_rest: "set rest' = set rest" using 1(2) by (metis mset_eq_setD)
  have "mset (filter (\<lambda>n. set (deps n) \<subseteq> set listed) rest) = mset (filter (\<lambda>n. set (deps' n) \<subseteq> set listed) rest')"
    using 1(2,3) set_rest by (auto simp: mset_filter intro!: filter_mset_cong)
  then have av: "available deps listed rest = available deps' listed rest'"
    unfolding available_def by (metis sorted_list_of_multiset_mset)
  show ?case
  proof (cases "available deps listed rest")
    case Nil
    then show ?thesis using av by (simp add: greedy.simps [of deps listed rest] greedy.simps [of deps' listed rest'])
  next
    case (Cons n q)
    have "greedy deps (n # listed) (remove1 n rest) = greedy deps' (n # listed) (remove1 n rest')"
      using 1(2,3) set_remove1_subset [of n rest] by (intro 1(1) [OF Cons]) auto
    then show ?thesis using Cons av by (simp add: greedy.simps [of deps listed rest] greedy.simps [of deps' listed rest'])
  qed
qed

lemma canonNode_plain: "plain_step s \<Longrightarrow> canonNode (stepNode s) = \<lparr>gn_ID = s_StepID s, gn_DependsOn = sort (s_DependsOn s)\<rparr>"
proof -
  assume "plain_step s"
  then have s: "TrimSpace (s_StepID s) = s_StepID s" "distinct (s_DependsOn s)" "\<forall>d \<in> set (s_DependsOn s). TrimSpace d = d"
    by (auto simp: plain_step_def normal_texts_def)
  then have "map TrimSpace (s_DependsOn s) = s_DependsOn s" by (simp add: map_idI)
  then show ?thesis using s by (simp add: canonNode_def stepNode_def distinct_remdups_id)
qed

theorem projected_plan:
  assumes g: "ProjectExecutionGraph ord enabled d = Ok g" and p: "Plan ord enabled d = Ok order"
  shows "cg_Order g = order"
proof -
  obtain c sm where c: "compileDefinition ord enabled (normalizeDefinition ord d) = Ok (c, sm)" "workflow_ok c"
    and order: "order = greedy (stepDeps (wd_Steps c)) [] (map s_StepID (wd_Steps c))"
    using p unfolding Plan_eq by (auto split: sum.splits prod.splits if_splits)
  let ?ss = "wd_Steps c" and ?d = "normalizeDefinition ord c"
  have dist: "distinct (map s_StepID ?ss)" and ids: "\<forall>s \<in> set ?ss. s_StepID s \<noteq> []"
    using c(2) by (auto simp: workflow_ok_def Let_def list_all_iff step_ok_def)
  have plain: "\<forall>s \<in> set ?ss. plain_step s" using compileDefinition_plain [OF c(1)] by (simp add: list_all_iff)
  have nodes: "map stepNode (wd_Steps ?d) = map stepNode ?ss"
    using plain ids normalizeStep_id by (simp add: normalizeDefinition_def normalizeSteps_def)
  let ?inp = "\<lparr>gd_GraphID = wd_WorkflowID ?d, gd_Version = ''v1'', gd_Nodes = map stepNode ?ss\<rparr>"
  have "Compile ?inp = Ok g"
    using g c(1) nodes by (auto simp: ProjectExecutionGraph_def Let_def split: if_splits sum.splits)
  then have "g = compiledGraph ?inp" by (simp add: Compile_Ok)
  then have "cg_Order g = greedy (depsOf (canonNodes (map stepNode ?ss))) [] (map gn_ID (canonNodes (map stepNode ?ss)))"
    by (simp add: compiledGraph_def canonicalGraph_def Let_def)
  also have "\<dots> = greedy (stepDeps ?ss) [] (map s_StepID ?ss)"
  proof (rule greedy_cong)
    have ids': "map (gn_ID \<circ> canonNode) (map stepNode ?ss) = map s_StepID ?ss" using plain by (simp add: canonNode_plain)
    then show "mset (map gn_ID (canonNodes (map stepNode ?ss))) = mset (map s_StepID ?ss)"
      by (metis canonNodes_def list.map_comp mset_map mset_sort)
    have d': "distinct (map gn_ID (canonNodes (map stepNode ?ss)))" using canonNodes_ids(2) ids' dist by metis
    show "\<forall>n \<in> set (map gn_ID (canonNodes (map stepNode ?ss))). set (depsOf (canonNodes (map stepNode ?ss)) n) = set (stepDeps ?ss n)"
    proof
      fix n assume "n \<in> set (map gn_ID (canonNodes (map stepNode ?ss)))"
      then obtain s where s: "s \<in> set ?ss" "n = gn_ID (canonNode (stepNode s))" by (auto simp: canonNodes_ids(1))
      then have "canonNode (stepNode s) \<in> set (canonNodes (map stepNode ?ss))" by (auto simp: canonNodes_ids(1))
      then have "depsOf (canonNodes (map stepNode ?ss)) n = gn_DependsOn (canonNode (stepNode s))" using depsOf_node [OF d'] s(2) by simp
      then show "set (depsOf (canonNodes (map stepNode ?ss)) n) = set (stepDeps ?ss n)"
        using s plain canonNode_plain stepDeps_step [OF dist s(1)] by simp
    qed
  qed
  finally show ?thesis by (simp add: order)
qed

section \<open>Composition and the planned order\<close>

definition before :: "'a list \<Rightarrow> 'a \<Rightarrow> 'a \<Rightarrow> bool" where
  "before xs a b \<longleftrightarrow> (\<exists>i j. i < j \<and> j < length xs \<and> xs ! i = a \<and> xs ! j = b)"

lemma before_trans: "distinct xs \<Longrightarrow> before xs a b \<Longrightarrow> before xs b c \<Longrightarrow> before xs a c"
  unfolding before_def by (metis less_trans nth_eq_iff_index_eq)

lemma topological_before:
  assumes "topological ns deps order" "distinct ns" "(d, n) \<in> (dep_edges ns deps)\<^sup>+"
  shows "before order d n"
proof -
  have m: "mset order = mset ns" and deps: "\<forall>i < length order. \<forall>d \<in> set (deps (order ! i)). d \<in> set (take i order)"
    using assms(1) by (auto simp: topological_def)
  have d: "distinct order" using m assms(2) by (metis mset_eq_imp_distinct_iff)
  have one: "before order d n" if "(d, n) \<in> dep_edges ns deps" for d n
  proof -
    have "n \<in> set order" "d \<in> set (deps n)" using that m by (auto simp: dep_edges_def dest: mset_eq_setD)
    then obtain j where j: "j < length order" "order ! j = n" by (auto simp: in_set_conv_nth)
    then have "d \<in> set (take j order)" using deps \<open>d \<in> set (deps n)\<close> by blast
    then obtain i where "i < j" "order ! i = d" by (auto simp: in_set_conv_nth)
    then show ?thesis using j unfolding before_def by blast
  qed
  show ?thesis using assms(3) by (induction rule: trancl_induct) (use one before_trans [OF d] in blast)+
qed

definition noSummary :: graph_summary where
  "noSummary = \<lparr>gs_SubgraphExpansionTotal = 0, gs_ConditionTemplateTotal = 0\<rparr>"

text \<open>The ids of the steps the step at a place of a definition expands to.\<close>

definition expandedFrom :: "map_order \<Rightarrow> workflow_definition \<Rightarrow> nat \<Rightarrow> string list" where
  "expandedFrom ord d i =
     (let d' = normalizeDefinition ord d in
      case scopeNodes ord d' (wd_Steps d') [] 0 [] [] [] [] noSummary of
        Inl e \<Rightarrow> []
      | Inr (nodes, summary) \<Rightarrow> if i < length nodes then map s_StepID (cn_steps (nodes ! i)) else [])"

theorem composed_order:
  assumes plan: "Plan ord True d = Ok order" and syn: "hasGraphComposabilitySyntax (normalizeDefinition ord d)"
    and ij: "i < length (wd_Steps d)" "j < length (wd_Steps d)"
    and dep: "s_StepID (wd_Steps (normalizeDefinition ord d) ! j) \<in> set (s_DependsOn (wd_Steps (normalizeDefinition ord d) ! i))"
    and ab: "a \<in> set (expandedFrom ord d j)" "b \<in> set (expandedFrom ord d i)"
  shows "before order a b"
proof -
  let ?d = "normalizeDefinition ord d"
  let ?raws = "wd_Steps ?d"
  have len: "length ?raws = length (wd_Steps d)" by (simp add: normalizeDefinition_def normalizeSteps_def)
  obtain c sm where c: "compileDefinition ord True ?d = Ok (c, sm)" "workflow_ok c" "order = planOrder (wd_Steps c)"
    using plan unfolding Plan_eq by (auto split: sum.splits prod.splits if_splits dest: workflow_ok_order(1) simp: planOrder_reference)
  obtain out where out: "compileScope ord ?d ?raws [] 0 [] noSummary = Ok (out, sm)" "wd_Steps c = out"
    using c(1) syn by (auto simp: compileDefinition_def Let_def noSummary_def split: sum.splits)
  then obtain nodes where nodes: "scopeNodes ord ?d ?raws [] 0 [] [] [] [] noSummary = Ok (nodes, sm)" "finishScope nodes = Ok out"
    by (subst (asm) compileScope.simps) (auto split: sum.splits prod.splits)
  have n: "list_all scope_node nodes" "distinct (map cn_rawID nodes)" "map cn_rawID nodes = map (\<lambda>s. TrimSpace (s_StepID s)) ?raws"
    "map cn_rawDeps nodes = map s_DependsOn ?raws"
    using compileScope_flat(2) [OF nodes(1)] by auto
  have ln: "length nodes = length ?raws" using n(3) by (metis length_map)
  have plain: "plain_step (?raws ! k)" if "k < length ?raws" for k
    using that by (simp add: normalizeDefinition_def normalizeSteps_def normalizeStep_plain)
  have "cn_rawID (nodes ! j) = s_StepID (?raws ! j)" "cn_rawDeps (nodes ! i) = s_DependsOn (?raws ! i)"
    using arg_cong [OF n(3), of "\<lambda>xs. xs ! j"] arg_cong [OF n(4), of "\<lambda>xs. xs ! i"] ij ln len plain [of j] by (simp_all add: plain_step_def)
  moreover have "\<forall>x \<in> set (s_DependsOn (?raws ! i)). TrimSpace x = x \<and> x \<noteq> []"
    using plain [of i] ij len by (simp add: plain_step_def normal_texts_def)
  ultimately have raw: "cn_rawID (nodes ! j) \<noteq> []" "cn_rawID (nodes ! j) \<in> TrimSpace ` set (cn_rawDeps (nodes ! i))"
    using dep by (auto simp: image_iff)
  obtain t s where ts: "t \<in> set (cn_steps (nodes ! j))" "a = s_StepID t" "s \<in> set (cn_steps (nodes ! i))" "b = s_StepID s"
    using ab ij ln len nodes(1) by (auto simp: expandedFrom_def Let_def)
  have dist: "distinct (map s_StepID out)" and acyc: "acyclic (edges_of out)"
    using workflow_ok_order(1) [OF c(2)] c(2) out(2) edges_of_dep_edges by (auto simp: workflow_ok_def Let_def)
  have "(a, b) \<in> (edges_of out)\<^sup>+"
    unfolding ts(2,4) using ij ln len by (intro expansion_order [OF nodes(2) n(1,2) acyc _ _ raw ts(1,3)]) simp_all
  then show ?thesis
    using topological_before [OF workflow_ok_order(2,1) [OF c(2)]] out(2) c(3) edges_of_dep_edges [OF dist] by simp
qed

section \<open>A subgraph that depends on itself\<close>

text \<open>The instance of a subgraph whose one step depends on itself has neither an entry nor an exit.\<close>

lemma inferEntryAndExit_loop:
  assumes "TrimSpace (s_StepID s) \<noteq> []" "map TrimSpace (s_DependsOn s) = [TrimSpace (s_StepID s)]"
  shows "inferEntryAndExit [s] = ([], [])"
proof -
  obtain e where e: "s_DependsOn s = [e]" "TrimSpace e = TrimSpace (s_StepID s)" using assms(2) by auto
  have "degreeKeys [s] = [TrimSpace (s_StepID s)]" using assms(1) by (simp add: degreeKeys_def)
  then show ?thesis using assms(1) e by (simp add: inferEntryAndExit_def innerEdges_def Let_def)
qed

lemma compileDefinition_panics:
  assumes d: "wd_Steps n = [outer]" "fmlookup (wd_Subgraphs n) (TrimSpace (s_UseSubgraph outer)) = Some \<lparr>sg_Steps = [inner]\<rparr>"
    and ord: "\<And>xs. mset (ord xs) = mset xs"
    and outer: "TrimSpace (s_UseSubgraph outer) \<noteq> []" "TrimSpace (s_StepID outer) \<noteq> []" "s_DependsOn outer = []"
      "s_Overrides outer = fmempty" "CHR ''/'' \<notin> set (resolveSubgraphAlias outer)"
    and inner: "TrimSpace (s_UseSubgraph inner) = []" "TrimSpace (s_ConditionTemplate inner) = []" "s_TemplateVars inner = fmempty"
      "TrimSpace (s_StepID inner) \<noteq> []" "map TrimSpace (s_DependsOn inner) = [TrimSpace (s_StepID inner)]"
  shows "compileDefinition ord True n = Err IndexPanic"
proof -
  let ?scope = "underPrefix [] (resolveSubgraphAlias outer)"
  let ?full = "underPrefix ?scope (TrimSpace (s_StepID inner))"
  have none: "ord (sorted_keys (s_Overrides outer)) = []" using ord [of "[]"] outer(4) by (simp add: sorted_keys_def sorted_list_of_fset.rep_eq)
  have over: "applySubgraphOverrides ord outer [inner] = Ok [inner]" by (simp add: applySubgraphOverrides_def none)
  have "trimmed ?full" by (intro underPrefix_trimmed resolveSubgraphAlias_trimmed) simp_all
  then have full: "TrimSpace ?full \<noteq> []" using inner(4) by (simp add: TrimSpace_trimmed underPrefix_def)
  obtain e where e: "s_DependsOn inner = [e]" "TrimSpace e = TrimSpace (s_StepID inner)" using inner(5) by auto
  obtain c where c: "\<And>s. compileConcreteStep n inner ?scope s = Ok (c, s)" "s_StepID c = ?full" "s_DependsOn c = []"
    using inner(2,3) by (auto simp: compileConcreteStep_def applyConditionTemplate_def Let_def)
  define c' where "c' = addDeps [TrimSpace ?full] c"
  have child: "compileScope ord n [inner] ?scope 1 [TrimSpace (s_UseSubgraph outer)] s = Ok ([c'], s)" for s
    using inner(1,4) e c full
    by (simp add: compileScope.simps scopeNodes.simps(2) Let_def finishScope_def concreteNode_def attachDeps_def singleStep_def
        indexed_def addDeps_def c'_def appendUniqueStrings_def)
  have c': "TrimSpace (s_StepID c') \<noteq> []" "map TrimSpace (s_DependsOn c') = [TrimSpace (s_StepID c')]"
    using full c by (simp_all add: c'_def addDeps_def appendUniqueStrings_def)
  have "compileScope ord n [outer] [] 0 [] s = Err IndexPanic" for s
    using outer d(2) child over inferEntryAndExit_loop [OF c']
    by (simp add: compileScope.simps [of _ _ "[outer]"] scopeNodes.simps(2) Let_def maxSubgraphDepth_def containsString_def
        finishScope_def instanceNode_def attachDeps_def singleStep_def indexed_def)
  moreover have "hasGraphComposabilitySyntax n" using d(2) by (auto simp: hasGraphComposabilitySyntax_def)
  ultimately show ?thesis using d(1) by (simp add: compileDefinition_def Let_def)
qed

end
