(* ===== verification/Workflow_Engine.thy ===== *)
theory Workflow_Engine
  imports Workflow_Expand Go_Numeric
begin

text \<open>
  The workflow engine (\<open>execute\<close> in \<open>src/orchestration/workflow/engine.go\<close>) and its checkpoints
  (\<open>legacy_checkpoint.go\<close>): resuming from a checkpoint, the rounds over the steps that are ready, the
  attempts of a step with their timeouts, retries and backoff, cancellation, the timeline events, the
  checkpoint after every step, and the result.

  What the engine is given from outside is the record \<open>engine_env\<close>, whose functions read and change a
  world of any type: the step adapter, the context of the run, the wait of a backoff, the pause
  controller, the event callback, the checkpoint store, the timeline emitter and the clock.

  The engine is one with no continuation store and no native history, which is what \<open>New\<close> makes: a
  pause then ends the run with an error, because \<open>persistContinuation\<close> returns one before it does
  anything, and the request is not itself a continuation. \<open>rs_calls\<close> is a history variable: it
  records the calls of the adapter and decides nothing.
\<close>

section \<open>Checkpoints\<close>

record checkpoint_step =
  cs_Status :: step_status
  cs_Attempts :: int

record checkpoint =
  cp_WorkflowID :: string
  cp_RunID :: string
  cp_Status :: string
  cp_ResumeCount :: int
  cp_Steps :: "(string, checkpoint_step) gomap"
  cp_UpdatedAt :: int

section \<open>Requests, results and events\<close>

record step_output =
  ot_Payload :: "(string, go_any) gomap"
  ot_EffectReference :: string

definition noOutput :: step_output where
  "noOutput = \<lparr>ot_Payload = fmempty, ot_EffectReference = []\<rparr>"

record step_result =
  sr_StepID :: string
  sr_TaskID :: string
  sr_Status :: step_status
  sr_Attempts :: int
  sr_Reason :: string
  sr_Error :: string
  sr_Output :: step_output

record workflow_request =
  wr_RunID :: string
  wr_SessionID :: string
  wr_ParentRunID :: string
  wr_CausationID :: string
  wr_Resume :: bool
  wr_DSL :: workflow_definition

record workflow_result =
  wo_RunID :: string
  wo_WorkflowID :: string
  wo_WorkflowStatus :: string
  wo_StepTotal :: int
  wo_StepFailed :: int
  wo_RemoteTotal :: int
  wo_RemoteFailed :: int
  wo_SubgraphExpansionTotal :: int
  wo_ConditionTemplateTotal :: int
  wo_ResumeCount :: int
  wo_Steps :: "step_result list"
  wo_ExecutionOrder :: "string list"

record timeline_context =
  tc_runID :: string
  tc_workflowID :: string

record step_context =
  sc_stepID :: string
  sc_taskID :: string
  sc_teamID :: string
  sc_agentID :: string
  sc_peerID :: string
  sc_dispatchReason :: string

record workflow_timeline =
  wt_RunID :: string
  wt_WorkflowID :: string
  wt_Status :: step_status
  wt_Reason :: string
  wt_Sequence :: int
  wt_Step :: step_context
  wt_Time :: int

datatype stream_event = ResumedStep step_result | StepDone step_result | Completed workflow_result

record pause_boundary =
  pb_WorkflowID :: string
  pb_RunID :: string
  pb_SessionID :: string
  pb_ParentRunID :: string
  pb_CausationID :: string
  pb_Step :: step
  pb_Attempt :: int

text \<open>
  An error of the adapter: its text, whether it is or wraps a pause, and whether it is or wraps an
  exceeded deadline. A pause controller answers with an error or none.
\<close>

record step_error =
  er_Text :: string
  er_Pause :: bool
  er_Deadline :: bool

datatype context_error = ContextCanceled | ContextDeadlineExceeded

datatype run_failure =
    RunRejected compose_failure
  | RunStoreFailed string
  | RunEventFailed string
  | RunPauseFailed string
  | RunContinuationUnsupported

record 'w engine_env =
  en_execute :: "int \<Rightarrow> string \<Rightarrow> step \<Rightarrow> int \<Rightarrow> 'w \<Rightarrow> (step_error, step_output) result \<times> 'w"
  en_contextErr :: "'w \<Rightarrow> context_error option"
  en_backoff :: "int \<Rightarrow> 'w \<Rightarrow> bool \<times> 'w"
  en_pauseController :: "(pause_boundary \<Rightarrow> 'w \<Rightarrow> step_error option \<times> 'w) option"
  en_onEvent :: "(stream_event \<Rightarrow> 'w \<Rightarrow> string option \<times> 'w) option"
  en_checkpoints :: "((string \<Rightarrow> 'w \<Rightarrow> (string, checkpoint option) result \<times> 'w) \<times> (checkpoint \<Rightarrow> 'w \<Rightarrow> string option \<times> 'w)) option"
  en_timelineEmitter :: "(workflow_timeline \<Rightarrow> 'w \<Rightarrow> 'w) option"
  en_now :: "'w \<Rightarrow> int \<times> 'w"
  en_defaultStepTimeout :: int
  en_graphComposabilityEnabled :: bool

record 'w run_state =
  rs_results :: "(string, step_result) gomap"
  rs_seq :: int
  rs_order :: "string list"
  rs_world :: 'w
  rs_calls :: "(string \<times> int) list"

section \<open>The dispatching adapter\<close>

type_synonym 'w step_handler = "int \<Rightarrow> string \<Rightarrow> step \<Rightarrow> int \<Rightarrow> 'w \<Rightarrow> (step_error, step_output) result \<times> 'w"

record 'w dispatch_adapter =
  da_Runner :: "'w step_handler option"
  da_Tool :: "'w step_handler option"
  da_MCP :: "'w step_handler option"
  da_Skill :: "'w step_handler option"
  da_A2A :: "'w step_handler option"

definition adapterError :: "string \<Rightarrow> step_error" where
  "adapterError text = \<lparr>er_Text = text, er_Pause = False, er_Deadline = False\<rparr>"

definition viaHandler :: "'w step_handler option \<Rightarrow> string \<Rightarrow> 'w step_handler" where
  "viaHandler handler missing timeout workflowID s attempt w =
     (case handler of None \<Rightarrow> (Err (adapterError missing), w) | Some f \<Rightarrow> f timeout workflowID s attempt w)"

definition dispatchExecute :: "'w dispatch_adapter \<Rightarrow> (string \<Rightarrow> string) \<Rightarrow> 'w step_handler" where
  "dispatchExecute a quoted timeout workflowID s attempt w =
     (let kind = normalizeStepKind (s_Kind s) in
      if kind = StepKindRunner then viaHandler (da_Runner a) ''workflow runner adapter is missing'' timeout workflowID s attempt w
      else if kind = StepKindTool then viaHandler (da_Tool a) ''workflow tool adapter is missing'' timeout workflowID s attempt w
      else if kind = StepKindMCP then viaHandler (da_MCP a) ''workflow mcp adapter is missing'' timeout workflowID s attempt w
      else if kind = StepKindSkill then viaHandler (da_Skill a) ''workflow skill adapter is missing'' timeout workflowID s attempt w
      else if kind = StepKindA2A then viaHandler (da_A2A a) ''workflow a2a adapter is missing'' timeout workflowID s attempt w
      else (Err (adapterError (''unsupported workflow step kind '' @ quoted (s_Kind s))), w))"

section \<open>Steps\<close>

definition isTerminal :: "step_status \<Rightarrow> bool" where
  "isTerminal st \<longleftrightarrow> st \<in> {StepStatusSucceeded, StepStatusFailed, StepStatusSkipped, StepStatusCanceled}"

definition depsTerminal :: "(string, step_result) gomap \<Rightarrow> string list \<Rightarrow> bool" where
  "depsTerminal results deps \<longleftrightarrow>
     list_all (\<lambda>d. case fmlookup results d of None \<Rightarrow> False | Some r \<Rightarrow> isTerminal (sr_Status r)) deps"

definition isPending :: "(string, step_result) gomap \<Rightarrow> string \<Rightarrow> bool" where
  "isPending results i \<longleftrightarrow> (case fmlookup results i of None \<Rightarrow> False | Some r \<Rightarrow> sr_Status r = StepStatusPending)"

definition readySteps :: "step list \<Rightarrow> (string, step_result) gomap \<Rightarrow> step list" where
  "readySteps steps results =
     sort_key s_StepID (filter (\<lambda>s. isPending results (s_StepID s) \<and> depsTerminal results (s_DependsOn s)) steps)"

definition conditionMatched :: "step \<Rightarrow> (string, step_result) gomap \<Rightarrow> bool" where
  "conditionMatched s results =
     (if s_Condition s = ConditionOnSuccess then
        list_all (\<lambda>d. case fmlookup results d of None \<Rightarrow> False | Some r \<Rightarrow> sr_Status r = StepStatusSucceeded) (s_DependsOn s)
      else if s_Condition s = ConditionOnFailure then
        s_DependsOn s \<noteq> []
        \<and> list_ex (\<lambda>d. case fmlookup results d of
             None \<Rightarrow> False | Some r \<Rightarrow> sr_Status r \<in> {StepStatusFailed, StepStatusCanceled}) (s_DependsOn s)
      else True)"

definition reasonForStepDispatch :: "step \<Rightarrow> string" where
  "reasonForStepDispatch s =
     (case ParsePrimitive (s_CollabPrimitive s) of
        Some PrimitiveHandoff \<Rightarrow> ''workflow.handoff''
      | Some PrimitiveDelegation \<Rightarrow> ''workflow.delegation''
      | Some PrimitiveAggregation \<Rightarrow> ''workflow.aggregation''
      | None \<Rightarrow>
          if normalizeStepKind (s_Kind s) = StepKindA2A then ''workflow.dispatch_a2a'' else ''workflow.schedule'')"

definition newWorkflowStepTimelineContext :: "step \<Rightarrow> step_context" where
  "newWorkflowStepTimelineContext s =
     (let stepID = TrimSpace (s_StepID s); taskID = TrimSpace (s_TaskID s)
      in \<lparr>sc_stepID = stepID, sc_taskID = (if taskID = [] then stepID else taskID), sc_teamID = TrimSpace (s_TeamID s),
          sc_agentID = TrimSpace (s_AgentID s), sc_peerID = TrimSpace (s_PeerID s),
          sc_dispatchReason = reasonForStepDispatch s\<rparr>)"

definition newWorkflowTimelineContext :: "string \<Rightarrow> string \<Rightarrow> timeline_context" where
  "newWorkflowTimelineContext runID workflowID = \<lparr>tc_runID = TrimSpace runID, tc_workflowID = TrimSpace workflowID\<rparr>"

section \<open>Effects\<close>

definition emitStepTimeline ::
  "'w engine_env \<Rightarrow> timeline_context \<Rightarrow> step_context \<Rightarrow> step_status \<Rightarrow> string \<Rightarrow> 'w run_state \<Rightarrow> 'w run_state" where
  "emitStepTimeline env tctx meta status reason rs =
     (case en_timelineEmitter env of
        None \<Rightarrow> rs
      | Some emit \<Rightarrow>
          let seq = rs_seq rs + 1 in
          case en_now env (rs_world rs) of
            (now, w) \<Rightarrow>
              rs\<lparr>rs_seq := seq,
                 rs_world := emit \<lparr>wt_RunID = tc_runID tctx, wt_WorkflowID = tc_workflowID tctx, wt_Status = status,
                                   wt_Reason = reason, wt_Sequence = seq, wt_Step = meta, wt_Time = now\<rparr> w\<rparr>)"

definition sendEvent :: "'w engine_env \<Rightarrow> stream_event \<Rightarrow> 'w run_state \<Rightarrow> (run_failure, unit) result \<times> 'w run_state" where
  "sendEvent env event rs =
     (case en_onEvent env of
        None \<Rightarrow> (Ok (), rs)
      | Some f \<Rightarrow>
          (case f event (rs_world rs) of
             (None, w) \<Rightarrow> (Ok (), rs\<lparr>rs_world := w\<rparr>)
           | (Some e, w) \<Rightarrow> (Err (RunEventFailed e), rs\<lparr>rs_world := w\<rparr>)))"

definition checkpointOf :: "string \<Rightarrow> string \<Rightarrow> string \<Rightarrow> int \<Rightarrow> int \<Rightarrow> (string, step_result) gomap \<Rightarrow> checkpoint" where
  "checkpointOf runID workflowID status resumeCount now results =
     \<lparr>cp_WorkflowID = workflowID, cp_RunID = TrimSpace runID, cp_Status = TrimSpace status, cp_ResumeCount = resumeCount,
      cp_Steps = fmmap (\<lambda>r. \<lparr>cs_Status = sr_Status r, cs_Attempts = sr_Attempts r\<rparr>) results, cp_UpdatedAt = now\<rparr>"

definition saveCheckpoint ::
  "'w engine_env \<Rightarrow> string \<Rightarrow> string \<Rightarrow> string \<Rightarrow> int \<Rightarrow> 'w run_state \<Rightarrow> (run_failure, unit) result \<times> 'w run_state" where
  "saveCheckpoint env runID workflowID status resumeCount rs =
     (case en_checkpoints env of
        None \<Rightarrow> (Ok (), rs)
      | Some (load, save) \<Rightarrow>
          (case en_now env (rs_world rs) of
             (now, w) \<Rightarrow>
               (case save (checkpointOf runID workflowID status resumeCount now (rs_results rs)) w of
                  (None, w') \<Rightarrow> (Ok (), rs\<lparr>rs_world := w'\<rparr>)
                | (Some e, w') \<Rightarrow> (Err (RunStoreFailed e), rs\<lparr>rs_world := w'\<rparr>))))"

text \<open>Reading and replacing a checkpoint from outside a run.\<close>

definition LoadCheckpoint :: "'w engine_env \<Rightarrow> string \<Rightarrow> 'w \<Rightarrow> (string, checkpoint option) result \<times> 'w" where
  "LoadCheckpoint env workflowID w =
     (case en_checkpoints env of None \<Rightarrow> (Ok None, w) | Some (load, save) \<Rightarrow> load (TrimSpace workflowID) w)"

definition RestoreCheckpoint :: "'w engine_env \<Rightarrow> checkpoint \<Rightarrow> 'w \<Rightarrow> string option \<times> 'w" where
  "RestoreCheckpoint env cp w =
     (case en_checkpoints env of None \<Rightarrow> (None, w) | Some (load, save) \<Rightarrow> save cp w)"

text \<open>Setting the record of a step, which every step of the definition has.\<close>

definition setResult :: "string \<Rightarrow> (step_result \<Rightarrow> step_result) \<Rightarrow> 'w run_state \<Rightarrow> 'w run_state" where
  "setResult i f rs =
     (case fmlookup (rs_results rs) i of None \<Rightarrow> rs | Some r \<Rightarrow> rs\<lparr>rs_results := fmupd i (f r) (rs_results rs)\<rparr>)"

section \<open>Resuming\<close>

fun resumeSteps ::
  "'w engine_env \<Rightarrow> timeline_context \<Rightarrow> (string \<Rightarrow> step_context) \<Rightarrow> (string, checkpoint_step) gomap \<Rightarrow> string list \<Rightarrow>
   'w run_state \<Rightarrow> (run_failure, unit) result \<times> 'w run_state" where
  "resumeSteps env tctx meta saved [] rs = (Ok (), rs)"
| "resumeSteps env tctx meta saved (i # is) rs =
     (case fmlookup saved i of
        None \<Rightarrow> resumeSteps env tctx meta saved is rs
      | Some state \<Rightarrow>
          (case fmlookup (rs_results rs) i of
             None \<Rightarrow> resumeSteps env tctx meta saved is rs
           | Some current \<Rightarrow>
               if cs_Status state \<in> {StepStatusSucceeded, StepStatusSkipped} then
                 let current' = current\<lparr>sr_Status := cs_Status state, sr_Attempts := cs_Attempts state\<rparr>;
                     rs1 = emitStepTimeline env tctx (meta i) (cs_Status state) ''workflow.resume'' (setResult i (\<lambda>_. current') rs)
                 in case sendEvent env (ResumedStep current') rs1 of
                      (Inl e, rs2) \<Rightarrow> (Err e, rs2)
                    | (Inr u, rs2) \<Rightarrow> resumeSteps env tctx meta saved is rs2
               else
                 resumeSteps env tctx meta saved is
                   (setResult i (\<lambda>r. r\<lparr>sr_Status := StepStatusPending, sr_Attempts := 0\<rparr>) rs)))"

definition resumeRun ::
  "map_order \<Rightarrow> 'w engine_env \<Rightarrow> workflow_request \<Rightarrow> string \<Rightarrow> timeline_context \<Rightarrow> (string \<Rightarrow> step_context) \<Rightarrow>
   'w run_state \<Rightarrow> (run_failure, int) result \<times> 'w run_state" where
  "resumeRun ord env req workflowID tctx meta rs =
     (case en_checkpoints env of
        None \<Rightarrow> (Ok 0, rs)
      | Some (load, save) \<Rightarrow>
          if \<not> wr_Resume req then (Ok 0, rs)
          else
            (case load workflowID (rs_world rs) of
               (Inl e, w) \<Rightarrow> (Err (RunStoreFailed e), rs\<lparr>rs_world := w\<rparr>)
             | (Inr None, w) \<Rightarrow> (Ok 0, rs\<lparr>rs_world := w\<rparr>)
             | (Inr (Some cp), w) \<Rightarrow>
                 (case resumeSteps env tctx meta (cp_Steps cp) (ord (sorted_keys (cp_Steps cp))) (rs\<lparr>rs_world := w\<rparr>) of
                    (Inl e, rs1) \<Rightarrow> (Err e, rs1)
                  | (Inr u, rs1) \<Rightarrow> (Ok (cp_ResumeCount cp + 1), rs1))))"

section \<open>The attempts of a step\<close>

definition maxAttempts :: "step \<Rightarrow> int" where
  "maxAttempts s = (let m = wrap64 (rt_MaxAttempts (s_Retry s) + 1) in if m \<le> 0 then 1 else m)"

definition stepTimeout :: "'w engine_env \<Rightarrow> step \<Rightarrow> int" where
  "stepTimeout env s =
     (if 0 < s_Timeout s then s_Timeout s
      else if 0 < en_defaultStepTimeout env then en_defaultStepTimeout env
      else 3000000000)"

definition boundaryOf :: "workflow_request \<Rightarrow> string \<Rightarrow> step \<Rightarrow> int \<Rightarrow> pause_boundary" where
  "boundaryOf req workflowID s attempt =
     \<lparr>pb_WorkflowID = workflowID, pb_RunID = wr_RunID req, pb_SessionID = wr_SessionID req, pb_ParentRunID = wr_ParentRunID req,
      pb_CausationID = wr_CausationID req, pb_Step = s, pb_Attempt = attempt\<rparr>"

definition askPause ::
  "'w engine_env \<Rightarrow> pause_boundary \<Rightarrow> 'w run_state \<Rightarrow> (run_failure, unit) result \<times> 'w run_state" where
  "askPause env boundary rs =
     (case en_pauseController env of
        None \<Rightarrow> (Ok (), rs)
      | Some controller \<Rightarrow>
          (case controller boundary (rs_world rs) of
             (None, w) \<Rightarrow> (Ok (), rs\<lparr>rs_world := w\<rparr>)
           | (Some e, w) \<Rightarrow>
               if er_Pause e then
                 (Err RunContinuationUnsupported,
                  setResult (s_StepID (pb_Step boundary))
                    (\<lambda>r. r\<lparr>sr_Status := StepStatusPending, sr_Attempts := pb_Attempt boundary - 1\<rparr>) (rs\<lparr>rs_world := w\<rparr>))
               else (Err (RunPauseFailed (er_Text e)), rs\<lparr>rs_world := w\<rparr>)))"

text \<open>What one attempt leaves to do: nothing more for this step, or the next attempt.\<close>

datatype attempt_outcome = AttemptDone | AttemptRetry

definition callAdapter ::
  "'w engine_env \<Rightarrow> string \<Rightarrow> step \<Rightarrow> int \<Rightarrow> 'w run_state \<Rightarrow> (step_error, step_output) result \<times> 'w run_state" where
  "callAdapter env workflowID s attempt rs =
     (case en_execute env (stepTimeout env s) workflowID s attempt (rs_world rs) of
        (answer, w) \<Rightarrow> (answer, rs\<lparr>rs_world := w, rs_calls := rs_calls rs @ [(s_StepID s, attempt)]\<rparr>))"

definition afterFailure ::
  "'w engine_env \<Rightarrow> timeline_context \<Rightarrow> step_context \<Rightarrow> step \<Rightarrow> int \<Rightarrow> step_error \<Rightarrow> 'w run_state \<Rightarrow> attempt_outcome \<times> 'w run_state" where
  "afterFailure env tctx meta s attempt e rs =
     (let i = s_StepID s; rs1 = setResult i (\<lambda>r. r\<lparr>sr_Output := noOutput, sr_Error := er_Text e\<rparr>) rs in
      if en_contextErr env (rs_world rs1) \<noteq> None then
        (AttemptDone, emitStepTimeline env tctx meta StepStatusCanceled (sc_dispatchReason meta)
           (setResult i (\<lambda>r. r\<lparr>sr_Status := StepStatusCanceled, sr_Reason := ''cancel.propagated''\<rparr>) rs1))
      else
        let reason = (if er_Deadline e then ''step.timeout'' else ''step.error'');
            rs2 = setResult i (\<lambda>r. r\<lparr>sr_Status := StepStatusFailed, sr_Reason := reason\<rparr>) rs1
        in if attempt < maxAttempts s then
             let rs3 = emitStepTimeline env tctx meta StepStatusPending ''workflow.retry'' rs2 in
             if 0 < rt_Backoff (s_Retry s) then
               (case en_backoff env (rt_Backoff (s_Retry s)) (rs_world rs3) of
                  (ended, w) \<Rightarrow>
                    let rs4 = rs3\<lparr>rs_world := w\<rparr> in
                    (AttemptRetry,
                     if ended then setResult i (\<lambda>r. r\<lparr>sr_Status := StepStatusCanceled, sr_Reason := ''cancel.propagated''\<rparr>) rs4
                     else rs4))
             else (AttemptRetry, rs3)
           else (AttemptDone, emitStepTimeline env tctx meta StepStatusFailed (sc_dispatchReason meta) rs2))"

definition runAttempt ::
  "'w engine_env \<Rightarrow> workflow_request \<Rightarrow> string \<Rightarrow> timeline_context \<Rightarrow> step_context \<Rightarrow> step \<Rightarrow> int \<Rightarrow> 'w run_state \<Rightarrow>
   (run_failure, attempt_outcome) result \<times> 'w run_state" where
  "runAttempt env req workflowID tctx meta s attempt rs =
     (let i = s_StepID s;
          rs1 = emitStepTimeline env tctx meta StepStatusRunning (sc_dispatchReason meta)
                  (setResult i (\<lambda>r. r\<lparr>sr_Attempts := attempt, sr_Status := StepStatusRunning\<rparr>) rs)
      in case askPause env (boundaryOf req workflowID s attempt) rs1 of
           (Inl e, rs2) \<Rightarrow> (Err e, rs2)
         | (Inr u, rs2) \<Rightarrow>
             (case callAdapter env workflowID s attempt rs2 of
                (Inr output, rs3) \<Rightarrow>
                  (Ok AttemptDone,
                   emitStepTimeline env tctx meta StepStatusSucceeded (sc_dispatchReason meta)
                     (setResult i (\<lambda>r. r\<lparr>sr_Status := StepStatusSucceeded, sr_Reason := [], sr_Error := [], sr_Output := output\<rparr>) rs3))
              | (Inl e, rs3) \<Rightarrow>
                  if er_Pause e then
                    (Err RunContinuationUnsupported,
                     setResult i (\<lambda>r. r\<lparr>sr_Status := StepStatusPending, sr_Attempts := attempt - 1\<rparr>) rs3)
                  else (case afterFailure env tctx meta s attempt e rs3 of (outcome, rs4) \<Rightarrow> (Ok outcome, rs4))))"

function attempts ::
  "'w engine_env \<Rightarrow> workflow_request \<Rightarrow> string \<Rightarrow> timeline_context \<Rightarrow> step_context \<Rightarrow> step \<Rightarrow> int \<Rightarrow> 'w run_state \<Rightarrow>
   (run_failure, unit) result \<times> 'w run_state" where
  "attempts env req workflowID tctx meta s attempt rs =
     (if attempt \<le> maxAttempts s then
        (case runAttempt env req workflowID tctx meta s attempt rs of
           (Inl e, rs') \<Rightarrow> (Err e, rs')
         | (Inr AttemptDone, rs') \<Rightarrow> (Ok (), rs')
         | (Inr AttemptRetry, rs') \<Rightarrow> attempts env req workflowID tctx meta s (attempt + 1) rs')
      else (Ok (), rs))"
  by pat_completeness auto
termination
  by (relation "measure (\<lambda>(env, req, workflowID, tctx, meta, s, attempt, rs). nat (maxAttempts s + 1 - attempt))") auto

declare attempts.simps [simp del]

section \<open>Rounds\<close>

definition finishStep ::
  "'w engine_env \<Rightarrow> workflow_request \<Rightarrow> string \<Rightarrow> int \<Rightarrow> string \<Rightarrow> 'w run_state \<Rightarrow> (run_failure, unit) result \<times> 'w run_state" where
  "finishStep env req workflowID resumeCount i rs =
     (case fmlookup (rs_results rs) i of
        None \<Rightarrow> (Ok (), rs)
      | Some r \<Rightarrow>
          (case sendEvent env (StepDone r) rs of
             (Inl e, rs1) \<Rightarrow> (Err e, rs1)
           | (Inr u, rs1) \<Rightarrow> saveCheckpoint env (wr_RunID req) workflowID ''running'' resumeCount rs1))"

definition runStep ::
  "'w engine_env \<Rightarrow> workflow_request \<Rightarrow> string \<Rightarrow> timeline_context \<Rightarrow> int \<Rightarrow> step \<Rightarrow> 'w run_state \<Rightarrow>
   (run_failure, unit) result \<times> 'w run_state" where
  "runStep env req workflowID tctx resumeCount s rs =
     (if \<not> isPending (rs_results rs) (s_StepID s) then (Ok (), rs)
      else
        let i = s_StepID s; meta = newWorkflowStepTimelineContext s; rs1 = rs\<lparr>rs_order := rs_order rs @ [i]\<rparr> in
        if \<not> conditionMatched s (rs_results rs1) then
          finishStep env req workflowID resumeCount i
            (emitStepTimeline env tctx meta StepStatusSkipped (sc_dispatchReason meta)
               (setResult i (\<lambda>r. r\<lparr>sr_Status := StepStatusSkipped, sr_Reason := ''condition.not_matched''\<rparr>) rs1))
        else
          (case attempts env req workflowID tctx meta s 1 rs1 of
             (Inl e, rs2) \<Rightarrow> (Err e, rs2)
           | (Inr u, rs2) \<Rightarrow> finishStep env req workflowID resumeCount i rs2))"

fun runReady ::
  "'w engine_env \<Rightarrow> workflow_request \<Rightarrow> string \<Rightarrow> timeline_context \<Rightarrow> int \<Rightarrow> step list \<Rightarrow> 'w run_state \<Rightarrow>
   (run_failure, unit) result \<times> 'w run_state" where
  "runReady env req workflowID tctx resumeCount [] rs = (Ok (), rs)"
| "runReady env req workflowID tctx resumeCount (s # ss) rs =
     (case runStep env req workflowID tctx resumeCount s rs of
        (Inl e, rs') \<Rightarrow> (Err e, rs')
      | (Inr u, rs') \<Rightarrow> runReady env req workflowID tctx resumeCount ss rs')"

end
