(* ===== verification/Workflow_Run.thy ===== *)
theory Workflow_Run
  imports Workflow_Engine
begin

text \<open>
  What running a step does to the records: it changes only its own, leaves it in a terminal status,
  and calls the adapter once for each attempt, in order. Because every round leaves fewer steps
  pending, the rounds end; with them \<open>execute\<close> is a function like the others.
\<close>

section \<open>What an effect leaves alone\<close>

definition same_records :: "'w run_state \<Rightarrow> 'w run_state \<Rightarrow> bool" where
  "same_records rs rs' \<longleftrightarrow> rs_results rs' = rs_results rs \<and> rs_order rs' = rs_order rs \<and> rs_calls rs' = rs_calls rs"

lemma emitStepTimeline_same [simp]:
  "rs_results (emitStepTimeline env tctx meta st reason rs) = rs_results rs"
  "rs_order (emitStepTimeline env tctx meta st reason rs) = rs_order rs"
  "rs_calls (emitStepTimeline env tctx meta st reason rs) = rs_calls rs"
  by (simp_all add: emitStepTimeline_def Let_def split: option.split prod.split)

lemma sendEvent_same: "sendEvent env ev rs = (r, rs') \<Longrightarrow> same_records rs rs'"
  by (auto simp: sendEvent_def same_records_def split: option.splits prod.splits)

lemma saveCheckpoint_same: "saveCheckpoint env runID wid st n rs = (r, rs') \<Longrightarrow> same_records rs rs'"
  by (auto simp: saveCheckpoint_def same_records_def split: option.splits prod.splits)

lemma finishStep_same: "finishStep env req wid n i rs = (r, rs') \<Longrightarrow> same_records rs rs'"
  by (auto simp: finishStep_def same_records_def split: option.splits prod.splits sum.splits
      dest!: sendEvent_same saveCheckpoint_same)

lemma setResult_same [simp]: "rs_order (setResult i f rs) = rs_order rs" "rs_calls (setResult i f rs) = rs_calls rs"
  by (simp_all add: setResult_def split: option.split)

lemma setResult_lookup [simp]:
  "fmlookup (rs_results (setResult i f rs)) j = (if j = i then map_option f (fmlookup (rs_results rs) i) else fmlookup (rs_results rs) j)"
  by (simp add: setResult_def split: option.split)

section \<open>One attempt\<close>

text \<open>
  \<open>rs'\<close> differs from \<open>rs\<close> only in the record of \<open>i\<close>, which keeps its id, and in the calls \<open>cs\<close>.
\<close>

definition touches :: "string \<Rightarrow> (string \<times> int) list \<Rightarrow> 'w run_state \<Rightarrow> 'w run_state \<Rightarrow> bool" where
  "touches i cs rs rs' \<longleftrightarrow>
     (\<forall>j. j \<noteq> i \<longrightarrow> fmlookup (rs_results rs') j = fmlookup (rs_results rs) j)
     \<and> map_option sr_StepID (fmlookup (rs_results rs') i) = map_option sr_StepID (fmlookup (rs_results rs) i)
     \<and> rs_order rs' = rs_order rs \<and> rs_calls rs' = rs_calls rs @ cs"

definition statusOf :: "'w run_state \<Rightarrow> string \<Rightarrow> step_status option" where
  "statusOf rs i = map_option sr_Status (fmlookup (rs_results rs) i)"

definition attemptsOf :: "'w run_state \<Rightarrow> string \<Rightarrow> int" where
  "attemptsOf rs i = (case fmlookup (rs_results rs) i of None \<Rightarrow> 0 | Some r \<Rightarrow> sr_Attempts r)"

lemma touches_there: "touches i cs rs rs' \<Longrightarrow> fmlookup (rs_results rs') i = None \<longleftrightarrow> fmlookup (rs_results rs) i = None"
  by (metis touches_def option.map_disc_iff)

lemma touches_trans: "touches i cs rs rs1 \<Longrightarrow> touches i ds rs1 rs2 \<Longrightarrow> touches i (cs @ ds) rs rs2"
  by (simp add: touches_def)

lemma askPause_touches:
  assumes "askPause env (boundaryOf req wid s a) rs = (r, rs')"
  shows "touches (s_StepID s) [] rs rs'" and "r = Ok u \<Longrightarrow> rs_results rs' = rs_results rs"
  using assms
  by (auto simp: askPause_def touches_def boundaryOf_def option.map_comp comp_def split: option.splits prod.splits if_splits)

lemma afterFailure_touches:
  assumes "afterFailure env tctx meta s a e rs = (r, rs')"
  shows "touches (s_StepID s) [] rs rs'"
    and "attemptsOf rs' (s_StepID s) = attemptsOf rs (s_StepID s)"
    and "r = AttemptRetry \<Longrightarrow> a < maxAttempts s"
    and "r = AttemptDone \<Longrightarrow> fmlookup (rs_results rs) (s_StepID s) \<noteq> None \<Longrightarrow>
         statusOf rs' (s_StepID s) \<in> {Some StepStatusFailed, Some StepStatusCanceled}"
  using assms
  by (auto simp: afterFailure_def touches_def attemptsOf_def statusOf_def Let_def option.map_comp comp_def split: if_splits prod.splits option.splits)

definition attempted :: "step \<Rightarrow> int \<Rightarrow> (run_failure, attempt_outcome) result \<Rightarrow> 'w run_state \<Rightarrow> 'w run_state \<Rightarrow> bool" where
  "attempted s a r rs rs' \<longleftrightarrow>
     (case r of
        Inl e \<Rightarrow> touches (s_StepID s) [] rs rs' \<or> touches (s_StepID s) [(s_StepID s, a)] rs rs'
      | Inr outcome \<Rightarrow>
          touches (s_StepID s) [(s_StepID s, a)] rs rs' \<and> attemptsOf rs' (s_StepID s) = a
          \<and> (case outcome of
               AttemptRetry \<Rightarrow> a < maxAttempts s
             | AttemptDone \<Rightarrow> statusOf rs' (s_StepID s) \<in> {Some StepStatusSucceeded, Some StepStatusFailed, Some StepStatusCanceled}))"

lemma runAttempt_attempted:
  assumes run: "runAttempt env req wid tctx meta s a rs = (r, rs')" and there: "fmlookup (rs_results rs) (s_StepID s) \<noteq> None"
  shows "attempted s a r rs rs'"
proof -
  let ?i = "s_StepID s"
  let ?rs1 = "emitStepTimeline env tctx meta StepStatusRunning (sc_dispatchReason meta)
    (setResult ?i (\<lambda>r. r\<lparr>sr_Attempts := a, sr_Status := StepStatusRunning\<rparr>) rs)"
  have t1: "touches ?i [] rs ?rs1" "attemptsOf ?rs1 ?i = a" using there by (auto simp: touches_def attemptsOf_def option.map_comp comp_def)
  obtain p rs2 where p: "askPause env (boundaryOf req wid s a) ?rs1 = (p, rs2)" by fastforce
  note t2 = touches_trans [OF t1(1) askPause_touches(1) [OF p]]
  show ?thesis
  proof (cases p)
    case (Inl e)
    then have "r = Err e" "rs' = rs2" using run p by (simp_all add: runAttempt_def Let_def)
    then show ?thesis using t2 by (simp add: attempted_def)
  next
    case (Inr u)
    then have a2: "attemptsOf rs2 ?i = a" using askPause_touches(2) [OF p] t1(2) by (simp add: attemptsOf_def)
    obtain answer rs3 where c: "callAdapter env wid s a rs2 = (answer, rs3)" by fastforce
    then have c3: "touches ?i [(?i, a)] rs2 rs3" "rs_results rs3 = rs_results rs2"
      by (auto simp: callAdapter_def touches_def split: prod.splits)
    have t3: "touches ?i [(?i, a)] rs rs3" using touches_trans [OF t2 c3(1)] by simp
    have a3: "attemptsOf rs3 ?i = a" "fmlookup (rs_results rs3) ?i \<noteq> None"
      using a2 c3(2) touches_there [OF t3] there by (auto simp: attemptsOf_def)
    show ?thesis
    proof (cases answer)
      case (Inr res)
      then have rr: "r = Ok AttemptDone" "rs' = emitStepTimeline env tctx meta StepStatusSucceeded (sc_dispatchReason meta)
          (setResult ?i (\<lambda>r. r\<lparr>sr_Status := StepStatusSucceeded, sr_Reason := [], sr_Error := [], sr_Output := res\<rparr>) rs3)"
        using run p \<open>p = Inr u\<close> c by (simp_all add: runAttempt_def Let_def)
      show ?thesis unfolding rr using t3 a3 by (auto simp: attempted_def touches_def attemptsOf_def statusOf_def option.map_comp comp_def)
    next
      case (Inl e)
      show ?thesis
      proof (cases "er_Pause e")
        case True
        then have rr: "r = Err RunContinuationUnsupported"
          "rs' = setResult ?i (\<lambda>r. r\<lparr>sr_Status := StepStatusPending, sr_Attempts := a - 1\<rparr>) rs3"
          using run p \<open>p = Inr u\<close> c Inl by (simp_all add: runAttempt_def Let_def)
        show ?thesis unfolding rr using t3 by (auto simp: attempted_def touches_def option.map_comp comp_def)
      next
        case False
        obtain outcome rs4 where f: "afterFailure env tctx meta s a e rs3 = (outcome, rs4)" by fastforce
        then have rr: "r = Ok outcome" "rs' = rs4" using run p \<open>p = Inr u\<close> c Inl False by (simp_all add: runAttempt_def Let_def)
        note after = afterFailure_touches [OF f]
        have "touches ?i [(?i, a)] rs rs4" using touches_trans [OF t3 after(1)] by simp
        then show ?thesis unfolding rr using after a3 by (auto simp: attempted_def split: attempt_outcome.split)
      qed
    qed
  qed
qed

section \<open>All attempts of a step\<close>

text \<open>The calls of the attempts from \<open>a\<close> to \<open>n\<close>.\<close>

definition attemptCalls :: "string \<Rightarrow> int \<Rightarrow> int \<Rightarrow> (string \<times> int) list" where
  "attemptCalls i a n = map (Pair i) [a..n]"

lemma attemptCalls_Cons: "a \<le> n \<Longrightarrow> attemptCalls i a n = (i, a) # attemptCalls i (a + 1) n"
  by (simp add: attemptCalls_def upto_rec1)

lemma attempts_done:
  assumes "attempts env req wid tctx meta s a rs = (Ok u, rs')" "fmlookup (rs_results rs) (s_StepID s) \<noteq> None" "a \<le> maxAttempts s"
  shows "a \<le> attemptsOf rs' (s_StepID s) \<and> attemptsOf rs' (s_StepID s) \<le> maxAttempts s
    \<and> touches (s_StepID s) (attemptCalls (s_StepID s) a (attemptsOf rs' (s_StepID s))) rs rs'
    \<and> statusOf rs' (s_StepID s) \<in> {Some StepStatusSucceeded, Some StepStatusFailed, Some StepStatusCanceled}"
  using assms
proof (induction "nat (maxAttempts s - a)" arbitrary: a rs rule: less_induct)
  case less
  let ?i = "s_StepID s"
  obtain r rs1 where r: "runAttempt env req wid tctx meta s a rs = (r, rs1)" by fastforce
  note att = runAttempt_attempted [OF r less.prems(2)]
  have eq: "(case r of Inl e \<Rightarrow> (Err e, rs1) | Inr AttemptDone \<Rightarrow> (Ok (), rs1)
      | Inr AttemptRetry \<Rightarrow> attempts env req wid tctx meta s (a + 1) rs1) = (Ok u, rs')"
    using less.prems(1,3) r by (simp add: attempts.simps [of env req wid tctx meta s a rs])
  then obtain outcome where o: "r = Inr outcome" by (cases r) auto
  show ?case
  proof (cases outcome)
    case AttemptDone
    then have "rs' = rs1" using eq o by simp
    then show ?thesis using att o AttemptDone less.prems(3) by (simp add: attempted_def attemptCalls_def)
  next
    case AttemptRetry
    then have a: "a < maxAttempts s" "touches ?i [(?i, a)] rs rs1" using att o by (auto simp: attempted_def)
    have rec: "attempts env req wid tctx meta s (a + 1) rs1 = (Ok u, rs')" using eq o AttemptRetry by simp
    have "fmlookup (rs_results rs1) ?i \<noteq> None" using touches_there [OF a(2)] less.prems(2) by simp
    from less.hyps [OF _ rec this] a(1)
    have n: "a + 1 \<le> attemptsOf rs' ?i" "attemptsOf rs' ?i \<le> maxAttempts s" "touches ?i (attemptCalls ?i (a + 1) (attemptsOf rs' ?i)) rs1 rs'"
      "statusOf rs' ?i \<in> {Some StepStatusSucceeded, Some StepStatusFailed, Some StepStatusCanceled}" by auto
    then show ?thesis using touches_trans [OF a(2) n(3)] attemptCalls_Cons [of a "attemptsOf rs' ?i" ?i] by auto
  qed
qed

section \<open>A step\<close>

lemma maxAttempts_pos: "1 \<le> maxAttempts s"
  by (simp add: maxAttempts_def Let_def)

text \<open>
  A pending step is run: it is the next in the order, ends in a terminal status, skipped exactly when
  its condition does not hold, and its calls are its attempts.
\<close>

definition ran :: "step \<Rightarrow> 'w run_state \<Rightarrow> 'w run_state \<Rightarrow> bool" where
  "ran s rs rs' \<longleftrightarrow>
     (\<forall>j. j \<noteq> s_StepID s \<longrightarrow> fmlookup (rs_results rs') j = fmlookup (rs_results rs) j)
     \<and> map_option sr_StepID (fmlookup (rs_results rs') (s_StepID s)) = map_option sr_StepID (fmlookup (rs_results rs) (s_StepID s))
     \<and> rs_order rs' = rs_order rs @ [s_StepID s]
     \<and> (if conditionMatched s (rs_results rs) then
          1 \<le> attemptsOf rs' (s_StepID s) \<and> attemptsOf rs' (s_StepID s) \<le> maxAttempts s
          \<and> rs_calls rs' = rs_calls rs @ attemptCalls (s_StepID s) 1 (attemptsOf rs' (s_StepID s))
          \<and> statusOf rs' (s_StepID s) \<in> {Some StepStatusSucceeded, Some StepStatusFailed, Some StepStatusCanceled}
        else
          attemptsOf rs' (s_StepID s) = attemptsOf rs (s_StepID s) \<and> rs_calls rs' = rs_calls rs
          \<and> statusOf rs' (s_StepID s) = Some StepStatusSkipped)"

lemma isPending_there: "isPending results i \<Longrightarrow> fmlookup results i \<noteq> None"
  by (simp add: isPending_def split: option.splits)

lemma runStep_ran:
  assumes run: "runStep env req wid tctx n s rs = (Ok u, rs')" and pend: "isPending (rs_results rs) (s_StepID s)"
  shows "ran s rs rs'"
proof -
  let ?i = "s_StepID s" and ?meta = "newWorkflowStepTimelineContext s" and ?rs1 = "rs\<lparr>rs_order := rs_order rs @ [s_StepID s]\<rparr>"
  have there: "fmlookup (rs_results ?rs1) ?i \<noteq> None" using isPending_there [OF pend] by simp
  show ?thesis
  proof (cases "conditionMatched s (rs_results rs)")
    case True
    obtain a rs2 where a: "attempts env req wid tctx ?meta s 1 ?rs1 = (a, rs2)" by fastforce
    then obtain v where v: "a = Ok v" "finishStep env req wid n ?i rs2 = (Ok u, rs')"
      using run pend True by (cases a) (auto simp: runStep_def Let_def)
    have f: "same_records rs2 rs'" using finishStep_same [OF v(2)] .
    note d = attempts_done [OF _ there maxAttempts_pos, of env req wid tctx ?meta v rs2]
    show ?thesis using d a v(1) f True by (auto simp: ran_def touches_def same_records_def attemptsOf_def statusOf_def option.map_comp comp_def)
  next
    case False
    let ?rs2 = "emitStepTimeline env tctx ?meta StepStatusSkipped (sc_dispatchReason ?meta)
      (setResult ?i (\<lambda>r. r\<lparr>sr_Status := StepStatusSkipped, sr_Reason := ''condition.not_matched''\<rparr>) ?rs1)"
    have "finishStep env req wid n ?i ?rs2 = (Ok u, rs')" using run pend False by (simp add: runStep_def Let_def)
    from finishStep_same [OF this] show ?thesis
      using False there by (auto simp: ran_def same_records_def attemptsOf_def statusOf_def option.map_comp comp_def)
  qed
qed

lemma runStep_skip: "\<not> isPending (rs_results rs) (s_StepID s) \<Longrightarrow> runStep env req wid tctx n s rs = (Ok (), rs)"
  by (simp add: runStep_def)

section \<open>Rounds\<close>

definition pendingCount :: "(string, step_result) gomap \<Rightarrow> nat" where
  "pendingCount results = card {i \<in> fset (fmdom results). isPending results i}"

lemma isPending_dom: "isPending results i \<Longrightarrow> i |\<in>| fmdom results"
  by (simp add: isPending_def fmdom_iff_lookup split: option.splits)

lemma ran_pending:
  assumes "ran s rs rs'"
  shows "isPending (rs_results rs') j \<longleftrightarrow> j \<noteq> s_StepID s \<and> isPending (rs_results rs) j"
proof (cases "j = s_StepID s")
  case True
  then show ?thesis using assms by (auto simp: ran_def statusOf_def isPending_def split: if_splits option.splits)
next
  case False
  then show ?thesis using assms by (simp add: ran_def isPending_def)
qed

lemma pendingCount_eq: "pendingCount results = card {i. isPending results i}"
  using isPending_dom by (metis (mono_tags, lifting) Collect_cong pendingCount_def)

lemma finite_pending: "finite {i. isPending results i}"
proof (rule finite_subset)
  show "{i. isPending results i} \<subseteq> fset (fmdom results)" using isPending_dom by auto
qed simp

lemma ran_count:
  assumes "ran s rs rs'" "isPending (rs_results rs) (s_StepID s)"
  shows "pendingCount (rs_results rs') < pendingCount (rs_results rs)"
  unfolding pendingCount_eq using ran_pending [OF assms(1)] assms(2) finite_pending by (intro psubset_card_mono) auto

lemma runReady_count:
  assumes "runReady env req wid tctx n ss rs = (Ok u, rs')"
  shows "pendingCount (rs_results rs') \<le> pendingCount (rs_results rs)"
    and "ss \<noteq> [] \<Longrightarrow> isPending (rs_results rs) (s_StepID (hd ss)) \<Longrightarrow> pendingCount (rs_results rs') < pendingCount (rs_results rs)"
proof -
  have "pendingCount (rs_results rs') \<le> pendingCount (rs_results rs)
    \<and> (ss \<noteq> [] \<longrightarrow> isPending (rs_results rs) (s_StepID (hd ss)) \<longrightarrow> pendingCount (rs_results rs') < pendingCount (rs_results rs))"
    using assms
  proof (induction ss arbitrary: rs)
    case (Cons s ss)
    obtain a rs1 where a: "runStep env req wid tctx n s rs = (a, rs1)" by fastforce
    then obtain v where v: "a = Ok v" "runReady env req wid tctx n ss rs1 = (Ok u, rs')"
      using Cons.prems by (cases a) auto
    note IH = Cons.IH [OF v(2)]
    show ?case
    proof (cases "isPending (rs_results rs) (s_StepID s)")
      case True
      then have "ran s rs rs1" using runStep_ran a v(1) by blast
      then show ?thesis using ran_count [OF _ True] IH by fastforce
    next
      case False
      then show ?thesis using runStep_skip [OF False] a IH by auto
    qed
  qed simp
  then show "pendingCount (rs_results rs') \<le> pendingCount (rs_results rs)"
    "ss \<noteq> [] \<Longrightarrow> isPending (rs_results rs) (s_StepID (hd ss)) \<Longrightarrow> pendingCount (rs_results rs') < pendingCount (rs_results rs)" by blast+
qed

lemma readySteps_mem:
  "s \<in> set (readySteps steps results) \<longleftrightarrow> s \<in> set steps \<and> isPending results (s_StepID s) \<and> depsTerminal results (s_DependsOn s)"
  by (auto simp: readySteps_def)

function rounds ::
  "'w engine_env \<Rightarrow> workflow_request \<Rightarrow> string \<Rightarrow> timeline_context \<Rightarrow> int \<Rightarrow> step list \<Rightarrow> 'w run_state \<Rightarrow>
   (run_failure, unit) result \<times> 'w run_state" where
  "rounds env req workflowID tctx resumeCount steps rs =
     (let ready = readySteps steps (rs_results rs) in
      if ready = [] then (Ok (), rs)
      else
        (case runReady env req workflowID tctx resumeCount ready rs of
           (Inl e, rs') \<Rightarrow> (Err e, rs')
         | (Inr u, rs') \<Rightarrow> rounds env req workflowID tctx resumeCount steps rs'))"
  by pat_completeness auto
termination
proof (relation "measure (\<lambda>(env, req, workflowID, tctx, resumeCount, steps, rs). pendingCount (rs_results rs))", goal_cases)
  case (2 env req wid tctx n steps rs ready r rs' u)
  then have run: "runReady env req wid tctx n ready rs = (Ok u, rs')" by simp
  have "hd ready \<in> set ready" using 2(2) by simp
  then have "isPending (rs_results rs) (s_StepID (hd ready))" unfolding 2(1) by (simp only: readySteps_mem)
  then show ?case using runReady_count(2) [OF run 2(2)] by simp
qed simp

declare rounds.simps [simp del]

section \<open>The result\<close>

definition isA2AStepByID :: "step list \<Rightarrow> string \<Rightarrow> bool" where
  "isA2AStepByID steps stepID =
     (let i = TrimSpace stepID in
      if i = [] then False
      else (case find (\<lambda>s. TrimSpace (s_StepID s) = i) steps of
              None \<Rightarrow> False
            | Some s \<Rightarrow> normalizeStepKind (s_Kind s) = StepKindA2A))"

text \<open>The status of a run: the first failed step decides, else any canceled one.\<close>

fun workflowStatus :: "string \<Rightarrow> step_result list \<Rightarrow> string" where
  "workflowStatus status [] = status"
| "workflowStatus status (r # rs) =
     (if sr_Status r = StepStatusFailed then ''failed''
      else workflowStatus (if sr_Status r = StepStatusCanceled then ''canceled'' else status) rs)"

definition buildResult ::
  "string \<Rightarrow> string \<Rightarrow> int \<Rightarrow> step list \<Rightarrow> (string, step_result) gomap \<Rightarrow> string list \<Rightarrow> graph_summary \<Rightarrow> workflow_result" where
  "buildResult runID workflowID resumeCount steps results executionOrder summary =
     (let items = List.map_filter (fmlookup results) (sorted_keys results);
          failed = filter (\<lambda>r. sr_Status r = StepStatusFailed) items;
          remote = (\<lambda>r. isA2AStepByID steps (sr_StepID r))
      in \<lparr>wo_RunID = TrimSpace runID, wo_WorkflowID = workflowID, wo_WorkflowStatus = workflowStatus ''succeeded'' items,
          wo_StepTotal = int (length steps), wo_StepFailed = int (length failed),
          wo_RemoteTotal = int (length (filter remote items)), wo_RemoteFailed = int (length (filter remote failed)),
          wo_SubgraphExpansionTotal = gs_SubgraphExpansionTotal summary,
          wo_ConditionTemplateTotal = gs_ConditionTemplateTotal summary, wo_ResumeCount = resumeCount,
          wo_Steps = items, wo_ExecutionOrder = executionOrder\<rparr>)"

section \<open>Execute\<close>

definition newResult :: "step \<Rightarrow> step_result" where
  "newResult s =
     \<lparr>sr_StepID = s_StepID s, sr_TaskID = s_TaskID s, sr_Status = StepStatusPending, sr_Attempts = 0, sr_Reason = [],
      sr_Error = [], sr_Output = noOutput\<rparr>"

definition newResults :: "step list \<Rightarrow> (string, step_result) gomap" where
  "newResults steps = foldl (\<lambda>m s. fmupd (s_StepID s) (newResult s) m) fmempty steps"

definition stepContexts :: "step list \<Rightarrow> string \<Rightarrow> step_context" where
  "stepContexts steps i =
     (case find (\<lambda>s. s_StepID s = i) (rev steps) of
        Some s \<Rightarrow> newWorkflowStepTimelineContext s
      | None \<Rightarrow> \<lparr>sc_stepID = [], sc_taskID = [], sc_teamID = [], sc_agentID = [], sc_peerID = [], sc_dispatchReason = ''workflow.schedule''\<rparr>)"

text \<open>What follows the rounds: the result, the last checkpoint, the last event and the error of the context.\<close>

definition finishRun ::
  "'w engine_env \<Rightarrow> workflow_request \<Rightarrow> workflow_definition \<Rightarrow> graph_summary \<Rightarrow> int \<Rightarrow> 'w run_state \<Rightarrow>
   (run_failure, workflow_result \<times> context_error option) result \<times> 'w run_state" where
  "finishRun env req d summary resumeCount rs =
     (let out = buildResult (wr_RunID req) (wd_WorkflowID d) resumeCount (wd_Steps d) (rs_results rs) (rs_order rs) summary in
      case saveCheckpoint env (wr_RunID req) (wd_WorkflowID d) (wo_WorkflowStatus out) resumeCount rs of
        (Inl e, rs1) \<Rightarrow> (Err e, rs1)
      | (Inr u, rs1) \<Rightarrow>
          (case sendEvent env (Completed out) rs1 of
             (Inl e, rs2) \<Rightarrow> (Err e, rs2)
           | (Inr u, rs2) \<Rightarrow> (Ok (out, en_contextErr env (rs_world rs2)), rs2)))"

definition startState :: "step list \<Rightarrow> 'w \<Rightarrow> 'w run_state" where
  "startState steps w = \<lparr>rs_results = newResults steps, rs_seq = 0, rs_order = [], rs_world = w, rs_calls = []\<rparr>"

definition executeSteps ::
  "map_order \<Rightarrow> 'w engine_env \<Rightarrow> workflow_request \<Rightarrow> workflow_definition \<Rightarrow> graph_summary \<Rightarrow> 'w \<Rightarrow>
   (run_failure, workflow_result \<times> context_error option) result \<times> 'w run_state" where
  "executeSteps ord env req d summary w =
     (let tctx = newWorkflowTimelineContext (wr_RunID req) (wd_WorkflowID d) in
      case resumeRun ord env req (wd_WorkflowID d) tctx (stepContexts (wd_Steps d)) (startState (wd_Steps d) w) of
        (Inl e, rs) \<Rightarrow> (Err e, rs)
      | (Inr resumeCount, rs) \<Rightarrow>
          (case rounds env req (wd_WorkflowID d) tctx resumeCount (wd_Steps d) rs of
             (Inl e, rs') \<Rightarrow> (Err e, rs')
           | (Inr u, rs') \<Rightarrow> finishRun env req d summary resumeCount rs'))"

definition execute ::
  "map_order \<Rightarrow> 'w engine_env \<Rightarrow> workflow_request \<Rightarrow> 'w \<Rightarrow>
   (run_failure, workflow_result \<times> context_error option) result \<times> 'w run_state" where
  "execute ord env req w =
     (case compileDefinition ord (en_graphComposabilityEnabled env) (normalizeDefinition ord (wr_DSL req)) of
        Inl e \<Rightarrow> (Err (RunRejected e), startState [] w)
      | Inr (compiled, summary) \<Rightarrow>
          let errs = ValidateDefinition compiled in
          if errs \<noteq> [] then (Err (RunRejected (Violations errs)), startState [] w)
          else executeSteps ord env req compiled summary w)"

definition Run :: "map_order \<Rightarrow> 'w engine_env \<Rightarrow> workflow_request \<Rightarrow> 'w \<Rightarrow>
   (run_failure, workflow_result \<times> context_error option) result \<times> 'w run_state" where
  "Run ord env req w = execute ord (env\<lparr>en_onEvent := None\<rparr>) req w"

definition Stream :: "map_order \<Rightarrow> 'w engine_env \<Rightarrow> (stream_event \<Rightarrow> 'w \<Rightarrow> string option \<times> 'w) \<Rightarrow> workflow_request \<Rightarrow> 'w \<Rightarrow>
   (run_failure, workflow_result \<times> context_error option) result \<times> 'w run_state" where
  "Stream ord env onEvent req w = execute ord (env\<lparr>en_onEvent := Some onEvent\<rparr>) req w"

end
