(* ===== verification/Workflow_Progress.thy ===== *)
theory Workflow_Progress
  imports Workflow_Run
begin

text \<open>
  What holds throughout a run, and what a run that returns has done: every step is in a terminal
  status, ran after what it depends on, was skipped exactly when its condition did not hold, and was
  tried at most as often as it may be; a step that a checkpoint says is finished is not run again.
\<close>

section \<open>The invariant of the rounds\<close>

text \<open>
  \<open>start\<close> holds the records with which the rounds begin: each pending with no attempt, or finished.
\<close>

definition start_ok :: "step list \<Rightarrow> (string, step_result) gomap \<Rightarrow> bool" where
  "start_ok steps start \<longleftrightarrow>
     fset (fmdom start) = s_StepID ` set steps
     \<and> (\<forall>i r. fmlookup start i = Some r \<longrightarrow>
          sr_StepID r = i \<and> (sr_Status r = StepStatusPending \<and> sr_Attempts r = 0 \<or> sr_Status r \<in> {StepStatusSucceeded, StepStatusSkipped}))"

definition settledIn :: "(string, step_result) gomap \<Rightarrow> string \<Rightarrow> bool" where
  "settledIn results i \<longleftrightarrow> (case fmlookup results i of None \<Rightarrow> False | Some r \<Rightarrow> isTerminal (sr_Status r))"

definition step_done :: "step \<Rightarrow> 'w run_state \<Rightarrow> bool" where
  "step_done s rs \<longleftrightarrow>
     (if conditionMatched s (rs_results rs) then
        1 \<le> attemptsOf rs (s_StepID s) \<and> attemptsOf rs (s_StepID s) \<le> maxAttempts s
        \<and> statusOf rs (s_StepID s) \<in> {Some StepStatusSucceeded, Some StepStatusFailed, Some StepStatusCanceled}
      else attemptsOf rs (s_StepID s) = 0 \<and> statusOf rs (s_StepID s) = Some StepStatusSkipped)"

definition progress :: "step list \<Rightarrow> (string, step_result) gomap \<Rightarrow> 'w run_state \<Rightarrow> bool" where
  "progress steps start rs \<longleftrightarrow>
     fset (fmdom (rs_results rs)) = s_StepID ` set steps
     \<and> (\<forall>i r. fmlookup (rs_results rs) i = Some r \<longrightarrow> sr_StepID r = i)
     \<and> (\<forall>i. i \<notin> set (rs_order rs) \<longrightarrow> fmlookup (rs_results rs) i = fmlookup start i)
     \<and> (\<forall>i \<in> set (rs_order rs). isPending start i)
     \<and> distinct (rs_order rs)
     \<and> (\<forall>s \<in> set steps. s_StepID s \<in> set (rs_order rs) \<longrightarrow> step_done s rs)
     \<and> (\<forall>k < length (rs_order rs). \<forall>s \<in> set steps. s_StepID s = rs_order rs ! k \<longrightarrow>
          (\<forall>d \<in> set (s_DependsOn s). d \<in> set (take k (rs_order rs)) \<or> settledIn start d))
     \<and> rs_calls rs = concat (map (\<lambda>i. attemptCalls i 1 (attemptsOf rs i)) (rs_order rs))"

lemma conditionMatched_cong:
  "(\<And>d. d \<in> set (s_DependsOn s) \<Longrightarrow> fmlookup r d = fmlookup r' d) \<Longrightarrow> conditionMatched s r = conditionMatched s r'"
  unfolding conditionMatched_def by (auto simp: list_all_iff list_ex_iff)

lemma settledIn_not_pending: "settledIn results i \<Longrightarrow> \<not> isPending results i"
  by (auto simp: settledIn_def isPending_def isTerminal_def split: option.splits)

lemma depsTerminal_settled: "depsTerminal results deps \<longleftrightarrow> (\<forall>d \<in> set deps. settledIn results d)"
  by (simp add: depsTerminal_def settledIn_def list_all_iff)

lemma step_done_settled: "step_done s rs \<Longrightarrow> settledIn (rs_results rs) (s_StepID s)"
  by (auto simp: step_done_def settledIn_def statusOf_def isTerminal_def split: if_splits option.splits)

lemma progress_settled:
  assumes "progress steps start rs" "i \<in> set (rs_order rs) \<or> settledIn start i" "i \<in> s_StepID ` set steps"
  shows "settledIn (rs_results rs) i"
proof (cases "i \<in> set (rs_order rs)")
  case True
  then show ?thesis using assms step_done_settled unfolding progress_def by blast
next
  case False
  then show ?thesis using assms by (simp add: progress_def settledIn_def)
qed

lemma progress_same:
  assumes "same_records rs rs'"
  shows "progress steps start rs' \<longleftrightarrow> progress steps start rs"
proof -
  have r: "rs_results rs' = rs_results rs" "rs_order rs' = rs_order rs" "rs_calls rs' = rs_calls rs"
    using assms by (simp_all add: same_records_def)
  have "attemptsOf rs' = attemptsOf rs" "statusOf rs' = statusOf rs" by (simp_all add: fun_eq_iff attemptsOf_def statusOf_def r)
  then show ?thesis unfolding progress_def step_done_def r by simp
qed

lemma progress_start:
  assumes "start_ok steps start" "rs_results rs = start" "rs_order rs = []" "rs_calls rs = []"
  shows "progress steps start rs"
  using assms by (simp add: progress_def start_ok_def)

lemma progress_ran:
  assumes steps: "distinct (map s_StepID steps)" "\<forall>s \<in> set steps. set (s_DependsOn s) \<subseteq> s_StepID ` set steps"
    and start: "start_ok steps start" and prog: "progress steps start rs" and run: "ran s rs rs'"
    and s: "s \<in> set steps" and pend: "isPending (rs_results rs) (s_StepID s)" and deps: "depsTerminal (rs_results rs) (s_DependsOn s)"
  shows "progress steps start rs'"
proof -
  let ?i = "s_StepID s"
  have fresh: "?i \<notin> set (rs_order rs)"
    using prog pend s step_done_settled settledIn_not_pending unfolding progress_def by blast
  have start_i: "fmlookup start ?i = fmlookup (rs_results rs) ?i" using prog fresh by (simp add: progress_def)
  have zero: "attemptsOf rs ?i = 0"
  proof -
    obtain r where r: "fmlookup (rs_results rs) ?i = Some r" "sr_Status r = StepStatusPending"
      using pend by (auto simp: isPending_def split: option.splits)
    then have "sr_Attempts r = 0" using start start_i unfolding start_ok_def by fastforce
    then show ?thesis using r by (simp add: attemptsOf_def)
  qed
  have other: "fmlookup (rs_results rs') j = fmlookup (rs_results rs) j" if "j \<noteq> ?i" for j using run that by (simp add: ran_def)
  have order: "rs_order rs' = rs_order rs @ [?i]" using run by (simp add: ran_def)
  have there: "fmlookup (rs_results rs') ?i \<noteq> None" using run by (auto simp: ran_def statusOf_def split: if_splits)
  have unique: "t = s" if "t \<in> set steps" "s_StepID t = ?i" for t using steps(1) s that by (simp add: distinct_map inj_on_def)
  have no_dep: "?i \<notin> set (s_DependsOn t)" if "\<forall>d \<in> set (s_DependsOn t). settledIn (rs_results rs) d" for t
    using that pend settledIn_not_pending by blast
  have matched: "conditionMatched t (rs_results rs') = conditionMatched t (rs_results rs)" if "\<forall>d \<in> set (s_DependsOn t). settledIn (rs_results rs) d" for t
    using no_dep [OF that] other by (intro conditionMatched_cong) metis
  have deps': "\<forall>d \<in> set (s_DependsOn s). settledIn (rs_results rs) d" using deps by (simp add: depsTerminal_settled)
  have dom: "fset (fmdom (rs_results rs')) = s_StepID ` set steps"
  proof -
    have "j |\<in>| fmdom (rs_results rs') \<longleftrightarrow> j |\<in>| fmdom (rs_results rs)" for j
      using other [of j] there isPending_there [OF pend] by (cases "j = ?i") (auto simp: fmdom_iff_lookup)
    then show ?thesis using prog by (auto simp: progress_def)
  qed
  have done_new: "step_done s rs'"
    using run matched [OF deps'] zero by (simp add: ran_def step_done_def split: if_splits)
  have done_old: "step_done t rs'" if t: "t \<in> set steps" "s_StepID t \<in> set (rs_order rs)" for t
  proof -
    have old: "step_done t rs" using prog t by (simp add: progress_def)
    have "\<forall>d \<in> set (s_DependsOn t). settledIn (rs_results rs) d"
    proof
      fix d assume d: "d \<in> set (s_DependsOn t)"
      obtain k where k: "k < length (rs_order rs)" "s_StepID t = rs_order rs ! k" using t(2) by (metis in_set_conv_nth)
      then have "d \<in> set (take k (rs_order rs)) \<or> settledIn start d" using prog t(1) d unfolding progress_def by blast
      then have "d \<in> set (rs_order rs) \<or> settledIn start d" using in_set_takeD by fast
      moreover have "d \<in> s_StepID ` set steps" using steps(2) t(1) d by blast
      ultimately show "settledIn (rs_results rs) d" using progress_settled [OF prog] by blast
    qed
    note m = matched [OF this]
    have "s_StepID t \<noteq> ?i" using t(2) fresh by metis
    note o = other [OF this]
    show ?thesis using old unfolding step_done_def attemptsOf_def statusOf_def m o .
  qed
  have place: "d \<in> set (take k (rs_order rs')) \<or> settledIn start d"
    if k: "k < length (rs_order rs')" "t \<in> set steps" "s_StepID t = rs_order rs' ! k" "d \<in> set (s_DependsOn t)" for k t d
  proof (cases "k < length (rs_order rs)")
    case True
    then show ?thesis using prog k by (auto simp: progress_def order nth_append)
  next
    case False
    then have "k = length (rs_order rs)" using k(1) order by simp
    then have "t = s" using unique k(2,3) order by simp
    then have "settledIn (rs_results rs) d" using deps' k(4) by blast
    then have "d \<in> set (rs_order rs) \<or> settledIn start d" using prog by (cases "d \<in> set (rs_order rs)") (auto simp: progress_def settledIn_def)
    then show ?thesis using \<open>k = length (rs_order rs)\<close> order by simp
  qed
  have calls: "rs_calls rs' = concat (map (\<lambda>i. attemptCalls i 1 (attemptsOf rs' i)) (rs_order rs'))"
  proof -
    have same: "map (\<lambda>i. attemptCalls i 1 (attemptsOf rs' i)) (rs_order rs) = map (\<lambda>i. attemptCalls i 1 (attemptsOf rs i)) (rs_order rs)"
      using fresh other by (intro map_cong refl) (metis attemptsOf_def)
    have "rs_calls rs' = rs_calls rs @ attemptCalls ?i 1 (attemptsOf rs' ?i)"
      using run zero by (auto simp: ran_def attemptCalls_def split: if_splits)
    moreover have "rs_calls rs = concat (map (\<lambda>i. attemptCalls i 1 (attemptsOf rs i)) (rs_order rs))"
      using prog by (simp add: progress_def)
    ultimately show ?thesis unfolding order map_append concat_append same by simp
  qed
  show ?thesis
    unfolding progress_def
  proof (intro conjI)
    show "fset (fmdom (rs_results rs')) = s_StepID ` set steps" by (rule dom)
    show "\<forall>j r. fmlookup (rs_results rs') j = Some r \<longrightarrow> sr_StepID r = j"
    proof (intro allI impI)
      fix j r assume r: "fmlookup (rs_results rs') j = Some r"
      have ids: "\<forall>j r. fmlookup (rs_results rs) j = Some r \<longrightarrow> sr_StepID r = j" using prog by (simp add: progress_def)
      show "sr_StepID r = j"
      proof (cases "j = ?i")
        case True
        obtain q where "fmlookup (rs_results rs) ?i = Some q" using isPending_there [OF pend] by blast
        then show ?thesis using ids r run True by (auto simp: ran_def)
      next
        case False
        then show ?thesis using ids r other by simp
      qed
    qed
    show "\<forall>j. j \<notin> set (rs_order rs') \<longrightarrow> fmlookup (rs_results rs') j = fmlookup start j"
      using prog other by (auto simp: order progress_def)
    show "\<forall>j \<in> set (rs_order rs'). isPending start j"
      using prog pend start_i by (auto simp: order progress_def isPending_def)
    show "distinct (rs_order rs')" using prog fresh by (simp add: order progress_def)
    show "\<forall>t \<in> set steps. s_StepID t \<in> set (rs_order rs') \<longrightarrow> step_done t rs'"
      using done_new done_old unique by (auto simp: order)
    show "\<forall>k < length (rs_order rs'). \<forall>t \<in> set steps. s_StepID t = rs_order rs' ! k \<longrightarrow>
        (\<forall>d \<in> set (s_DependsOn t). d \<in> set (take k (rs_order rs')) \<or> settledIn start d)" using place by blast
    show "rs_calls rs' = concat (map (\<lambda>i. attemptCalls i 1 (attemptsOf rs' i)) (rs_order rs'))" by (rule calls)
  qed
qed

lemma progress_ready:
  assumes steps: "distinct (map s_StepID steps)" "\<forall>s \<in> set steps. set (s_DependsOn s) \<subseteq> s_StepID ` set steps"
    and start: "start_ok steps start"
  shows "runReady env req wid tctx n ss rs = (Ok u, rs') \<Longrightarrow> progress steps start rs \<Longrightarrow>
    \<forall>s \<in> set ss. s \<in> set steps \<and> depsTerminal (rs_results rs) (s_DependsOn s) \<Longrightarrow> progress steps start rs'"
proof (induction ss arbitrary: rs)
  case (Cons s ss)
  obtain a rs1 where a: "runStep env req wid tctx n s rs = (a, rs1)" by fastforce
  then obtain v where v: "a = Ok v" "runReady env req wid tctx n ss rs1 = (Ok u, rs')"
    using Cons.prems(1) by (cases a) auto
  show ?case
  proof (cases "isPending (rs_results rs) (s_StepID s)")
    case True
    have r: "ran s rs rs1" using runStep_ran [OF _ True] a v(1) by blast
    have p: "progress steps start rs1"
      using progress_ran [OF steps start Cons.prems(2) r _ True] Cons.prems(3) by simp
    have "depsTerminal (rs_results rs1) (s_DependsOn t)" if "t \<in> set ss" for t
    proof -
      have "settledIn (rs_results rs1) d" if d: "d \<in> set (s_DependsOn t)" for d
      proof -
        have "settledIn (rs_results rs) d" using Cons.prems(3) \<open>t \<in> set ss\<close> d by (auto simp: depsTerminal_settled)
        moreover from this have "d \<noteq> s_StepID s" using True settledIn_not_pending by blast
        ultimately show ?thesis using r by (simp add: ran_def settledIn_def)
      qed
      then show ?thesis by (simp add: depsTerminal_settled)
    qed
    then show ?thesis using Cons.IH [OF v(2) p] Cons.prems(3) by simp
  next
    case False
    then have "rs1 = rs" using runStep_skip [OF False] a by simp
    then show ?thesis using Cons.IH [OF v(2)] Cons.prems by simp
  qed
qed simp

lemma progress_rounds:
  assumes steps: "distinct (map s_StepID steps)" "\<forall>s \<in> set steps. set (s_DependsOn s) \<subseteq> s_StepID ` set steps"
    and start: "start_ok steps start"
  shows "rounds env req wid tctx n steps rs = (Ok u, rs') \<Longrightarrow> progress steps start rs \<Longrightarrow>
    progress steps start rs' \<and> readySteps steps (rs_results rs') = []"
proof (induction "pendingCount (rs_results rs)" arbitrary: rs rule: less_induct)
  case less
  let ?ready = "readySteps steps (rs_results rs)"
  show ?case
  proof (cases "?ready = []")
    case True
    then have "rs' = rs" using less.prems(1) by (simp add: rounds.simps [of env req wid tctx n steps rs])
    then show ?thesis using True less.prems(2) by simp
  next
    case False
    obtain a rs1 where a: "runReady env req wid tctx n ?ready rs = (a, rs1)" by fastforce
    then obtain v where v: "a = Ok v" "rounds env req wid tctx n steps rs1 = (Ok u, rs')"
      using less.prems(1) False by (cases a) (auto simp: rounds.simps [of env req wid tctx n steps rs] Let_def)
    have run: "runReady env req wid tctx n ?ready rs = (Ok v, rs1)" using a v(1) by simp
    have "hd ?ready \<in> set ?ready" using False by simp
    then have "pendingCount (rs_results rs1) < pendingCount (rs_results rs)"
      using runReady_count(2) [OF run False] unfolding readySteps_mem by blast
    moreover have "progress steps start rs1"
      using progress_ready [OF steps start run less.prems(2)] by (simp add: readySteps_mem)
    ultimately show ?thesis using less.hyps v(2) by blast
  qed
qed

text \<open>With no cycle, nothing is pending once nothing is ready.\<close>

lemma nothing_pending:
  assumes steps: "distinct (map s_StepID steps)" "\<forall>s \<in> set steps. set (s_DependsOn s) \<subseteq> s_StepID ` set steps"
    and acyc: "acyclic (dep_edges (map s_StepID steps) (stepDeps steps))"
    and start: "start_ok steps start" and prog: "progress steps start rs" and none: "readySteps steps (rs_results rs) = []"
    and s: "s \<in> set steps"
  shows "settledIn (rs_results rs) (s_StepID s)"
proof -
  have edges: "dep_edges (map s_StepID steps) (stepDeps steps) = edges_of steps" by (rule edges_of_dep_edges [OF steps(1)])
  have settled_or_pending: "settledIn (rs_results rs) i \<or> isPending (rs_results rs) i" if i: "i \<in> s_StepID ` set steps" for i
  proof (cases "i \<in> set (rs_order rs)")
    case True
    then show ?thesis using progress_settled [OF prog] i by blast
  next
    case False
    then have eq: "fmlookup (rs_results rs) i = fmlookup start i" using prog by (simp add: progress_def)
    have "i |\<in>| fmdom start" using start i by (simp add: start_ok_def)
    then obtain r where r: "fmlookup start i = Some r" by (auto simp: fmdom_iff_lookup)
    then have "sr_Status r \<in> {StepStatusPending, StepStatusSucceeded, StepStatusSkipped}" using start unfolding start_ok_def by blast
    then show ?thesis using eq r by (auto simp: settledIn_def isPending_def isTerminal_def)
  qed
  have "wf (edges_of steps)" using acyc edges finite_dep_edges finite_acyclic_wf by metis
  then have "\<forall>s \<in> set steps. i = s_StepID s \<longrightarrow> settledIn (rs_results rs) i" for i
  proof (induction i)
    case (less i)
    show ?case
    proof (intro ballI impI)
      fix s assume s: "s \<in> set steps" "i = s_StepID s"
      have "settledIn (rs_results rs) d" if d: "d \<in> set (s_DependsOn s)" for d
      proof -
        obtain t where "t \<in> set steps" "d = s_StepID t" using steps(2) s(1) d by blast
        moreover have "(d, i) \<in> edges_of steps" using s d by (intro edges_ofI [of s]) auto
        ultimately show ?thesis using less by blast
      qed
      then have deps: "depsTerminal (rs_results rs) (s_DependsOn s)" by (simp add: depsTerminal_settled)
      have "\<not> isPending (rs_results rs) i"
      proof
        assume "isPending (rs_results rs) i"
        then have "s \<in> set (readySteps steps (rs_results rs))" using s deps by (simp add: readySteps_mem)
        then show False using none by simp
      qed
      then show "settledIn (rs_results rs) i" using settled_or_pending s by blast
    qed
  qed
  then show ?thesis using s by blast
qed

section \<open>Where the rounds start\<close>

lemma newResults_lookup:
  "distinct (map s_StepID steps) \<Longrightarrow> s \<in> set steps \<Longrightarrow> fmlookup (newResults steps) (s_StepID s) = Some (newResult s)"
  by (induction steps rule: rev_induct) (auto simp: newResults_def image_iff)

lemma newResults_dom: "fset (fmdom (newResults steps)) = s_StepID ` set steps"
  by (induction steps rule: rev_induct) (auto simp: newResults_def)

lemma newResults_ok: "start_ok steps (newResults steps)"
proof -
  have "fmlookup (newResults steps) i = Some r \<Longrightarrow> sr_StepID r = i \<and> sr_Status r = StepStatusPending \<and> sr_Attempts r = 0" for i r
    by (induction steps rule: rev_induct) (auto simp: newResults_def newResult_def split: if_splits)
  then show ?thesis by (auto simp: start_ok_def newResults_dom)
qed

text \<open>
  Resuming: a step is finished at the start when the checkpoint says so, and is pending otherwise.
\<close>

definition resumeRecord :: "checkpoint_step \<Rightarrow> step_result \<Rightarrow> step_result" where
  "resumeRecord c r =
     (if cs_Status c \<in> {StepStatusSucceeded, StepStatusSkipped} then r\<lparr>sr_Status := cs_Status c, sr_Attempts := cs_Attempts c\<rparr>
      else r\<lparr>sr_Status := StepStatusPending, sr_Attempts := 0\<rparr>)"

definition restoreFrom :: "(string, checkpoint_step) gomap \<Rightarrow> string \<Rightarrow> step_result \<Rightarrow> step_result" where
  "restoreFrom saved i r = (case fmlookup saved i of None \<Rightarrow> r | Some c \<Rightarrow> resumeRecord c r)"

lemma resumeSteps_restored:
  "resumeSteps env tctx meta saved is rs = (Ok u, rs') \<Longrightarrow> distinct is \<Longrightarrow>
   (\<forall>j. fmlookup (rs_results rs') j = map_option (if j \<in> set is then restoreFrom saved j else (\<lambda>r. r)) (fmlookup (rs_results rs) j))
   \<and> rs_order rs' = rs_order rs \<and> rs_calls rs' = rs_calls rs"
proof (induction "is" arbitrary: rs)
  case (Cons i "is")
  have i: "i \<notin> set is" "distinct is" using Cons.prems(2) by simp_all
  obtain rs1 where rec: "resumeSteps env tctx meta saved is rs1 = (Ok u, rs')"
    and one: "\<And>j. fmlookup (rs_results rs1) j = (if j = i then map_option (restoreFrom saved i) (fmlookup (rs_results rs) i) else fmlookup (rs_results rs) j)"
      "rs_order rs1 = rs_order rs" "rs_calls rs1 = rs_calls rs"
  proof (cases "fmlookup saved i")
    case None
    then have "resumeSteps env tctx meta saved is rs = (Ok u, rs')" using Cons.prems(1) by simp
    moreover have "restoreFrom saved i = (\<lambda>r. r)" using None by (simp add: restoreFrom_def fun_eq_iff)
    ultimately show ?thesis by (intro that [of rs]) (auto simp: option.map_ident)
  next
    case (Some c)
    show ?thesis
    proof (cases "fmlookup (rs_results rs) i")
      case None
      then have "resumeSteps env tctx meta saved is rs = (Ok u, rs')" using Cons.prems(1) Some by simp
      then show ?thesis using None by (intro that [of rs]) auto
    next
      case (Some r)
      show ?thesis
      proof (cases "cs_Status c \<in> {StepStatusSucceeded, StepStatusSkipped}")
        case True
        let ?r = "r\<lparr>sr_Status := cs_Status c, sr_Attempts := cs_Attempts c\<rparr>"
        let ?rs1 = "emitStepTimeline env tctx (meta i) (cs_Status c) ''workflow.resume'' (setResult i (\<lambda>_. ?r) rs)"
        obtain a rs2 where a: "sendEvent env (ResumedStep ?r) ?rs1 = (a, rs2)" by fastforce
        then obtain v where v: "a = Ok v" "resumeSteps env tctx meta saved is rs2 = (Ok u, rs')"
          using Cons.prems(1) \<open>fmlookup saved i = Some c\<close> Some True by (cases a) (auto simp: Let_def)
        have "same_records ?rs1 rs2" using sendEvent_same [OF a] .
        then show ?thesis using v(2) \<open>fmlookup saved i = Some c\<close> Some True
          by (intro that [of rs2]) (auto simp: same_records_def restoreFrom_def resumeRecord_def)
      next
        case False
        let ?rs1 = "setResult i (\<lambda>r. r\<lparr>sr_Status := StepStatusPending, sr_Attempts := 0\<rparr>) rs"
        have "resumeSteps env tctx meta saved is ?rs1 = (Ok u, rs')"
          using Cons.prems(1) \<open>fmlookup saved i = Some c\<close> Some False by simp
        then show ?thesis using \<open>fmlookup saved i = Some c\<close> Some False
          by (intro that [of ?rs1]) (auto simp: restoreFrom_def resumeRecord_def)
      qed
    qed
  qed
  show ?case using Cons.IH [OF rec i(2)] one i(1) by (auto simp: option.map_ident)
qed (simp add: option.map_ident)

text \<open>The records with which a run begins, given the checkpoint it found, if any.\<close>

definition startRecords :: "step list \<Rightarrow> checkpoint option \<Rightarrow> string \<Rightarrow> step_result option" where
  "startRecords steps found i =
     map_option (case found of None \<Rightarrow> (\<lambda>r. r) | Some cp \<Rightarrow> restoreFrom (cp_Steps cp) i) (fmlookup (newResults steps) i)"

definition foundCheckpoint :: "'w engine_env \<Rightarrow> workflow_request \<Rightarrow> string \<Rightarrow> 'w \<Rightarrow> checkpoint option" where
  "foundCheckpoint env req workflowID w =
     (case en_checkpoints env of
        None \<Rightarrow> None
      | Some (load, save) \<Rightarrow>
          if wr_Resume req then (case load workflowID w of (Inr (Some cp), w') \<Rightarrow> Some cp | _ \<Rightarrow> None) else None)"

lemma resumeRun_start:
  assumes run: "resumeRun ord env req wid tctx meta (startState steps w) = (Ok n, rs)"
    and ord: "\<And>xs. mset (ord xs) = mset xs"
  shows "fmlookup (rs_results rs) i = startRecords steps (foundCheckpoint env req wid w) i"
    and "start_ok steps (rs_results rs)" and "rs_order rs = []" and "rs_calls rs = []"
    and "n = (case foundCheckpoint env req wid w of None \<Rightarrow> 0 | Some cp \<Rightarrow> cp_ResumeCount cp + 1)"
proof -
  let ?rs0 = "startState steps w"
  have init: "rs_results ?rs0 = newResults steps" "rs_order ?rs0 = []" "rs_calls ?rs0 = []" "rs_world ?rs0 = w"
    by (simp_all add: startState_def)
  have all: "(\<forall>j. fmlookup (rs_results rs) j = startRecords steps (foundCheckpoint env req wid w) j) \<and> rs_order rs = [] \<and> rs_calls rs = []
      \<and> n = (case foundCheckpoint env req wid w of None \<Rightarrow> 0 | Some cp \<Rightarrow> cp_ResumeCount cp + 1)"
  proof (cases "foundCheckpoint env req wid w")
    case None
    then have "rs_results rs = newResults steps" "rs_order rs = []" "rs_calls rs = []" "n = 0"
      using run init by (auto simp: resumeRun_def foundCheckpoint_def split: option.splits if_splits prod.splits sum.splits)
    then show ?thesis using None by (simp add: startRecords_def option.map_ident)
  next
    case (Some cp)
    then obtain load save w1 where l: "en_checkpoints env = Some (load, save)" "wr_Resume req" "load wid w = (Inr (Some cp), w1)"
      by (auto simp: foundCheckpoint_def split: option.splits if_splits prod.splits sum.splits)
    let ?is = "ord (sorted_keys (cp_Steps cp))" and ?rs1 = "?rs0\<lparr>rs_world := w1\<rparr>"
    obtain a rs2 where a: "resumeSteps env tctx meta (cp_Steps cp) ?is ?rs1 = (a, rs2)" by fastforce
    then obtain v where v: "a = Ok v" "rs = rs2" "n = cp_ResumeCount cp + 1"
      using run l init(4) by (cases a) (auto simp: resumeRun_def)
    have ks: "distinct ?is" "set ?is = fset (fmdom (cp_Steps cp))"
      using ord [of "sorted_keys (cp_Steps cp)"] mset_eq_imp_distinct_iff mset_eq_setD by (fastforce simp: set_sorted_keys)+
    have "resumeSteps env tctx meta (cp_Steps cp) ?is ?rs1 = (Ok v, rs)" using a v by simp
    note r = resumeSteps_restored [OF this ks(1)]
    have "fmlookup (rs_results rs) j = startRecords steps (Some cp) j" for j
    proof -
      have "restoreFrom (cp_Steps cp) j = (\<lambda>r. r)" if "j \<notin> set ?is"
        using that ks(2) by (auto simp: restoreFrom_def fun_eq_iff fmdom_notD)
      then show ?thesis using r init(1) by (cases "j \<in> set ?is") (simp_all add: startRecords_def)
    qed
    then show ?thesis using r init Some v(3) by simp
  qed
  then show "fmlookup (rs_results rs) i = startRecords steps (foundCheckpoint env req wid w) i" "rs_order rs = []" "rs_calls rs = []"
    "n = (case foundCheckpoint env req wid w of None \<Rightarrow> 0 | Some cp \<Rightarrow> cp_ResumeCount cp + 1)" by auto
  show "start_ok steps (rs_results rs)"
  proof -
    have new: "start_ok steps (newResults steps)" by (rule newResults_ok)
    have "fset (fmdom (rs_results rs)) = fset (fmdom (newResults steps))"
      using all by (auto simp: fmdom_iff_lookup startRecords_def)
    moreover have "sr_StepID r = j \<and> (sr_Status r = StepStatusPending \<and> sr_Attempts r = 0 \<or> sr_Status r \<in> {StepStatusSucceeded, StepStatusSkipped})"
      if r: "fmlookup (rs_results rs) j = Some r" for j r
    proof -
      obtain q where q: "fmlookup (newResults steps) j = Some q"
        "r = (case foundCheckpoint env req wid w of None \<Rightarrow> q | Some cp \<Rightarrow> restoreFrom (cp_Steps cp) j q)"
        using r all by (auto simp: startRecords_def split: option.splits)
      have "sr_StepID q = j" "sr_Status q = StepStatusPending \<and> sr_Attempts q = 0 \<or> sr_Status q \<in> {StepStatusSucceeded, StepStatusSkipped}"
        using new q(1) unfolding start_ok_def by blast+
      then show ?thesis unfolding q(2) by (auto simp: restoreFrom_def resumeRecord_def split: option.splits)
    qed
    ultimately show ?thesis using new unfolding start_ok_def by simp
  qed
qed

section \<open>A run that returns\<close>

text \<open>
  What a run did, in terms of the records it began with: \<open>steps\<close> are the steps of the compiled
  definition, \<open>found\<close> the checkpoint that was loaded, if any.
\<close>

definition accomplished :: "step list \<Rightarrow> checkpoint option \<Rightarrow> 'w run_state \<Rightarrow> bool" where
  "accomplished steps found rs \<longleftrightarrow>
     (\<exists>start. start_ok steps start \<and> (\<forall>i. fmlookup start i = startRecords steps found i) \<and> progress steps start rs)
     \<and> (\<forall>s \<in> set steps. settledIn (rs_results rs) (s_StepID s))"

theorem execute_accomplished:
  assumes run: "execute ord env req w = (Ok (out, cerr), rs)" and ord: "\<And>xs. mset (ord xs) = mset xs"
  shows "\<exists>d summary n. compileDefinition ord (en_graphComposabilityEnabled env) (normalizeDefinition ord (wr_DSL req)) = Ok (d, summary)
    \<and> workflow_ok d \<and> accomplished (wd_Steps d) (foundCheckpoint env req (wd_WorkflowID d) w) rs
    \<and> n = (case foundCheckpoint env req (wd_WorkflowID d) w of None \<Rightarrow> 0 | Some cp \<Rightarrow> cp_ResumeCount cp + 1)
    \<and> out = buildResult (wr_RunID req) (wd_WorkflowID d) n (wd_Steps d) (rs_results rs) (rs_order rs) summary"
proof -
  obtain d summary where d: "compileDefinition ord (en_graphComposabilityEnabled env) (normalizeDefinition ord (wr_DSL req)) = Ok (d, summary)"
    using run by (auto simp: execute_def split: sum.splits)
  then have ok: "workflow_ok d" and ex: "executeSteps ord env req d summary w = (Ok (out, cerr), rs)"
    using run by (auto simp: execute_def Let_def ValidateDefinition_Nil [symmetric] split: if_splits)
  let ?steps = "wd_Steps d" and ?wid = "wd_WorkflowID d" and ?tctx = "newWorkflowTimelineContext (wr_RunID req) (wd_WorkflowID d)"
  obtain a rs1 where a: "resumeRun ord env req ?wid ?tctx (stepContexts ?steps) (startState ?steps w) = (a, rs1)" by fastforce
  obtain n where n: "a = Ok n" using ex a by (cases a) (auto simp: executeSteps_def Let_def)
  obtain b rs2 where b: "rounds env req ?wid ?tctx n ?steps rs1 = (b, rs2)" by fastforce
  obtain v where v: "b = Ok v" using ex a n b by (cases b) (auto simp: executeSteps_def Let_def)
  have fin: "finishRun env req d summary n rs2 = (Ok (out, cerr), rs)" using ex a n b v by (simp add: executeSteps_def Let_def)
  have same: "same_records rs2 rs" and out: "out = buildResult (wr_RunID req) ?wid n ?steps (rs_results rs2) (rs_order rs2) summary"
    using fin by (auto simp: finishRun_def Let_def same_records_def split: prod.splits sum.splits dest!: saveCheckpoint_same sendEvent_same)
  note start = resumeRun_start [OF a [unfolded n] ord]
  have steps: "distinct (map s_StepID ?steps)" "\<forall>s \<in> set ?steps. set (s_DependsOn s) \<subseteq> s_StepID ` set ?steps"
    and acyc: "acyclic (dep_edges (map s_StepID ?steps) (stepDeps ?steps))"
    using ok by (auto simp: workflow_ok_def Let_def list_all_iff)
  have p1: "progress ?steps (rs_results rs1) rs1" using progress_start [OF start(2) refl start(3,4)] .
  have p2: "progress ?steps (rs_results rs1) rs2" "readySteps ?steps (rs_results rs2) = []"
    using progress_rounds [OF steps start(2) b [unfolded v] p1] by blast+
  have "progress ?steps (rs_results rs1) rs"
    using p2(1) progress_same [OF same] by simp
  moreover have "\<forall>s \<in> set ?steps. settledIn (rs_results rs) (s_StepID s)"
    using nothing_pending [OF steps acyc start(2) p2] same by (simp add: same_records_def)
  ultimately have "accomplished ?steps (foundCheckpoint env req ?wid w) rs" using start(1,2) unfolding accomplished_def by blast
  then show ?thesis using d ok start(5) out same unfolding same_records_def by auto
qed

end
