(* ===== verification/Workflow_Store.thy ===== *)
theory Workflow_Store
  imports Workflow_Progress
begin

text \<open>
  The checkpoint stores (\<open>src/orchestration/workflow/legacy_checkpoint.go\<close>) and what the engine gets
  from them. The contract of a store is that it loads what was last saved for a workflow; with it, a
  run leaves a checkpoint from which a later run goes on with the steps that are not finished.

  The file store keeps one file for each workflow. The JSON codec and the faults of the file system
  are parameters, as in the other file stores; the names of the files are relative to the root. The
  file is written in place: \<open>cc_torn\<close> is what a write that fails leaves in it, if it got that far.
\<close>

section \<open>The memory store\<close>

type_synonym checkpoint_map = "(string, checkpoint) gomap"

definition memoryLoad :: "string \<Rightarrow> checkpoint_map \<times> 'x \<Rightarrow> (string, checkpoint option) result \<times> (checkpoint_map \<times> 'x)" where
  "memoryLoad workflowID w = (Ok (fmlookup (fst w) (TrimSpace workflowID)), w)"

definition memorySave :: "checkpoint \<Rightarrow> checkpoint_map \<times> 'x \<Rightarrow> string option \<times> (checkpoint_map \<times> 'x)" where
  "memorySave cp w =
     (let key = TrimSpace (cp_WorkflowID cp) in
      if key = [] then (Some ''workflow checkpoint requires workflow_id'', w)
      else (None, (fmupd key cp (fst w), snd w)))"

section \<open>The file store\<close>

record 'b checkpoint_files =
  cf_files :: "(string, 'b) gomap"
  cf_uses :: nat

record 'b checkpoint_codec =
  cc_encode :: "checkpoint \<Rightarrow> 'b option"
  cc_decode :: "'b \<Rightarrow> checkpoint option"
  cc_fault :: "nat \<Rightarrow> io_fault option"
  cc_torn :: "nat \<Rightarrow> 'b option"

definition newFileCheckpointStore :: "'b checkpoint_codec \<Rightarrow> string \<Rightarrow> 'b checkpoint_files \<Rightarrow> (io_fault, string) result \<times> 'b checkpoint_files" where
  "newFileCheckpointStore codec rootDir fs =
     (let dir = TrimSpace rootDir in
      if dir = [] then (Err BackendPathRequired, fs)
      else if cc_fault codec (cf_uses fs) = Some MkdirFailed then (Err MkdirFailed, fs\<lparr>cf_uses := Suc (cf_uses fs)\<rparr>)
      else (Ok dir, fs\<lparr>cf_uses := Suc (cf_uses fs)\<rparr>))"

definition replaceByte :: "char \<Rightarrow> char \<Rightarrow> string \<Rightarrow> string" where
  "replaceByte a b s = map (\<lambda>c. if c = a then b else c) s"

definition filePath :: "string \<Rightarrow> string" where
  "filePath workflowID =
     (let clean = ToLower (TrimSpace workflowID);
          clean = replaceByte CHR '' '' CHR ''_'' clean;
          clean = replaceByte CHR ''/'' CHR ''_'' clean;
          clean = replaceByte (CHR 0x5C) CHR ''_'' clean
      in clean @ ''.json'')"

definition fileLoad ::
  "'b checkpoint_codec \<Rightarrow> string \<Rightarrow> 'b checkpoint_files \<Rightarrow> (io_fault, checkpoint option) result \<times> 'b checkpoint_files" where
  "fileLoad codec workflowID fs =
     (let fault = cc_fault codec (cf_uses fs); fs1 = fs\<lparr>cf_uses := Suc (cf_uses fs)\<rparr> in
      case fmlookup (cf_files fs) (filePath workflowID) of
        None \<Rightarrow> (Ok None, fs1)
      | Some raw \<Rightarrow>
          if fault = Some ReadFailed then (Err ReadFailed, fs1)
          else (case cc_decode codec raw of None \<Rightarrow> (Err DecodeFailed, fs1) | Some cp \<Rightarrow> (Ok (Some cp), fs1)))"

datatype checkpoint_fault = WorkflowIDMissing | FileFault io_fault

definition fileSave ::
  "'b checkpoint_codec \<Rightarrow> checkpoint \<Rightarrow> 'b checkpoint_files \<Rightarrow> (checkpoint_fault, unit) result \<times> 'b checkpoint_files" where
  "fileSave codec cp fs =
     (if TrimSpace (cp_WorkflowID cp) = [] then (Err WorkflowIDMissing, fs)
      else
        let fault = cc_fault codec (cf_uses fs); fs1 = fs\<lparr>cf_uses := Suc (cf_uses fs)\<rparr> in
        if fault = Some MkdirFailed then (Err (FileFault MkdirFailed), fs1)
        else
          (case cc_encode codec cp of
             None \<Rightarrow> (Err (FileFault EncodeFailed), fs1)
           | Some raw \<Rightarrow>
               if fault = Some WriteFailed then
                 (Err (FileFault WriteFailed),
                  case cc_torn codec (cf_uses fs) of
                    None \<Rightarrow> fs1
                  | Some part \<Rightarrow> fs1\<lparr>cf_files := fmupd (filePath (cp_WorkflowID cp)) part (cf_files fs1)\<rparr>)
               else (Ok (), fs1\<lparr>cf_files := fmupd (filePath (cp_WorkflowID cp)) raw (cf_files fs1)\<rparr>)))"

section \<open>What the engine relies on\<close>

lemma accomplished_order:
  assumes "accomplished steps found rs"
  shows "i \<in> set (rs_order rs) \<longleftrightarrow> (\<exists>r. startRecords steps found i = Some r \<and> sr_Status r = StepStatusPending)"
proof -
  obtain start where start: "start_ok steps start" "\<And>i. fmlookup start i = startRecords steps found i" "progress steps start rs"
    and settled: "\<forall>s \<in> set steps. settledIn (rs_results rs) (s_StepID s)"
    using assms unfolding accomplished_def by blast
  have pend: "isPending start i \<longleftrightarrow> (\<exists>r. startRecords steps found i = Some r \<and> sr_Status r = StepStatusPending)"
    using start(2) by (auto simp: isPending_def split: option.split)
  have "i \<in> set (rs_order rs)" if p: "isPending start i"
  proof (rule ccontr)
    assume "i \<notin> set (rs_order rs)"
    then have "isPending (rs_results rs) i" using start(3) p by (simp add: progress_def isPending_def)
    moreover have "i \<in> s_StepID ` set steps" using start(1) isPending_dom [OF p] by (auto simp: start_ok_def)
    ultimately show False using settled settledIn_not_pending by blast
  qed
  then show ?thesis using start(3) pend by (auto simp: progress_def)
qed

lemma accomplished_records:
  assumes "accomplished steps found rs" "fmlookup (rs_results rs) i = Some r"
  shows "sr_StepID r = i" "isTerminal (sr_Status r)" "i \<in> s_StepID ` set steps"
proof -
  show "sr_StepID r = i" using assms by (auto simp: accomplished_def progress_def)
  have "i |\<in>| fmdom (rs_results rs)" using assms(2) by (simp add: fmdom_iff_lookup)
  then show dom: "i \<in> s_StepID ` set steps" using assms(1) by (auto simp: accomplished_def progress_def)
  then show "isTerminal (sr_Status r)" using assms by (auto simp: accomplished_def settledIn_def)
qed

locale checkpoint_store =
  fixes load :: "string \<Rightarrow> 'w \<Rightarrow> (string, checkpoint option) result \<times> 'w"
    and save :: "checkpoint \<Rightarrow> 'w \<Rightarrow> string option \<times> 'w"
  assumes load_saved: "save cp w = (None, w') \<Longrightarrow> fst (load (cp_WorkflowID cp) w') = Ok (Some cp)"
begin

lemma run_leaves_checkpoint:
  assumes env: "en_checkpoints env = Some (load, save)" "en_onEvent env = None"
    and run: "execute ord env req w = (Ok (out, cerr), rs)"
  shows "\<exists>now. fst (load (wo_WorkflowID out) (rs_world rs)) =
    Ok (Some (checkpointOf (wr_RunID req) (wo_WorkflowID out) (wo_WorkflowStatus out) (wo_ResumeCount out) now (rs_results rs)))"
proof -
  obtain d summary n rs2 where fin: "finishRun env req d summary n rs2 = (Ok (out, cerr), rs)"
    using run by (auto simp: execute_def executeSteps_def Let_def split: sum.splits prod.splits if_splits)
  let ?out = "buildResult (wr_RunID req) (wd_WorkflowID d) n (wd_Steps d) (rs_results rs2) (rs_order rs2) summary"
  obtain a rs3 where a: "saveCheckpoint env (wr_RunID req) (wd_WorkflowID d) (wo_WorkflowStatus ?out) n rs2 = (a, rs3)" by fastforce
  then have "out = ?out" "rs = rs3" "\<not> isl a"
    using fin env(2) by (auto simp: finishRun_def Let_def sendEvent_def split: sum.splits)
  moreover have "wo_WorkflowID ?out = wd_WorkflowID d" "wo_ResumeCount ?out = n" by (simp_all add: buildResult_def Let_def)
  moreover obtain now w1 where now: "en_now env (rs_world rs2) = (now, w1)" by fastforce
  moreover obtain e w2 where s: "save (checkpointOf (wr_RunID req) (wd_WorkflowID d) (wo_WorkflowStatus ?out) n now (rs_results rs2)) w1 = (e, w2)" by fastforce
  moreover have "e = None" "rs3 = rs2\<lparr>rs_world := w2\<rparr>"
    using a env(1) now s \<open>\<not> isl a\<close> by (auto simp: saveCheckpoint_def split: option.splits)
  ultimately show ?thesis using load_saved [of "checkpointOf (wr_RunID req) (wd_WorkflowID d) (wo_WorkflowStatus ?out) n now (rs_results rs2)" w1 w2]
    by (auto simp: checkpointOf_def)
qed

lemma resume_unfinished:
  assumes env: "en_checkpoints env = Some (load, save)" "en_onEvent env = None"
    and env': "en_checkpoints env' = Some (load, save)" "en_graphComposabilityEnabled env' = en_graphComposabilityEnabled env"
    and ord: "\<And>xs. mset (ord xs) = mset xs"
    and run: "execute ord env req w = (Ok (out, cerr), rs)"
    and req: "wr_Resume req'" "wr_DSL req' = wr_DSL req"
    and run': "execute ord env' req' (rs_world rs) = (Ok (out', cerr'), rs')"
  shows "i \<in> set (rs_order rs') \<longleftrightarrow> statusOf rs i \<in> {Some StepStatusFailed, Some StepStatusCanceled}"
    and "statusOf rs i \<in> {Some StepStatusSucceeded, Some StepStatusSkipped} \<Longrightarrow> statusOf rs' i = statusOf rs i"
    and "wo_ResumeCount out' = wo_ResumeCount out + 1"
proof -
  obtain d summary n where d: "compileDefinition ord (en_graphComposabilityEnabled env) (normalizeDefinition ord (wr_DSL req)) = Ok (d, summary)"
    and acc: "accomplished (wd_Steps d) (foundCheckpoint env req (wd_WorkflowID d) w) rs"
    and out: "out = buildResult (wr_RunID req) (wd_WorkflowID d) n (wd_Steps d) (rs_results rs) (rs_order rs) summary"
    using execute_accomplished [OF run ord] by blast
  have wid: "wo_WorkflowID out = wd_WorkflowID d" by (simp add: out buildResult_def Let_def)
  obtain now where now: "fst (load (wd_WorkflowID d) (rs_world rs)) =
      Ok (Some (checkpointOf (wr_RunID req) (wd_WorkflowID d) (wo_WorkflowStatus out) (wo_ResumeCount out) now (rs_results rs)))"
    using run_leaves_checkpoint [OF env run] wid by auto
  let ?cp = "checkpointOf (wr_RunID req) (wd_WorkflowID d) (wo_WorkflowStatus out) (wo_ResumeCount out) now (rs_results rs)"
  have found: "foundCheckpoint env' req' (wd_WorkflowID d) (rs_world rs) = Some ?cp"
    using env'(1) req(1) now by (auto simp: foundCheckpoint_def split: prod.split)
  obtain n' where acc': "accomplished (wd_Steps d) (Some ?cp) rs'" and n': "n' = wo_ResumeCount out + 1"
    and out': "out' = buildResult (wr_RunID req') (wd_WorkflowID d) n' (wd_Steps d) (rs_results rs') (rs_order rs') summary"
    using execute_accomplished [OF run' ord] d found unfolding env'(2) req(2) by (auto simp: checkpointOf_def)
  show "wo_ResumeCount out' = wo_ResumeCount out + 1" using n' by (simp add: out' buildResult_def Let_def)
  have start: "startRecords (wd_Steps d) (Some ?cp) i =
      (case fmlookup (rs_results rs) i of
         None \<Rightarrow> None
       | Some r \<Rightarrow> map_option (resumeRecord \<lparr>cs_Status = sr_Status r, cs_Attempts = sr_Attempts r\<rparr>) (fmlookup (newResults (wd_Steps d)) i))" for i
  proof (cases "fmlookup (rs_results rs) i")
    case None
    have "fset (fmdom (rs_results rs)) = s_StepID ` set (wd_Steps d)" using acc by (auto simp: accomplished_def progress_def)
    then have "i \<notin> fset (fmdom (newResults (wd_Steps d)))" using None newResults_dom by (metis fmdom_notI)
    then show ?thesis using None by (simp add: startRecords_def fmdom_notD)
  next
    case (Some r)
    then show ?thesis by (simp add: startRecords_def checkpointOf_def restoreFrom_def cong: option.map_cong)
  qed
  have there: "fmlookup (newResults (wd_Steps d)) i \<noteq> None" if "fmlookup (rs_results rs) i = Some r" for r
  proof -
    have "i |\<in>| fmdom (newResults (wd_Steps d))" using accomplished_records(3) [OF acc that] newResults_dom by metis
    then show ?thesis by (simp add: fmdom_iff_lookup)
  qed
  show "i \<in> set (rs_order rs') \<longleftrightarrow> statusOf rs i \<in> {Some StepStatusFailed, Some StepStatusCanceled}"
  proof (cases "fmlookup (rs_results rs) i")
    case None
    then show ?thesis unfolding accomplished_order [OF acc'] start by (simp add: statusOf_def)
  next
    case (Some r)
    then have "isTerminal (sr_Status r)" using accomplished_records(2) [OF acc] by blast
    then show ?thesis unfolding accomplished_order [OF acc'] start
      using Some there [OF Some] by (auto simp: statusOf_def resumeRecord_def isTerminal_def)
  qed
  show "statusOf rs' i = statusOf rs i" if s: "statusOf rs i \<in> {Some StepStatusSucceeded, Some StepStatusSkipped}"
  proof -
    obtain r where r: "fmlookup (rs_results rs) i = Some r" "sr_Status r \<in> {StepStatusSucceeded, StepStatusSkipped}"
      using s by (auto simp: statusOf_def)
    have "i \<notin> set (rs_order rs')" unfolding accomplished_order [OF acc'] start using r by (auto simp: resumeRecord_def)
    then have "fmlookup (rs_results rs') i = startRecords (wd_Steps d) (Some ?cp) i"
      using acc' by (auto simp: accomplished_def progress_def)
    then show ?thesis using r there [OF r(1)] by (auto simp: start statusOf_def resumeRecord_def)
  qed
qed

end

interpretation memory_store: checkpoint_store memoryLoad memorySave
proof
  fix cp and w w' :: "checkpoint_map \<times> 'x"
  assume "memorySave cp w = (None, w')"
  then show "fst (memoryLoad (cp_WorkflowID cp) w') = Ok (Some cp)"
    by (auto simp: memorySave_def memoryLoad_def Let_def split: if_splits)
qed

text \<open>The file store loads what it saved, for every workflow whose file it is.\<close>

lemma fileSave_fileLoad:
  assumes "fileSave codec cp fs = (Ok u, fs')" "filePath workflowID = filePath (cp_WorkflowID cp)"
    and "\<And>raw. cc_encode codec cp = Some raw \<Longrightarrow> cc_decode codec raw = Some cp" "cc_fault codec (cf_uses fs') \<noteq> Some ReadFailed"
  shows "fst (fileLoad codec workflowID fs') = Ok (Some cp)"
  using assms by (auto simp: fileSave_def fileLoad_def Let_def split: if_splits option.splits)

end
