(* ===== verification/Workflow_Live.thy ===== *)
theory Workflow_Live
  imports Workflow_Store
begin

text \<open>
  A run of a valid workflow comes to its end and returns, whatever its steps do, unless something
  outside stops it: an event callback or a checkpoint store that fails, or a pause.
\<close>

section \<open>Nothing outside stops the run\<close>

definition quiet :: "'w engine_env \<Rightarrow> bool" where
  "quiet env \<longleftrightarrow>
     (\<forall>f ev w. en_onEvent env = Some f \<longrightarrow> fst (f ev w) = None)
     \<and> (\<forall>load save i w. en_checkpoints env = Some (load, save) \<longrightarrow> \<not> isl (fst (load i w)))
     \<and> (\<forall>load save cp w. en_checkpoints env = Some (load, save) \<longrightarrow> TrimSpace (cp_WorkflowID cp) \<noteq> [] \<longrightarrow> fst (save cp w) = None)
     \<and> (\<forall>f b w. en_pauseController env = Some f \<longrightarrow> fst (f b w) = None)
     \<and> (\<forall>t i s a w e. fst (en_execute env t i s a w) = Err e \<longrightarrow> \<not> er_Pause e)"

lemma quiet_sendEvent: "quiet env \<Longrightarrow> \<exists>rs'. sendEvent env ev rs = (Ok (), rs')"
  by (simp add: quiet_def sendEvent_def split: option.split prod.split) (metis fst_conv option.distinct(1))

lemma quiet_saveCheckpoint:
  assumes "quiet env" "TrimSpace wid \<noteq> []"
  shows "\<exists>rs'. saveCheckpoint env runID wid st n rs = (Ok (), rs')"
proof (cases "en_checkpoints env")
  case None
  then show ?thesis by (simp add: saveCheckpoint_def)
next
  case (Some ls)
  obtain load save where ls: "ls = (load, save)" by fastforce
  obtain now w where now: "en_now env (rs_world rs) = (now, w)" by fastforce
  obtain e w' where e: "save (checkpointOf runID wid st n now (rs_results rs)) w = (e, w')" by fastforce
  have "e = None" using assms Some ls e unfolding quiet_def checkpointOf_def by (metis (no_types, lifting) checkpoint.select_convs(1) fst_conv)
  then show ?thesis using Some ls now e by (simp add: saveCheckpoint_def)
qed

lemma quiet_finishStep: "quiet env \<Longrightarrow> TrimSpace wid \<noteq> [] \<Longrightarrow> \<exists>rs'. finishStep env req wid n i rs = (Ok (), rs')"
proof (cases "fmlookup (rs_results rs) i")
  case (Some r)
  assume "quiet env" "TrimSpace wid \<noteq> []"
  moreover from this obtain rs1 where "sendEvent env (StepDone r) rs = (Ok (), rs1)" using quiet_sendEvent by blast
  ultimately show ?thesis using Some quiet_saveCheckpoint [of env wid] by (simp add: finishStep_def)
qed (simp add: finishStep_def)

lemma quiet_askPause: "quiet env \<Longrightarrow> \<exists>rs'. askPause env b rs = (Ok (), rs')"
  by (simp add: quiet_def askPause_def split: option.split prod.split) (metis fst_conv option.distinct(1))

lemma quiet_runAttempt:
  assumes "quiet env"
  shows "\<exists>outcome rs'. runAttempt env req wid tctx meta s a rs = (Ok outcome, rs')"
proof -
  let ?rs1 = "emitStepTimeline env tctx meta StepStatusRunning (sc_dispatchReason meta)
    (setResult (s_StepID s) (\<lambda>r. r\<lparr>sr_Attempts := a, sr_Status := StepStatusRunning\<rparr>) rs)"
  obtain rs2 where p: "askPause env (boundaryOf req wid s a) ?rs1 = (Ok (), rs2)" using quiet_askPause [OF assms] by blast
  obtain answer rs3 where c: "callAdapter env wid s a rs2 = (answer, rs3)" by fastforce
  have "\<not> er_Pause e" if "answer = Err e" for e
  proof -
    have "fst (en_execute env (stepTimeout env s) wid s a (rs_world rs2)) = Err e"
      using c that by (auto simp: callAdapter_def split: prod.splits)
    then show ?thesis using assms unfolding quiet_def by blast
  qed
  then show ?thesis using p c by (cases answer) (auto simp: runAttempt_def Let_def split: prod.split)
qed

lemma quiet_attempts:
  assumes "quiet env"
  shows "\<exists>rs'. attempts env req wid tctx meta s a rs = (Ok (), rs')"
proof (induction "nat (maxAttempts s + 1 - a)" arbitrary: a rs rule: less_induct)
  case less
  obtain outcome rs1 where r: "runAttempt env req wid tctx meta s a rs = (Ok outcome, rs1)" using quiet_runAttempt [OF assms] by blast
  show ?case
  proof (cases "a \<le> maxAttempts s")
    case True
    then have "\<exists>rs'. attempts env req wid tctx meta s (a + 1) rs1 = (Ok (), rs')" by (intro less) simp
    then show ?thesis using r True by (cases outcome) (simp_all add: attempts.simps [of env req wid tctx meta s a rs])
  next
    case False
    then show ?thesis by (simp add: attempts.simps [of env req wid tctx meta s a rs])
  qed
qed

lemma quiet_runStep:
  assumes "quiet env" "TrimSpace wid \<noteq> []"
  shows "\<exists>rs'. runStep env req wid tctx n s rs = (Ok (), rs')"
proof (cases "isPending (rs_results rs) (s_StepID s)")
  case True
  let ?rs1 = "rs\<lparr>rs_order := rs_order rs @ [s_StepID s]\<rparr>"
  obtain rs2 where "attempts env req wid tctx (newWorkflowStepTimelineContext s) s 1 ?rs1 = (Ok (), rs2)"
    using quiet_attempts [OF assms(1)] by blast
  then show ?thesis using True quiet_finishStep [OF assms] by (simp add: runStep_def Let_def)
qed (simp add: runStep_def)

lemma quiet_runReady:
  assumes "quiet env" "TrimSpace wid \<noteq> []"
  shows "\<exists>rs'. runReady env req wid tctx n ss rs = (Ok (), rs')"
proof (induction ss arbitrary: rs)
  case (Cons s ss)
  obtain rs1 where "runStep env req wid tctx n s rs = (Ok (), rs1)" using quiet_runStep [OF assms] by blast
  then show ?case using Cons by simp
qed simp

lemma quiet_rounds:
  assumes "quiet env" "TrimSpace wid \<noteq> []"
  shows "\<exists>rs'. rounds env req wid tctx n steps rs = (Ok (), rs')"
proof (induction "pendingCount (rs_results rs)" arbitrary: rs rule: less_induct)
  case less
  let ?ready = "readySteps steps (rs_results rs)"
  show ?case
  proof (cases "?ready = []")
    case True
    then show ?thesis by (simp add: rounds.simps [of env req wid tctx n steps rs])
  next
    case False
    obtain rs1 where run: "runReady env req wid tctx n ?ready rs = (Ok (), rs1)" using quiet_runReady [OF assms] by blast
    have "hd ?ready \<in> set ?ready" using False by simp
    then have "pendingCount (rs_results rs1) < pendingCount (rs_results rs)"
      using runReady_count(2) [OF run False] unfolding readySteps_mem by blast
    then show ?thesis using less run False by (simp add: rounds.simps [of env req wid tctx n steps rs])
  qed
qed

lemma quiet_resumeSteps:
  assumes "quiet env"
  shows "\<exists>rs'. resumeSteps env tctx meta saved is rs = (Ok (), rs')"
proof (induction "is" arbitrary: rs)
  case (Cons i "is")
  show ?case
  proof (cases "fmlookup saved i")
    case None
    then show ?thesis using Cons by simp
  next
    case (Some c)
    show ?thesis
    proof (cases "fmlookup (rs_results rs) i")
      case None
      then show ?thesis using Cons Some by simp
    next
      case (Some r)
      let ?r = "r\<lparr>sr_Status := cs_Status c, sr_Attempts := cs_Attempts c\<rparr>"
      let ?rs1 = "emitStepTimeline env tctx (meta i) (cs_Status c) ''workflow.resume'' (setResult i (\<lambda>_. ?r) rs)"
      obtain rs2 where "sendEvent env (ResumedStep ?r) ?rs1 = (Ok (), rs2)" using quiet_sendEvent [OF assms] by blast
      then show ?thesis using Cons \<open>fmlookup saved i = Some c\<close> Some by (simp add: Let_def)
    qed
  qed
qed simp

lemma quiet_resumeRun:
  assumes "quiet env"
  shows "\<exists>n rs'. resumeRun ord env req wid tctx meta rs = (Ok n, rs')"
proof (cases "en_checkpoints env")
  case None
  then show ?thesis by (simp add: resumeRun_def)
next
  case (Some ls)
  obtain load save where ls: "ls = (load, save)" by fastforce
  obtain a w where a: "load wid (rs_world rs) = (a, w)" by fastforce
  have "\<not> isl a" using assms Some ls a unfolding quiet_def by (metis fst_conv)
  then obtain found where found: "a = Ok found" by (cases a) auto
  show ?thesis
  proof (cases found)
    case None
    then show ?thesis using Some ls a found by (simp add: resumeRun_def)
  next
    case (Some cp)
    obtain rs' where "resumeSteps env tctx meta (cp_Steps cp) (ord (sorted_keys (cp_Steps cp))) (rs\<lparr>rs_world := w\<rparr>) = (Ok (), rs')"
      using quiet_resumeSteps [OF assms] by blast
    then show ?thesis using \<open>en_checkpoints env = Some ls\<close> ls a found Some by (simp add: resumeRun_def)
  qed
qed

theorem execute_returns:
  assumes "quiet env"
    and "compileDefinition ord (en_graphComposabilityEnabled env) (normalizeDefinition ord (wr_DSL req)) = Ok (d, summary)" "workflow_ok d"
  shows "\<exists>out cerr rs. execute ord env req w = (Ok (out, cerr), rs)"
proof -
  let ?wid = "wd_WorkflowID d" and ?tctx = "newWorkflowTimelineContext (wr_RunID req) (wd_WorkflowID d)"
  have wid: "TrimSpace ?wid \<noteq> []" using assms(3) by (simp add: workflow_ok_def Let_def)
  obtain n rs1 where r: "resumeRun ord env req ?wid ?tctx (stepContexts (wd_Steps d)) (startState (wd_Steps d) w) = (Ok n, rs1)"
    using quiet_resumeRun [OF assms(1)] by blast
  obtain rs2 where rs2: "rounds env req ?wid ?tctx n (wd_Steps d) rs1 = (Ok (), rs2)" using quiet_rounds [OF assms(1) wid] by blast
  let ?out = "buildResult (wr_RunID req) ?wid n (wd_Steps d) (rs_results rs2) (rs_order rs2) summary"
  obtain rs3 where s: "saveCheckpoint env (wr_RunID req) ?wid (wo_WorkflowStatus ?out) n rs2 = (Ok (), rs3)"
    using quiet_saveCheckpoint [OF assms(1) wid] by blast
  obtain rs4 where "sendEvent env (Completed ?out) rs3 = (Ok (), rs4)" using quiet_sendEvent [OF assms(1)] by blast
  then have "finishRun env req d summary n rs2 = (Ok (?out, en_contextErr env (rs_world rs4)), rs4)"
    using s by (simp add: finishRun_def Let_def)
  then show ?thesis
    using assms(2,3) r rs2 by (simp add: execute_def executeSteps_def Let_def ValidateDefinition_Nil)
qed

end
