(* ===== verification/Workflow_Demo.thy ===== *)
theory Workflow_Demo
  imports Workflow_Live
begin

text \<open>
  Small workflows and engines on which the properties are tried out: a chain with a step that is
  skipped, a workflow with a subgraph, and an engine with the memory store whose adapter fails a step
  the first times it is tried. The world beside the store counts the calls of the adapter.
\<close>

section \<open>Definitions\<close>

definition demoStep :: "string \<Rightarrow> string list \<Rightarrow> step" where
  "demoStep i deps =
     \<lparr>s_StepID = i, s_Step = [], s_TaskID = [], s_TeamID = [], s_AgentID = [], s_PeerID = [], s_Kind = [], s_DependsOn = deps,
      s_Condition = [], s_Retry = \<lparr>rt_MaxAttempts = 0, rt_Backoff = 0\<rparr>, s_Timeout = 0, s_Payload = fmempty, s_CollabPrimitive = [],
      s_UseSubgraph = [], s_Alias = [], s_ConditionTemplate = [], s_TemplateVars = fmempty, s_Overrides = fmempty\<rparr>"

definition demoFlow :: workflow_definition where
  "demoFlow =
     \<lparr>wd_WorkflowID = ''flow'',
      wd_Steps = [demoStep ''test'' [''build''], demoStep ''build'' [],
                  (demoStep ''notify'' [''test''])\<lparr>s_Condition := ''on_failure''\<rparr>,
                  (demoStep ''ship'' [''test''])\<lparr>s_Condition := ''on_success''\<rparr>],
      wd_Subgraphs = fmempty, wd_ConditionTemplates = fmempty\<rparr>"

definition demoComposed :: workflow_definition where
  "demoComposed =
     \<lparr>wd_WorkflowID = ''flow'',
      wd_Steps = [demoStep ''after'' [''part''], (demoStep ''part'' [''first''])\<lparr>s_UseSubgraph := ''sub''\<rparr>, demoStep ''first'' []],
      wd_Subgraphs = fmupd ''sub'' \<lparr>sg_Steps = [demoStep ''y'' [''x''], demoStep ''x'' []]\<rparr> fmempty,
      wd_ConditionTemplates = fmempty\<rparr>"

definition demoLoop :: workflow_definition where
  "demoLoop =
     \<lparr>wd_WorkflowID = ''flow'',
      wd_Steps = [(demoStep ''part'' [])\<lparr>s_UseSubgraph := ''sub''\<rparr>],
      wd_Subgraphs = fmupd ''sub'' \<lparr>sg_Steps = [demoStep ''x'' [''x'']]\<rparr> fmempty,
      wd_ConditionTemplates = fmempty\<rparr>"

section \<open>Engines\<close>

definition demoEnv :: "nat \<Rightarrow> (checkpoint_map \<times> nat) engine_env" where
  "demoEnv failures =
     \<lparr>en_execute = (\<lambda>t i s a w.
        (if s_StepID s = ''test'' \<and> snd w < failures then Err (adapterError ''red'') else Ok noOutput, (fst w, Suc (snd w)))),
      en_contextErr = (\<lambda>w. None), en_backoff = (\<lambda>t w. (False, w)), en_pauseController = None, en_onEvent = None,
      en_checkpoints = Some (memoryLoad, memorySave), en_timelineEmitter = None, en_now = (\<lambda>w. (0, w)),
      en_defaultStepTimeout = 3000000000, en_graphComposabilityEnabled = False\<rparr>"

definition demoRequest :: "bool \<Rightarrow> workflow_request" where
  "demoRequest resume =
     \<lparr>wr_RunID = ''run'', wr_SessionID = [], wr_ParentRunID = [], wr_CausationID = [], wr_Resume = resume, wr_DSL = demoFlow\<rparr>"

definition sameOrder :: map_order where
  "sameOrder xs = xs"

lemma demoEnv_quiet: "quiet (demoEnv n)"
  by (auto simp: quiet_def demoEnv_def memoryLoad_def memorySave_def adapterError_def Let_def split: if_splits)

lemma demoFlow_valid: "ValidateDefinition (normalizeDefinition sameOrder demoFlow) = []"
  by code_simp

lemma demoFlow_compiled:
  "compileDefinition sameOrder False (normalizeDefinition sameOrder demoFlow) = Ok (normalizeDefinition sameOrder demoFlow, noSummary)"
proof -
  have "\<not> hasGraphComposabilitySyntax (normalizeDefinition sameOrder demoFlow)" by code_simp
  then show ?thesis by (simp add: compileDefinition_def noSummary_def)
qed

lemma demo_compiled:
  "compileDefinition sameOrder (en_graphComposabilityEnabled (demoEnv n)) (normalizeDefinition sameOrder (wr_DSL (demoRequest b))) =
     Ok (normalizeDefinition sameOrder demoFlow, noSummary)"
  using demoFlow_compiled by (simp add: demoEnv_def demoRequest_def)

lemma demo_returns: "\<exists>out cerr rs. execute sameOrder (demoEnv n) (demoRequest b) w = (Ok (out, cerr), rs)"
  by (rule execute_returns [OF demoEnv_quiet demo_compiled]) (use demoFlow_valid in \<open>simp add: ValidateDefinition_Nil\<close>)

lemma sameOrder_mset: "mset (sameOrder xs) = mset xs"
  by (simp add: sameOrder_def)

lemma demo_plan: "Plan sameOrder True demoComposed = Ok [''first'', ''part/x'', ''part/y'', ''after'']"
  by code_simp

definition demoRun :: "(run_failure, workflow_result \<times> context_error option) result \<times> (checkpoint_map \<times> nat) run_state" where
  "demoRun = execute sameOrder (demoEnv 5) (demoRequest False) (fmempty, 0)"

lemma demo_run_statuses:
  "map (statusOf (snd demoRun)) [''build'', ''test'', ''notify'', ''ship''] =
     [Some StepStatusSucceeded, Some StepStatusFailed, Some StepStatusSucceeded, Some StepStatusSkipped]
   \<and> rs_order (snd demoRun) = [''build'', ''test'', ''notify'', ''ship'']"
  by code_simp

end
