(* ===== verification/Workflow_Properties.thy ===== *)
theory Workflow_Properties
  imports Workflow_Demo
begin

text \<open>
  The properties of the execution graph and of the workflow engine, each with an application to a
  small workflow.
\<close>

section \<open>Running\<close>

text \<open>
  C7: A run that returns has brought every step to a terminal status: the result lists every step of
  the compiled definition once, by id, each succeeded, failed, skipped or canceled; no step is run
  twice; and a step that was run came after everything it depends on that was run.
\<close>

theorem run_completes:
  assumes run: "execute ord env req w = (Ok (out, cerr), rs)" and ord: "\<And>xs. mset (ord xs) = mset xs"
    and d: "compileDefinition ord (en_graphComposabilityEnabled env) (normalizeDefinition ord (wr_DSL req)) = Ok (d, summary)"
  shows "map sr_StepID (wo_Steps out) = sort (map s_StepID (wd_Steps d)) \<and> list_all (\<lambda>r. isTerminal (sr_Status r)) (wo_Steps out)
    \<and> distinct (wo_ExecutionOrder out)
    \<and> (\<forall>s \<in> set (wd_Steps d). \<forall>e \<in> set (s_DependsOn s).
         s_StepID s \<in> set (wo_ExecutionOrder out) \<longrightarrow> e \<in> set (wo_ExecutionOrder out) \<longrightarrow> before (wo_ExecutionOrder out) e (s_StepID s))"
proof -
  obtain n where ok: "workflow_ok d" and acc: "accomplished (wd_Steps d) (foundCheckpoint env req (wd_WorkflowID d) w) rs"
    and out: "out = buildResult (wr_RunID req) (wd_WorkflowID d) n (wd_Steps d) (rs_results rs) (rs_order rs) summary"
    using execute_accomplished [OF run ord] d by auto
  obtain start where prog: "progress (wd_Steps d) start rs" and start: "start_ok (wd_Steps d) start" using acc by (auto simp: accomplished_def)
  have order: "wo_ExecutionOrder out = rs_order rs" by (simp add: out buildResult_def Let_def)
  have items: "wo_Steps out = List.map_filter (fmlookup (rs_results rs)) (sorted_keys (rs_results rs))" by (simp add: out buildResult_def Let_def)
  have keys: "sorted_keys (rs_results rs) = sort (map s_StepID (wd_Steps d))"
    using prog workflow_ok_order(1) [OF ok] by (intro sorted_distinct_set_unique) (simp_all add: progress_def)
  have "map sr_StepID (List.map_filter (fmlookup (rs_results rs)) ks) = ks" if "set ks \<subseteq> fset (fmdom (rs_results rs))" for ks
    using that accomplished_records(1) [OF acc] by (induction ks) (auto simp: List.map_filter_simps fmdom_iff_lookup)
  then have "map sr_StepID (wo_Steps out) = sort (map s_StepID (wd_Steps d))" unfolding items keys [symmetric] by simp
  moreover have "list_all (\<lambda>r. isTerminal (sr_Status r)) (wo_Steps out)"
    unfolding items using accomplished_records(2) [OF acc] by (auto simp: list_all_iff List.map_filter_def)
  moreover have "before (rs_order rs) e (s_StepID s)"
    if s: "s \<in> set (wd_Steps d)" "e \<in> set (s_DependsOn s)" "s_StepID s \<in> set (rs_order rs)" "e \<in> set (rs_order rs)" for s e
  proof -
    obtain k where k: "k < length (rs_order rs)" "s_StepID s = rs_order rs ! k" using s(3) by (metis in_set_conv_nth)
    then have "e \<in> set (take k (rs_order rs)) \<or> settledIn start e" using prog s(1,2) unfolding progress_def by blast
    moreover have "isPending start e" using prog s(4) by (simp add: progress_def)
    ultimately have "e \<in> set (take k (rs_order rs))" using settledIn_not_pending by blast
    then obtain i where "i < k" "rs_order rs ! i = e" using k(1) by (auto simp: in_set_conv_nth)
    then show ?thesis using k unfolding before_def by metis
  qed
  ultimately show ?thesis using prog unfolding order progress_def by blast
qed

theorem run_completes_witness:
  "\<exists>out cerr rs. execute sameOrder (demoEnv 5) (demoRequest False) (fmempty, 0) = (Ok (out, cerr), rs)
    \<and> map sr_StepID (wo_Steps out) = [''build'', ''notify'', ''ship'', ''test''] \<and> distinct (wo_ExecutionOrder out)"
proof -
  obtain out cerr rs where run: "execute sameOrder (demoEnv 5) (demoRequest False) (fmempty, 0) = (Ok (out, cerr), rs)"
    using demo_returns by blast
  have "sort (map s_StepID (wd_Steps (normalizeDefinition sameOrder demoFlow))) = [''build'', ''notify'', ''ship'', ''test'']" by code_simp
  then show ?thesis using run_completes [OF run sameOrder_mset demo_compiled] run by auto
qed

text \<open>
  C8: In a run that returns, every step that was run was skipped exactly when its condition does not
  hold for the final statuses of the steps it depends on, with no attempt; otherwise it was tried at
  least once and at most as often as its retries allow. The calls of the adapter are exactly these
  attempts, numbered from 1, those of one step after those of the other in the order of execution.
\<close>

theorem run_attempts:
  assumes run: "execute ord env req w = (Ok (out, cerr), rs)" and ord: "\<And>xs. mset (ord xs) = mset xs"
    and d: "compileDefinition ord (en_graphComposabilityEnabled env) (normalizeDefinition ord (wr_DSL req)) = Ok (d, summary)"
  shows "(\<forall>s \<in> set (wd_Steps d). s_StepID s \<in> set (wo_ExecutionOrder out) \<longrightarrow>
      (if conditionMatched s (rs_results rs) then
         1 \<le> attemptsOf rs (s_StepID s) \<and> attemptsOf rs (s_StepID s) \<le> maxAttempts s \<and> statusOf rs (s_StepID s) \<noteq> Some StepStatusSkipped
       else attemptsOf rs (s_StepID s) = 0 \<and> statusOf rs (s_StepID s) = Some StepStatusSkipped))
    \<and> rs_calls rs = concat (map (\<lambda>i. map (Pair i) [1..attemptsOf rs i]) (wo_ExecutionOrder out))"
proof -
  obtain n start where prog: "progress (wd_Steps d) start rs"
    and out: "out = buildResult (wr_RunID req) (wd_WorkflowID d) n (wd_Steps d) (rs_results rs) (rs_order rs) summary"
    using execute_accomplished [OF run ord] d by (auto simp: accomplished_def)
  have order: "wo_ExecutionOrder out = rs_order rs" by (simp add: out buildResult_def Let_def)
  have "step_done s rs" if "s \<in> set (wd_Steps d)" "s_StepID s \<in> set (rs_order rs)" for s using prog that by (simp add: progress_def)
  then show ?thesis using prog unfolding order step_done_def progress_def attemptCalls_def by (auto split: if_splits)
qed

theorem run_attempts_witness:
  "\<exists>out cerr rs. execute sameOrder (demoEnv 5) (demoRequest False) (fmempty, 0) = (Ok (out, cerr), rs)
    \<and> rs_calls rs = concat (map (\<lambda>i. map (Pair i) [1..attemptsOf rs i]) (wo_ExecutionOrder out))"
proof -
  obtain out cerr rs where run: "execute sameOrder (demoEnv 5) (demoRequest False) (fmempty, 0) = (Ok (out, cerr), rs)"
    using demo_returns by blast
  then show ?thesis using run_attempts [OF run sameOrder_mset demo_compiled] by blast
qed

text \<open>
  C10: A run of a valid workflow returns a result, whatever its steps do, as long as the event callback
  and the checkpoint store do not fail and neither the pause controller nor a step asks for a pause.
\<close>

theorem run_returns:
  assumes "quiet env"
    and "compileDefinition ord (en_graphComposabilityEnabled env) (normalizeDefinition ord (wr_DSL req)) = Ok (d, summary)"
    and "ValidateDefinition d = []"
  shows "\<exists>out cerr rs. execute ord env req w = (Ok (out, cerr), rs)"
  using execute_returns [OF assms(1,2)] assms(3) by (simp add: ValidateDefinition_Nil)

theorem run_returns_witness:
  "\<exists>out cerr rs. execute sameOrder (demoEnv 5) (demoRequest False) (fmempty, 0) = (Ok (out, cerr), rs)"
  by (rule run_returns [OF demoEnv_quiet demo_compiled demoFlow_valid])

text \<open>
  C9: With the memory store, resuming after a run that returned runs again exactly the steps that failed or
  were canceled, and calls the adapter for no other; every other step keeps its status, and the resume
  counter goes up by one. The code so takes these two terminal statuses as not finished, where the
  specification (\<open>openspec/specs/workflow-deterministic-dsl\<close>) wants no terminal step to run again.
\<close>

theorem resume_runs_unfinished:
  fixes w :: "checkpoint_map \<times> 'x"
  assumes "en_checkpoints env = Some (memoryLoad, memorySave)" "en_onEvent env = None"
    and "en_checkpoints env' = Some (memoryLoad, memorySave)" "en_graphComposabilityEnabled env' = en_graphComposabilityEnabled env"
    and ord: "\<And>xs. mset (ord xs) = mset xs"
    and "execute ord env req w = (Ok (out, cerr), rs)" "wr_Resume req'" "wr_DSL req' = wr_DSL req"
    and run': "execute ord env' req' (rs_world rs) = (Ok (out', cerr'), rs')"
  shows "(\<forall>i. i \<in> set (wo_ExecutionOrder out') \<longleftrightarrow> statusOf rs i \<in> {Some StepStatusFailed, Some StepStatusCanceled})
    \<and> fst ` set (rs_calls rs') \<subseteq> {i. statusOf rs i \<in> {Some StepStatusFailed, Some StepStatusCanceled}}
    \<and> (\<forall>i. statusOf rs i \<in> {Some StepStatusSucceeded, Some StepStatusSkipped} \<longrightarrow> statusOf rs' i = statusOf rs i)
    \<and> wo_ResumeCount out' = wo_ResumeCount out + 1"
proof -
  note resume = memory_store.resume_unfinished [OF assms]
  obtain d :: workflow_definition and start n summary where prog: "progress (wd_Steps d) start rs'"
    and out': "out' = buildResult (wr_RunID req') (wd_WorkflowID d) n (wd_Steps d) (rs_results rs') (rs_order rs') summary"
    using execute_accomplished [OF run' ord] unfolding accomplished_def by blast
  have order: "wo_ExecutionOrder out' = rs_order rs'" by (simp add: out' buildResult_def Let_def)
  have "fst ` set (rs_calls rs') \<subseteq> set (rs_order rs')" using prog by (auto simp: progress_def attemptCalls_def)
  then show ?thesis using resume unfolding order by auto
qed

theorem resume_runs_unfinished_witness:
  "\<exists>out cerr rs out' cerr' rs'. execute sameOrder (demoEnv 5) (demoRequest False) (fmempty, 0) = (Ok (out, cerr), rs)
    \<and> execute sameOrder (demoEnv 0) (demoRequest True) (rs_world rs) = (Ok (out', cerr'), rs')
    \<and> set (wo_ExecutionOrder out') = {''test''} \<and> wo_ResumeCount out' = wo_ResumeCount out + 1"
proof -
  obtain out cerr rs where run: "execute sameOrder (demoEnv 5) (demoRequest False) (fmempty, 0) = (Ok (out, cerr), rs)"
    using demo_returns by blast
  obtain out' cerr' rs' where run': "execute sameOrder (demoEnv 0) (demoRequest True) (rs_world rs) = (Ok (out', cerr'), rs')"
    using demo_returns by blast
  have r: "\<forall>i. i \<in> set (wo_ExecutionOrder out') \<longleftrightarrow> statusOf rs i \<in> {Some StepStatusFailed, Some StepStatusCanceled}"
    "wo_ResumeCount out' = wo_ResumeCount out + 1"
    using resume_runs_unfinished [OF _ _ _ _ sameOrder_mset run _ _ run'] by (simp_all add: demoEnv_def demoRequest_def)
  have st: "map (statusOf rs) [''build'', ''test'', ''notify'', ''ship''] =
      [Some StepStatusSucceeded, Some StepStatusFailed, Some StepStatusSucceeded, Some StepStatusSkipped]" "rs_order rs = [''build'', ''test'', ''notify'', ''ship'']"
    using demo_run_statuses run by (simp_all add: demoRun_def)
  have dom: "statusOf rs i = None" if "i \<notin> {''build'', ''test'', ''notify'', ''ship''}" for i
  proof -
    have "map s_StepID (wd_Steps (normalizeDefinition sameOrder demoFlow)) = [''test'', ''build'', ''notify'', ''ship'']" by code_simp
    then have "s_StepID ` set (wd_Steps (normalizeDefinition sameOrder demoFlow)) = {''build'', ''test'', ''notify'', ''ship''}"
      unfolding set_map [symmetric] by auto
    moreover obtain start where "progress (wd_Steps (normalizeDefinition sameOrder demoFlow)) start rs"
      using execute_accomplished [OF run sameOrder_mset] demo_compiled [of 5 False] by (auto simp: accomplished_def)
    ultimately have "i \<notin> fset (fmdom (rs_results rs))" using that by (auto simp: progress_def)
    then show ?thesis by (simp add: statusOf_def fmdom_notD)
  qed
  have "set (wo_ExecutionOrder out') = {''test''}"
  proof (rule set_eqI)
    fix i
    show "i \<in> set (wo_ExecutionOrder out') \<longleftrightarrow> i \<in> {''test''}"
      using r(1) st(1) dom [of i] by (cases "i \<in> {''build'', ''test'', ''notify'', ''ship''}") auto
  qed
  then show ?thesis using run run' r(2) by blast
qed

section \<open>Planning and composition\<close>

text \<open>
  C11: \<open>Plan\<close> returns an order exactly for the definitions that compile to a workflow: one with an id,
  with steps of known kinds and conditions, distinct ids, known dependencies and no cycle. The order
  lists every step after the steps it depends on, and at each place the least id that may come next;
  the error \<open>Plan\<close> has for a cycle after validation is never returned.
\<close>

theorem plan_exact:
  "Plan ord enabled d = Ok order \<longleftrightarrow>
     (\<exists>c summary. compileDefinition ord enabled (normalizeDefinition ord d) = Ok (c, summary) \<and> workflow_ok c
        \<and> order = greedy (stepDeps (wd_Steps c)) [] (map s_StepID (wd_Steps c))
        \<and> topological (map s_StepID (wd_Steps c)) (stepDeps (wd_Steps c)) order)"
proof (cases "compileDefinition ord enabled (normalizeDefinition ord d)")
  case (Inl e)
  then show ?thesis by (simp add: Plan_eq)
next
  case (Inr p)
  obtain c summary where p: "p = (c, summary)" by fastforce
  have "topological (map s_StepID (wd_Steps c)) (stepDeps (wd_Steps c)) (greedy (stepDeps (wd_Steps c)) [] (map s_StepID (wd_Steps c)))"
    if "workflow_ok c"
    using workflow_ok_order(2) [OF that] planOrder_reference [OF workflow_ok_order(1) [OF that]] by simp
  then show ?thesis using Inr p by (auto simp: Plan_eq)
qed

text \<open>
  C38: The execution graph a workflow is projected to has the order of its plan: the two ready queues,
  of \<open>Plan\<close> and of the graph compiler, list the steps alike, although the projection normalises the
  compiled definition again.
\<close>

theorem projection_keeps_plan:
  assumes "ProjectExecutionGraph ord enabled d = Ok g" "Plan ord enabled d = Ok order"
  shows "cg_Order g = order"
  using assms by (rule projected_plan)

definition demoGraph :: graph_definition where
  "demoGraph = \<lparr>gd_GraphID = ''flow'', gd_Version = ''v1'', gd_Nodes = map stepNode (wd_Steps (normalizeDefinition sameOrder demoFlow))\<rparr>"

lemma demoGraph_compiles: "Compile demoGraph = Ok (compiledGraph demoGraph)"
proof -
  have "bounded_text MaxGraphIDBytes (TrimSpace (gd_GraphID demoGraph)) \<and> bounded_text MaxVersionBytes (TrimSpace (gd_Version demoGraph))"
    "let ns = canonNodes (gd_Nodes demoGraph); ids = map gn_ID ns in
       ns \<noteq> [] \<and> length ns = 4 \<and> list_all node_ok ns \<and> distinct ids \<and> raw_edges (gd_Nodes demoGraph) = 3
       \<and> list_all (\<lambda>n. set (gn_DependsOn n) \<subseteq> set ids) ns"
    "length (canonicalJson (canonicalGraph demoGraph)) < 300" by code_simp+
  then have v: "valid_graph demoGraph" unfolding valid_graph_def Let_def by simp
  have "length (greedy (depsOf (canonNodes (gd_Nodes demoGraph))) [] (map gn_ID (canonNodes (gd_Nodes demoGraph)))) = length (gd_Nodes demoGraph)"
    by code_simp
  then show ?thesis using v valid_graph_acyclic [OF v] by (simp add: Compile_Ok)
qed

theorem projection_keeps_plan_witness:
  "\<exists>g. ProjectExecutionGraph sameOrder False demoFlow = Ok g \<and> cg_Order g = [''build'', ''test'', ''notify'', ''ship'']"
proof -
  let ?d = "normalizeDefinition sameOrder (normalizeDefinition sameOrder demoFlow)"
  have "ValidateDefinition ?d = []" "map stepNode (wd_Steps ?d) = gd_Nodes demoGraph" "wd_WorkflowID ?d = gd_GraphID demoGraph"
    by code_simp+
  then have "ProjectExecutionGraph sameOrder False demoFlow = Ok (compiledGraph demoGraph)"
    using demoFlow_compiled demoGraph_compiles by (simp add: ProjectExecutionGraph_def demoGraph_def)
  moreover have "Plan sameOrder False demoFlow = Ok [''build'', ''test'', ''notify'', ''ship'']" by code_simp
  ultimately show ?thesis using projection_keeps_plan by blast
qed

text \<open>
  C12: Expansion keeps the order of a composed workflow: where a step of the definition depends on
  another, every step the first expands to is planned after every step the second expands to, be they
  single steps or instances of subgraphs.
\<close>

theorem composition_keeps_order:
  assumes "Plan ord True d = Ok order" "hasGraphComposabilitySyntax (normalizeDefinition ord d)"
    and "i < length (wd_Steps d)" "j < length (wd_Steps d)"
    and "s_StepID (wd_Steps (normalizeDefinition ord d) ! j) \<in> set (s_DependsOn (wd_Steps (normalizeDefinition ord d) ! i))"
    and "a \<in> set (expandedFrom ord d j)" "b \<in> set (expandedFrom ord d i)"
  shows "before order a b"
  using assms by (rule composed_order)

theorem composition_keeps_order_witness:
  "before [''first'', ''part/x'', ''part/y'', ''after''] ''part/x'' ''after''"
proof -
  have "hasGraphComposabilitySyntax (normalizeDefinition sameOrder demoComposed)"
    "s_StepID (wd_Steps (normalizeDefinition sameOrder demoComposed) ! 1) \<in> set (s_DependsOn (wd_Steps (normalizeDefinition sameOrder demoComposed) ! 0))"
    "''part/x'' \<in> set (expandedFrom sameOrder demoComposed 1)" "''after'' \<in> set (expandedFrom sameOrder demoComposed 0)"
    "0 < length (wd_Steps demoComposed)" "1 < length (wd_Steps demoComposed)" by code_simp+
  from composition_keeps_order [OF demo_plan this(1,5,6,2,3,4)] show ?thesis .
qed

text \<open>
  C40: An instance of a subgraph whose only step depends on itself makes the expansion index an empty
  slice: whatever the names and the other fields of the two steps, \<open>Plan\<close> and the projection panic
  where validation would have reported the cycle.
\<close>

theorem self_dependent_subgraph_panics:
  assumes d: "normalizeDefinition ord d = n" "wd_Steps n = [outer]"
      "fmlookup (wd_Subgraphs n) (TrimSpace (s_UseSubgraph outer)) = Some \<lparr>sg_Steps = [inner]\<rparr>"
    and ord: "\<And>xs. mset (ord xs) = mset xs"
    and outer: "TrimSpace (s_UseSubgraph outer) \<noteq> []" "TrimSpace (s_StepID outer) \<noteq> []" "s_DependsOn outer = []"
      "s_Overrides outer = fmempty" "CHR ''/'' \<notin> set (resolveSubgraphAlias outer)"
    and inner: "TrimSpace (s_UseSubgraph inner) = []" "TrimSpace (s_ConditionTemplate inner) = []" "s_TemplateVars inner = fmempty"
      "TrimSpace (s_StepID inner) \<noteq> []" "map TrimSpace (s_DependsOn inner) = [TrimSpace (s_StepID inner)]"
  shows "Plan ord True d = Err IndexPanic \<and> ProjectExecutionGraph ord True d = Err (ComposeFailed IndexPanic)"
proof -
  have "compileDefinition ord True n = Err IndexPanic"
    using compileDefinition_panics [OF d(2,3) ord outer inner] .
  then show ?thesis using d(1) by (simp add: Plan_def ProjectExecutionGraph_def)
qed

theorem self_dependent_subgraph_panics_witness:
  "Plan sameOrder True demoLoop = Err IndexPanic \<and> ProjectExecutionGraph sameOrder True demoLoop = Err (ComposeFailed IndexPanic)"
proof (rule self_dependent_subgraph_panics [OF refl])
  let ?n = "normalizeDefinition sameOrder demoLoop"
  let ?outer = "hd (wd_Steps ?n)"
  let ?inner = "hd (sg_Steps (the (fmlookup (wd_Subgraphs ?n) ''sub'')))"
  show "wd_Steps ?n = [?outer]" by code_simp
  show "fmlookup (wd_Subgraphs ?n) (TrimSpace (s_UseSubgraph ?outer)) = Some \<lparr>sg_Steps = [?inner]\<rparr>" by code_simp
  show "mset (sameOrder xs) = mset xs" for xs by (simp add: sameOrder_def)
  show "TrimSpace (s_UseSubgraph ?outer) \<noteq> []" "TrimSpace (s_StepID ?outer) \<noteq> []" "s_DependsOn ?outer = []"
    "s_Overrides ?outer = fmempty" "CHR ''/'' \<notin> set (resolveSubgraphAlias ?outer)"
    by code_simp+
  show "TrimSpace (s_UseSubgraph ?inner) = []" "TrimSpace (s_ConditionTemplate ?inner) = []" "s_TemplateVars ?inner = fmempty"
    "TrimSpace (s_StepID ?inner) \<noteq> []" "map TrimSpace (s_DependsOn ?inner) = [TrimSpace (s_StepID ?inner)]"
    by code_simp+
qed

section \<open>The execution graph\<close>

text \<open>
  C13: \<open>Compile\<close> accepts exactly the graphs within its limits, with bounded ids, distinct nodes, known
  dependencies and no cycle, and returns the canonical definition with its digest and an order: every
  node once, after all it depends on.
\<close>

theorem graph_compile_exact:
  "Compile inp = Ok c \<longleftrightarrow>
     valid_graph inp \<and> acyclic_graph inp \<and> c = compiledGraph inp
     \<and> topological (map gn_ID (gd_Nodes (cg_Definition c))) (depsOf (gd_Nodes (cg_Definition c))) (cg_Order c)"
  unfolding Compile_Ok using compiledGraph_order [of inp] by auto




end
