(* ===== verification/Spec2Isabelle.thy ===== *)
theory Spec2Isabelle
  imports Scheduler_Properties Facade_Operations Facade_Reports Mailbox_Properties Workflow_Properties
begin

text \<open>
  A verification library for the orchestration core of \<open>baymax\<close>, an agent runtime in Go. It models two
  services that keep state for the rest of the runtime, the task scheduler
  (\<open>src/orchestration/scheduler\<close>) and the mailbox (\<open>src/orchestration/mailbox\<close>), from their state
  machines up to their facades, stores and workers, and the workflow engine
  (\<open>src/orchestration/workflow\<close>) with the execution graphs (\<open>src/orchestration/graph\<close>) its definitions
  are projected to: a definition is normalised, its subgraphs and templates are expanded, the result is
  validated, and then planned, compiled to a graph or run step by step with a checkpoint after each.

  \<^bold>\<open>Conventions.\<close> A Go string is a HOL \<open>string\<close> of bytes, a map an \<open>fmap\<close> (\<open>gomap\<close>), a struct a
  \<open>record\<close> whose fields carry a short prefix and the source's name, an enumeration a \<open>datatype\<close> with the
  source's constants (and a last constructor for any other text, where the Go type is a string). An
  operation that may fail returns \<open>Err e\<close> or \<open>Ok v\<close>; one that changes state returns its result and the new
  state. A time is the integer number of nanoseconds, the zero time is 0; \<open>clk\<close> is what \<open>time.Now()\<close>
  reads in a call and \<open>now\<close> the time the caller passes. Mutexes make every method one step: an
  interleaving of goroutines is a sequence of steps. Copies that only protect against aliasing are the
  identity. Numbers that may wrap are words or go through \<open>wrap64\<close>; floating point is \<open>f64\<close>, exact
  rationals rounded as binary64. Where Go ranges over a map and the order matters, the order is an
  argument.

  \<^bold>\<open>Foundations.\<close> \<open>Go_Prelude\<close> (results, maps, slices, \<open>strings\<close>, \<open>strconv\<close>, and the locale
  \<open>invariant_system\<close> of reachable states), \<open>Go_Numeric\<close> (integers, durations, binary64, FNV jitter),
  \<open>Go_Encoding\<close> (\<open>sort\<close>, hex, base64, SHA-1, UTF-8), \<open>Go_Sha256\<close>, \<open>Go_Json\<close> and \<open>Json_Text\<close> (the JSON parser and
  printer with their round trip), \<open>Paged_Query\<close> (pages, cursors as a locale \<open>cursor_codec\<close>, the query
  cache), \<open>Persist_Options\<close> (batching of both file stores), \<open>Topo_Order\<close> (topological orders, the
  greedy one, and the locale \<open>ready_queue\<close> of the loops that compute it).

  \<^bold>\<open>Scheduler.\<close> \<open>Scheduler_Types\<close> is \<open>types.go\<close>; \<open>Scheduler_State\<close> and \<open>Scheduler_Snapshot\<close> are
  \<open>state.go\<close>, one definition per operation of \<open>schedulerState\<close>; \<open>Scheduler_Query\<close> is \<open>query.go\<close>;
  \<open>Scheduler_Store\<close> and \<open>Scheduler_File\<close> are the two stores; \<open>Scheduler_Facade\<close> and
  \<open>Scheduler_Reconcile\<close> are \<open>scheduler.go\<close>, \<open>async_reconcile.go\<close> and the reconcile side of
  \<open>a2a_adapter.go\<close>. \<open>Scheduler_Inv\<close>, \<open>Scheduler_Safety\<close>, \<open>Scheduler_Claims\<close>, \<open>Scheduler_Ledger\<close> and
  \<open>Scheduler_Backoff\<close> show the invariant, that the operations keep it, what claims and commits do and
  the bounds of retry delays; \<open>Scheduler_Restore\<close> says what restoring a snapshot does and adds it to the
  operations (\<open>scheduler_from\<close>); \<open>Scheduler_Contract\<close> states what a store promises the facade as the
  locale \<open>queue_store_contract\<close>, which both stores keep; \<open>Scheduler_Durability\<close> follows the file and the
  temporary file it is written through, over failures and restarts (\<open>file_life\<close>);
  \<open>Scheduler_Board\<close> shows that the query cache is right and pages complete; \<open>Scheduler_Timeline\<close> numbers
  the events. The properties are in \<open>Scheduler_Properties\<close>, \<open>Facade_Properties\<close>, \<open>Facade_Operations\<close> and
  \<open>Facade_Reports\<close>.

  \<^bold>\<open>Mailbox.\<close> \<open>Mailbox_Types\<close> is \<open>types.go\<close> and \<open>host_plan_binding.go\<close>; \<open>Mailbox_State\<close> is \<open>state.go\<close>
  and the journal's append of \<open>history.go\<close>; \<open>Mailbox_Journal\<close> is the rest of \<open>history.go\<close>, with the
  cursors as text; \<open>Mailbox_Snapshot\<close> is snapshot and restore; \<open>Mailbox_Query\<close> is \<open>query.go\<close>;
  \<open>Mailbox_Store\<close> are \<open>store_memory.go\<close> and \<open>store_file.go\<close> with the locale \<open>mail_store_contract\<close> that
  both keep; \<open>Mailbox_Facade\<close> is \<open>mailbox.go\<close>, \<open>bridge.go\<close> and \<open>worker.go\<close>. \<open>Mailbox_Inv\<close> and
  \<open>Mailbox_Steps\<close> show the invariant and what no operation undoes, \<open>Mailbox_Runs\<close> that facade operations
  are steps of the state, that a due message is delivered in its turn and that a worker runs dry,
  \<open>Mailbox_Restore\<close> adds restoring snapshots to the operations (\<open>mailbox_from\<close>), and
  \<open>Mailbox_Cache\<close> shows that the query cache is right. The properties are in \<open>Mailbox_Properties\<close>.

  \<^bold>\<open>Execution graph.\<close> \<open>Exec_Graph\<close> is \<open>graph.go\<close>: \<open>Compile\<close> with its limits and canonical text, and
  the stable topological order. \<open>Exec_Graph_Order\<close> shows which graphs it accepts, what it returns for
  them, and that only the topology matters.

  \<^bold>\<open>Workflow.\<close> \<open>Workflow_Types\<close> has the definitions of \<open>engine.go\<close>, their normalisation and validation
  with the search for cycles; \<open>Workflow_Valid\<close> shows what validation accepts. \<open>Workflow_Compose\<close> is
  \<open>composability.go\<close>, the expansion of subgraphs, overrides and condition templates; an index out of
  range is the error \<open>IndexPanic\<close>. \<open>Workflow_Plan\<close> is \<open>Plan\<close> and \<open>graph_projection.go\<close>;
  \<open>Workflow_Expand\<close> follows a step through the expansion into the plan and the graph. \<open>Workflow_Engine\<close>
  and \<open>Workflow_Run\<close> are \<open>execute\<close>: the adapter, the context, the clock, the event callback, the pause
  controller, the timeline and the checkpoint store are functions of the record \<open>engine_env\<close> on a world
  of any type. \<open>Workflow_Progress\<close> has the invariant of a run, \<open>Workflow_Live\<close> that it returns, and
  \<open>Workflow_Store\<close> the checkpoint stores of \<open>legacy_checkpoint.go\<close> with the locale \<open>checkpoint_store\<close> of
  what the engine relies on. \<open>Workflow_Demo\<close> holds the examples, \<open>Workflow_Properties\<close> the properties.

  \<^bold>\<open>Restoring.\<close> \<open>Restore\<close> of both services takes any snapshot and checks part of it. The invariants and
  what follows from them are shown for the snapshots that a store or a mailbox has taken; a snapshot
  made up or edited by hand may pass the checks and break them. That a message is published once and
  that a settled one stays settled is shown for snapshots taken since. That the facade refines the state
  machine, that the file is never torn and that the query caches are right is shown for any snapshot.

  \<^bold>\<open>Bounds.\<close> \<open>json_parse\<close> takes the length of its text as fuel, which suffices because every call
  consumes a byte. \<open>follow\<close> and \<open>followHistory\<close>, the clients that page through an answer, take a number
  of calls; the properties that use them show that one call per record and one more suffice. Every other
  function is total by its termination proof. The steps of the mailbox assume \<open>clk \<noteq> 0\<close>, and a facade step
  of the scheduler that marks a task as awaiting its report assumes \<open>0 < clk\<close>: the process clock does not
  read the zero time or one before it. A run of the workflow engine needs no fuel: every round ends a step,
  and the expansion of subgraphs is bounded by \<open>maxSubgraphDepth\<close>. The orders in which Go visits a map
  are an argument \<open>ord\<close>; where a property depends on it, the hypothesis is that it visits every key once.

  \<^bold>\<open>Not modelled.\<close> The agent loop, providers, transports, tools and commands drive other processes.
  Contexts and their cancellation, except where a worker's run ends and in the workflow engine. The JSON codec of the file stores,
  which is a parameter: for the scheduler's file with the hypothesis that decoding gives back the exported
  fields of the states that JSON keeps (\<open>json_clean\<close>: valid UTF-8, and payload values that do not change
  their type). The temporary file of the mailbox's file store: there a failed write leaves the file
  as it was. The handler of a worker is a function of the record it is given: it does not use the
  mailbox, and nobody else does between the claim and the end of a round. \<open>SnapshotEquivalent\<close>, which compares snapshots with \<open>reflect.DeepEqual\<close> and so tells nil
  from empty maps and the locations of equal times apart, which the model does not keep; the dispatch of a claim to a peer; \<open>AdmitHostPlan\<close> (Go-quoted strings under
  SHA-256); and the continuations of the mailbox, which its operations only carry along. Of the workflow
  engine: \<open>ParseDefinition\<close>, which reads YAML; continuations and the native history, so that a pause ends
  the run with the error of an engine without a continuation store; and the adapters that send a step to
  a peer. The messages of validation errors are not kept.
\<close>

end
